(* ===== verification/Prelude.thy ===== *)
theory Prelude
  imports Main "HOL-Library.Word"
begin

text \<open>
  Shared vocabulary of the development: the machine integers of the service as words of their
  width, the arithmetic operations Rust's standard library gives them (checked, saturating,
  rounding up), results as sums, and the generic lemmas the component theories rest on.

  The collection \<open>arith_facts\<close> characterises every checked operation over the natural numbers, so
  that a component proof leaves words at once: \<open>auto simp: arith_facts\<close> turns a chain of
  \<open>?\<close>-operators into a conjunction of bounds and equations over \<open>nat\<close>.
\<close>

named_theorems arith_facts "checked and saturating arithmetic read over the natural numbers"

type_synonym byte = "8 word"
type_synonym bytes = "8 word list"
type_synonym u32 = "32 word"
type_synonym u64 = "64 word"
type_synonym u128 = "128 word"
type_synonym u256 = "256 word"
type_synonym address = "160 word"
type_synonym b256 = "256 word"

text \<open>A signed 64-bit integer (the column type BIGINT) is an \<open>int\<close> between the two bounds.\<close>

type_synonym i64 = int

abbreviation i64_max :: int where "i64_max \<equiv> 9223372036854775807"

text \<open>A point in time, and a length of time, in microseconds (the resolution of the database clock).\<close>

type_synonym time = int

subsection \<open>Checked and saturating arithmetic\<close>

definition checked_add :: "'a::len word \<Rightarrow> 'a word \<Rightarrow> 'a word option" where
  "checked_add a b = (if unat a + unat b < 2 ^ LENGTH('a) then Some (a + b) else None)"

definition checked_sub :: "'a::len word \<Rightarrow> 'a word \<Rightarrow> 'a word option" where
  "checked_sub a b = (if b \<le> a then Some (a - b) else None)"

definition checked_mul :: "'a::len word \<Rightarrow> 'a word \<Rightarrow> 'a word option" where
  "checked_mul a b = (if unat a * unat b < 2 ^ LENGTH('a) then Some (a * b) else None)"

definition checked_div :: "'a::len word \<Rightarrow> 'a word \<Rightarrow> 'a word option" where
  "checked_div a b = (if b = 0 then None else Some (a div b))"

definition saturating_add :: "'a::len word \<Rightarrow> 'a word \<Rightarrow> 'a word" where
  "saturating_add a b = (if unat a + unat b < 2 ^ LENGTH('a) then a + b else - 1)"

definition saturating_mul :: "'a::len word \<Rightarrow> 'a word \<Rightarrow> 'a word" where
  "saturating_mul a b = (if unat a * unat b < 2 ^ LENGTH('a) then a * b else - 1)"

text \<open>\<open>div_ceil\<close>: the quotient, plus one when the division leaves a remainder.\<close>

definition div_ceil :: "'a::len word \<Rightarrow> 'a word \<Rightarrow> 'a word" where
  "div_ceil a b = (let q = a div b in if a mod b = 0 then q else q + 1)"

lemma unat_max_word: "unat (- 1 :: 'a::len word) = 2 ^ LENGTH('a) - 1"
  by (simp add: unsigned_minus_1_eq_mask mask_eq_exp_minus_1)

lemma checked_add_Some_iff [arith_facts]:
  "checked_add a b = Some c \<longleftrightarrow> unat a + unat b = unat c" for a b c :: "'a::len word"
proof
  assume "checked_add a b = Some c"
  then show "unat a + unat b = unat c"
    by (auto simp: checked_add_def unat_word_ariths split: if_splits)
next
  assume e: "unat a + unat b = unat c"
  then have lt: "unat a + unat b < 2 ^ LENGTH('a)" by (simp add: unsigned_less)
  then have "unat (a + b) = unat c" using e by (simp add: unat_word_ariths)
  then have "a + b = c" by (simp add: word_unat_eq_iff)
  with lt show "checked_add a b = Some c" by (simp add: checked_add_def)
qed

lemma checked_add_None_iff [arith_facts]:
  "checked_add a b = None \<longleftrightarrow> 2 ^ LENGTH('a) \<le> unat a + unat b" for a b :: "'a::len word"
  by (auto simp: checked_add_def)

lemma checked_sub_Some_iff [arith_facts]:
  "checked_sub a b = Some c \<longleftrightarrow> unat a = unat b + unat c" for a b c :: "'a::len word"
proof
  assume "checked_sub a b = Some c"
  then show "unat a = unat b + unat c"
    by (auto simp: checked_sub_def word_le_nat_alt unat_sub split: if_splits)
next
  assume e: "unat a = unat b + unat c"
  then have le: "b \<le> a" by (simp add: word_le_nat_alt)
  then have "unat (a - b) = unat c" using e by (simp add: unat_sub)
  then have "a - b = c" by (simp add: word_unat_eq_iff)
  with le show "checked_sub a b = Some c" by (simp add: checked_sub_def)
qed

lemma checked_sub_None_iff [arith_facts]:
  "checked_sub a b = None \<longleftrightarrow> unat a < unat b" for a b :: "'a::len word"
  by (auto simp: checked_sub_def word_le_nat_alt)

lemma checked_mul_Some_iff [arith_facts]:
  "checked_mul a b = Some c \<longleftrightarrow> unat a * unat b = unat c" for a b c :: "'a::len word"
proof
  assume "checked_mul a b = Some c"
  then show "unat a * unat b = unat c"
    by (auto simp: checked_mul_def unat_word_ariths split: if_splits)
next
  assume e: "unat a * unat b = unat c"
  then have lt: "unat a * unat b < 2 ^ LENGTH('a)" by (simp add: unsigned_less)
  then have "unat (a * b) = unat c" using e by (simp add: unat_word_ariths)
  then have "a * b = c" by (simp add: word_unat_eq_iff)
  with lt show "checked_mul a b = Some c" by (simp add: checked_mul_def)
qed

lemma checked_mul_None_iff [arith_facts]:
  "checked_mul a b = None \<longleftrightarrow> 2 ^ LENGTH('a) \<le> unat a * unat b" for a b :: "'a::len word"
  by (auto simp: checked_mul_def)

lemma checked_div_Some_iff [arith_facts]:
  "checked_div a b = Some c \<longleftrightarrow> b \<noteq> 0 \<and> unat a div unat b = unat c" for a b c :: "'a::len word"
proof -
  have "a div b = c \<longleftrightarrow> unat a div unat b = unat c"
    by (simp add: word_unat_eq_iff unat_div)
  then show ?thesis by (auto simp: checked_div_def)
qed

lemma checked_div_None_iff [arith_facts]: "checked_div a b = None \<longleftrightarrow> b = 0"
  by (simp add: checked_div_def)

lemma unat_saturating_add [arith_facts]:
  "unat (saturating_add a b) = min (unat a + unat b) (2 ^ LENGTH('a) - 1)" for a b :: "'a::len word"
  by (auto simp: saturating_add_def unat_word_ariths unat_max_word)

lemma unat_saturating_mul [arith_facts]:
  "unat (saturating_mul a b) = min (unat a * unat b) (2 ^ LENGTH('a) - 1)" for a b :: "'a::len word"
  by (auto simp: saturating_mul_def unat_word_ariths unat_max_word)

subsection \<open>Rounding up\<close>

definition ceil_div :: "nat \<Rightarrow> nat \<Rightarrow> nat" where
  "ceil_div a b = (if a mod b = 0 then a div b else Suc (a div b))"

lemma ceil_div_ge:
  assumes "0 < b"
  shows "a \<le> ceil_div a b * b"
proof -
  have "a \<le> a div b * b + b"
    using div_mult_mod_eq [of a b] mod_less_divisor [of b a] assms by linarith
  then show ?thesis
    using div_mult_mod_eq [of a b] by (auto simp: ceil_div_def)
qed

lemma ceil_div_least:
  assumes "0 < b" and "a \<le> k * b"
  shows "ceil_div a b \<le> k"
proof (cases "a mod b = 0")
  case True
  have "a div b \<le> (k * b) div b" using assms(2) by (rule div_le_mono)
  with True assms(1) show ?thesis by (simp add: ceil_div_def)
next
  case False
  have "a div b * b < a" using False div_mult_mod_eq [of a b] by linarith
  then have "a div b * b < k * b" using assms(2) by linarith
  then have "a div b < k" by simp
  with False show ?thesis by (simp add: ceil_div_def)
qed

lemma ceil_div_le: "ceil_div a b \<le> a \<or> b = 0"
proof (cases "b = 0")
  case False
  have "ceil_div a b \<le> a" using False by (intro ceil_div_least) auto
  then show ?thesis ..
qed simp

lemma ceil_div_tight: "0 < b \<Longrightarrow> 0 < ceil_div a b \<Longrightarrow> (ceil_div a b - 1) * b < a"
  using ceil_div_least [of b a "ceil_div a b - 1"] by fastforce

lemma unat_div_ceil [arith_facts]:
  fixes a b :: "'a::len word"
  assumes "b \<noteq> 0"
  shows "unat (div_ceil a b) = ceil_div (unat a) (unat b)"
proof -
  have b: "0 < unat b" using assms by (simp add: unat_gt_0)
  have mod: "a mod b = 0 \<longleftrightarrow> unat a mod unat b = 0"
    by (metis unat_0 unat_eq_zero unat_mod)
  have "ceil_div (unat a) (unat b) \<le> unat a" using ceil_div_le b by fastforce
  then have lt: "ceil_div (unat a) (unat b) < 2 ^ LENGTH('a)"
    using unsigned_less [of a, where 'a = nat] by linarith
  show ?thesis
  proof (cases "a mod b = 0")
    case True
    then show ?thesis using mod by (simp add: div_ceil_def ceil_div_def unat_div)
  next
    case False
    then have "Suc (unat a div unat b) < 2 ^ LENGTH('a)" using lt mod by (simp add: ceil_div_def)
    then show ?thesis
      using False mod by (simp add: div_ceil_def ceil_div_def unat_div unat_word_ariths)
  qed
qed

subsection \<open>Conversions between widths\<close>

text \<open>\<open>i64::try_from\<close> on an unsigned 64-bit integer and \<open>u64::try_from\<close> on a signed one.\<close>

definition i64_of_u64 :: "u64 \<Rightarrow> i64 option" where
  "i64_of_u64 x = (if uint x \<le> i64_max then Some (uint x) else None)"

definition u64_of_i64 :: "i64 \<Rightarrow> u64 option" where
  "u64_of_i64 i = (if 0 \<le> i then Some (word_of_int i) else None)"

text \<open>\<open>u64::try_from\<close> on a 256-bit integer, and the widening \<open>U256::from\<close>.\<close>

definition u64_of_u256 :: "u256 \<Rightarrow> u64 option" where
  "u64_of_u256 x = (if unat x < 2 ^ 64 then Some (ucast x) else None)"

definition u256_of :: "'a::len word \<Rightarrow> u256" where
  "u256_of x = ucast x"

lemma u64_of_i64_of_u64: "i64_of_u64 x = Some i \<Longrightarrow> u64_of_i64 i = Some x"
  by (auto simp: i64_of_u64_def u64_of_i64_def split: if_splits)

lemma i64_of_u64_inj: "i64_of_u64 x = Some i \<Longrightarrow> i64_of_u64 y = Some i \<Longrightarrow> x = y"
  by (metis option.inject u64_of_i64_of_u64)

lemma i64_of_u64_of_i64:
  assumes "0 \<le> i" and "i \<le> i64_max" and "u64_of_i64 i = Some x"
  shows "i64_of_u64 x = Some i"
proof -
  have x: "x = word_of_int i" using assms by (simp add: u64_of_i64_def)
  have "uint x = i" using assms(1,2) by (simp add: x uint_word_of_int take_bit_int_eq_self)
  with assms(2) show ?thesis by (simp add: i64_of_u64_def)
qed

lemma i64_of_u64_range: "i64_of_u64 x = Some i \<Longrightarrow> 0 \<le> i \<and> i \<le> i64_max"
  by (auto simp: i64_of_u64_def split: if_splits)

lemma unat_u256_of_u64 [arith_facts]: "unat (u256_of (x :: u64)) = unat x"
  by (simp add: u256_of_def unsigned_ucast_eq take_bit_nat_eq_self unsigned_less [THEN less_le_trans])

lemma unat_u256_of_u128 [arith_facts]: "unat (u256_of (x :: u128)) = unat x"
  by (simp add: u256_of_def unsigned_ucast_eq take_bit_nat_eq_self unsigned_less [THEN less_le_trans])

subsection \<open>Results\<close>

text \<open>\<open>map_err\<close> on an option-valued parser: \<open>None\<close> becomes the given error.\<close>

definition ok_or :: "'e \<Rightarrow> 'a option \<Rightarrow> 'e + 'a" where
  "ok_or e x = (case x of None \<Rightarrow> Inl e | Some a \<Rightarrow> Inr a)"

text \<open>The \<open>?\<close> operator on a \<open>Result\<close>: stop at the first error.\<close>

definition and_then :: "'e + 'a \<Rightarrow> ('a \<Rightarrow> 'e + 'b) \<Rightarrow> 'e + 'b" where
  "and_then r f = (case r of Inl e \<Rightarrow> Inl e | Inr a \<Rightarrow> f a)"

lemma ok_or_simps [simp]: "ok_or e None = Inl e" "ok_or e (Some a) = Inr a"
  by (simp_all add: ok_or_def)

lemma and_then_simps [simp]: "and_then (Inl e) f = Inl e" "and_then (Inr a) f = f a"
  by (simp_all add: and_then_def)

lemma ok_or_Inr_iff: "ok_or e x = Inr a \<longleftrightarrow> x = Some a"
  by (cases x) simp_all

lemma and_then_Inr_iff: "and_then r f = Inr b \<longleftrightarrow> (\<exists>a. r = Inr a \<and> f a = Inr b)"
  by (cases r) simp_all

text \<open>Collecting a list of results: the first error wins, as \<open>collect::<Result<Vec<_>, _>>\<close> does.\<close>

fun collect :: "('e + 'a) list \<Rightarrow> 'e + 'a list" where
  "collect [] = Inr []"
| "collect (Inl e # rs) = Inl e"
| "collect (Inr a # rs) = (case collect rs of Inl e \<Rightarrow> Inl e | Inr as \<Rightarrow> Inr (a # as))"

lemma collect_map_Inr: "collect (map (\<lambda>x. Inr (f x)) xs) = Inr (map f xs)"
  by (induction xs) simp_all

lemma collect_Inrs [simp]: "collect (map Inr xs) = Inr xs"
  by (induction xs) simp_all

lemma collect_Inr_iff: "collect rs = Inr as \<longleftrightarrow> rs = map Inr as"
proof (induction rs arbitrary: as rule: collect.induct)
  case (3 a rs)
  show ?case
    using "3.IH" by (cases as) (auto split: sum.splits)
qed auto

end
