(* ===== verification/Codec.thy ===== *)
theory Codec
  imports Prelude
begin

text \<open>
  Texts and what is read back from them. The service stores every 256-bit value, address, hash and
  byte string as a text column and serves it as a text field; the functions that print and parse
  those texts are third-party (alloy), so they are a parameter of the model, the record \<open>codec\<close>,
  with the round-trip laws their documentation gives as the hypothesis \<open>codec_ok\<close>. The decimal
  integers are the standard library's and are defined here.

  The interface of every printer/parser pair is the locale \<open>text_codec\<close>; nullable columns and JSON
  arrays read back too (\<open>dec_option_enc\<close>, \<open>dec_list_enc\<close>), so a row codec is assembled from the
  codecs of its columns. \<open>std_codec\<close> is one concrete codec, used to show that
  the laws can hold.
\<close>

subsection \<open>The interface: a printer with a parser that reads it back\<close>

definition dec_option :: "('b \<Rightarrow> 'a option) \<Rightarrow> 'b option \<Rightarrow> 'a option option" where
  "dec_option d x = (case x of None \<Rightarrow> Some None | Some b \<Rightarrow> map_option Some (d b))"

fun dec_list :: "('b \<Rightarrow> 'a option) \<Rightarrow> 'b list \<Rightarrow> 'a list option" where
  "dec_list d [] = Some []"
| "dec_list d (b # bs) =
     (case d b of None \<Rightarrow> None | Some a \<Rightarrow> map_option (Cons a) (dec_list d bs))"

locale text_codec =
  fixes enc :: "'a \<Rightarrow> 'b" and dec :: "'b \<Rightarrow> 'a option"
  assumes dec_enc: "dec (enc x) = Some x"
begin

lemma enc_eq_iff: "enc x = enc y \<longleftrightarrow> x = y"
  by (metis dec_enc option.inject)

lemma dec_option_enc: "dec_option dec (map_option enc x) = Some x"
  by (cases x) (simp_all add: dec_option_def dec_enc)

lemma dec_list_enc: "dec_list dec (map enc xs) = Some xs"
  by (induction xs) (simp_all add: dec_enc)

lemma enc_image_iff: "enc x \<in> enc ` A \<longleftrightarrow> x \<in> A"
  by (auto simp: enc_eq_iff)

end

subsection \<open>Digits\<close>

definition digit_char :: "nat \<Rightarrow> char" where
  "digit_char n = char_of (if n < 10 then 48 + n else 87 + n)"

definition hex_val :: "char \<Rightarrow> nat option" where
  "hex_val c = (let n = of_char c in
     if 48 \<le> n \<and> n \<le> 57 then Some (n - 48)
     else if 97 \<le> n \<and> n \<le> 102 then Some (n - 87)
     else if 65 \<le> n \<and> n \<le> 70 then Some (n - 55) else None)"

definition dec_val :: "char \<Rightarrow> nat option" where
  "dec_val c = (let n = of_char c in if 48 \<le> n \<and> n \<le> 57 then Some (n - 48) else None)"

lemma of_char_digit_char: "n < 16 \<Longrightarrow> of_char (digit_char n) = (if n < 10 then 48 + n else 87 + n)"
  by (simp add: digit_char_def)

lemma hex_val_digit_char [simp]: "n < 16 \<Longrightarrow> hex_val (digit_char n) = Some n"
  by (simp add: hex_val_def of_char_digit_char Let_def)

lemma dec_val_digit_char [simp]: "n < 10 \<Longrightarrow> dec_val (digit_char n) = Some n"
  by (simp add: dec_val_def of_char_digit_char Let_def)

text \<open>Reading digits from the left, most significant first.\<close>

fun read_digits :: "(char \<Rightarrow> nat option) \<Rightarrow> nat \<Rightarrow> nat \<Rightarrow> string \<Rightarrow> nat option" where
  "read_digits v b acc [] = Some acc"
| "read_digits v b acc (c # cs) =
     (case v c of None \<Rightarrow> None | Some d \<Rightarrow> read_digits v b (acc * b + d) cs)"

lemma read_digits_append:
  "read_digits v b acc (xs @ ys) =
     (case read_digits v b acc xs of None \<Rightarrow> None | Some acc' \<Rightarrow> read_digits v b acc' ys)"
  by (induction xs arbitrary: acc) (auto split: option.splits)

fun to_hex :: "nat \<Rightarrow> nat \<Rightarrow> string" where
  "to_hex 0 n = []"
| "to_hex (Suc k) n = to_hex k (n div 16) @ [digit_char (n mod 16)]"

lemma length_to_hex [simp]: "length (to_hex k n) = k"
  by (induction k arbitrary: n) simp_all

lemma read_to_hex: "n < 16 ^ k \<Longrightarrow> read_digits hex_val 16 acc (to_hex k n) = Some (acc * 16 ^ k + n)"
proof (induction k arbitrary: n)
  case (Suc k)
  from Suc.prems have "n div 16 < 16 ^ k" by (simp add: less_mult_imp_div_less mult.commute)
  then have "read_digits hex_val 16 acc (to_hex k (n div 16)) = Some (acc * 16 ^ k + n div 16)"
    by (rule Suc.IH)
  then show ?case
    by (simp add: read_digits_append algebra_simps)
qed simp

fun show_nat :: "nat \<Rightarrow> string" where
  "show_nat n = (if n < 10 then [digit_char n] else show_nat (n div 10) @ [digit_char (n mod 10)])"

declare show_nat.simps [simp del]

lemma show_nat_nonempty: "show_nat n \<noteq> []"
  by (subst show_nat.simps) simp

lemma read_show_nat_acc: "\<exists>k. read_digits dec_val 10 acc (show_nat n) = Some (acc * 10 ^ k + n)"
proof (induction n rule: show_nat.induct)
  case (1 n)
  show ?case
  proof (cases "n < 10")
    case True
    then show ?thesis by (intro exI [of _ 1]) (simp add: show_nat.simps [of n])
  next
    case False
    then obtain k where
      k: "read_digits dec_val 10 acc (show_nat (n div 10)) = Some (acc * 10 ^ k + n div 10)"
      using "1.IH" by blast
    have "read_digits dec_val 10 acc (show_nat n) = Some (acc * 10 ^ Suc k + n)"
      using False k by (simp add: show_nat.simps [of n] read_digits_append algebra_simps)
    then show ?thesis by blast
  qed
qed

lemma read_show_nat: "read_digits dec_val 10 0 (show_nat n) = Some n"
  using read_show_nat_acc [of 0 n] by simp

subsection \<open>Decimal integers of the standard library\<close>

text \<open>
  \<open>str::parse::<u64>\<close>: an optional plus sign and at least one digit, failing on overflow;
  \<open>str::parse::<i64>\<close> takes a minus sign too.
\<close>

definition parse_u64 :: "string \<Rightarrow> u64 option" where
  "parse_u64 s =
     (let ds = (case s of c # cs \<Rightarrow> if c = CHR ''+'' then cs else s | [] \<Rightarrow> s)
      in if ds = [] then None
         else case read_digits dec_val 10 0 ds of
                None \<Rightarrow> None
              | Some n \<Rightarrow> if n < 2 ^ 64 then Some (word_of_nat n) else None)"

definition parse_i64 :: "string \<Rightarrow> i64 option" where
  "parse_i64 s =
     (let (neg, ds) = (case s of
            c # cs \<Rightarrow> if c = CHR ''-'' then (True, cs)
                       else if c = CHR ''+'' then (False, cs) else (False, s)
          | [] \<Rightarrow> (False, s))
      in if ds = [] then None
         else case read_digits dec_val 10 0 ds of
                None \<Rightarrow> None
              | Some n \<Rightarrow>
                  let i = (if neg then - int n else int n)
                  in if - i64_max - 1 \<le> i \<and> i \<le> i64_max then Some i else None)"

definition u64_text :: "u64 \<Rightarrow> string" where
  "u64_text x = show_nat (unat x)"

lemma hd_show_nat: "\<exists>d < 10. hd (show_nat n) = digit_char d"
proof (induction n rule: show_nat.induct)
  case (1 n)
  show ?case
  proof (cases "n < 10")
    case False
    then show ?thesis
      using "1.IH" show_nat_nonempty [of "n div 10"] by (simp add: show_nat.simps [of n])
  qed (auto simp: show_nat.simps [of n])
qed

lemma digit_char_not_plus: "d < 10 \<Longrightarrow> digit_char d \<noteq> CHR ''+''"
  using of_char_digit_char [of d] by auto

lemma parse_u64_text: "parse_u64 (u64_text x) = Some x"
proof -
  obtain c cs where s: "show_nat (unat x) = c # cs"
    using show_nat_nonempty by (cases "show_nat (unat x)") auto
  then have c: "c \<noteq> CHR ''+''" using hd_show_nat [of "unat x"] digit_char_not_plus by auto
  have "unat x < 18446744073709551616" using unsigned_less [of x, where 'a = nat] by simp
  with c show ?thesis
    using read_show_nat [of "unat x"] by (simp add: parse_u64_def u64_text_def s)
qed

interpretation u64_codec: text_codec u64_text parse_u64
  by unfold_locales (rule parse_u64_text)

subsection \<open>The third-party printers and parsers\<close>

text \<open>
  \<open>addr_text\<close> and \<open>b256_text\<close> are \<open>format!("{:#x}")\<close>, \<open>parse_addr\<close> and \<open>parse_b256\<close> the
  \<open>FromStr\<close> of the two types; \<open>u256_text\<close> is \<open>U256::to_string\<close>, \<open>parse_u256\<close>
  \<open>U256::from_str_radix(s, 10)\<close>; \<open>hex_prefixed\<close> is \<open>hex::encode_prefixed\<close> (also the \<open>Display\<close>
  of \<open>Bytes\<close>), \<open>hex_decode\<close> is \<open>hex::decode\<close> and \<open>parse_bytes\<close> the \<open>FromStr\<close> of \<open>Bytes\<close>.
\<close>

record codec =
  addr_text :: "address \<Rightarrow> string"
  parse_addr :: "string \<Rightarrow> address option"
  b256_text :: "b256 \<Rightarrow> string"
  parse_b256 :: "string \<Rightarrow> b256 option"
  u256_text :: "u256 \<Rightarrow> string"
  parse_u256 :: "string \<Rightarrow> u256 option"
  hex_prefixed :: "bytes \<Rightarrow> string"
  hex_decode :: "string \<Rightarrow> bytes option"
  parse_bytes :: "string \<Rightarrow> bytes option"

text \<open>\<open>s.strip_prefix("0x").unwrap_or(s)\<close>.\<close>

fun strip_0x :: "string \<Rightarrow> string" where
  "strip_0x (a # b # s) = (if a = CHR ''0'' \<and> b = CHR ''x'' then s else a # b # s)"
| "strip_0x s = s"

definition codec_ok :: "codec \<Rightarrow> bool" where
  "codec_ok c \<longleftrightarrow>
     (\<forall>a. parse_addr c (addr_text c a) = Some a) \<and>
     (\<forall>h. parse_b256 c (b256_text c h) = Some h) \<and>
     (\<forall>u. parse_u256 c (u256_text c u) = Some u) \<and>
     (\<forall>b. hex_decode c (strip_0x (hex_prefixed c b)) = Some b) \<and>
     (\<forall>b. parse_bytes c (hex_prefixed c b) = Some b)"

text \<open>Under the laws every pair is a text codec.\<close>

lemma codec_addr: "codec_ok c \<Longrightarrow> text_codec (addr_text c) (parse_addr c)"
  and codec_b256: "codec_ok c \<Longrightarrow> text_codec (b256_text c) (parse_b256 c)"
  and codec_u256: "codec_ok c \<Longrightarrow> text_codec (u256_text c) (parse_u256 c)"
  and codec_bytes: "codec_ok c \<Longrightarrow> text_codec (hex_prefixed c) (parse_bytes c)"
  and codec_hex: "codec_ok c \<Longrightarrow> text_codec (hex_prefixed c) (\<lambda>s. hex_decode c (strip_0x s))"
  by (unfold_locales, simp add: codec_ok_def)+

lemmas codec_read_back =
  codec_addr [THEN text_codec.dec_enc] codec_b256 [THEN text_codec.dec_enc]
  codec_u256 [THEN text_codec.dec_enc] codec_bytes [THEN text_codec.dec_enc]
  codec_hex [THEN text_codec.dec_enc]

lemmas codec_eq_iff =
  codec_addr [THEN text_codec.enc_eq_iff] codec_b256 [THEN text_codec.enc_eq_iff]
  codec_u256 [THEN text_codec.enc_eq_iff] codec_bytes [THEN text_codec.enc_eq_iff]

subsection \<open>A concrete codec\<close>

definition std_word_text :: "nat \<Rightarrow> 'a::len word \<Rightarrow> string" where
  "std_word_text k w = ''0x'' @ to_hex k (unat w)"

definition std_parse_word :: "nat \<Rightarrow> string \<Rightarrow> 'a::len word option" where
  "std_parse_word k s =
     (let ds = strip_0x s in
      if length ds = k then map_option word_of_nat (read_digits hex_val 16 0 ds) else None)"

definition std_parse_dec :: "string \<Rightarrow> u256 option" where
  "std_parse_dec s =
     (case read_digits dec_val 10 0 s of
        None \<Rightarrow> None
      | Some n \<Rightarrow> if n < 2 ^ 256 then Some (word_of_nat n) else None)"

fun std_hex_decode :: "string \<Rightarrow> bytes option" where
  "std_hex_decode [] = Some []"
| "std_hex_decode [c] = None"
| "std_hex_decode (a # b # s) =
     (case (hex_val a, hex_val b) of
        (Some x, Some y) \<Rightarrow> map_option (Cons (word_of_nat (16 * x + y))) (std_hex_decode s)
      | _ \<Rightarrow> None)"

definition std_hex_byte :: "byte \<Rightarrow> string" where
  "std_hex_byte b = [digit_char (unat b div 16), digit_char (unat b mod 16)]"

definition std_hex_prefixed :: "bytes \<Rightarrow> string" where
  "std_hex_prefixed bs = ''0x'' @ concat (map std_hex_byte bs)"

definition std_codec :: codec where
  "std_codec =
     \<lparr>addr_text = std_word_text 40, parse_addr = std_parse_word 40,
      b256_text = std_word_text 64, parse_b256 = std_parse_word 64,
      u256_text = (\<lambda>u. show_nat (unat u)), parse_u256 = std_parse_dec,
      hex_prefixed = std_hex_prefixed, hex_decode = std_hex_decode,
      parse_bytes = (\<lambda>s. std_hex_decode (strip_0x s))\<rparr>"

lemma std_word_round: "2 ^ LENGTH('a) \<le> (16::nat) ^ k \<Longrightarrow>
  std_parse_word k (std_word_text k (w :: 'a::len word)) = Some w"
  using less_le_trans [OF unsigned_less [of w, where 'a = nat]]
  by (simp add: std_parse_word_def std_word_text_def read_to_hex)

lemma std_dec_round: "std_parse_dec (show_nat (unat u)) = Some u"
  using unsigned_less [of u, where 'a = nat] by (simp add: std_parse_dec_def read_show_nat)

lemma std_hex_round: "std_hex_decode (concat (map std_hex_byte bs)) = Some bs"
proof (induction bs)
  case (Cons b bs)
  have "unat b < 256" using unsigned_less [of b, where 'a = nat] by simp
  then show ?case using Cons.IH by (simp add: std_hex_byte_def)
qed simp

lemma codec_ok_std: "codec_ok std_codec"
  by (simp add: codec_ok_def std_codec_def std_word_round std_dec_round std_hex_prefixed_def
      std_hex_round)

end
