(* ===== verification/Types.thy ===== *)
theory Types
  imports Codec
begin

text \<open>
  The domain types: proposal identifiers, order uids, the lifecycle status and what moves it
  (\<open>domain/proposal.rs\<close>, \<open>domain/validator.rs\<close>), the order as \<open>settle()\<close> needs it
  (\<open>byos-common/src/settlement.rs\<close>) and the structs of the contract bindings. The text forms of the
  enumerations are those their \<open>strum\<close> and \<open>serde\<close> attributes prescribe.
\<close>

subsection \<open>Identifiers\<close>

datatype proposal_id = ProposalId (pid_raw: u64)

definition proposal_id_text :: "proposal_id \<Rightarrow> string" where
  "proposal_id_text i = u64_text (pid_raw i)"

definition parse_proposal_id :: "string \<Rightarrow> proposal_id option" where
  "parse_proposal_id s = map_option ProposalId (parse_u64 s)"

interpretation proposal_id_codec: text_codec proposal_id_text parse_proposal_id
  by unfold_locales (simp add: proposal_id_text_def parse_proposal_id_def parse_u64_text)

text \<open>\<open>OrderUid(pub [u8; 56])\<close>: the length is the invariant \<open>uid_ok\<close>, established by \<open>from_hex\<close>.\<close>

datatype order_uid = OrderUid (uid_bytes: bytes)

definition uid_ok :: "order_uid \<Rightarrow> bool" where
  "uid_ok u \<longleftrightarrow> length (uid_bytes u) = 56"

datatype uid_error = UidHex | UidLength nat

definition uid_text :: "codec \<Rightarrow> order_uid \<Rightarrow> string" where
  "uid_text c u = hex_prefixed c (uid_bytes u)"

definition from_hex :: "codec \<Rightarrow> string \<Rightarrow> uid_error + order_uid" where
  "from_hex c s =
     and_then (ok_or UidHex (hex_decode c (strip_0x s))) (\<lambda>bs.
       if length bs \<noteq> 56 then Inl (UidLength (length bs)) else Inr (OrderUid bs))"

lemma from_hex_uid_ok: "from_hex c s = Inr u \<Longrightarrow> uid_ok u"
  by (auto simp: from_hex_def and_then_Inr_iff uid_ok_def split: if_splits)

lemma from_hex_text: "codec_ok c \<Longrightarrow> uid_ok u \<Longrightarrow> from_hex c (uid_text c u) = Inr u"
  by (simp add: from_hex_def uid_text_def codec_read_back uid_ok_def)

lemma uid_text_eq_iff: "codec_ok c \<Longrightarrow> uid_text c u = uid_text c v \<longleftrightarrow> u = v"
  by (auto simp: uid_text_def codec_eq_iff order_uid.expand)

subsection \<open>Lifecycle status\<close>

datatype proposal_status =
    Submitted | Active | Rejected | Expired | Executing | Settled | SettleFailed | Penalized
  | SimFailed | Cancelled

fun status_text :: "proposal_status \<Rightarrow> string" where
  "status_text Submitted = ''submitted''"
| "status_text Active = ''active''"
| "status_text Rejected = ''rejected''"
| "status_text Expired = ''expired''"
| "status_text Executing = ''executing''"
| "status_text Settled = ''settled''"
| "status_text SettleFailed = ''settleFailed''"
| "status_text Penalized = ''penalized''"
| "status_text SimFailed = ''simFailed''"
| "status_text Cancelled = ''cancelled''"

definition all_statuses :: "proposal_status list" where
  "all_statuses = [Submitted, Active, Rejected, Expired, Executing, Settled, SettleFailed,
                   Penalized, SimFailed, Cancelled]"

definition parse_status :: "string \<Rightarrow> proposal_status option" where
  "parse_status s = map_of (map (\<lambda>st. (status_text st, st)) all_statuses) s"

interpretation status_codec: text_codec status_text parse_status
proof
  fix st show "parse_status (status_text st) = Some st"
    by (cases st) (simp_all add: parse_status_def all_statuses_def)
qed

lemma parse_status_Some_iff: "parse_status s = Some st \<longleftrightarrow> s = status_text st"
proof
  assume "parse_status s = Some st"
  then have "(s, st) \<in> set (map (\<lambda>st. (status_text st, st)) all_statuses)"
    unfolding parse_status_def by (rule map_of_SomeD)
  then show "s = status_text st" by auto
qed (simp add: status_codec.dec_enc)

lemmas status_text_simps [simp] = status_codec.dec_enc status_codec.enc_eq_iff

declare status_text.simps [simp del]

text \<open>What the driver reported about a settlement, stripped of the wire vocabulary.\<close>

datatype settlement_outcome = Started | Succeeded b256 | Reverted b256 | Abandoned

fun is_chargeable :: "settlement_outcome \<Rightarrow> bool" where
  "is_chargeable (Reverted _) = True"
| "is_chargeable Abandoned = True"
| "is_chargeable _ = False"

subsection \<open>The validation seam\<close>

datatype rejection_reason =
    InsufficientEscrow | UnsupportedOrder | AmountMismatch | OrderNotFound | Unprofitable

fun reason_text :: "rejection_reason \<Rightarrow> string" where
  "reason_text InsufficientEscrow = ''InsufficientEscrow''"
| "reason_text UnsupportedOrder = ''UnsupportedOrder''"
| "reason_text AmountMismatch = ''AmountMismatch''"
| "reason_text OrderNotFound = ''OrderNotFound''"
| "reason_text Unprofitable = ''Unprofitable''"

definition parse_reason :: "string \<Rightarrow> rejection_reason option" where
  "parse_reason s =
     map_of (map (\<lambda>r. (reason_text r, r))
       [InsufficientEscrow, UnsupportedOrder, AmountMismatch, OrderNotFound, Unprofitable]) s"

interpretation reason_codec: text_codec reason_text parse_reason
proof
  fix r show "parse_reason (reason_text r) = Some r"
    by (cases r) (simp_all add: parse_reason_def)
qed

record simulation_outcome =
  so_gas_used :: u64
  so_trampoline :: address
  so_sell_token :: address
  so_buy_token :: address

datatype verdict = Accept "simulation_outcome option" | Reject rejection_reason | VSimFailed

subsection \<open>Contract structs\<close>

record interaction =
  i_target :: address
  i_value :: u256
  i_callData :: bytes

record onchain_proposal =
  oc_orderUidHash :: b256
  oc_sellAmount :: u256
  oc_buyAmount :: u256
  oc_validUntil :: u256
  oc_nonce :: u256

subsection \<open>A stored proposal\<close>

record proposal =
  p_id :: proposal_id
  p_sub_solver :: address
  p_order_uid :: order_uid
  p_order_uid_hash :: b256
  p_sell_amount :: u256
  p_buy_amount :: u256
  p_sell_token :: address
  p_buy_token :: address
  p_interactions :: "interaction list"
  p_interactions_hash :: b256
  p_valid_until :: u256
  p_nonce :: u256
  p_signature :: bytes
  p_status :: proposal_status
  p_rejection_reason :: "rejection_reason option"
  p_gas_used :: "u64 option"
  p_trampoline :: "address option"
  p_settlement_tx_hash :: "b256 option"
  p_penalty_tx_hash :: "b256 option"

subsection \<open>The order a proposal settles\<close>

datatype order_kind = Sell | Buy

datatype signing_scheme = Eip712 | EthSign | Eip1271 | PreSign

record cow_order =
  co_sell_token :: address
  co_buy_token :: address
  co_receiver :: address
  co_sell_amount :: u256
  co_buy_amount :: u256
  co_valid_to :: u32
  co_app_data :: b256
  co_fee_amount :: u256
  co_kind :: order_kind
  co_partially_fillable :: bool
  co_signing_scheme :: signing_scheme
  co_signature :: bytes

text \<open>An orderbook order with what the envelope check and the simulation need.\<close>

record order_record =
  or_order :: cow_order
  or_pre_interactions :: "interaction list"
  or_post_interactions :: "interaction list"
  or_erc20_balances :: bool

subsection \<open>JSON values\<close>

datatype json =
    JNull | JBool bool | JNum int | JStr string | JArr "json list" | JObj "(string \<times> json) list"

text \<open>\<open>Value::get\<close>, \<open>Value::as_str\<close> and \<open>Value::as_array\<close>.\<close>

fun json_get :: "json \<Rightarrow> string \<Rightarrow> json option" where
  "json_get (JObj kvs) k = map_of kvs k"
| "json_get _ _ = None"

fun json_str :: "json \<Rightarrow> string option" where
  "json_str (JStr s) = Some s"
| "json_str _ = None"

fun json_arr :: "json \<Rightarrow> json list option" where
  "json_arr (JArr xs) = Some xs"
| "json_arr _ = None"

subsection \<open>A sample order and proposal\<close>

text \<open>A sell order for 1000000 atoms with a buy limit of 900000, and a proposal that fills it.\<close>

definition sample_uid :: order_uid where
  "sample_uid = OrderUid (replicate 56 7)"

definition sample_proposal :: proposal where
  "sample_proposal =
     \<lparr>p_id = ProposalId 1, p_sub_solver = 17, p_order_uid = sample_uid, p_order_uid_hash = 5,
      p_sell_amount = 1000000, p_buy_amount = 950000, p_sell_token = 21, p_buy_token = 22,
      p_interactions = [\<lparr>i_target = 33, i_value = 0, i_callData = [1, 2, 3]\<rparr>],
      p_interactions_hash = 6, p_valid_until = 1700000000, p_nonce = 9, p_signature = [4, 5],
      p_status = Submitted, p_rejection_reason = None, p_gas_used = None, p_trampoline = None,
      p_settlement_tx_hash = None, p_penalty_tx_hash = None\<rparr>"

definition sample_record :: "bool \<Rightarrow> order_record" where
  "sample_record partial =
     \<lparr>or_order = \<lparr>co_sell_token = 21, co_buy_token = 22, co_receiver = 0, co_sell_amount = 1000000,
        co_buy_amount = 900000, co_valid_to = 1700000000, co_app_data = 0, co_fee_amount = 0,
        co_kind = Sell, co_partially_fillable = partial, co_signing_scheme = Eip712,
        co_signature = []\<rparr>,
      or_pre_interactions = [], or_post_interactions = [], or_erc20_balances = True\<rparr>"

end
