(* ===== verification/Envelope.thy ===== *)
theory Envelope
  imports Types
begin

text \<open>
  The validation envelope (\<open>domain/order.rs\<close>): which proposal/order pairs the simulation supports.
  \<open>check_envelope\<close> with its two branches is the code; \<open>in_envelope\<close> is the promise over unbounded
  numbers (exact amounts for a fill-or-kill order, a non-empty fill within the order at no worse than
  its limit price for a partially fillable one), which the checked multiplications implement exactly.
\<close>

definition check_fill_or_kill :: "order_record \<Rightarrow> proposal \<Rightarrow> rejection_reason + unit" where
  "check_fill_or_kill r p =
     (let amounts_match = (case co_kind (or_order r) of
            Sell \<Rightarrow> p_sell_amount p = co_sell_amount (or_order r)
          | Buy \<Rightarrow> p_buy_amount p = co_buy_amount (or_order r))
      in if \<not> amounts_match then Inl AmountMismatch else Inr ())"

definition check_partial_fill :: "order_record \<Rightarrow> proposal \<Rightarrow> rejection_reason + unit" where
  "check_partial_fill r p =
     (case co_kind (or_order r) of
        Sell \<Rightarrow>
          if p_sell_amount p = 0 \<or> co_sell_amount (or_order r) < p_sell_amount p
          then Inl AmountMismatch
          else (case (checked_mul (p_buy_amount p) (co_sell_amount (or_order r)),
                      checked_mul (p_sell_amount p) (co_buy_amount (or_order r))) of
                  (Some l, Some r') \<Rightarrow> if r' \<le> l then Inr () else Inl AmountMismatch
                | _ \<Rightarrow> Inl AmountMismatch)
      | Buy \<Rightarrow>
          if p_buy_amount p = 0 \<or> p_sell_amount p = 0
             \<or> co_buy_amount (or_order r) < p_buy_amount p
          then Inl AmountMismatch
          else (case (checked_mul (p_sell_amount p) (co_buy_amount (or_order r)),
                      checked_mul (p_buy_amount p) (co_sell_amount (or_order r))) of
                  (Some l, Some r') \<Rightarrow> if l \<le> r' then Inr () else Inl AmountMismatch
                | _ \<Rightarrow> Inl AmountMismatch))"

definition check_envelope :: "order_record \<Rightarrow> proposal \<Rightarrow> rejection_reason + unit" where
  "check_envelope r p =
     (if \<not> or_erc20_balances r then Inl UnsupportedOrder
      else if co_partially_fillable (or_order r) then check_partial_fill r p
      else check_fill_or_kill r p)"

subsection \<open>What the envelope promises\<close>

text \<open>The limit price of the order, cross-multiplied: the proposal pays at least what was signed for.\<close>

definition at_limit_price :: "cow_order \<Rightarrow> proposal \<Rightarrow> bool" where
  "at_limit_price ord p \<longleftrightarrow>
     unat (p_sell_amount p) * unat (co_buy_amount ord)
       \<le> unat (p_buy_amount p) * unat (co_sell_amount ord)"

definition in_envelope :: "order_record \<Rightarrow> proposal \<Rightarrow> bool" where
  "in_envelope r p \<longleftrightarrow> or_erc20_balances r \<and>
     (let ord = or_order r in
      if co_partially_fillable ord then
        p_sell_amount p \<noteq> 0 \<and> at_limit_price ord p \<and>
        (case co_kind ord of
           Sell \<Rightarrow> p_sell_amount p \<le> co_sell_amount ord
         | Buy \<Rightarrow> p_buy_amount p \<noteq> 0 \<and> p_buy_amount p \<le> co_buy_amount ord)
      else (case co_kind ord of
              Sell \<Rightarrow> p_sell_amount p = co_sell_amount ord
            | Buy \<Rightarrow> p_buy_amount p = co_buy_amount ord))"

text \<open>The products the comparison needs fit 256 bits (only partial fills multiply).\<close>

definition products_fit :: "order_record \<Rightarrow> proposal \<Rightarrow> bool" where
  "products_fit r p \<longleftrightarrow> co_partially_fillable (or_order r) \<longrightarrow>
     unat (p_buy_amount p) * unat (co_sell_amount (or_order r)) < 2 ^ 256"

lemma cross_mul_cases:
  fixes a b c d :: "'a::len word"
  shows "(case checked_mul a b of None \<Rightarrow> Inl e | Some l \<Rightarrow>
            (case checked_mul c d of None \<Rightarrow> Inl e | Some r \<Rightarrow> if r \<le> l then Inr () else Inl e)) =
         (if unat c * unat d \<le> unat a * unat b \<and> unat a * unat b < 2 ^ LENGTH('a)
          then Inr () else Inl e)" (is ?thesis1)
    and "(case checked_mul c d of None \<Rightarrow> Inl e | Some l \<Rightarrow>
            (case checked_mul a b of None \<Rightarrow> Inl e | Some r \<Rightarrow> if l \<le> r then Inr () else Inl e)) =
         (if unat c * unat d \<le> unat a * unat b \<and> unat a * unat b < 2 ^ LENGTH('a)
          then Inr () else Inl e)" (is ?thesis2)
proof -
  have le: "c * d \<le> a * b \<longleftrightarrow> unat c * unat d \<le> unat a * unat b"
    if "unat a * unat b < 2 ^ LENGTH('a)" "unat c * unat d < 2 ^ LENGTH('a)"
    using that by (simp add: word_le_nat_alt unat_word_ariths)
  show ?thesis1 and ?thesis2
    by (auto simp: checked_mul_def le)
qed

lemma check_partial_fill_eq:
  "check_partial_fill r p =
     (if (case co_kind (or_order r) of
            Sell \<Rightarrow> p_sell_amount p \<noteq> 0 \<and> p_sell_amount p \<le> co_sell_amount (or_order r)
          | Buy \<Rightarrow> p_buy_amount p \<noteq> 0 \<and> p_sell_amount p \<noteq> 0
                   \<and> p_buy_amount p \<le> co_buy_amount (or_order r))
         \<and> at_limit_price (or_order r) p
         \<and> unat (p_buy_amount p) * unat (co_sell_amount (or_order r)) < 2 ^ 256
      then Inr () else Inl AmountMismatch)"
proof (cases "co_kind (or_order r)")
  case Sell
  then show ?thesis
    by (simp add: check_partial_fill_def cross_mul_cases(1) at_limit_price_def flip: not_le)
next
  case Buy
  then show ?thesis
    by (simp add: check_partial_fill_def cross_mul_cases(2) at_limit_price_def flip: not_le)
qed

lemma check_envelope_Inr_iff:
  "check_envelope r p = Inr () \<longleftrightarrow> in_envelope r p \<and> products_fit r p"
  by (auto simp: check_envelope_def check_partial_fill_eq check_fill_or_kill_def in_envelope_def
      products_fit_def Let_def split: order_kind.splits)

lemma check_envelope_Inl_cases:
  "check_envelope r p = Inl e \<Longrightarrow>
     e = (if or_erc20_balances r then AmountMismatch else UnsupportedOrder)"
  by (auto simp: check_envelope_def check_partial_fill_eq check_fill_or_kill_def Let_def
      split: order_kind.splits if_splits)


end
