(* ===== verification/Scoring.thy ===== *)
theory Scoring
  imports Envelope
begin

text \<open>
  Scoring (\<open>domain/scoring.rs\<close>): effective gas, the candidate a proposal is weighed as, the scaling of
  a partially fillable order's limits to the fill, and \<open>score = surplus - gas\<close> in wei. The reference
  definitions \<open>surplus_int\<close> and \<open>score_int\<close> are the same figures over unbounded integers; the
  lemmas say the code computes them or gives up, and never wraps around.
\<close>

definition ESCROW_GAS_ESTIMATION :: u64 where
  "ESCROW_GAS_ESTIMATION = 200000"

definition GAS_BUFFER :: u64 where
  "GAS_BUFFER = 30000"

definition ETHER :: u256 where
  "ETHER = 1000000000000000000"

definition effective_gas :: "u64 \<Rightarrow> u64" where
  "effective_gas simulated = saturating_add simulated GAS_BUFFER"

definition surplus_token :: "bool \<Rightarrow> address \<Rightarrow> address \<Rightarrow> address" where
  "surplus_token is_sell_order sell_token buy_token =
     (if is_sell_order then buy_token else sell_token)"

datatype surplus_price = SurplusPrice u256

record candidate =
  c_order_sell :: u256
  c_order_buy :: u256
  c_proposal_sell :: u256
  c_proposal_buy :: u256
  c_is_sell_order :: bool
  c_gas_cost :: u256

definition scaled_to_fill :: "candidate \<Rightarrow> bool \<Rightarrow> candidate option" where
  "scaled_to_fill c partially_fillable =
     (if \<not> partially_fillable then Some c
      else if c_is_sell_order c then
        if c_order_sell c = 0 then None
        else Option.bind (checked_mul (c_order_buy c) (c_proposal_sell c)) (\<lambda>prod.
          let scaled_buy = div_ceil prod (c_order_sell c)
          in Some (c\<lparr>c_order_sell := c_proposal_sell c, c_order_buy := scaled_buy\<rparr>))
      else
        Option.bind (checked_mul (c_order_sell c) (c_proposal_buy c)) (\<lambda>prod.
        Option.bind (checked_div prod (c_order_buy c)) (\<lambda>scaled_sell.
          Some (c\<lparr>c_order_sell := scaled_sell, c_order_buy := c_proposal_buy c\<rparr>))))"

fun score_proposal :: "candidate \<Rightarrow> surplus_price \<Rightarrow> u256 option" where
  "score_proposal c (SurplusPrice native_price) =
     Option.bind
       (if c_is_sell_order c then checked_sub (c_proposal_buy c) (c_order_buy c)
        else checked_sub (c_order_sell c) (c_proposal_sell c)) (\<lambda>surplus.
     Option.bind (checked_mul surplus native_price) (\<lambda>prod.
     Option.bind (checked_div prod ETHER) (\<lambda>surplus_eth.
       checked_sub surplus_eth (c_gas_cost c))))"

subsection \<open>Effective gas\<close>

lemma unat_ETHER [simp]: "unat ETHER = 1000000000000000000"
  by (simp add: ETHER_def)

lemma ETHER_nonzero [simp]: "ETHER \<noteq> 0"
  by (simp add: ETHER_def)

lemma unat_effective_gas: "unat (effective_gas g) = min (unat g + 30000) (2 ^ 64 - 1)"
  by (simp add: effective_gas_def GAS_BUFFER_def unat_saturating_add)

lemma effective_gas_ge: "g \<le> effective_gas g"
  using unsigned_less [of g, where 'a = nat] by (simp add: word_le_nat_alt unat_effective_gas)

lemma effective_gas_mono: "g \<le> h \<Longrightarrow> effective_gas g \<le> effective_gas h"
  by (simp add: word_le_nat_alt unat_effective_gas)

subsection \<open>The score over unbounded integers\<close>

definition surplus_int :: "candidate \<Rightarrow> int" where
  "surplus_int c = (if c_is_sell_order c then uint (c_proposal_buy c) - uint (c_order_buy c)
     else uint (c_order_sell c) - uint (c_proposal_sell c))"

definition score_int :: "candidate \<Rightarrow> u256 \<Rightarrow> int" where
  "score_int c price =
     surplus_int c * uint price div 1000000000000000000 - uint (c_gas_cost c)"

lemma uint_as_int_unat: "uint (w :: 'a::len word) = int (unat w)"
  by simp

lemma checked_sub_int: "checked_sub a b = Some d \<longleftrightarrow> uint a - uint b = uint d"
  unfolding checked_sub_Some_iff uint_as_int_unat by linarith

lemma surplus_Some_iff:
  "(if c_is_sell_order c then checked_sub (c_proposal_buy c) (c_order_buy c)
    else checked_sub (c_order_sell c) (c_proposal_sell c)) = Some s
   \<longleftrightarrow> surplus_int c = uint s"
  by (simp add: surplus_int_def checked_sub_int)

lemma surplus_int_word:
  assumes "0 \<le> surplus_int c"
  shows "\<exists>s :: u256. surplus_int c = uint s"
proof -
  have "(if c_is_sell_order c then checked_sub (c_proposal_buy c) (c_order_buy c)
    else checked_sub (c_order_sell c) (c_proposal_sell c)) \<noteq> None"
    using assms by (simp add: surplus_int_def checked_sub_def word_le_def split: if_splits)
  then show ?thesis by (metis not_None_eq surplus_Some_iff)
qed

lemma checked_product_quotient:
  fixes s price g v :: "'a::len word"
  assumes "q \<noteq> 0"
  shows "Option.bind (checked_mul s price) (\<lambda>m.
         Option.bind (checked_div m q) (\<lambda>e. checked_sub e g)) = Some v
    \<longleftrightarrow> unat s * unat price < 2 ^ LENGTH('a) \<and> unat s * unat price div unat q = unat g + unat v"
  using assms
  by (auto simp: checked_mul_def checked_div_def checked_sub_Some_iff unat_div unat_word_ariths
      split: if_splits)

lemma score_Some_iff:
  "score_proposal c (SurplusPrice price) = Some v \<longleftrightarrow>
     0 \<le> surplus_int c \<and> surplus_int c * uint price < 2 ^ 256 \<and>
     score_int c price = uint v"
proof (cases "0 \<le> surplus_int c")
  case True
  then obtain s :: u256 where s: "surplus_int c = uint s" using surplus_int_word by blast
  have fit: "unat s * unat price < 2 ^ 256 \<longleftrightarrow> uint s * uint price < 2 ^ 256"
    using of_nat_less_iff [where 'a = int, of "unat s * unat price" "2 ^ 256"] by simp
  have val: "unat s * unat price div 1000000000000000000 = unat (c_gas_cost c) + unat v \<longleftrightarrow>
      uint s * uint price div 1000000000000000000 - uint (c_gas_cost c) = uint v"
  proof -
    have "uint s * uint price div 1000000000000000000
        = int (unat s * unat price div 1000000000000000000)"
      by (simp add: zdiv_int)
    then show ?thesis unfolding uint_as_int_unat by linarith
  qed
  have "score_proposal c (SurplusPrice price) = Some v \<longleftrightarrow>
      unat s * unat price < 2 ^ 256 \<and>
      unat s * unat price div 1000000000000000000 = unat (c_gas_cost c) + unat v"
    using surplus_Some_iff [of c s] checked_product_quotient [of ETHER s price "c_gas_cost c" v] s
    by simp
  with fit val True s show ?thesis by (simp add: score_int_def)
next
  case False
  then have "\<not> (\<exists>s :: u256. surplus_int c = uint s)" by auto
  then have "(if c_is_sell_order c then checked_sub (c_proposal_buy c) (c_order_buy c)
    else checked_sub (c_order_sell c) (c_proposal_sell c)) = None"
    using surplus_Some_iff [of c] by (metis not_None_eq)
  with False show ?thesis by simp
qed

subsection \<open>Scaling to the fill\<close>

lemma scaled_to_fill_sell:
  assumes "c_is_sell_order c"
  shows "scaled_to_fill c True = Some c' \<longleftrightarrow>
    c_order_sell c \<noteq> 0 \<and> unat (c_order_buy c) * unat (c_proposal_sell c) < 2 ^ 256 \<and>
    c' = c\<lparr>c_order_sell := c_proposal_sell c,
            c_order_buy := div_ceil (c_order_buy c * c_proposal_sell c) (c_order_sell c)\<rparr>"
  using assms by (auto simp: scaled_to_fill_def checked_mul_def)

lemma scaled_to_fill_buy:
  assumes "\<not> c_is_sell_order c"
  shows "scaled_to_fill c True = Some c' \<longleftrightarrow>
    c_order_buy c \<noteq> 0 \<and> unat (c_order_sell c) * unat (c_proposal_buy c) < 2 ^ 256 \<and>
    c' = c\<lparr>c_order_sell := c_order_sell c * c_proposal_buy c div c_order_buy c,
            c_order_buy := c_proposal_buy c\<rparr>"
  using assms by (auto simp: scaled_to_fill_def checked_mul_def checked_div_def)

lemma scaled_to_fill_frame:
  "scaled_to_fill c pf = Some c' \<Longrightarrow>
     c_proposal_sell c' = c_proposal_sell c \<and> c_proposal_buy c' = c_proposal_buy c \<and>
     c_is_sell_order c' = c_is_sell_order c \<and> c_gas_cost c' = c_gas_cost c"
  by (auto simp: scaled_to_fill_def bind_eq_Some_conv Let_def split: if_splits)

lemma unat_div_ceil_mult:
  fixes a b d :: "'a::len word"
  assumes "unat a * unat b < 2 ^ LENGTH('a)" and "d \<noteq> 0"
  shows "unat (div_ceil (a * b) d) = ceil_div (unat a * unat b) (unat d)"
  using assms by (simp add: unat_div_ceil unat_word_ariths)

lemma ceil_div_le_iff: "0 < d \<Longrightarrow> ceil_div a d \<le> k \<longleftrightarrow> a \<le> k * d"
  by (meson ceil_div_ge ceil_div_least le_trans mult_le_mono1)

lemma le_div_iff: "0 < d \<Longrightarrow> k \<le> a div d \<longleftrightarrow> k * d \<le> a" for a d k :: nat
  by (rule less_eq_div_iff_mult_less_eq)

text \<open>The scaled limit is met exactly when the unscaled limit price is.\<close>

lemma scaled_surplus_iff:
  assumes "scaled_to_fill c True = Some c'"
  shows "0 \<le> surplus_int c' \<longleftrightarrow>
    (if c_is_sell_order c
     then unat (c_order_buy c) * unat (c_proposal_sell c) \<le> unat (c_proposal_buy c) * unat (c_order_sell c)
     else unat (c_proposal_sell c) * unat (c_order_buy c) \<le> unat (c_order_sell c) * unat (c_proposal_buy c))"
proof (cases "c_is_sell_order c")
  case True
  with assms have d: "c_order_sell c \<noteq> 0" "unat (c_order_buy c) * unat (c_proposal_sell c) < 2 ^ 256"
    and c': "c_order_buy c' = div_ceil (c_order_buy c * c_proposal_sell c) (c_order_sell c)"
    by (auto simp: scaled_to_fill_sell)
  have "0 \<le> surplus_int c' \<longleftrightarrow> unat (c_order_buy c') \<le> unat (c_proposal_buy c)"
    using scaled_to_fill_frame [OF assms] True by (simp add: surplus_int_def word_le_nat_alt flip: word_le_def)
  also have "\<dots> \<longleftrightarrow> unat (c_order_buy c) * unat (c_proposal_sell c)
      \<le> unat (c_proposal_buy c) * unat (c_order_sell c)"
    using d by (simp add: c' unat_div_ceil_mult ceil_div_le_iff unat_gt_0)
  finally show ?thesis using True by simp
next
  case False
  with assms have d: "c_order_buy c \<noteq> 0" "unat (c_order_sell c) * unat (c_proposal_buy c) < 2 ^ 256"
    and c': "c_order_sell c' = c_order_sell c * c_proposal_buy c div c_order_buy c"
    by (auto simp: scaled_to_fill_buy)
  have "0 \<le> surplus_int c' \<longleftrightarrow> unat (c_proposal_sell c) \<le> unat (c_order_sell c')"
    using scaled_to_fill_frame [OF assms] False by (simp add: surplus_int_def word_le_nat_alt flip: word_le_def)
  also have "\<dots> \<longleftrightarrow> unat (c_proposal_sell c) * unat (c_order_buy c)
      \<le> unat (c_order_sell c) * unat (c_proposal_buy c)"
    using d by (simp add: c' unat_div unat_word_ariths le_div_iff unat_gt_0)
  finally show ?thesis using False by simp
qed

text \<open>The candidate \<open>/solve\<close> and the profitability gate weigh an order and a proposal as.\<close>

definition candidate_of :: "cow_order \<Rightarrow> proposal \<Rightarrow> u256 \<Rightarrow> candidate" where
  "candidate_of ord p gas_cost =
     \<lparr>c_order_sell = co_sell_amount ord, c_order_buy = co_buy_amount ord,
      c_proposal_sell = p_sell_amount p, c_proposal_buy = p_buy_amount p,
      c_is_sell_order = (co_kind ord = Sell), c_gas_cost = gas_cost\<rparr>"

text \<open>The score is \<open>surplus - gas\<close> in wei over unbounded integers: \<open>score_proposal\<close> returns \<open>v\<close>
  exactly when the surplus over the order's limit is not negative, its conversion at the reference
  price fits 256 bits, and \<open>surplus * price div 10^18 - gas = v\<close> (in particular the gas does not exceed
  it). No intermediate wraps around: where a product would overflow the result is \<open>None\<close>.\<close>

theorem score_is_surplus_minus_gas:
  "score_proposal c (SurplusPrice price) = Some v \<longleftrightarrow>
     0 \<le> surplus_int c \<and> surplus_int c * uint price < 2 ^ 256 \<and>
     surplus_int c * uint price div 1000000000000000000 - uint (c_gas_cost c) = uint v"
  using score_Some_iff [of c price v] by (simp add: score_int_def)

text \<open>The envelope and the scorer agree on partial fills: a proposal the envelope accepts against a
  partially fillable order always scales without overflow, and the scaled candidate meets the scaled
  limit (its surplus is not negative), so the two roundings of the scaling (up for the buy limit of a
  sell order, down for the sell limit of a buy order) never turn an accepted fill into a loss.\<close>

theorem accepted_partial_fill_has_surplus:
  assumes "check_envelope r p = Inr ()" and "co_partially_fillable (or_order r)"
  shows "\<exists>c'. scaled_to_fill (candidate_of (or_order r) p g) True = Some c' \<and> 0 \<le> surplus_int c'"
proof -
  let ?c = "candidate_of (or_order r) p g"
  from assms have e: "in_envelope r p" "products_fit r p" by (simp_all add: check_envelope_Inr_iff)
  with assms(2) have lim: "at_limit_price (or_order r) p" and nz: "p_sell_amount p \<noteq> 0"
    and fit: "unat (p_buy_amount p) * unat (co_sell_amount (or_order r)) < 2 ^ 256"
    by (auto simp: in_envelope_def products_fit_def Let_def)
  show ?thesis
  proof (cases "co_kind (or_order r)")
    case Sell
    with e assms(2) nz have "co_sell_amount (or_order r) \<noteq> 0"
      by (auto simp: in_envelope_def Let_def)
    with Sell fit lim obtain c' where c': "scaled_to_fill ?c True = Some c'"
      by (fastforce simp: scaled_to_fill_sell candidate_of_def at_limit_price_def mult.commute)
    then show ?thesis
      using scaled_surplus_iff [OF c'] Sell lim
      by (auto simp: candidate_of_def at_limit_price_def mult.commute)
  next
    case Buy
    with e assms(2) have "co_buy_amount (or_order r) \<noteq> 0"
      by (auto simp: in_envelope_def Let_def)
    with Buy fit obtain c' where c': "scaled_to_fill ?c True = Some c'"
      by (fastforce simp: scaled_to_fill_buy candidate_of_def mult.commute)
    then show ?thesis
      using scaled_surplus_iff [OF c'] Buy lim
      by (auto simp: candidate_of_def at_limit_price_def mult.commute)
  qed
qed

theorem accepted_partial_fill_has_surplus_witness:
  "check_envelope (sample_record True) (sample_proposal\<lparr>p_sell_amount := 500000, p_buy_amount := 460000\<rparr>) = Inr ()
   \<and> (\<exists>c'. scaled_to_fill (candidate_of (or_order (sample_record True))
         (sample_proposal\<lparr>p_sell_amount := 500000, p_buy_amount := 460000\<rparr>) 0) True = Some c' \<and> 0 \<le> surplus_int c')"
proof -
  have "check_envelope (sample_record True)
      (sample_proposal\<lparr>p_sell_amount := 500000, p_buy_amount := 460000\<rparr>) = Inr ()"
    by (simp add: check_envelope_def check_partial_fill_def checked_mul_def sample_record_def sample_proposal_def)
  moreover from this have "\<exists>c'. scaled_to_fill (candidate_of (or_order (sample_record True))
         (sample_proposal\<lparr>p_sell_amount := 500000, p_buy_amount := 460000\<rparr>) 0) True = Some c' \<and> 0 \<le> surplus_int c'"
    by (rule accepted_partial_fill_has_surplus) (simp add: sample_record_def)
  ultimately show ?thesis ..
qed

end
