(* ===== verification/Gas_Cut.thy ===== *)
theory Gas_Cut
  imports Scoring
begin

text \<open>
  The gas cut (\<open>domain/gas_cut.rs\<close>): what the service keeps back of a trade to pay for submitting it,
  and the fulfillment amounts shaped around it. \<open>cut_amount_nat\<close> is the cut over unbounded integers,
  the gas bill at the sell token's price rounded up; the lemmas say when a cut exists and that it
  covers the bill, overshoots it by less than one atom and never breaches the signed limit.
\<close>

datatype sell_token_price = SellTokenPrice u256

record gas_cut =
  gc_amount :: u256
  gc_executed_amount :: u256

fun gas_cut_size :: "candidate \<Rightarrow> sell_token_price \<Rightarrow> gas_cut option" where
  "gas_cut_size c (SellTokenPrice sell_token_price) =
     (if sell_token_price = 0 then None
      else Option.bind (checked_mul (c_gas_cost c) ETHER) (\<lambda>prod.
        let amount = div_ceil prod sell_token_price in
        Option.bind
          (if c_is_sell_order c then
             Option.bind (checked_sub (c_order_sell c) amount) (\<lambda>executed.
             Option.bind (checked_mul (c_proposal_buy c) executed) (\<lambda>prod.
             Option.bind (checked_div prod (c_proposal_sell c)) (\<lambda>received.
               if received < c_order_buy c then None else Some executed)))
           else
             Option.bind (checked_add (c_proposal_sell c) amount) (\<lambda>out.
               if c_order_sell c < out then None else Some (c_order_buy c)))
          (\<lambda>executed_amount. Some \<lparr>gc_amount = amount, gc_executed_amount = executed_amount\<rparr>)))"

definition cut_amount_nat :: "candidate \<Rightarrow> u256 \<Rightarrow> nat" where
  "cut_amount_nat c price = ceil_div (unat (c_gas_cost c) * 10 ^ 18) (unat price)"

lemma gas_cut_amount:
  assumes "gas_cut_size c (SellTokenPrice price) = Some gcut"
  shows "price \<noteq> 0" and "unat (gc_amount gcut) = cut_amount_nat c price"
proof -
  from assms show p: "price \<noteq> 0" by (auto split: if_splits)
  with assms obtain prod where "checked_mul (c_gas_cost c) ETHER = Some prod"
    and "gc_amount gcut = div_ceil prod price"
    by (auto simp: bind_eq_Some_conv Let_def split: if_splits)
  with p show "unat (gc_amount gcut) = cut_amount_nat c price"
    by (simp add: checked_mul_Some_iff unat_div_ceil cut_amount_nat_def)
qed

lemma gas_cut_sell:
  assumes "gas_cut_size c (SellTokenPrice price) = Some gcut" and "c_is_sell_order c"
  shows "unat (c_order_sell c) = unat (gc_amount gcut) + unat (gc_executed_amount gcut)"
    and "c_proposal_sell c \<noteq> 0"
    and "unat (c_order_buy c)
           \<le> unat (c_proposal_buy c) * unat (gc_executed_amount gcut) div unat (c_proposal_sell c)"
proof -
  from assms obtain prod received where
    s: "checked_sub (c_order_sell c) (gc_amount gcut) = Some (gc_executed_amount gcut)"
    and m: "checked_mul (c_proposal_buy c) (gc_executed_amount gcut) = Some prod"
    and d: "checked_div prod (c_proposal_sell c) = Some received"
    and l: "\<not> received < c_order_buy c"
    by (auto simp: bind_eq_Some_conv Let_def split: if_splits)
  from s show "unat (c_order_sell c) = unat (gc_amount gcut) + unat (gc_executed_amount gcut)"
    by (simp add: checked_sub_Some_iff)
  from d show "c_proposal_sell c \<noteq> 0" by (simp add: checked_div_Some_iff)
  from m d l show "unat (c_order_buy c)
      \<le> unat (c_proposal_buy c) * unat (gc_executed_amount gcut) div unat (c_proposal_sell c)"
    by (simp add: checked_mul_Some_iff checked_div_Some_iff not_less word_le_nat_alt)
qed

lemma gas_cut_buy:
  assumes "gas_cut_size c (SellTokenPrice price) = Some gcut" and "\<not> c_is_sell_order c"
  shows "gc_executed_amount gcut = c_order_buy c"
    and "unat (c_proposal_sell c) + unat (gc_amount gcut) \<le> unat (c_order_sell c)"
proof -
  from assms obtain out where
    a: "checked_add (c_proposal_sell c) (gc_amount gcut) = Some out"
    and l: "\<not> c_order_sell c < out" and "gc_executed_amount gcut = c_order_buy c"
    by (auto simp: bind_eq_Some_conv Let_def split: if_splits)
  then show "gc_executed_amount gcut = c_order_buy c"
    and "unat (c_proposal_sell c) + unat (gc_amount gcut) \<le> unat (c_order_sell c)"
    by (simp_all add: checked_add_Some_iff not_less word_le_nat_alt)
qed

text \<open>C33. A cut covers the gas bill and no more than an atom over it: at the sell token's price (wei per
  \<open>10^18\<close> atoms) the cut is worth at least the gas cost, and one atom less would not be.\<close>

theorem gas_cut_covers_bill:
  assumes "gas_cut_size c (SellTokenPrice price) = Some gcut"
  shows "unat (c_gas_cost c) * 10 ^ 18 \<le> unat (gc_amount gcut) * unat price \<and>
    (gc_amount gcut \<noteq> 0 \<longrightarrow> (unat (gc_amount gcut) - 1) * unat price < unat (c_gas_cost c) * 10 ^ 18)"
proof -
  have "0 < unat price" using gas_cut_amount(1) [OF assms] by (simp add: unat_gt_0)
  then show ?thesis
    using ceil_div_ge [of "unat price" "unat (c_gas_cost c) * 10 ^ 18"]
      ceil_div_tight [of "unat price" "unat (c_gas_cost c) * 10 ^ 18"]
    by (simp add: gas_cut_amount(2) [OF assms, unfolded cut_amount_nat_def] flip: unat_gt_0)
qed

text \<open>A cut respects what the user signed. For a sell order the executed amount plus the cut is the
  order's sell amount (the driver's check on the fulfillment) and the part of the route's output the
  user keeps is at least the buy limit; for a buy order the full buy amount is executed and the
  route's input plus the cut stays within the signed sell amount.\<close>

theorem gas_cut_respects_limit:
  assumes "gas_cut_size c (SellTokenPrice price) = Some gcut"
  shows "if c_is_sell_order c
    then unat (gc_executed_amount gcut) + unat (gc_amount gcut) = unat (c_order_sell c) \<and>
         unat (c_order_buy c) * unat (c_proposal_sell c)
           \<le> unat (c_proposal_buy c) * unat (gc_executed_amount gcut)
    else gc_executed_amount gcut = c_order_buy c \<and>
         unat (c_proposal_sell c) + unat (gc_amount gcut) \<le> unat (c_order_sell c)"
proof (cases "c_is_sell_order c")
  case True
  then show ?thesis
    using gas_cut_sell [OF assms True] by (simp add: le_div_iff unat_gt_0)
next
  case False
  then show ?thesis using gas_cut_buy [OF assms False] by simp
qed

definition sample_candidate :: "bool \<Rightarrow> candidate" where
  "sample_candidate sell =
     \<lparr>c_order_sell = 1000000, c_order_buy = 900000, c_proposal_sell = (if sell then 1000000 else 950000),
      c_proposal_buy = (if sell then 1000000 else 900000), c_is_sell_order = sell, c_gas_cost = 100\<rparr>"

lemma sample_cut:
  "gas_cut_size (sample_candidate True) (SellTokenPrice 500000000000000000)
     = Some \<lparr>gc_amount = 200, gc_executed_amount = 999800\<rparr>"
  by (simp add: sample_candidate_def checked_mul_def checked_sub_def checked_div_def div_ceil_def ETHER_def)

theorem gas_cut_covers_bill_witness:
  "unat (100::u256) * 10 ^ 18 \<le> unat (200::u256) * unat (500000000000000000::u256)"
  using gas_cut_covers_bill [OF sample_cut] by (simp add: sample_candidate_def)

theorem gas_cut_respects_limit_witness:
  "unat (999800::u256) + unat (200::u256) = unat (1000000::u256)"
  using gas_cut_respects_limit [OF sample_cut] by (simp add: sample_candidate_def)

end
