(* ===== verification/Penalty_Policy.thy ===== *)
theory Penalty_Policy
  imports Types
begin

text \<open>
  The penalty policy (\<open>domain/penalty.rs\<close>): the two debit amounts, a queued non-settlement charge and
  the failure of the chain edge. The trait \<open>DebitEscrow\<close> is the locale of \<open>Operator\<close>.
\<close>

text \<open>The one variant \<open>Transient(String)\<close> of \<open>DebitError\<close>.\<close>

datatype debit_error = Transient string

definition revert_debit :: "u256 \<Rightarrow> u256 \<Rightarrow> u256" where
  "revert_debit settlement_cost c_l = saturating_add settlement_cost c_l"

definition non_settlement_debit :: "u256 \<Rightarrow> u256" where
  "non_settlement_debit c_l = c_l div 10"

record pending_penalty =
  pp_id :: i64
  pp_proposal_id :: proposal_id
  pp_sub_solver :: address
  pp_order_uid :: order_uid

lemma unat_revert_debit [arith_facts]:
  "unat (revert_debit g c) = min (unat g + unat c) (2 ^ 256 - 1)"
  by (simp add: revert_debit_def unat_saturating_add)

lemma unat_non_settlement_debit [arith_facts]: "unat (non_settlement_debit c) = unat c div 10"
  by (simp add: non_settlement_debit_def unat_div)

lemma debits_ordered: "non_settlement_debit c \<le> c" "c \<le> revert_debit g c"
proof -
  have "unat c div 10 \<le> unat c" by simp
  then show "non_settlement_debit c \<le> c" by (simp add: word_le_nat_alt arith_facts del: div_le_dividend)
  show "c \<le> revert_debit g c"
    using unsigned_less [of c, where 'a = nat] by (simp add: word_le_nat_alt arith_facts)
qed

end
