(* ===== verification/Audit_Events.thy ===== *)
theory Audit_Events
  imports Penalty_Policy
begin

text \<open>
  Audit events (\<open>domain/audit.rs\<close>): the evidence the store emits for every mutation, its
  dispute-query keys, the wire name of an event and its JSON payload. \<open>event_status\<close> reads an event
  as what it says about the proposal's status; the lifecycle theory folds it over the trail.
\<close>

datatype audit_kind =
    Received proposal
  | AuditCancelled proposal_id address order_uid
  | StatusChanged (sc_proposal_id: proposal_id) (sc_sub_solver: address) (sc_order_uid: order_uid)
      (sc_from: proposal_status) (sc_to: proposal_status)
      (sc_rejection_reason: "rejection_reason option") (sc_settlement_tx_hash: "b256 option")
  | AuditPenalized proposal_id address order_uid u256 "b256 option" b256
  | NonSettlementDebited proposal_id address order_uid u256 b256
  | DriverNotified proposal_id address order_uid string

record audit_event =
  ae_occurred_at :: time
  ae_kind :: audit_kind

fun kind_proposal_id :: "audit_kind \<Rightarrow> proposal_id" where
  "kind_proposal_id (Received p) = p_id p"
| "kind_proposal_id (AuditCancelled i _ _) = i"
| "kind_proposal_id (StatusChanged i _ _ _ _ _ _) = i"
| "kind_proposal_id (AuditPenalized i _ _ _ _ _) = i"
| "kind_proposal_id (NonSettlementDebited i _ _ _ _) = i"
| "kind_proposal_id (DriverNotified i _ _ _) = i"

fun kind_sub_solver :: "audit_kind \<Rightarrow> address" where
  "kind_sub_solver (Received p) = p_sub_solver p"
| "kind_sub_solver (AuditCancelled _ s _) = s"
| "kind_sub_solver (StatusChanged _ s _ _ _ _ _) = s"
| "kind_sub_solver (AuditPenalized _ s _ _ _ _) = s"
| "kind_sub_solver (NonSettlementDebited _ s _ _ _) = s"
| "kind_sub_solver (DriverNotified _ s _ _) = s"

fun kind_settlement_tx_hash :: "audit_kind \<Rightarrow> b256 option" where
  "kind_settlement_tx_hash (StatusChanged _ _ _ _ _ _ tx) = tx"
| "kind_settlement_tx_hash (AuditPenalized _ _ _ _ tx _) = tx"
| "kind_settlement_tx_hash _ = None"

fun kind_order_uid :: "audit_kind \<Rightarrow> order_uid" where
  "kind_order_uid (Received p) = p_order_uid p"
| "kind_order_uid (AuditCancelled _ _ u) = u"
| "kind_order_uid (StatusChanged _ _ u _ _ _ _) = u"
| "kind_order_uid (AuditPenalized _ _ u _ _ _) = u"
| "kind_order_uid (NonSettlementDebited _ _ u _ _) = u"
| "kind_order_uid (DriverNotified _ _ u _) = u"

fun transition_verb :: "proposal_status \<Rightarrow> proposal_status \<Rightarrow> string" where
  "transition_verb from Active = (if from = Executing then ''released'' else ''validated'')"
| "transition_verb _ Rejected = ''rejected''"
| "transition_verb _ Expired = ''expired''"
| "transition_verb _ Executing = ''settlement_started''"
| "transition_verb _ SimFailed = ''sim_failed''"
| "transition_verb _ Settled = ''settled''"
| "transition_verb _ SettleFailed = ''settle_failed''"
| "transition_verb _ Penalized = ''penalized''"
| "transition_verb _ Cancelled = ''cancelled''"
| "transition_verb _ Submitted = ''resubmitted''"

fun event_type :: "audit_kind \<Rightarrow> string" where
  "event_type (Received _) = ''received''"
| "event_type (AuditCancelled _ _ _) = ''cancelled''"
| "event_type (AuditPenalized _ _ _ _ _ _) = ''penalized''"
| "event_type (NonSettlementDebited _ _ _ _ _) = ''non_settlement_debited''"
| "event_type (DriverNotified _ _ _ _) = ''driver_notified''"
| "event_type (StatusChanged _ _ _ from to _ _) = transition_verb from to"

definition interaction_payload :: "codec \<Rightarrow> interaction \<Rightarrow> json" where
  "interaction_payload c i =
     JObj [(''target'', JStr (addr_text c (i_target i))), (''value'', JStr (u256_text c (i_value i))),
           (''callData'', JStr (hex_prefixed c (i_callData i)))]"

definition received_payload :: "codec \<Rightarrow> proposal \<Rightarrow> json" where
  "received_payload c p =
     JObj [(''id'', JNum (uint (pid_raw (p_id p)))),
           (''subSolver'', JStr (addr_text c (p_sub_solver p))),
           (''orderUid'', JStr (uid_text c (p_order_uid p))),
           (''orderUidHash'', JStr (b256_text c (p_order_uid_hash p))),
           (''sellAmount'', JStr (u256_text c (p_sell_amount p))),
           (''buyAmount'', JStr (u256_text c (p_buy_amount p))),
           (''interactions'', JArr (map (interaction_payload c) (p_interactions p))),
           (''interactionsHash'', JStr (b256_text c (p_interactions_hash p))),
           (''validUntil'', JStr (u256_text c (p_valid_until p))),
           (''nonce'', JStr (u256_text c (p_nonce p))),
           (''signature'', JStr (hex_prefixed c (p_signature p)))]"

definition tx_entry :: "codec \<Rightarrow> b256 option \<Rightarrow> (string \<times> json) list" where
  "tx_entry c tx = (case tx of None \<Rightarrow> [] | Some h \<Rightarrow> [(''settlementTxHash'', JStr (b256_text c h))])"

fun payload :: "codec \<Rightarrow> audit_kind \<Rightarrow> json" where
  "payload c (Received p) = received_payload c p"
| "payload c (AuditCancelled _ _ _) = JObj []"
| "payload c (DriverNotified _ _ _ kind) = JObj [(''kind'', JStr kind)]"
| "payload c (NonSettlementDebited _ _ _ amount tx) =
     JObj [(''amount'', JStr (u256_text c amount)), (''penaltyTxHash'', JStr (b256_text c tx))]"
| "payload c (AuditPenalized _ _ _ amount settlement_tx tx) =
     JObj ([(''from'', JStr (status_text SettleFailed)), (''to'', JStr (status_text Penalized)),
            (''amount'', JStr (u256_text c amount)), (''penaltyTxHash'', JStr (b256_text c tx))]
           @ tx_entry c settlement_tx)"
| "payload c (StatusChanged _ _ _ from to reason tx) =
     JObj ([(''from'', JStr (status_text from)), (''to'', JStr (status_text to)),
            (''rejectionReason'', case reason of None \<Rightarrow> JNull | Some r \<Rightarrow> JStr (reason_text r))]
           @ tx_entry c tx)"

subsection \<open>What the evidence determines\<close>

lemma interaction_payload_inj:
  "codec_ok c \<Longrightarrow> interaction_payload c i = interaction_payload c j \<longleftrightarrow> i = j"
  by (auto simp: interaction_payload_def codec_eq_iff)

lemma map_interaction_payload_inj:
  assumes "codec_ok c" and "map (interaction_payload c) xs = map (interaction_payload c) ys"
  shows "xs = ys"
  using map_injective [OF assms(2)] assms(1) by (simp add: inj_on_def interaction_payload_inj)

lemma uint_pid_eq_iff: "uint (pid_raw i) = uint (pid_raw j) \<longleftrightarrow> i = j"
  by (auto simp: word_uint_eq_iff proposal_id.expand)

text \<open>A \<open>received\<close> event's payload is complete evidence of what was signed: two proposals with the
  same payload have the same identifier, signer, order, amounts, interactions, validity, nonce and
  signature. Nothing a dispute needs is lost in the text forms of the evidence.\<close>

theorem received_payload_complete:
  assumes "codec_ok c" and "received_payload c p = received_payload c q"
  shows "p_id p = p_id q \<and> p_sub_solver p = p_sub_solver q \<and> p_order_uid p = p_order_uid q \<and>
    p_order_uid_hash p = p_order_uid_hash q \<and> p_sell_amount p = p_sell_amount q \<and>
    p_buy_amount p = p_buy_amount q \<and> p_interactions p = p_interactions q \<and>
    p_interactions_hash p = p_interactions_hash q \<and> p_valid_until p = p_valid_until q \<and>
    p_nonce p = p_nonce q \<and> p_signature p = p_signature q"
  using assms map_interaction_payload_inj [OF assms(1), of "p_interactions p" "p_interactions q"]
  by (auto simp: received_payload_def codec_eq_iff uid_text_eq_iff uint_pid_eq_iff)

theorem received_payload_complete_witness:
  "p_nonce sample_proposal = p_nonce (sample_proposal\<lparr>p_status := Expired\<rparr>)"
  using received_payload_complete [OF codec_ok_std, of sample_proposal "sample_proposal\<lparr>p_status := Expired\<rparr>"]
  by (simp add: received_payload_def)

text \<open>What an event says about the proposal's status: \<open>None\<close> when it records no transition.\<close>

fun event_status :: "audit_kind \<Rightarrow> proposal_status option" where
  "event_status (Received p) = Some Submitted"
| "event_status (AuditCancelled _ _ _) = Some Cancelled"
| "event_status (StatusChanged _ _ _ _ to _ _) = Some to"
| "event_status (AuditPenalized _ _ _ _ _ _) = Some Penalized"
| "event_status (NonSettlementDebited _ _ _ _ _) = None"
| "event_status (DriverNotified _ _ _ _) = None"

end
