(* ===== verification/Db.thy ===== *)
theory Db
  imports Audit_Events
begin

text \<open>
  The tables the store keeps (\<open>migrations/*.sql\<close>) and the row codec (the last section of
  \<open>infra/storage.rs\<close>): rows hold the raw column values, \<open>proposal_of_row\<close> is
  \<open>Proposal::try_from(ProposalRow)\<close> and \<open>row_of\<close> the binds of the INSERT. The statements the store
  runs against the tables are functions on \<open>db\<close>. \<open>db_ok\<close> is the invariant every statement keeps:
  distinct identifiers below the sequences, rows that decode and re-encode, solutions that point at
  stored proposals; \<open>proposal_at\<close> reads the table as a map from identifiers to proposals, the
  abstract state the store implements.
\<close>

subsection \<open>Errors\<close>

text \<open>\<open>sqlx::Error\<close>, with the variants \<open>should_retry\<close> tells apart.\<close>

datatype sqlx_error =
    Configuration | Decode | Encode | ColumnNotFound | ColumnIndexOutOfBounds | ColumnDecode
  | TypeNotFound | Migrate | ForeignKeyViolation | Connection | OtherSqlx string

text \<open>The text of a parse failure (\<open>detail\<close>) is left out of \<open>CorruptRow\<close>.\<close>

datatype store_error =
    NotFound proposal_id
  | NotOwner proposal_id address
  | StaleTransition proposal_id string proposal_status
  | Database sqlx_error
  | CorruptRow string string

fun should_retry :: "store_error \<Rightarrow> bool" where
  "should_retry (NotFound _) = False"
| "should_retry (NotOwner _ _) = False"
| "should_retry (StaleTransition _ _ _) = False"
| "should_retry (CorruptRow _ _) = False"
| "should_retry (Database e) = (e \<notin> {Configuration, Decode, Encode, ColumnNotFound,
     ColumnIndexOutOfBounds, ColumnDecode, TypeNotFound, Migrate})"

definition corrupt_in :: "string \<Rightarrow> string \<Rightarrow> store_error" where
  "corrupt_in tab column = CorruptRow tab column"

definition corrupt :: "string \<Rightarrow> store_error" where
  "corrupt column = corrupt_in ''proposals'' column"

definition as_db_id :: "proposal_id \<Rightarrow> store_error + i64" where
  "as_db_id i = ok_or (NotFound i) (i64_of_u64 (pid_raw i))"

definition id_of_db :: "i64 \<Rightarrow> proposal_id option" where
  "id_of_db i = map_option ProposalId (u64_of_i64 i)"

definition status_names :: "proposal_status list \<Rightarrow> string list" where
  "status_names sts = map status_text sts"

subsection \<open>Rows\<close>

text \<open>A row of \<open>proposals\<close>: the columns of \<open>ProposalRow\<close> and the time its status was entered.\<close>

record proposal_row =
  r_id :: i64
  r_sub_solver :: string
  r_order_uid :: string
  r_order_uid_hash :: string
  r_sell_amount :: string
  r_buy_amount :: string
  r_sell_token :: string
  r_buy_token :: string
  r_interactions :: json
  r_interactions_hash :: string
  r_valid_until :: string
  r_nonce :: string
  r_signature :: string
  r_status :: string
  r_rejection_reason :: "string option"
  r_gas_used :: "i64 option"
  r_trampoline :: "string option"
  r_settlement_tx_hash :: "string option"
  r_penalty_tx_hash :: "string option"
  r_status_changed_at :: time

record solution_row =
  sr_auction_id :: i64
  sr_solution_id :: i64
  sr_proposal_id :: i64

record penalty_row =
  pr_id :: i64
  pr_proposal_id :: i64
  pr_sub_solver :: string
  pr_order_uid :: string
  pr_penalty_tx_hash :: "string option"

subsection \<open>Interactions as JSON\<close>

definition interaction_json :: "codec \<Rightarrow> interaction \<Rightarrow> json" where
  "interaction_json c i =
     JObj [(''target'', JStr (addr_text c (i_target i))), (''value'', JStr (u256_text c (i_value i))),
           (''callData'', JStr (hex_prefixed c (i_callData i)))]"

definition interactions_to_json :: "codec \<Rightarrow> interaction list \<Rightarrow> json" where
  "interactions_to_json c is = JArr (map (interaction_json c) is)"

datatype json_error = ExpectedArray | MissingField string | BadField string

definition json_field :: "json \<Rightarrow> string \<Rightarrow> json_error + string" where
  "json_field item name = ok_or (MissingField name) (Option.bind (json_get item name) json_str)"

definition interaction_from_json :: "codec \<Rightarrow> json \<Rightarrow> json_error + interaction" where
  "interaction_from_json c item =
     and_then (and_then (json_field item ''target'') (\<lambda>s. ok_or (BadField ''target'') (parse_addr c s))) (\<lambda>target.
     and_then (and_then (json_field item ''value'') (\<lambda>s. ok_or (BadField ''value'') (parse_u256 c s))) (\<lambda>val.
     and_then (and_then (json_field item ''callData'') (\<lambda>s. ok_or (BadField ''callData'') (parse_bytes c s))) (\<lambda>callData.
       Inr \<lparr>i_target = target, i_value = val, i_callData = callData\<rparr>)))"

definition interactions_from_json :: "codec \<Rightarrow> json \<Rightarrow> json_error + interaction list" where
  "interactions_from_json c v =
     and_then (ok_or ExpectedArray (json_arr v)) (\<lambda>items. collect (map (interaction_from_json c) items))"

lemma interaction_from_json_of:
  "codec_ok c \<Longrightarrow> interaction_from_json c (interaction_json c i) = Inr i"
  by (simp add: interaction_from_json_def interaction_json_def json_field_def codec_read_back)

lemma interactions_from_json_of:
  "codec_ok c \<Longrightarrow> interactions_from_json c (interactions_to_json c is) = Inr is"
  using interaction_from_json_of
  by (simp add: interactions_from_json_def interactions_to_json_def o_def)

text \<open>The column codec and the evidence payload write interactions alike.\<close>

lemma interaction_json_payload: "interaction_json c i = interaction_payload c i"
  by (simp add: interaction_json_def interaction_payload_def)

subsection \<open>The row codec\<close>

text \<open>A nullable column: \<open>row.x.map(|t| t.parse()).transpose()\<close>.\<close>

definition parse_column :: "string \<Rightarrow> 'a option \<Rightarrow> store_error + 'a" where
  "parse_column column x = ok_or (corrupt column) x"

definition parse_nullable :: "string \<Rightarrow> ('b \<Rightarrow> 'a option) \<Rightarrow> 'b option \<Rightarrow> store_error + 'a option" where
  "parse_nullable column f x = ok_or (corrupt column) (dec_option f x)"

definition parse_uid_column :: "codec \<Rightarrow> string \<Rightarrow> store_error + order_uid" where
  "parse_uid_column c s = (case from_hex c s of Inl _ \<Rightarrow> Inl (corrupt ''order_uid'') | Inr u \<Rightarrow> Inr u)"

definition proposal_of_row :: "codec \<Rightarrow> proposal_row \<Rightarrow> store_error + proposal" where
  "proposal_of_row c row =
     and_then (parse_column ''id'' (id_of_db (r_id row))) (\<lambda>pid.
     and_then (parse_column ''sub_solver'' (parse_addr c (r_sub_solver row))) (\<lambda>sub_solver.
     and_then (parse_uid_column c (r_order_uid row)) (\<lambda>order_uid.
     and_then (parse_column ''order_uid_hash'' (parse_b256 c (r_order_uid_hash row))) (\<lambda>order_uid_hash.
     and_then (parse_column ''sell_amount'' (parse_u256 c (r_sell_amount row))) (\<lambda>sell_amount.
     and_then (parse_column ''buy_amount'' (parse_u256 c (r_buy_amount row))) (\<lambda>buy_amount.
     and_then (parse_column ''sell_token'' (parse_addr c (r_sell_token row))) (\<lambda>sell_token.
     and_then (parse_column ''buy_token'' (parse_addr c (r_buy_token row))) (\<lambda>buy_token.
     and_then (case interactions_from_json c (r_interactions row) of
                 Inl _ \<Rightarrow> Inl (corrupt ''interactions'') | Inr is \<Rightarrow> Inr is) (\<lambda>interactions.
     and_then (parse_column ''interactions_hash'' (parse_b256 c (r_interactions_hash row))) (\<lambda>interactions_hash.
     and_then (parse_column ''valid_until'' (parse_u256 c (r_valid_until row))) (\<lambda>valid_until.
     and_then (parse_column ''nonce'' (parse_u256 c (r_nonce row))) (\<lambda>nonce.
     and_then (parse_column ''signature'' (parse_bytes c (r_signature row))) (\<lambda>signature.
     and_then (parse_column ''status'' (parse_status (r_status row))) (\<lambda>status.
     and_then (parse_nullable ''rejection_reason'' parse_reason (r_rejection_reason row)) (\<lambda>rejection_reason.
     and_then (parse_nullable ''gas_used'' u64_of_i64 (r_gas_used row)) (\<lambda>gas_used.
     and_then (parse_nullable ''trampoline'' (parse_addr c) (r_trampoline row)) (\<lambda>trampoline.
     and_then (parse_nullable ''settlement_tx_hash'' (parse_b256 c) (r_settlement_tx_hash row)) (\<lambda>settlement_tx_hash.
     and_then (parse_nullable ''penalty_tx_hash'' (parse_b256 c) (r_penalty_tx_hash row)) (\<lambda>penalty_tx_hash.
       Inr \<lparr>p_id = pid, p_sub_solver = sub_solver, p_order_uid = order_uid,
            p_order_uid_hash = order_uid_hash, p_sell_amount = sell_amount, p_buy_amount = buy_amount,
            p_sell_token = sell_token, p_buy_token = buy_token, p_interactions = interactions,
            p_interactions_hash = interactions_hash, p_valid_until = valid_until, p_nonce = nonce,
            p_signature = signature, p_status = status, p_rejection_reason = rejection_reason,
            p_gas_used = gas_used, p_trampoline = trampoline,
            p_settlement_tx_hash = settlement_tx_hash,
            p_penalty_tx_hash = penalty_tx_hash\<rparr>)))))))))))))))))))"

text \<open>The column values the INSERT of \<open>insert\<close> binds, under the identifier and time the database
  assigns. \<open>gas_column\<close> is \<open>gas_used.map(|g| i64::try_from(g).expect("gas exceeds i64"))\<close>:
  \<open>None\<close> is the panic.\<close>

definition gas_column :: "u64 option \<Rightarrow> i64 option option" where
  "gas_column gas = (case gas of None \<Rightarrow> Some None | Some g \<Rightarrow> map_option Some (i64_of_u64 g))"

definition insert_row :: "codec \<Rightarrow> i64 \<Rightarrow> time \<Rightarrow> proposal \<Rightarrow> i64 option \<Rightarrow> proposal_row" where
  "insert_row c i t p gas =
     \<lparr>r_id = i, r_sub_solver = addr_text c (p_sub_solver p), r_order_uid = uid_text c (p_order_uid p),
      r_order_uid_hash = b256_text c (p_order_uid_hash p), r_sell_amount = u256_text c (p_sell_amount p),
      r_buy_amount = u256_text c (p_buy_amount p), r_sell_token = addr_text c (p_sell_token p),
      r_buy_token = addr_text c (p_buy_token p), r_interactions = interactions_to_json c (p_interactions p),
      r_interactions_hash = b256_text c (p_interactions_hash p), r_valid_until = u256_text c (p_valid_until p),
      r_nonce = u256_text c (p_nonce p), r_signature = hex_prefixed c (p_signature p),
      r_status = status_text (p_status p), r_rejection_reason = map_option reason_text (p_rejection_reason p),
      r_gas_used = gas, r_trampoline = map_option (addr_text c) (p_trampoline p),
      r_settlement_tx_hash = map_option (b256_text c) (p_settlement_tx_hash p),
      r_penalty_tx_hash = map_option (b256_text c) (p_penalty_tx_hash p),
      r_status_changed_at = t\<rparr>"

definition row_of :: "codec \<Rightarrow> i64 \<Rightarrow> time \<Rightarrow> proposal \<Rightarrow> proposal_row option" where
  "row_of c i t p = map_option (insert_row c i t p) (gas_column (p_gas_used p))"

lemma dec_option_codec:
  assumes "codec_ok c"
  shows "dec_option (parse_addr c) (map_option (addr_text c) a) = Some a"
    and "dec_option (parse_b256 c) (map_option (b256_text c) h) = Some h"
    and "dec_option parse_reason (map_option reason_text r) = Some r"
  using codec_addr [THEN text_codec.dec_option_enc, OF assms]
    codec_b256 [THEN text_codec.dec_option_enc, OF assms] reason_codec.dec_option_enc
  by blast+

lemma dec_gas_column: "gas_column g = Some i \<Longrightarrow> dec_option u64_of_i64 i = Some g"
  by (auto simp: gas_column_def dec_option_def u64_of_i64_of_u64 split: option.splits)

text \<open>Every row the service writes reads back as the proposal written, under the database's id.\<close>

lemma proposal_of_insert_row:
  assumes "codec_ok c" and "uid_ok (p_order_uid p)" and "gas_column (p_gas_used p) = Some gas"
    and "id_of_db i = Some pid"
  shows "proposal_of_row c (insert_row c i t p gas) = Inr (p\<lparr>p_id := pid\<rparr>)"
  using assms
  by (simp add: proposal_of_row_def insert_row_def parse_column_def parse_nullable_def
      parse_uid_column_def codec_read_back from_hex_text interactions_from_json_of
      dec_option_codec dec_gas_column)

lemma proposal_of_row_id: "proposal_of_row c r = Inr p \<Longrightarrow> id_of_db (r_id r) = Some (p_id p)"
  by (auto simp: proposal_of_row_def and_then_Inr_iff parse_column_def ok_or_Inr_iff)

subsection \<open>Tables and statements\<close>

record db =
  d_proposals :: "proposal_row list"
  d_solutions :: "solution_row list"
  d_penalties :: "penalty_row list"
  d_next_proposal :: i64
  d_next_penalty :: i64

definition empty_db :: db where
  "empty_db = \<lparr>d_proposals = [], d_solutions = [], d_penalties = [], d_next_proposal = 1, d_next_penalty = 1\<rparr>"

definition find_row :: "i64 \<Rightarrow> db \<Rightarrow> proposal_row option" where
  "find_row i d = find (\<lambda>r. r_id r = i) (d_proposals d)"

text \<open>\<open>SELECT .. WHERE P ORDER BY id\<close>, \<open>UPDATE .. WHERE P\<close> and \<open>DELETE .. WHERE P\<close> on \<open>proposals\<close>,
  the last two with the number of rows affected; a deleted proposal takes its \<open>solutions\<close> rows with it
  (\<open>ON DELETE CASCADE\<close>).\<close>

definition select_rows :: "(proposal_row \<Rightarrow> bool) \<Rightarrow> db \<Rightarrow> proposal_row list" where
  "select_rows P d = sort_key r_id (filter P (d_proposals d))"

definition update_rows ::
  "(proposal_row \<Rightarrow> bool) \<Rightarrow> (proposal_row \<Rightarrow> proposal_row) \<Rightarrow> db \<Rightarrow> nat \<times> db" where
  "update_rows P f d =
     (length (filter P (d_proposals d)),
      d\<lparr>d_proposals := map (\<lambda>r. if P r then f r else r) (d_proposals d)\<rparr>)"

definition delete_rows :: "(proposal_row \<Rightarrow> bool) \<Rightarrow> db \<Rightarrow> nat \<times> db" where
  "delete_rows P d =
     (let gone = map r_id (filter P (d_proposals d)) in
      (length gone,
       d\<lparr>d_proposals := filter (\<lambda>r. \<not> P r) (d_proposals d),
         d_solutions := filter (\<lambda>s. sr_proposal_id s \<notin> set gone) (d_solutions d)\<rparr>))"

text \<open>The sequence of a \<open>BIGSERIAL\<close> column fails past its maximum.\<close>

definition insert_proposal :: "codec \<Rightarrow> time \<Rightarrow> proposal \<Rightarrow> i64 option \<Rightarrow> db \<Rightarrow> sqlx_error + i64 \<times> db" where
  "insert_proposal c t p gas d =
     (let i = d_next_proposal d in
      if i64_max < i then Inl (OtherSqlx ''sequence'')
      else Inr (i, d\<lparr>d_proposals := d_proposals d @ [insert_row c i t p gas], d_next_proposal := i + 1\<rparr>))"

definition insert_penalty :: "i64 \<Rightarrow> string \<Rightarrow> string \<Rightarrow> db \<Rightarrow> sqlx_error + unit \<times> db" where
  "insert_penalty pid sub_solver order_uid d =
     (let i = d_next_penalty d in
      if i64_max < i then Inl (OtherSqlx ''sequence'')
      else Inr ((), d\<lparr>d_penalties := d_penalties d @
        [\<lparr>pr_id = i, pr_proposal_id = pid, pr_sub_solver = sub_solver, pr_order_uid = order_uid,
          pr_penalty_tx_hash = None\<rparr>], d_next_penalty := i + 1\<rparr>))"

definition upsert_solution :: "i64 \<Rightarrow> i64 \<Rightarrow> i64 \<Rightarrow> db \<Rightarrow> sqlx_error + unit \<times> db" where
  "upsert_solution auction_id solution_id pid d =
     (if find_row pid d = None then Inl ForeignKeyViolation
      else let key = (\<lambda>s. sr_auction_id s = auction_id \<and> sr_solution_id s = solution_id) in
        if \<exists>s\<in>set (d_solutions d). key s
        then Inr ((), d\<lparr>d_solutions := map (\<lambda>s. if key s then s\<lparr>sr_proposal_id := pid\<rparr> else s) (d_solutions d)\<rparr>)
        else Inr ((), d\<lparr>d_solutions := d_solutions d @
          [\<lparr>sr_auction_id = auction_id, sr_solution_id = solution_id, sr_proposal_id = pid\<rparr>]\<rparr>))"

subsection \<open>The invariant of the tables\<close>

definition row_ok :: "codec \<Rightarrow> proposal_row \<Rightarrow> bool" where
  "row_ok c r \<longleftrightarrow> 0 < r_id r \<and> r_id r \<le> i64_max \<and>
     (case proposal_of_row c r of
        Inl _ \<Rightarrow> False
      | Inr p \<Rightarrow> row_of c (r_id r) (r_status_changed_at r) p = Some r)"

definition penalty_row_ok :: "codec \<Rightarrow> penalty_row \<Rightarrow> bool" where
  "penalty_row_ok c q \<longleftrightarrow> 0 < pr_proposal_id q \<and> pr_proposal_id q \<le> i64_max \<and>
     parse_addr c (pr_sub_solver q) \<noteq> None \<and> (case from_hex c (pr_order_uid q) of Inl _ \<Rightarrow> False | Inr _ \<Rightarrow> True)"

definition db_ok :: "codec \<Rightarrow> db \<Rightarrow> bool" where
  "db_ok c d \<longleftrightarrow>
     distinct (map r_id (d_proposals d)) \<and>
     (\<forall>r\<in>set (d_proposals d). row_ok c r \<and> r_id r < d_next_proposal d) \<and>
     distinct (map (\<lambda>s. (sr_auction_id s, sr_solution_id s)) (d_solutions d)) \<and>
     (\<forall>s\<in>set (d_solutions d). sr_proposal_id s \<in> r_id ` set (d_proposals d)) \<and>
     distinct (map pr_id (d_penalties d)) \<and>
     (\<forall>q\<in>set (d_penalties d). penalty_row_ok c q \<and> pr_id q < d_next_penalty d) \<and>
     0 < d_next_proposal d"

definition readable :: "codec \<Rightarrow> proposal_row \<Rightarrow> proposal option" where
  "readable c r = (case proposal_of_row c r of Inl _ \<Rightarrow> None | Inr p \<Rightarrow> Some p)"

text \<open>The table read as a map: the proposal stored under an identifier.\<close>

definition proposal_at :: "codec \<Rightarrow> db \<Rightarrow> proposal_id \<Rightarrow> proposal option" where
  "proposal_at c d pid =
     Option.bind (i64_of_u64 (pid_raw pid)) (\<lambda>i.
     Option.bind (find_row i d) (readable c))"

lemma readable_Some_iff: "readable c r = Some p \<longleftrightarrow> proposal_of_row c r = Inr p"
  by (auto simp: readable_def split: sum.splits)

lemma db_ok_empty [simp]: "db_ok c empty_db"
  by (simp add: db_ok_def empty_db_def)

lemma row_of_Some_iff:
  "row_of c i t p = Some r \<longleftrightarrow> (\<exists>gas. gas_column (p_gas_used p) = Some gas \<and> r = insert_row c i t p gas)"
  by (auto simp: row_of_def)

lemma insert_row_pid [simp]: "insert_row c i t (p\<lparr>p_id := j\<rparr>) gas = insert_row c i t p gas"
  by (simp add: insert_row_def)

lemma insert_row_simps [simp]:
  "r_id (insert_row c i t p gas) = i"
  "r_status (insert_row c i t p gas) = status_text (p_status p)"
  "r_sub_solver (insert_row c i t p gas) = addr_text c (p_sub_solver p)"
  "r_order_uid (insert_row c i t p gas) = uid_text c (p_order_uid p)"
  "r_status_changed_at (insert_row c i t p gas) = t"
  by (simp_all add: insert_row_def)

lemma id_of_db_Some: "0 \<le> i \<Longrightarrow> i \<le> i64_max \<Longrightarrow> \<exists>pid. id_of_db i = Some pid \<and> i64_of_u64 (pid_raw pid) = Some i"
  by (auto simp: id_of_db_def u64_of_i64_def intro!: i64_of_u64_of_i64)

lemma id_of_db_inverse: "i64_of_u64 (pid_raw pid) = Some i \<Longrightarrow> id_of_db i = Some pid"
  by (simp add: id_of_db_def u64_of_i64_of_u64)

lemma row_ok_insert_row:
  assumes "codec_ok c" and "uid_ok (p_order_uid p)" and "gas_column (p_gas_used p) = Some gas"
    and "0 < i" and "i \<le> i64_max"
  shows "row_ok c (insert_row c i t p gas)"
proof -
  from assms(4,5) obtain pid where "id_of_db i = Some pid" using id_of_db_Some [of i] by auto
  from proposal_of_insert_row [OF assms(1-3) this] show ?thesis
    using assms(3-5) by (simp add: row_ok_def row_of_Some_iff)
qed

lemma row_ok_E:
  assumes "row_ok c r"
  obtains p gas pid where "proposal_of_row c r = Inr p" "gas_column (p_gas_used p) = Some gas"
    "r = insert_row c (r_id r) (r_status_changed_at r) p gas" "uid_ok (p_order_uid p)"
    "id_of_db (r_id r) = Some (p_id p)" "i64_of_u64 (pid_raw (p_id p)) = Some (r_id r)"
    "0 < r_id r" "r_id r \<le> i64_max"
proof -
  from assms obtain p where p: "proposal_of_row c r = Inr p"
    and r: "row_of c (r_id r) (r_status_changed_at r) p = Some r" and i: "0 < r_id r" "r_id r \<le> i64_max"
    by (auto simp: row_ok_def split: sum.splits)
  from p have u: "uid_ok (p_order_uid p)"
    by (auto simp: proposal_of_row_def and_then_Inr_iff parse_uid_column_def from_hex_uid_ok
        split: sum.splits)
  from proposal_of_row_id [OF p] have pid: "id_of_db (r_id r) = Some (p_id p)" .
  moreover from id_of_db_Some [of "r_id r"] i pid have "i64_of_u64 (pid_raw (p_id p)) = Some (r_id r)"
    by auto
  ultimately show thesis using that p r u i by (auto simp: row_of_Some_iff)
qed

subsection \<open>What the statements do to the map\<close>

lemma find_row_mem: "find_row i d = Some r \<Longrightarrow> r \<in> set (d_proposals d) \<and> r_id r = i"
  by (auto simp: find_row_def find_Some_iff)

lemma find_row_None_iff: "find_row i d = None \<longleftrightarrow> i \<notin> r_id ` set (d_proposals d)"
  by (auto simp: find_row_def find_None_iff)

lemma find_distinct:
  "distinct (map f xs) \<Longrightarrow> x \<in> set xs \<Longrightarrow> find (\<lambda>y. f y = f x) xs = Some x"
  by (induction xs) auto

lemma find_row_of_mem: "db_ok c d \<Longrightarrow> r \<in> set (d_proposals d) \<Longrightarrow> find_row (r_id r) d = Some r"
  by (simp add: find_row_def db_ok_def find_distinct)

lemma find_row_update:
  assumes "\<And>r. r_id (f r) = r_id r"
  shows "find_row i (snd (update_rows P f d)) = map_option (\<lambda>r. if P r then f r else r) (find_row i d)"
proof -
  have "find (\<lambda>r. r_id r = i) (map (\<lambda>r. if P r then f r else r) rs)
      = map_option (\<lambda>r. if P r then f r else r) (find (\<lambda>r. r_id r = i) rs)" for rs
    using assms by (induction rs) auto
  then show ?thesis by (simp add: find_row_def update_rows_def)
qed

lemma find_row_delete:
  assumes "distinct (map r_id (d_proposals d))"
  shows "find_row i (snd (delete_rows P d)) =
    (case find_row i d of None \<Rightarrow> None | Some r \<Rightarrow> if P r then None else Some r)"
proof -
  have "find (\<lambda>r. r_id r = i) (filter (\<lambda>r. \<not> P r) rs) =
      (case find (\<lambda>r. r_id r = i) rs of None \<Rightarrow> None | Some r \<Rightarrow> if P r then None else Some r)"
    if "distinct (map r_id rs)" for rs
    using that by (induction rs) (auto simp: find_None_iff find_Some_iff split: option.splits)
  then show ?thesis using assms by (simp add: find_row_def delete_rows_def Let_def)
qed

lemma find_row_append:
  "find_row i (d\<lparr>d_proposals := d_proposals d @ [r], d_next_proposal := n\<rparr>) =
     (case find_row i d of Some r' \<Rightarrow> Some r' | None \<Rightarrow> if r_id r = i then Some r else None)"
proof -
  have "find Q (rs @ [r]) = (case find Q rs of Some r' \<Rightarrow> Some r' | None \<Rightarrow> if Q r then Some r else None)"
    for Q and rs by (induction rs) auto
  then show ?thesis by (simp add: find_row_def)
qed

lemma find_row_other_tables [simp]:
  "find_row i (d\<lparr>d_solutions := x\<rparr>) = find_row i d"
  "find_row i (d\<lparr>d_penalties := y\<rparr>) = find_row i d"
  "find_row i (d\<lparr>d_next_penalty := n\<rparr>) = find_row i d"
  by (simp_all add: find_row_def)

lemma proposal_at_other_tables [simp]:
  "proposal_at c (d\<lparr>d_solutions := x\<rparr>) = proposal_at c d"
  "proposal_at c (d\<lparr>d_penalties := y\<rparr>) = proposal_at c d"
  "proposal_at c (d\<lparr>d_next_penalty := n\<rparr>) = proposal_at c d"
  by (simp_all add: proposal_at_def fun_eq_iff)

lemma proposal_at_row:
  assumes "db_ok c d" and "r \<in> set (d_proposals d)" and "proposal_of_row c r = Inr p"
  shows "proposal_at c d (p_id p) = Some p"
proof -
  from assms(1,2) have "row_ok c r" by (simp add: db_ok_def)
  then obtain q where "proposal_of_row c r = Inr q" "i64_of_u64 (pid_raw (p_id q)) = Some (r_id r)"
    by (rule row_ok_E)
  with assms(3) find_row_of_mem [OF assms(1,2)] show ?thesis by (simp add: proposal_at_def readable_Some_iff)
qed

text \<open>The stored proposal of an identifier, as its row.\<close>

lemma proposal_at_E:
  assumes "db_ok c d" and "proposal_at c d pid = Some p"
  obtains r i gas where "i64_of_u64 (pid_raw pid) = Some i" "find_row i d = Some r"
    "r = insert_row c i (r_status_changed_at r) p gas" "gas_column (p_gas_used p) = Some gas"
    "uid_ok (p_order_uid p)" "p_id p = pid" "r \<in> set (d_proposals d)" "proposal_of_row c r = Inr p"
    "0 < i" "i \<le> i64_max"
proof -
  from assms(2) obtain i r where i: "i64_of_u64 (pid_raw pid) = Some i" and r: "find_row i d = Some r"
    and p: "proposal_of_row c r = Inr p"
    by (auto simp: proposal_at_def bind_eq_Some_conv readable_Some_iff)
  from find_row_mem [OF r] have m: "r \<in> set (d_proposals d)" "r_id r = i" by auto
  with assms(1) have ok: "row_ok c r" by (simp add: db_ok_def)
  from id_of_db_inverse [OF i] proposal_of_row_id [OF p] m(2) have "p_id p = pid" by simp
  with ok show thesis
    using row_ok_E [OF ok] that [OF i r] p m by (metis sum.inject(2))
qed

text \<open>Conversely, an identifier whose row is absent is absent from the map and no other is.\<close>

lemma proposal_at_None_iff:
  assumes "db_ok c d"
  shows "proposal_at c d pid = None \<longleftrightarrow>
    (\<forall>i. i64_of_u64 (pid_raw pid) = Some i \<longrightarrow> find_row i d = None)"
proof -
  have "readable c r \<noteq> None" if "find_row i d = Some r" for i r
  proof -
    from find_row_mem [OF that] assms have "row_ok c r" by (simp add: db_ok_def)
    then show ?thesis by (rule row_ok_E) (auto simp: readable_def)
  qed
  then show ?thesis 
    by (cases "i64_of_u64 (pid_raw pid)"; cases "find_row (the (i64_of_u64 (pid_raw pid))) d")
      (auto simp: proposal_at_def)
qed

subsection \<open>Statements keep the invariant\<close>

lemma db_ok_update:
  assumes "db_ok c d" and "\<And>r. r_id (f r) = r_id r"
    and "\<And>r. r \<in> set (d_proposals d) \<Longrightarrow> P r \<Longrightarrow> row_ok c (f r)"
  shows "db_ok c (snd (update_rows P f d))"
proof -
  have o: "r_id \<circ> (\<lambda>r. if P r then f r else r) = r_id" using assms(2) by (auto simp: fun_eq_iff)
  have "r_id ` (\<lambda>r. if P r then f r else r) ` set (d_proposals d) = r_id ` set (d_proposals d)"
    unfolding image_image by (intro image_cong) (auto simp: assms(2))
  with o assms show ?thesis by (auto simp: db_ok_def update_rows_def)
qed

lemma update_miss:
  assumes "\<And>r. r \<in> set (d_proposals d) \<Longrightarrow> \<not> P r"
  shows "update_rows P f d = (0, d)"
proof -
  have "map (\<lambda>r. if P r then f r else r) (d_proposals d) = d_proposals d"
    using assms by (induction "d_proposals d") (simp_all add: map_idI)
  moreover have "filter P (d_proposals d) = []" using assms by (simp add: filter_empty_conv)
  ultimately show ?thesis by (simp add: update_rows_def)
qed

lemma filter_one:
  assumes "distinct (map f xs)" and "x \<in> set xs" and "P x" and "\<And>y. P y \<Longrightarrow> f y = f x"
  shows "filter P xs = [x]"
  using assms
proof (induction xs)
  case (Cons z zs)
  show ?case
  proof (cases "z = x")
    case True
    have "\<not> P y" if "y \<in> set zs" for y
    proof
      assume "P y"
      then have "f y = f x" by (rule Cons.prems(4))
      moreover from that have "f y \<in> f ` set zs" by simp
      ultimately show False using True Cons.prems(1) by simp
    qed
    with True Cons.prems(3) show ?thesis by (simp add: filter_empty_conv)
  next
    case False
    with Cons.prems(2) have m: "x \<in> set zs" by simp
    then have "f z \<noteq> f x" using Cons.prems(1) by auto
    then have "\<not> P z" using Cons.prems(4) by blast
    moreover have "filter P zs = [x]" using Cons.prems(1) by (intro Cons.IH [OF _ m Cons.prems(3,4)]) simp_all
    ultimately show ?thesis by simp
  qed
qed simp

text \<open>An \<open>UPDATE\<close> keyed on the identifier changes that entry of the map and no other.\<close>

lemma update_hit:
  assumes "db_ok c d" and "find_row i d = Some r" and "P r"
    and "\<And>r'. P r' \<Longrightarrow> r_id r' = i" and "\<And>r'. r_id (f r') = r_id r'"
    and "i64_of_u64 (pid_raw pid) = Some i"
    and "readable c (f r) = Some q"
  shows "fst (update_rows P f d) = 1"
    and "proposal_at c (snd (update_rows P f d)) = (proposal_at c d)(pid \<mapsto> q)"
proof -
  from find_row_mem [OF assms(2)] have m: "r \<in> set (d_proposals d)" "r_id r = i" by auto
  have "filter P (d_proposals d) = [r]"
    using assms(1) m assms(3,4) by (intro filter_one [where f = r_id]) (auto simp: db_ok_def)
  then show "fst (update_rows P f d) = 1" by (simp add: update_rows_def)
  show "proposal_at c (snd (update_rows P f d)) = (proposal_at c d)(pid \<mapsto> q)"
  proof
    fix pid'
    show "proposal_at c (snd (update_rows P f d)) pid' = ((proposal_at c d)(pid \<mapsto> q)) pid'"
    proof (cases "pid' = pid")
      case True
      with assms show ?thesis by (simp add: proposal_at_def find_row_update)
    next
      case False
      have "find_row j (snd (update_rows P f d)) = find_row j d" if "j \<noteq> i" for j
        using that assms(4) find_row_mem [of j d]
        by (cases "find_row j d") (auto simp: find_row_update assms(5))
      moreover have "i64_of_u64 (pid_raw pid') \<noteq> Some i"
        using False assms(6) i64_of_u64_inj by (metis proposal_id.expand)
      ultimately show ?thesis
        using False by (cases "i64_of_u64 (pid_raw pid')") (auto simp: proposal_at_def)
    qed
  qed
qed

lemma db_ok_insert_proposal:
  assumes "db_ok c d" and "codec_ok c" and "uid_ok (p_order_uid p)"
    and "gas_column (p_gas_used p) = Some gas" and "insert_proposal c t p gas d = Inr (i, d')"
  shows "db_ok c d'" and "i = d_next_proposal d" and "find_row i d = None"
    and "\<exists>pid. id_of_db i = Some pid \<and> proposal_at c d pid = None \<and>
      proposal_at c d' = (proposal_at c d)(pid \<mapsto> p\<lparr>p_id := pid\<rparr>)"
proof -
  let ?r = "insert_row c i t p gas"
  from assms(5) have i: "i = d_next_proposal d" "i \<le> i64_max"
    and d': "d' = d\<lparr>d_proposals := d_proposals d @ [?r], d_next_proposal := i + 1\<rparr>"
    by (auto simp: insert_proposal_def Let_def split: if_splits)
  then show "i = d_next_proposal d" by simp
  from assms(1) i have pos: "0 < i" by (simp add: db_ok_def)
  have ok: "row_ok c ?r" using row_ok_insert_row [OF assms(2-4) pos i(2)] .
  have fresh: "i \<notin> r_id ` set (d_proposals d)" using assms(1) i by (auto simp: db_ok_def)
  then show free: "find_row i d = None" by (simp add: find_row_None_iff)
  show "db_ok c d'" using assms(1) ok fresh pos by (auto simp: db_ok_def d' i(1))
  obtain pid where pid: "id_of_db i = Some pid" "i64_of_u64 (pid_raw pid) = Some i"
    using id_of_db_Some [of i] pos i(2) by auto
  have rd: "readable c ?r = Some (p\<lparr>p_id := pid\<rparr>)"
    using proposal_of_insert_row [OF assms(2-4) pid(1)] by (simp add: readable_Some_iff)
  have "proposal_at c d' pid' = ((proposal_at c d)(pid \<mapsto> p\<lparr>p_id := pid\<rparr>)) pid'" for pid'
  proof (cases "pid' = pid")
    case True
    with pid rd free show ?thesis by (simp add: proposal_at_def d' find_row_append)
  next
    case False
    then have "i64_of_u64 (pid_raw pid') \<noteq> Some i"
      using pid(2) i64_of_u64_inj by (metis proposal_id.expand)
    with False show ?thesis
      by (cases "i64_of_u64 (pid_raw pid')") (auto simp: proposal_at_def d' find_row_append split: option.splits)
  qed
  then show "\<exists>pid. id_of_db i = Some pid \<and> proposal_at c d pid = None \<and>
      proposal_at c d' = (proposal_at c d)(pid \<mapsto> p\<lparr>p_id := pid\<rparr>)"
    using pid free by (intro exI [of _ pid]) (auto simp: proposal_at_def)
qed

lemma db_ok_insert_penalty:
  assumes "db_ok c d" and "codec_ok c" and "uid_ok u" and "0 < i" and "i \<le> i64_max"
    and "insert_penalty i (addr_text c a) (uid_text c u) d = Inr (x, d')"
  shows "db_ok c d'" and "proposal_at c d' = proposal_at c d"
    and "d_penalties d' = d_penalties d @ [\<lparr>pr_id = d_next_penalty d, pr_proposal_id = i,
          pr_sub_solver = addr_text c a, pr_order_uid = uid_text c u, pr_penalty_tx_hash = None\<rparr>]"
proof -
  from assms(6) have d': "d' = d\<lparr>d_penalties := d_penalties d @ [\<lparr>pr_id = d_next_penalty d, pr_proposal_id = i,
          pr_sub_solver = addr_text c a, pr_order_uid = uid_text c u, pr_penalty_tx_hash = None\<rparr>],
        d_next_penalty := d_next_penalty d + 1\<rparr>"
    by (auto simp: insert_penalty_def Let_def split: if_splits)
  show "db_ok c d'"
    using assms(1-5) by (auto simp: db_ok_def d' penalty_row_ok_def codec_read_back from_hex_text)
  show "proposal_at c d' = proposal_at c d" by (simp add: d' proposal_at_def find_row_def fun_eq_iff)
  show "d_penalties d' = d_penalties d @ [\<lparr>pr_id = d_next_penalty d, pr_proposal_id = i,
          pr_sub_solver = addr_text c a, pr_order_uid = uid_text c u, pr_penalty_tx_hash = None\<rparr>]"
    by (simp add: d')
qed

end
