(* ===== verification/Storage.thy ===== *)
theory Storage
  imports Db
begin

text \<open>
  The proposal store (\<open>infra/storage.rs\<close>). An operation is an \<open>action\<close>: it takes the store (the
  tables, the evidence emitted so far and what the connection will do) and returns its \<open>Result\<close>
  with the store it leaves. Statements go through \<open>stmt\<close>, which consults the next entry of
  \<open>st_faults\<close>: a statement may fail without effect (\<open>Failed\<close>) or take effect and report an error
  (\<open>Unacknowledged\<close>, a reply lost after an autocommit or COMMIT). \<open>in_tx\<close> is a transaction: its
  statements work on a copy of the tables that COMMIT installs, and every other end rolls back.
  Row locks make each operation atomic; operations interleave as steps (theory \<open>Service\<close>).
\<close>

subsection \<open>The store and its actions\<close>

datatype fault = Failed sqlx_error | Unacknowledged sqlx_error

text \<open>\<open>st_writer\<close>: the receiving half of the audit channel is alive.\<close>

record store =
  st_db :: db
  st_audit :: "audit_event list"
  st_faults :: "fault option list"
  st_writer :: bool

text \<open>\<open>now()\<close> of the database and \<open>SystemTime::now()\<close> of the service.\<close>

record clock =
  db_now :: time
  wall_now :: time

type_synonym 'a action = "store \<Rightarrow> (store_error + 'a) \<times> store"

definition lift :: "store_error + 'a \<Rightarrow> 'a action" where
  "lift r st = (r, st)"

definition done_with :: "'a \<Rightarrow> 'a action" where
  "done_with a = lift (Inr a)"

definition fail :: "store_error \<Rightarrow> 'a action" where
  "fail e = lift (Inl e)"

definition act :: "'a action \<Rightarrow> ('a \<Rightarrow> 'b action) \<Rightarrow> 'b action" where
  "act m k st = (case m st of (Inl e, st') \<Rightarrow> (Inl e, st') | (Inr a, st') \<Rightarrow> k a st')"

definition next_fault :: "store \<Rightarrow> fault option" where
  "next_fault st = (case st_faults st of [] \<Rightarrow> None | f # _ \<Rightarrow> f)"

definition stmt :: "(db \<Rightarrow> sqlx_error + 'a \<times> db) \<Rightarrow> 'a action" where
  "stmt f st =
     (let st' = st\<lparr>st_faults := tl (st_faults st)\<rparr> in
      case next_fault st of
        Some (Failed e) \<Rightarrow> (Inl (Database e), st')
      | Some (Unacknowledged e) \<Rightarrow>
          (Inl (Database e), case f (st_db st) of Inl _ \<Rightarrow> st' | Inr (_, d) \<Rightarrow> st'\<lparr>st_db := d\<rparr>)
      | None \<Rightarrow> (case f (st_db st) of
            Inl e \<Rightarrow> (Inl (Database e), st')
          | Inr (a, d) \<Rightarrow> (Inr a, st'\<lparr>st_db := d\<rparr>)))"

text \<open>How the body of a transaction ends when it does not fail: \<open>tx.commit()\<close> is reached, or the
  function returns before it and the dropped transaction rolls back.\<close>

datatype 'a tx_end = Commit 'a | Rollback 'a

definition in_tx :: "'a tx_end action \<Rightarrow> 'a action" where
  "in_tx body st =
     (case stmt (\<lambda>d. Inr ((), d)) st of
        (Inl e, st1) \<Rightarrow> (Inl e, st1)
      | (Inr _, st1) \<Rightarrow>
          (case body st1 of
             (Inl e, st2) \<Rightarrow> (Inl e, st2\<lparr>st_db := st_db st1\<rparr>)
           | (Inr (Rollback a), st2) \<Rightarrow> (Inr a, st2\<lparr>st_db := st_db st1\<rparr>)
           | (Inr (Commit a), st2) \<Rightarrow>
               stmt (\<lambda>_. Inr (a, st_db st2)) (st2\<lparr>st_db := st_db st1\<rparr>)))"

text \<open>A send on the audit channel is lost (and logged) when the writer is gone.\<close>

definition emit :: "time \<Rightarrow> audit_kind \<Rightarrow> unit action" where
  "emit t k st =
     (Inr (), if st_writer st
              then st\<lparr>st_audit := st_audit st @ [\<lparr>ae_occurred_at = t, ae_kind = k\<rparr>]\<rparr> else st)"

fun emit_all :: "time \<Rightarrow> audit_kind list \<Rightarrow> unit action" where
  "emit_all t [] = done_with ()"
| "emit_all t (k # ks) = act (emit t k) (\<lambda>_. emit_all t ks)"

subsection \<open>Writing\<close>

definition select_row :: "i64 \<Rightarrow> proposal_row option action" where
  "select_row i = stmt (\<lambda>d. Inr (find_row i d, d))"

text \<open>\<open>None\<close>: one of the two \<open>expect\<close>s panics.\<close>

definition insert_proposal_op ::
  "codec \<Rightarrow> clock \<Rightarrow> proposal \<Rightarrow> store \<Rightarrow> ((store_error + proposal_id) \<times> store) option" where
  "insert_proposal_op c clk p st =
     (case gas_column (p_gas_used p) of
        None \<Rightarrow> None
      | Some gas \<Rightarrow>
          (case stmt (insert_proposal c (db_now clk) p gas) st of
             (Inl e, st') \<Rightarrow> Some (Inl e, st')
           | (Inr i, st') \<Rightarrow>
               (case id_of_db i of
                  None \<Rightarrow> None
                | Some pid \<Rightarrow>
                    Some (act (emit (wall_now clk) (Received (p\<lparr>p_id := pid\<rparr>))) (\<lambda>_. done_with pid) st'))))"

definition stale_or_missing :: "proposal_id \<Rightarrow> string \<Rightarrow> 'a action" where
  "stale_or_missing pid expected =
     act (lift (as_db_id pid)) (\<lambda>i.
     act (stmt (\<lambda>d. Inr (map_option r_status (find_row i d), d))) (\<lambda>status.
       case status of
         None \<Rightarrow> fail (NotFound pid)
       | Some s \<Rightarrow> (case parse_status s of
             Some actual \<Rightarrow> fail (StaleTransition pid expected actual)
           | None \<Rightarrow> fail (corrupt ''status''))))"

definition transition :: "clock \<Rightarrow> proposal \<Rightarrow> proposal_status \<Rightarrow> unit action" where
  "transition clk p to =
     (let from = p_status p in
      act (lift (as_db_id (p_id p))) (\<lambda>i.
      act (stmt (\<lambda>d. Inr (update_rows (\<lambda>r. r_id r = i \<and> r_status r = status_text from)
             (\<lambda>r. r\<lparr>r_status := status_text to, r_status_changed_at := db_now clk\<rparr>) d))) (\<lambda>rows_affected.
        if rows_affected = 0 then stale_or_missing (p_id p) (status_text from)
        else emit (wall_now clk)
          (StatusChanged (p_id p) (p_sub_solver p) (p_order_uid p) from to None None))))"

definition record_penalty :: "codec \<Rightarrow> clock \<Rightarrow> proposal \<Rightarrow> u256 \<Rightarrow> b256 \<Rightarrow> unit action" where
  "record_penalty c clk p amount penalty_tx_hash =
     (let from = p_status p in
      act (lift (as_db_id (p_id p))) (\<lambda>i.
      act (stmt (\<lambda>d. Inr (update_rows (\<lambda>r. r_id r = i \<and> r_status r = status_text from)
             (\<lambda>r. r\<lparr>r_status := status_text Penalized,
                    r_penalty_tx_hash := Some (b256_text c penalty_tx_hash),
                    r_status_changed_at := db_now clk\<rparr>) d))) (\<lambda>rows_affected.
        if rows_affected = 0 then stale_or_missing (p_id p) (status_text from)
        else emit (wall_now clk)
          (AuditPenalized (p_id p) (p_sub_solver p) (p_order_uid p) amount (p_settlement_tx_hash p)
             penalty_tx_hash))))"

text \<open>\<open>COALESCE(new, old)\<close> on a nullable and on a not-null column.\<close>

definition coalesce :: "'a option \<Rightarrow> 'a option \<Rightarrow> 'a option" where
  "coalesce new old = (case new of None \<Rightarrow> old | Some _ \<Rightarrow> new)"

definition coalesce_to :: "'a option \<Rightarrow> 'a \<Rightarrow> 'a" where
  "coalesce_to new old = (case new of None \<Rightarrow> old | Some v \<Rightarrow> v)"

definition locked_row :: "proposal_id \<Rightarrow> proposal_row action" where
  "locked_row pid =
     act (lift (as_db_id pid)) (\<lambda>i.
     act (select_row i) (\<lambda>row. case row of None \<Rightarrow> fail (NotFound pid) | Some r \<Rightarrow> done_with r))"

definition require_live :: "proposal_id \<Rightarrow> proposal_status \<Rightarrow> unit action" where
  "require_live pid from =
     (if from \<notin> {Submitted, Active}
      then fail (StaleTransition pid ''submitted or active'' from) else done_with ())"

text \<open>The saturating \<open>i64::try_from(gas).unwrap_or(i64::MAX)\<close>.\<close>

definition saturated_gas :: "u64 \<Rightarrow> i64" where
  "saturated_gas g = (case i64_of_u64 g of Some i \<Rightarrow> i | None \<Rightarrow> i64_max)"

fun verdict_parts ::
  "verdict \<Rightarrow> proposal_status \<times> rejection_reason option \<times> simulation_outcome option" where
  "verdict_parts (Accept sim) = (Active, None, sim)"
| "verdict_parts (Reject reason) = (Rejected, Some reason, None)"
| "verdict_parts VSimFailed = (SimFailed, None, None)"

definition verdict_row ::
  "codec \<Rightarrow> time \<Rightarrow> proposal_status \<Rightarrow> rejection_reason option \<Rightarrow> simulation_outcome option
    \<Rightarrow> proposal_row \<Rightarrow> proposal_row" where
  "verdict_row c t to reason sim r =
     r\<lparr>r_status := status_text to,
       r_rejection_reason := map_option reason_text reason,
       r_gas_used := coalesce (map_option (\<lambda>s. saturated_gas (so_gas_used s)) sim) (r_gas_used r),
       r_trampoline := coalesce (map_option (\<lambda>s. addr_text c (so_trampoline s)) sim) (r_trampoline r),
       r_sell_token := coalesce_to (map_option (\<lambda>s. addr_text c (so_sell_token s)) sim) (r_sell_token r),
       r_buy_token := coalesce_to (map_option (\<lambda>s. addr_text c (so_buy_token s)) sim) (r_buy_token r),
       r_status_changed_at := (if r_status r = status_text to then r_status_changed_at r else t)\<rparr>"

definition verdict_body ::
  "codec \<Rightarrow> clock \<Rightarrow> proposal_id \<Rightarrow> proposal_status \<Rightarrow> rejection_reason option \<Rightarrow> simulation_outcome option
    \<Rightarrow> (proposal_status \<times> address \<times> order_uid) tx_end action" where
  "verdict_body c clk pid to reason sim =
     act (locked_row pid) (\<lambda>r.
     act (lift (parse_column ''status'' (parse_status (r_status r)))) (\<lambda>from.
     act (lift (parse_column ''sub_solver'' (parse_addr c (r_sub_solver r)))) (\<lambda>sub_solver.
     act (lift (parse_uid_column c (r_order_uid r))) (\<lambda>order_uid.
     act (require_live pid from) (\<lambda>_.
     act (stmt (\<lambda>d. Inr (update_rows (\<lambda>r'. r_id r' = r_id r)
            (verdict_row c (db_now clk) to reason sim) d))) (\<lambda>_.
       done_with (Commit (from, sub_solver, order_uid))))))))"

definition resolve_verdict :: "codec \<Rightarrow> clock \<Rightarrow> proposal_id \<Rightarrow> verdict \<Rightarrow> proposal_status action" where
  "resolve_verdict c clk pid v =
     (case verdict_parts v of (to, reason, sim) \<Rightarrow>
      act (in_tx (verdict_body c clk pid to reason sim)) (\<lambda>(from, sub_solver, order_uid).
      act (if from \<noteq> to
           then emit (wall_now clk) (StatusChanged pid sub_solver order_uid from to reason None)
           else done_with ()) (\<lambda>_.
        done_with to)))"

definition cancel_body :: "codec \<Rightarrow> clock \<Rightarrow> proposal_id \<Rightarrow> address \<Rightarrow> order_uid tx_end action" where
  "cancel_body c clk pid sub_solver =
     act (locked_row pid) (\<lambda>r.
     act (lift (parse_column ''sub_solver'' (parse_addr c (r_sub_solver r)))) (\<lambda>owner.
     act (lift (parse_uid_column c (r_order_uid r))) (\<lambda>order_uid.
     if owner \<noteq> sub_solver then fail (NotOwner pid sub_solver)
     else
       act (lift (parse_column ''status'' (parse_status (r_status r)))) (\<lambda>from.
       act (require_live pid from) (\<lambda>_.
       act (stmt (\<lambda>d. Inr (update_rows (\<lambda>r'. r_id r' = r_id r)
              (\<lambda>r'. r'\<lparr>r_status := status_text Cancelled, r_status_changed_at := db_now clk\<rparr>) d))) (\<lambda>_.
         done_with (Commit order_uid)))))))"

definition cancel :: "codec \<Rightarrow> clock \<Rightarrow> proposal_id \<Rightarrow> address \<Rightarrow> unit action" where
  "cancel c clk pid sub_solver =
     act (in_tx (cancel_body c clk pid sub_solver)) (\<lambda>order_uid.
       emit (wall_now clk) (AuditCancelled pid sub_solver order_uid))"

datatype outcome_effect = Applied proposal_status proposal_status | Ignored proposal_status

text \<open>The legality table of \<open>apply_settlement_outcome\<close>.\<close>

fun outcome_target :: "settlement_outcome \<Rightarrow> proposal_status \<Rightarrow> proposal_status option" where
  "outcome_target Started Active = Some Executing"
| "outcome_target (Succeeded _) Executing = Some Settled"
| "outcome_target (Succeeded _) Active = Some Settled"
| "outcome_target (Reverted _) Executing = Some SettleFailed"
| "outcome_target (Reverted _) Active = Some SettleFailed"
| "outcome_target Abandoned Executing = Some Active"
| "outcome_target _ _ = None"

fun outcome_tx :: "settlement_outcome \<Rightarrow> b256 option" where
  "outcome_tx (Succeeded tx) = Some tx"
| "outcome_tx (Reverted tx) = Some tx"
| "outcome_tx _ = None"

definition outcome_body ::
  "codec \<Rightarrow> clock \<Rightarrow> proposal \<Rightarrow> settlement_outcome \<Rightarrow> outcome_effect tx_end action" where
  "outcome_body c clk p outcome =
     act (locked_row (p_id p)) (\<lambda>r.
     act (lift (parse_column ''status'' (parse_status (r_status r)))) (\<lambda>from.
     case outcome_target outcome from of
       None \<Rightarrow> done_with (Rollback (Ignored from))
     | Some to \<Rightarrow>
         act (stmt (\<lambda>d. Inr (update_rows (\<lambda>r'. r_id r' = r_id r)
                (\<lambda>r'. r'\<lparr>r_status := status_text to,
                         r_settlement_tx_hash :=
                           coalesce (map_option (b256_text c) (outcome_tx outcome)) (r_settlement_tx_hash r'),
                         r_status_changed_at := db_now clk\<rparr>) d))) (\<lambda>_.
         act (if outcome = Abandoned
              then stmt (insert_penalty (r_id r) (addr_text c (p_sub_solver p)) (uid_text c (p_order_uid p)))
              else done_with ()) (\<lambda>_.
           done_with (Commit (Applied from to))))))"

definition apply_settlement_outcome ::
  "codec \<Rightarrow> clock \<Rightarrow> proposal \<Rightarrow> settlement_outcome \<Rightarrow> outcome_effect action" where
  "apply_settlement_outcome c clk p outcome =
     act (in_tx (outcome_body c clk p outcome)) (\<lambda>effect.
       case effect of
         Ignored from \<Rightarrow> done_with (Ignored from)
       | Applied from to \<Rightarrow>
           act (emit (wall_now clk)
             (StatusChanged (p_id p) (p_sub_solver p) (p_order_uid p) from to None (outcome_tx outcome))) (\<lambda>_.
             done_with (Applied from to)))"

definition note_driver_notification :: "clock \<Rightarrow> proposal \<Rightarrow> string \<Rightarrow> unit action" where
  "note_driver_notification clk p kind =
     emit (wall_now clk) (DriverNotified (p_id p) (p_sub_solver p) (p_order_uid p) kind)"

definition released_keys :: "codec \<Rightarrow> proposal_row \<Rightarrow> store_error + proposal_id \<times> address \<times> order_uid" where
  "released_keys c r =
     and_then (parse_column ''id'' (id_of_db (r_id r))) (\<lambda>pid.
     and_then (parse_column ''sub_solver'' (parse_addr c (r_sub_solver r))) (\<lambda>sub_solver.
     and_then (parse_uid_column c (r_order_uid r)) (\<lambda>order_uid. Inr (pid, sub_solver, order_uid))))"

text \<open>The rows \<open>RETURNING\<close> names are those the \<open>UPDATE\<close> changes, as they were keyed before it.\<close>

definition stale_executing :: "clock \<Rightarrow> time \<Rightarrow> proposal_row \<Rightarrow> bool" where
  "stale_executing clk older_than r \<longleftrightarrow>
     r_status r = status_text Executing \<and> r_status_changed_at r < db_now clk - older_than"

definition release_row :: "clock \<Rightarrow> proposal_row \<Rightarrow> proposal_row" where
  "release_row clk r = r\<lparr>r_status := status_text Active, r_status_changed_at := db_now clk\<rparr>"

definition release_body ::
  "codec \<Rightarrow> clock \<Rightarrow> time \<Rightarrow> (proposal_id \<times> address \<times> order_uid) list tx_end action" where
  "release_body c clk older_than =
     act (stmt (\<lambda>d. Inr (map (release_row clk) (filter (stale_executing clk older_than) (d_proposals d)),
            snd (update_rows (stale_executing clk older_than) (release_row clk) d)))) (\<lambda>rows.
     act (lift (collect (map (released_keys c) rows))) (\<lambda>released.
       done_with (Commit released)))"

definition release_stale_executing :: "codec \<Rightarrow> clock \<Rightarrow> time \<Rightarrow> nat action" where
  "release_stale_executing c clk older_than =
     act (in_tx (release_body c clk older_than)) (\<lambda>released.
     act (emit_all (wall_now clk) (map (\<lambda>(pid, sub_solver, order_uid).
            StatusChanged pid sub_solver order_uid Executing Active None None) released)) (\<lambda>_.
       done_with (length released)))"

definition dropped_statuses :: "proposal_status list" where
  "dropped_statuses = [Rejected, SimFailed, Expired, Cancelled]"

definition swept_row :: "clock \<Rightarrow> time \<Rightarrow> proposal_row \<Rightarrow> bool" where
  "swept_row clk older_than r \<longleftrightarrow>
     r_status r \<in> set (status_names dropped_statuses) \<and> r_status_changed_at r < db_now clk - older_than"

definition sweep_dropped :: "clock \<Rightarrow> time \<Rightarrow> nat action" where
  "sweep_dropped clk older_than = stmt (\<lambda>d. Inr (delete_rows (swept_row clk older_than) d))"

definition queue_non_settlement_penalty :: "codec \<Rightarrow> proposal \<Rightarrow> unit action" where
  "queue_non_settlement_penalty c p =
     act (lift (as_db_id (p_id p))) (\<lambda>i.
       stmt (insert_penalty i (addr_text c (p_sub_solver p)) (uid_text c (p_order_uid p))))"

definition penalty_of_row :: "codec \<Rightarrow> penalty_row \<Rightarrow> store_error + pending_penalty" where
  "penalty_of_row c q =
     and_then (ok_or (corrupt_in ''penalties'' ''proposal_id'') (id_of_db (pr_proposal_id q))) (\<lambda>pid.
     and_then (ok_or (corrupt_in ''penalties'' ''sub_solver'') (parse_addr c (pr_sub_solver q))) (\<lambda>sub_solver.
     and_then (case from_hex c (pr_order_uid q) of
                 Inl _ \<Rightarrow> Inl (corrupt_in ''penalties'' ''order_uid'') | Inr u \<Rightarrow> Inr u) (\<lambda>order_uid.
       Inr \<lparr>pp_id = pr_id q, pp_proposal_id = pid, pp_sub_solver = sub_solver,
            pp_order_uid = order_uid\<rparr>)))"

definition pending_rows :: "db \<Rightarrow> penalty_row list" where
  "pending_rows d = sort_key pr_id (filter (\<lambda>q. pr_penalty_tx_hash q = None) (d_penalties d))"

definition pending_penalties :: "codec \<Rightarrow> pending_penalty list action" where
  "pending_penalties c =
     act (stmt (\<lambda>d. Inr (pending_rows d, d))) (\<lambda>rows. lift (collect (map (penalty_of_row c) rows)))"

definition pay_penalty :: "i64 \<Rightarrow> string \<Rightarrow> db \<Rightarrow> db" where
  "pay_penalty i tx d =
     d\<lparr>d_penalties := map (\<lambda>q. if pr_id q = i then q\<lparr>pr_penalty_tx_hash := Some tx\<rparr> else q) (d_penalties d)\<rparr>"

definition record_non_settlement_debit ::
  "codec \<Rightarrow> clock \<Rightarrow> pending_penalty \<Rightarrow> u256 \<Rightarrow> b256 \<Rightarrow> unit action" where
  "record_non_settlement_debit c clk pp amount penalty_tx_hash =
     act (stmt (\<lambda>d. Inr ((), pay_penalty (pp_id pp) (b256_text c penalty_tx_hash) d))) (\<lambda>_.
       emit (wall_now clk) (NonSettlementDebited (pp_proposal_id pp) (pp_sub_solver pp) (pp_order_uid pp)
         amount penalty_tx_hash))"

definition record_solution :: "i64 \<Rightarrow> i64 \<Rightarrow> proposal_id \<Rightarrow> unit action" where
  "record_solution auction_id solution_id pid =
     act (lift (as_db_id pid)) (\<lambda>i. stmt (upsert_solution auction_id solution_id i))"

subsection \<open>Reading\<close>

text \<open>A collection returns what it can read; a single lookup reports an unreadable row.\<close>

definition decode_rows :: "codec \<Rightarrow> proposal_row list \<Rightarrow> proposal list" where
  "decode_rows c rows = List.map_filter (readable c) rows"

definition query :: "codec \<Rightarrow> (proposal_row \<Rightarrow> bool) \<Rightarrow> proposal list action" where
  "query c P = act (stmt (\<lambda>d. Inr (select_rows P d, d))) (\<lambda>rows. done_with (decode_rows c rows))"

definition list_by_order_uid :: "codec \<Rightarrow> order_uid \<Rightarrow> proposal list action" where
  "list_by_order_uid c uid =
     query c (\<lambda>r. r_order_uid r = uid_text c uid \<and> r_status r = status_text Active)"

fun group_by_uid :: "proposal list \<Rightarrow> (order_uid \<Rightarrow> proposal list option) \<Rightarrow> order_uid \<Rightarrow> proposal list option" where
  "group_by_uid [] grouped = grouped"
| "group_by_uid (p # ps) grouped =
     group_by_uid ps (grouped(p_order_uid p \<mapsto>
       (case grouped (p_order_uid p) of None \<Rightarrow> [] | Some qs \<Rightarrow> qs) @ [p]))"

definition active_by_order_uids ::
  "codec \<Rightarrow> order_uid list \<Rightarrow> (order_uid \<Rightarrow> proposal list option) action" where
  "active_by_order_uids c uids =
     (if uids = [] then done_with (\<lambda>_. None)
      else act (query c (\<lambda>r. r_order_uid r \<in> set (map (uid_text c) uids) \<and> r_status r = status_text Active))
        (\<lambda>ps. done_with (group_by_uid ps (\<lambda>_. None))))"

definition list_by_order_uid_for_owner :: "codec \<Rightarrow> order_uid \<Rightarrow> address \<Rightarrow> proposal list action" where
  "list_by_order_uid_for_owner c uid owner =
     query c (\<lambda>r. r_order_uid r = uid_text c uid \<and> r_sub_solver r = addr_text c owner
                 \<and> r_status r = status_text Active)"

definition list_by_sub_solver :: "codec \<Rightarrow> address \<Rightarrow> proposal list action" where
  "list_by_sub_solver c sub_solver =
     query c (\<lambda>r. r_sub_solver r = addr_text c sub_solver
                 \<and> r_status r \<in> set (status_names [Submitted, Active]))"

definition snapshot_by_statuses :: "codec \<Rightarrow> proposal_status list \<Rightarrow> proposal list action" where
  "snapshot_by_statuses c statuses = query c (\<lambda>r. r_status r \<in> set (status_names statuses))"

text \<open>The join with \<open>solutions\<close>: a proposal appears once for every matching row.\<close>

definition solution_rows :: "i64 \<Rightarrow> i64 list \<Rightarrow> db \<Rightarrow> proposal_row list" where
  "solution_rows auction_id ids d =
     sort_key r_id (concat (map (\<lambda>r. map (\<lambda>_. r) (filter (\<lambda>s. sr_proposal_id s = r_id r
       \<and> sr_auction_id s = auction_id \<and> sr_solution_id s \<in> set ids) (d_solutions d))) (d_proposals d)))"

definition solution_proposals :: "codec \<Rightarrow> i64 \<Rightarrow> u64 list \<Rightarrow> proposal list action" where
  "solution_proposals c auction_id solution_ids =
     (let ids = List.map_filter i64_of_u64 solution_ids in
      act (stmt (\<lambda>d. Inr (solution_rows auction_id ids d, d))) (\<lambda>rows. done_with (decode_rows c rows)))"

definition get_proposal :: "codec \<Rightarrow> proposal_id \<Rightarrow> proposal option action" where
  "get_proposal c pid =
     (case as_db_id pid of
        Inl _ \<Rightarrow> done_with None
      | Inr i \<Rightarrow> act (select_row i) (\<lambda>row. case row of
            None \<Rightarrow> done_with None
          | Some r \<Rightarrow> lift (case proposal_of_row c r of Inl e \<Rightarrow> Inl e | Inr p \<Rightarrow> Inr (Some p))))"

end
