(* ===== verification/Store_Logic.thy ===== *)
theory Store_Logic
  imports Storage
begin

text \<open>
  A small logic for store actions. \<open>wp m Q st\<close> says that running \<open>m\<close> from \<open>st\<close> ends in a result and
  a store that satisfy \<open>Q\<close>. The rules (\<open>wp_rules\<close>) take an operation apart statement by statement;
  they hold for a \<open>reliable\<close> store, whose connection reports every statement truthfully and whose
  audit writer is alive. What can go wrong without it is stated in \<open>Store_Facts\<close>.
\<close>

named_theorems wp_rules "weakest-precondition rules for store actions"

definition wp :: "'a action \<Rightarrow> (store_error + 'a \<Rightarrow> store \<Rightarrow> bool) \<Rightarrow> store \<Rightarrow> bool" where
  "wp m Q st = (case m st of (r, st') \<Rightarrow> Q r st')"

fun acknowledged :: "fault option \<Rightarrow> bool" where
  "acknowledged (Some (Unacknowledged _)) = False"
| "acknowledged _ = True"

definition reliable :: "store \<Rightarrow> bool" where
  "reliable st \<longleftrightarrow> st_writer st \<and> (\<forall>f\<in>set (st_faults st). acknowledged f)"

text \<open>Two stores with the same tables and evidence.\<close>

definition same_state :: "store \<Rightarrow> store \<Rightarrow> bool" where
  "same_state st st' \<longleftrightarrow> st_db st' = st_db st \<and> st_audit st' = st_audit st"

lemma wpD: "wp m Q st \<Longrightarrow> m st = (r, st') \<Longrightarrow> Q r st'"
  by (simp add: wp_def)

lemma wp_mono: "wp m R st \<Longrightarrow> (\<And>r st'. R r st' \<Longrightarrow> Q r st') \<Longrightarrow> wp m Q st"
  by (auto simp: wp_def)

lemma same_state_refl [simp]: "same_state st st"
  by (simp add: same_state_def)

lemma wp_lift [wp_rules]: "Q r st \<Longrightarrow> wp (lift r) Q st"
  by (simp add: wp_def lift_def)

lemma wp_done [wp_rules]: "Q (Inr a) st \<Longrightarrow> wp (done_with a) Q st"
  by (simp add: done_with_def wp_lift)

lemma wp_fail [wp_rules]: "Q (Inl e) st \<Longrightarrow> wp (fail e) Q st"
  by (simp add: fail_def wp_lift)

lemma wp_act [wp_rules]:
  "wp m (\<lambda>r st'. (\<forall>e. r = Inl e \<longrightarrow> Q (Inl e) st') \<and> (\<forall>a. r = Inr a \<longrightarrow> wp (k a) Q st')) st
    \<Longrightarrow> wp (act m k) Q st"
  by (auto simp: wp_def act_def split: prod.splits sum.splits)

lemma wp_act_iff:
  "wp (act m k) Q st \<longleftrightarrow>
     wp m (\<lambda>r st'. (\<forall>e. r = Inl e \<longrightarrow> Q (Inl e) st') \<and> (\<forall>a. r = Inr a \<longrightarrow> wp (k a) Q st')) st"
  by (auto simp: wp_def act_def split: prod.splits sum.splits)

lemma wp_lift_iff: "wp (lift r) Q st \<longleftrightarrow> Q r st"
  by (simp add: wp_def lift_def)

lemma wp_done_iff: "wp (done_with a) Q st \<longleftrightarrow> Q (Inr a) st"
  by (simp add: done_with_def wp_lift_iff)

lemma wp_if [wp_rules]: "(b \<Longrightarrow> wp m Q st) \<Longrightarrow> (\<not> b \<Longrightarrow> wp n Q st) \<Longrightarrow> wp (if b then m else n) Q st"
  by simp

lemma reliable_step:
  assumes "reliable st"
  shows "reliable (st\<lparr>st_faults := tl (st_faults st)\<rparr>)"
    and "reliable (st\<lparr>st_faults := tl (st_faults st), st_db := d\<rparr>)"
    and "next_fault st \<noteq> Some (Unacknowledged e)"
  using assms by (cases "st_faults st"; auto simp: reliable_def next_fault_def)+

lemma wp_stmt [wp_rules]:
  assumes "reliable st"
    and "\<And>e st'. reliable st' \<Longrightarrow> same_state st st' \<Longrightarrow> Q (Inl (Database e)) st'"
    and "\<And>a d st'. f (st_db st) = Inr (a, d) \<Longrightarrow> reliable st' \<Longrightarrow> st_db st' = d \<Longrightarrow>
      st_audit st' = st_audit st \<Longrightarrow> Q (Inr a) st'"
  shows "wp (stmt f) Q st"
  using assms(2,3) reliable_step [OF assms(1)]
  by (auto simp: wp_def stmt_def Let_def same_state_def split: option.splits fault.splits sum.splits)

lemma wp_emit [wp_rules]:
  assumes "reliable st"
    and "\<And>st'. reliable st' \<Longrightarrow> st_db st' = st_db st \<Longrightarrow>
      st_audit st' = st_audit st @ [\<lparr>ae_occurred_at = t, ae_kind = k\<rparr>] \<Longrightarrow> Q (Inr ()) st'"
  shows "wp (emit t k) Q st"
  using assms by (simp add: wp_def emit_def reliable_def)

lemma wp_emit_all [wp_rules]:
  assumes "reliable st"
    and "\<And>st'. reliable st' \<Longrightarrow> st_db st' = st_db st \<Longrightarrow>
      st_audit st' = st_audit st @ map (\<lambda>k. \<lparr>ae_occurred_at = t, ae_kind = k\<rparr>) ks \<Longrightarrow> Q (Inr ()) st'"
  shows "wp (emit_all t ks) Q st"
  using assms
proof (induction ks arbitrary: st)
  case Nil
  then show ?case by (simp add: wp_done)
next
  case (Cons k ks)
  show ?case unfolding emit_all.simps
    by (rule wp_act, rule wp_emit [OF Cons.prems(1)]) (auto intro!: Cons.IH Cons.prems(2))
qed

text \<open>A transaction ends with the tables its body left only when the body commits; every error and
  every early return leaves the tables alone.\<close>

lemma wp_in_tx [wp_rules]:
  assumes "reliable st"
    and "\<And>e st'. reliable st' \<Longrightarrow> same_state st st' \<Longrightarrow> Q (Inl (Database e)) st'"
    and body: "\<And>st1. reliable st1 \<Longrightarrow> same_state st st1 \<Longrightarrow>
      wp body (\<lambda>r st2. reliable st2 \<and> st_audit st2 = st_audit st1 \<and>
        (\<forall>e st'. r = Inl e \<longrightarrow> reliable st' \<longrightarrow> same_state st st' \<longrightarrow> Q (Inl e) st') \<and>
        (\<forall>a st'. r = Inr (Rollback a) \<longrightarrow> reliable st' \<longrightarrow> same_state st st' \<longrightarrow> Q (Inr a) st') \<and>
        (\<forall>a st'. r = Inr (Commit a) \<longrightarrow> reliable st' \<longrightarrow> st_audit st' = st_audit st \<longrightarrow>
           st_db st' = st_db st2 \<longrightarrow> Q (Inr a) st')) st1"
  shows "wp (in_tx body) Q st"
proof -
  have "wp (stmt (\<lambda>d. Inr ((), d))) (\<lambda>r st1. (\<forall>e. r = Inl e \<longrightarrow> Q (Inl e) st1) \<and>
      (\<forall>u. r = Inr u \<longrightarrow> reliable st1 \<and> same_state st st1)) st"
    by (rule wp_stmt [OF assms(1)]) (auto intro: assms(2) simp: same_state_def)
  then obtain r1 st1 where b: "stmt (\<lambda>d. Inr ((), d)) st = (r1, st1)"
    and e1: "\<And>e. r1 = Inl e \<Longrightarrow> Q (Inl e) st1"
    and s1: "\<And>u. r1 = Inr u \<Longrightarrow> reliable st1 \<and> same_state st st1"
    by (cases "stmt (\<lambda>d. Inr ((), d)) st") (auto simp: wp_def)
  show ?thesis
  proof (cases r1)
    case (Inl e)
    then show ?thesis using b e1 by (simp add: wp_def in_tx_def)
  next
    case (Inr u)
    then have rel: "reliable st1" and same: "same_state st st1" using s1 by auto
    obtain r2 st2 where m: "body st1 = (r2, st2)" by (cases "body st1")
    from wpD [OF body [OF rel same] m] have r2: "reliable st2" "st_audit st2 = st_audit st1"
      and ends: "\<And>e st'. r2 = Inl e \<Longrightarrow> reliable st' \<Longrightarrow> same_state st st' \<Longrightarrow> Q (Inl e) st'"
        "\<And>a st'. r2 = Inr (Rollback a) \<Longrightarrow> reliable st' \<Longrightarrow> same_state st st' \<Longrightarrow> Q (Inr a) st'"
        "\<And>a st'. r2 = Inr (Commit a) \<Longrightarrow> reliable st' \<Longrightarrow> st_audit st' = st_audit st \<Longrightarrow>
           st_db st' = st_db st2 \<Longrightarrow> Q (Inr a) st'"
      by auto
    let ?rolled = "st2\<lparr>st_db := st_db st1\<rparr>"
    have rolled: "reliable ?rolled" "same_state st ?rolled"
      using r2 same by (simp_all add: reliable_def same_state_def)
    show ?thesis
    proof (cases r2)
      case (Inl e)
      then show ?thesis using b Inr m ends(1) [OF Inl rolled] by (simp add: wp_def in_tx_def)
    next
      case i: (Inr x)
      show ?thesis
      proof (cases x)
        case (Rollback a)
        then show ?thesis using b Inr m i ends(2) [of a, OF _ rolled] by (simp add: wp_def in_tx_def)
      next
        case (Commit a)
        have "wp (stmt (\<lambda>_. Inr (a, st_db st2))) Q ?rolled"
        proof (rule wp_stmt [OF rolled(1)])
          fix e st' assume "reliable st'" "same_state ?rolled st'"
          with rolled(2) show "Q (Inl (Database e)) st'" by (intro assms(2)) (simp_all add: same_state_def)
        next
          fix a' d st' assume "Inr (a, st_db st2) = (Inr (a', d) :: sqlx_error + _)" "reliable st'"
            "st_db st' = d" "st_audit st' = st_audit ?rolled"
          with rolled(2) i Commit show "Q (Inr a') st'" by (intro ends(3)) (auto simp: same_state_def)
        qed
        then show ?thesis using b Inr m i Commit by (simp add: wp_def in_tx_def)
      qed
    qed
  qed
qed

end
