(* ===== verification/Row_Updates.thy ===== *)
theory Row_Updates
  imports Store_Logic
begin

text \<open>
  Refinement of row updates. An \<open>UPDATE\<close> changes the text columns of a row; the locale
  \<open>row_update\<close> is the promise that the changed columns are the encoding of a changed proposal: the
  row function \<open>f\<close> implements the proposal function \<open>g\<close>. Inside it, the updates the store issues
  (by identifier, and compare-and-swap on identifier and status) are shown to act on the map
  \<open>proposal_at\<close> as \<open>g\<close> does, and to keep the tables' invariant. It is interpreted on the four
  updates of the code: status change, penalty, settlement outcome and verdict.
\<close>

locale row_update =
  fixes c :: codec and f :: "proposal_row \<Rightarrow> proposal_row" and g :: "proposal \<Rightarrow> proposal"
  assumes implements: "gas_column (p_gas_used p) = Some gas \<Longrightarrow>
      \<exists>t' gas'. gas_column (p_gas_used (g p)) = Some gas' \<and>
        f (insert_row c i t p gas) = insert_row c i t' (g p) gas'"
    and row_id: "r_id (f r) = r_id r"
    and keeps_uid: "p_order_uid (g p) = p_order_uid p"
    and keeps_id: "p_id (g p) = p_id p"
begin

lemma row_refines:
  assumes "codec_ok c" and "row_ok c r"
  shows "row_ok c (f r)" and "readable c (f r) = map_option g (readable c r)"
proof -
  from assms(2) obtain p gas where p: "proposal_of_row c r = Inr p"
    and gas: "gas_column (p_gas_used p) = Some gas"
    and r: "r = insert_row c (r_id r) (r_status_changed_at r) p gas"
    and u: "uid_ok (p_order_uid p)" and pid: "id_of_db (r_id r) = Some (p_id p)"
    and i: "0 < r_id r" "r_id r \<le> i64_max" by (rule row_ok_E)
  from implements [OF gas, of "r_id r" "r_status_changed_at r"] r obtain t' gas'
    where gas': "gas_column (p_gas_used (g p)) = Some gas'"
    and fr: "f r = insert_row c (r_id r) t' (g p) gas'" by auto
  have u': "uid_ok (p_order_uid (g p))" using u by (simp add: keeps_uid)
  show "row_ok c (f r)" unfolding fr using row_ok_insert_row [OF assms(1) u' gas' i] .
  have "proposal_of_row c (f r) = Inr ((g p)\<lparr>p_id := p_id p\<rparr>)"
    unfolding fr using proposal_of_insert_row [OF assms(1) u' gas' pid] .
  also have "(g p)\<lparr>p_id := p_id p\<rparr> = g p" using keeps_id [of p] by (metis proposal.surjective proposal.update_convs(1) proposal.select_convs(1))
  finally show "readable c (f r) = map_option g (readable c r)" using p by (simp add: readable_def)
qed

lemma update_keeps_db:
  "codec_ok c \<Longrightarrow> db_ok c d \<Longrightarrow> db_ok c (snd (update_rows P f d))"
  by (rule db_ok_update) (auto simp: row_id row_refines db_ok_def)

lemma update_by_id:
  assumes "codec_ok c" and "db_ok c d" and "i64_of_u64 (pid_raw pid) = Some i"
    and "proposal_at c d pid = Some p" and "\<And>r. P r \<Longrightarrow> r_id r = i" and "find_row i d = Some r" and "P r"
  shows "fst (update_rows P f d) = 1"
    and "proposal_at c (snd (update_rows P f d)) = (proposal_at c d)(pid \<mapsto> g p)"
proof -
  have "row_ok c r" using find_row_mem [OF assms(6)] assms(2) by (simp add: db_ok_def)
  moreover have "readable c r = Some p" using assms(3,4,6) by (simp add: proposal_at_def)
  ultimately have q: "readable c (f r) = Some (g p)" using row_refines(2) [OF assms(1)] by simp
  show "fst (update_rows P f d) = 1"
    and "proposal_at c (snd (update_rows P f d)) = (proposal_at c d)(pid \<mapsto> g p)"
    using update_hit [where f = f and P = P, OF assms(2,6,7,5) row_id assms(3) q] by blast+
qed

text \<open>The compare-and-swap: it changes the proposal when its status is the expected one, and is a
  no-operation that affects no row otherwise.\<close>

lemma update_cas:
  assumes "codec_ok c" and "db_ok c d" and "i64_of_u64 (pid_raw pid) = Some i"
  shows "case proposal_at c d pid of
      Some p \<Rightarrow> if p_status p = from
        then fst (update_rows (\<lambda>r. r_id r = i \<and> r_status r = status_text from) f d) = 1 \<and>
          proposal_at c (snd (update_rows (\<lambda>r. r_id r = i \<and> r_status r = status_text from) f d))
            = (proposal_at c d)(pid \<mapsto> g p)
        else update_rows (\<lambda>r. r_id r = i \<and> r_status r = status_text from) f d = (0, d)
    | None \<Rightarrow> update_rows (\<lambda>r. r_id r = i \<and> r_status r = status_text from) f d = (0, d)"
proof (cases "proposal_at c d pid")
  case None
  with assms have "find_row i d = None" by (simp add: proposal_at_None_iff)
  then show ?thesis using None by (auto simp: find_row_None_iff intro!: update_miss)
next
  case (Some p)
  then obtain r gas where r: "find_row i d = Some r"
    "r = insert_row c i (r_status_changed_at r) p gas"
    using proposal_at_E [OF assms(2) Some] assms(3) by (metis option.inject)
  then have st: "r_status r = status_text (p_status p)" by (metis insert_row_simps(2))
  show ?thesis
  proof (cases "p_status p = from")
    case True
    then show ?thesis
      using Some update_by_id [OF assms(1,2,3) Some _ r(1), of "\<lambda>r. r_id r = i \<and> r_status r = status_text from"]
        find_row_mem [OF r(1)] st by auto
  next
    case False
    have "update_rows (\<lambda>r. r_id r = i \<and> r_status r = status_text from) f d = (0, d)"
    proof (rule update_miss)
      fix r' assume "r' \<in> set (d_proposals d)"
      from find_row_of_mem [OF assms(2) this] r(1) st False
      show "\<not> (r_id r' = i \<and> r_status r' = status_text from)" by auto
    qed
    with Some False show ?thesis by simp
  qed
qed

end

subsection \<open>The updates of the store\<close>

definition with_status :: "proposal_status \<Rightarrow> proposal \<Rightarrow> proposal" where
  "with_status to p = p\<lparr>p_status := to\<rparr>"

definition with_penalty :: "b256 \<Rightarrow> proposal \<Rightarrow> proposal" where
  "with_penalty tx p = p\<lparr>p_status := Penalized, p_penalty_tx_hash := Some tx\<rparr>"

definition with_outcome :: "proposal_status \<Rightarrow> b256 option \<Rightarrow> proposal \<Rightarrow> proposal" where
  "with_outcome to tx p = p\<lparr>p_status := to, p_settlement_tx_hash := coalesce tx (p_settlement_tx_hash p)\<rparr>"

text \<open>Gas above \<open>i64::MAX\<close> is stored saturated.\<close>

definition stored_gas :: "u64 \<Rightarrow> u64" where
  "stored_gas g = word_of_int (saturated_gas g)"

definition with_verdict ::
  "proposal_status \<Rightarrow> rejection_reason option \<Rightarrow> simulation_outcome option \<Rightarrow> proposal \<Rightarrow> proposal" where
  "with_verdict to reason sim p =
     p\<lparr>p_status := to, p_rejection_reason := reason,
       p_gas_used := coalesce (map_option (\<lambda>s. stored_gas (so_gas_used s)) sim) (p_gas_used p),
       p_trampoline := coalesce (map_option so_trampoline sim) (p_trampoline p),
       p_sell_token := coalesce_to (map_option so_sell_token sim) (p_sell_token p),
       p_buy_token := coalesce_to (map_option so_buy_token sim) (p_buy_token p)\<rparr>"

lemma stored_gas_column: "i64_of_u64 (stored_gas g) = Some (saturated_gas g)"
proof -
  have "0 \<le> saturated_gas g \<and> saturated_gas g \<le> i64_max"
    by (auto simp: saturated_gas_def dest: i64_of_u64_range split: option.splits)
  then show ?thesis
    by (simp add: stored_gas_def i64_of_u64_def uint_word_of_int take_bit_int_eq_self)
qed

lemma stored_gas_exact: "i64_of_u64 g \<noteq> None \<Longrightarrow> stored_gas g = g"
  by (metis i64_of_u64_inj not_Some_eq option.simps(5) saturated_gas_def stored_gas_column)

lemma map_option_coalesce: "map_option h (coalesce a b) = coalesce (map_option h a) (map_option h b)"
  by (cases a) (simp_all add: coalesce_def)

interpretation status_update: row_update c
  "\<lambda>r. r\<lparr>r_status := status_text to, r_status_changed_at := t\<rparr>" "with_status to" for c to t
  by unfold_locales (auto simp: insert_row_def with_status_def)

interpretation penalty_update: row_update c
  "\<lambda>r. r\<lparr>r_status := status_text Penalized, r_penalty_tx_hash := Some (b256_text c tx),
         r_status_changed_at := t\<rparr>" "with_penalty tx" for c tx t
  by unfold_locales (auto simp: insert_row_def with_penalty_def)

interpretation outcome_update: row_update c
  "\<lambda>r. r\<lparr>r_status := status_text to,
         r_settlement_tx_hash := coalesce (map_option (b256_text c) tx) (r_settlement_tx_hash r),
         r_status_changed_at := t\<rparr>" "with_outcome to tx" for c to tx t
  by unfold_locales (auto simp: insert_row_def with_outcome_def map_option_coalesce)

interpretation verdict_update: row_update c "verdict_row c t to reason sim" "with_verdict to reason sim"
  for c t to reason sim
proof unfold_locales
  fix p :: proposal and gas i t'
  assume "gas_column (p_gas_used p) = Some gas"
  then show "\<exists>t'' gas'. gas_column (p_gas_used (with_verdict to reason sim p)) = Some gas' \<and>
      verdict_row c t to reason sim (insert_row c i t' p gas) = insert_row c i t'' (with_verdict to reason sim p) gas'"
    by (cases sim) (auto simp: insert_row_def verdict_row_def with_verdict_def gas_column_def
        coalesce_def coalesce_to_def stored_gas_column)
qed (simp_all add: verdict_row_def with_verdict_def)

text \<open>A row update leaves the other tables and the sequences alone.\<close>

lemma update_rows_frame [simp]:
  "d_solutions (snd (update_rows P f d)) = d_solutions d"
  "d_penalties (snd (update_rows P f d)) = d_penalties d"
  "d_next_proposal (snd (update_rows P f d)) = d_next_proposal d"
  "d_next_penalty (snd (update_rows P f d)) = d_next_penalty d"
  by (simp_all add: update_rows_def)

end
