(* ===== verification/Store_Facts.thy ===== *)
theory Store_Facts
  imports Row_Updates
begin

text \<open>
  What each operation of the store does, on every branch, over the map \<open>book\<close> of stored proposals
  and the evidence emitted.
\<close>

definition book :: "codec \<Rightarrow> store \<Rightarrow> proposal_id \<Rightarrow> proposal option" where
  "book c st = proposal_at c (st_db st)"

text \<open>The state in which an operation starts: truthful connection, tables in order.\<close>

definition good :: "codec \<Rightarrow> store \<Rightarrow> bool" where
  "good c st \<longleftrightarrow> reliable st \<and> db_ok c (st_db st)"

definition event :: "time \<Rightarrow> audit_kind \<Rightarrow> audit_event" where
  "event t k = \<lparr>ae_occurred_at = t, ae_kind = k\<rparr>"

abbreviation kept_tables :: "db \<Rightarrow> db \<Rightarrow> bool" where
  "kept_tables d d' \<equiv> d_solutions d' = d_solutions d \<and> d_next_proposal d' = d_next_proposal d"

text \<open>The operation replaced one proposal and left one event; nothing else changed.\<close>

definition moved :: "codec \<Rightarrow> store \<Rightarrow> store \<Rightarrow> proposal \<Rightarrow> proposal \<Rightarrow> audit_event list \<Rightarrow> bool" where
  "moved c st st' q q' evs \<longleftrightarrow>
     book c st (p_id q) = Some q \<and> book c st' = (book c st)(p_id q \<mapsto> q') \<and>
     st_audit st' = st_audit st @ evs \<and>
     kept_tables (st_db st) (st_db st')"

lemma same_book: "same_state st st' \<Longrightarrow> book c st' = book c st"
  by (simp add: same_state_def book_def)

lemma good_same: "good c st \<Longrightarrow> reliable st' \<Longrightarrow> same_state st st' \<Longrightarrow> good c st'"
  by (simp add: good_def same_state_def)

lemma book_id: "good c st \<Longrightarrow> book c st pid = Some q \<Longrightarrow> p_id q = pid"
  by (auto simp: good_def book_def elim: proposal_at_E)

lemma book_db_id: "good c st \<Longrightarrow> book c st pid = Some q \<Longrightarrow> \<exists>i. i64_of_u64 (pid_raw pid) = Some i"
  by (auto simp: good_def book_def elim: proposal_at_E)

lemma book_no_id: "i64_of_u64 (pid_raw pid) = None \<Longrightarrow> book c st pid = None"
  by (simp add: book_def proposal_at_def)

text \<open>The row behind a stored proposal, column by column.\<close>

lemma book_row:
  assumes "good c st" and "book c st pid = Some q"
  obtains r i where "i64_of_u64 (pid_raw pid) = Some i" "find_row i (st_db st) = Some r" "r_id r = i"
    "r_status r = status_text (p_status q)" "r_sub_solver r = addr_text c (p_sub_solver q)"
    "r_order_uid r = uid_text c (p_order_uid q)" "uid_ok (p_order_uid q)" "proposal_of_row c r = Inr q"
    "0 < i" "i \<le> i64_max"
proof -
  from assms have "db_ok c (st_db st)" "proposal_at c (st_db st) pid = Some q" by (simp_all add: good_def book_def)
  then obtain r i gas where r: "i64_of_u64 (pid_raw pid) = Some i" "find_row i (st_db st) = Some r"
    "r = insert_row c i (r_status_changed_at r) q gas" "uid_ok (p_order_uid q)" "proposal_of_row c r = Inr q"
    "0 < i" "i \<le> i64_max"
    by (rule proposal_at_E)
  from r(3) have "r_id r = i" "r_status r = status_text (p_status q)"
    "r_sub_solver r = addr_text c (p_sub_solver q)" "r_order_uid r = uid_text c (p_order_uid q)"
    by (metis insert_row_simps)+
  with r that show thesis by blast
qed

text \<open>A stale or missing compare-and-swap reports which.\<close>

definition cas_error :: "codec \<Rightarrow> store \<Rightarrow> proposal \<Rightarrow> store_error \<Rightarrow> bool" where
  "cas_error c st p e \<longleftrightarrow> (\<exists>x. e = Database x) \<or>
     (case book c st (p_id p) of
        None \<Rightarrow> e = NotFound (p_id p)
      | Some q \<Rightarrow> p_status q \<noteq> p_status p \<and>
          e = StaleTransition (p_id p) (status_text (p_status p)) (p_status q))"

lemma cas_error_absent: "book c st (p_id p) = None \<Longrightarrow> cas_error c st p (NotFound (p_id p))"
  by (simp add: cas_error_def)

lemma wp_stale_or_missing:
  assumes g: "good c st"
    and stale: "\<And>q. book c st (p_id p) = Some q \<Longrightarrow> p_status q \<noteq> p_status p"
    and Q: "\<And>e st'. reliable st' \<Longrightarrow> same_state st st' \<Longrightarrow> cas_error c st p e \<Longrightarrow> Q (Inl e) st'"
  shows "wp (stale_or_missing (p_id p) (status_text (p_status p))) Q st"
proof -
  have rel: "reliable st" using g by (simp add: good_def)
  show ?thesis
  proof (cases "i64_of_u64 (pid_raw (p_id p))")
    case None
    then have "book c st (p_id p) = None" by (rule book_no_id)
    with None rel show ?thesis unfolding stale_or_missing_def
      by (intro wp_act wp_lift) (auto simp: as_db_id_def intro!: Q cas_error_absent)
  next
    case (Some i)
    have st: "case map_option r_status (find_row i (st_db st)) of
        None \<Rightarrow> book c st (p_id p) = None
      | Some s \<Rightarrow> \<exists>q. book c st (p_id p) = Some q \<and> s = status_text (p_status q)"
    proof (cases "book c st (p_id p)")
      case None
      then show ?thesis using g Some by (simp add: good_def book_def proposal_at_None_iff)
    next
      case b: (Some q)
      with g Some obtain r where "find_row i (st_db st) = Some r" "r_status r = status_text (p_status q)"
        by (auto elim: book_row)
      then show ?thesis using b by simp
    qed
    show ?thesis unfolding stale_or_missing_def
    proof (intro wp_act wp_lift conjI allI impI; simp add: as_db_id_def Some)
      show "wp (stmt (\<lambda>d. Inr (map_option r_status (find_row i d), d)))
         (\<lambda>r st'. (\<forall>e. r = Inl e \<longrightarrow> Q (Inl e) st') \<and>
            (\<forall>a. r = Inr a \<longrightarrow> wp (case a of None \<Rightarrow> fail (NotFound (p_id p))
               | Some s \<Rightarrow> (case parse_status s of None \<Rightarrow> fail (corrupt ''status'')
                    | Some actual \<Rightarrow> fail (StaleTransition (p_id p) (status_text (p_status p)) actual))) Q st')) st"
        using st
        by (intro wp_stmt [OF rel]) (auto simp: cas_error_def same_state_def stale intro!: Q wp_fail split: option.splits)
    qed
  qed
qed

context row_update
begin

text \<open>The compare-and-swap operations (\<open>transition\<close>, \<open>record_penalty\<close>) share this contract.\<close>

lemma wp_cas:
  assumes gd: "good c st" and c: "codec_ok c"
  shows "wp (act (lift (as_db_id (p_id p))) (\<lambda>i.
      act (stmt (\<lambda>d. Inr (update_rows (\<lambda>r. r_id r = i \<and> r_status r = status_text (p_status p)) f d))) (\<lambda>n.
        if n = 0 then stale_or_missing (p_id p) (status_text (p_status p)) else emit t k)))
    (\<lambda>r st'. good c st' \<and> (case r of
      Inl e \<Rightarrow> same_state st st' \<and> cas_error c st p e
    | Inr _ \<Rightarrow> (\<exists>q. p_status q = p_status p \<and> p_id q = p_id p \<and> moved c st st' q (g q) [event t k]) \<and>
        d_penalties (st_db st') = d_penalties (st_db st))) st"
  (is "wp _ ?Q st")
proof (cases "i64_of_u64 (pid_raw (p_id p))")
  case None
  then have "book c st (p_id p) = None" by (rule book_no_id)
  with None gd show ?thesis
    by (intro wp_act wp_lift) (auto simp: as_db_id_def intro!: cas_error_absent)
next
  case (Some i)
  have rel: "reliable st" and ok: "db_ok c (st_db st)" using gd by (simp_all add: good_def)
  let ?P = "\<lambda>r. r_id r = i \<and> r_status r = status_text (p_status p)"
  note cas = update_cas [OF c ok Some, of "p_status p"]
  have "wp (stmt (\<lambda>d. Inr (update_rows ?P f d)))
     (\<lambda>r st'. (\<forall>e. r = Inl e \<longrightarrow> ?Q (Inl e) st') \<and>
        (\<forall>n. r = Inr n \<longrightarrow> wp (if n = 0 then stale_or_missing (p_id p) (status_text (p_status p)) else emit t k)
           ?Q st')) st"
  proof (rule wp_stmt [OF rel])
    fix e st' assume "reliable st'" "same_state st st'"
    then show "(\<forall>e'. Inl (Database e) = Inl e' \<longrightarrow> ?Q (Inl e') st') \<and>
        (\<forall>n. Inl (Database e) = Inr n \<longrightarrow> wp (if n = 0 then stale_or_missing (p_id p) (status_text (p_status p)) else emit t k) ?Q st')"
      using good_same [OF gd] by (simp add: cas_error_def)
  next
    fix n d st' assume u: "Inr (update_rows ?P f (st_db st)) = Inr (n, d)" and st': "reliable st'" "st_db st' = d"
      "st_audit st' = st_audit st"
    have ok': "good c st'" using st' u update_keeps_db [OF c ok, of ?P] by (simp add: good_def)
    show "(\<forall>e. Inr n = Inl e \<longrightarrow> ?Q (Inl e) st') \<and> (\<forall>n'. Inr n = Inr n' \<longrightarrow>
        wp (if n' = 0 then stale_or_missing (p_id p) (status_text (p_status p)) else emit t k) ?Q st')"
    proof (cases "\<exists>q. book c st (p_id p) = Some q \<and> p_status q = p_status p")
      case True
      then obtain q where q: "book c st (p_id p) = Some q" "p_status q = p_status p" by blast
      with cas u have "n = 1" and m: "proposal_at c d = (proposal_at c (st_db st))(p_id p \<mapsto> g q)"
        by (auto simp: book_def)
      moreover have "p_id q = p_id p" using book_id [OF gd q(1)] .
      moreover have "kept_tables (st_db st) d" "d_penalties d = d_penalties (st_db st)"
        using u update_rows_frame(1,2,3) [of ?P f "st_db st"] by auto
      ultimately have fin: "?Q (Inr ()) st''" if "reliable st''" "st_db st'' = d" "st_audit st'' = st_audit st @ [event t k]" for st''
        using that q ok' st' by (auto simp: moved_def book_def good_def)
      have "wp (emit t k) ?Q st'" by (rule wp_emit [OF st'(1)], rule fin) (simp_all add: st' event_def)
      then show ?thesis using \<open>n = 1\<close> by simp
    next
      case False
      with cas u have n: "n = 0" and d: "d = st_db st"
        by (auto simp: book_def split: option.splits if_splits)
      then have same: "same_state st st'" using st' by (simp add: same_state_def)
      have "wp (stale_or_missing (p_id p) (status_text (p_status p))) ?Q st'"
        using False same_book [OF same] good_same [OF gd]
        by (intro wp_stale_or_missing [OF ok'])
          (use same in \<open>auto simp: same_state_def cas_error_def good_def ok [unfolded d]\<close>)
      then show ?thesis using n by simp
    qed
  qed
  then show ?thesis by (simp add: wp_act_iff wp_lift_iff as_db_id_def Some)
qed

end

subsection \<open>Compare-and-swap operations\<close>

lemma wp_transition:
  assumes "good c st" and "codec_ok c"
  shows "wp (transition clk p to) (\<lambda>r st'. good c st' \<and> (case r of
      Inl e \<Rightarrow> same_state st st' \<and> cas_error c st p e
    | Inr _ \<Rightarrow> (\<exists>q. p_status q = p_status p \<and> p_id q = p_id p \<and> moved c st st' q (with_status to q)
        [event (wall_now clk) (StatusChanged (p_id p) (p_sub_solver p) (p_order_uid p) (p_status p) to None None)]) \<and>
        d_penalties (st_db st') = d_penalties (st_db st))) st"
  unfolding transition_def Let_def by (rule status_update.wp_cas [OF assms])

lemma wp_record_penalty:
  assumes "good c st" and "codec_ok c"
  shows "wp (record_penalty c clk p amount tx) (\<lambda>r st'. good c st' \<and> (case r of
      Inl e \<Rightarrow> same_state st st' \<and> cas_error c st p e
    | Inr _ \<Rightarrow> (\<exists>q. p_status q = p_status p \<and> p_id q = p_id p \<and> moved c st st' q (with_penalty tx q)
        [event (wall_now clk) (AuditPenalized (p_id p) (p_sub_solver p) (p_order_uid p) amount
           (p_settlement_tx_hash p) tx)]) \<and>
        d_penalties (st_db st') = d_penalties (st_db st))) st"
  unfolding record_penalty_def Let_def by (rule penalty_update.wp_cas [OF assms])

subsection \<open>Transactions that keep the invariant\<close>

lemma wp_transaction:
  assumes gd: "good c st"
    and body: "\<And>st1. good c st1 \<Longrightarrow> same_state st st1 \<Longrightarrow>
      wp body (\<lambda>r st2. reliable st2 \<and> st_audit st2 = st_audit st1 \<and>
        (\<forall>e. r = Inl e \<longrightarrow> E e) \<and> (\<forall>a. r = Inr (Rollback a) \<longrightarrow> R a) \<and>
        (\<forall>a. r = Inr (Commit a) \<longrightarrow> db_ok c (st_db st2) \<and> K a (st_db st2))) st1"
    and failed: "\<And>e st'. E e \<or> (\<exists>x. e = Database x) \<Longrightarrow> good c st' \<Longrightarrow> same_state st st' \<Longrightarrow> Q (Inl e) st'"
    and rolled: "\<And>a st'. R a \<Longrightarrow> good c st' \<Longrightarrow> same_state st st' \<Longrightarrow> Q (Inr a) st'"
    and committed: "\<And>a st'. K a (st_db st') \<Longrightarrow> good c st' \<Longrightarrow> st_audit st' = st_audit st \<Longrightarrow> Q (Inr a) st'"
  shows "wp (in_tx body) Q st"
proof (rule wp_in_tx)
  show "reliable st" using gd by (simp add: good_def)
next
  fix e st' assume "reliable st'" "same_state st st'"
  then show "Q (Inl (Database e)) st'" using good_same [OF gd] by (intro failed) simp_all
next
  fix st1 assume st1: "reliable st1" "same_state st st1"
  from body [OF good_same [OF gd st1] st1(2)] show "wp body (\<lambda>r st2. reliable st2 \<and> st_audit st2 = st_audit st1 \<and>
      (\<forall>e st'. r = Inl e \<longrightarrow> reliable st' \<longrightarrow> same_state st st' \<longrightarrow> Q (Inl e) st') \<and>
      (\<forall>a st'. r = Inr (Rollback a) \<longrightarrow> reliable st' \<longrightarrow> same_state st st' \<longrightarrow> Q (Inr a) st') \<and>
      (\<forall>a st'. r = Inr (Commit a) \<longrightarrow> reliable st' \<longrightarrow> st_audit st' = st_audit st \<longrightarrow>
         st_db st' = st_db st2 \<longrightarrow> Q (Inr a) st')) st1"
    using good_same [OF gd]
    by (auto simp: wp_def good_def intro: failed rolled committed)
qed

end
