(* ===== verification/Store_Ops.thy ===== *)
theory Store_Ops
  imports Store_Facts
begin

text \<open>
  The transactional operations of the store on every branch: \<open>cancel\<close>, \<open>resolve_verdict\<close>,
  \<open>apply_settlement_outcome\<close>, \<open>release_stale_executing\<close>, then \<open>insert\<close>, the retention sweep and the
  money tables.
\<close>

subsection \<open>Reading the row under its lock\<close>

lemma wp_locked_row:
  assumes g: "good c st"
    and db: "\<And>e st'. reliable st' \<Longrightarrow> same_state st st' \<Longrightarrow> Q (Inl (Database e)) st'"
    and gone: "\<And>st'. book c st pid = None \<Longrightarrow> reliable st' \<Longrightarrow> same_state st st' \<Longrightarrow> Q (Inl (NotFound pid)) st'"
    and found: "\<And>q r st'. book c st pid = Some q \<Longrightarrow> i64_of_u64 (pid_raw pid) = Some (r_id r) \<Longrightarrow>
      find_row (r_id r) (st_db st) = Some r \<Longrightarrow> r_status r = status_text (p_status q) \<Longrightarrow>
      r_sub_solver r = addr_text c (p_sub_solver q) \<Longrightarrow> r_order_uid r = uid_text c (p_order_uid q) \<Longrightarrow>
      uid_ok (p_order_uid q) \<Longrightarrow> 0 < r_id r \<Longrightarrow> r_id r \<le> i64_max \<Longrightarrow>
      reliable st' \<Longrightarrow> same_state st st' \<Longrightarrow> Q (Inr r) st'"
  shows "wp (locked_row pid) Q st"
proof (cases "i64_of_u64 (pid_raw pid)")
  case None
  then show ?thesis
    using gone [OF book_no_id [OF None], of st] g
    by (simp add: locked_row_def wp_act_iff wp_lift_iff as_db_id_def good_def)
next
  case (Some i)
  have rel: "reliable st" using g by (simp add: good_def)
  have "wp (stmt (\<lambda>d. Inr (find_row i d, d))) (\<lambda>r st'. (\<forall>e. r = Inl e \<longrightarrow> Q (Inl e) st') \<and>
      (\<forall>row. r = Inr row \<longrightarrow>
        wp (case row of None \<Rightarrow> fail (NotFound pid) | Some r \<Rightarrow> done_with r) Q st')) st"
  proof (rule wp_stmt [OF rel])
    fix row d st' assume f: "Inr (find_row i (st_db st), st_db st) = Inr (row, d)"
      and st': "reliable st'" "st_db st' = d" "st_audit st' = st_audit st"
    then have same: "same_state st st'" by (simp add: same_state_def)
    show "(\<forall>e. Inr row = Inl e \<longrightarrow> Q (Inl e) st') \<and> (\<forall>row'. Inr row = Inr row' \<longrightarrow>
        wp (case row' of None \<Rightarrow> fail (NotFound pid) | Some r \<Rightarrow> done_with r) Q st')"
    proof (cases row)
      case None
      with f Some g have "book c st pid = None" by (auto simp: good_def book_def proposal_at_None_iff)
      from gone [OF this st'(1) same] None show ?thesis by (simp add: wp_fail)
    next
      case r: (Some r)
      with f Some g have "book c st pid \<noteq> None" by (auto simp: good_def book_def proposal_at_None_iff)
      then obtain q where q: "book c st pid = Some q" by auto
      from g q obtain i' r' where rr: "i64_of_u64 (pid_raw pid) = Some i'" "find_row i' (st_db st) = Some r'" "r_id r' = i'"
        "r_status r' = status_text (p_status q)" "r_sub_solver r' = addr_text c (p_sub_solver q)"
        "r_order_uid r' = uid_text c (p_order_uid q)" "uid_ok (p_order_uid q)" "0 < i'" "i' \<le> i64_max"
        by (rule book_row)
      moreover have "i' = i" "r' = r" using rr(1,2) Some f r by auto
      ultimately have "Q (Inr r) st'" using found [OF q, of r st'] st'(1) same Some by blast
      with r show ?thesis by (simp add: wp_done)
    qed
  qed (auto intro: db)
  then show ?thesis by (simp add: locked_row_def select_row_def wp_act_iff wp_lift_iff as_db_id_def Some)
qed

lemma parse_columns [simp]:
  "parse_column s (Some x) = Inr x"
  "codec_ok c \<Longrightarrow> parse_addr c (addr_text c a) = Some a"
  "codec_ok c \<Longrightarrow> uid_ok u \<Longrightarrow> parse_uid_column c (uid_text c u) = Inr u"
  by (simp_all add: parse_column_def parse_uid_column_def codec_read_back from_hex_text)

context row_update
begin

text \<open>The \<open>UPDATE .. WHERE id = $1\<close> under the lock.\<close>

lemma wp_update_locked:
  assumes gd: "good c st" and c: "codec_ok c"
    and i: "i64_of_u64 (pid_raw pid) = Some i" and r: "find_row i (st_db st) = Some r"
    and q: "book c st pid = Some q"
    and db: "\<And>e st'. reliable st' \<Longrightarrow> same_state st st' \<Longrightarrow> Q (Inl (Database e)) st'"
    and upd: "\<And>n st'. good c st' \<Longrightarrow> book c st' = (book c st)(pid \<mapsto> g q) \<Longrightarrow>
      st_audit st' = st_audit st \<Longrightarrow> kept_tables (st_db st) (st_db st') \<Longrightarrow>
      d_penalties (st_db st') = d_penalties (st_db st) \<Longrightarrow>
      d_next_penalty (st_db st') = d_next_penalty (st_db st) \<Longrightarrow> Q (Inr n) st'"
  shows "wp (stmt (\<lambda>d. Inr (update_rows (\<lambda>r'. r_id r' = i) f d))) Q st"
proof (rule wp_stmt)
  show "reliable st" using gd by (simp add: good_def)
next
  fix e st' assume "reliable st'" "same_state st st'"
  then show "Q (Inl (Database e)) st'" by (rule db)
next
  fix n d st' assume u: "Inr (update_rows (\<lambda>r'. r_id r' = i) f (st_db st)) = Inr (n, d)"
    and st': "reliable st'" "st_db st' = d" "st_audit st' = st_audit st"
  have ok: "db_ok c (st_db st)" using gd by (simp add: good_def)
  have d: "d = snd (update_rows (\<lambda>r'. r_id r' = i) f (st_db st))" using u by (metis Inr_inject snd_conv)
  have m: "r_id r = i" using find_row_mem [OF r] by simp
  show "Q (Inr n) st'"
  proof (rule upd)
    show "good c st'" using st' update_keeps_db [OF c ok] by (simp add: good_def d)
    show "book c st' = (book c st)(pid \<mapsto> g q)"
      using update_by_id(2) [OF c ok i q [unfolded book_def] _ r, of "\<lambda>r'. r_id r' = i"] m
      by (simp add: book_def st'(2) d)
  qed (simp_all add: st' d)
qed

end

subsection \<open>Cancellation\<close>

definition cancel_error :: "codec \<Rightarrow> store \<Rightarrow> proposal_id \<Rightarrow> address \<Rightarrow> store_error \<Rightarrow> bool" where
  "cancel_error c st pid sub_solver e \<longleftrightarrow> (\<exists>x. e = Database x) \<or>
     (case book c st pid of
        None \<Rightarrow> e = NotFound pid
      | Some q \<Rightarrow>
          if p_sub_solver q \<noteq> sub_solver then e = NotOwner pid sub_solver
          else p_status q \<notin> {Submitted, Active} \<and>
               e = StaleTransition pid ''submitted or active'' (p_status q))"

lemma cancel_error_db [simp]: "cancel_error c st pid sub_solver (Database x)"
  by (simp add: cancel_error_def)

lemma wp_cancel_body:
  assumes gd: "good c st" and c: "codec_ok c"
  shows "wp (cancel_body c clk pid sub_solver) (\<lambda>r st'. reliable st' \<and> st_audit st' = st_audit st \<and>
    (\<forall>e. r = Inl e \<longrightarrow> cancel_error c st pid sub_solver e) \<and> (\<forall>a. r = Inr (Rollback a) \<longrightarrow> False) \<and>
    (\<forall>u. r = Inr (Commit u) \<longrightarrow> db_ok c (st_db st') \<and> kept_tables (st_db st) (st_db st') \<and>
       d_penalties (st_db st') = d_penalties (st_db st) \<and>
       (\<exists>q. book c st pid = Some q \<and> p_sub_solver q = sub_solver \<and> p_status q \<in> {Submitted, Active} \<and>
          u = p_order_uid q \<and> proposal_at c (st_db st') = (book c st)(pid \<mapsto> with_status Cancelled q)))) st"
  (is "wp _ ?Q st")
  unfolding cancel_body_def wp_act_iff
  apply (rule wp_locked_row [OF gd])
    apply (use gd in \<open>auto simp: same_state_def cancel_error_def good_def\<close>) [2]
  subgoal premises row for q r st1
  proof -
    have g1: "good c st1" using good_same [OF gd row(10,11)] .
    have f1: "find_row (r_id r) (st_db st1) = Some r" "book c st1 pid = Some q"
      using row by (simp_all add: same_state_def book_def)
    show ?thesis
      using row f1 c
      by (auto simp: wp_act_iff wp_lift_iff require_live_def fail_def done_with_def cancel_error_def
          same_state_def good_def book_def
          intro!: status_update.wp_update_locked [OF g1 c row(2) f1])
  qed
  done

lemma wp_cancel:
  assumes gd: "good c st" and c: "codec_ok c"
  shows "wp (cancel c clk pid sub_solver) (\<lambda>r st'. good c st' \<and> (case r of
      Inl e \<Rightarrow> same_state st st' \<and> cancel_error c st pid sub_solver e
    | Inr _ \<Rightarrow> d_penalties (st_db st') = d_penalties (st_db st) \<and>
        (\<exists>q. p_id q = pid \<and> p_sub_solver q = sub_solver \<and> p_status q \<in> {Submitted, Active} \<and>
          moved c st st' q (with_status Cancelled q)
            [event (wall_now clk) (AuditCancelled pid sub_solver (p_order_uid q))]))) st"
  (is "wp _ ?Q st")
  unfolding cancel_def wp_act_iff
proof (rule wp_transaction [OF gd, where E = "cancel_error c st pid sub_solver" and R = "\<lambda>_. False"
    and K = "\<lambda>u d. kept_tables (st_db st) d \<and> d_penalties d = d_penalties (st_db st) \<and>
       (\<exists>q. book c st pid = Some q \<and> p_sub_solver q = sub_solver \<and> p_status q \<in> {Submitted, Active} \<and>
          u = p_order_uid q \<and> proposal_at c d = (book c st)(pid \<mapsto> with_status Cancelled q))"])
  fix st1 assume st1: "good c st1" "same_state st st1"
  have b: "book c st1 = book c st" using st1(2) by (rule same_book)
  then have "cancel_error c st1 = cancel_error c st" by (simp add: cancel_error_def fun_eq_iff)
  with b wp_cancel_body [OF st1(1) c, of clk pid sub_solver] st1(2)
  show "wp (cancel_body c clk pid sub_solver) (\<lambda>r st2. reliable st2 \<and> st_audit st2 = st_audit st1 \<and>
      (\<forall>e. r = Inl e \<longrightarrow> cancel_error c st pid sub_solver e) \<and> (\<forall>a. r = Inr (Rollback a) \<longrightarrow> False) \<and>
      (\<forall>a. r = Inr (Commit a) \<longrightarrow> db_ok c (st_db st2) \<and> kept_tables (st_db st) (st_db st2) \<and>
       d_penalties (st_db st2) = d_penalties (st_db st) \<and>
       (\<exists>q. book c st pid = Some q \<and> p_sub_solver q = sub_solver \<and> p_status q \<in> {Submitted, Active} \<and>
          a = p_order_uid q \<and> proposal_at c (st_db st2) = (book c st)(pid \<mapsto> with_status Cancelled q)))) st1"
    by (simp add: same_state_def)
next
  fix u st' assume k: "kept_tables (st_db st) (st_db st') \<and> d_penalties (st_db st') = d_penalties (st_db st) \<and>
       (\<exists>q. book c st pid = Some q \<and> p_sub_solver q = sub_solver \<and> p_status q \<in> {Submitted, Active} \<and>
          u = p_order_uid q \<and> proposal_at c (st_db st') = (book c st)(pid \<mapsto> with_status Cancelled q))"
    and st': "good c st'" "st_audit st' = st_audit st"
  from k obtain q where q: "book c st pid = Some q" "p_sub_solver q = sub_solver" "p_status q \<in> {Submitted, Active}"
    "u = p_order_uid q" "book c st' = (book c st)(pid \<mapsto> with_status Cancelled q)" by (auto simp: book_def)
  have "p_id q = pid" using book_id [OF gd q(1)] .
  with q k st' have "wp (emit (wall_now clk) (AuditCancelled pid sub_solver u)) ?Q st'"
    by (intro wp_emit) (auto simp: good_def moved_def book_def event_def)
  then show "(\<forall>e. Inr u = Inl e \<longrightarrow> ?Q (Inl e) st') \<and>
      (\<forall>a. Inr u = Inr a \<longrightarrow> wp (emit (wall_now clk) (AuditCancelled pid sub_solver a)) ?Q st')" by simp
qed auto

subsection \<open>Verdicts\<close>

definition live_error :: "codec \<Rightarrow> store \<Rightarrow> proposal_id \<Rightarrow> store_error \<Rightarrow> bool" where
  "live_error c st pid e \<longleftrightarrow> (\<exists>x. e = Database x) \<or>
     (case book c st pid of
        None \<Rightarrow> e = NotFound pid
      | Some q \<Rightarrow> p_status q \<notin> {Submitted, Active} \<and>
          e = StaleTransition pid ''submitted or active'' (p_status q))"

lemma live_error_db [simp]: "live_error c st pid (Database x)"
  by (simp add: live_error_def)

lemma wp_verdict_body:
  assumes gd: "good c st" and c: "codec_ok c"
  shows "wp (verdict_body c clk pid to reason sim) (\<lambda>r st'. reliable st' \<and> st_audit st' = st_audit st \<and>
    (\<forall>e. r = Inl e \<longrightarrow> live_error c st pid e) \<and> (\<forall>a. r = Inr (Rollback a) \<longrightarrow> False) \<and>
    (\<forall>k. r = Inr (Commit k) \<longrightarrow> db_ok c (st_db st') \<and> kept_tables (st_db st) (st_db st') \<and>
       d_penalties (st_db st') = d_penalties (st_db st) \<and>
       (\<exists>q. book c st pid = Some q \<and> p_status q \<in> {Submitted, Active} \<and>
          k = (p_status q, p_sub_solver q, p_order_uid q) \<and>
          proposal_at c (st_db st') = (book c st)(pid \<mapsto> with_verdict to reason sim q)))) st"
  unfolding verdict_body_def wp_act_iff
  apply (rule wp_locked_row [OF gd])
    apply (use gd in \<open>auto simp: same_state_def live_error_def good_def\<close>) [2]
  subgoal premises row for q r st1
  proof -
    have g1: "good c st1" using good_same [OF gd row(10,11)] .
    have f1: "find_row (r_id r) (st_db st1) = Some r" "book c st1 pid = Some q"
      using row by (simp_all add: same_state_def book_def)
    show ?thesis
      using row f1 c
      by (auto simp: wp_act_iff wp_lift_iff require_live_def fail_def done_with_def live_error_def
          same_state_def good_def book_def
          intro!: verdict_update.wp_update_locked [OF g1 c row(2) f1])
  qed
  done

lemma wp_resolve_verdict:
  assumes gd: "good c st" and c: "codec_ok c" and v: "verdict_parts v = (to, reason, sim)"
  shows "wp (resolve_verdict c clk pid v) (\<lambda>r st'. good c st' \<and> (case r of
      Inl e \<Rightarrow> same_state st st' \<and> live_error c st pid e
    | Inr s \<Rightarrow> s = to \<and> d_penalties (st_db st') = d_penalties (st_db st) \<and>
        (\<exists>q. p_id q = pid \<and> p_status q \<in> {Submitted, Active} \<and>
          moved c st st' q (with_verdict to reason sim q)
            (if p_status q = to then []
             else [event (wall_now clk)
               (StatusChanged pid (p_sub_solver q) (p_order_uid q) (p_status q) to reason None)])))) st"
  (is "wp _ ?Q st")
  unfolding resolve_verdict_def v prod.case wp_act_iff
proof (rule wp_transaction [OF gd, where E = "live_error c st pid" and R = "\<lambda>_. False"
    and K = "\<lambda>k d. kept_tables (st_db st) d \<and> d_penalties d = d_penalties (st_db st) \<and>
       (\<exists>q. book c st pid = Some q \<and> p_status q \<in> {Submitted, Active} \<and>
          k = (p_status q, p_sub_solver q, p_order_uid q) \<and>
          proposal_at c d = (book c st)(pid \<mapsto> with_verdict to reason sim q))"], goal_cases)
  case (1 st1)
  have b: "book c st1 = book c st" using 1(2) by (rule same_book)
  then have "live_error c st1 = live_error c st" by (simp add: live_error_def fun_eq_iff)
  with wp_verdict_body [OF 1(1) c, of clk pid to reason sim] b 1(2) show ?case by (simp add: same_state_def)
next
  case (4 k st')
  then obtain q where q: "book c st pid = Some q" "p_status q \<in> {Submitted, Active}"
    "k = (p_status q, p_sub_solver q, p_order_uid q)"
    "book c st' = (book c st)(pid \<mapsto> with_verdict to reason sim q)" by (auto simp: book_def)
  have id: "p_id q = pid" using book_id [OF gd q(1)] .
  let ?ev = "StatusChanged pid (p_sub_solver q) (p_order_uid q) (p_status q) to reason None"
  have fin: "?Q (Inr to) st''"
    if "reliable st''" "st_db st'' = st_db st'"
      "st_audit st'' = st_audit st @ (if p_status q = to then [] else [event (wall_now clk) ?ev])" for st''
    using that 4 q id unfolding sum.case
    by (intro conjI exI [of _ q]) (simp_all add: good_def moved_def book_def)
  have "wp (act (if p_status q \<noteq> to then emit (wall_now clk) ?ev else done_with ()) (\<lambda>_. done_with to)) ?Q st'"
  proof (cases "p_status q = to")
    case True
    with fin [of st'] 4 show ?thesis by (simp add: wp_act_iff done_with_def wp_lift_iff good_def)
  next
    case False
    have "reliable st'" using 4 by (simp add: good_def)
    then have "wp (emit (wall_now clk) ?ev) (\<lambda>r st''. (\<forall>e. r = Inl e \<longrightarrow> ?Q (Inl e) st'') \<and>
        (\<forall>a. r = Inr a \<longrightarrow> ?Q (Inr to) st'')) st'"
      by (rule wp_emit) (use False 4 in \<open>intro conjI impI allI fin; simp add: event_def\<close>)
    with False show ?thesis by (simp add: wp_act_iff done_with_def wp_lift_iff)
  qed
  then show ?case by (simp add: q(3))
qed auto

subsection \<open>Settlement outcomes\<close>

lemma wp_insert_penalty:
  assumes gd: "good c st" and c: "codec_ok c" and "uid_ok u" and "0 < i" and "i \<le> i64_max"
    and db: "\<And>e st'. reliable st' \<Longrightarrow> same_state st st' \<Longrightarrow> Q (Inl (Database e)) st'"
    and ins: "\<And>st'. good c st' \<Longrightarrow> book c st' = book c st \<Longrightarrow> st_audit st' = st_audit st \<Longrightarrow>
      kept_tables (st_db st) (st_db st') \<Longrightarrow>
      d_penalties (st_db st') = d_penalties (st_db st) @ [\<lparr>pr_id = d_next_penalty (st_db st), pr_proposal_id = i,
          pr_sub_solver = addr_text c a, pr_order_uid = uid_text c u, pr_penalty_tx_hash = None\<rparr>] \<Longrightarrow>
      Q (Inr ()) st'"
  shows "wp (stmt (insert_penalty i (addr_text c a) (uid_text c u))) Q st"
proof (rule wp_stmt)
  show "reliable st" using gd by (simp add: good_def)
next
  fix x d st' assume p: "insert_penalty i (addr_text c a) (uid_text c u) (st_db st) = Inr (x, d)"
    and st': "reliable st'" "st_db st' = d" "st_audit st' = st_audit st"
  have ok: "db_ok c (st_db st)" using gd by (simp add: good_def)
  note facts = db_ok_insert_penalty [OF ok c assms(3-5) p]
  have "kept_tables (st_db st) d" using p by (auto simp: insert_penalty_def Let_def split: if_splits)
  with facts st' show "Q (Inr x) st'" by (auto intro!: ins simp: good_def book_def)
qed (rule db)

definition outcome_error :: "codec \<Rightarrow> store \<Rightarrow> proposal_id \<Rightarrow> store_error \<Rightarrow> bool" where
  "outcome_error c st pid e \<longleftrightarrow> (\<exists>x. e = Database x) \<or> (book c st pid = None \<and> e = NotFound pid)"

lemma outcome_error_db [simp]: "outcome_error c st pid (Database x)"
  by (simp add: outcome_error_def)

text \<open>The charge an applied outcome queues, and the map an applied outcome leaves.\<close>

definition queued_charge :: "codec \<Rightarrow> db \<Rightarrow> proposal \<Rightarrow> settlement_outcome \<Rightarrow> penalty_row list" where
  "queued_charge c d p outcome =
     (if outcome = Abandoned
      then [\<lparr>pr_id = d_next_penalty d, pr_proposal_id = uint (pid_raw (p_id p)),
             pr_sub_solver = addr_text c (p_sub_solver p), pr_order_uid = uid_text c (p_order_uid p),
             pr_penalty_tx_hash = None\<rparr>]
      else [])"

definition outcome_db ::
  "codec \<Rightarrow> store \<Rightarrow> proposal \<Rightarrow> settlement_outcome \<Rightarrow> proposal_status \<Rightarrow> proposal_status \<Rightarrow> db \<Rightarrow> bool" where
  "outcome_db c st p outcome from to d \<longleftrightarrow>
     outcome_target outcome from = Some to \<and>
     kept_tables (st_db st) d \<and>
     d_penalties d = d_penalties (st_db st) @ queued_charge c (st_db st) p outcome \<and>
     (\<exists>q. book c st (p_id p) = Some q \<and> p_status q = from \<and>
        proposal_at c d = (book c st)(p_id p \<mapsto> with_outcome to (outcome_tx outcome) q))"

lemma i64_of_u64_uint: "i64_of_u64 x = Some i \<Longrightarrow> i = uint x"
  by (auto simp: i64_of_u64_def split: if_splits)

lemma wp_outcome_body:
  assumes gd: "good c st" and c: "codec_ok c" and u: "uid_ok (p_order_uid p)"
  shows "wp (outcome_body c clk p outcome) (\<lambda>r st'. reliable st' \<and> st_audit st' = st_audit st \<and>
    (\<forall>e. r = Inl e \<longrightarrow> outcome_error c st (p_id p) e) \<and>
    (\<forall>a. r = Inr (Rollback a) \<longrightarrow> (\<exists>q. book c st (p_id p) = Some q \<and> a = Ignored (p_status q) \<and>
       outcome_target outcome (p_status q) = None)) \<and>
    (\<forall>a. r = Inr (Commit a) \<longrightarrow> db_ok c (st_db st') \<and>
       (\<exists>from to. a = Applied from to \<and> outcome_db c st p outcome from to (st_db st')))) st"
  (is "wp _ ?Q st")
  unfolding outcome_body_def wp_act_iff
  apply (rule wp_locked_row [OF gd])
    apply (use gd in \<open>auto simp: same_state_def outcome_error_def good_def\<close>) [2]
  subgoal premises row for q r st1
  proof -
    have g1: "good c st1" using good_same [OF gd row(10,11)] .
    have f1: "find_row (r_id r) (st_db st1) = Some r" "book c st1 (p_id p) = Some q"
      using row by (simp_all add: same_state_def book_def)
    show ?thesis
    proof (cases "outcome_target outcome (p_status q)")
      case None
      with row show ?thesis
        by (simp add: wp_act_iff wp_lift_iff done_with_def same_state_def)
    next
      case (Some to)
      have charge: "wp (if outcome = Abandoned
            then stmt (insert_penalty (r_id r) (addr_text c (p_sub_solver p)) (uid_text c (p_order_uid p)))
            else done_with ())
          (\<lambda>x st3. (\<forall>e. x = Inl e \<longrightarrow> ?Q (Inl e) st3) \<and>
            (\<forall>a. x = Inr a \<longrightarrow> wp (done_with (Commit (Applied (p_status q) to))) ?Q st3)) st2"
        if g2: "good c st2" and b2: "book c st2 = (book c st1)(p_id p \<mapsto> with_outcome to (outcome_tx outcome) q)"
          and a2: "st_audit st2 = st_audit st1" "kept_tables (st_db st1) (st_db st2)"
            "d_penalties (st_db st2) = d_penalties (st_db st1)" "d_next_penalty (st_db st2) = d_next_penalty (st_db st1)"
        for st2
      proof -
        have fin: "?Q (Inr (Commit (Applied (p_status q) to))) st3"
          if "good c st3" "book c st3 = book c st2" "st_audit st3 = st_audit st2"
            "kept_tables (st_db st2) (st_db st3)"
            "d_penalties (st_db st3) = d_penalties (st_db st2) @ queued_charge c (st_db st) p outcome" for st3
          using that b2 a2 row(1,11) Some
          by (simp add: good_def outcome_db_def same_state_def book_def)
        show ?thesis
        proof (cases "outcome = Abandoned")
          case True
          show ?thesis unfolding if_P [OF True] wp_done_iff
          proof (rule wp_insert_penalty [OF g2 c u row(8,9)], goal_cases)
            case (1 e st3)
            then show ?case using row(10,11) a2 by (simp add: same_state_def)
          next
            case (2 st3)
            have "?Q (Inr (Commit (Applied (p_status q) to))) st3"
              by (rule fin)
                (use 2 True a2 row(11) i64_of_u64_uint [OF row(2)] in
                  \<open>simp_all add: queued_charge_def same_state_def\<close>)
            then show ?case by simp
          qed
        next
          case False
          with fin [of st2] g2 show ?thesis by (simp add: wp_done_iff queued_charge_def)
        qed
      qed
      have "wp (stmt (\<lambda>d. Inr (update_rows (\<lambda>r'. r_id r' = r_id r)
          (\<lambda>r'. r'\<lparr>r_status := status_text to,
             r_settlement_tx_hash := coalesce (map_option (b256_text c) (outcome_tx outcome)) (r_settlement_tx_hash r'),
             r_status_changed_at := db_now clk\<rparr>) d)))
          (\<lambda>x st2. (\<forall>e. x = Inl e \<longrightarrow> ?Q (Inl e) st2) \<and> (\<forall>n. x = Inr n \<longrightarrow>
             wp (if outcome = Abandoned
              then stmt (insert_penalty (r_id r) (addr_text c (p_sub_solver p)) (uid_text c (p_order_uid p)))
              else done_with ())
            (\<lambda>x st3. (\<forall>e. x = Inl e \<longrightarrow> ?Q (Inl e) st3) \<and>
              (\<forall>a. x = Inr a \<longrightarrow> wp (done_with (Commit (Applied (p_status q) to))) ?Q st3)) st2)) st1"
        by (rule outcome_update.wp_update_locked [OF g1 c row(2) f1])
          (use row(11) charge in \<open>auto simp: same_state_def\<close>)
      then show ?thesis using row(4) Some
        by (simp add: wp_act_iff wp_lift_iff wp_done_iff)
    qed
  qed
  done

lemma wp_apply_settlement_outcome:
  assumes gd: "good c st" and c: "codec_ok c" and u: "uid_ok (p_order_uid p)"
  shows "wp (apply_settlement_outcome c clk p outcome) (\<lambda>r st'. good c st' \<and> (case r of
      Inl e \<Rightarrow> same_state st st' \<and> outcome_error c st (p_id p) e
    | Inr (Ignored from) \<Rightarrow> same_state st st' \<and> outcome_target outcome from = None \<and>
        (\<exists>q. book c st (p_id p) = Some q \<and> p_status q = from)
    | Inr (Applied from to) \<Rightarrow> outcome_target outcome from = Some to \<and>
        d_penalties (st_db st') = d_penalties (st_db st) @ queued_charge c (st_db st) p outcome \<and>
        (\<exists>q. p_id q = p_id p \<and> p_status q = from \<and>
          moved c st st' q (with_outcome to (outcome_tx outcome) q)
            [event (wall_now clk) (StatusChanged (p_id p) (p_sub_solver p) (p_order_uid p) from to None
               (outcome_tx outcome))]))) st"
  (is "wp _ ?Q st")
  unfolding apply_settlement_outcome_def wp_act_iff
proof (rule wp_transaction [OF gd, where E = "outcome_error c st (p_id p)"
    and R = "\<lambda>a. \<exists>q. book c st (p_id p) = Some q \<and> a = Ignored (p_status q) \<and> outcome_target outcome (p_status q) = None"
    and K = "\<lambda>a d. \<exists>from to. a = Applied from to \<and> outcome_db c st p outcome from to d"], goal_cases)
  case (1 st1)
  have b: "book c st1 = book c st" using 1(2) by (rule same_book)
  then have "outcome_error c st1 = outcome_error c st" "outcome_db c st1 p outcome = outcome_db c st p outcome"
    using 1(2) by (simp_all add: outcome_error_def outcome_db_def fun_eq_iff same_state_def)
  with wp_outcome_body [OF 1(1) c u, of clk outcome] b show ?case by simp
next
  case (3 a st')
  then show ?case by (auto simp: wp_done_iff)
next
  case (4 a st')
  then obtain "from" to where a: "a = Applied from to" and k: "outcome_db c st p outcome from to (st_db st')"
    by blast
  then obtain q where q: "book c st (p_id p) = Some q" "p_status q = from"
    "book c st' = (book c st)(p_id p \<mapsto> with_outcome to (outcome_tx outcome) q)"
    and tabs: "outcome_target outcome from = Some to" "kept_tables (st_db st) (st_db st')"
      "d_penalties (st_db st') = d_penalties (st_db st) @ queued_charge c (st_db st) p outcome"
    by (auto simp: outcome_db_def book_def)
  have id: "p_id q = p_id p" using book_id [OF gd q(1)] .
  let ?ev = "StatusChanged (p_id p) (p_sub_solver p) (p_order_uid p) from to None (outcome_tx outcome)"
  have fin: "?Q (Inr (Applied from to)) st''"
    if st'': "reliable st''" "st_db st'' = st_db st'" "st_audit st'' = st_audit st @ [event (wall_now clk) ?ev]" for st''
  proof -
    have "good c st''" using 4 st'' by (simp add: good_def)
    moreover have "moved c st st'' q (with_outcome to (outcome_tx outcome) q) [event (wall_now clk) ?ev]"
      using q id st'' tabs(2) by (simp add: moved_def book_def)
    ultimately show ?thesis using tabs st''(2) q(2) id by auto
  qed
  have "reliable st'" using 4 by (simp add: good_def)
  then have "wp (emit (wall_now clk) ?ev) (\<lambda>r st''. (\<forall>e. r = Inl e \<longrightarrow> ?Q (Inl e) st'') \<and>
      (\<forall>a. r = Inr a \<longrightarrow> ?Q (Inr (Applied from to)) st'')) st'"
  proof (rule wp_emit, goal_cases)
    case (1 st'')
    have "?Q (Inr (Applied from to)) st''" by (rule fin) (use 1 4 in \<open>simp_all add: event_def\<close>)
    then show ?case by simp
  qed
  then show ?case by (simp add: a wp_act_iff wp_done_iff)
qed auto

subsection \<open>The timeout backstop\<close>

context row_update
begin

lemma proposal_at_bulk:
  assumes "codec_ok c" and "db_ok c d"
  shows "proposal_at c (snd (update_rows P f d)) pid =
    Option.bind (i64_of_u64 (pid_raw pid)) (\<lambda>i. Option.bind (find_row i d) (\<lambda>r.
      if P r then map_option g (readable c r) else readable c r))"
proof -
  have "readable c (f r) = map_option g (readable c r)" if "find_row i d = Some r" for i r
    using find_row_mem [OF that] assms by (intro row_refines) (auto simp: db_ok_def)
  then show ?thesis
    unfolding proposal_at_def find_row_update [OF row_id]
    by (cases "i64_of_u64 (pid_raw pid)"; cases "find_row (the (i64_of_u64 (pid_raw pid))) d") auto
qed

end

text \<open>Since when the stored proposal has its status.\<close>

definition status_since :: "db \<Rightarrow> proposal_id \<Rightarrow> time option" where
  "status_since d pid =
     Option.bind (i64_of_u64 (pid_raw pid)) (\<lambda>i. map_option r_status_changed_at (find_row i d))"

definition overdue :: "clock \<Rightarrow> time \<Rightarrow> store \<Rightarrow> proposal_status list \<Rightarrow> proposal \<Rightarrow> bool" where
  "overdue clk older_than st sts q \<longleftrightarrow> p_status q \<in> set sts \<and>
     (case status_since (st_db st) (p_id q) of None \<Rightarrow> False | Some t \<Rightarrow> t < db_now clk - older_than)"

lemma overdue_row:
  assumes "good c st" and "find_row i (st_db st) = Some r" and "readable c r = Some q" and c: "codec_ok c"
  shows "overdue clk t st [Executing] q = stale_executing clk t r"
    and "overdue clk t st dropped_statuses q = swept_row clk t r"
    and "i64_of_u64 (pid_raw (p_id q)) = Some i"
    and "released_keys c (release_row clk r) = Inr (p_id q, p_sub_solver q, p_order_uid q)"
proof -
  from find_row_mem [OF assms(2)] assms(1) have "row_ok c r" and i: "r_id r = i" by (auto simp: good_def db_ok_def)
  with assms(3) obtain gas where r: "r = insert_row c (r_id r) (r_status_changed_at r) q gas"
    and id: "i64_of_u64 (pid_raw (p_id q)) = Some (r_id r)" "id_of_db (r_id r) = Some (p_id q)"
    and u: "uid_ok (p_order_uid q)" and p: "proposal_of_row c r = Inr q"
    by (auto simp: readable_Some_iff elim: row_ok_E)
  from id i show "i64_of_u64 (pid_raw (p_id q)) = Some i" by simp
  from r have st: "r_status r = status_text (p_status q)" by (metis insert_row_simps(2))
  have "status_since (st_db st) (p_id q) = Some (r_status_changed_at r)"
    using id i assms(2) by (simp add: status_since_def)
  with st show "overdue clk t st [Executing] q = stale_executing clk t r"
    "overdue clk t st dropped_statuses q = swept_row clk t r"
    by (auto simp: overdue_def stale_executing_def swept_row_def status_names_def)
  from r have "r_sub_solver r = addr_text c (p_sub_solver q)" "r_order_uid r = uid_text c (p_order_uid q)"
    by (metis insert_row_simps(3,4))+
  then show "released_keys c (release_row clk r) = Inr (p_id q, p_sub_solver q, p_order_uid q)"
    using c u id by (simp add: released_keys_def release_row_def)
qed

text \<open>\<open>q\<close> is stored and overdue in \<open>Executing\<close>: what a pass of the backstop releases.\<close>

definition to_release :: "codec \<Rightarrow> clock \<Rightarrow> time \<Rightarrow> store \<Rightarrow> proposal set" where
  "to_release c clk t st = {q. book c st (p_id q) = Some q \<and> overdue clk t st [Executing] q}"

definition released_book :: "codec \<Rightarrow> clock \<Rightarrow> time \<Rightarrow> store \<Rightarrow> proposal_id \<Rightarrow> proposal option" where
  "released_book c clk t st pid =
     map_option (\<lambda>q. if overdue clk t st [Executing] q then with_status Active q else q) (book c st pid)"

lemma release_update:
  assumes gd: "good c st" and c: "codec_ok c"
  shows "proposal_at c (snd (update_rows (stale_executing clk t) (release_row clk) (st_db st)))
    = released_book c clk t st"
proof
  fix pid
  have f: "release_row clk = (\<lambda>r. r\<lparr>r_status := status_text Active, r_status_changed_at := db_now clk\<rparr>)"
    by (simp add: release_row_def fun_eq_iff)
  have ok: "db_ok c (st_db st)" using gd by (simp add: good_def)
  show "proposal_at c (snd (update_rows (stale_executing clk t) (release_row clk) (st_db st))) pid
      = released_book c clk t st pid"
    unfolding f status_update.proposal_at_bulk [OF c ok]
    unfolding released_book_def book_def proposal_at_def
    using overdue_row(1) [OF gd _ _ c]
    by (cases "i64_of_u64 (pid_raw pid)"; cases "find_row (the (i64_of_u64 (pid_raw pid))) (st_db st)";
        cases "readable c (the (find_row (the (i64_of_u64 (pid_raw pid))) (st_db st)))") auto
qed

lemma released_rows:
  assumes gd: "good c st" and c: "codec_ok c"
  shows "\<exists>qs. collect (map (released_keys c) (map (release_row clk)
        (filter (stale_executing clk t) (d_proposals (st_db st)))))
      = Inr (map (\<lambda>q. (p_id q, p_sub_solver q, p_order_uid q)) qs) \<and>
    set qs = to_release c clk t st \<and> distinct (map p_id qs)"
proof -
  let ?rs = "filter (stale_executing clk t) (d_proposals (st_db st))"
  let ?q = "\<lambda>r. the (readable c r)"
  have ok: "db_ok c (st_db st)" using gd by (simp add: good_def)
  have row: "find_row (r_id r) (st_db st) = Some r" "readable c r = Some (?q r)"
    if "r \<in> set (d_proposals (st_db st))" for r
  proof -
    show "find_row (r_id r) (st_db st) = Some r" using find_row_of_mem [OF ok that] .
    from that ok have "row_ok c r" by (simp add: db_ok_def)
    then show "readable c r = Some (?q r)" by (rule row_ok_E) (simp add: readable_def)
  qed
  have keys: "released_keys c (release_row clk r) = Inr (p_id (?q r), p_sub_solver (?q r), p_order_uid (?q r))"
    and at: "book c st (p_id (?q r)) = Some (?q r)" and i: "i64_of_u64 (pid_raw (p_id (?q r))) = Some (r_id r)"
    and due: "overdue clk t st [Executing] (?q r) = stale_executing clk t r"
    if "r \<in> set (d_proposals (st_db st))" for r
    using overdue_row [OF gd row [OF that] c] row [OF that] by (simp_all add: book_def proposal_at_def)
  have "collect (map (released_keys c) (map (release_row clk) ?rs))
      = Inr (map (\<lambda>q. (p_id q, p_sub_solver q, p_order_uid q)) (map ?q ?rs))"
    using keys by (simp add: collect_Inr_iff)
  moreover have "set (map ?q ?rs) = to_release c clk t st"
  proof
    show "set (map ?q ?rs) \<subseteq> to_release c clk t st" using at due by (auto simp: to_release_def)
    show "to_release c clk t st \<subseteq> set (map ?q ?rs)"
    proof
      fix q assume q: "q \<in> to_release c clk t st"
      then obtain i r where r: "find_row i (st_db st) = Some r" "readable c r = Some q"
        by (auto simp: to_release_def book_def proposal_at_def bind_eq_Some_conv)
      then have "r \<in> set (d_proposals (st_db st))" using find_row_mem by blast
      moreover have "?q r = q" using r by simp
      moreover from this due [OF calculation(1)] q have "stale_executing clk t r" by (simp add: to_release_def)
      ultimately show "q \<in> set (map ?q ?rs)" by force
    qed
  qed
  moreover have "distinct (map p_id (map ?q ?rs))"
  proof -
    have inj: "inj_on (\<lambda>r. p_id (?q r)) (set (d_proposals (st_db st)))"
    proof (rule inj_onI)
      fix r r' assume m: "r \<in> set (d_proposals (st_db st))" "r' \<in> set (d_proposals (st_db st))"
        "p_id (?q r) = p_id (?q r')"
      with i [OF m(1)] i [OF m(2)] have "r_id r = r_id r'" by simp
      with row(1) [OF m(1)] row(1) [OF m(2)] show "r = r'" by (metis option.inject)
    qed
    have "distinct (d_proposals (st_db st))" using ok by (simp add: db_ok_def distinct_map)
    then have "distinct (map (\<lambda>r. p_id (?q r)) ?rs)"
      unfolding distinct_map using inj_on_subset [OF inj filter_is_subset] by simp
    then show ?thesis by (simp add: comp_def)
  qed
  ultimately show ?thesis by blast
qed

end
