(* ===== verification/Store_Tables.thy ===== *)
theory Store_Tables
  imports Store_Ops
begin

text \<open>
  The remaining operations of the store: the release of stale submissions, insertion, the retention
  sweep, the charges, the solutions, and the reads.
\<close>

subsection \<open>Release\<close>

lemma wp_release_body:
  assumes gd: "good c st" and c: "codec_ok c"
  shows "wp (release_body c clk t) (\<lambda>r st'. reliable st' \<and> st_audit st' = st_audit st \<and>
    (\<forall>e. r = Inl e \<longrightarrow> (\<exists>x. e = Database x)) \<and> (\<forall>a. r = Inr (Rollback a) \<longrightarrow> False) \<and>
    (\<forall>k. r = Inr (Commit k) \<longrightarrow> db_ok c (st_db st') \<and> kept_tables (st_db st) (st_db st') \<and>
       d_penalties (st_db st') = d_penalties (st_db st) \<and>
       proposal_at c (st_db st') = released_book c clk t st \<and>
       (\<exists>qs. set qs = to_release c clk t st \<and> distinct (map p_id qs) \<and>
          k = map (\<lambda>q. (p_id q, p_sub_solver q, p_order_uid q)) qs))) st"
  (is "wp _ ?Q st")
  unfolding release_body_def wp_act_iff
proof (rule wp_stmt, goal_cases)
  case 1
  then show ?case using gd by (simp add: good_def)
next
  case (2 e st')
  then show ?case by (simp add: same_state_def)
next
  case (3 rows d st')
  have ok: "db_ok c (st_db st)" using gd by (simp add: good_def)
  have f: "release_row clk = (\<lambda>r. r\<lparr>r_status := status_text Active, r_status_changed_at := db_now clk\<rparr>)"
    by (simp add: release_row_def fun_eq_iff)
  from 3(1) have rows: "rows = map (release_row clk) (filter (stale_executing clk t) (d_proposals (st_db st)))"
    and d: "d = snd (update_rows (stale_executing clk t) (release_row clk) (st_db st))" by simp_all
  from released_rows [OF gd c, of clk t] obtain qs where
    k: "collect (map (released_keys c) rows) = Inr (map (\<lambda>q. (p_id q, p_sub_solver q, p_order_uid q)) qs)"
    "set qs = to_release c clk t st" "distinct (map p_id qs)" unfolding rows by blast
  have "db_ok c d" unfolding d f by (rule status_update.update_keeps_db [OF c ok])
  moreover have "proposal_at c d = released_book c clk t st" unfolding d by (rule release_update [OF gd c])
  moreover have "kept_tables (st_db st) d" "d_penalties d = d_penalties (st_db st)"
    by (simp_all add: d)
  ultimately show ?case using 3 k by (auto simp: wp_act_iff wp_lift_iff wp_done_iff)
qed

lemma wp_release_stale_executing:
  assumes gd: "good c st" and c: "codec_ok c"
  shows "wp (release_stale_executing c clk t) (\<lambda>r st'. good c st' \<and> (case r of
      Inl e \<Rightarrow> same_state st st' \<and> (\<exists>x. e = Database x)
    | Inr n \<Rightarrow> kept_tables (st_db st) (st_db st') \<and> d_penalties (st_db st') = d_penalties (st_db st) \<and>
        book c st' = released_book c clk t st \<and>
        (\<exists>qs. set qs = to_release c clk t st \<and> distinct (map p_id qs) \<and> n = length qs \<and>
          st_audit st' = st_audit st @ map (\<lambda>q. event (wall_now clk)
            (StatusChanged (p_id q) (p_sub_solver q) (p_order_uid q) Executing Active None None)) qs))) st"
  (is "wp _ ?Q st")
  unfolding release_stale_executing_def wp_act_iff
proof (rule wp_transaction [OF gd, where E = "\<lambda>e. \<exists>x. e = Database x" and R = "\<lambda>_. False"
    and K = "\<lambda>k d. kept_tables (st_db st) d \<and> d_penalties d = d_penalties (st_db st) \<and>
       proposal_at c d = released_book c clk t st \<and>
       (\<exists>qs. set qs = to_release c clk t st \<and> distinct (map p_id qs) \<and>
          k = map (\<lambda>q. (p_id q, p_sub_solver q, p_order_uid q)) qs)"], goal_cases)
  case (1 st1)
  have b: "book c st1 = book c st" using 1(2) by (rule same_book)
  have "overdue clk t st1 = overdue clk t st"
    using 1(2) by (simp add: overdue_def fun_eq_iff same_state_def)
  with b have "released_book c clk t st1 = released_book c clk t st" "to_release c clk t st1 = to_release c clk t st"
    by (simp_all add: released_book_def to_release_def fun_eq_iff)
  with wp_release_body [OF 1(1) c, of clk t] 1(2) show ?case by (simp add: same_state_def)
next
  case (4 k st')
  then obtain qs where qs: "set qs = to_release c clk t st" "distinct (map p_id qs)"
    "k = map (\<lambda>q. (p_id q, p_sub_solver q, p_order_uid q)) qs" by blast
  have rel: "reliable st'" using 4 by (simp add: good_def)
  have ks: "map (\<lambda>(pid, sub_solver, order_uid). StatusChanged pid sub_solver order_uid Executing Active None None) k
      = map (\<lambda>q. StatusChanged (p_id q) (p_sub_solver q) (p_order_uid q) Executing Active None None) qs"
    by (simp add: qs(3))
  have "wp (emit_all (wall_now clk) (map (\<lambda>q. StatusChanged (p_id q) (p_sub_solver q) (p_order_uid q)
        Executing Active None None) qs))
      (\<lambda>r st''. (\<forall>e. r = Inl e \<longrightarrow> ?Q (Inl e) st'') \<and> (\<forall>a. r = Inr a \<longrightarrow> ?Q (Inr (length k)) st'')) st'"
  proof (rule wp_emit_all [OF rel], goal_cases)
    case (1 st'')
    have "?Q (Inr (length k)) st''"
      using 1 4 qs by (auto simp: good_def book_def event_def comp_def intro!: exI [of _ qs])
    then show ?case by simp
  qed
  then show ?case by (simp add: ks wp_act_iff wp_done_iff)
qed auto

subsection \<open>Insertion\<close>

lemma insert_proposal_frame:
  "insert_proposal c t p gas d = Inr (i, d') \<Longrightarrow>
     d_solutions d' = d_solutions d \<and> d_penalties d' = d_penalties d \<and> d_next_proposal d' = i + 1 \<and> i \<le> i64_max"
  by (auto simp: insert_proposal_def Let_def split: if_splits)

lemma insert_outcome:
  assumes gd: "good c st" and c: "codec_ok c" and u: "uid_ok (p_order_uid p)"
    and gas: "gas_column (p_gas_used p) = Some gas"
  shows "\<exists>r st'. insert_proposal_op c clk p st = Some (r, st') \<and> good c st' \<and> (case r of
      Inl e \<Rightarrow> same_state st st' \<and> (\<exists>x. e = Database x)
    | Inr pid \<Rightarrow> book c st pid = None \<and> book c st' = (book c st)(pid \<mapsto> p\<lparr>p_id := pid\<rparr>) \<and>
        d_solutions (st_db st') = d_solutions (st_db st) \<and> d_penalties (st_db st') = d_penalties (st_db st) \<and>
        d_next_proposal (st_db st') = uint (pid_raw pid) + 1 \<and> uint (pid_raw pid) = d_next_proposal (st_db st) \<and>
        st_audit st' = st_audit st @ [event (wall_now clk) (Received (p\<lparr>p_id := pid\<rparr>))])"
proof -
  have rel: "reliable st" and ok: "db_ok c (st_db st)" using gd by (simp_all add: good_def)
  obtain r st1 where s: "stmt (insert_proposal c (db_now clk) p gas) st = (r, st1)"
    by (cases "stmt (insert_proposal c (db_now clk) p gas) st")
  have "wp (stmt (insert_proposal c (db_now clk) p gas)) (\<lambda>r st1. reliable st1 \<and> st_audit st1 = st_audit st \<and> (case r of
      Inl e \<Rightarrow> same_state st st1 \<and> (\<exists>x. e = Database x)
    | Inr i \<Rightarrow> insert_proposal c (db_now clk) p gas (st_db st) = Inr (i, st_db st1))) st"
    by (rule wp_stmt [OF rel]) (auto simp: same_state_def)
  from wpD [OF this s] have s1: "reliable st1" "st_audit st1 = st_audit st"
    and r: "case r of Inl e \<Rightarrow> same_state st st1 \<and> (\<exists>x. e = Database x)
      | Inr i \<Rightarrow> insert_proposal c (db_now clk) p gas (st_db st) = Inr (i, st_db st1)" by auto
  show ?thesis
  proof (cases r)
    case (Inl e)
    with s gas r good_same [OF gd s1(1)] show ?thesis by (auto simp: insert_proposal_op_def)
  next
    case (Inr i)
    with r have ins: "insert_proposal c (db_now clk) p gas (st_db st) = Inr (i, st_db st1)" by simp
    note facts = db_ok_insert_proposal [OF ok c u gas ins]
    from facts(4) obtain pid where pid: "id_of_db i = Some pid" "proposal_at c (st_db st) pid = None"
      "proposal_at c (st_db st1) = (proposal_at c (st_db st))(pid \<mapsto> p\<lparr>p_id := pid\<rparr>)" by blast
    from ins have fr: "d_solutions (st_db st1) = d_solutions (st_db st)" "d_penalties (st_db st1) = d_penalties (st_db st)"
      "d_next_proposal (st_db st1) = i + 1" "i \<le> i64_max"
      using insert_proposal_frame by blast+
    have "0 < i" using ok facts(2) by (simp add: db_ok_def)
    with fr(4) id_of_db_Some [of i] pid(1) have "i = uint (pid_raw pid)" by (auto dest: i64_of_u64_uint)
    then show ?thesis
      using s Inr gas pid s1 fr facts(1,2)
      by (auto simp: insert_proposal_op_def act_def emit_def done_with_def lift_def reliable_def good_def
          book_def event_def)
  qed
qed

subsection \<open>Retention\<close>

definition swept_book :: "codec \<Rightarrow> clock \<Rightarrow> time \<Rightarrow> store \<Rightarrow> proposal_id \<Rightarrow> proposal option" where
  "swept_book c clk t st pid =
     (case book c st pid of None \<Rightarrow> None
      | Some q \<Rightarrow> if overdue clk t st dropped_statuses q then None else Some q)"

lemma delete_db_ok:
  assumes "db_ok c d"
  shows "db_ok c (snd (delete_rows P d))"
proof -
  have "sr_proposal_id s \<in> r_id ` {r \<in> set (d_proposals d). \<not> P r}"
    if s: "s \<in> set (d_solutions d)" "sr_proposal_id s \<notin> r_id ` {r \<in> set (d_proposals d). P r}" for s
  proof -
    from s(1) assms obtain r where "r \<in> set (d_proposals d)" "sr_proposal_id s = r_id r"
      by (auto simp: db_ok_def)
    with s(2) show ?thesis by auto
  qed
  with assms show ?thesis
    by (simp add: db_ok_def delete_rows_def Let_def distinct_map_filter)
qed

lemma wp_sweep_dropped:
  assumes gd: "good c st" and c: "codec_ok c"
  shows "wp (sweep_dropped clk t) (\<lambda>r st'. good c st' \<and> st_audit st' = st_audit st \<and> (case r of
      Inl e \<Rightarrow> same_state st st' \<and> (\<exists>x. e = Database x)
    | Inr n \<Rightarrow> book c st' = swept_book c clk t st \<and> d_penalties (st_db st') = d_penalties (st_db st) \<and>
        d_next_proposal (st_db st') = d_next_proposal (st_db st) \<and>
        set (d_solutions (st_db st')) \<subseteq> set (d_solutions (st_db st)))) st"
  unfolding sweep_dropped_def
proof (rule wp_stmt, goal_cases)
  case 1
  then show ?case using gd by (simp add: good_def)
next
  case (2 e st')
  then show ?case using good_same [OF gd] by (simp add: same_state_def)
next
  case (3 n d st')
  have ok: "db_ok c (st_db st)" using gd by (simp add: good_def)
  from 3(1) have d: "d = snd (delete_rows (swept_row clk t) (st_db st))" by (metis Inr_inject snd_conv)
  have "proposal_at c d pid = swept_book c clk t st pid" for pid
  proof (cases "i64_of_u64 (pid_raw pid)")
    case None
    then show ?thesis by (simp add: proposal_at_def swept_book_def book_def)
  next
    case (Some i)
    have dist: "distinct (map r_id (d_proposals (st_db st)))" using ok by (simp add: db_ok_def)
    show ?thesis
    proof (cases "find_row i (st_db st)")
      case None
      then show ?thesis using Some
        by (simp add: proposal_at_def swept_book_def book_def d find_row_delete [OF dist])
    next
      case r: (Some r)
      from find_row_mem [OF r] ok have "row_ok c r" by (simp add: db_ok_def)
      then obtain q where "readable c r = Some q" by (rule row_ok_E) (simp add: readable_def)
      with r Some overdue_row(2) [OF gd r this c, of clk t] show ?thesis
        by (simp add: proposal_at_def swept_book_def book_def d find_row_delete [OF dist])
    qed
  qed
  moreover have "d_penalties d = d_penalties (st_db st)" "d_next_proposal d = d_next_proposal (st_db st)"
    "set (d_solutions d) \<subseteq> set (d_solutions (st_db st))"
    by (auto simp: d delete_rows_def Let_def)
  moreover have "db_ok c d" unfolding d by (rule delete_db_ok [OF ok])
  ultimately show ?case using 3 by (simp add: good_def book_def fun_eq_iff)
qed

subsection \<open>Charges\<close>

lemma pay_penalty_frame [simp]:
  "proposal_at c (pay_penalty i tx d) = proposal_at c d"
  "d_solutions (pay_penalty i tx d) = d_solutions d"
  "d_next_proposal (pay_penalty i tx d) = d_next_proposal d"
  by (simp_all add: pay_penalty_def)

lemma pay_penalty_ok: "db_ok c d \<Longrightarrow> db_ok c (pay_penalty i tx d)"
proof -
  assume ok: "db_ok c d"
  have "pr_id \<circ> (\<lambda>q :: penalty_row. if pr_id q = i then q\<lparr>pr_penalty_tx_hash := Some tx\<rparr> else q) = pr_id"
    by (auto simp: fun_eq_iff)
  moreover have "penalty_row_ok c (q\<lparr>pr_penalty_tx_hash := x\<rparr>) = penalty_row_ok c q" for q x
    by (simp add: penalty_row_ok_def)
  ultimately show ?thesis using ok by (auto simp: db_ok_def pay_penalty_def)
qed

lemma wp_record_non_settlement_debit:
  assumes gd: "good c st"
  shows "wp (record_non_settlement_debit c clk pp amount tx) (\<lambda>r st'. good c st' \<and> (case r of
      Inl e \<Rightarrow> same_state st st' \<and> (\<exists>x. e = Database x)
    | Inr _ \<Rightarrow> st_db st' = pay_penalty (pp_id pp) (b256_text c tx) (st_db st) \<and>
        st_audit st' = st_audit st @ [event (wall_now clk)
          (NonSettlementDebited (pp_proposal_id pp) (pp_sub_solver pp) (pp_order_uid pp) amount tx)])) st"
  unfolding record_non_settlement_debit_def wp_act_iff
proof (rule wp_stmt, goal_cases)
  case 1
  then show ?case using gd by (simp add: good_def)
next
  case (2 e st')
  then show ?case using good_same [OF gd] by simp
next
  case (3 u d st')
  have "db_ok c d" using 3(1) gd pay_penalty_ok by (auto simp: good_def)
  with 3 show ?case by (auto intro!: wp_emit simp: good_def event_def)
qed

lemma penalty_of_row_ok:
  assumes "penalty_row_ok c q"
  shows "\<exists>pp. penalty_of_row c q = Inr pp \<and> pp_id pp = pr_id q"
proof -
  from assms have "0 \<le> pr_proposal_id q" "pr_proposal_id q \<le> i64_max" by (simp_all add: penalty_row_ok_def)
  then obtain pid where "id_of_db (pr_proposal_id q) = Some pid" using id_of_db_Some by blast
  with assms show ?thesis
    by (auto simp: penalty_row_ok_def penalty_of_row_def split: sum.splits)
qed

lemma wp_pending_penalties:
  assumes gd: "good c st"
  shows "wp (pending_penalties c) (\<lambda>r st'. good c st' \<and> same_state st st' \<and> (case r of
      Inl e \<Rightarrow> (\<exists>x. e = Database x)
    | Inr pps \<Rightarrow> map (penalty_of_row c) (pending_rows (st_db st)) = map Inr pps)) st"
  unfolding pending_penalties_def wp_act_iff
proof (rule wp_stmt, goal_cases)
  case 1
  then show ?case using gd by (simp add: good_def)
next
  case (2 e st')
  then show ?case using good_same [OF gd] by simp
next
  case (3 rows d st')
  from 3 have same: "same_state st st'" and rows: "rows = pending_rows (st_db st)" by (auto simp: same_state_def)
  have "\<exists>pp. penalty_of_row c q = Inr pp" if "q \<in> set rows" for q
    using that gd penalty_of_row_ok by (fastforce simp: rows pending_rows_def good_def db_ok_def)
  then have "map (penalty_of_row c) rows = map Inr (map (\<lambda>q. projr (penalty_of_row c q)) rows)"
    by (auto simp: comp_def) (metis sum.sel(2))
  moreover from this have "collect (map (penalty_of_row c) rows) = Inr (map (\<lambda>q. projr (penalty_of_row c q)) rows)"
    by (simp only: collect_Inr_iff)
  ultimately show ?case using good_same [OF gd 3(2) same] same rows by (simp add: wp_lift_iff)
qed

subsection \<open>Solutions\<close>

text \<open>The proposal recorded for a solution of an auction.\<close>

definition solution_of :: "db \<Rightarrow> i64 \<Rightarrow> i64 \<Rightarrow> i64 option" where
  "solution_of d a s = map_option sr_proposal_id
     (find (\<lambda>x. sr_auction_id x = a \<and> sr_solution_id x = s) (d_solutions d))"

lemma upsert_solution_facts:
  assumes ok: "db_ok c d" and u: "upsert_solution a s i d = Inr (x, d')"
  shows "db_ok c d'" and "proposal_at c d' = proposal_at c d" and "d_penalties d' = d_penalties d"
    and "d_next_proposal d' = d_next_proposal d"
    and "solution_of d' a' s' = (if a' = a \<and> s' = s then Some i else solution_of d a' s')"
proof -
  let ?key = "\<lambda>x :: solution_row. sr_auction_id x = a \<and> sr_solution_id x = s"
  let ?upd = "\<lambda>x :: solution_row. if ?key x then x\<lparr>sr_proposal_id := i\<rparr> else x"
  from u have fk: "i \<in> r_id ` set (d_proposals d)"
    by (auto simp: upsert_solution_def find_row_None_iff Let_def split: if_splits)
  show "db_ok c d'" and "proposal_at c d' = proposal_at c d" and "d_penalties d' = d_penalties d"
    and "d_next_proposal d' = d_next_proposal d"
    and "solution_of d' a' s' = (if a' = a \<and> s' = s then Some i else solution_of d a' s')"
  proof (atomize (full), cases "\<exists>x\<in>set (d_solutions d). ?key x")
    case True
    with u have d': "d' = d\<lparr>d_solutions := map ?upd (d_solutions d)\<rparr>"
      by (auto simp: upsert_solution_def Let_def split: if_splits)
    have o: "(\<lambda>x. (sr_auction_id x, sr_solution_id x)) \<circ> ?upd = (\<lambda>x. (sr_auction_id x, sr_solution_id x))"
      by (auto simp: fun_eq_iff)
    have "find (\<lambda>x. sr_auction_id x = a' \<and> sr_solution_id x = s') (map ?upd xs)
        = map_option ?upd (find (\<lambda>x. sr_auction_id x = a' \<and> sr_solution_id x = s') xs)" for xs :: "solution_row list"
      by (induction xs) auto
    then have sol: "solution_of d' a' s' = map_option sr_proposal_id
        (map_option ?upd (find (\<lambda>x. sr_auction_id x = a' \<and> sr_solution_id x = s') (d_solutions d)))"
      by (simp add: solution_of_def d')
    have "solution_of d' a' s' = (if a' = a \<and> s' = s then Some i else solution_of d a' s')"
    proof (cases "a' = a \<and> s' = s")
      case same: True
      obtain y where "find ?key (d_solutions d) = Some y"
        using True by (cases "find ?key (d_solutions d)") (auto simp: find_None_iff)
      moreover from this have "?key y" by (auto simp: find_Some_iff)
      ultimately show ?thesis using same sol by simp
    next
      case other: False
      show ?thesis
      proof (cases "find (\<lambda>x. sr_auction_id x = a' \<and> sr_solution_id x = s') (d_solutions d)")
        case None
        then show ?thesis using other sol by (simp add: solution_of_def)
      next
        case (Some y)
        then have "sr_auction_id y = a' \<and> sr_solution_id y = s'" by (auto simp: find_Some_iff)
        then show ?thesis using other sol Some by (auto simp: solution_of_def)
      qed
    qed
    with ok fk o show "(db_ok c d' \<and> proposal_at c d' = proposal_at c d) \<and> d_penalties d' = d_penalties d \<and>
       d_next_proposal d' = d_next_proposal d \<and>
       solution_of d' a' s' = (if a' = a \<and> s' = s then Some i else solution_of d a' s')"
      by (auto simp: db_ok_def d')
  next
    case False
    with u have d': "d' = d\<lparr>d_solutions := d_solutions d @
        [\<lparr>sr_auction_id = a, sr_solution_id = s, sr_proposal_id = i\<rparr>]\<rparr>"
      by (auto simp: upsert_solution_def Let_def split: if_splits)
    have "find Q (xs @ [y]) = (case find Q xs of Some z \<Rightarrow> Some z | None \<Rightarrow> if Q y then Some y else None)"
      for Q xs and y :: solution_row by (induction xs) auto
    moreover have "find ?key (d_solutions d) = None" using False by (auto simp: find_None_iff)
    ultimately have "solution_of d' a' s' = (if a' = a \<and> s' = s then Some i else solution_of d a' s')"
      by (auto simp: solution_of_def d' split: option.splits)
    with ok fk False show "(db_ok c d' \<and> proposal_at c d' = proposal_at c d) \<and> d_penalties d' = d_penalties d \<and>
       d_next_proposal d' = d_next_proposal d \<and>
       solution_of d' a' s' = (if a' = a \<and> s' = s then Some i else solution_of d a' s')"
      by (auto simp: db_ok_def d')
  qed
qed

lemma wp_record_solution:
  assumes gd: "good c st"
  shows "wp (record_solution a s pid) (\<lambda>r st'. good c st' \<and> st_audit st' = st_audit st \<and> (case r of
      Inl e \<Rightarrow> same_state st st'
    | Inr _ \<Rightarrow> book c st pid \<noteq> None \<and>
        solution_of (st_db st') = (\<lambda>a' s'. if a' = a \<and> s' = s then Some (uint (pid_raw pid))
          else solution_of (st_db st) a' s') \<and>
        book c st' = book c st \<and> d_penalties (st_db st') = d_penalties (st_db st) \<and>
        d_next_proposal (st_db st') = d_next_proposal (st_db st))) st"
proof (cases "i64_of_u64 (pid_raw pid)")
  case None
  with gd show ?thesis by (simp add: record_solution_def wp_act_iff wp_lift_iff as_db_id_def)
next
  case (Some i)
  have ok: "db_ok c (st_db st)" using gd by (simp add: good_def)
  have "wp (stmt (upsert_solution a s i)) (\<lambda>r st'. good c st' \<and> st_audit st' = st_audit st \<and> (case r of
      Inl e \<Rightarrow> same_state st st'
    | Inr _ \<Rightarrow> book c st pid \<noteq> None \<and>
        solution_of (st_db st') = (\<lambda>a' s'. if a' = a \<and> s' = s then Some (uint (pid_raw pid))
          else solution_of (st_db st) a' s') \<and>
        book c st' = book c st \<and> d_penalties (st_db st') = d_penalties (st_db st) \<and>
        d_next_proposal (st_db st') = d_next_proposal (st_db st))) st"
  proof (rule wp_stmt, goal_cases)
    case 1
    then show ?case using gd by (simp add: good_def)
  next
    case (2 e st')
    then show ?case using good_same [OF gd] by (simp add: same_state_def)
  next
    case (3 x d st')
    have "find_row i (st_db st) \<noteq> None" using 3(1) by (auto simp: upsert_solution_def split: if_splits)
    then have "book c st pid \<noteq> None" using Some ok by (simp add: book_def proposal_at_None_iff)
    with 3 upsert_solution_facts [OF ok 3(1)] i64_of_u64_uint [OF Some] show ?case by (simp add: good_def book_def fun_eq_iff)
  qed
  then show ?thesis
    by (simp add: record_solution_def wp_act_iff wp_lift_iff as_db_id_def Some)
qed

subsection \<open>Reads\<close>

text \<open>A read returns exactly the stored proposals that satisfy the condition, in order of identifier,
  when the row condition is the condition on proposals, and changes nothing.\<close>

lemma decode_rows_facts:
  assumes ok: "db_ok c d"
    and P: "\<And>r q. r \<in> set (d_proposals d) \<Longrightarrow> readable c r = Some q \<Longrightarrow> P r \<longleftrightarrow> Q q"
  shows "set (decode_rows c (select_rows P d)) = {q. proposal_at c d (p_id q) = Some q \<and> Q q}"
    and "sorted (map (\<lambda>q. uint (pid_raw (p_id q))) (decode_rows c (select_rows P d)))"
    and "distinct (map p_id (decode_rows c (select_rows P d)))"
proof -
  have rd: "\<exists>q. readable c r = Some q \<and> uint (pid_raw (p_id q)) = r_id r \<and> proposal_at c d (p_id q) = Some q"
    if "r \<in> set (d_proposals d)" for r
  proof -
    from that ok have "row_ok c r" by (simp add: db_ok_def)
    then obtain q where q: "proposal_of_row c r = Inr q" "i64_of_u64 (pid_raw (p_id q)) = Some (r_id r)"
      by (rule row_ok_E)
    then show ?thesis
      using proposal_at_row [OF ok that q(1)] by (auto simp: readable_Some_iff dest: i64_of_u64_uint)
  qed
  let ?rs = "select_rows P d"
  have rs: "set ?rs = {r \<in> set (d_proposals d). P r}" by (auto simp: select_rows_def)
  have dec: "decode_rows c ?rs = map (\<lambda>r. the (readable c r)) ?rs"
  proof -
    have "List.map_filter (readable c) xs = map (\<lambda>r. the (readable c r)) xs"
      if "\<And>r. r \<in> set xs \<Longrightarrow> readable c r \<noteq> None" for xs
      using that by (induction xs) (force simp: List.map_filter_simps split: option.splits)+
    then show ?thesis using rd rs by (simp add: decode_rows_def) (metis (no_types, lifting) mem_Collect_eq option.distinct(1))
  qed
  have ids: "map (\<lambda>q. uint (pid_raw (p_id q))) (decode_rows c ?rs) = map r_id ?rs"
    using rd rs by (auto simp: dec) fastforce
  show "sorted (map (\<lambda>q. uint (pid_raw (p_id q))) (decode_rows c ?rs))"
    unfolding ids by (simp add: select_rows_def)
  have "distinct (map r_id ?rs)"
    using ok distinct_map_filter [of r_id "d_proposals d" P]
    by (auto simp: select_rows_def db_ok_def distinct_map)
  then have "distinct (map (\<lambda>q. uint (pid_raw (p_id q))) (decode_rows c ?rs))" unfolding ids .
  then show "distinct (map p_id (decode_rows c ?rs))" by (auto simp: distinct_map inj_on_def)
  show "set (decode_rows c ?rs) = {q. proposal_at c d (p_id q) = Some q \<and> Q q}"
  proof (intro equalityI subsetI)
    fix q assume "q \<in> set (decode_rows c ?rs)"
    then show "q \<in> {q. proposal_at c d (p_id q) = Some q \<and> Q q}" using rd rs P by (auto simp: dec) fastforce+
  next
    fix q assume q: "q \<in> {q. proposal_at c d (p_id q) = Some q \<and> Q q}"
    then obtain i r where r: "find_row i d = Some r" "readable c r = Some q"
      by (auto simp: proposal_at_def bind_eq_Some_conv)
    with find_row_mem have m: "r \<in> set (d_proposals d)" by blast
    with P [OF m r(2)] q rs have "r \<in> set ?rs" by simp
    with r(2) show "q \<in> set (decode_rows c ?rs)" unfolding dec by force
  qed
qed

end
