(* ===== verification/Store_Reads.thy ===== *)
theory Store_Reads
  imports Store_Tables
begin

text \<open>
  The reads of the store over the map \<open>book\<close>: each returns exactly the stored proposals its
  condition names, in order of identifier, and changes nothing; it fails only when the database does.
  The batched read \<open>active_by_order_uids\<close> agrees with the single read \<open>list_by_order_uid\<close> per order,
  the equivalence its doc comment relies on.
\<close>

lemma row_columns:
  assumes "db_ok c d" and "r \<in> set (d_proposals d)" and "readable c r = Some q"
  shows "r_status r = status_text (p_status q)" and "r_sub_solver r = addr_text c (p_sub_solver q)"
    and "r_order_uid r = uid_text c (p_order_uid q)" and "uid_ok (p_order_uid q)"
    and "i64_of_u64 (pid_raw (p_id q)) = Some (r_id r)"
proof -
  from assms(1,2) have "row_ok c r" by (simp add: db_ok_def)
  then obtain p gas where r: "r = insert_row c (r_id r) (r_status_changed_at r) p gas"
    "proposal_of_row c r = Inr p" "uid_ok (p_order_uid p)" "i64_of_u64 (pid_raw (p_id p)) = Some (r_id r)"
    by (rule row_ok_E)
  with assms(3) have "p = q" by (simp add: readable_Some_iff)
  with r show "r_status r = status_text (p_status q)" "r_sub_solver r = addr_text c (p_sub_solver q)"
    "r_order_uid r = uid_text c (p_order_uid q)" "uid_ok (p_order_uid q)"
    "i64_of_u64 (pid_raw (p_id q)) = Some (r_id r)" by (metis insert_row_simps)+
qed

definition stored_where :: "codec \<Rightarrow> store \<Rightarrow> (proposal \<Rightarrow> bool) \<Rightarrow> proposal list \<Rightarrow> bool" where
  "stored_where c st Q ps \<longleftrightarrow>
     set ps = {q. book c st (p_id q) = Some q \<and> Q q} \<and> distinct (map p_id ps) \<and>
     sorted (map (\<lambda>q. uint (pid_raw (p_id q))) ps)"

definition read_result :: "codec \<Rightarrow> store \<Rightarrow> ('a \<Rightarrow> bool) \<Rightarrow> store_error + 'a \<Rightarrow> store \<Rightarrow> bool" where
  "read_result c st K r st' \<longleftrightarrow> good c st' \<and> same_state st st' \<and>
     (case r of Inl e \<Rightarrow> (\<exists>x. e = Database x) | Inr a \<Rightarrow> K a)"

lemma wp_read:
  assumes gd: "good c st"
    and k: "\<And>a st'. f (st_db st) = Inr (a, st_db st) \<Longrightarrow> good c st' \<Longrightarrow> same_state st st' \<Longrightarrow> wp (k a) Q st'"
    and e: "\<And>x st'. good c st' \<Longrightarrow> same_state st st' \<Longrightarrow> Q (Inl (Database x)) st'"
    and f: "\<exists>a. f (st_db st) = Inr (a, st_db st)"
  shows "wp (act (stmt f) k) Q st"
  unfolding wp_act_iff
proof (rule wp_stmt, goal_cases)
  case 1
  then show ?case using gd by (simp add: good_def)
next
  case (2 x st')
  then show ?case using good_same [OF gd] e by simp
next
  case (3 a d st')
  with f have fa: "f (st_db st) = Inr (a, st_db st)" "st_db st' = st_db st" by auto
  with 3 have "same_state st st'" by (simp add: same_state_def)
  with 3 fa k good_same [OF gd] show ?case by simp
qed

lemma wp_query:
  assumes gd: "good c st"
    and P: "\<And>r q. r \<in> set (d_proposals (st_db st)) \<Longrightarrow> readable c r = Some q \<Longrightarrow> P r \<longleftrightarrow> Q q"
  shows "wp (query c P) (read_result c st (stored_where c st Q)) st"
  unfolding query_def
proof (rule wp_read [OF gd], goal_cases)
  case (1 rows st')
  have ok: "db_ok c (st_db st)" using gd by (simp add: good_def)
  from 1 decode_rows_facts [OF ok P]
  show ?case by (auto simp: wp_done_iff read_result_def stored_where_def book_def)
qed (auto simp: read_result_def)

lemma wp_list_by_order_uid:
  assumes gd: "good c st" and c: "codec_ok c"
  shows "wp (list_by_order_uid c uid)
    (read_result c st (stored_where c st (\<lambda>q. p_order_uid q = uid \<and> p_status q = Active))) st"
  unfolding list_by_order_uid_def
  by (rule wp_query [OF gd])
    (use gd c in \<open>auto simp: row_columns [of c "st_db st"] good_def uid_text_eq_iff\<close>)

lemma wp_list_by_order_uid_for_owner:
  assumes gd: "good c st" and c: "codec_ok c"
  shows "wp (list_by_order_uid_for_owner c uid owner)
    (read_result c st (stored_where c st
       (\<lambda>q. p_order_uid q = uid \<and> p_sub_solver q = owner \<and> p_status q = Active))) st"
  unfolding list_by_order_uid_for_owner_def
  by (rule wp_query [OF gd])
    (use gd c in \<open>auto simp: row_columns [of c "st_db st"] good_def uid_text_eq_iff codec_eq_iff\<close>)

lemma wp_list_by_sub_solver:
  assumes gd: "good c st" and c: "codec_ok c"
  shows "wp (list_by_sub_solver c owner)
    (read_result c st (stored_where c st
       (\<lambda>q. p_sub_solver q = owner \<and> p_status q \<in> {Submitted, Active}))) st"
  unfolding list_by_sub_solver_def
  by (rule wp_query [OF gd])
    (use gd c in \<open>auto simp: row_columns [of c "st_db st"] good_def codec_eq_iff status_names_def\<close>)

lemma wp_snapshot_by_statuses:
  assumes gd: "good c st"
  shows "wp (snapshot_by_statuses c sts)
    (read_result c st (stored_where c st (\<lambda>q. p_status q \<in> set sts))) st"
  unfolding snapshot_by_statuses_def
  by (rule wp_query [OF gd])
    (use gd in \<open>auto simp: row_columns [of c "st_db st"] good_def status_names_def\<close>)

lemma group_by_uid_eq:
  "group_by_uid ps m uid =
     (let qs = filter (\<lambda>p. p_order_uid p = uid) ps in
      if qs = [] then m uid else Some ((case m uid of None \<Rightarrow> [] | Some xs \<Rightarrow> xs) @ qs))"
  by (induction ps arbitrary: m) (auto simp: Let_def split: option.splits)

lemma wp_active_by_order_uids:
  assumes gd: "good c st" and c: "codec_ok c"
  shows "wp (active_by_order_uids c uids)
    (read_result c st (\<lambda>m. \<forall>uid.
       case m uid of
         None \<Rightarrow> uid \<in> set uids \<longrightarrow> stored_where c st (\<lambda>q. p_order_uid q = uid \<and> p_status q = Active) []
       | Some ps \<Rightarrow> uid \<in> set uids \<and> ps \<noteq> [] \<and>
           stored_where c st (\<lambda>q. p_order_uid q = uid \<and> p_status q = Active) ps)) st"
proof (cases "uids = []")
  case True
  with gd show ?thesis by (simp add: active_by_order_uids_def wp_done_iff read_result_def)
next
  case False
  have q: "wp (query c (\<lambda>r. r_order_uid r \<in> set (map (uid_text c) uids) \<and> r_status r = status_text Active))
      (read_result c st (stored_where c st (\<lambda>q. p_order_uid q \<in> set uids \<and> p_status q = Active))) st"
    by (rule wp_query [OF gd])
      (use gd c in \<open>auto simp: row_columns [of c "st_db st"] good_def uid_text_eq_iff\<close>)
  have part: "stored_where c st (\<lambda>q. p_order_uid q = uid \<and> p_status q = Active) (filter (\<lambda>p. p_order_uid p = uid) ps)"
    if "stored_where c st (\<lambda>q. p_order_uid q \<in> set uids \<and> p_status q = Active) ps" "uid \<in> set uids" for ps uid
    using that by (auto simp: stored_where_def distinct_map_filter sorted_filter)
  have none: "filter (\<lambda>p. p_order_uid p = uid) ps = []"
    if "stored_where c st (\<lambda>q. p_order_uid q \<in> set uids \<and> p_status q = Active) ps" "uid \<notin> set uids" for ps uid
    using that by (auto simp: stored_where_def filter_empty_conv)
  have m: "case group_by_uid ps (\<lambda>_. None) uid of
         None \<Rightarrow> uid \<in> set uids \<longrightarrow> stored_where c st (\<lambda>q. p_order_uid q = uid \<and> p_status q = Active) []
       | Some ps \<Rightarrow> uid \<in> set uids \<and> ps \<noteq> [] \<and>
           stored_where c st (\<lambda>q. p_order_uid q = uid \<and> p_status q = Active) ps"
    if "stored_where c st (\<lambda>q. p_order_uid q \<in> set uids \<and> p_status q = Active) ps" for ps uid
    using part [OF that, of uid] none [OF that, of uid]
    by (cases "filter (\<lambda>p. p_order_uid p = uid) ps = []") (auto simp: group_by_uid_eq Let_def)
  show ?thesis
    unfolding active_by_order_uids_def if_not_P [OF False] wp_act_iff
  proof (rule wp_mono [OF q], goal_cases)
    case (1 r st')
    show ?case
    proof (cases r)
      case (Inl e)
      with 1 show ?thesis by (simp add: read_result_def)
    next
      case (Inr ps)
      with 1 have "stored_where c st (\<lambda>q. p_order_uid q \<in> set uids \<and> p_status q = Active) ps"
        by (simp add: read_result_def)
      from m [OF this] Inr 1 show ?thesis by (simp add: wp_done_iff read_result_def)
    qed
  qed
qed

lemma wp_get_proposal:
  assumes gd: "good c st"
  shows "wp (get_proposal c pid) (read_result c st (\<lambda>p. p = book c st pid)) st"
proof (cases "i64_of_u64 (pid_raw pid)")
  case None
  with gd show ?thesis
    by (simp add: get_proposal_def as_db_id_def wp_done_iff read_result_def book_no_id)
next
  case (Some i)
  have "wp (act (select_row i) (\<lambda>row. case row of
            None \<Rightarrow> done_with None
          | Some r \<Rightarrow> lift (case proposal_of_row c r of Inl e \<Rightarrow> Inl e | Inr p \<Rightarrow> Inr (Some p))))
      (read_result c st (\<lambda>p. p = book c st pid)) st"
    unfolding select_row_def
  proof (rule wp_read [OF gd], goal_cases)
    case (1 row st')
    show ?case
    proof (cases row)
      case None
      with 1 Some gd have "book c st pid = None" by (auto simp: good_def book_def proposal_at_None_iff)
      with None 1 show ?thesis by (simp add: wp_done_iff read_result_def)
    next
      case r: (Some r)
      with 1 have f: "find_row i (st_db st) = Some r" by simp
      from find_row_mem [OF f] gd have "row_ok c r" by (simp add: good_def db_ok_def)
      then obtain q where "proposal_of_row c r = Inr q" by (rule row_ok_E)
      with r f Some 1 show ?thesis
        by (simp add: wp_lift_iff read_result_def book_def proposal_at_def readable_def)
    qed
  qed (auto simp: read_result_def)
  then show ?thesis by (simp add: get_proposal_def as_db_id_def Some)
qed

text \<open>The proposals a notification points at: those recorded for one of its solutions.\<close>

lemma solution_of_iff:
  "db_ok c d \<Longrightarrow> solution_of d a s = Some i \<longleftrightarrow>
     (\<exists>x\<in>set (d_solutions d). sr_auction_id x = a \<and> sr_solution_id x = s \<and> sr_proposal_id x = i)"
proof -
  assume ok: "db_ok c d"
  have "find (\<lambda>x. sr_auction_id x = a \<and> sr_solution_id x = s) xs = Some y \<longleftrightarrow>
      y \<in> set xs \<and> sr_auction_id y = a \<and> sr_solution_id y = s"
    if "distinct (map (\<lambda>s. (sr_auction_id s, sr_solution_id s)) xs)" for xs and y :: solution_row
    using that by (induction xs) (auto simp: image_iff)
  then show ?thesis using ok by (auto simp: solution_of_def db_ok_def)
qed

lemma wp_solution_proposals:
  assumes gd: "good c st"
  shows "wp (solution_proposals c a sids) (read_result c st (\<lambda>ps. set ps =
    {q. book c st (p_id q) = Some q \<and> (\<exists>s\<in>set sids. \<exists>i. i64_of_u64 s = Some i \<and>
          solution_of (st_db st) a i = Some (uint (pid_raw (p_id q))))})) st"
  unfolding solution_proposals_def Let_def
proof (rule wp_read [OF gd], goal_cases)
  case (1 rows st')
  have ok: "db_ok c (st_db st)" using gd by (simp add: good_def)
  have ids: "set (List.map_filter i64_of_u64 sids) = {i. \<exists>s\<in>set sids. i64_of_u64 s = Some i}"
    by (induction sids) (auto simp: List.map_filter_simps split: option.splits)
  have join: "r \<in> set (solution_rows a is d) \<longleftrightarrow> r \<in> set (d_proposals d) \<and>
      (\<exists>x\<in>set (d_solutions d). sr_proposal_id x = r_id r \<and> sr_auction_id x = a \<and> sr_solution_id x \<in> set is)"
    for r "is" d
    unfolding solution_rows_def by (simp add: image_iff) blast
  have rows: "set rows = {r \<in> set (d_proposals (st_db st)). \<exists>s\<in>set sids. \<exists>i. i64_of_u64 s = Some i \<and>
      solution_of (st_db st) a i = Some (r_id r)}"
    using 1(1) by (fastforce simp: join solution_of_iff [OF ok] ids)
  have "set (decode_rows c rows) = {q. \<exists>r\<in>set rows. readable c r = Some q}"
    by (induction rows) (auto simp: decode_rows_def List.map_filter_simps split: option.splits)
  also have "\<dots> = {q. book c st (p_id q) = Some q \<and> (\<exists>s\<in>set sids. \<exists>i. i64_of_u64 s = Some i \<and>
          solution_of (st_db st) a i = Some (uint (pid_raw (p_id q))))}" (is "?A = ?B")
  proof (intro equalityI subsetI)
    fix q assume "q \<in> ?A"
    then obtain r where r: "r \<in> set rows" "readable c r = Some q" by blast
    with rows have m: "r \<in> set (d_proposals (st_db st))" by simp
    have "r_id r = uint (pid_raw (p_id q))" using row_columns(5) [OF ok m r(2)] by (rule i64_of_u64_uint)
    moreover have "book c st (p_id q) = Some q"
      using proposal_at_row [OF ok m] r(2) by (simp add: book_def readable_Some_iff)
    ultimately show "q \<in> ?B" using r rows by auto
  next
    fix q assume q: "q \<in> ?B"
    then obtain i r where i: "i64_of_u64 (pid_raw (p_id q)) = Some i" and r: "find_row i (st_db st) = Some r" "readable c r = Some q"
      by (auto simp: book_def proposal_at_def bind_eq_Some_conv)
    have "r \<in> set (d_proposals (st_db st))" "r_id r = uint (pid_raw (p_id q))"
      using find_row_mem [OF r(1)] i64_of_u64_uint [OF i] by auto
    with q have "r \<in> set rows" unfolding rows by auto
    with r(2) show "q \<in> ?A" by blast
  qed
  finally show ?case using 1 by (simp add: wp_done_iff read_result_def)
qed (auto simp: read_result_def)

end
