(* ===== verification/Lifecycle.thy ===== *)
theory Lifecycle
  imports Store_Reads
begin

text \<open>
  The lifecycle of a proposal as an abstract state machine. \<open>lifecycle\<close> is the specification: proposals
  under their identifiers, the trail of evidence, and the edges a status may take (\<open>edge\<close>). Its
  invariant \<open>life_ok\<close> (the trail replays to the book, settled and charged proposals cite their
  transactions) is proved once on it, by rule induction; theory \<open>Service\<close> shows that every mutation of
  the service is a step of it.
\<close>

subsection \<open>Invariants of transition systems\<close>

locale invariant_system =
  fixes init :: "'s \<Rightarrow> bool" and step :: "'s \<Rightarrow> 's \<Rightarrow> bool" and inv :: "'s \<Rightarrow> bool"
  assumes init_inv: "init s \<Longrightarrow> inv s"
    and step_inv: "inv s \<Longrightarrow> step s s' \<Longrightarrow> inv s'"
begin

lemma run_inv: "step\<^sup>*\<^sup>* s s' \<Longrightarrow> inv s \<Longrightarrow> inv s'"
  by (induction rule: rtranclp_induct) (auto intro: step_inv)

lemma reachable_inv: "init s \<Longrightarrow> step\<^sup>*\<^sup>* s s' \<Longrightarrow> inv s'"
  by (blast intro: run_inv init_inv)

end

subsection \<open>The specification\<close>

text \<open>The edges of the lifecycle: what a driver outcome, a verdict, a cancellation, the expiry sweep,
  the timeout backstop and the penalty loop may do to a status.\<close>

fun edge :: "proposal_status \<Rightarrow> proposal_status \<Rightarrow> bool" where
  "edge Submitted to = (to \<in> {Active, Rejected, SimFailed, Expired, Cancelled})"
| "edge Active to = (to \<in> {Rejected, SimFailed, Expired, Cancelled, Executing, Settled, SettleFailed})"
| "edge Executing to = (to \<in> {Active, Settled, SettleFailed})"
| "edge SettleFailed to = (to = Penalized)"
| "edge _ to = False"

text \<open>What every update keeps of a proposal: identity, order, amounts, signature.\<close>

definition same_body :: "proposal \<Rightarrow> proposal \<Rightarrow> bool" where
  "same_body q q' \<longleftrightarrow> p_id q' = p_id q \<and> p_sub_solver q' = p_sub_solver q \<and>
     p_order_uid q' = p_order_uid q \<and> p_order_uid_hash q' = p_order_uid_hash q \<and>
     p_sell_amount q' = p_sell_amount q \<and> p_buy_amount q' = p_buy_amount q \<and>
     p_interactions q' = p_interactions q \<and> p_interactions_hash q' = p_interactions_hash q \<and>
     p_valid_until q' = p_valid_until q \<and> p_nonce q' = p_nonce q \<and> p_signature q' = p_signature q"

text \<open>The transactions a status must cite.\<close>

definition cites :: "proposal \<Rightarrow> bool" where
  "cites q \<longleftrightarrow> (p_status q \<in> {Settled, SettleFailed, Penalized} \<longrightarrow> p_settlement_tx_hash q \<noteq> None) \<and>
     (p_status q = Penalized \<longrightarrow> p_penalty_tx_hash q \<noteq> None)"

record life =
  l_book :: "proposal_id \<Rightarrow> proposal option"
  l_trail :: "audit_kind list"
  l_next :: int

definition keyed :: "audit_kind \<Rightarrow> proposal \<Rightarrow> bool" where
  "keyed k q \<longleftrightarrow> kind_proposal_id k = p_id q \<and> kind_sub_solver k = p_sub_solver q \<and>
     kind_order_uid k = p_order_uid q"

definition release_event :: "proposal \<Rightarrow> audit_kind" where
  "release_event q = StatusChanged (p_id q) (p_sub_solver q) (p_order_uid q) Executing Active None None"

text \<open>What everything but a verdict keeps: the simulation a proposal was accepted on, and a \<open>Submitted\<close>
  proposal is not made \<open>Active\<close>. Which changes a verdict may make is the parameter \<open>V\<close> of the machine; in
  \<open>lifecycle\<close> it may make any.\<close>

definition same_sim :: "proposal \<Rightarrow> proposal \<Rightarrow> bool" where
  "same_sim q q' \<longleftrightarrow> p_gas_used q' = p_gas_used q \<and> p_trampoline q' = p_trampoline q \<and>
     p_sell_token q' = p_sell_token q \<and> p_buy_token q' = p_buy_token q \<and>
     (p_status q = Submitted \<longrightarrow> p_status q' \<noteq> Active)"

inductive lifecycle_by :: "(proposal \<Rightarrow> proposal \<Rightarrow> bool) \<Rightarrow> life \<Rightarrow> life \<Rightarrow> bool" for V :: "proposal \<Rightarrow> proposal \<Rightarrow> bool" where
  Stutter: "lifecycle_by V a a"
| Note: "event_status k = None \<Longrightarrow> uint (pid_raw (kind_proposal_id k)) < l_next a \<Longrightarrow>
    lifecycle_by V a (a\<lparr>l_trail := l_trail a @ [k]\<rparr>)"
| Submit: "l_book a i = None \<Longrightarrow> uint (pid_raw i) = l_next a \<Longrightarrow> p_id p = i \<Longrightarrow> p_status p = Submitted \<Longrightarrow>
    lifecycle_by V a \<lparr>l_book = (l_book a)(i \<mapsto> p), l_trail = l_trail a @ [Received p], l_next = l_next a + 1\<rparr>"
| Move: "l_book a (p_id q) = Some q \<Longrightarrow> same_body q q' \<Longrightarrow> edge (p_status q) (p_status q') \<Longrightarrow>
    (cites q \<Longrightarrow> cites q') \<Longrightarrow> keyed k q \<Longrightarrow> event_status k = Some (p_status q') \<Longrightarrow>
    same_sim q q' \<or> V q q' \<Longrightarrow> lifecycle_by V a (a\<lparr>l_book := (l_book a)(p_id q \<mapsto> q'), l_trail := l_trail a @ [k]\<rparr>)"
| Refresh: "l_book a (p_id q) = Some q \<Longrightarrow> same_body q q' \<Longrightarrow> p_status q = Active \<Longrightarrow> p_status q' = Active \<Longrightarrow>
    V q q' \<Longrightarrow> lifecycle_by V a (a\<lparr>l_book := (l_book a)(p_id q \<mapsto> q')\<rparr>)"
| Release: "distinct (map p_id qs) \<Longrightarrow> \<forall>q\<in>set qs. l_book a (p_id q) = Some q \<and> p_status q = Executing \<Longrightarrow>
    lifecycle_by V a (a\<lparr>l_book := (\<lambda>i. map_option (\<lambda>q. if q \<in> set qs then with_status Active q else q) (l_book a i)),
                   l_trail := l_trail a @ map release_event qs\<rparr>)"
| Sweep: "\<forall>i. b i = l_book a i \<or> (b i = None \<and> (\<exists>q. l_book a i = Some q \<and> p_status q \<in> set dropped_statuses)) \<Longrightarrow>
    lifecycle_by V a (a\<lparr>l_book := b\<rparr>)"

abbreviation lifecycle :: "life \<Rightarrow> life \<Rightarrow> bool" where
  "lifecycle \<equiv> lifecycle_by (\<lambda>_ _. True)"

lemma lifecycle_any: "lifecycle_by V a a' \<Longrightarrow> lifecycle a a'"
  by (induction rule: lifecycle_by.induct) (auto intro: lifecycle_by.intros)

subsection \<open>Replaying the trail\<close>

text \<open>The status the trail gives a proposal: the last event about it that is a transition.\<close>

definition observe :: "proposal_id \<Rightarrow> proposal_status option \<Rightarrow> audit_kind \<Rightarrow> proposal_status option" where
  "observe i s k = (if kind_proposal_id k = i
     then (case event_status k of Some st \<Rightarrow> Some st | None \<Rightarrow> s) else s)"

definition replay :: "proposal_id \<Rightarrow> audit_kind list \<Rightarrow> proposal_status option" where
  "replay i ks = foldl (observe i) None ks"

definition life_ok :: "life \<Rightarrow> bool" where
  "life_ok a \<longleftrightarrow>
     (\<forall>i q. l_book a i = Some q \<longrightarrow> p_id q = i \<and> uint (pid_raw i) < l_next a \<and> cites q \<and>
        replay i (l_trail a) = Some (p_status q)) \<and>
     (\<forall>i. l_book a i = None \<longrightarrow> (case replay i (l_trail a) of None \<Rightarrow> True | Some st \<Rightarrow> st \<in> set dropped_statuses)) \<and>
     (\<forall>k\<in>set (l_trail a). uint (pid_raw (kind_proposal_id k)) < l_next a)"

lemma replay_append: "replay i (ks @ [k]) = observe i (replay i ks) k"
  by (simp add: replay_def)

lemma replay_unseen: "\<forall>k\<in>set ks. kind_proposal_id k \<noteq> i \<Longrightarrow> replay i ks = None"
  by (induction ks rule: rev_induct) (auto simp: replay_append observe_def replay_def)

lemma release_event_simps [simp]:
  "kind_proposal_id (release_event q) = p_id q" "event_status (release_event q) = Some Active"
  by (simp_all add: release_event_def)

lemma replay_release:
  "distinct (map p_id qs) \<Longrightarrow> replay i (ks @ map release_event qs) =
     (if i \<in> p_id ` set qs then Some Active else replay i ks)"
proof (induction qs rule: rev_induct)
  case (snoc q qs)
  then show ?case
    unfolding map_append list.map append_assoc [symmetric] replay_append
    by (auto simp: observe_def)
qed simp

lemma replay_other: "kind_proposal_id k \<noteq> i \<Longrightarrow> replay i (ks @ [k]) = replay i ks"
  by (simp add: replay_append observe_def)

lemma life_ok_D:
  assumes "life_ok a"
  shows "l_book a i = Some q \<Longrightarrow> p_id q = i" and "l_book a i = Some q \<Longrightarrow> uint (pid_raw i) < l_next a"
    and "l_book a i = Some q \<Longrightarrow> cites q" and "l_book a i = Some q \<Longrightarrow> replay i (l_trail a) = Some (p_status q)"
    and "l_book a i = None \<Longrightarrow> (case replay i (l_trail a) of None \<Rightarrow> True | Some st \<Rightarrow> st \<in> set dropped_statuses)"
    and "k \<in> set (l_trail a) \<Longrightarrow> uint (pid_raw (kind_proposal_id k)) < l_next a"
  using assms by (auto simp: life_ok_def)

lemma life_okI:
  assumes "\<And>i q. l_book a i = Some q \<Longrightarrow> p_id q = i \<and> uint (pid_raw i) < l_next a \<and> cites q \<and>
      replay i (l_trail a) = Some (p_status q)"
    and "\<And>i. l_book a i = None \<Longrightarrow> (case replay i (l_trail a) of None \<Rightarrow> True | Some st \<Rightarrow> st \<in> set dropped_statuses)"
    and "\<And>k. k \<in> set (l_trail a) \<Longrightarrow> uint (pid_raw (kind_proposal_id k)) < l_next a"
  shows "life_ok a"
  using assms unfolding life_ok_def by blast

lemma cites_active [simp]: "p_status q \<in> {Submitted, Active} \<Longrightarrow> cites q"
  by (auto simp: cites_def)

text \<open>The specification keeps its invariant.\<close>

lemma life_ok_step: "lifecycle_by V a a' \<Longrightarrow> life_ok a \<Longrightarrow> life_ok a'"
proof (induction rule: lifecycle_by.induct)
  case (Note k a)
  then show ?case
    by (auto simp: life_ok_def replay_append observe_def)
next
  case (Submit a i p)
  have unseen: "\<forall>k\<in>set (l_trail a). kind_proposal_id k \<noteq> i"
    using life_ok_D(6) [OF Submit.prems] Submit(2) by fastforce
  have "replay j (l_trail a @ [Received p]) = (if j = i then Some Submitted else replay j (l_trail a))" for j
    using Submit(3) by (simp add: replay_append observe_def)
  then show ?case
    using Submit unseen by (auto simp: life_ok_def dest: life_ok_D(2) [OF Submit.prems])
next
  case (Move a q q' k)
  have "replay j (l_trail a @ [k]) = (if j = p_id q then Some (p_status q') else replay j (l_trail a))" for j
    using Move(5,6) by (auto simp: replay_append observe_def keyed_def)
  note replay = this
  have q': "p_id q' = p_id q" "cites q'"
    using Move(1,2,4) life_ok_D(3) [OF Move.prems] by (simp_all add: same_body_def)
  have lt: "uint (pid_raw (p_id q)) < l_next a" using life_ok_D(2) [OF Move.prems Move(1)] .
  have kid: "kind_proposal_id k = p_id q" using Move(5) by (simp add: keyed_def)
  show ?case
  proof (rule life_okI, goal_cases)
    case (1 i q1)
    then show ?case
      using q' lt replay life_ok_D(1-4) [OF Move.prems, of i q1] by (cases "i = p_id q") auto
  next
    case (2 i)
    then show ?case using replay life_ok_D(5) [OF Move.prems, of i] by (cases "i = p_id q") auto
  next
    case (3 k')
    then show ?case using kid lt life_ok_D(6) [OF Move.prems, of k'] by auto
  qed
next
  case (Refresh a q q')
  have q': "p_id q' = p_id q" "cites q'" using Refresh(2,4) by (simp_all add: same_body_def)
  show ?case
  proof (rule life_okI, goal_cases)
    case (1 i q1)
    show ?case
    proof (cases "i = p_id q")
      case True
      with 1 have "q1 = q'" by simp
      then show ?thesis
        using True q' Refresh(3,4) life_ok_D(2,4) [OF Refresh.prems Refresh(1)] by simp
    next
      case False
      with 1 show ?thesis using life_ok_D(1-4) [OF Refresh.prems, of i q1] by simp
    qed
  next
    case (2 i)
    then show ?case using life_ok_D(5) [OF Refresh.prems, of i] by (cases "i = p_id q") auto
  next
    case (3 k)
    then show ?case using life_ok_D(6) [OF Refresh.prems, of k] by simp
  qed
next
  case (Release qs a)
  have mem: "q \<in> set qs \<longleftrightarrow> i \<in> p_id ` set qs" if "l_book a i = Some q" for i q
  proof
    assume "q \<in> set qs"
    then show "i \<in> p_id ` set qs" using life_ok_D(1) [OF Release.prems that] by (metis imageI)
  next
    assume "i \<in> p_id ` set qs"
    then obtain q2 where q2: "q2 \<in> set qs" "i = p_id q2" by blast
    with Release(2) that have "q = q2" by (metis option.inject)
    with q2 show "q \<in> set qs" by simp
  qed
  have act: "p_id (with_status Active q) = p_id q" "cites (with_status Active q)"
    "p_status (with_status Active q) = Active" for q
    by (simp_all add: with_status_def cites_def)
  show ?case
  proof (rule life_okI, goal_cases)
    case (1 i q1)
    then obtain q where q: "l_book a i = Some q" "q1 = (if q \<in> set qs then with_status Active q else q)" by auto
    then show ?case
      using life_ok_D(1-4) [OF Release.prems q(1)] mem [OF q(1)] act [of q]
      by (simp add: replay_release [OF Release(1)])
  next
    case (2 i)
    then have "l_book a i = None" by simp
    moreover have "i \<notin> p_id ` set qs"
    proof
      assume "i \<in> p_id ` set qs"
      then obtain q where "q \<in> set qs" "i = p_id q" by blast
      with Release(2) \<open>l_book a i = None\<close> show False by (metis option.distinct(1))
    qed
    ultimately show ?case
      using life_ok_D(5) [OF Release.prems, of i] by (simp add: replay_release [OF Release(1)])
  next
    case (3 k)
    then consider "k \<in> set (l_trail a)" | q where "q \<in> set qs" "k = release_event q" by auto
    then show ?case
    proof cases
      case 1
      then show ?thesis using life_ok_D(6) [OF Release.prems] by simp
    next
      case 2
      then have "l_book a (p_id q) = Some q" using Release(2) by blast
      from life_ok_D(2) [OF Release.prems this] 2(2) show ?thesis by simp
    qed
  qed
next
  case (Sweep b a)
  have sub: "l_book a i = Some q" if "b i = Some q" for i q
    using Sweep(1) that by (metis option.distinct(1))
  have "case replay i (l_trail a) of None \<Rightarrow> True | Some st \<Rightarrow> st \<in> set dropped_statuses" if "b i = None" for i
  proof (cases "l_book a i")
    case None
    then show ?thesis by (rule life_ok_D(5) [OF Sweep.prems])
  next
    case (Some q)
    with Sweep(1) that have "p_status q \<in> set dropped_statuses" by (metis option.distinct(1) option.inject)
    with life_ok_D(4) [OF Sweep.prems Some] show ?thesis by simp
  qed
  note gone = this
  show ?case
  proof (rule life_okI, goal_cases)
    case (1 i q)
    then have "l_book a i = Some q" using sub by simp
    then show ?case using life_ok_D(1-4) [OF Sweep.prems, of i q] by simp
  next
    case (2 i)
    then show ?case using gone [of i] by simp
  next
    case (3 k)
    then show ?case using life_ok_D(6) [OF Sweep.prems, of k] by simp
  qed
qed simp_all

text \<open>A snapshot read earlier agrees with the stored proposal on everything but its lifecycle.\<close>

definition snapshot_of :: "life \<Rightarrow> proposal \<Rightarrow> bool" where
  "snapshot_of a p \<longleftrightarrow> uint (pid_raw (p_id p)) < l_next a \<and>
     (\<forall>q. l_book a (p_id p) = Some q \<longrightarrow> same_body p q)"

lemma same_body_trans: "same_body p q \<Longrightarrow> same_body q r \<Longrightarrow> same_body p r"
  by (simp add: same_body_def)

lemma same_body_refl [simp]: "same_body q q"
  by (simp add: same_body_def)

lemma same_body_with [simp]:
  "same_body q (with_status to q)" "same_body q (with_penalty tx q)"
  "same_body q (with_outcome to tx' q)" "same_body q (with_verdict to reason sim q)"
  by (simp_all add: same_body_def with_status_def with_penalty_def with_outcome_def with_verdict_def)

lemma snapshot_step:
  assumes "lifecycle_by V a a'" and "life_ok a" and s: "snapshot_of a p"
  shows "snapshot_of a' p"
  using assms(1,2) s
proof (induction rule: lifecycle_by.induct)
  case (Submit a i p')
  then have "p_id p \<noteq> i" by (auto simp: snapshot_of_def)
  with Submit show ?case by (simp add: snapshot_of_def)
next
  case (Move a q q' k)
  then show ?case by (auto simp: snapshot_of_def intro: same_body_trans)
next
  case (Refresh a q q')
  then show ?case by (auto simp: snapshot_of_def intro: same_body_trans)
next
  case (Release qs a)
  then show ?case by (auto simp: snapshot_of_def intro: same_body_trans)
next
  case (Sweep b a)
  have "l_book a (p_id p) = Some q" if "b (p_id p) = Some q" for q
    using Sweep(1) that by (metis option.distinct(1))
  with Sweep show ?case by (simp add: snapshot_of_def)
qed (auto simp: snapshot_of_def)

end
