(* ===== verification/Service.thy ===== *)
theory Service
  imports Lifecycle
begin

text \<open>
  The service as a transition system over its store, and its refinement of \<open>lifecycle\<close>. A step is one
  operation of the store with the arguments its callers give it: \<open>POST /proposals\<close> inserts
  \<open>Submitted\<close> proposals, the validation loop expires, judges and releases, \<open>/notify\<close> applies outcomes,
  the penalty loop debits, the owner cancels, retention sweeps. Proposals passed back to the store
  come from earlier reads (\<open>s_held\<close>), however stale. The steps may fail in any way a truthful
  connection allows.
\<close>

record sys =
  s_store :: store
  s_held :: "proposal list"
  s_charges :: "pending_penalty list"

fun rows_read :: "store_error + 'a list \<Rightarrow> 'a list" where
  "rows_read (Inl _) = []"
| "rows_read (Inr xs) = xs"

inductive service_by :: "codec \<Rightarrow> (proposal \<Rightarrow> verdict \<Rightarrow> bool) \<Rightarrow> sys \<Rightarrow> sys \<Rightarrow> bool"
  for c :: codec and just :: "proposal \<Rightarrow> verdict \<Rightarrow> bool" where
  Insert: "insert_proposal_op c clk p (s_store s) = Some (r, st') \<Longrightarrow> uid_ok (p_order_uid p) \<Longrightarrow>
    p_status p = Submitted \<Longrightarrow> p_gas_used p = None \<Longrightarrow> service_by c just s (s\<lparr>s_store := st'\<rparr>)"
| Snapshot: "snapshot_by_statuses c sts (s_store s) = (r, st') \<Longrightarrow>
    service_by c just s (s\<lparr>s_store := st', s_held := rows_read r @ s_held s\<rparr>)"
| Attribute: "solution_proposals c auction sids (s_store s) = (r, st') \<Longrightarrow>
    service_by c just s (s\<lparr>s_store := st', s_held := rows_read r @ s_held s\<rparr>)"
| Get: "get_proposal c pid (s_store s) = (r, st') \<Longrightarrow> service_by c just s (s\<lparr>s_store := st'\<rparr>)"
| Auction: "active_by_order_uids c uids (s_store s) = (r1, st') \<Longrightarrow> service_by c just s (s\<lparr>s_store := st'\<rparr>)"
| Owned: "list_by_order_uid_for_owner c uid owner (s_store s) = (r1, st') \<Longrightarrow> service_by c just s (s\<lparr>s_store := st'\<rparr>)"
| Live: "list_by_sub_solver c owner (s_store s) = (r1, st') \<Longrightarrow> service_by c just s (s\<lparr>s_store := st'\<rparr>)"
| Expire: "p \<in> set (s_held s) \<Longrightarrow> p_status p \<in> {Submitted, Active} \<Longrightarrow>
    transition clk p Expired (s_store s) = (r2, st') \<Longrightarrow> service_by c just s (s\<lparr>s_store := st'\<rparr>)"
| Verdict: "p \<in> set (s_held s) \<Longrightarrow> just p v \<Longrightarrow> resolve_verdict c clk (p_id p) v (s_store s) = (r3, st') \<Longrightarrow>
    service_by c just s (s\<lparr>s_store := st'\<rparr>)"
| Cancel: "cancel c clk pid sub_solver (s_store s) = (r4, st') \<Longrightarrow> service_by c just s (s\<lparr>s_store := st'\<rparr>)"
| Outcome: "p \<in> set (s_held s) \<Longrightarrow> apply_settlement_outcome c clk p oc (s_store s) = (r5, st') \<Longrightarrow>
    service_by c just s (s\<lparr>s_store := st'\<rparr>)"
| Notified: "p \<in> set (s_held s) \<Longrightarrow> note_driver_notification clk p kind (s_store s) = (r2, st') \<Longrightarrow>
    service_by c just s (s\<lparr>s_store := st'\<rparr>)"
| Penalty: "p \<in> set (s_held s) \<Longrightarrow> p_status p = SettleFailed \<Longrightarrow>
    record_penalty c clk p amount tx (s_store s) = (r2, st') \<Longrightarrow> service_by c just s (s\<lparr>s_store := st'\<rparr>)"
| Pending: "pending_penalties c (s_store s) = (r6, st') \<Longrightarrow>
    service_by c just s (s\<lparr>s_store := st', s_charges := rows_read r6 @ s_charges s\<rparr>)"
| Debit: "pp \<in> set (s_charges s) \<Longrightarrow> record_non_settlement_debit c clk pp amount tx (s_store s) = (r2, st') \<Longrightarrow>
    service_by c just s (s\<lparr>s_store := st'\<rparr>)"
| Release: "release_stale_executing c clk older (s_store s) = (r7, st') \<Longrightarrow> service_by c just s (s\<lparr>s_store := st'\<rparr>)"
| Sweep: "sweep_dropped clk older (s_store s) = (r7, st') \<Longrightarrow> service_by c just s (s\<lparr>s_store := st'\<rparr>)"
| Bid: "record_solution auction sid pid (s_store s) = (r2, st') \<Longrightarrow> service_by c just s (s\<lparr>s_store := st'\<rparr>)"

inductive_cases service_byE: "service_by c just s s'"

text \<open>Which verdicts the validator gives is the parameter \<open>just\<close>; in \<open>service_step\<close> it may give any.\<close>

abbreviation service_step :: "codec \<Rightarrow> sys \<Rightarrow> sys \<Rightarrow> bool" where
  "service_step c \<equiv> service_by c (\<lambda>_ _. True)"

lemma service_any: "service_by c just s s' \<Longrightarrow> service_step c s s'"
  by (induction rule: service_by.induct) (blast intro: service_by.intros)+

text \<open>What a verdict makes of a stored proposal.\<close>

definition verdict_by :: "(proposal \<Rightarrow> verdict \<Rightarrow> bool) \<Rightarrow> proposal \<Rightarrow> proposal \<Rightarrow> bool" where
  "verdict_by just q q' \<longleftrightarrow> (\<exists>p v to reason sim. just p v \<and> same_body p q \<and>
     verdict_parts v = (to, reason, sim) \<and> q' = with_verdict to reason sim q)"

definition life_of :: "codec \<Rightarrow> store \<Rightarrow> life" where
  "life_of c st = \<lparr>l_book = book c st, l_trail = map ae_kind (st_audit st), l_next = d_next_proposal (st_db st)\<rparr>"

definition charges_bounded :: "store \<Rightarrow> bool" where
  "charges_bounded st \<longleftrightarrow> (\<forall>q\<in>set (d_penalties (st_db st)). pr_proposal_id q < d_next_proposal (st_db st))"

definition sys_ok :: "codec \<Rightarrow> sys \<Rightarrow> bool" where
  "sys_ok c s \<longleftrightarrow> good c (s_store s) \<and> life_ok (life_of c (s_store s)) \<and> charges_bounded (s_store s) \<and>
     (\<forall>p\<in>set (s_held s). uid_ok (p_order_uid p) \<and> snapshot_of (life_of c (s_store s)) p) \<and>
     (\<forall>pp\<in>set (s_charges s). uint (pid_raw (pp_proposal_id pp)) < d_next_proposal (st_db (s_store s)))"

text \<open>What an operation of the store does, read as a step of the specification.\<close>

definition effect :: "codec \<Rightarrow> (proposal \<Rightarrow> proposal \<Rightarrow> bool) \<Rightarrow> store \<Rightarrow> store \<Rightarrow> bool" where
  "effect c V st st' \<longleftrightarrow> good c st' \<and> lifecycle_by V (life_of c st) (life_of c st') \<and>
     d_next_proposal (st_db st) \<le> d_next_proposal (st_db st') \<and> (charges_bounded st \<longrightarrow> charges_bounded st')"

lemma life_of_simps [simp]:
  "l_book (life_of c st) = book c st" "l_trail (life_of c st) = map ae_kind (st_audit st)"
  "l_next (life_of c st) = d_next_proposal (st_db st)"
  by (simp_all add: life_of_def)

lemma event_kind [simp]: "ae_kind (event t k) = k"
  by (simp add: event_def)

lemma effect_same: "good c st' \<Longrightarrow> same_state st st' \<Longrightarrow> effect c V st st'"
  using lifecycle_by.Stutter by (simp add: effect_def same_state_def life_of_def book_def charges_bounded_def)

text \<open>A move along an edge with its event.\<close>

lemma effect_moved:
  assumes "good c st'" and m: "moved c st st' q q' [event t k]" and "same_body q q'"
    and "edge (p_status q) (p_status q')" and "cites q \<Longrightarrow> cites q'" and "keyed k q"
    and "event_status k = Some (p_status q')" and "same_sim q q' \<or> V q q'"
    and "charges_bounded st \<Longrightarrow> charges_bounded st'"
  shows "effect c V st st'"
proof -
  have "lifecycle_by V (life_of c st) ((life_of c st)\<lparr>l_book := (l_book (life_of c st))(p_id q \<mapsto> q'),
      l_trail := l_trail (life_of c st) @ [k]\<rparr>)"
    by (rule lifecycle_by.Move) (use assms in \<open>simp_all add: moved_def\<close>)
  moreover have "life_of c st' = (life_of c st)\<lparr>l_book := (l_book (life_of c st))(p_id q \<mapsto> q'),
      l_trail := l_trail (life_of c st) @ [k]\<rparr>"
    using m by (simp add: life_of_def moved_def)
  ultimately have "lifecycle_by V (life_of c st) (life_of c st')" by (simp only:)
  then show ?thesis using assms(1,9) m by (simp add: effect_def moved_def)
qed

lemma charges_kept:
  "d_penalties (st_db st') = d_penalties (st_db st) \<Longrightarrow> d_next_proposal (st_db st) \<le> d_next_proposal (st_db st') \<Longrightarrow>
     charges_bounded st \<Longrightarrow> charges_bounded st'"
  by (fastforce simp: charges_bounded_def)

lemma snapshot_same: "snapshot_of (life_of c st) p \<Longrightarrow> book c st (p_id p) = Some q \<Longrightarrow> same_body p q"
  by (simp add: snapshot_of_def)

lemma effect_transition:
  assumes gd: "good c st" and c: "codec_ok c" and s: "snapshot_of (life_of c st) p"
    and live: "p_status p \<in> {Submitted, Active}" and run: "transition clk p Expired st = (r, st')"
  shows "effect c V st st'"
proof -
  from wpD [OF wp_transition [OF gd c] run] have g': "good c st'" and
    r: "case r of Inl e \<Rightarrow> same_state st st' \<and> cas_error c st p e
    | Inr _ \<Rightarrow> (\<exists>q. p_status q = p_status p \<and> p_id q = p_id p \<and> moved c st st' q (with_status Expired q)
        [event (wall_now clk) (StatusChanged (p_id p) (p_sub_solver p) (p_order_uid p) (p_status p) Expired None None)]) \<and>
        d_penalties (st_db st') = d_penalties (st_db st)" by auto
  show ?thesis
  proof (cases r)
    case (Inl e)
    with r g' show ?thesis by (simp add: effect_same)
  next
    case (Inr u)
    with r obtain q where q: "p_status q = p_status p" "p_id q = p_id p"
      and m: "moved c st st' q (with_status Expired q) [event (wall_now clk)
        (StatusChanged (p_id p) (p_sub_solver p) (p_order_uid p) (p_status p) Expired None None)]"
      and pen: "d_penalties (st_db st') = d_penalties (st_db st)" by auto
    have "same_body p q" using snapshot_same [OF s] m q(2) by (simp add: moved_def)
    moreover have "d_next_proposal (st_db st') = d_next_proposal (st_db st)" using m by (simp add: moved_def)
    ultimately show ?thesis
      using q live charges_kept [OF pen]
      by (intro effect_moved [OF g' m]) (auto simp: with_status_def same_sim_def keyed_def same_body_def cites_def)
  qed
qed

lemma effect_record_penalty:
  assumes gd: "good c st" and c: "codec_ok c" and s: "snapshot_of (life_of c st) p"
    and failed: "p_status p = SettleFailed" and run: "record_penalty c clk p amount tx st = (r, st')"
  shows "effect c V st st'"
proof -
  from wpD [OF wp_record_penalty [OF gd c] run] have g': "good c st'" and
    r: "case r of Inl e \<Rightarrow> same_state st st' \<and> cas_error c st p e
    | Inr _ \<Rightarrow> (\<exists>q. p_status q = p_status p \<and> p_id q = p_id p \<and> moved c st st' q (with_penalty tx q)
        [event (wall_now clk) (AuditPenalized (p_id p) (p_sub_solver p) (p_order_uid p) amount
           (p_settlement_tx_hash p) tx)]) \<and>
        d_penalties (st_db st') = d_penalties (st_db st)" by auto
  show ?thesis
  proof (cases r)
    case (Inl e)
    with r g' show ?thesis by (simp add: effect_same)
  next
    case (Inr u)
    with r obtain q where q: "p_status q = p_status p" "p_id q = p_id p"
      and m: "moved c st st' q (with_penalty tx q) [event (wall_now clk)
        (AuditPenalized (p_id p) (p_sub_solver p) (p_order_uid p) amount (p_settlement_tx_hash p) tx)]"
      and pen: "d_penalties (st_db st') = d_penalties (st_db st)" by auto
    have "same_body p q" using snapshot_same [OF s] m q(2) by (simp add: moved_def)
    moreover have "d_next_proposal (st_db st') = d_next_proposal (st_db st)" using m by (simp add: moved_def)
    ultimately show ?thesis
      using q failed charges_kept [OF pen]
      by (intro effect_moved [OF g' m]) (auto simp: with_penalty_def same_sim_def keyed_def same_body_def cites_def)
  qed
qed

lemma effect_cancel:
  assumes gd: "good c st" and c: "codec_ok c" and run: "cancel c clk pid sub_solver st = (r, st')"
  shows "effect c V st st'"
proof -
  from wpD [OF wp_cancel [OF gd c] run] have g': "good c st'" and
    r: "case r of Inl e \<Rightarrow> same_state st st' \<and> cancel_error c st pid sub_solver e
    | Inr _ \<Rightarrow> d_penalties (st_db st') = d_penalties (st_db st) \<and>
        (\<exists>q. p_id q = pid \<and> p_sub_solver q = sub_solver \<and> p_status q \<in> {Submitted, Active} \<and>
          moved c st st' q (with_status Cancelled q)
            [event (wall_now clk) (AuditCancelled pid sub_solver (p_order_uid q))])" by auto
  show ?thesis
  proof (cases r)
    case (Inl e)
    with r g' show ?thesis by (simp add: effect_same)
  next
    case (Inr u)
    with r obtain q where q: "p_id q = pid" "p_sub_solver q = sub_solver" "p_status q \<in> {Submitted, Active}"
      and m: "moved c st st' q (with_status Cancelled q)
        [event (wall_now clk) (AuditCancelled pid sub_solver (p_order_uid q))]"
      and pen: "d_penalties (st_db st') = d_penalties (st_db st)" by auto
    have "d_next_proposal (st_db st') = d_next_proposal (st_db st)" using m by (simp add: moved_def)
    then show ?thesis
      using q charges_kept [OF pen]
      by (intro effect_moved [OF g' m]) (auto simp: with_status_def same_sim_def keyed_def same_body_def cites_def)
  qed
qed

lemma effect_quiet:
  assumes "good c st'" and "book c st' = book c st" and "d_next_proposal (st_db st') = d_next_proposal (st_db st)"
    and "st_audit st' = st_audit st" and "charges_bounded st \<Longrightarrow> charges_bounded st'"
  shows "effect c V st st'"
  using assms lifecycle_by.Stutter by (simp add: effect_def life_of_def)

lemma effect_note:
  assumes "good c st'" and "book c st' = book c st" and "d_next_proposal (st_db st') = d_next_proposal (st_db st)"
    and a: "st_audit st' = st_audit st @ [event t k]" and "event_status k = None"
    and "uint (pid_raw (kind_proposal_id k)) < d_next_proposal (st_db st)"
    and "charges_bounded st \<Longrightarrow> charges_bounded st'"
  shows "effect c V st st'"
proof -
  have "lifecycle_by V (life_of c st) ((life_of c st)\<lparr>l_trail := l_trail (life_of c st) @ [k]\<rparr>)"
    by (rule lifecycle_by.Note) (simp_all add: assms)
  moreover have "life_of c st' = (life_of c st)\<lparr>l_trail := l_trail (life_of c st) @ [k]\<rparr>"
    using assms(2-4) by (simp add: life_of_def)
  ultimately have "lifecycle_by V (life_of c st) (life_of c st')" by (simp only:)
  then show ?thesis using assms by (simp add: effect_def)
qed

lemma verdict_status:
  "verdict_parts v = (to, reason, sim) \<Longrightarrow> to \<in> {Active, Rejected, SimFailed}"
  by (cases v) auto

lemma effect_verdict:
  assumes gd: "good c st" and c: "codec_ok c" and s: "snapshot_of (life_of c st) p" and j: "just p v"
    and run: "resolve_verdict c clk (p_id p) v st = (r, st')"
  shows "effect c (verdict_by just) st st'"
proof -
  let ?V = "verdict_by just"
  obtain to reason sim where v: "verdict_parts v = (to, reason, sim)" by (metis prod_cases3)
  from wpD [OF wp_resolve_verdict [OF gd c v] run] have g': "good c st'" and
    r: "case r of Inl e \<Rightarrow> same_state st st' \<and> live_error c st (p_id p) e
    | Inr s \<Rightarrow> s = to \<and> d_penalties (st_db st') = d_penalties (st_db st) \<and>
        (\<exists>q. p_id q = p_id p \<and> p_status q \<in> {Submitted, Active} \<and>
          moved c st st' q (with_verdict to reason sim q)
            (if p_status q = to then []
             else [event (wall_now clk)
               (StatusChanged (p_id p) (p_sub_solver q) (p_order_uid q) (p_status q) to reason None)]))" by auto
  show ?thesis
  proof (cases r)
    case (Inl e)
    with r g' show ?thesis by (simp add: effect_same)
  next
    case (Inr u)
    let ?k = "\<lambda>q. StatusChanged (p_id p) (p_sub_solver q) (p_order_uid q) (p_status q) to reason None"
    from r Inr obtain q where q: "p_id q = p_id p" "p_status q \<in> {Submitted, Active}"
      and m: "moved c st st' q (with_verdict to reason sim q)
            (if p_status q = to then [] else [event (wall_now clk) (?k q)])"
      and pen: "d_penalties (st_db st') = d_penalties (st_db st)" by auto
    have nx: "d_next_proposal (st_db st') = d_next_proposal (st_db st)" using m by (simp add: moved_def)
    have st: "p_status (with_verdict to reason sim q) = to" by (simp add: with_verdict_def)
    have "same_body p q" using snapshot_same [OF s] m q(1) by (simp add: moved_def)
    with j v have V: "?V q (with_verdict to reason sim q)" unfolding verdict_by_def by blast
    show ?thesis
    proof (cases "p_status q = to")
      case True
      with q verdict_status [OF v] have act: "p_status q = Active" "to = Active" by auto
      have "lifecycle_by ?V (life_of c st) ((life_of c st)\<lparr>l_book := (l_book (life_of c st))(p_id q \<mapsto> with_verdict to reason sim q)\<rparr>)"
        by (rule lifecycle_by.Refresh) (use act m st V in \<open>simp_all add: moved_def\<close>)
      moreover have "life_of c st' = (life_of c st)\<lparr>l_book := (l_book (life_of c st))(p_id q \<mapsto> with_verdict to reason sim q)\<rparr>"
        using m True by (simp add: life_of_def moved_def)
      ultimately have "lifecycle_by ?V (life_of c st) (life_of c st')" by (simp only:)
      then show ?thesis using g' nx charges_kept [OF pen] by (simp add: effect_def)
    next
      case False
      with m have m': "moved c st st' q (with_verdict to reason sim q) [event (wall_now clk) (?k q)]" by simp
      show ?thesis
        using q False st nx V verdict_status [OF v] charges_kept [OF pen]
        by (intro effect_moved [OF g' m']) (auto simp: keyed_def cites_def)
    qed
  qed
qed

lemma outcome_edge: "outcome_target outcome from = Some to \<Longrightarrow> edge from to"
  by (cases "(outcome, from)" rule: outcome_target.cases) auto

lemma outcome_cites:
  "outcome_target outcome (p_status q) = Some to \<Longrightarrow> cites (with_outcome to (outcome_tx outcome) q)"
  by (cases "(outcome, p_status q)" rule: outcome_target.cases)
    (auto simp: cites_def with_outcome_def coalesce_def)

lemma outcome_same_sim: "outcome_target outcome (p_status q) = Some to \<Longrightarrow> same_sim q (with_outcome to tx q)"
  by (cases "(outcome, p_status q)" rule: outcome_target.cases) (auto simp: same_sim_def with_outcome_def)

lemma effect_outcome:
  assumes gd: "good c st" and c: "codec_ok c" and s: "snapshot_of (life_of c st) p"
    and u: "uid_ok (p_order_uid p)" and run: "apply_settlement_outcome c clk p oc st = (r, st')"
  shows "effect c V st st'"
proof -
  note spec = wpD [OF wp_apply_settlement_outcome [OF gd c u] run]
  then have g': "good c st'" by simp
  show ?thesis
  proof (cases r)
    case (Inl e)
    with spec g' show ?thesis by (simp add: effect_same)
  next
    case (Inr x)
    show ?thesis
    proof (cases x)
      case (Ignored "from")
      with spec g' Inr show ?thesis by (simp add: effect_same)
    next
      case (Applied "from" to)
      let ?k = "StatusChanged (p_id p) (p_sub_solver p) (p_order_uid p) from to None (outcome_tx oc)"
      from spec Inr Applied obtain q where q: "p_id q = p_id p" "p_status q = from"
        and m: "moved c st st' q (with_outcome to (outcome_tx oc) q) [event (wall_now clk) ?k]"
        and tgt: "outcome_target oc from = Some to"
        and pen: "d_penalties (st_db st') = d_penalties (st_db st) @ queued_charge c (st_db st) p oc" by auto
      have b: "book c st (p_id p) = Some q" using m q(1) by (simp add: moved_def)
      have "same_body p q" using snapshot_same [OF s b] .
      moreover have nx: "d_next_proposal (st_db st') = d_next_proposal (st_db st)" using m by (simp add: moved_def)
      moreover have "charges_bounded st \<Longrightarrow> charges_bounded st'"
        using s unfolding charges_bounded_def pen nx
        by (auto simp: queued_charge_def snapshot_of_def split: if_splits)
      ultimately show ?thesis
        using q outcome_edge [OF tgt] outcome_cites [of oc q to] outcome_same_sim [of oc q to "outcome_tx oc"] tgt
        by (intro effect_moved [OF g' m]) (auto simp: keyed_def same_body_def with_outcome_def)
    qed
  qed
qed

lemma effect_release:
  assumes gd: "good c st" and c: "codec_ok c" and run: "release_stale_executing c clk t st = (r, st')"
  shows "effect c V st st'"
proof -
  note spec = wpD [OF wp_release_stale_executing [OF gd c] run]
  then have g': "good c st'" by simp
  show ?thesis
  proof (cases r)
    case (Inl e)
    with spec g' show ?thesis by (simp add: effect_same)
  next
    case (Inr n)
    with spec obtain qs where tabs: "kept_tables (st_db st) (st_db st')" "d_penalties (st_db st') = d_penalties (st_db st)"
      and b: "book c st' = released_book c clk t st"
      and qs: "set qs = to_release c clk t st" "distinct (map p_id qs)"
      and a: "st_audit st' = st_audit st @ map (\<lambda>q. event (wall_now clk)
            (StatusChanged (p_id q) (p_sub_solver q) (p_order_uid q) Executing Active None None)) qs" by auto
    let ?b = "\<lambda>i. map_option (\<lambda>q. if q \<in> set qs then with_status Active q else q) (l_book (life_of c st) i)"
    have stored: "\<forall>q\<in>set qs. l_book (life_of c st) (p_id q) = Some q \<and> p_status q = Executing"
      using qs(1) by (auto simp: to_release_def overdue_def)
    have "released_book c clk t st i = ?b i" for i
    proof (cases "book c st i")
      case (Some q)
      have "p_id q = i" using book_id [OF gd Some] .
      with Some show ?thesis by (simp add: released_book_def qs(1) to_release_def)
    qed (simp add: released_book_def)
    then have "life_of c st' = (life_of c st)\<lparr>l_book := ?b,
        l_trail := l_trail (life_of c st) @ map release_event qs\<rparr>"
      using b a tabs by (simp add: life_of_def fun_eq_iff release_event_def comp_def)
    moreover have "lifecycle_by V (life_of c st) ((life_of c st)\<lparr>l_book := ?b,
        l_trail := l_trail (life_of c st) @ map release_event qs\<rparr>)"
      by (rule lifecycle_by.Release [OF qs(2) stored])
    ultimately have "lifecycle_by V (life_of c st) (life_of c st')" by (simp only:)
    then show ?thesis using g' tabs charges_kept [OF tabs(2)] by (simp add: effect_def)
  qed
qed

lemma effect_sweep:
  assumes gd: "good c st" and c: "codec_ok c" and run: "sweep_dropped clk t st = (r, st')"
  shows "effect c V st st'"
proof -
  note spec = wpD [OF wp_sweep_dropped [OF gd c] run]
  then have g': "good c st'" by simp
  show ?thesis
  proof (cases r)
    case (Inl e)
    with spec g' show ?thesis by (simp add: effect_same)
  next
    case (Inr n)
    with spec have b: "book c st' = swept_book c clk t st" and nx: "d_next_proposal (st_db st') = d_next_proposal (st_db st)"
      and pen: "d_penalties (st_db st') = d_penalties (st_db st)" and a: "st_audit st' = st_audit st" by auto
    have "life_of c st' = (life_of c st)\<lparr>l_book := swept_book c clk t st\<rparr>"
      using b nx a by (simp add: life_of_def)
    moreover have "lifecycle_by V (life_of c st) ((life_of c st)\<lparr>l_book := swept_book c clk t st\<rparr>)"
      by (rule lifecycle_by.Sweep) (auto simp: swept_book_def overdue_def split: option.splits)
    ultimately have "lifecycle_by V (life_of c st) (life_of c st')" by (simp only:)
    then show ?thesis using g' nx charges_kept [OF pen] by (simp add: effect_def)
  qed
qed

lemma effect_insert:
  assumes gd: "good c st" and c: "codec_ok c" and u: "uid_ok (p_order_uid p)" and new: "p_status p = Submitted"
    "p_gas_used p = None" and run: "insert_proposal_op c clk p st = Some (r, st')"
  shows "effect c V st st'"
proof -
  have gas: "gas_column (p_gas_used p) = Some None" using new by (simp add: gas_column_def)
  from insert_outcome [OF gd c u gas, of clk] run have g': "good c st'" and spec: "case r of
      Inl e \<Rightarrow> same_state st st' \<and> (\<exists>x. e = Database x)
    | Inr pid \<Rightarrow> book c st pid = None \<and> book c st' = (book c st)(pid \<mapsto> p\<lparr>p_id := pid\<rparr>) \<and>
        d_solutions (st_db st') = d_solutions (st_db st) \<and> d_penalties (st_db st') = d_penalties (st_db st) \<and>
        d_next_proposal (st_db st') = uint (pid_raw pid) + 1 \<and> uint (pid_raw pid) = d_next_proposal (st_db st) \<and>
        st_audit st' = st_audit st @ [event (wall_now clk) (Received (p\<lparr>p_id := pid\<rparr>))]" by auto
  show ?thesis
  proof (cases r)
    case (Inl e)
    with spec g' show ?thesis by (simp add: effect_same)
  next
    case (Inr pid)
    let ?p = "p\<lparr>p_id := pid\<rparr>"
    let ?a = "life_of c st"
    have "lifecycle_by V ?a \<lparr>l_book = (l_book ?a)(pid \<mapsto> ?p), l_trail = l_trail ?a @ [Received ?p], l_next = l_next ?a + 1\<rparr>"
      by (rule lifecycle_by.Submit) (use spec Inr new in simp_all)
    moreover have "life_of c st' = \<lparr>l_book = (l_book ?a)(pid \<mapsto> ?p), l_trail = l_trail ?a @ [Received ?p], l_next = l_next ?a + 1\<rparr>"
      using spec Inr by (simp add: life_of_def)
    ultimately have "lifecycle_by V ?a (life_of c st')" by (simp only:)
    with spec Inr g' show ?thesis using charges_kept [of st' st] by (simp add: effect_def)
  qed
qed

lemma effect_read: "read_result c st K r st' \<Longrightarrow> effect c V st st'"
  by (simp add: read_result_def effect_same)

lemma effect_debit:
  assumes gd: "good c st" and b: "uint (pid_raw (pp_proposal_id pp)) < d_next_proposal (st_db st)"
    and run: "record_non_settlement_debit c clk pp amount tx st = (r, st')"
  shows "effect c V st st'"
proof -
  note spec = wpD [OF wp_record_non_settlement_debit [OF gd] run]
  then have g': "good c st'" by simp
  show ?thesis
  proof (cases r)
    case (Inl e)
    with spec g' show ?thesis by (simp add: effect_same)
  next
    case (Inr u)
    with spec have d: "st_db st' = pay_penalty (pp_id pp) (b256_text c tx) (st_db st)"
      and a: "st_audit st' = st_audit st @ [event (wall_now clk)
          (NonSettlementDebited (pp_proposal_id pp) (pp_sub_solver pp) (pp_order_uid pp) amount tx)]" by auto
    have "charges_bounded st \<Longrightarrow> charges_bounded st'"
      unfolding charges_bounded_def d pay_penalty_frame by (auto simp: pay_penalty_def)
    then show ?thesis using b by (intro effect_note [OF g' _ _ a]) (simp_all add: d book_def)
  qed
qed

lemma effect_bid:
  assumes gd: "good c st" and run: "record_solution auction sid pid st = (r, st')"
  shows "effect c V st st'"
proof -
  note spec = wpD [OF wp_record_solution [OF gd] run]
  then have g': "good c st'" by simp
  show ?thesis
  proof (cases r)
    case (Inl e)
    with spec g' show ?thesis by (simp add: effect_same)
  next
    case (Inr u)
    with spec show ?thesis using charges_kept [of st' st] by (intro effect_quiet) auto
  qed
qed

lemma effect_notified:
  assumes gd: "good c st" and s: "snapshot_of (life_of c st) p"
    and run: "note_driver_notification clk p kind st = (r, st')"
  shows "effect c V st st'"
proof -
  have rel: "reliable st" using gd by (simp add: good_def)
  have "wp (note_driver_notification clk p kind) (\<lambda>r st'. good c st' \<and> st_db st' = st_db st \<and>
      st_audit st' = st_audit st @ [event (wall_now clk) (DriverNotified (p_id p) (p_sub_solver p) (p_order_uid p) kind)]) st"
    unfolding note_driver_notification_def
    by (rule wp_emit [OF rel]) (use gd in \<open>simp add: good_def event_def\<close>)
  from wpD [OF this run] s show ?thesis
    by (intro effect_note [where t = "wall_now clk"
          and k = "DriverNotified (p_id p) (p_sub_solver p) (p_order_uid p) kind"])
      (auto simp: book_def snapshot_of_def charges_bounded_def)
qed

text \<open>What a step leaves behind of the reads made so far.\<close>

lemma sys_ok_effect:
  assumes ok: "sys_ok c s" and e: "effect c V (s_store s) st'"
  shows "sys_ok c (s\<lparr>s_store := st'\<rparr>)"
proof -
  have "life_ok (life_of c st')"
    using life_ok_step e ok by (auto simp: effect_def sys_ok_def)
  moreover have "snapshot_of (life_of c st') p" if "p \<in> set (s_held s)" for p
    using snapshot_step e ok that by (auto simp: effect_def sys_ok_def)
  moreover have "d_next_proposal (st_db (s_store s)) \<le> d_next_proposal (st_db st')" using e by (simp add: effect_def)
  ultimately show ?thesis using ok e by (fastforce simp: sys_ok_def effect_def)
qed

lemma sys_ok_hold:
  assumes "sys_ok c s" and "\<And>p. p \<in> set ps \<Longrightarrow> book c (s_store s) (p_id p) = Some p"
  shows "sys_ok c (s\<lparr>s_held := ps @ s_held s\<rparr>)"
proof -
  have "uid_ok (p_order_uid p) \<and> snapshot_of (life_of c (s_store s)) p" if "p \<in> set ps" for p
  proof -
    from assms(2) [OF that] have b: "book c (s_store s) (p_id p) = Some p" .
    have "uid_ok (p_order_uid p)" using b assms(1) by (auto simp: sys_ok_def elim: book_row)
    moreover have "uint (pid_raw (p_id p)) < d_next_proposal (st_db (s_store s))"
      using life_ok_D(2) [of "life_of c (s_store s)" "p_id p" p] b assms(1) by (simp add: sys_ok_def)
    ultimately show ?thesis using b by (simp add: snapshot_of_def)
  qed
  with assms(1) show ?thesis by (auto simp: sys_ok_def)
qed

lemma read_store: "read_result c st K r st' \<Longrightarrow> good c st' \<and> same_state st st'"
  by (simp add: read_result_def)

lemma same_state_book: "same_state st st' \<Longrightarrow> book c st' pid = book c st pid"
  by (simp add: same_state_def book_def)

lemma pending_bounded:
  assumes gd: "good c st" and b: "charges_bounded st" and run: "pending_penalties c st = (r, st')"
    and pp: "pp \<in> set (rows_read r)"
  shows "uint (pid_raw (pp_proposal_id pp)) < d_next_proposal (st_db st)"
proof (cases r)
  case (Inl e)
  with pp show ?thesis by simp
next
  case (Inr pps)
  with wpD [OF wp_pending_penalties [OF gd] run] have m: "map (penalty_of_row c) (pending_rows (st_db st)) = map Inr pps"
    by simp
  from pp Inr have "Inr pp \<in> set (map (penalty_of_row c) (pending_rows (st_db st)))" unfolding m by simp
  then obtain q where q: "q \<in> set (pending_rows (st_db st))" "penalty_of_row c q = Inr pp" by force
  then have "q \<in> set (d_penalties (st_db st))" by (simp add: pending_rows_def)
  with b gd have lt: "pr_proposal_id q < d_next_proposal (st_db st)"
    and rng: "0 < pr_proposal_id q" "pr_proposal_id q \<le> i64_max"
    by (auto simp: charges_bounded_def good_def db_ok_def penalty_row_ok_def)
  from q(2) have "id_of_db (pr_proposal_id q) = Some (pp_proposal_id pp)"
    by (auto simp: penalty_of_row_def and_then_Inr_iff ok_or_Inr_iff)
  with id_of_db_Some [of "pr_proposal_id q"] rng have "pr_proposal_id q = uint (pid_raw (pp_proposal_id pp))"
    by (auto dest: i64_of_u64_uint)
  with lt show ?thesis by simp
qed

lemma sys_ok_charge:
  "sys_ok c s \<Longrightarrow> (\<And>pp. pp \<in> set pps \<Longrightarrow> uint (pid_raw (pp_proposal_id pp)) < d_next_proposal (st_db (s_store s)))
     \<Longrightarrow> sys_ok c (s\<lparr>s_charges := pps @ s_charges s\<rparr>)"
  by (auto simp: sys_ok_def)

lemma held_read:
  assumes "sys_ok c s" and r: "read_result c (s_store s) K r st'"
    and "\<And>ps p. r = Inr ps \<Longrightarrow> p \<in> set ps \<Longrightarrow> book c (s_store s) (p_id p) = Some p"
  shows "sys_ok c (s\<lparr>s_store := st', s_held := rows_read r @ s_held s\<rparr>)"
proof -
  let ?s = "s\<lparr>s_store := st'\<rparr>"
  have ok: "sys_ok c ?s" using assms(1) effect_read [OF r] by (rule sys_ok_effect)
  have "book c (s_store ?s) (p_id p) = Some p" if "p \<in> set (rows_read r)" for p
    using that assms(3) same_state_book [OF read_store [OF r, THEN conjunct2]] by (cases r) auto
  from sys_ok_hold [OF ok this] show ?thesis by simp
qed

lemma step_refines_by:
  assumes c: "codec_ok c" and ok: "sys_ok c s" and step: "service_by c just s s'"
  shows "sys_ok c s' \<and> lifecycle_by (verdict_by just) (life_of c (s_store s)) (life_of c (s_store s'))"
proof -
  let ?st = "s_store s" and ?V = "verdict_by just"
  have gd: "good c ?st" using ok by (simp add: sys_ok_def)
  have snap: "snapshot_of (life_of c ?st) p" "uid_ok (p_order_uid p)" if "p \<in> set (s_held s)" for p
    using ok that by (auto simp: sys_ok_def)
  have eff: "sys_ok c (s\<lparr>s_store := st'\<rparr>) \<and> lifecycle_by ?V (life_of c ?st) (life_of c st')" if "effect c ?V ?st st'" for st'
    using sys_ok_effect [OF ok that] that by (simp add: effect_def)
  from step show ?thesis
  proof cases
    case (Insert clk p r st')
    then show ?thesis using eff [OF effect_insert [OF gd c]] by simp
  next
    case (Snapshot sts r st')
    have rr: "read_result c ?st (stored_where c ?st (\<lambda>q. p_status q \<in> set sts)) r st'"
      using wpD [OF wp_snapshot_by_statuses [OF gd] Snapshot(2)] .
    from held_read [OF ok rr] rr eff [OF effect_read [OF rr]] Snapshot(1) show ?thesis
      by (fastforce simp: read_result_def stored_where_def)
  next
    case (Attribute auction sids r st')
    note rr = wpD [OF wp_solution_proposals [OF gd] Attribute(2)]
    from held_read [OF ok rr] rr eff [OF effect_read [OF rr]] Attribute(1) show ?thesis
      by (fastforce simp: read_result_def)
  next
    case (Get pid r st')
    then show ?thesis using eff [OF effect_read [OF wpD [OF wp_get_proposal [OF gd] Get(2)]]] by simp
  next
    case (Auction uids r1 st')
    then show ?thesis using eff [OF effect_read [OF wpD [OF wp_active_by_order_uids [OF gd c] Auction(2)]]] by simp
  next
    case (Owned uid owner r1 st')
    then show ?thesis using eff [OF effect_read [OF wpD [OF wp_list_by_order_uid_for_owner [OF gd c] Owned(2)]]] by simp
  next
    case (Live owner r1 st')
    then show ?thesis using eff [OF effect_read [OF wpD [OF wp_list_by_sub_solver [OF gd c] Live(2)]]] by simp
  next
    case (Expire p clk r2 st')
    then show ?thesis using eff [OF effect_transition [OF gd c snap(1)]] by simp
  next
    case (Verdict p v clk r3 st')
    then show ?thesis using eff [OF effect_verdict [OF gd c snap(1)]] by simp
  next
    case (Cancel clk pid sub_solver r4 st')
    then show ?thesis using eff [OF effect_cancel [OF gd c]] by simp
  next
    case (Outcome p clk oc r5 st')
    then show ?thesis using eff [OF effect_outcome [OF gd c snap]] by simp
  next
    case (Notified p clk kind r2 st')
    then show ?thesis using eff [OF effect_notified [OF gd snap(1)]] by simp
  next
    case (Penalty p clk amount tx r2 st')
    then show ?thesis using eff [OF effect_record_penalty [OF gd c snap(1)]] by simp
  next
    case (Pending r6 st')
    have same: "good c st'" "same_state ?st st'" using wpD [OF wp_pending_penalties [OF gd] Pending(2)] by auto
    have "effect c ?V ?st st'" using same by (rule effect_same)
    note e = eff [OF this]
    have b: "charges_bounded ?st" using ok by (simp add: sys_ok_def)
    have nx: "d_next_proposal (st_db st') = d_next_proposal (st_db ?st)" using same(2) by (simp add: same_state_def)
    have "sys_ok c ((s\<lparr>s_store := st'\<rparr>)\<lparr>s_charges := rows_read r6 @ s_charges (s\<lparr>s_store := st'\<rparr>)\<rparr>)"
      by (rule sys_ok_charge) (use e pending_bounded [OF gd b Pending(2)] nx in auto)
    with e Pending(1) show ?thesis by simp
  next
    case (Debit pp clk amount tx r2 st')
    then have "uint (pid_raw (pp_proposal_id pp)) < d_next_proposal (st_db ?st)" using ok by (auto simp: sys_ok_def)
    with Debit show ?thesis using eff [OF effect_debit [OF gd]] by simp
  next
    case (Release clk older r7 st')
    then show ?thesis using eff [OF effect_release [OF gd c]] by simp
  next
    case (Sweep clk older r7 st')
    then show ?thesis using eff [OF effect_sweep [OF gd c]] by simp
  next
    case (Bid auction sid pid r2 st')
    then show ?thesis using eff [OF effect_bid [OF gd]] by simp
  qed
qed

lemma step_refines:
  assumes "codec_ok c" and "sys_ok c s" and "service_by c just s s'"
  shows "sys_ok c s' \<and> lifecycle (life_of c (s_store s)) (life_of c (s_store s'))"
  using step_refines_by [OF assms] lifecycle_any by blast

subsection \<open>Reachable states\<close>

definition starts :: "sys \<Rightarrow> bool" where
  "starts s \<longleftrightarrow> st_db (s_store s) = empty_db \<and> st_audit (s_store s) = [] \<and> reliable (s_store s) \<and>
     s_held s = [] \<and> s_charges s = []"

lemma starts_empty: "starts s \<Longrightarrow> book c (s_store s) i = None"
  by (cases "i64_of_u64 (pid_raw i)") (simp_all add: starts_def book_def proposal_at_def find_row_def empty_db_def)

lemma starts_ok: "starts s \<Longrightarrow> sys_ok c s"
proof -
  assume s: "starts s"
  have "book c (s_store s) i = None" for i using s by (rule starts_empty)
  then have "life_ok (life_of c (s_store s))" using s by (intro life_okI) (auto simp: starts_def replay_def)
  moreover have "charges_bounded (s_store s)" using s by (simp add: starts_def charges_bounded_def empty_db_def)
  ultimately show ?thesis using s by (simp add: starts_def sys_ok_def good_def)
qed

interpretation service: invariant_system "\<lambda>s. codec_ok c \<and> starts s" "service_step c" "\<lambda>s. codec_ok c \<and> sys_ok c s"
  for c :: codec
  by unfold_locales (use starts_ok step_refines in blast)+

text \<open>The same for the specification: the trail replays to the book from the start on.\<close>

interpretation life: invariant_system "\<lambda>a. l_book a = Map.empty \<and> l_trail a = []" lifecycle life_ok
proof
  fix a :: life assume "l_book a = Map.empty \<and> l_trail a = []"
  then show "life_ok a" by (intro life_okI) (auto simp: replay_def)
qed (rule life_ok_step)

lemmas reachable_ok = service.reachable_inv [OF conjI, THEN conjunct2]

end
