(* ===== verification/Store_Properties.thy ===== *)
theory Store_Properties
  imports Store_Reads
begin

text \<open>
  The properties of the proposal store, operation by operation. Every theorem is about an arbitrary
  store whose tables are in order and whose connection reports truthfully (\<open>good\<close>); \<open>stored_sample\<close>
  is a concrete one, with one proposal in a given status.
\<close>

subsection \<open>A concrete store\<close>

definition stored_sample :: "proposal_status \<Rightarrow> store" where
  "stored_sample s =
     \<lparr>st_db = \<lparr>d_proposals = [insert_row std_codec 1 0 (sample_proposal\<lparr>p_status := s\<rparr>) None],
        d_solutions = [\<lparr>sr_auction_id = 7, sr_solution_id = 1, sr_proposal_id = 1\<rparr>], d_penalties = [],
        d_next_proposal = 2, d_next_penalty = 1\<rparr>,
      st_audit = [], st_faults = [], st_writer = True\<rparr>"

definition sample_clock :: clock where
  "sample_clock = \<lparr>db_now = 600000000, wall_now = 600000000\<rparr>"

lemma sample_uid_ok [simp]: "uid_ok (p_order_uid sample_proposal)"
  by (simp add: uid_ok_def sample_proposal_def sample_uid_def)

lemma good_sample: "good std_codec (stored_sample s)"
proof -
  have "row_ok std_codec (insert_row std_codec 1 0 (sample_proposal\<lparr>p_status := s\<rparr>) None)"
    by (rule row_ok_insert_row [OF codec_ok_std]) (simp_all add: gas_column_def sample_proposal_def uid_ok_def sample_uid_def)
  then show ?thesis by (simp add: good_def reliable_def stored_sample_def db_ok_def)
qed

lemma book_sample: "book std_codec (stored_sample s) (ProposalId 1) = Some (sample_proposal\<lparr>p_status := s\<rparr>)"
proof -
  have "proposal_of_row std_codec (insert_row std_codec 1 0 (sample_proposal\<lparr>p_status := s\<rparr>) None)
      = Inr (sample_proposal\<lparr>p_status := s, p_id := ProposalId 1\<rparr>)"
    by (rule proposal_of_insert_row [OF codec_ok_std])
      (simp_all add: gas_column_def sample_proposal_def uid_ok_def sample_uid_def id_of_db_def u64_of_i64_def)
  then show ?thesis
    by (simp add: book_def proposal_at_def i64_of_u64_def find_row_def stored_sample_def readable_def sample_proposal_def)
qed

lemmas sample_facts = good_sample codec_ok_std

subsection \<open>Rows\<close>

text \<open>Every row the service writes reads back as the proposal it wrote, under the identifier the
  database assigned: no field is lost or changed by its text column, whatever its value.\<close>

theorem row_round_trip:
  assumes "codec_ok c" and "uid_ok (p_order_uid p)" and "row_of c i t p = Some r" and "id_of_db i = Some pid"
  shows "proposal_of_row c r = Inr (p\<lparr>p_id := pid\<rparr>)"
  using assms by (auto simp: row_of_Some_iff intro: proposal_of_insert_row)

theorem row_round_trip_witness:
  "\<exists>r. row_of std_codec 1 0 sample_proposal = Some r \<and> proposal_of_row std_codec r = Inr sample_proposal"
proof -
  have r: "row_of std_codec 1 0 sample_proposal = Some (insert_row std_codec 1 0 sample_proposal None)"
    by (simp add: row_of_def gas_column_def sample_proposal_def)
  have "id_of_db 1 = Some (ProposalId 1)" by (simp add: id_of_db_def u64_of_i64_def)
  from row_round_trip [OF codec_ok_std sample_uid_ok r this] r show ?thesis
    by (auto simp: sample_proposal_def)
qed

subsection \<open>Writes\<close>

text \<open>Inserting a proposal whose gas fits the column never panics: either the database fails and
  nothing changes, or the proposal is stored under an identifier that named no proposal before, greater
  than every one assigned so far, and the trail gains one \<open>Received\<close> event carrying the full body.\<close>

theorem insert_assigns_fresh_id:
  assumes "good c st" and "codec_ok c" and "uid_ok (p_order_uid p)" and "gas_column (p_gas_used p) = Some gas"
  shows "\<exists>r st'. insert_proposal_op c clk p st = Some (r, st') \<and> good c st' \<and>
    (case r of
       Inl e \<Rightarrow> same_state st st' \<and> (\<exists>x. e = Database x)
     | Inr pid \<Rightarrow> book c st pid = None \<and> book c st' = (book c st)(pid \<mapsto> p\<lparr>p_id := pid\<rparr>) \<and>
         (\<forall>old. book c st old \<noteq> None \<longrightarrow> uint (pid_raw old) < uint (pid_raw pid)) \<and>
         st_audit st' = st_audit st @ [event (wall_now clk) (Received (p\<lparr>p_id := pid\<rparr>))])"
proof -
  have old: "uint (pid_raw i) < d_next_proposal (st_db st)" if b: "book c st i = Some q" for i q
  proof -
    obtain r j where "i64_of_u64 (pid_raw i) = Some j" "find_row j (st_db st) = Some r"
      using book_row [OF assms(1) b] by metis
    moreover from this have "r \<in> set (d_proposals (st_db st))" "r_id r = j" using find_row_mem by blast+
    moreover from this assms(1) have "r_id r < d_next_proposal (st_db st)" by (auto simp: good_def db_ok_def)
    ultimately show ?thesis using i64_of_u64_uint by metis
  qed
  from insert_outcome [OF assms, of clk] obtain r st' where
    run: "insert_proposal_op c clk p st = Some (r, st')" and g: "good c st'"
    and spec: "case r of
        Inl e \<Rightarrow> same_state st st' \<and> (\<exists>x. e = Database x)
      | Inr pid \<Rightarrow> book c st pid = None \<and> book c st' = (book c st)(pid \<mapsto> p\<lparr>p_id := pid\<rparr>) \<and>
          d_solutions (st_db st') = d_solutions (st_db st) \<and> d_penalties (st_db st') = d_penalties (st_db st) \<and>
          d_next_proposal (st_db st') = uint (pid_raw pid) + 1 \<and> uint (pid_raw pid) = d_next_proposal (st_db st) \<and>
          st_audit st' = st_audit st @ [event (wall_now clk) (Received (p\<lparr>p_id := pid\<rparr>))]" by blast
  have "case r of
       Inl e \<Rightarrow> same_state st st' \<and> (\<exists>x. e = Database x)
     | Inr pid \<Rightarrow> book c st pid = None \<and> book c st' = (book c st)(pid \<mapsto> p\<lparr>p_id := pid\<rparr>) \<and>
         (\<forall>old. book c st old \<noteq> None \<longrightarrow> uint (pid_raw old) < uint (pid_raw pid)) \<and>
         st_audit st' = st_audit st @ [event (wall_now clk) (Received (p\<lparr>p_id := pid\<rparr>))]"
  proof (cases r)
    case (Inl e)
    with spec show ?thesis by simp
  next
    case (Inr pid)
    with spec old show ?thesis by auto
  qed
  with run g show ?thesis by blast
qed

theorem insert_assigns_fresh_id_witness:
  "insert_proposal_op std_codec sample_clock sample_proposal (stored_sample Active) \<noteq> None"
  using insert_assigns_fresh_id [OF sample_facts sample_uid_ok, of None sample_clock Active]
  by (auto simp: gas_column_def sample_proposal_def)

text \<open>C24. \<open>transition\<close> is a compare-and-swap on the snapshot's status: it succeeds exactly on a stored
  proposal that still has it, replacing that proposal alone by the same one in the new status and
  leaving one event that names the edge; otherwise it reports \<open>NotFound\<close>, \<open>StaleTransition\<close> with the
  status actually stored, or the database's failure, and changes nothing.\<close>

theorem transition_is_compare_and_swap:
  assumes "good c st" and "codec_ok c" and "transition clk p to st = (r, st')"
  shows "good c st' \<and>
    (case r of
       Inr _ \<Rightarrow> (\<exists>q. book c st (p_id p) = Some q \<and> p_status q = p_status p \<and>
         book c st' = (book c st)(p_id p \<mapsto> q\<lparr>p_status := to\<rparr>) \<and>
         st_audit st' = st_audit st @ [event (wall_now clk)
           (StatusChanged (p_id p) (p_sub_solver p) (p_order_uid p) (p_status p) to None None)])
     | Inl e \<Rightarrow> same_state st st' \<and>
         ((\<exists>x. e = Database x) \<or>
          (case book c st (p_id p) of
             None \<Rightarrow> e = NotFound (p_id p)
           | Some q \<Rightarrow> p_status q \<noteq> p_status p \<and>
               e = StaleTransition (p_id p) (status_text (p_status p)) (p_status q))))"
proof -
  note spec = wpD [OF wp_transition [OF assms(1,2)] assms(3)]
  show ?thesis
  proof (cases r)
    case (Inl e)
    with spec show ?thesis by (simp add: cas_error_def)
  next
    case (Inr u)
    with spec show ?thesis by (auto simp: moved_def with_status_def)
  qed
qed

theorem transition_is_compare_and_swap_witness:
  "good std_codec (snd (transition sample_clock (sample_proposal\<lparr>p_status := Active\<rparr>) Expired (stored_sample Active)))"
  using transition_is_compare_and_swap [OF sample_facts surjective_pairing] by blast

text \<open>C22. Cancellation. It succeeds exactly for a stored proposal of the caller's that is \<open>Submitted\<close> or
  \<open>Active\<close> under the row lock, and then only its status changes; a foreign proposal is reported as
  \<open>NotOwner\<close> before its status is looked at, and every refusal leaves tables and trail untouched.\<close>

theorem cancel_needs_owner_and_live:
  assumes "good c st" and "codec_ok c" and "cancel c clk pid sub_solver st = (r, st')"
  shows "good c st' \<and>
    (case r of
       Inr _ \<Rightarrow> (\<exists>q. book c st pid = Some q \<and> p_sub_solver q = sub_solver \<and> p_status q \<in> {Submitted, Active} \<and>
         book c st' = (book c st)(pid \<mapsto> q\<lparr>p_status := Cancelled\<rparr>) \<and>
         st_audit st' = st_audit st @ [event (wall_now clk) (AuditCancelled pid sub_solver (p_order_uid q))])
     | Inl e \<Rightarrow> same_state st st' \<and>
         ((\<exists>x. e = Database x) \<or>
          (case book c st pid of
             None \<Rightarrow> e = NotFound pid
           | Some q \<Rightarrow> if p_sub_solver q \<noteq> sub_solver then e = NotOwner pid sub_solver
               else p_status q \<notin> {Submitted, Active} \<and>
                    e = StaleTransition pid ''submitted or active'' (p_status q))))"
proof -
  note spec = wpD [OF wp_cancel [OF assms(1,2)] assms(3)]
  show ?thesis
  proof (cases r)
    case (Inl e)
    with spec show ?thesis by (simp add: cancel_error_def)
  next
    case (Inr u)
    with spec obtain q where "p_id q = pid" "p_sub_solver q = sub_solver" "p_status q \<in> {Submitted, Active}"
      "moved c st st' q (with_status Cancelled q)
        [event (wall_now clk) (AuditCancelled pid sub_solver (p_order_uid q))]" by auto
    with spec Inr show ?thesis by (auto simp: moved_def with_status_def)
  qed
qed

theorem cancel_needs_owner_and_live_witness:
  "good std_codec (snd (cancel std_codec sample_clock (ProposalId 1) 17 (stored_sample Active)))"
  using cancel_needs_owner_and_live [OF sample_facts surjective_pairing] by blast

text \<open>C25. Verdicts. A verdict applies exactly to a stored \<open>Submitted\<close> or \<open>Active\<close> proposal: acceptance
  makes or keeps it \<open>Active\<close> and writes the simulation's gas (saturated at the column's maximum),
  trampoline and tokens when it carries one, keeping the old values otherwise; a rejection records its
  reason. The trail gains one event when the status changes and none on a re-validation; a proposal
  that is gone or no longer live is reported and nothing changes.\<close>

theorem verdict_resolves_live_proposals:
  assumes "good c st" and "codec_ok c" and "resolve_verdict c clk pid v st = (r, st')"
  shows "good c st' \<and>
    (case r of
       Inr to \<Rightarrow> (\<exists>q reason sim. verdict_parts v = (to, reason, sim) \<and>
         book c st pid = Some q \<and> p_status q \<in> {Submitted, Active} \<and>
         book c st' = (book c st)(pid \<mapsto> q\<lparr>p_status := to, p_rejection_reason := reason,
           p_gas_used := coalesce (map_option (\<lambda>s. stored_gas (so_gas_used s)) sim) (p_gas_used q),
           p_trampoline := coalesce (map_option so_trampoline sim) (p_trampoline q),
           p_sell_token := coalesce_to (map_option so_sell_token sim) (p_sell_token q),
           p_buy_token := coalesce_to (map_option so_buy_token sim) (p_buy_token q)\<rparr>) \<and>
         st_audit st' = st_audit st @ (if p_status q = to then [] else [event (wall_now clk)
           (StatusChanged pid (p_sub_solver q) (p_order_uid q) (p_status q) to reason None)]))
     | Inl e \<Rightarrow> same_state st st' \<and>
         ((\<exists>x. e = Database x) \<or>
          (case book c st pid of
             None \<Rightarrow> e = NotFound pid
           | Some q \<Rightarrow> p_status q \<notin> {Submitted, Active} \<and>
               e = StaleTransition pid ''submitted or active'' (p_status q))))"
proof -
  obtain to reason sim where v: "verdict_parts v = (to, reason, sim)" by (metis prod_cases3)
  note spec = wpD [OF wp_resolve_verdict [OF assms(1,2) v] assms(3)]
  show ?thesis
  proof (cases r)
    case (Inl e)
    with spec show ?thesis by (simp add: live_error_def)
  next
    case (Inr s)
    with spec obtain q where "s = to" "p_id q = pid" "p_status q \<in> {Submitted, Active}"
      and m: "moved c st st' q (with_verdict to reason sim q)
            (if p_status q = to then [] else [event (wall_now clk)
               (StatusChanged pid (p_sub_solver q) (p_order_uid q) (p_status q) to reason None)])" by auto
    with spec Inr v show ?thesis by (auto simp: moved_def with_verdict_def)
  qed
qed

theorem verdict_resolves_live_proposals_witness:
  "good std_codec (snd (resolve_verdict std_codec sample_clock (ProposalId 1) (Reject Unprofitable) (stored_sample Active)))"
  using verdict_resolves_live_proposals [OF sample_facts surjective_pairing] by blast

text \<open>C14. Settlement outcomes. Under the row lock an outcome is applied exactly when the legality table
  allows it from the status stored at that moment: the proposal moves along that edge and keeps or
  gains the cited transaction, the trail gains one event, and the non-settlement charge is queued in the
  same transaction exactly for an abandoned submission. Otherwise it is ignored (or the proposal is
  missing, or the database failed) and nothing changes - no charge without its release, no release
  without its charge.\<close>

theorem outcome_follows_table:
  assumes "good c st" and "codec_ok c" and "uid_ok (p_order_uid p)"
    and "apply_settlement_outcome c clk p outcome st = (r, st')"
  shows "good c st' \<and>
    (case r of
       Inr (Applied from to) \<Rightarrow> outcome_target outcome from = Some to \<and>
         (\<exists>q. book c st (p_id p) = Some q \<and> p_status q = from \<and>
            book c st' = (book c st)(p_id p \<mapsto> q\<lparr>p_status := to,
              p_settlement_tx_hash := coalesce (outcome_tx outcome) (p_settlement_tx_hash q)\<rparr>)) \<and>
         st_audit st' = st_audit st @ [event (wall_now clk)
           (StatusChanged (p_id p) (p_sub_solver p) (p_order_uid p) from to None (outcome_tx outcome))] \<and>
         map pr_proposal_id (d_penalties (st_db st')) = map pr_proposal_id (d_penalties (st_db st))
           @ (if outcome = Abandoned then [uint (pid_raw (p_id p))] else [])
     | Inr (Ignored from) \<Rightarrow> same_state st st' \<and> outcome_target outcome from = None \<and>
         (\<exists>q. book c st (p_id p) = Some q \<and> p_status q = from)
     | Inl e \<Rightarrow> same_state st st' \<and>
         ((\<exists>x. e = Database x) \<or> (book c st (p_id p) = None \<and> e = NotFound (p_id p))))"
proof -
  note spec = wpD [OF wp_apply_settlement_outcome [OF assms(1-3)] assms(4)]
  show ?thesis
  proof (cases r)
    case (Inl e)
    with spec show ?thesis by (simp add: outcome_error_def)
  next
    case (Inr x)
    with spec show ?thesis
      by (cases x) (auto simp: moved_def with_outcome_def queued_charge_def)
  qed
qed

theorem outcome_follows_table_witness:
  "good std_codec (snd (apply_settlement_outcome std_codec sample_clock sample_proposal Abandoned (stored_sample Executing)))"
  using outcome_follows_table [OF sample_facts sample_uid_ok surjective_pairing] by blast

text \<open>The timeout backstop releases exactly the proposals that have been \<open>Executing\<close> for longer
  than the timeout: each returns to \<open>Active\<close> with one event of its own, every other proposal keeps its
  status, and the count returned is the number released.\<close>

theorem release_is_exact:
  assumes "good c st" and "codec_ok c" and "release_stale_executing c clk older st = (Inr n, st')"
  shows "book c st' = (\<lambda>pid. map_option (\<lambda>q. if overdue clk older st [Executing] q
        then q\<lparr>p_status := Active\<rparr> else q) (book c st pid)) \<and>
    (\<exists>qs. distinct (map p_id qs) \<and> n = length qs \<and>
       set qs = {q. book c st (p_id q) = Some q \<and> overdue clk older st [Executing] q} \<and>
       st_audit st' = st_audit st @ map (\<lambda>q. event (wall_now clk)
         (StatusChanged (p_id q) (p_sub_solver q) (p_order_uid q) Executing Active None None)) qs)"
proof -
  from wpD [OF wp_release_stale_executing [OF assms(1,2)] assms(3)]
  have "book c st' = released_book c clk older st"
    and q: "\<exists>qs. set qs = to_release c clk older st \<and> distinct (map p_id qs) \<and> n = length qs \<and>
          st_audit st' = st_audit st @ map (\<lambda>q. event (wall_now clk)
            (StatusChanged (p_id q) (p_sub_solver q) (p_order_uid q) Executing Active None None)) qs" by auto
  then show ?thesis
    unfolding to_release_def released_book_def with_status_def by (auto simp: fun_eq_iff)
qed

lemma sample_release:
  "\<exists>st'. release_stale_executing std_codec sample_clock 300000000 (stored_sample Submitted) = (Inr 0, st')"
  by (simp add: release_stale_executing_def release_body_def act_def in_tx_def stmt_def next_fault_def lift_def
      done_with_def stored_sample_def stale_executing_def sample_clock_def update_rows_def)

theorem release_is_exact_witness:
  "\<exists>st'. release_stale_executing std_codec sample_clock 300000000 (stored_sample Submitted) = (Inr 0, st') \<and>
    (\<exists>qs :: proposal list. 0 = length qs)"
  using sample_release release_is_exact [OF sample_facts] by blast

text \<open>C32. The retention sweep deletes only proposals of the dropped tier (\<open>Rejected\<close>, \<open>SimFailed\<close>,
  \<open>Expired\<close>, \<open>Cancelled\<close>) that entered it before the cutoff, and all of those; every live and every
  money-state proposal, every charge and the whole trail survive unchanged.\<close>

theorem sweep_spares_money_and_evidence:
  assumes "good c st" and "codec_ok c" and "sweep_dropped clk older st = (Inr n, st')"
  shows "st_audit st' = st_audit st \<and> d_penalties (st_db st') = d_penalties (st_db st) \<and>
    (\<forall>pid. book c st' pid = (case book c st pid of None \<Rightarrow> None
       | Some q \<Rightarrow> if overdue clk older st [Rejected, SimFailed, Expired, Cancelled] q then None else Some q))"
proof -
  from wpD [OF wp_sweep_dropped [OF assms(1,2)] assms(3)]
  show ?thesis unfolding dropped_statuses_def [symmetric] by (simp add: swept_book_def)
qed

lemma sample_sweep: "\<exists>st'. sweep_dropped sample_clock 300000000 (stored_sample Settled) = (Inr 0, st')"
  by (simp add: sweep_dropped_def stmt_def next_fault_def stored_sample_def delete_rows_def swept_row_def
      status_names_def dropped_statuses_def)

theorem sweep_spares_money_and_evidence_witness:
  "\<exists>st'. sweep_dropped sample_clock 300000000 (stored_sample Settled) = (Inr 0, st') \<and>
    st_audit st' = st_audit (stored_sample Settled)"
  using sample_sweep sweep_spares_money_and_evidence [OF sample_facts] by blast

subsection \<open>Reads\<close>

lemma stored_where_unique:
  assumes "stored_where c st Q ps" and "stored_where c st Q qs"
  shows "ps = qs"
proof -
  have key: "inj_on (\<lambda>q. uint (pid_raw (p_id q))) (set ps)"
    using assms(1) by (auto simp: stored_where_def inj_on_def distinct_map uint_pid_eq_iff)
  have sets: "set ps = set qs" using assms by (simp add: stored_where_def)
  have "distinct ps" "distinct qs" using assms by (auto simp: stored_where_def distinct_map)
  then have "distinct (map (\<lambda>q. uint (pid_raw (p_id q))) ps)" "distinct (map (\<lambda>q. uint (pid_raw (p_id q))) qs)"
    using key sets by (simp_all add: distinct_map)
  moreover have "set (map (\<lambda>q. uint (pid_raw (p_id q))) ps) = set (map (\<lambda>q. uint (pid_raw (p_id q))) qs)"
    using sets by simp
  ultimately have "map (\<lambda>q. uint (pid_raw (p_id q))) ps = map (\<lambda>q. uint (pid_raw (p_id q))) qs"
    using assms by (auto simp: stored_where_def intro: sorted_distinct_set_unique)
  then show ?thesis using key sets by (intro map_inj_on [of "\<lambda>q. uint (pid_raw (p_id q))"]) auto
qed

text \<open>The one-query read of a whole auction agrees with the per-order read it replaced: for every
  order asked about, \<open>active_by_order_uids\<close> holds exactly the list \<open>list_by_order_uid\<close> returns, in the
  same order, and has no entry when that list is empty or the order was not asked about.\<close>

theorem batched_read_agrees:
  assumes "good c st" and "codec_ok c"
    and "active_by_order_uids c uids st = (Inr m, st1)" and "list_by_order_uid c uid st = (Inr ps, st2)"
  shows "m uid = (if uid \<in> set uids \<and> ps \<noteq> [] then Some ps else None)"
proof -
  have ps: "stored_where c st (\<lambda>q. p_order_uid q = uid \<and> p_status q = Active) ps"
    using wpD [OF wp_list_by_order_uid [OF assms(1,2)] assms(4)] by (simp add: read_result_def)
  have m: "case m uid of
         None \<Rightarrow> uid \<in> set uids \<longrightarrow> stored_where c st (\<lambda>q. p_order_uid q = uid \<and> p_status q = Active) []
       | Some ps \<Rightarrow> uid \<in> set uids \<and> ps \<noteq> [] \<and>
           stored_where c st (\<lambda>q. p_order_uid q = uid \<and> p_status q = Active) ps"
    using wpD [OF wp_active_by_order_uids [OF assms(1,2)] assms(3)] by (simp add: read_result_def)
  show ?thesis
  proof (cases "m uid")
    case None
    with m ps stored_where_unique show ?thesis by fastforce
  next
    case (Some xs)
    with m have "stored_where c st (\<lambda>q. p_order_uid q = uid \<and> p_status q = Active) xs" by simp
    with stored_where_unique [OF this ps] m Some show ?thesis by simp
  qed
qed

lemma sample_batched:
  "\<exists>m st1. active_by_order_uids std_codec [sample_uid] (stored_sample Active) = (Inr m, st1)"
  "\<exists>ps st2. list_by_order_uid std_codec sample_uid (stored_sample Active) = (Inr ps, st2)"
  by (simp_all add: active_by_order_uids_def list_by_order_uid_def query_def act_def stmt_def next_fault_def
      done_with_def lift_def stored_sample_def)

theorem batched_read_agrees_witness:
  "\<exists>m st1 ps st2. active_by_order_uids std_codec [sample_uid] (stored_sample Active) = (Inr m, st1) \<and>
     list_by_order_uid std_codec sample_uid (stored_sample Active) = (Inr ps, st2) \<and>
     m sample_uid = (if ps \<noteq> [] then Some ps else None)"
  using sample_batched batched_read_agrees [OF sample_facts, of "[sample_uid]"] by fastforce

text \<open>Owner scoping. The listing a sub-solver gets for an order holds exactly its own \<open>Active\<close>
  proposals on that order, each once and in order of identifier: no competitor's proposal is ever in
  it, and reading changes nothing.\<close>

theorem owner_listing_is_scoped:
  assumes "good c st" and "codec_ok c" and "list_by_order_uid_for_owner c uid owner st = (Inr ps, st')"
  shows "set ps = {q. book c st (p_id q) = Some q \<and> p_order_uid q = uid \<and> p_sub_solver q = owner \<and>
      p_status q = Active} \<and> distinct (map p_id ps) \<and>
    sorted (map (\<lambda>q. uint (pid_raw (p_id q))) ps) \<and> st_db st' = st_db st \<and> st_audit st' = st_audit st"
  using wpD [OF wp_list_by_order_uid_for_owner [OF assms(1,2)] assms(3)]
  by (simp add: read_result_def stored_where_def same_state_def)

theorem owner_listing_is_scoped_witness:
  "\<exists>ps st'. list_by_order_uid_for_owner std_codec sample_uid 17 (stored_sample Active) = (Inr ps, st') \<and>
     st_audit st' = []"
proof -
  have "\<exists>ps st'. list_by_order_uid_for_owner std_codec sample_uid 17 (stored_sample Active) = (Inr ps, st')"
    by (simp add: list_by_order_uid_for_owner_def query_def act_def stmt_def next_fault_def
        done_with_def lift_def stored_sample_def)
  then show ?thesis using owner_listing_is_scoped [OF sample_facts] by (fastforce simp: stored_sample_def)
qed

end
