(* ===== verification/Lifecycle_Properties.thy ===== *)
theory Lifecycle_Properties
  imports Service Store_Properties
begin

text \<open>
  The properties of the service's store over all its runs, from the empty database, through any
  sequence of operations with arguments however stale: proved on the specification \<open>lifecycle\<close> and
  carried over by the refinement.
\<close>

subsection \<open>Steps of the specification\<close>

lemma status_with [simp]: "p_status (with_status to q) = to"
  by (simp add: with_status_def)

lemma lifecycle_status:
  assumes "lifecycle a a'" and "life_ok a" and "l_book a i = Some q"
  shows "case l_book a' i of
      None \<Rightarrow> p_status q \<in> set dropped_statuses
    | Some q' \<Rightarrow> same_body q q' \<and> (q' = q \<or> (p_status q = Active \<and> p_status q' = Active) \<or> edge (p_status q) (p_status q'))"
  using assms
proof (induction rule: lifecycle_by.induct)
  case (Move a q1 q' k)
  then show ?case using life_ok_D(1) [OF Move.prems] by (cases "i = p_id q1") auto
next
  case (Refresh a q1 q')
  then show ?case by (cases "i = p_id q1") auto
next
  case (Release qs a)
  have "p_status q = Executing" if "q \<in> set qs" using that Release(2) by blast
  then show ?case using Release.prems by auto
next
  case (Sweep b a)
  then show ?case by (metis (mono_tags, lifting) life.select_convs(1) life.surjective life.update_convs(1) option.inject option.simps(3,4,5) same_body_refl)
qed auto

lemma lifecycle_final:
  assumes "lifecycle a a'" and "life_ok a" and "l_book a i = Some q" and "p_status q \<in> {Settled, Penalized}"
  shows "l_book a' i = Some q"
  using lifecycle_status [OF assms(1-3)] assms(4)
  by (auto simp: dropped_statuses_def split: option.splits)

lemma lifecycle_fresh:
  assumes "lifecycle a a'" and "l_book a i = None" and "uint (pid_raw i) < l_next a"
  shows "l_book a' i = None \<and> uint (pid_raw i) < l_next a'"
  using assms
proof (induction rule: lifecycle_by.induct)
  case (Sweep b a)
  then show ?case by (metis life.select_convs(1,3) life.surjective life.update_convs(1) option.distinct(1))
qed auto

subsection \<open>Runs of the service\<close>

abbreviation stored :: "codec \<Rightarrow> sys \<Rightarrow> proposal_id \<Rightarrow> proposal option" where
  "stored c s \<equiv> book c (s_store s)"

abbreviation trail :: "sys \<Rightarrow> audit_kind list" where
  "trail s \<equiv> map ae_kind (st_audit (s_store s))"

abbreviation runs :: "codec \<Rightarrow> sys \<Rightarrow> sys \<Rightarrow> bool" where
  "runs c \<equiv> (service_step c)\<^sup>*\<^sup>*"

lemma runs_ok: "codec_ok c \<Longrightarrow> starts s \<Longrightarrow> runs c s s' \<Longrightarrow> sys_ok c s'"
  using reachable_ok by blast

lemma runs_life:
  assumes "runs c s s'" and "codec_ok c" and "sys_ok c s"
  shows "lifecycle\<^sup>*\<^sup>* (life_of c (s_store s)) (life_of c (s_store s')) \<and> sys_ok c s'"
  using assms by (induction rule: rtranclp_induct) (auto dest: step_refines intro: rtranclp.rtrancl_into_rtrancl)

text \<open>A property of one proposal that every step of the specification keeps holds at the end of a run.\<close>

lemma run_keeps:
  assumes "runs c s s'" and "codec_ok c" and "sys_ok c s"
    and "\<And>a a'. lifecycle a a' \<Longrightarrow> life_ok a \<Longrightarrow> K a \<Longrightarrow> K a'" and "K (life_of c (s_store s))"
  shows "K (life_of c (s_store s'))"
proof -
  have "lifecycle\<^sup>*\<^sup>* (life_of c (s_store s)) (life_of c (s_store s'))" using runs_life assms(1-3) by blast
  moreover have "life_ok (life_of c (s_store s))" using assms(3) by (simp add: sys_ok_def)
  ultimately have "K (life_of c (s_store s')) \<and> life_ok (life_of c (s_store s'))"
    using assms(5) by (induction rule: rtranclp_induct) (auto dest: assms(4) life_ok_step)
  then show ?thesis by simp
qed

subsection \<open>A concrete run\<close>

definition first_sys :: sys where
  "first_sys = \<lparr>s_store = \<lparr>st_db = empty_db, st_audit = [], st_faults = [], st_writer = True\<rparr>, s_held = [], s_charges = []\<rparr>"

definition second_sys :: sys where
  "second_sys = first_sys\<lparr>s_store := \<lparr>st_db = \<lparr>d_proposals = [insert_row std_codec 1 600000000 sample_proposal None],
     d_solutions = [], d_penalties = [], d_next_proposal = 2, d_next_penalty = 1\<rparr>,
     st_audit = [event 600000000 (Received sample_proposal)], st_faults = [], st_writer = True\<rparr>\<rparr>"

lemma first_starts: "starts first_sys"
  by (simp add: starts_def first_sys_def reliable_def)

lemma first_insert:
  assumes "p_gas_used p = None"
  shows "\<exists>st'. insert_proposal_op std_codec clk p (s_store first_sys) = Some (Inr (ProposalId 1), st')"
  using assms
  by (simp add: insert_proposal_op_def gas_column_def stmt_def next_fault_def first_sys_def empty_db_def insert_proposal_def
      id_of_db_def u64_of_i64_def act_def emit_def done_with_def lift_def)

lemma first_insert_calm: "insert_proposal_op std_codec clk p (s_store first_sys) = Some (r, st') \<Longrightarrow> st_faults st' = []"
  by (auto simp: insert_proposal_op_def stmt_def next_fault_def first_sys_def act_def emit_def done_with_def lift_def Let_def
      split: option.splits sum.splits prod.splits)

lemma first_step: "service_step std_codec first_sys second_sys"
proof -
  have "insert_proposal_op std_codec sample_clock sample_proposal (s_store first_sys)
      = Some (Inr (ProposalId 1), s_store second_sys)"
    by (simp add: insert_proposal_op_def gas_column_def sample_proposal_def stmt_def next_fault_def first_sys_def
        second_sys_def empty_db_def insert_proposal_def id_of_db_def u64_of_i64_def act_def emit_def done_with_def
        lift_def sample_clock_def event_def)
  then have "service_step std_codec first_sys (first_sys\<lparr>s_store := s_store second_sys\<rparr>)"
    by (rule service_by.Insert) (simp_all add: sample_proposal_def uid_ok_def sample_uid_def)
  then show ?thesis by (simp add: second_sys_def)
qed

lemma first_run: "runs std_codec first_sys second_sys"
  using first_step by blast

lemma second_stored: "stored std_codec second_sys (ProposalId 1) = Some sample_proposal"
proof -
  have "proposal_of_row std_codec (insert_row std_codec 1 600000000 sample_proposal None)
      = Inr (sample_proposal\<lparr>p_id := ProposalId 1\<rparr>)"
    by (rule proposal_of_insert_row [OF codec_ok_std])
      (simp_all add: gas_column_def sample_proposal_def uid_ok_def sample_uid_def id_of_db_def u64_of_i64_def)
  then show ?thesis
    by (simp add: book_def proposal_at_def i64_of_u64_def find_row_def second_sys_def readable_def sample_proposal_def)
qed

lemma second_ok: "sys_ok std_codec second_sys"
  using runs_ok [OF codec_ok_std first_starts first_run] .

text \<open>A state in which the sample proposal is \<open>Settled\<close>.\<close>

definition settled_sample :: proposal where
  "settled_sample = sample_proposal\<lparr>p_status := Settled, p_settlement_tx_hash := Some 77\<rparr>"

definition settled_sys :: sys where
  "settled_sys = \<lparr>s_store = \<lparr>st_db = \<lparr>d_proposals = [insert_row std_codec 1 0 settled_sample None],
       d_solutions = [], d_penalties = [], d_next_proposal = 2, d_next_penalty = 1\<rparr>,
     st_audit = map (event 0) [Received sample_proposal,
       StatusChanged (ProposalId 1) 17 sample_uid Submitted Active None None,
       StatusChanged (ProposalId 1) 17 sample_uid Active Settled None (Some 77)],
     st_faults = [], st_writer = True\<rparr>, s_held = [], s_charges = []\<rparr>"

lemma settled_stored:
  "stored std_codec settled_sys pid = (if pid = ProposalId 1 then Some settled_sample else None)"
proof -
  have "proposal_of_row std_codec (insert_row std_codec 1 0 settled_sample None) = Inr (settled_sample\<lparr>p_id := ProposalId 1\<rparr>)"
    by (rule proposal_of_insert_row [OF codec_ok_std])
      (simp_all add: gas_column_def settled_sample_def sample_proposal_def uid_ok_def sample_uid_def
        id_of_db_def u64_of_i64_def)
  then have "readable std_codec (insert_row std_codec 1 0 settled_sample None) = Some settled_sample"
    by (simp add: readable_def settled_sample_def sample_proposal_def)
  moreover have "i64_of_u64 (pid_raw pid) = Some 1 \<longleftrightarrow> pid = ProposalId 1"
    using i64_of_u64_inj [of "pid_raw pid" 1 1] by (cases pid) (auto simp: i64_of_u64_def)
  ultimately show ?thesis
    by (cases "i64_of_u64 (pid_raw pid)") (auto simp: book_def proposal_at_def find_row_def settled_sys_def)
qed

lemma settled_next [simp]: "d_next_proposal (st_db (s_store settled_sys)) = 2"
  by (simp add: settled_sys_def)

lemma settled_trail: "trail settled_sys = [Received sample_proposal,
    StatusChanged (ProposalId 1) 17 sample_uid Submitted Active None None,
    StatusChanged (ProposalId 1) 17 sample_uid Active Settled None (Some 77)]"
  by (simp add: settled_sys_def)

lemma settled_ok: "sys_ok std_codec settled_sys"
proof -
  have "row_ok std_codec (insert_row std_codec 1 0 settled_sample None)"
    by (rule row_ok_insert_row [OF codec_ok_std])
      (simp_all add: gas_column_def settled_sample_def sample_proposal_def uid_ok_def sample_uid_def)
  then have "good std_codec (s_store settled_sys)"
    by (simp add: good_def reliable_def settled_sys_def db_ok_def)
  moreover have "life_ok (life_of std_codec (s_store settled_sys))"
    by (rule life_okI)
      (auto simp: settled_stored settled_trail settled_sample_def sample_proposal_def cites_def replay_def
        observe_def split: if_splits)
  ultimately show ?thesis by (simp add: sys_ok_def charges_bounded_def) (simp add: settled_sys_def)
qed

subsection \<open>The properties\<close>

text \<open>C4. The store implements the lifecycle: from a state in order every operation of the service,
  failures included, is a step of the abstract machine \<open>lifecycle\<close> on the stored proposals, the trail and
  the identifier sequence, and leaves the state in order.\<close>

theorem service_refines_lifecycle:
  assumes "codec_ok c" and "sys_ok c s" and "service_step c s s'"
  shows "lifecycle (life_of c (s_store s)) (life_of c (s_store s')) \<and> sys_ok c s'"
  using step_refines [OF assms] by simp

theorem service_refines_lifecycle_witness:
  "lifecycle (life_of std_codec (s_store first_sys)) (life_of std_codec (s_store second_sys))"
  using service_refines_lifecycle [OF codec_ok_std starts_ok [OF first_starts] first_step] by simp

text \<open>The evidence is complete: in every reachable state, replaying the trail gives each stored
  proposal exactly its current status, and gives a proposal that is no longer stored a dropped status
  (or never mentions it) - so no status change, from any caller in any order, escapes the audit, and a
  swept row's history still tells how it ended.\<close>

theorem evidence_replays:
  assumes "codec_ok c" and "starts s0" and "(service_step c)\<^sup>*\<^sup>* s0 s"
  shows "(\<forall>pid q. book c (s_store s) pid = Some q \<longrightarrow>
       replay pid (map ae_kind (st_audit (s_store s))) = Some (p_status q)) \<and>
    (\<forall>pid. book c (s_store s) pid = None \<longrightarrow>
       replay pid (map ae_kind (st_audit (s_store s)))
         \<in> {None, Some Rejected, Some SimFailed, Some Expired, Some Cancelled})"
proof -
  have ok: "life_ok (life_of c (s_store s))" using runs_ok [OF assms] by (simp add: sys_ok_def)
  have "replay pid (trail s) \<in> {None, Some Rejected, Some SimFailed, Some Expired, Some Cancelled}"
    if "stored c s pid = None" for pid
    using life_ok_D(5) [OF ok, of pid] that by (auto simp: dropped_statuses_def split: option.splits)
  with life_ok_D(4) [OF ok] show ?thesis by auto
qed

theorem evidence_replays_witness:
  "replay (ProposalId 1) (map ae_kind (st_audit (s_store second_sys))) = Some Submitted"
  using evidence_replays [OF codec_ok_std first_starts first_run] second_stored
  by (auto simp: sample_proposal_def)

text \<open>C12. A status only moves along the lifecycle's edges: in one step of the service a stored proposal
  keeps its identity, order, amounts and signature, and its status either stays or takes an edge; it
  disappears only from a dropped status.\<close>

theorem status_moves_along_edges:
  assumes "codec_ok c" and "starts s0" and "(service_step c)\<^sup>*\<^sup>* s0 s" and "service_step c s s'"
    and "book c (s_store s) pid = Some q"
  shows "case book c (s_store s') pid of
      None \<Rightarrow> p_status q \<in> {Rejected, SimFailed, Expired, Cancelled}
    | Some q' \<Rightarrow> same_body q q' \<and> (p_status q' = p_status q \<or> edge (p_status q) (p_status q'))"
proof -
  have ok: "sys_ok c s" by (rule runs_ok [OF assms(1-3)])
  then have "life_ok (life_of c (s_store s))" by (simp add: sys_ok_def)
  with step_refines [OF assms(1) ok assms(4)] assms(5)
    lifecycle_status [of "life_of c (s_store s)" "life_of c (s_store s')" pid q]
  show ?thesis by (auto simp: dropped_statuses_def split: option.splits)
qed

definition third_sys :: sys where
  "third_sys = second_sys\<lparr>s_store := snd (sweep_dropped sample_clock 1 (s_store second_sys))\<rparr>"

lemma third_step: "service_step std_codec second_sys third_sys"
  unfolding third_sys_def by (rule service_by.Sweep) (rule surjective_pairing)

theorem status_moves_along_edges_witness:
  "case book std_codec (s_store third_sys) (ProposalId 1) of
      None \<Rightarrow> False
    | Some q' \<Rightarrow> same_body sample_proposal q' \<and> (p_status q' = Submitted \<or> edge Submitted (p_status q'))"
  using status_moves_along_edges [OF codec_ok_std first_starts first_run third_step second_stored]
  by (auto simp: sample_proposal_def split: option.splits)

text \<open>C13. Money states are final: once a proposal is \<open>Settled\<close> or \<open>Penalized\<close> no run of the service ever
  changes or deletes it, and a \<open>SettleFailed\<close> one stays until it is \<open>Penalized\<close>.\<close>

theorem money_states_are_final:
  assumes "codec_ok c" and "sys_ok c s" and "(service_step c)\<^sup>*\<^sup>* s s'" and "book c (s_store s) pid = Some q"
  shows "(p_status q \<in> {Settled, Penalized} \<longrightarrow> book c (s_store s') pid = Some q) \<and>
    (p_status q = SettleFailed \<longrightarrow>
       (\<exists>q'. book c (s_store s') pid = Some q' \<and> same_body q q' \<and> p_status q' \<in> {SettleFailed, Penalized}))"
proof (intro conjI impI)
  assume f: "p_status q \<in> {Settled, Penalized}"
  have "l_book (life_of c (s_store s')) pid = Some q"
    by (rule run_keeps [OF assms(3,1,2), where K = "\<lambda>a. l_book a pid = Some q"])
      (use lifecycle_final f assms(4) in auto)
  then show "book c (s_store s') pid = Some q" by simp
next
  assume f: "p_status q = SettleFailed"
  let ?K = "\<lambda>a. \<exists>q'. l_book a pid = Some q' \<and> same_body q q' \<and> p_status q' \<in> {SettleFailed, Penalized}"
  have "?K a'" if "lifecycle a a'" "life_ok a" "?K a" for a a'
  proof -
    from that(3) obtain q1 where "l_book a pid = Some q1" "same_body q q1" "p_status q1 \<in> {SettleFailed, Penalized}"
      by blast
    with lifecycle_status [OF that(1,2), of pid q1] show ?thesis
      by (auto simp: dropped_statuses_def intro: same_body_trans split: option.splits)
  qed
  then have "?K (life_of c (s_store s'))"
    by (rule run_keeps [OF assms(3,1,2)]) (use f assms(4) in auto)
  then show "\<exists>q'. book c (s_store s') pid = Some q' \<and> same_body q q' \<and> p_status q' \<in> {SettleFailed, Penalized}"
    by simp
qed

theorem money_states_are_final_witness:
  "book std_codec (s_store settled_sys) (ProposalId 1) = Some settled_sample"
  using money_states_are_final [OF codec_ok_std settled_ok rtranclp.rtrancl_refl, of "ProposalId 1" settled_sample]
  by (simp add: settled_stored settled_sample_def)

text \<open>Money states cite their transactions: in every state the service can reach (from the empty
  database, \<open>starts_ok\<close>, or from any state in order) a \<open>Settled\<close>, \<open>SettleFailed\<close> or \<open>Penalized\<close>
  proposal carries the settlement transaction the driver reported, and a \<open>Penalized\<close> one the debit
  transaction as well.\<close>

theorem money_states_cite_transactions:
  assumes "codec_ok c" and "sys_ok c s0" and "(service_step c)\<^sup>*\<^sup>* s0 s" and "book c (s_store s) pid = Some q"
  shows "(p_status q \<in> {Settled, SettleFailed, Penalized} \<longrightarrow> p_settlement_tx_hash q \<noteq> None) \<and>
    (p_status q = Penalized \<longrightarrow> p_penalty_tx_hash q \<noteq> None)"
proof -
  have "sys_ok c s" using runs_life [OF assms(3,1,2)] by simp
  then show ?thesis
    using life_ok_D(3) [of "life_of c (s_store s)" pid q] assms(4) by (simp add: sys_ok_def cites_def)
qed

theorem money_states_cite_transactions_witness: "p_settlement_tx_hash settled_sample = Some 77"
  using money_states_cite_transactions [OF codec_ok_std settled_ok rtranclp.rtrancl_refl, of "ProposalId 1" settled_sample]
  by (simp add: settled_stored settled_sample_def)

text \<open>Identifiers are never reused: once the sequence has passed an identifier that names no stored
  proposal (swept, say), no later state stores anything under it, so a held identifier or a trail entry
  can never come to mean another proposal.\<close>

theorem identifiers_never_reused:
  assumes "codec_ok c" and "sys_ok c s" and "(service_step c)\<^sup>*\<^sup>* s s'"
    and "book c (s_store s) pid = None" and "uint (pid_raw pid) < d_next_proposal (st_db (s_store s))"
  shows "book c (s_store s') pid = None"
proof -
  let ?K = "\<lambda>a. l_book a pid = None \<and> uint (pid_raw pid) < l_next a"
  have "?K (life_of c (s_store s'))"
    by (rule run_keeps [OF assms(3,1,2)]) (use lifecycle_fresh assms(4,5) in auto)
  then show ?thesis by simp
qed

theorem identifiers_never_reused_witness: "book std_codec (s_store settled_sys) (ProposalId 0) = None"
  using identifiers_never_reused [OF codec_ok_std settled_ok rtranclp.rtrancl_refl, of "ProposalId 0"]
  by (simp add: settled_stored settled_next)

lemma life_ok_run: "lifecycle\<^sup>*\<^sup>* a a' \<Longrightarrow> life_ok a \<Longrightarrow> life_ok a'"
  by (induction rule: rtranclp_induct) (auto intro: life_ok_step)

text \<open>C40. What a truthful connection buys. Suppose the reply to the compare-and-swap of \<open>transition\<close> is
  lost after the database applied it, for any stored proposal, any new status and any error the client sees.
  Then the caller gets that error, the proposal has moved, and nothing is recorded: the trail still
  replays to the old status, and no sequence of steps of the specification explains the new table. Nor is
  it made up for: once the connection is back every repetition of the transition fails, because the status
  is no longer the one it expects, and changes neither table nor trail.\<close>

theorem lost_reply_moves_without_evidence:
  assumes "codec_ok c" and "sys_ok c s" and "book c (s_store s) (p_id p) = Some p" and "to \<noteq> p_status p"
    and "transition clk p to ((s_store s)\<lparr>st_faults := [Some (Unacknowledged e)]\<rparr>) = (r, st')"
  shows "r = Inl (Database e) \<and>
    book c st' = (book c (s_store s))(p_id p \<mapsto> p\<lparr>p_status := to\<rparr>) \<and>
    st_audit st' = st_audit (s_store s) \<and>
    replay (p_id p) (map ae_kind (st_audit st')) = Some (p_status p) \<and>
    \<not> lifecycle\<^sup>*\<^sup>* (life_of c (s_store s)) (life_of c st') \<and>
    (\<forall>clk' r' st''. transition clk' p to st' = (r', st'') \<longrightarrow> r' \<noteq> Inr () \<and> same_state st' st'')"
proof -
  let ?st = "s_store s" and ?from = "p_status p"
  let ?P = "\<lambda>i r. r_id r = i \<and> r_status r = status_text ?from"
  let ?f = "\<lambda>r. r\<lparr>r_status := status_text to, r_status_changed_at := db_now clk\<rparr>"
  have gd: "good c ?st" and life: "life_ok (life_of c ?st)" using assms(2) by (simp_all add: sys_ok_def)
  then have db: "db_ok c (st_db ?st)" by (simp add: good_def)
  obtain i where i: "i64_of_u64 (pid_raw (p_id p)) = Some i"
    using assms(3) book_no_id [of "p_id p" c ?st] by (cases "i64_of_u64 (pid_raw (p_id p))") simp_all
  obtain n d where u: "update_rows (?P i) ?f (st_db ?st) = (n, d)" by (cases "update_rows (?P i) ?f (st_db ?st)")
  have d: "proposal_at c d = (proposal_at c (st_db ?st))(p_id p \<mapsto> with_status to p)"
    using status_update.update_cas [OF assms(1) db i, of ?from "db_now clk" to] assms(3) u by (simp add: book_def)
  have ok: "db_ok c d"
    using status_update.update_keeps_db [OF assms(1) db, of "?P i" "db_now clk" to] u by simp
  have run: "r = Inl (Database e)" "st' = ?st\<lparr>st_faults := [], st_db := d\<rparr>"
    using assms(5) i u by (simp_all add: transition_def Let_def act_def lift_def as_db_id_def stmt_def next_fault_def)
  have book: "book c st' = (book c ?st)(p_id p \<mapsto> p\<lparr>p_status := to\<rparr>)" using run(2) d by (simp add: book_def with_status_def)
  have audit: "st_audit st' = st_audit ?st" using run(2) by simp
  have replay: "replay (p_id p) (map ae_kind (st_audit st')) = Some ?from"
    using life_ok_D(4) [OF life, of "p_id p" p] assms(3) audit by simp
  have "\<not> life_ok (life_of c st')"
    using life_ok_D(4) [of "life_of c st'" "p_id p" "p\<lparr>p_status := to\<rparr>"] book replay assms(4) by auto
  then have stuck: "\<not> lifecycle\<^sup>*\<^sup>* (life_of c ?st) (life_of c st')"
    using life life_ok_run by blast
  have "good c st'" using gd run(2) ok by (simp add: good_def reliable_def)
  have again: "r' \<noteq> Inr () \<and> same_state st' st''" if "transition clk' p to st' = (r', st'')" for clk' r' st''
    using wpD [OF wp_transition [OF \<open>good c st'\<close> assms(1)] that] book assms(4)
    by (cases r') (auto simp: moved_def)
  show ?thesis using run(1) book audit replay stuck again by blast
qed

theorem lost_reply_moves_without_evidence_witness:
  "case transition sample_clock sample_proposal Expired
      ((s_store second_sys)\<lparr>st_faults := [Some (Unacknowledged Connection)]\<rparr>) of (r, st') \<Rightarrow>
    r = Inl (Database Connection) \<and> should_retry (Database Connection) \<and>
    book std_codec st' (ProposalId 1) = Some (sample_proposal\<lparr>p_status := Expired\<rparr>) \<and>
    replay (ProposalId 1) (map ae_kind (st_audit st')) = Some Submitted"
proof (cases "transition sample_clock sample_proposal Expired
      ((s_store second_sys)\<lparr>st_faults := [Some (Unacknowledged Connection)]\<rparr>)")
  case (Pair r st')
  have p: "p_id sample_proposal = ProposalId 1" "p_status sample_proposal = Submitted" by (simp_all add: sample_proposal_def)
  have "book std_codec (s_store second_sys) (p_id sample_proposal) = Some sample_proposal"
    unfolding p(1) by (rule second_stored)
  note lost = lost_reply_moves_without_evidence [OF codec_ok_std second_ok this _ Pair, unfolded p]
  from lost [THEN conjunct1] lost [THEN conjunct2, THEN conjunct1] lost [THEN conjunct2, THEN conjunct2, THEN conjunct2, THEN conjunct1]
  show ?thesis unfolding Pair by simp
qed

end
