(* ===== verification/Well_Formed.thy ===== *)
theory Well_Formed
  imports Lifecycle_Properties
begin

text \<open>
  The typing of the tables: in every state the service can reach, whatever failed on the way, the rows
  of \<open>proposals\<close>, \<open>solutions\<close> and \<open>penalties\<close> are well-formed, so the decoding errors that the row codec of
  \<open>infra/storage.rs\<close> guards against never occur.
\<close>

definition corrupt_error :: "store_error + 'a \<Rightarrow> bool" where
  "corrupt_error r \<longleftrightarrow> (case r of Inl (CorruptRow t col) \<Rightarrow> True | _ \<Rightarrow> False)"

lemma read_not_corrupt:
  assumes "wp m (read_result c st K) st"
  shows "\<not> corrupt_error (fst (m st))"
proof -
  obtain r st' where "m st = (r, st')" by (cases "m st")
  moreover from this have "read_result c st K r st'" using assms by (rule wpD [rotated])
  ultimately show ?thesis by (auto simp: read_result_def corrupt_error_def split: sum.splits)
qed

lemma pending_not_corrupt:
  assumes "good c st"
  shows "\<not> corrupt_error (fst (pending_penalties c st))"
proof -
  obtain r st' where run: "pending_penalties c st = (r, st')" by (cases "pending_penalties c st")
  show ?thesis using wpD [OF wp_pending_penalties [OF assms] run] run
    by (auto simp: corrupt_error_def split: sum.splits)
qed

text \<open>C26. The tables are typed. In every reachable state every proposal row decodes, and re-encodes to
  itself; identifiers and solution keys are unique; every solution refers to a stored proposal; every
  queued charge decodes. So no read of the store ever answers \<open>CorruptRow\<close> and none silently skips a row.\<close>

theorem tables_decode_in_every_run:
  assumes "codec_ok c" and "starts s0" and "(service_step c)\<^sup>*\<^sup>* s0 s"
  shows "(let d = st_db (s_store s) in
      distinct (map r_id (d_proposals d)) \<and>
      list_all (\<lambda>r. case proposal_of_row c r of
          Inl e \<Rightarrow> False
        | Inr p \<Rightarrow> id_of_db (r_id r) = Some (p_id p) \<and> row_of c (r_id r) (r_status_changed_at r) p = Some r) (d_proposals d) \<and>
      distinct (map (\<lambda>s. (sr_auction_id s, sr_solution_id s)) (d_solutions d)) \<and>
      sr_proposal_id ` set (d_solutions d) \<subseteq> r_id ` set (d_proposals d) \<and>
      list_all (\<lambda>q. case penalty_of_row c q of Inl e \<Rightarrow> False | Inr pp \<Rightarrow> pp_id pp = pr_id q) (d_penalties d)) \<and>
    \<not> corrupt_error (fst (get_proposal c pid (s_store s))) \<and>
    \<not> corrupt_error (fst (list_by_sub_solver c owner (s_store s))) \<and>
    \<not> corrupt_error (fst (list_by_order_uid_for_owner c uid owner (s_store s))) \<and>
    \<not> corrupt_error (fst (active_by_order_uids c uids (s_store s))) \<and>
    \<not> corrupt_error (fst (snapshot_by_statuses c sts (s_store s))) \<and>
    \<not> corrupt_error (fst (solution_proposals c a sids (s_store s))) \<and>
    \<not> corrupt_error (fst (pending_penalties c (s_store s)))"
proof -
  have gd: "good c (s_store s)" using runs_ok [OF assms] by (simp add: sys_ok_def)
  then have ok: "db_ok c (st_db (s_store s))" by (simp add: good_def)
  have rows: "case proposal_of_row c r of
          Inl e \<Rightarrow> False
        | Inr p \<Rightarrow> id_of_db (r_id r) = Some (p_id p) \<and> row_of c (r_id r) (r_status_changed_at r) p = Some r"
    if "r \<in> set (d_proposals (st_db (s_store s)))" for r
  proof -
    have r: "row_ok c r" using ok that by (simp add: db_ok_def)
    then obtain p where p: "proposal_of_row c r = Inr p" "i64_of_u64 (pid_raw (p_id p)) = Some (r_id r)"
      by (rule row_ok_E)
    then have "id_of_db (r_id r) = Some (p_id p)" by (simp add: id_of_db_def u64_of_i64_of_u64)
    with r p show ?thesis by (simp add: row_ok_def)
  qed
  have charges: "case penalty_of_row c q of Inl e \<Rightarrow> False | Inr pp \<Rightarrow> pp_id pp = pr_id q"
    if "q \<in> set (d_penalties (st_db (s_store s)))" for q
  proof -
    have "penalty_row_ok c q" using ok that by (simp add: db_ok_def)
    then show ?thesis
      by (auto simp: penalty_row_ok_def penalty_of_row_def id_of_db_def u64_of_i64_def and_then_def ok_or_def
          split: option.splits sum.splits)
  qed
  have tables: "let d = st_db (s_store s) in
      distinct (map r_id (d_proposals d)) \<and>
      list_all (\<lambda>r. case proposal_of_row c r of
          Inl e \<Rightarrow> False
        | Inr p \<Rightarrow> id_of_db (r_id r) = Some (p_id p) \<and> row_of c (r_id r) (r_status_changed_at r) p = Some r) (d_proposals d) \<and>
      distinct (map (\<lambda>s. (sr_auction_id s, sr_solution_id s)) (d_solutions d)) \<and>
      sr_proposal_id ` set (d_solutions d) \<subseteq> r_id ` set (d_proposals d) \<and>
      list_all (\<lambda>q. case penalty_of_row c q of Inl e \<Rightarrow> False | Inr pp \<Rightarrow> pp_id pp = pr_id q) (d_penalties d)"
    unfolding Let_def list_all_iff using rows charges ok by (intro conjI ballI) (auto simp: db_ok_def)
  show ?thesis
    using tables pending_not_corrupt [OF gd] read_not_corrupt [OF wp_get_proposal [OF gd]]
      read_not_corrupt [OF wp_list_by_sub_solver [OF gd assms(1)]]
      read_not_corrupt [OF wp_list_by_order_uid_for_owner [OF gd assms(1)]]
      read_not_corrupt [OF wp_active_by_order_uids [OF gd assms(1)]]
      read_not_corrupt [OF wp_snapshot_by_statuses [OF gd]] read_not_corrupt [OF wp_solution_proposals [OF gd]]
    by (intro conjI) simp_all
qed

theorem tables_decode_in_every_run_witness:
  "list_all (\<lambda>r. case proposal_of_row std_codec r of
       Inl e \<Rightarrow> False
     | Inr p \<Rightarrow> id_of_db (r_id r) = Some (p_id p) \<and> row_of std_codec (r_id r) (r_status_changed_at r) p = Some r)
     (d_proposals (st_db (s_store second_sys))) \<and>
   \<not> corrupt_error (fst (get_proposal std_codec (ProposalId 1) (s_store second_sys)))"
  using tables_decode_in_every_run [OF codec_ok_std first_starts first_run, where pid = "ProposalId 1" and owner = 17
      and uid = "OrderUid []" and uids = "[]" and sts = "[]" and a = 1 and sids = "[]"]
  unfolding Let_def by (elim conjE) (intro conjI)

end
