(* ===== verification/Routing.thy ===== *)
theory Routing
  imports Types
begin

text \<open>
  The reference sub-solver's routing mathematics (\<open>crates/subsolver/src/domain/routing.rs\<close>): the
  constant-product quotes of a Uniswap V2 pool with its 0.3\% fee, and the address of a pair. \<open>keccak\<close>
  and the CREATE2 derivation are parameters.
\<close>

definition FEE_NUMERATOR :: u64 where "FEE_NUMERATOR = 997"

definition FEE_DENOMINATOR :: u64 where "FEE_DENOMINATOR = 1000"

definition amount_out :: "u256 \<Rightarrow> u256 \<Rightarrow> u256 \<Rightarrow> u256 option" where
  "amount_out amount_in reserve_in reserve_out =
     (if reserve_in = 0 \<or> reserve_out = 0 then None
      else
        Option.bind (checked_mul amount_in (u256_of FEE_NUMERATOR)) (\<lambda>amount_in_with_fee.
        Option.bind (checked_mul amount_in_with_fee reserve_out) (\<lambda>numerator.
        Option.bind (Option.bind (checked_mul reserve_in (u256_of FEE_DENOMINATOR))
            (\<lambda>scaled. checked_add scaled amount_in_with_fee)) (\<lambda>denominator.
          Some (numerator div denominator)))))"

text \<open>The subtraction is guarded by the test before it; a zero denominator is excluded with it.\<close>

definition amount_in :: "u256 \<Rightarrow> u256 \<Rightarrow> u256 \<Rightarrow> u256 option" where
  "amount_in out reserve_in reserve_out =
     (if reserve_in = 0 \<or> reserve_out \<le> out then None
      else
        Option.bind (Option.bind (checked_mul reserve_in out)
            (\<lambda>prod. checked_mul prod (u256_of FEE_DENOMINATOR))) (\<lambda>numerator.
        Option.bind (checked_mul (reserve_out - out) (u256_of FEE_NUMERATOR)) (\<lambda>denominator.
          checked_add (numerator div denominator) 1)))"

definition pair_address ::
  "(bytes \<Rightarrow> b256) \<Rightarrow> (address \<Rightarrow> b256 \<Rightarrow> b256 \<Rightarrow> address) \<Rightarrow> (address \<Rightarrow> bytes)
    \<Rightarrow> address \<Rightarrow> b256 \<Rightarrow> address \<Rightarrow> address \<Rightarrow> address" where
  "pair_address keccak create2 as_slice factory init_code_hash token_a token_b =
     (let (token0, token1) = (if token_a < token_b then (token_a, token_b) else (token_b, token_a));
          salt = keccak (as_slice token0 @ as_slice token1)
      in create2 factory salt init_code_hash)"

subsection \<open>The quotes over the natural numbers\<close>

text \<open>What the pair checks: the product of its balances, the input net of the fee, does not shrink.\<close>

definition pool_accepts :: "nat \<Rightarrow> nat \<Rightarrow> nat \<Rightarrow> nat \<Rightarrow> bool" where
  "pool_accepts r s x y \<longleftrightarrow> y < s \<and> 1000 * r * s \<le> (1000 * r + 997 * x) * (s - y)"

lemma amount_out_cases:
  "case amount_out x r s of
     None \<Rightarrow> unat r = 0 \<or> unat s = 0 \<or> 2 ^ 256 \<le> unat x * 997 * unat s \<or> 2 ^ 256 \<le> unat r * 1000 + unat x * 997
   | Some y \<Rightarrow> 0 < unat r \<and> 0 < unat s \<and> unat y = (unat x * 997 * unat s) div (unat r * 1000 + unat x * 997)"
proof (cases "r = 0 \<or> s = 0")
  case True
  then show ?thesis by (auto simp: amount_out_def)
next
  case False
  then have pos: "0 < unat s" "0 < unat r" by (simp_all add: unat_gt_0)
  then have le: "unat x * 997 \<le> unat x * 997 * unat s" by simp
  have fees: "unat (u256_of FEE_NUMERATOR) = 997" "unat (u256_of FEE_DENOMINATOR) = 1000"
    by (simp_all add: FEE_NUMERATOR_def FEE_DENOMINATOR_def arith_facts)
  show ?thesis
  proof (cases "checked_mul x (u256_of FEE_NUMERATOR)")
    case None
    then have "2 ^ 256 \<le> unat x * 997" by (simp add: checked_mul_None_iff fees)
    from this le have "2 ^ 256 \<le> unat x * 997 * unat s" by (rule order_trans)
    with None show ?thesis by (simp add: amount_out_def)
  next
    case f: (Some f)
    then have uf: "unat f = unat x * 997" by (simp add: checked_mul_Some_iff fees)
    show ?thesis
    proof (cases "checked_mul f s")
      case None
      then have "2 ^ 256 \<le> unat x * 997 * unat s" by (simp add: checked_mul_None_iff uf)
      with None f show ?thesis by (simp add: amount_out_def)
    next
      case n: (Some n)
      then have un: "unat n = unat x * 997 * unat s" by (simp add: checked_mul_Some_iff uf)
      show ?thesis
      proof (cases "checked_mul r (u256_of FEE_DENOMINATOR)")
        case None
        then have "2 ^ 256 \<le> unat r * 1000" by (simp add: checked_mul_None_iff fees)
        with None f n False show ?thesis by (simp add: amount_out_def)
      next
        case d: (Some d)
        then have ud: "unat d = unat r * 1000" by (simp add: checked_mul_Some_iff fees)
        show ?thesis
        proof (cases "checked_add d f")
          case None
          then have "2 ^ 256 \<le> unat r * 1000 + unat x * 997" by (simp add: checked_add_None_iff ud uf)
          with None f n d show ?thesis by (simp add: amount_out_def)
        next
          case (Some t)
          then have "unat t = unat r * 1000 + unat x * 997" by (simp add: checked_add_Some_iff ud uf)
          with Some f n d False pos un show ?thesis by (simp add: amount_out_def unat_div)
        qed
      qed
    qed
  qed
qed

lemma amount_in_cases:
  "case amount_in y r s of
     None \<Rightarrow> unat r = 0 \<or> unat s \<le> unat y \<or> 2 ^ 256 \<le> unat r * unat y * 1000 \<or> 2 ^ 256 \<le> (unat s - unat y) * 997 \<or>
       2 ^ 256 \<le> (unat r * unat y * 1000) div ((unat s - unat y) * 997) + 1
   | Some x \<Rightarrow> 0 < unat r \<and> unat y < unat s \<and> unat x = (unat r * unat y * 1000) div ((unat s - unat y) * 997) + 1"
proof (cases "s \<le> y \<or> r = 0")
  case True
  then show ?thesis by (auto simp: amount_in_def word_le_nat_alt)
next
  case False
  then have "unat (s - y) = unat s - unat y" by (intro unat_sub) (simp add: not_le less_imp_le)
  note sub = this
  have pos: "0 < unat r" "unat y < unat s" using False by (simp_all add: unat_gt_0 word_le_nat_alt)
  have fees: "unat (u256_of FEE_NUMERATOR) = 997" "unat (u256_of FEE_DENOMINATOR) = 1000"
    by (simp_all add: FEE_NUMERATOR_def FEE_DENOMINATOR_def arith_facts)
  show ?thesis
  proof (cases "checked_mul r y")
    case None
    then have "2 ^ 256 \<le> unat r * unat y" by (simp add: checked_mul_None_iff)
    then have "2 ^ 256 \<le> unat r * unat y * 1000" by linarith
    with None show ?thesis by (simp add: amount_in_def)
  next
    case f: (Some f)
    then have uf: "unat f = unat r * unat y" by (simp add: checked_mul_Some_iff)
    show ?thesis
    proof (cases "checked_mul f (u256_of FEE_DENOMINATOR)")
      case None
      then have "2 ^ 256 \<le> unat r * unat y * 1000" by (simp add: checked_mul_None_iff fees uf)
      with f None show ?thesis by (simp add: amount_in_def)
    next
      case n: (Some n)
      then have un: "unat n = unat r * unat y * 1000" by (simp add: checked_mul_Some_iff uf fees)
      show ?thesis
      proof (cases "checked_mul (s - y) (u256_of FEE_NUMERATOR)")
        case None
        then have "2 ^ 256 \<le> (unat s - unat y) * 997" by (simp add: checked_mul_None_iff fees sub)
        with None f n show ?thesis by (simp add: amount_in_def)
      next
        case d: (Some d)
        then have ud: "unat d = (unat s - unat y) * 997" by (simp add: checked_mul_Some_iff fees sub)
        have q: "unat (n div d) = (unat r * unat y * 1000) div ((unat s - unat y) * 997)" by (simp add: unat_div un ud)
        show ?thesis
        proof (cases "checked_add (n div d) 1")
          case None
          then have "2 ^ 256 \<le> (unat r * unat y * 1000) div ((unat s - unat y) * 997) + 1" by (simp add: checked_add_None_iff q)
          with None f n d show ?thesis by (simp add: amount_in_def)
        next
          case (Some x)
          then have "unat x = (unat r * unat y * 1000) div ((unat s - unat y) * 997) + 1" by (simp add: checked_add_Some_iff q)
          with Some f n d False pos show ?thesis by (simp add: amount_in_def)
        qed
      qed
    qed
  qed
qed

lemma accepts_out_iff:
  assumes "0 < r" and "0 < s"
  shows "pool_accepts r s x y \<longleftrightarrow> y \<le> (x * 997 * s) div (r * 1000 + x * 997)"
proof -
  let ?D = "1000 * r + 997 * x"
  have D: "0 < ?D" using assms by simp
  have "y \<le> (x * 997 * s) div (r * 1000 + x * 997) \<longleftrightarrow> y * ?D \<le> 997 * x * s"
    using D by (simp add: less_eq_div_iff_mult_less_eq ac_simps)
  also have "\<dots> \<longleftrightarrow> y < s \<and> 1000 * r * s \<le> ?D * (s - y)"
  proof (cases "y < s")
    case True
    then obtain d where "s = y + d" by (metis less_imp_add_positive)
    then show ?thesis using True by (simp add: algebra_simps)
  next
    case False
    then have "s * ?D \<le> y * ?D" by simp
    moreover have "997 * x * s < s * ?D" using assms by (simp add: algebra_simps)
    ultimately show ?thesis using False by linarith
  qed
  finally show ?thesis by (simp add: pool_accepts_def)
qed

lemma accepts_in_iff:
  assumes "y < s"
  shows "pool_accepts r s x y \<longleftrightarrow> r * y * 1000 \<le> x * ((s - y) * 997)"
proof -
  obtain d where "s = y + d" using assms by (metis less_imp_add_positive)
  then show ?thesis using assms by (simp add: pool_accepts_def algebra_simps)
qed

text \<open>C38. The quotes are exact. When \<open>amount_out\<close> answers, a pool with these reserves accepts an output
  for the input exactly up to the quote; when \<open>amount_in\<close> answers, the pool accepts the quoted input and
  every larger one for the output, and the quote exceeds the least accepted input by at most one atom;
  they refuse only an empty pool, an output the reserve cannot give, or an overflow.\<close>

theorem quotes_are_exact:
  "(case amount_out x r s of
      None \<Rightarrow> r = 0 \<or> s = 0 \<or> 2 ^ 256 \<le> unat x * 997 * unat s \<or> 2 ^ 256 \<le> unat r * 1000 + unat x * 997
    | Some y \<Rightarrow> {y'. pool_accepts (unat r) (unat s) (unat x) y'} = {..unat y}) \<and>
   (case amount_in y r s of
      None \<Rightarrow> r = 0 \<or> s \<le> y \<or> 2 ^ 256 \<le> unat r * unat y * 1000 \<or> 2 ^ 256 \<le> (unat s - unat y) * 997 \<or>
        2 ^ 256 \<le> (unat r * unat y * 1000) div ((unat s - unat y) * 997) + 1
    | Some x' \<Rightarrow> {unat x'..} \<subseteq> {x. pool_accepts (unat r) (unat s) x (unat y)} \<and>
        {x. pool_accepts (unat r) (unat s) x (unat y)} \<subseteq> {unat x' - 1..})"
proof (intro conjI)
  show "case amount_out x r s of
      None \<Rightarrow> r = 0 \<or> s = 0 \<or> 2 ^ 256 \<le> unat x * 997 * unat s \<or> 2 ^ 256 \<le> unat r * 1000 + unat x * 997
    | Some y \<Rightarrow> {y'. pool_accepts (unat r) (unat s) (unat x) y'} = {..unat y}"
    using amount_out_cases [where x = x and r = r and s = s] accepts_out_iff [of "unat r" "unat s" "unat x"]
    by (cases "amount_out x r s") (auto simp: unat_eq_zero)
next
  show "case amount_in y r s of
      None \<Rightarrow> r = 0 \<or> s \<le> y \<or> 2 ^ 256 \<le> unat r * unat y * 1000 \<or> 2 ^ 256 \<le> (unat s - unat y) * 997 \<or>
        2 ^ 256 \<le> (unat r * unat y * 1000) div ((unat s - unat y) * 997) + 1
    | Some x' \<Rightarrow> {unat x'..} \<subseteq> {x. pool_accepts (unat r) (unat s) x (unat y)} \<and>
        {x. pool_accepts (unat r) (unat s) x (unat y)} \<subseteq> {unat x' - 1..}"
  proof (cases "amount_in y r s")
    case None
    with amount_in_cases [where y = y and r = r and s = s] show ?thesis by (simp add: unat_eq_zero word_le_nat_alt)
  next
    case (Some x')
    let ?D = "(unat s - unat y) * 997" and ?N = "unat r * unat y * 1000"
    have lt: "unat y < unat s" and x': "unat x' = ?N div ?D + 1" using Some amount_in_cases [where y = y and r = r and s = s] by simp_all
    have D: "0 < ?D" using lt by simp
    have enough: "?N \<le> x * ?D" if "unat x' \<le> x" for x
    proof -
      have "?N < Suc (?N div ?D) * ?D" using D by (simp add: dividend_less_div_times)
      also have "\<dots> \<le> x * ?D" using that x' by (intro mult_right_mono) simp_all
      finally show ?thesis by simp
    qed
    have least: "?N div ?D \<le> x" if "?N \<le> x * ?D" for x
      using that D by (metis div_le_mono nonzero_mult_div_cancel_right not_less_zero)
    show ?thesis using Some enough least x' by (auto simp: accepts_in_iff [OF lt])
  qed
qed

end
