(* ===== verification/Signing.thy ===== *)
theory Signing
  imports Types
begin

text \<open>
  Typed-data signatures (\<open>byos-common/src/eip712.rs\<close>): the domain, the three messages a sub-solver
  signs, and the recovery of a signer from each. \<open>keccak256\<close>, the ABI encoding of interactions, the
  EIP-712 digest and public-key recovery are third-party (alloy) and make up the parameter \<open>crypto\<close>; a
  signer is the parameter \<open>signer\<close>, whose documented contract is \<open>signs_as\<close>.
\<close>

subsection \<open>Third-party cryptography\<close>

record eip712_domain =
  dom_name :: string
  dom_version :: string
  dom_chain_id :: u256
  dom_verifying_contract :: address

record signature =
  sig_r :: u256
  sig_s :: u256
  sig_y_parity :: bool

record proposal_data =
  pd_orderUidHash :: b256
  pd_sellAmount :: u256
  pd_buyAmount :: u256
  pd_interactionsHash :: b256
  pd_validUntil :: u256
  pd_nonce :: u256

datatype typed_message = ProposalMessage proposal_data | CancelMessage u256 | ReadAuthMessage u256

record crypto =
  keccak256 :: "bytes \<Rightarrow> b256"
  abi_interactions :: "interaction list \<Rightarrow> bytes"
  signing_hash :: "typed_message \<Rightarrow> eip712_domain \<Rightarrow> b256"
  recover_from_prehash :: "signature \<Rightarrow> b256 \<Rightarrow> address option"
  signature_of_bytes :: "bytes \<Rightarrow> signature option"

record signer =
  sg_address :: address
  sg_sign_hash :: "b256 \<Rightarrow> signature option"

definition signs_as :: "crypto \<Rightarrow> signer \<Rightarrow> bool" where
  "signs_as k s \<longleftrightarrow> (\<forall>h sig. sg_sign_hash s h = Some sig \<longrightarrow> recover_from_prehash k sig h = Some (sg_address s))"

subsection \<open>Messages\<close>

definition DOMAIN_NAME :: string where "DOMAIN_NAME = ''BYOS''"

definition DOMAIN_VERSION :: string where "DOMAIN_VERSION = ''0.1''"

definition byos_domain :: "u64 \<Rightarrow> address \<Rightarrow> eip712_domain" where
  "byos_domain chain_id verifying_contract =
     \<lparr>dom_name = DOMAIN_NAME, dom_version = DOMAIN_VERSION, dom_chain_id = u256_of chain_id,
      dom_verifying_contract = verifying_contract\<rparr>"

definition compute_interactions_hash :: "crypto \<Rightarrow> interaction list \<Rightarrow> b256" where
  "compute_interactions_hash k interactions = keccak256 k (abi_interactions k interactions)"

definition proposal_data_of :: "onchain_proposal \<Rightarrow> b256 \<Rightarrow> proposal_data" where
  "proposal_data_of oc interactions_hash =
     \<lparr>pd_orderUidHash = oc_orderUidHash oc, pd_sellAmount = oc_sellAmount oc,
      pd_buyAmount = oc_buyAmount oc, pd_interactionsHash = interactions_hash,
      pd_validUntil = oc_validUntil oc, pd_nonce = oc_nonce oc\<rparr>"

definition READ_AUTH_VERSION :: u64 where "READ_AUTH_VERSION = 1"

subsection \<open>Signing and recovering\<close>

definition sign_proposal ::
  "crypto \<Rightarrow> signer \<Rightarrow> eip712_domain \<Rightarrow> onchain_proposal \<Rightarrow> interaction list \<Rightarrow> signature option" where
  "sign_proposal k s domain oc interactions =
     (let interactions_hash = compute_interactions_hash k interactions;
          data = proposal_data_of oc interactions_hash;
          hash = signing_hash k (ProposalMessage data) domain
      in sg_sign_hash s hash)"

definition recover_proposer ::
  "crypto \<Rightarrow> signature \<Rightarrow> eip712_domain \<Rightarrow> onchain_proposal \<Rightarrow> b256 \<Rightarrow> address option" where
  "recover_proposer k sig domain oc interactions_hash =
     (let data = proposal_data_of oc interactions_hash;
          hash = signing_hash k (ProposalMessage data) domain
      in recover_from_prehash k sig hash)"

definition sign_cancellation :: "crypto \<Rightarrow> signer \<Rightarrow> eip712_domain \<Rightarrow> u256 \<Rightarrow> signature option" where
  "sign_cancellation k s domain i = sg_sign_hash s (signing_hash k (CancelMessage i) domain)"

definition recover_canceller :: "crypto \<Rightarrow> signature \<Rightarrow> eip712_domain \<Rightarrow> u256 \<Rightarrow> address option" where
  "recover_canceller k sig domain i = recover_from_prehash k sig (signing_hash k (CancelMessage i) domain)"

definition sign_read_auth :: "crypto \<Rightarrow> signer \<Rightarrow> eip712_domain \<Rightarrow> signature option" where
  "sign_read_auth k s domain = sg_sign_hash s (signing_hash k (ReadAuthMessage (u256_of READ_AUTH_VERSION)) domain)"

definition recover_reader :: "crypto \<Rightarrow> signature \<Rightarrow> eip712_domain \<Rightarrow> address option" where
  "recover_reader k sig domain =
     recover_from_prehash k sig (signing_hash k (ReadAuthMessage (u256_of READ_AUTH_VERSION)) domain)"

text \<open>Each message recovers to its signer.\<close>

lemma recover_signed:
  assumes "signs_as k s"
  shows "sign_proposal k s domain oc ints = Some sig \<Longrightarrow>
      recover_proposer k sig domain oc (compute_interactions_hash k ints) = Some (sg_address s)"
    and "sign_cancellation k s domain i = Some sig \<Longrightarrow> recover_canceller k sig domain i = Some (sg_address s)"
    and "sign_read_auth k s domain = Some sig \<Longrightarrow> recover_reader k sig domain = Some (sg_address s)"
  using assms
  by (simp_all add: signs_as_def sign_proposal_def recover_proposer_def sign_cancellation_def
      recover_canceller_def sign_read_auth_def recover_reader_def Let_def)

subsection \<open>A concrete instance\<close>

text \<open>Toy cryptography under which the contract holds: a signature carries its signer's address in
  \<open>sig_r\<close>, and is one byte long on the wire.\<close>

definition toy_crypto :: crypto where
  "toy_crypto =
     \<lparr>keccak256 = (\<lambda>b. word_of_nat (length b)), abi_interactions = (\<lambda>is. concat (map i_callData is)),
      signing_hash = (\<lambda>m domain. case m of ProposalMessage d \<Rightarrow> pd_nonce d | CancelMessage i \<Rightarrow> i | ReadAuthMessage v \<Rightarrow> v),
      recover_from_prehash = (\<lambda>sig h. if sig_y_parity sig then Some (ucast (sig_r sig)) else None),
      signature_of_bytes = (\<lambda>b. case b of [x] \<Rightarrow> Some \<lparr>sig_r = ucast x, sig_s = 0, sig_y_parity = True\<rparr> | _ \<Rightarrow> None)\<rparr>"

definition toy_signer :: "byte \<Rightarrow> signer" where
  "toy_signer x = \<lparr>sg_address = ucast x, sg_sign_hash = (\<lambda>h. Some \<lparr>sig_r = ucast x, sig_s = 0, sig_y_parity = True\<rparr>)\<rparr>"

lemma toy_signs: "signs_as toy_crypto (toy_signer x)"
proof -
  have "(ucast (ucast x :: u256) :: address) = ucast x"
    by (rule bit_word_eqI) (auto simp: bit_unsigned_iff)
  then show ?thesis by (simp add: signs_as_def toy_crypto_def toy_signer_def)
qed

end
