(* ===== verification/Api.thy ===== *)
theory Api
  imports Signing Store_Properties
begin

text \<open>
  The public API (\<open>infra/api/routes.rs\<close>, \<open>error.rs\<close>, \<open>dto.rs\<close>, the wire types of \<open>proposal-dto\<close>) and
  the bearer gate of the internal listener (\<open>infra/api/mod.rs\<close>). A handler takes the parts of the
  request it reads and the store, and returns its \<open>Result\<close> with the store it leaves; \<open>None\<close> is a panic.
  Descriptions that quote a third-party parser end where its message would start. The HTTP framework
  and the JSON layer are not modelled: bodies, paths and headers arrive as their extracted values.
\<close>

subsection \<open>Wire types\<close>

datatype kind =
    InvalidSignature | SignatureRecoveryFailed | KindInsufficientEscrow | ProposalExpired
  | ProposalLifetimeExceeded | ProposalNotFound | ProposalNotCancellable | BadRequest | Internal | Unknown

record api_error =
  err_kind :: kind
  err_description :: string

fun error_status :: "kind \<Rightarrow> nat" where
  "error_status InvalidSignature = 400"
| "error_status SignatureRecoveryFailed = 400"
| "error_status ProposalExpired = 400"
| "error_status ProposalLifetimeExceeded = 400"
| "error_status BadRequest = 400"
| "error_status KindInsufficientEscrow = 403"
| "error_status ProposalNotFound = 404"
| "error_status ProposalNotCancellable = 409"
| "error_status Internal = 500"
| "error_status Unknown = 500"

fun default_description :: "kind \<Rightarrow> string" where
  "default_description InvalidSignature = ''Invalid EIP-712 signature''"
| "default_description SignatureRecoveryFailed = ''Could not recover signer from signature''"
| "default_description KindInsufficientEscrow = ''Sub-solver escrow balance below minimum''"
| "default_description ProposalExpired = ''Proposal validUntil is in the past''"
| "default_description ProposalLifetimeExceeded = ''Proposal validUntil exceeds the maximum proposal lifetime''"
| "default_description ProposalNotFound = ''Proposal not found''"
| "default_description ProposalNotCancellable = ''Proposal is executing or already in a terminal state''"
| "default_description BadRequest = ''Malformed request''"
| "default_description Internal = ''Internal error''"
| "default_description Unknown = ''Internal error''"

definition error_new :: "kind \<Rightarrow> string \<Rightarrow> api_error" where
  "error_new k d = \<lparr>err_kind = k, err_description = d\<rparr>"

definition error_from :: "kind \<Rightarrow> api_error" where
  "error_from k = error_new k (default_description k)"

text \<open>Status code and body served for a handler's result (\<open>IntoResponse\<close>).\<close>

definition response :: "nat \<Rightarrow> api_error + 'a \<Rightarrow> nat \<times> (api_error + 'a)" where
  "response ok r = (case r of Inl e \<Rightarrow> error_status (err_kind e) | Inr _ \<Rightarrow> ok, r)"

datatype wire_status =
    WSubmitted | WActive | WRejected | WExpired | WExecuting | WSettled | WSettleFailed | WPenalized
  | WSimFailed | WCancelled | WUnknown

fun wire_status_of :: "proposal_status \<Rightarrow> wire_status" where
  "wire_status_of Submitted = WSubmitted"
| "wire_status_of Active = WActive"
| "wire_status_of Rejected = WRejected"
| "wire_status_of Expired = WExpired"
| "wire_status_of Executing = WExecuting"
| "wire_status_of Settled = WSettled"
| "wire_status_of SettleFailed = WSettleFailed"
| "wire_status_of Penalized = WPenalized"
| "wire_status_of SimFailed = WSimFailed"
| "wire_status_of Cancelled = WCancelled"

definition is_terminal :: "wire_status \<Rightarrow> bool" where
  "is_terminal s \<longleftrightarrow> s \<in> {WRejected, WExpired, WSettled, WSettleFailed, WPenalized, WSimFailed, WCancelled}"

datatype wire_reason =
    WInsufficientEscrow | WUnsupportedOrder | WAmountMismatch | WOrderNotFound | WUnprofitable | WUnknownReason

fun wire_reason_of :: "rejection_reason \<Rightarrow> wire_reason" where
  "wire_reason_of InsufficientEscrow = WInsufficientEscrow"
| "wire_reason_of UnsupportedOrder = WUnsupportedOrder"
| "wire_reason_of AmountMismatch = WAmountMismatch"
| "wire_reason_of OrderNotFound = WOrderNotFound"
| "wire_reason_of Unprofitable = WUnprofitable"

record wire_interaction =
  wi_target :: address
  wi_value :: string
  wi_call_data :: string

record create_request =
  cr_order_uid :: string
  cr_sell_amount :: string
  cr_buy_amount :: string
  cr_interactions :: "wire_interaction list"
  cr_valid_until :: string
  cr_nonce :: string
  cr_signature :: string

record metadata =
  md_id :: u64
  md_sub_solver :: address
  md_valid_until :: string
  md_status :: wire_status

record get_response =
  gr_id :: u64
  gr_sub_solver :: address
  gr_order_uid :: string
  gr_sell_amount :: string
  gr_buy_amount :: string
  gr_valid_until :: string
  gr_status :: wire_status
  gr_rejection_reason :: "wire_reason option"
  gr_settlement_tx_hash :: "string option"
  gr_penalty_tx_hash :: "string option"

text \<open>A header as \<open>HeaderMap::get\<close> and \<open>to_str\<close> present it.\<close>

datatype header = Missing | NotText | HeaderText string

text \<open>The part of \<open>AppState\<close> these handlers read beside the store.\<close>

record app_state =
  app_domain :: eip712_domain
  app_max_proposal_lifetime_secs :: u64

type_synonym 'a handler = "store \<Rightarrow> (api_error + 'a) \<times> store"

subsection \<open>Edge conversions\<close>

definition metadata_of :: "codec \<Rightarrow> proposal \<Rightarrow> metadata" where
  "metadata_of c p =
     \<lparr>md_id = pid_raw (p_id p), md_sub_solver = p_sub_solver p, md_valid_until = u256_text c (p_valid_until p),
      md_status = wire_status_of (p_status p)\<rparr>"

definition get_response_of :: "codec \<Rightarrow> proposal \<Rightarrow> get_response" where
  "get_response_of c p =
     \<lparr>gr_id = pid_raw (p_id p), gr_sub_solver = p_sub_solver p, gr_order_uid = uid_text c (p_order_uid p),
      gr_sell_amount = u256_text c (p_sell_amount p), gr_buy_amount = u256_text c (p_buy_amount p),
      gr_valid_until = u256_text c (p_valid_until p), gr_status = wire_status_of (p_status p),
      gr_rejection_reason = map_option wire_reason_of (p_rejection_reason p),
      gr_settlement_tx_hash = map_option (b256_text c) (p_settlement_tx_hash p),
      gr_penalty_tx_hash = map_option (b256_text c) (p_penalty_tx_hash p)\<rparr>"

definition parse_hex :: "codec \<Rightarrow> string \<Rightarrow> bytes option" where
  "parse_hex c s = hex_decode c (strip_0x s)"

definition dto_interaction :: "codec \<Rightarrow> wire_interaction \<Rightarrow> api_error + interaction" where
  "dto_interaction c d =
     and_then (ok_or (error_new BadRequest ''invalid interaction value'') (parse_u256 c (wi_value d))) (\<lambda>v.
     and_then (ok_or (error_new BadRequest ''invalid interaction callData'') (parse_hex c (wi_call_data d))) (\<lambda>call_data.
       Inr \<lparr>i_target = wi_target d, i_value = v, i_callData = call_data\<rparr>))"

definition uid_error_text :: "uid_error \<Rightarrow> string" where
  "uid_error_text e = (case e of UidHex \<Rightarrow> ''invalid hex: ''
     | UidLength n \<Rightarrow> ''expected 56 bytes, got '' @ show_nat n)"

definition parse_order_uid :: "codec \<Rightarrow> string \<Rightarrow> api_error + order_uid" where
  "parse_order_uid c s =
     (case from_hex c s of
        Inl e \<Rightarrow> Inl (error_new BadRequest (''invalid orderUid: '' @ uid_error_text e))
      | Inr u \<Rightarrow> Inr u)"

subsection \<open>Authentication\<close>

definition signature_from_header :: "codec \<Rightarrow> crypto \<Rightarrow> header \<Rightarrow> api_error + signature" where
  "signature_from_header c k h =
     (case h of
        Missing \<Rightarrow> Inl (error_new InvalidSignature ''missing X-Signature header'')
      | NotText \<Rightarrow> Inl (error_new InvalidSignature ''X-Signature is not valid UTF-8'')
      | HeaderText hex_str \<Rightarrow>
          and_then (ok_or (error_new InvalidSignature ''X-Signature is not valid hex'') (parse_hex c hex_str))
            (\<lambda>bs. ok_or (error_new InvalidSignature ''invalid signature bytes'') (signature_of_bytes k bs)))"

definition authenticate_reader :: "codec \<Rightarrow> crypto \<Rightarrow> eip712_domain \<Rightarrow> header \<Rightarrow> api_error + address" where
  "authenticate_reader c k domain h =
     and_then (signature_from_header c k h) (\<lambda>sig.
       ok_or (error_from SignatureRecoveryFailed) (recover_reader k sig domain))"

definition internal :: "store_error \<Rightarrow> api_error" where
  "internal e = error_from Internal"

text \<open>Running a store operation inside a handler, with its error mapped.\<close>

definition served :: "(store_error \<Rightarrow> api_error) \<Rightarrow> 'a action \<Rightarrow> ('a \<Rightarrow> api_error + 'b) \<Rightarrow> 'b handler" where
  "served f m g st = (case m st of (Inl e, st') \<Rightarrow> (Inl (f e), st') | (Inr a, st') \<Rightarrow> (g a, st'))"

definition authenticated :: "api_error + 'a \<Rightarrow> ('a \<Rightarrow> 'b handler) \<Rightarrow> 'b handler" where
  "authenticated r h st = (case r of Inl e \<Rightarrow> (Inl e, st) | Inr a \<Rightarrow> h a st)"

subsection \<open>Handlers\<close>

definition healthz :: nat where "healthz = 200"

text \<open>\<open>create_proposal\<close> up to the recovered sub-solver, as the proposal it would store.\<close>

definition submitted :: "codec \<Rightarrow> crypto \<Rightarrow> eip712_domain \<Rightarrow> create_request \<Rightarrow> api_error + proposal" where
  "submitted c k domain body =
     and_then (parse_order_uid c (cr_order_uid body)) (\<lambda>order_uid.
     and_then (ok_or (error_new BadRequest ''invalid sellAmount'') (parse_u256 c (cr_sell_amount body))) (\<lambda>sell_amount.
     and_then (ok_or (error_new BadRequest ''invalid buyAmount'') (parse_u256 c (cr_buy_amount body))) (\<lambda>buy_amount.
     and_then (ok_or (error_new BadRequest ''invalid validUntil'') (parse_u256 c (cr_valid_until body))) (\<lambda>valid_until.
     and_then (ok_or (error_new BadRequest ''invalid nonce'') (parse_u256 c (cr_nonce body))) (\<lambda>nonce.
     and_then (ok_or (error_new BadRequest ''invalid signature hex'') (parse_hex c (cr_signature body))) (\<lambda>signature_bytes.
     and_then (ok_or (error_from InvalidSignature) (signature_of_bytes k signature_bytes)) (\<lambda>sig.
     and_then (collect (map (dto_interaction c) (cr_interactions body))) (\<lambda>interactions.
     let order_uid_hash = keccak256 k (uid_bytes order_uid);
         interactions_hash = compute_interactions_hash k interactions;
         oc = \<lparr>oc_orderUidHash = order_uid_hash, oc_sellAmount = sell_amount, oc_buyAmount = buy_amount,
               oc_validUntil = valid_until, oc_nonce = nonce\<rparr>
     in and_then (ok_or (error_from SignatureRecoveryFailed) (recover_proposer k sig domain oc interactions_hash)) (\<lambda>sub_solver.
          Inr \<lparr>p_id = ProposalId 0, p_sub_solver = sub_solver, p_order_uid = order_uid,
               p_order_uid_hash = order_uid_hash, p_sell_amount = sell_amount, p_buy_amount = buy_amount,
               p_sell_token = 0, p_buy_token = 0, p_interactions = interactions,
               p_interactions_hash = interactions_hash, p_valid_until = valid_until, p_nonce = nonce,
               p_signature = signature_bytes, p_status = Submitted, p_rejection_reason = None,
               p_gas_used = None, p_trampoline = None, p_settlement_tx_hash = None,
               p_penalty_tx_hash = None\<rparr>)))))))))"

text \<open>\<open>SystemTime::now().duration_since(UNIX_EPOCH)\<close> in seconds; \<open>None\<close> when the clock is before the epoch.\<close>

definition unix_secs :: "time \<Rightarrow> u64 option" where
  "unix_secs t = (if 0 \<le> t then Some (word_of_int (t div 1000000)) else None)"

definition check_lifetime :: "app_state \<Rightarrow> u64 \<Rightarrow> u256 \<Rightarrow> api_error + unit" where
  "check_lifetime app now valid_until =
     (if valid_until < u256_of now then Inl (error_from ProposalExpired)
      else if u256_of (saturating_add now (app_max_proposal_lifetime_secs app)) < valid_until
      then Inl (error_from ProposalLifetimeExceeded) else Inr ())"

definition create_proposal ::
  "codec \<Rightarrow> crypto \<Rightarrow> app_state \<Rightarrow> clock \<Rightarrow> create_request \<Rightarrow> store \<Rightarrow> ((api_error + proposal_id) \<times> store) option" where
  "create_proposal c k app clk body st =
     (case submitted c k (app_domain app) body of
        Inl e \<Rightarrow> Some (Inl e, st)
      | Inr p \<Rightarrow>
          (case unix_secs (wall_now clk) of
             None \<Rightarrow> None
           | Some now \<Rightarrow>
               (case check_lifetime app now (p_valid_until p) of
                  Inl e \<Rightarrow> Some (Inl e, st)
                | Inr _ \<Rightarrow>
                    (case insert_proposal_op c clk p st of
                       None \<Rightarrow> None
                     | Some (Inl e, st') \<Rightarrow> Some (Inl (internal e), st')
                     | Some (Inr pid, st') \<Rightarrow> Some (Inr pid, st')))))"

definition get_endpoint :: "codec \<Rightarrow> crypto \<Rightarrow> app_state \<Rightarrow> proposal_id \<Rightarrow> header \<Rightarrow> get_response handler" where
  "get_endpoint c k app pid h =
     authenticated (authenticate_reader c k (app_domain app) h) (\<lambda>reader.
     served internal (get_proposal c pid) (\<lambda>found.
       and_then (ok_or (error_from ProposalNotFound)
           (case found of None \<Rightarrow> None | Some p \<Rightarrow> if p_sub_solver p = reader then Some p else None))
         (\<lambda>p. Inr (get_response_of c p))))"

definition list_proposals :: "codec \<Rightarrow> crypto \<Rightarrow> app_state \<Rightarrow> string \<Rightarrow> header \<Rightarrow> metadata list handler" where
  "list_proposals c k app order_uid_hex h =
     authenticated (authenticate_reader c k (app_domain app) h) (\<lambda>reader.
     authenticated (parse_order_uid c order_uid_hex) (\<lambda>order_uid.
     served internal (list_by_order_uid_for_owner c order_uid reader) (\<lambda>ps. Inr (map (metadata_of c) ps))))"

definition list_proposals_by_sub_solver :: "codec \<Rightarrow> crypto \<Rightarrow> app_state \<Rightarrow> header \<Rightarrow> metadata list handler" where
  "list_proposals_by_sub_solver c k app h =
     authenticated (authenticate_reader c k (app_domain app) h) (\<lambda>reader.
     served internal (list_by_sub_solver c reader) (\<lambda>ps. Inr (map (metadata_of c) ps)))"

definition cancel_failure :: "store_error \<Rightarrow> api_error" where
  "cancel_failure e = (case e of
       NotFound _ \<Rightarrow> error_from ProposalNotFound
     | NotOwner _ _ \<Rightarrow> error_from ProposalNotFound
     | StaleTransition _ _ _ \<Rightarrow> error_from ProposalNotCancellable
     | _ \<Rightarrow> internal e)"

definition authenticate_canceller ::
  "codec \<Rightarrow> crypto \<Rightarrow> eip712_domain \<Rightarrow> proposal_id \<Rightarrow> header \<Rightarrow> api_error + address" where
  "authenticate_canceller c k domain pid h =
     and_then (signature_from_header c k h) (\<lambda>sig.
       ok_or (error_from SignatureRecoveryFailed) (recover_canceller k sig domain (u256_of (pid_raw pid))))"

definition cancel_proposal :: "codec \<Rightarrow> crypto \<Rightarrow> app_state \<Rightarrow> clock \<Rightarrow> proposal_id \<Rightarrow> header \<Rightarrow> unit handler" where
  "cancel_proposal c k app clk pid h =
     authenticated (authenticate_canceller c k (app_domain app) pid h) (\<lambda>signer.
     served cancel_failure (cancel c clk pid signer) (\<lambda>_. Inr ()))"

subsection \<open>The gate of the internal listener\<close>

definition ascii_lower :: "char \<Rightarrow> char" where
  "ascii_lower ch = (let n = of_char ch :: nat in if 65 \<le> n \<and> n \<le> 90 then char_of (n + 32) else ch)"

definition eq_ignore_ascii_case :: "string \<Rightarrow> string \<Rightarrow> bool" where
  "eq_ignore_ascii_case s t \<longleftrightarrow> map ascii_lower s = map ascii_lower t"

fun split_once :: "char \<Rightarrow> string \<Rightarrow> (string \<times> string) option" where
  "split_once d [] = None"
| "split_once d (ch # s) =
     (if ch = d then Some ([], s) else map_option (\<lambda>(a, b). (ch # a, b)) (split_once d s))"

definition authorized :: "string \<Rightarrow> header \<Rightarrow> bool" where
  "authorized expected h =
     (case h of
        HeaderText v \<Rightarrow>
          (case split_once CHR '' '' v of
             None \<Rightarrow> False
           | Some (scheme, token) \<Rightarrow> eq_ignore_ascii_case scheme ''Bearer'' \<and> token = expected)
      | _ \<Rightarrow> False)"

text \<open>\<open>Inl 401\<close> without running the handler, or the handler's answer.\<close>

definition internal_gate :: "string option \<Rightarrow> header \<Rightarrow> ('s \<Rightarrow> 'a \<times> 's) \<Rightarrow> 's \<Rightarrow> (nat + 'a) \<times> 's" where
  "internal_gate solve_bearer_token h next st =
     (case solve_bearer_token of
        None \<Rightarrow> (case next st of (a, st') \<Rightarrow> (Inr a, st'))
      | Some expected \<Rightarrow>
          if authorized expected h then (case next st of (a, st') \<Rightarrow> (Inr a, st')) else (Inl 401, st))"

end
