(* ===== verification/Client.thy ===== *)
theory Client
  imports Routing Api Envelope
begin

text \<open>
  The reference sub-solver's proposals and its client of the service
  (\<open>crates/subsolver/src/domain/proposal.rs\<close>, \<open>infra/byos.rs\<close>): an order is routed through one pool,
  signed, and put on the wire. The ABI encoders of the three calls and the byte form of a signature
  are parameters.
\<close>

subsection \<open>Routing and signing\<close>

record client_order =
  od_uid :: bytes
  od_sell :: address
  od_buy :: address
  od_sell_amount :: u256
  od_buy_amount :: u256
  od_kind :: order_kind

record route_params =
  rt_router :: address
  rt_trampoline :: address
  rt_reserve_sell :: u256
  rt_reserve_buy :: u256
  rt_valid_until :: u64
  rt_nonce :: u256
  rt_extra_interactions :: "interaction list"

record signed_proposal =
  sd_order_uid :: bytes
  sd_sell_amount :: u256
  sd_buy_amount :: u256
  sd_interactions :: "interaction list"
  sd_valid_until :: u64
  sd_nonce :: u256
  sd_signature :: bytes

record client_abi =
  ca_approve :: "address \<Rightarrow> u256 \<Rightarrow> bytes"
  ca_swap_exact_tokens :: "u256 \<Rightarrow> u256 \<Rightarrow> address list \<Rightarrow> address \<Rightarrow> u256 \<Rightarrow> bytes"
  ca_swap_for_exact_tokens :: "u256 \<Rightarrow> u256 \<Rightarrow> address list \<Rightarrow> address \<Rightarrow> u256 \<Rightarrow> bytes"
  ca_signature_bytes :: "signature \<Rightarrow> bytes"

definition onchain :: "crypto \<Rightarrow> signed_proposal \<Rightarrow> onchain_proposal" where
  "onchain k p =
     \<lparr>oc_orderUidHash = keccak256 k (sd_order_uid p), oc_sellAmount = sd_sell_amount p,
      oc_buyAmount = sd_buy_amount p, oc_validUntil = u256_of (sd_valid_until p), oc_nonce = sd_nonce p\<rparr>"

definition routed_amounts :: "client_order \<Rightarrow> route_params \<Rightarrow> (u256 \<times> u256) option" where
  "routed_amounts ord params =
     (case od_kind ord of
        Sell \<Rightarrow>
          Option.bind (amount_out (od_sell_amount ord) (rt_reserve_sell params) (rt_reserve_buy params)) (\<lambda>out.
            if od_buy_amount ord \<le> out then Some (od_sell_amount ord, out) else None)
      | Buy \<Rightarrow>
          Option.bind (amount_in (od_buy_amount ord) (rt_reserve_sell params) (rt_reserve_buy params)) (\<lambda>price.
            if price \<le> od_sell_amount ord then Some (price, od_buy_amount ord) else None))"

definition route :: "client_abi \<Rightarrow> client_order \<Rightarrow> route_params \<Rightarrow> u256 \<Rightarrow> u256 \<Rightarrow> interaction list" where
  "route e ord params sell_amount buy_amount =
     (let deadline = u256_of (rt_valid_until params);
          path = [od_sell ord, od_buy ord];
          swap_call_data = (case od_kind ord of
              Sell \<Rightarrow> ca_swap_exact_tokens e sell_amount buy_amount path (rt_trampoline params) deadline
            | Buy \<Rightarrow> ca_swap_for_exact_tokens e buy_amount sell_amount path (rt_trampoline params) deadline)
      in [\<lparr>i_target = od_sell ord, i_value = 0, i_callData = ca_approve e (rt_router params) sell_amount\<rparr>,
          \<lparr>i_target = rt_router params, i_value = 0, i_callData = swap_call_data\<rparr>]
         @ rt_extra_interactions params)"

text \<open>The outer \<open>None\<close> is a panic, the inner one an order that cannot be routed.\<close>

definition build_proposal ::
  "crypto \<Rightarrow> client_abi \<Rightarrow> client_order \<Rightarrow> route_params \<Rightarrow> eip712_domain \<Rightarrow> signer \<Rightarrow> signed_proposal option option" where
  "build_proposal k e ord params domain s =
     (case routed_amounts ord params of
        None \<Rightarrow> Some None
      | Some (sell_amount, buy_amount) \<Rightarrow>
          (let p = \<lparr>sd_order_uid = od_uid ord, sd_sell_amount = sell_amount, sd_buy_amount = buy_amount,
                    sd_interactions = route e ord params sell_amount buy_amount,
                    sd_valid_until = rt_valid_until params, sd_nonce = rt_nonce params, sd_signature = []\<rparr>
           in case sign_proposal k s domain (onchain k p) (sd_interactions p) of
                None \<Rightarrow> None
              | Some sig \<Rightarrow> Some (Some (p\<lparr>sd_signature := ca_signature_bytes e sig\<rparr>))))"

subsection \<open>The client\<close>

text \<open>Decimal integers print as \<open>show_nat\<close> does.\<close>

definition request_of :: "codec \<Rightarrow> signed_proposal \<Rightarrow> create_request" where
  "request_of c p =
     \<lparr>cr_order_uid = hex_prefixed c (sd_order_uid p), cr_sell_amount = u256_text c (sd_sell_amount p),
      cr_buy_amount = u256_text c (sd_buy_amount p),
      cr_interactions = map (\<lambda>i. \<lparr>wi_target = i_target i, wi_value = u256_text c (i_value i),
        wi_call_data = hex_prefixed c (i_callData i)\<rparr>) (sd_interactions p),
      cr_valid_until = show_nat (unat (sd_valid_until p)), cr_nonce = u256_text c (sd_nonce p),
      cr_signature = hex_prefixed c (sd_signature p)\<rparr>"

text \<open>A response, with its body read as the expected type and as the error body; \<open>None\<close> where it does not
  parse.\<close>

datatype 'a answer = NoAnswer | Answer nat "'a option" "api_error option"

datatype client_error = ClientRejected api_error | UnexpectedStatus nat | Http

definition is_success :: "nat \<Rightarrow> bool" where
  "is_success status \<longleftrightarrow> 200 \<le> status \<and> status < 300"

definition client_failure :: "nat \<Rightarrow> api_error option \<Rightarrow> client_error" where
  "client_failure status body = (case body of Some rejection \<Rightarrow> ClientRejected rejection | None \<Rightarrow> UnexpectedStatus status)"

definition parse_answer :: "'a answer \<Rightarrow> client_error + 'a" where
  "parse_answer ans =
     (case ans of
        NoAnswer \<Rightarrow> Inl Http
      | Answer status body failure \<Rightarrow>
          if is_success status then ok_or Http body else Inl (client_failure status failure))"

definition submit :: "codec \<Rightarrow> (create_request \<Rightarrow> u64 answer) \<Rightarrow> signed_proposal \<Rightarrow> client_error + u64" where
  "submit c post p = parse_answer (post (request_of c p))"

text \<open>The \<open>X-Signature\<close> headers; \<open>None\<close> is a panic of the signer.\<close>

definition read_auth :: "codec \<Rightarrow> crypto \<Rightarrow> client_abi \<Rightarrow> signer \<Rightarrow> eip712_domain \<Rightarrow> header option" where
  "read_auth c k e s domain =
     map_option (\<lambda>sig. HeaderText (hex_prefixed c (ca_signature_bytes e sig))) (sign_read_auth k s domain)"

definition cancel_auth :: "codec \<Rightarrow> crypto \<Rightarrow> client_abi \<Rightarrow> signer \<Rightarrow> eip712_domain \<Rightarrow> u64 \<Rightarrow> header option" where
  "cancel_auth c k e s domain proposal_id =
     map_option (\<lambda>sig. HeaderText (hex_prefixed c (ca_signature_bytes e sig)))
       (sign_cancellation k s domain (u256_of proposal_id))"

definition client_get ::
  "codec \<Rightarrow> crypto \<Rightarrow> client_abi \<Rightarrow> signer \<Rightarrow> eip712_domain \<Rightarrow> (u64 \<Rightarrow> header \<Rightarrow> 'a answer) \<Rightarrow> u64
    \<Rightarrow> (client_error + 'a) option" where
  "client_get c k e s domain get i = map_option (\<lambda>h. parse_answer (get i h)) (read_auth c k e s domain)"

definition client_list ::
  "codec \<Rightarrow> crypto \<Rightarrow> client_abi \<Rightarrow> signer \<Rightarrow> eip712_domain \<Rightarrow> (string \<Rightarrow> header \<Rightarrow> 'a answer) \<Rightarrow> bytes
    \<Rightarrow> (client_error + 'a) option" where
  "client_list c k e s domain get order_uid =
     map_option (\<lambda>h. parse_answer (get (hex_prefixed c order_uid) h)) (read_auth c k e s domain)"

definition client_cancel ::
  "codec \<Rightarrow> crypto \<Rightarrow> client_abi \<Rightarrow> signer \<Rightarrow> eip712_domain \<Rightarrow> (u64 \<Rightarrow> header \<Rightarrow> unit answer) \<Rightarrow> u64
    \<Rightarrow> (client_error + unit) option" where
  "client_cancel c k e s domain delete i =
     map_option (\<lambda>h. case delete i h of
         NoAnswer \<Rightarrow> Inl Http
       | Answer status body failure \<Rightarrow>
           if is_success status then Inr () else Inl (client_failure status failure))
       (cancel_auth c k e s domain i)"

subsection \<open>What the service makes of it\<close>

text \<open>The service's parser reads the decimal integers of the standard library, and the bytes of a signature
  read back as the signature.\<close>

definition reads_u64 :: "codec \<Rightarrow> bool" where
  "reads_u64 c \<longleftrightarrow> (\<forall>v :: u64. parse_u256 c (show_nat (unat v)) = Some (u256_of v))"

definition signature_round_trip :: "crypto \<Rightarrow> client_abi \<Rightarrow> signer \<Rightarrow> bool" where
  "signature_round_trip k e s \<longleftrightarrow>
     (\<forall>h sig. sg_sign_hash s h = Some sig \<longrightarrow> signature_of_bytes k (ca_signature_bytes e sig) = Some sig)"

lemma parse_hex_text: "codec_ok c \<Longrightarrow> parse_hex c (hex_prefixed c b) = Some b"
  by (simp add: parse_hex_def codec_read_back)

lemma interactions_read_back:
  "codec_ok c \<Longrightarrow> collect (map (dto_interaction c) (map (\<lambda>i. \<lparr>wi_target = i_target i, wi_value = u256_text c (i_value i),
        wi_call_data = hex_prefixed c (i_callData i)\<rparr>) ints)) = Inr ints"
proof -
  assume c: "codec_ok c"
  have "map (dto_interaction c) (map (\<lambda>i. \<lparr>wi_target = i_target i, wi_value = u256_text c (i_value i),
        wi_call_data = hex_prefixed c (i_callData i)\<rparr>) ints) = map Inr ints"
    using c by (simp add: dto_interaction_def codec_read_back parse_hex_text ok_or_def)
  then show ?thesis by (simp only: collect_Inrs)
qed

lemma built_proposal:
  assumes "build_proposal k e ord params domain s = Some (Some p)"
  shows "\<exists>sig. routed_amounts ord params = Some (sd_sell_amount p, sd_buy_amount p) \<and>
    sign_proposal k s domain (onchain k p) (sd_interactions p) = Some sig \<and> sd_signature p = ca_signature_bytes e sig \<and>
    sd_order_uid p = od_uid ord \<and> sd_valid_until p = rt_valid_until params \<and> sd_nonce p = rt_nonce params"
  using assms by (auto simp: build_proposal_def Let_def onchain_def split: option.splits)

text \<open>The request parses back to the fields that were signed, and the headers to the signer.\<close>

lemma built_admitted:
  assumes "codec_ok c" and "reads_u64 c" and "signs_as k s" and "signature_round_trip k e s" and "length (od_uid ord) = 56"
    and "build_proposal k e ord params domain s = Some (Some p)"
  shows "(case submitted c k domain (request_of c p) of
      Inl _ \<Rightarrow> False
    | Inr q \<Rightarrow> p_sub_solver q = sg_address s \<and> p_order_uid q = OrderUid (od_uid ord) \<and>
        p_sell_amount q = sd_sell_amount p \<and> p_buy_amount q = sd_buy_amount p \<and> p_interactions q = sd_interactions p \<and>
        p_valid_until q = u256_of (sd_valid_until p) \<and> p_nonce q = sd_nonce p \<and> p_signature q = sd_signature p \<and>
        p_status q = Submitted) \<and>
    (case read_auth c k e s domain of None \<Rightarrow> True | Some h \<Rightarrow> authenticate_reader c k domain h = Inr (sg_address s)) \<and>
    (case cancel_auth c k e s domain i of None \<Rightarrow> True
      | Some h \<Rightarrow> authenticate_canceller c k domain (ProposalId i) h = Inr (sg_address s))"
proof (intro conjI)
  obtain sig where sig: "sign_proposal k s domain (onchain k p) (sd_interactions p) = Some sig"
      "sd_signature p = ca_signature_bytes e sig" "sd_order_uid p = od_uid ord"
    using built_proposal [OF assms(6)] by blast
  note rs = recover_signed [OF assms(3)]
  have uid: "from_hex c (hex_prefixed c (sd_order_uid p)) = Inr (OrderUid (od_uid ord))"
    using from_hex_text [OF assms(1), of "OrderUid (od_uid ord)"] assms(5) by (simp add: uid_text_def uid_ok_def sig(3))
  have dec: "parse_u256 c (show_nat (unat (sd_valid_until p))) = Some (u256_of (sd_valid_until p))"
    using assms(2) by (simp add: reads_u64_def)
  have sb: "signature_of_bytes k (sd_signature p) = Some sig"
    using assms(4) sig(1) by (auto simp: signature_round_trip_def sig(2) sign_proposal_def Let_def)
  note rb = codec_read_back [OF assms(1)] parse_hex_text [OF assms(1)]
  have rec: "recover_proposer k sig domain \<lparr>oc_orderUidHash = keccak256 k (od_uid ord), oc_sellAmount = sd_sell_amount p,
      oc_buyAmount = sd_buy_amount p, oc_validUntil = u256_of (sd_valid_until p), oc_nonce = sd_nonce p\<rparr>
      (compute_interactions_hash k (sd_interactions p)) = Some (sg_address s)"
    using rs(1) [OF sig(1)] by (simp add: onchain_def sig(3))
  show "case submitted c k domain (request_of c p) of
      Inl _ \<Rightarrow> False
    | Inr q \<Rightarrow> p_sub_solver q = sg_address s \<and> p_order_uid q = OrderUid (od_uid ord) \<and>
        p_sell_amount q = sd_sell_amount p \<and> p_buy_amount q = sd_buy_amount p \<and> p_interactions q = sd_interactions p \<and>
        p_valid_until q = u256_of (sd_valid_until p) \<and> p_nonce q = sd_nonce p \<and> p_signature q = sd_signature p \<and>
        p_status q = Submitted"
    using uid dec sb rec rb interactions_read_back [OF assms(1)]
    by (simp add: submitted_def request_of_def parse_order_uid_def ok_or_def Let_def)
  have hdr: "signature_from_header c k (HeaderText (hex_prefixed c (ca_signature_bytes e sig))) = Inr sig"
    if "sg_sign_hash s h = Some sig" for h sig
    using that assms(4) rb by (simp add: signature_from_header_def signature_round_trip_def ok_or_def)
  show "case read_auth c k e s domain of None \<Rightarrow> True | Some h \<Rightarrow> authenticate_reader c k domain h = Inr (sg_address s)"
    using rs(3) by (auto simp: read_auth_def authenticate_reader_def hdr ok_or_def sign_read_auth_def split: option.splits)
  show "case cancel_auth c k e s domain i of None \<Rightarrow> True
      | Some h \<Rightarrow> authenticate_canceller c k domain (ProposalId i) h = Inr (sg_address s)"
    using rs(2) by (auto simp: cancel_auth_def authenticate_canceller_def hdr ok_or_def sign_cancellation_def split: option.splits)
qed

text \<open>C35. What the reference sub-solver signs is what the service stores: a proposal it builds is admitted
  by the service under its own address with exactly the fields it signed, and the headers it sends
  authenticate it as the reader and as the canceller.\<close>

theorem client_proposal_admitted:
  assumes "codec_ok c" and "reads_u64 c" and "signs_as k s" and "signature_round_trip k e s" and "length (od_uid ord) = 56"
    and "build_proposal k e ord params domain s = Some (Some p)"
  shows "(case submitted c k domain (request_of c p) of
      Inl _ \<Rightarrow> False
    | Inr q \<Rightarrow> p_sub_solver q = sg_address s \<and> p_order_uid q = OrderUid (od_uid ord) \<and>
        p_sell_amount q = sd_sell_amount p \<and> p_buy_amount q = sd_buy_amount p \<and> p_interactions q = sd_interactions p \<and>
        p_valid_until q = u256_of (sd_valid_until p) \<and> p_nonce q = sd_nonce p \<and> p_signature q = sd_signature p \<and>
        p_status q = Submitted) \<and>
    (case read_auth c k e s domain of None \<Rightarrow> True | Some h \<Rightarrow> authenticate_reader c k domain h = Inr (sg_address s)) \<and>
    (case cancel_auth c k e s domain i of None \<Rightarrow> True
      | Some h \<Rightarrow> authenticate_canceller c k domain (ProposalId i) h = Inr (sg_address s))"
  by (rule built_admitted [OF assms])

subsection \<open>A concrete submission\<close>

definition toy_client_abi :: client_abi where
  "toy_client_abi = \<lparr>ca_approve = (\<lambda>_ _. [1]), ca_swap_exact_tokens = (\<lambda>_ _ _ _ _. [2]), ca_swap_for_exact_tokens = (\<lambda>_ _ _ _ _. [3]),
     ca_signature_bytes = (\<lambda>sig. [ucast (sig_r sig)])\<rparr>"

definition sample_client_order :: client_order where
  "sample_client_order = \<lparr>od_uid = replicate 56 0, od_sell = 5, od_buy = 6, od_sell_amount = 1000, od_buy_amount = 900, od_kind = Sell\<rparr>"

definition sample_params :: route_params where
  "sample_params = \<lparr>rt_router = 7, rt_trampoline = 8, rt_reserve_sell = 100000, rt_reserve_buy = 100000, rt_valid_until = 500,
     rt_nonce = 1, rt_extra_interactions = []\<rparr>"

lemma reads_u64_std: "reads_u64 std_codec"
  unfolding reads_u64_def
proof
  fix v :: u64
  have "unat v < 2 ^ 64" using unsigned_less [of v, where 'a = nat] by simp
  then have "unat v < 2 ^ 256" by simp
  then show "parse_u256 std_codec (show_nat (unat v)) = Some (u256_of v)"
    by (simp add: std_codec_def std_parse_dec_def read_show_nat u256_of_def)
qed

lemma toy_signature_round_trip: "signature_round_trip toy_crypto toy_client_abi (toy_signer x)"
proof -
  have "(ucast (ucast x :: u256) :: byte) = x" by (rule bit_word_eqI) (auto simp: bit_unsigned_iff)
  then show ?thesis by (simp add: signature_round_trip_def toy_crypto_def toy_client_abi_def toy_signer_def)
qed

text \<open>1000 atoms into a pool of 100000 each give 987.\<close>

lemma sample_routed: "routed_amounts sample_client_order sample_params = Some (1000, 987)"
  by (simp add: routed_amounts_def sample_client_order_def sample_params_def amount_out_def FEE_NUMERATOR_def FEE_DENOMINATOR_def
      u256_of_def checked_mul_def checked_add_def)

theorem client_proposal_admitted_witness:
  "\<exists>p. case submitted std_codec toy_crypto (byos_domain 1 66) (request_of std_codec p) of
     Inl _ \<Rightarrow> False | Inr q \<Rightarrow> p_sub_solver q = 17 \<and> p_buy_amount q = 987"
proof -
  obtain p where p: "build_proposal toy_crypto toy_client_abi sample_client_order sample_params (byos_domain 1 66) (toy_signer 17) = Some (Some p)"
    by (simp add: build_proposal_def sample_routed sign_proposal_def toy_signer_def Let_def)
  have "sd_buy_amount p = 987" using built_proposal [OF p] sample_routed by auto
  moreover have "length (od_uid sample_client_order) = 56" by (simp add: sample_client_order_def)
  note client_proposal_admitted [OF codec_ok_std reads_u64_std toy_signs toy_signature_round_trip this p, of 1]
  moreover have "sg_address (toy_signer 17) = 17" by (simp add: toy_signer_def)
  ultimately show ?thesis by (intro exI [of _ p]) (auto split: sum.splits)
qed

end
