(* ===== verification/Subsolver.thy ===== *)
theory Subsolver
  imports Client
begin

text \<open>
  The reference sub-solver's loop (\<open>crates/subsolver/src/run.rs\<close>) with its orderbook and chain clients
  (\<open>infra/orderbook.rs\<close>, \<open>infra/blockchain.rs\<close>): one poll forgets the expired submissions, reads the
  auction, asks for the verdict on the live ones, reads the reserves of the rest in one multicall and
  submits a proposal for each that routes. The network is a state threaded through the calls
  (\<open>network\<close>); \<open>None\<close> is a panic of the signer. Integers wrap as in a release build.
\<close>

subsection \<open>Discovery\<close>

record discovered_order =
  do_uid :: bytes
  do_sell_token :: address
  do_buy_token :: address
  do_sell_amount :: u256
  do_buy_amount :: u256
  do_kind :: order_kind
  do_sell_token_balance :: "string option"
  do_buy_token_balance :: "string option"

text \<open>A missing balance location is \<open>erc20\<close>.\<close>

definition balance_or_default :: "string option \<Rightarrow> string" where
  "balance_or_default b = (case b of None \<Rightarrow> ''erc20'' | Some s \<Rightarrow> s)"

definition solvable_orders :: "discovered_order list \<Rightarrow> client_order list" where
  "solvable_orders orders =
     map (\<lambda>ord. \<lparr>od_uid = do_uid ord, od_sell = do_sell_token ord, od_buy = do_buy_token ord,
         od_sell_amount = do_sell_amount ord, od_buy_amount = do_buy_amount ord, od_kind = do_kind ord\<rparr>)
       (filter (\<lambda>ord. balance_or_default (do_sell_token_balance ord) = ''erc20'' \<and>
          balance_or_default (do_buy_token_balance ord) = ''erc20'') orders)"

record reserves_query =
  rq_pair :: address
  rq_sell_token :: address
  rq_buy_token :: address

definition oriented :: "reserves_query \<Rightarrow> (u256 \<times> u256) option \<Rightarrow> (u256 \<times> u256) option" where
  "oriented q answer =
     map_option (\<lambda>(reserve0, reserve1). if rq_sell_token q < rq_buy_token q then (reserve0, reserve1) else (reserve1, reserve0)) answer"

subsection \<open>The loop\<close>

record live =
  lv_id :: u64
  lv_valid_until :: u64

record subsolver =
  ss_live :: "bytes \<Rightarrow> live option"
  ss_next_nonce :: u64

record subsolver_config =
  sc_codec :: codec
  sc_crypto :: crypto
  sc_abi :: client_abi
  sc_signer :: signer
  sc_domain :: eip712_domain
  sc_trampoline :: address
  sc_uniswap_router :: address
  sc_create2 :: "address \<Rightarrow> b256 \<Rightarrow> b256 \<Rightarrow> address"
  sc_address_bytes :: "address \<Rightarrow> bytes"
  sc_uniswap_factory :: address
  sc_pair_init_code_hash :: b256
  sc_proposal_ttl :: u64
  sc_extra_interactions :: "interaction list"

text \<open>The calls: the auction (\<open>None\<close>: the request failed), a proposal of ours, the multicall (one entry per
  query, \<open>None\<close> where the pool does not answer), and \<open>POST /proposals\<close>.\<close>

record 'w network =
  nw_auction :: "'w \<Rightarrow> discovered_order list option \<times> 'w"
  nw_get :: "u64 \<Rightarrow> header \<Rightarrow> 'w \<Rightarrow> get_response answer \<times> 'w"
  nw_reserves :: "reserves_query list \<Rightarrow> 'w \<Rightarrow> (u256 \<times> u256) option list option \<times> 'w"
  nw_post :: "create_request \<Rightarrow> 'w \<Rightarrow> u64 answer \<times> 'w"

definition chain_reserves :: "'w network \<Rightarrow> reserves_query list \<Rightarrow> 'w \<Rightarrow> (u256 \<times> u256) option list option \<times> 'w" where
  "chain_reserves nw queries w =
     (if queries = [] then (Some [], w)
      else case nw_reserves nw queries w of
             (None, w') \<Rightarrow> (None, w')
           | (Some results, w') \<Rightarrow> (Some (map (\<lambda>(q, r). oriented q r) (zip queries results)), w'))"

definition holds_live_proposal ::
  "subsolver_config \<Rightarrow> 'w network \<Rightarrow> bytes \<Rightarrow> subsolver \<times> 'w \<Rightarrow> (bool \<times> subsolver \<times> 'w) option" where
  "holds_live_proposal cfg nw order_uid = (\<lambda>(s, w).
     case ss_live s order_uid of
       None \<Rightarrow> Some (False, s, w)
     | Some l \<Rightarrow>
         (case read_auth (sc_codec cfg) (sc_crypto cfg) (sc_abi cfg) (sc_signer cfg) (sc_domain cfg) of
            None \<Rightarrow> None
          | Some h \<Rightarrow>
              (case nw_get nw (lv_id l) h w of
                 (reply, w') \<Rightarrow>
                   (case parse_answer reply of
                      Inr view \<Rightarrow>
                        if is_terminal (gr_status view) then Some (False, s\<lparr>ss_live := (ss_live s)(order_uid := None)\<rparr>, w')
                        else Some (True, s, w')
                    | Inl e \<Rightarrow> Some (True, s, w')))))"

fun pending_orders ::
  "subsolver_config \<Rightarrow> 'w network \<Rightarrow> client_order list \<Rightarrow> subsolver \<times> 'w \<Rightarrow> (client_order list \<times> subsolver \<times> 'w) option" where
  "pending_orders cfg nw [] sw = Some ([], sw)"
| "pending_orders cfg nw (ord # ords) sw =
     Option.bind (holds_live_proposal cfg nw (od_uid ord) sw) (\<lambda>(held, sw').
       map_option (\<lambda>(pending, sw''). (if held then pending else ord # pending, sw'')) (pending_orders cfg nw ords sw'))"

text \<open>\<open>Inr (Some live)\<close>: submitted; \<open>Inr None\<close>: unroutable.\<close>

definition propose ::
  "subsolver_config \<Rightarrow> 'w network \<Rightarrow> client_order \<Rightarrow> u256 \<Rightarrow> u256 \<Rightarrow> u64 \<Rightarrow> subsolver \<times> 'w
    \<Rightarrow> ((client_error + live option) \<times> subsolver \<times> 'w) option" where
  "propose cfg nw ord reserve_sell reserve_buy now = (\<lambda>(s, w).
     (let valid_until = now + sc_proposal_ttl cfg;
          params = \<lparr>rt_router = sc_uniswap_router cfg, rt_trampoline = sc_trampoline cfg,
            rt_reserve_sell = reserve_sell, rt_reserve_buy = reserve_buy, rt_valid_until = valid_until,
            rt_nonce = u256_of (ss_next_nonce s), rt_extra_interactions = sc_extra_interactions cfg\<rparr>
      in case build_proposal (sc_crypto cfg) (sc_abi cfg) ord params (sc_domain cfg) (sc_signer cfg) of
           None \<Rightarrow> None
         | Some None \<Rightarrow> Some (Inr None, s, w)
         | Some (Some p) \<Rightarrow>
             (let s' = s\<lparr>ss_next_nonce := ss_next_nonce s + 1\<rparr> in
              case nw_post nw (request_of (sc_codec cfg) p) w of
                (reply, w') \<Rightarrow>
                  (case parse_answer reply of
                     Inl e \<Rightarrow> Some (Inl e, s', w')
                   | Inr i \<Rightarrow> Some (Inr (Some \<lparr>lv_id = i, lv_valid_until = valid_until\<rparr>), s', w')))))"

fun propose_all ::
  "subsolver_config \<Rightarrow> 'w network \<Rightarrow> u64 \<Rightarrow> (client_order \<times> (u256 \<times> u256) option) list \<Rightarrow> subsolver \<times> 'w
    \<Rightarrow> (subsolver \<times> 'w) option" where
  "propose_all cfg nw now [] sw = Some sw"
| "propose_all cfg nw now ((ord, None) # rest) sw = propose_all cfg nw now rest sw"
| "propose_all cfg nw now ((ord, Some (reserve_sell, reserve_buy)) # rest) sw =
     Option.bind (propose cfg nw ord reserve_sell reserve_buy now sw) (\<lambda>(r, s, w).
       propose_all cfg nw now rest
         (case r of
            Inr (Some l) \<Rightarrow> (s\<lparr>ss_live := (ss_live s)(od_uid ord \<mapsto> l)\<rparr>, w)
          | _ \<Rightarrow> (s, w)))"

definition unexpired :: "u64 \<Rightarrow> (bytes \<Rightarrow> live option) \<Rightarrow> bytes \<Rightarrow> live option" where
  "unexpired now lives uid = (case lives uid of None \<Rightarrow> None | Some l \<Rightarrow> if now < lv_valid_until l then Some l else None)"

text \<open>\<open>False\<close>: the pass failed as a whole.\<close>

definition poll_once ::
  "subsolver_config \<Rightarrow> 'w network \<Rightarrow> u64 \<Rightarrow> subsolver \<times> 'w \<Rightarrow> (bool \<times> subsolver \<times> 'w) option" where
  "poll_once cfg nw now = (\<lambda>(s, w).
     (let s = s\<lparr>ss_live := unexpired now (ss_live s)\<rparr> in
      case nw_auction nw w of
        (None, w) \<Rightarrow> Some (False, s, w)
      | (Some orders, w) \<Rightarrow>
          Option.bind (pending_orders cfg nw (solvable_orders orders) (s, w)) (\<lambda>(pending, s, w).
            (let queries = map (\<lambda>ord. \<lparr>rq_pair = pair_address (keccak256 (sc_crypto cfg)) (sc_create2 cfg) (sc_address_bytes cfg)
                     (sc_uniswap_factory cfg) (sc_pair_init_code_hash cfg) (od_sell ord) (od_buy ord),
                   rq_sell_token = od_sell ord, rq_buy_token = od_buy ord\<rparr>) pending in
             case chain_reserves nw queries w of
               (None, w) \<Rightarrow> Some (False, s, w)
             | (Some reserves, w) \<Rightarrow>
                 map_option (\<lambda>sw. (True, sw)) (propose_all cfg nw now (zip pending reserves) (s, w))))))"

subsection \<open>Start-up and the loop of the binary\<close>

text \<open>The TOML file; \<open>None\<close> is an absent key with a default.\<close>

record config_file =
  cf_chain_id :: u64
  cf_trampoline_factory :: address
  cf_uniswap_router :: address
  cf_uniswap_factory :: address
  cf_pair_init_code_hash :: b256
  cf_proposal_ttl :: "u64 option"
  cf_append_revert :: "bool option"

definition default_proposal_ttl :: u64 where "default_proposal_ttl = 60"

text \<open>\<open>append-revert\<close>: a call of an unknown selector on the router.\<close>

definition extra_interactions_of :: "config_file \<Rightarrow> interaction list" where
  "extra_interactions_of file =
     (if cf_append_revert file = Some True
      then [\<lparr>i_target = cf_uniswap_router file, i_value = 0, i_callData = [0xba, 0x5e, 0xba, 0x11]\<rparr>] else [])"

text \<open>The trampoline is the factory's answer; the third-party parts come from the surroundings.\<close>

definition started_config ::
  "codec \<Rightarrow> crypto \<Rightarrow> client_abi \<Rightarrow> (address \<Rightarrow> b256 \<Rightarrow> b256 \<Rightarrow> address) \<Rightarrow> (address \<Rightarrow> bytes) \<Rightarrow> config_file \<Rightarrow> signer
    \<Rightarrow> address \<Rightarrow> subsolver_config" where
  "started_config c k e create2 as_slice file s trampoline =
     \<lparr>sc_codec = c, sc_crypto = k, sc_abi = e, sc_signer = s,
      sc_domain = byos_domain (cf_chain_id file) (cf_trampoline_factory file), sc_trampoline = trampoline,
      sc_uniswap_router = cf_uniswap_router file, sc_create2 = create2, sc_address_bytes = as_slice,
      sc_uniswap_factory = cf_uniswap_factory file, sc_pair_init_code_hash = cf_pair_init_code_hash file,
      sc_proposal_ttl = (case cf_proposal_ttl file of None \<Rightarrow> default_proposal_ttl | Some t \<Rightarrow> t),
      sc_extra_interactions = extra_interactions_of file\<rparr>"

text \<open>The nonces start at the clock in milliseconds; \<open>None\<close> is a clock before the epoch or past \<open>u64\<close>.\<close>

definition new_subsolver :: "time \<Rightarrow> subsolver option" where
  "new_subsolver now =
     (if 0 \<le> now \<and> now div 1000 < 2 ^ 64 then Some \<lparr>ss_live = (\<lambda>_. None), ss_next_nonce = word_of_int (now div 1000)\<rparr> else None)"

fun poll_loop :: "subsolver_config \<Rightarrow> 'w network \<Rightarrow> time list \<Rightarrow> subsolver \<times> 'w \<Rightarrow> (subsolver \<times> 'w) option" where
  "poll_loop cfg nw [] sw = Some sw"
| "poll_loop cfg nw (t # ts) sw =
     Option.bind (unix_secs t) (\<lambda>now.
     Option.bind (poll_once cfg nw now sw) (\<lambda>(ok, sw'). poll_loop cfg nw ts sw'))"

subsection \<open>One live proposal per order\<close>

text \<open>An order may be proposed for when no submission for it is live, or the service has finished with it.\<close>

definition freed :: "(u64 \<Rightarrow> bool) \<Rightarrow> live option \<Rightarrow> bool" where
  "freed finished l \<longleftrightarrow> (case l of None \<Rightarrow> True | Some v \<Rightarrow> finished (lv_id v))"

text \<open>The proposals posted by a sweep over the pending orders.\<close>

definition sweep_posts ::
  "('w \<Rightarrow> create_request list) \<Rightarrow> subsolver_config \<Rightarrow> u64 \<Rightarrow> bytes list \<Rightarrow> subsolver \<times> 'w \<Rightarrow> subsolver \<times> 'w \<Rightarrow> bool" where
  "sweep_posts posted cfg now uids = (\<lambda>(s, w) (s', w').
     \<exists>ps. posted w' = posted w @ map (request_of (sc_codec cfg)) ps \<and>
       map sd_nonce ps = map (\<lambda>i. u256_of (ss_next_nonce s + word_of_nat i)) [0..<length ps] \<and>
       ss_next_nonce s' = ss_next_nonce s + word_of_nat (length ps) \<and>
       set (map sd_order_uid ps) \<subseteq> set uids \<and> distinct (map sd_order_uid ps) \<and>
       (\<forall>p\<in>set ps. sd_valid_until p = now + sc_proposal_ttl cfg))"

definition nonces_from :: "u64 \<Rightarrow> nat \<Rightarrow> u256 list" where
  "nonces_from n k = map (\<lambda>i. u256_of (n + word_of_nat i)) [0..<k]"

lemma nonces_from_add: "nonces_from n (k + l) = nonces_from n k @ nonces_from (n + word_of_nat k) l"
proof -
  have "[0..<k + l] = [0..<k] @ map (\<lambda>i. i + k) [0..<l]" using upt_add_eq_append [of 0 k l] by (simp add: map_add_upt add.commute)
  then show ?thesis by (simp add: nonces_from_def comp_def ac_simps)
qed

lemma nonces_from_exact:
  assumes "unat n + k \<le> 2 ^ 64"
  shows "map unat (nonces_from n k) = [unat n..<unat n + k]"
proof -
  have "unat (u256_of (n + word_of_nat i)) = unat n + i" if "i < k" for i
  proof -
    have "unat (word_of_nat i :: u64) = i" using that assms by (simp add: unat_of_nat)
    moreover have "unat n + unat (word_of_nat i :: u64) < 2 ^ 64" using that assms calculation by simp
    ultimately show ?thesis by (simp add: arith_facts unat_add_lem [THEN iffD1])
  qed
  then have "map unat (nonces_from n k) = map (\<lambda>i. i + unat n) [0..<k]" by (simp add: nonces_from_def)
  then show ?thesis by (simp add: map_add_upt ac_simps)
qed

text \<open>The interface: \<open>posted\<close> is what the service was sent, and \<open>finished i\<close> holds of a proposal whose
  status was reported terminal.\<close>

locale submission_log =
  fixes nw :: "'w network" and posted :: "'w \<Rightarrow> create_request list" and finished :: "u64 \<Rightarrow> bool"
  assumes auction_quiet: "nw_auction nw w = (a, w') \<Longrightarrow> posted w' = posted w"
    and get_quiet: "nw_get nw i h w = (g, w') \<Longrightarrow> posted w' = posted w"
    and get_finished: "nw_get nw i h w = (g, w') \<Longrightarrow> parse_answer g = Inr view \<Longrightarrow> is_terminal (gr_status view) \<Longrightarrow> finished i"
    and reserves_quiet: "nw_reserves nw qs w = (rs, w') \<Longrightarrow> posted w' = posted w"
    and post_logged: "nw_post nw req w = (p, w') \<Longrightarrow> posted w' = posted w @ [req]"
begin

lemma holds_live_result:
  assumes "holds_live_proposal cfg nw uid (s, w) = Some (held, s', w')"
  shows "posted w' = posted w \<and> ss_next_nonce s' = ss_next_nonce s \<and>
    (\<forall>u. u \<noteq> uid \<longrightarrow> ss_live s' u = ss_live s u) \<and> (ss_live s' uid = ss_live s uid \<or> ss_live s' uid = None) \<and>
    (\<not> held \<longrightarrow> ss_live s' uid = None \<and> freed finished (ss_live s uid))"
proof (cases "ss_live s uid")
  case None
  then have "held = False \<and> s' = s \<and> w' = w" using assms by (simp add: holds_live_proposal_def)
  with None show ?thesis by (simp add: freed_def)
next
  case (Some l)
  with assms obtain h where h: "read_auth (sc_codec cfg) (sc_crypto cfg) (sc_abi cfg) (sc_signer cfg) (sc_domain cfg) = Some h"
    by (auto simp: holds_live_proposal_def split: option.splits)
  obtain g w1 where g: "nw_get nw (lv_id l) h w = (g, w1)" by (cases "nw_get nw (lv_id l) h w")
  note q = get_quiet [OF g]
  have "w' = w1 \<and> (held \<and> s' = s \<or> \<not> held \<and> finished (lv_id l) \<and> s' = s\<lparr>ss_live := (ss_live s)(uid := None)\<rparr>)"
  proof (cases "parse_answer g")
    case (Inl e)
    with assms Some h g show ?thesis by (simp add: holds_live_proposal_def)
  next
    case (Inr view)
    with get_finished [OF g Inr] assms Some h g show ?thesis
      by (cases "is_terminal (gr_status view)") (simp_all add: holds_live_proposal_def)
  qed
  with q Some show ?thesis by (elim conjE disjE) (simp_all add: freed_def)
qed

lemma pending_orders_result:
  assumes "distinct (map od_uid ords)" and "pending_orders cfg nw ords (s, w) = Some (pending, s', w')"
  shows "posted w' = posted w \<and> ss_next_nonce s' = ss_next_nonce s \<and> set pending \<subseteq> set ords \<and>
    distinct (map od_uid pending) \<and> (\<forall>u. ss_live s' u = ss_live s u \<or> ss_live s' u = None) \<and>
    (\<forall>ord\<in>set pending. freed finished (ss_live s (od_uid ord)))"
  using assms
proof (induction ords arbitrary: s w pending)
  case (Cons ord ords)
  obtain held s1 w1 where one: "holds_live_proposal cfg nw (od_uid ord) (s, w) = Some (held, s1, w1)"
      and rest: "\<exists>pend. pending_orders cfg nw ords (s1, w1) = Some (pend, s', w') \<and> pending = (if held then pend else ord # pend)"
    using Cons.prems(2) by (auto simp: bind_eq_Some_conv)
  then obtain pend where r: "pending_orders cfg nw ords (s1, w1) = Some (pend, s', w')"
      and p: "pending = (if held then pend else ord # pend)" by blast
  note h = holds_live_result [OF one]
  have dst: "distinct (map od_uid ords)" "od_uid ord \<notin> od_uid ` set ords" using Cons.prems(1) by auto
  note IH = Cons.IH [OF dst(1) r]
  have sub: "set pend \<subseteq> set ords" and nodup: "distinct (map od_uid pend)" using IH by simp_all
  have fresh: "od_uid ord \<notin> od_uid ` set pend" using sub dst(2) by blast
  have fr: "freed finished (ss_live s (od_uid o'))" if "o' \<in> set pend" for o'
  proof -
    have "od_uid o' \<noteq> od_uid ord" using fresh that by (metis imageI)
    with h have "ss_live s1 (od_uid o') = ss_live s (od_uid o')" by blast
    moreover have "freed finished (ss_live s1 (od_uid o'))" using IH that by blast
    ultimately show ?thesis by simp
  qed
  have kept: "ss_live s' u = ss_live s u \<or> ss_live s' u = None" for u
  proof -
    have "ss_live s' u = ss_live s1 u \<or> ss_live s' u = None" using IH by (elim conjE allE)
    moreover have "ss_live s1 u = ss_live s u \<or> ss_live s1 u = None" using h by (cases "u = od_uid ord") simp_all
    ultimately show ?thesis by fastforce
  qed
  have ends: "posted w' = posted w" "ss_next_nonce s' = ss_next_nonce s" using IH h by simp_all
  show ?case
  proof (cases held)
    case True
    with p have "pending = pend" by simp
    with ends kept fr sub nodup show ?thesis by auto
  next
    case False
    with p have p: "pending = ord # pend" by simp
    from False h have "freed finished (ss_live s (od_uid ord))" by blast
    with ends kept fr sub nodup fresh show ?thesis unfolding p by auto
  qed
qed simp

lemma propose_result:
  assumes "propose cfg nw ord rs rb now (s, w) = Some (r, s', w')"
  shows "ss_live s' = ss_live s \<and>
    (posted w' = posted w \<and> ss_next_nonce s' = ss_next_nonce s \<and> r = Inr None \<or>
     (\<exists>p. posted w' = posted w @ [request_of (sc_codec cfg) p] \<and> ss_next_nonce s' = ss_next_nonce s + 1 \<and>
        sd_order_uid p = od_uid ord \<and> sd_nonce p = u256_of (ss_next_nonce s) \<and> sd_valid_until p = now + sc_proposal_ttl cfg))"
proof -
  let ?params = "\<lparr>rt_router = sc_uniswap_router cfg, rt_trampoline = sc_trampoline cfg,
            rt_reserve_sell = rs, rt_reserve_buy = rb, rt_valid_until = now + sc_proposal_ttl cfg,
            rt_nonce = u256_of (ss_next_nonce s), rt_extra_interactions = sc_extra_interactions cfg\<rparr>"
  note run = assms [unfolded propose_def Let_def, simplified]
  show ?thesis
  proof (cases "build_proposal (sc_crypto cfg) (sc_abi cfg) ord ?params (sc_domain cfg) (sc_signer cfg)")
    case None
    with run show ?thesis by simp
  next
    case b: (Some b)
    show ?thesis
    proof (cases b)
      case None
      with run b show ?thesis by simp
    next
      case (Some p)
      note bp = built_proposal [OF b [unfolded Some]]
      obtain a w1 where a: "nw_post nw (request_of (sc_codec cfg) p) w = (a, w1)"
        by (cases "nw_post nw (request_of (sc_codec cfg) p) w")
      have "s' = s\<lparr>ss_next_nonce := ss_next_nonce s + 1\<rparr> \<and> w' = w1"
        using run b Some a by (cases "parse_answer a") simp_all
      with bp post_logged [OF a] show ?thesis by (intro conjI disjI2 exI [of _ p]) auto
    qed
  qed
qed

lemma propose_all_result:
  assumes "distinct (map (\<lambda>it. od_uid (fst it)) items)" and "propose_all cfg nw now items (s, w) = Some (s', w')"
  shows "sweep_posts posted cfg now (map (\<lambda>it. od_uid (fst it)) items) (s, w) (s', w')"
  using assms
proof (induction items arbitrary: s w)
  case Nil
  then show ?case by (auto simp: sweep_posts_def intro!: exI [of _ "[]"])
next
  case (Cons item rest)
  obtain ord q where item: "item = (ord, q)" by (cases item)
  have dst: "distinct (map (\<lambda>it. od_uid (fst it)) rest)" "od_uid ord \<notin> set (map (\<lambda>it. od_uid (fst it)) rest)"
    using Cons.prems(1) item by (simp_all add: comp_def)
  have skip: "sweep_posts posted cfg now (map (\<lambda>it. od_uid (fst it)) (item # rest)) (s, w) (s', w')"
    if "sweep_posts posted cfg now (map (\<lambda>it. od_uid (fst it)) rest) (t, w1) (s', w')" "posted w1 = posted w" "ss_next_nonce t = ss_next_nonce s"
    for t w1 using that by (auto simp: sweep_posts_def)
  show ?case
  proof (cases q)
    case None
    with Cons.prems(2) item have "propose_all cfg nw now rest (s, w) = Some (s', w')" by simp
    from skip [OF Cons.IH [OF dst(1) this]] show ?thesis by simp
  next
    case (Some rr)
    obtain rs rb where rr: "rr = (rs, rb)" by (cases rr)
    obtain r t w1 where one: "propose cfg nw ord rs rb now (s, w) = Some (r, t, w1)"
        and cont: "propose_all cfg nw now rest
          (case r of Inr (Some l) \<Rightarrow> (t\<lparr>ss_live := (ss_live t)(od_uid ord \<mapsto> l)\<rparr>, w1) | _ \<Rightarrow> (t, w1)) = Some (s', w')"
      using Cons.prems(2) item Some rr by (auto simp: bind_eq_Some_conv)
    obtain t' where t': "propose_all cfg nw now rest (t', w1) = Some (s', w')" "ss_next_nonce t' = ss_next_nonce t"
      using cont by (cases r; cases "projr r") auto
    note sp = Cons.IH [OF dst(1) t'(1)]
    from propose_result [OF one] show ?thesis
    proof (elim conjE disjE exE)
      assume "posted w1 = posted w" "ss_next_nonce t = ss_next_nonce s"
      with skip [OF sp] t'(2) show ?thesis by simp
    next
      fix p assume p: "posted w1 = posted w @ [request_of (sc_codec cfg) p]" "ss_next_nonce t = ss_next_nonce s + 1"
        "sd_order_uid p = od_uid ord" "sd_nonce p = u256_of (ss_next_nonce s)" "sd_valid_until p = now + sc_proposal_ttl cfg"
      from sp obtain ps where ps: "posted w' = posted w1 @ map (request_of (sc_codec cfg)) ps"
        "map sd_nonce ps = map (\<lambda>i. u256_of (ss_next_nonce t' + word_of_nat i)) [0..<length ps]"
        "ss_next_nonce s' = ss_next_nonce t' + word_of_nat (length ps)"
        "set (map sd_order_uid ps) \<subseteq> set (map (\<lambda>it. od_uid (fst it)) rest)" "distinct (map sd_order_uid ps)"
        "\<forall>p\<in>set ps. sd_valid_until p = now + sc_proposal_ttl cfg" by (auto simp: sweep_posts_def)
      have "[0..<length (p # ps)] = 0 # map Suc [0..<length ps]" by (simp add: map_Suc_upt upt_conv_Cons del: upt_Suc)
      then have "map sd_nonce (p # ps) = map (\<lambda>i. u256_of (ss_next_nonce s + word_of_nat i)) [0..<length (p # ps)]"
        using ps(2) p t'(2) by (simp add: comp_def ac_simps del: upt_Suc)
      moreover have "od_uid ord \<notin> set (map sd_order_uid ps)" using ps(4) dst(2) by blast
      ultimately show ?thesis unfolding sweep_posts_def prod.case
        using p ps t'(2) by (intro exI [of _ "p # ps"]) (auto simp: item ac_simps)
    qed
  qed
qed

lemma poll_once_result:
  assumes "case nw_auction nw w of (None, _) \<Rightarrow> True | (Some orders, _) \<Rightarrow> distinct (map do_uid orders)"
    and "poll_once cfg nw now (s, w) = Some (ok, s', w')"
  shows "\<exists>uids. sweep_posts posted cfg now uids (s, w) (s', w') \<and>
    (\<forall>u\<in>set uids. freed finished (unexpired now (ss_live s) u))"
proof -
  let ?s = "s\<lparr>ss_live := unexpired now (ss_live s)\<rparr>"
  obtain a w1 where a: "nw_auction nw w = (a, w1)" by (cases "nw_auction nw w")
  note quiet = auction_quiet [OF a]
  have idle: ?thesis if "posted w' = posted w" "ss_next_nonce s' = ss_next_nonce s"
    using that by (intro exI [of _ "[]"]) (simp add: sweep_posts_def)
  show ?thesis
  proof (cases a)
    case None
    with assms(2) a have "s' = ?s \<and> w' = w1" by (simp add: poll_once_def Let_def)
    with quiet show ?thesis by (intro idle) simp_all
  next
    case (Some orders)
    with assms(2) a obtain pending s2 w2 where p: "pending_orders cfg nw (solvable_orders orders) (?s, w1) = Some (pending, s2, w2)"
      by (auto simp: poll_once_def Let_def bind_eq_Some_conv)
    have "distinct (map do_uid orders)" using assms(1) a Some by simp
    then have "distinct (map od_uid (solvable_orders orders))"
      by (simp add: solvable_orders_def comp_def distinct_map_filter)
    note r = pending_orders_result [OF this p]
    define queries where "queries = map (\<lambda>ord. \<lparr>rq_pair = pair_address (keccak256 (sc_crypto cfg)) (sc_create2 cfg) (sc_address_bytes cfg)
        (sc_uniswap_factory cfg) (sc_pair_init_code_hash cfg) (od_sell ord) (od_buy ord),
        rq_sell_token = od_sell ord, rq_buy_token = od_buy ord\<rparr>) pending"
    obtain rs w3 where rs: "chain_reserves nw queries w2 = (rs, w3)" by (cases "chain_reserves nw queries w2")
    then have q3: "posted w3 = posted w2"
      by (auto simp: chain_reserves_def dest: reserves_quiet split: if_splits prod.splits option.splits)
    have rest: "(case rs of None \<Rightarrow> Some (False, s2, w3)
        | Some reserves \<Rightarrow> map_option (Pair True) (propose_all cfg nw now (zip pending reserves) (s2, w3))) = Some (ok, s', w')"
      using assms(2) a Some p rs by (simp add: poll_once_def Let_def queries_def)
    show ?thesis
    proof (cases rs)
      case None
      with rest r quiet q3 show ?thesis by (intro idle) simp_all
    next
      case (Some reserves)
      with rest have all: "propose_all cfg nw now (zip pending reserves) (s2, w3) = Some (s', w')" by auto
      let ?uids = "map (\<lambda>it. od_uid (fst it)) (zip pending reserves)"
      have "?uids = map od_uid (map fst (zip pending reserves))" by simp
      also have "\<dots> = take (length reserves) (map od_uid pending)" by (simp only: map_fst_zip_take take_map)
        (simp add: min_def)
      finally have eq: "?uids = take (length reserves) (map od_uid pending)" .
      have "distinct ?uids" using r unfolding eq by simp
      from propose_all_result [OF this all] have "sweep_posts posted cfg now ?uids (s2, w3) (s', w')" .
      then have "sweep_posts posted cfg now ?uids (s, w) (s', w')"
        using r q3 quiet by (simp add: sweep_posts_def)
      moreover have "freed finished (unexpired now (ss_live s) u)" if "u \<in> set ?uids" for u
      proof -
        from that obtain ord where "ord \<in> set pending" "u = od_uid ord" unfolding eq by (auto simp: take_map dest: in_set_takeD)
        with r show ?thesis by auto
      qed
      ultimately show ?thesis by blast
    qed
  qed
qed

text \<open>What a run of the loop posts, and the nonces it uses.\<close>

lemma poll_loop_posts:
  assumes "\<And>w. case nw_auction nw w of (None, _) \<Rightarrow> True | (Some orders, _) \<Rightarrow> distinct (map do_uid orders)"
    and "poll_loop cfg nw ts (s, w) = Some (s', w')"
  shows "\<exists>ps. posted w' = posted w @ map (request_of (sc_codec cfg)) ps \<and>
    map sd_nonce ps = nonces_from (ss_next_nonce s) (length ps) \<and>
    ss_next_nonce s' = ss_next_nonce s + word_of_nat (length ps)"
  using assms(2)
proof (induction ts arbitrary: s w)
  case Nil
  then show ?case by (intro exI [of _ "[]"]) (simp add: nonces_from_def)
next
  case (Cons t ts)
  then obtain now ok s1 w1 where one: "poll_once cfg nw now (s, w) = Some (ok, s1, w1)"
      and rest: "poll_loop cfg nw ts (s1, w1) = Some (s', w')"
    by (auto simp: bind_eq_Some_conv)
  obtain ps where ps: "posted w1 = posted w @ map (request_of (sc_codec cfg)) ps"
      "map sd_nonce ps = nonces_from (ss_next_nonce s) (length ps)" "ss_next_nonce s1 = ss_next_nonce s + word_of_nat (length ps)"
    using poll_once_result [OF assms(1) one] by (auto simp: sweep_posts_def nonces_from_def)
  obtain qs where qs: "posted w' = posted w1 @ map (request_of (sc_codec cfg)) qs"
      "map sd_nonce qs = nonces_from (ss_next_nonce s1) (length qs)" "ss_next_nonce s' = ss_next_nonce s1 + word_of_nat (length qs)"
    using Cons.IH [OF rest] by blast
  show ?case using ps qs by (intro exI [of _ "ps @ qs"]) (simp add: nonces_from_add ac_simps)
qed

end

subsection \<open>Passes do not panic\<close>

definition signer_total :: "signer \<Rightarrow> bool" where
  "signer_total s \<longleftrightarrow> (\<forall>h. sg_sign_hash s h \<noteq> None)"

lemma signs_something:
  assumes "signer_total s"
  shows "build_proposal k e ord params domain s \<noteq> None" and "read_auth c k e s domain \<noteq> None"
proof -
  have some: "sg_sign_hash s h \<noteq> None" for h using assms by (simp add: signer_total_def)
  show "build_proposal k e ord params domain s \<noteq> None"
    using some by (auto simp: build_proposal_def Let_def sign_proposal_def simp del: not_None_eq split: option.splits)
  show "read_auth c k e s domain \<noteq> None"
    using some by (simp add: read_auth_def sign_read_auth_def del: not_None_eq)
qed

lemma holds_live_total: "signer_total (sc_signer cfg) \<Longrightarrow> holds_live_proposal cfg nw uid (s, w) \<noteq> None"
  using signs_something(2) [of "sc_signer cfg" "sc_codec cfg" "sc_crypto cfg" "sc_abi cfg" "sc_domain cfg"]
  by (auto simp: holds_live_proposal_def split: option.splits prod.splits sum.splits)

lemma pending_orders_total: "signer_total (sc_signer cfg) \<Longrightarrow> pending_orders cfg nw ords sw \<noteq> None"
proof (induction ords arbitrary: sw)
  case (Cons ord ords)
  obtain h sw' where "holds_live_proposal cfg nw (od_uid ord) sw = Some (h, sw')"
    using holds_live_total [OF Cons.prems] by (cases sw) fastforce
  with Cons show ?case by simp
qed simp

lemma propose_total: "signer_total (sc_signer cfg) \<Longrightarrow> propose cfg nw ord rs rb now (s, w) \<noteq> None"
  using signs_something(1) [of "sc_signer cfg" "sc_crypto cfg" "sc_abi cfg" ord]
  by (simp add: propose_def Let_def split: option.splits prod.splits sum.splits)

lemma propose_all_total: "signer_total (sc_signer cfg) \<Longrightarrow> propose_all cfg nw now items sw \<noteq> None"
proof (induction cfg nw now items sw rule: propose_all.induct)
  case (3 cfg nw now ord rs rb rest sw)
  obtain r s w where "propose cfg nw ord rs rb now sw = Some (r, s, w)"
    using propose_total [OF 3(2)] by (cases sw) fastforce
  with 3 show ?case by simp
qed simp_all

lemma poll_once_total:
  assumes "signer_total (sc_signer cfg)"
  shows "poll_once cfg nw now (s, w) \<noteq> None"
proof -
  obtain a w1 where a: "nw_auction nw w = (a, w1)" by (cases "nw_auction nw w")
  show ?thesis
  proof (cases a)
    case None
    with a show ?thesis by (simp add: poll_once_def Let_def)
  next
    case (Some orders)
    obtain pending s2 w2 where "pending_orders cfg nw (solvable_orders orders) (s\<lparr>ss_live := unexpired now (ss_live s)\<rparr>, w1) = Some (pending, s2, w2)"
      using pending_orders_total [OF assms] by (metis not_None_eq prod_cases3)
    with a Some show ?thesis
      by (simp add: poll_once_def Let_def propose_all_total [OF assms] split: prod.splits option.splits del: not_None_eq)
  qed
qed

subsection \<open>A network with a log\<close>

text \<open>Replies that depend on the moment of the call in any way, and a record of what was posted.\<close>

record trace =
  tr_posted :: "create_request list"
  tr_step :: nat

record replies =
  re_auction :: "nat \<Rightarrow> discovered_order list option"
  re_get :: "nat \<Rightarrow> u64 \<Rightarrow> header \<Rightarrow> get_response answer"
  re_reserves :: "nat \<Rightarrow> reserves_query list \<Rightarrow> (u256 \<times> u256) option list option"
  re_post :: "nat \<Rightarrow> create_request \<Rightarrow> u64 answer"

definition logged :: "replies \<Rightarrow> trace network" where
  "logged re =
     \<lparr>nw_auction = (\<lambda>w. (re_auction re (tr_step w), w\<lparr>tr_step := tr_step w + 1\<rparr>)),
      nw_get = (\<lambda>i h w. (re_get re (tr_step w) i h, w\<lparr>tr_step := tr_step w + 1\<rparr>)),
      nw_reserves = (\<lambda>qs w. (re_reserves re (tr_step w) qs, w\<lparr>tr_step := tr_step w + 1\<rparr>)),
      nw_post = (\<lambda>req w. (re_post re (tr_step w) req, \<lparr>tr_posted = tr_posted w @ [req], tr_step = tr_step w + 1\<rparr>))\<rparr>"

definition reported_terminal :: "replies \<Rightarrow> u64 \<Rightarrow> bool" where
  "reported_terminal re i \<longleftrightarrow> (\<exists>n h view. parse_answer (re_get re n i h) = Inr view \<and> is_terminal (gr_status view))"

interpretation log: submission_log "logged re" tr_posted "reported_terminal re" for re
  by unfold_locales (auto simp: logged_def reported_terminal_def)

text \<open>C36. One live proposal per order. Whatever the auction, the chain and the service answer, a poll whose
  signer signs completes without a panic, and what it posts is at most one proposal per order, each for an order
  with no submission of the sub-solver that is both unexpired and not reported terminal; their
  nonces are the next ones in sequence, none reused, and they expire one lifetime after the poll.\<close>

theorem poll_submits_fresh:
  assumes "signer_total (sc_signer cfg)"
    and "case re_auction re (tr_step w) of None \<Rightarrow> True | Some orders \<Rightarrow> distinct (map do_uid orders)"
  shows "case poll_once cfg (logged re) now (s, w) of
      None \<Rightarrow> False
    | Some (ok, s', w') \<Rightarrow> \<exists>ps. tr_posted w' = tr_posted w @ map (request_of (sc_codec cfg)) ps \<and>
        distinct (map sd_order_uid ps) \<and>
        (\<forall>p\<in>set ps. freed (reported_terminal re) (unexpired now (ss_live s) (sd_order_uid p)) \<and>
           sd_valid_until p = now + sc_proposal_ttl cfg) \<and>
        map sd_nonce ps = map (\<lambda>i. u256_of (ss_next_nonce s + word_of_nat i)) [0..<length ps] \<and>
        ss_next_nonce s' = ss_next_nonce s + word_of_nat (length ps)"
proof -
  obtain ok s' w' where run: "poll_once cfg (logged re) now (s, w) = Some (ok, s', w')"
    using poll_once_total [OF assms(1)] by (metis not_None_eq prod_cases3)
  have "case nw_auction (logged re) w of (None, _) \<Rightarrow> True | (Some orders, _) \<Rightarrow> distinct (map do_uid orders)"
    using assms(2) by (simp add: logged_def split: option.splits)
  from log.poll_once_result [OF this run] obtain uids ps where
    "tr_posted w' = tr_posted w @ map (request_of (sc_codec cfg)) ps" "distinct (map sd_order_uid ps)"
    "set (map sd_order_uid ps) \<subseteq> set uids" "\<forall>p\<in>set ps. sd_valid_until p = now + sc_proposal_ttl cfg"
    "\<forall>u\<in>set uids. freed (reported_terminal re) (unexpired now (ss_live s) u)"
    "map sd_nonce ps = map (\<lambda>i. u256_of (ss_next_nonce s + word_of_nat i)) [0..<length ps]"
    "ss_next_nonce s' = ss_next_nonce s + word_of_nat (length ps)" by (auto simp: sweep_posts_def)
  then have "tr_posted w' = tr_posted w @ map (request_of (sc_codec cfg)) ps \<and> distinct (map sd_order_uid ps) \<and>
        (\<forall>p\<in>set ps. freed (reported_terminal re) (unexpired now (ss_live s) (sd_order_uid p)) \<and>
           sd_valid_until p = now + sc_proposal_ttl cfg) \<and>
        map sd_nonce ps = map (\<lambda>i. u256_of (ss_next_nonce s + word_of_nat i)) [0..<length ps] \<and>
        ss_next_nonce s' = ss_next_nonce s + word_of_nat (length ps)" by auto
  then show ?thesis unfolding run option.case prod.case by (rule exI)
qed

lemma poll_loop_total:
  assumes "signer_total (sc_signer cfg)" and "\<forall>t\<in>set ts. 0 \<le> t"
  shows "poll_loop cfg nw ts sw \<noteq> None"
  using assms(2)
proof (induction ts arbitrary: sw)
  case (Cons t ts)
  obtain now where "unix_secs t = Some now" using Cons.prems by (simp add: unix_secs_def)
  moreover obtain ok sw' where "poll_once cfg nw now sw = Some (ok, sw')"
    using poll_once_total [OF assms(1)] by (cases sw) fastforce
  ultimately show ?case using Cons by simp
qed simp

text \<open>C37. Nonces are never reused, across restarts too. A sub-solver started at time \<open>t\<close> runs its loop to
  the end whatever it is answered, and the nonces of all it posts are the consecutive integers from \<open>t\<close> in
  milliseconds; so a later life that starts at least as many milliseconds later as proposals were posted
  uses none of them again.\<close>

theorem nonces_never_reused:
  assumes "signer_total (sc_signer cfg)" and "\<forall>u\<in>set ts. 0 \<le> u"
    and "\<forall>n. case re_auction re n of None \<Rightarrow> True | Some orders \<Rightarrow> distinct (map do_uid orders)"
    and "new_subsolver t = Some s"
  shows "\<exists>s' w' ps. poll_loop cfg (logged re) ts (s, w) = Some (s', w') \<and>
    tr_posted w' = tr_posted w @ map (request_of (sc_codec cfg)) ps \<and>
    (nat (t div 1000) + length ps \<le> 2 ^ 64 \<longrightarrow>
       map (\<lambda>p. unat (sd_nonce p)) ps = [nat (t div 1000)..<nat (t div 1000) + length ps] \<and>
       (\<forall>t' s2. new_subsolver t' = Some s2 \<and> t + 1000 * int (length ps) \<le> t' \<longrightarrow>
          (\<forall>p\<in>set ps. unat (sd_nonce p) < unat (ss_next_nonce s2))))"
proof -
  obtain s' w' where run: "poll_loop cfg (logged re) ts (s, w) = Some (s', w')"
    using poll_loop_total [OF assms(1,2)] by fastforce
  have "case nw_auction (logged re) w of (None, _) \<Rightarrow> True | (Some orders, _) \<Rightarrow> distinct (map do_uid orders)" for w
    using assms(3) [rule_format, of "tr_step w"] by (simp add: logged_def split: option.splits)
  from log.poll_loop_posts [OF this run] obtain ps where ps:
    "tr_posted w' = tr_posted w @ map (request_of (sc_codec cfg)) ps"
    "map sd_nonce ps = nonces_from (ss_next_nonce s) (length ps)" by blast
  have start: "unat (ss_next_nonce s2) = nat (t' div 1000)" if "new_subsolver t' = Some s2" for t' s2
  proof -
    from that have b: "0 \<le> t' div 1000" "t' div 1000 < 2 ^ 64" and s2: "ss_next_nonce s2 = word_of_int (t' div 1000)"
      by (auto simp: new_subsolver_def split: if_splits)
    have "take_bit 64 (t' div 1000) = t' div 1000" using b by (simp add: take_bit_int_eq_self)
    then show ?thesis unfolding s2 by (simp add: unsigned_of_int)
  qed
  have nonces: "map (\<lambda>p. unat (sd_nonce p)) ps = [nat (t div 1000)..<nat (t div 1000) + length ps]"
    if "nat (t div 1000) + length ps \<le> 2 ^ 64"
    using nonces_from_exact [of "ss_next_nonce s" "length ps"] that ps(2) start [OF assms(4)]
    by (metis (no_types, lifting) comp_apply list.map_comp list.map_cong0)
  have later: "unat (sd_nonce p) < unat (ss_next_nonce s2)"
    if "nat (t div 1000) + length ps \<le> 2 ^ 64" "new_subsolver t' = Some s2" "t + 1000 * int (length ps) \<le> t'" "p \<in> set ps"
    for t' s2 p
  proof -
    have "unat (sd_nonce p) \<in> set (map (\<lambda>p. unat (sd_nonce p)) ps)" using that(4) by simp
    then have "unat (sd_nonce p) < nat (t div 1000) + length ps" unfolding nonces [OF that(1)] by simp
    moreover have "0 \<le> t" using assms(4) by (simp add: new_subsolver_def split: if_splits)
    then have "nat (t div 1000) + length ps \<le> nat (t' div 1000)" using that(3) by linarith
    ultimately show ?thesis using start [OF that(2)] by simp
  qed
  show ?thesis using run ps(1) nonces later by blast
qed

text \<open>An order sold into a pool of 100000 each, proposed once; then again when its proposal is reported
  expired.\<close>

definition sample_replies :: replies where
  "sample_replies =
     \<lparr>re_auction = (\<lambda>_. Some [\<lparr>do_uid = replicate 56 0, do_sell_token = 5, do_buy_token = 6, do_sell_amount = 1000,
        do_buy_amount = 900, do_kind = Sell, do_sell_token_balance = None, do_buy_token_balance = None\<rparr>]),
      re_get = (\<lambda>_ _ _. NoAnswer), re_reserves = (\<lambda>_ _. Some [Some (100000, 100000)]),
      re_post = (\<lambda>_ _. Answer 200 (Some 41) None)\<rparr>"

definition sample_subsolver :: subsolver_config where
  "sample_subsolver =
     \<lparr>sc_codec = std_codec, sc_crypto = toy_crypto, sc_abi = toy_client_abi, sc_signer = toy_signer 17,
      sc_domain = byos_domain 1 66, sc_trampoline = 8, sc_uniswap_router = 7, sc_create2 = (\<lambda>f salt h. f),
      sc_address_bytes = (\<lambda>_. []), sc_uniswap_factory = 9, sc_pair_init_code_hash = 3, sc_proposal_ttl = 60,
      sc_extra_interactions = []\<rparr>"

lemma sample_auction: "re_auction sample_replies n = Some [\<lparr>do_uid = replicate 56 0, do_sell_token = 5, do_buy_token = 6,
    do_sell_amount = 1000, do_buy_amount = 900, do_kind = Sell, do_sell_token_balance = None, do_buy_token_balance = None\<rparr>]"
  by (simp add: sample_replies_def)

lemma sample_poll:
  "\<exists>s' req. poll_once sample_subsolver (logged sample_replies) 440 (\<lparr>ss_live = (\<lambda>_. None), ss_next_nonce = 1\<rparr>,
      \<lparr>tr_posted = [], tr_step = 0\<rparr>) = Some (True, s', \<lparr>tr_posted = [req], tr_step = 3\<rparr>) \<and> cr_nonce req = show_nat 1"
  by (simp add: poll_once_def sample_subsolver_def sample_replies_def logged_def solvable_orders_def balance_or_default_def
      holds_live_proposal_def chain_reserves_def oriented_def propose_def build_proposal_def routed_amounts_def Let_def
      amount_out_def FEE_NUMERATOR_def FEE_DENOMINATOR_def u256_of_def checked_mul_def checked_add_def unexpired_def
      sign_proposal_def toy_signer_def parse_answer_def is_success_def ok_or_def request_of_def std_codec_def)

theorem poll_submits_fresh_witness:
  "case poll_once sample_subsolver (logged sample_replies) 440 (\<lparr>ss_live = (\<lambda>_. None), ss_next_nonce = 1\<rparr>,
      \<lparr>tr_posted = [], tr_step = 0\<rparr>) of None \<Rightarrow> False
    | Some (ok, s', w') \<Rightarrow> length (tr_posted w') = 1 \<and> ss_next_nonce s' = 2"
proof -
  have "signer_total (sc_signer sample_subsolver)" by (simp add: signer_total_def sample_subsolver_def toy_signer_def)
  from poll_submits_fresh [OF this, of sample_replies "\<lparr>tr_posted = [], tr_step = 0\<rparr>" 440 "\<lparr>ss_live = (\<lambda>_. None), ss_next_nonce = 1\<rparr>"]
    sample_poll show ?thesis by (auto simp: sample_auction)
qed

text \<open>Two polls a minute apart; the reserves and the service answer the same.\<close>

theorem nonces_never_reused_witness:
  "\<exists>s s' w' ps. new_subsolver 1000000000000 = Some s \<and>
     poll_loop sample_subsolver (logged sample_replies) [1000000000000, 1000060000000]
       (s, \<lparr>tr_posted = [], tr_step = 0\<rparr>) = Some (s', w') \<and>
     tr_posted w' = map (request_of std_codec) ps"
proof -
  obtain s where s: "new_subsolver 1000000000000 = Some s" by (simp add: new_subsolver_def)
  have t: "signer_total (sc_signer sample_subsolver)" by (simp add: signer_total_def sample_subsolver_def toy_signer_def)
  have "\<forall>u\<in>set [1000000000000, 1000060000000 :: time]. 0 \<le> u"
    and "\<forall>n. case re_auction sample_replies n of None \<Rightarrow> True | Some orders \<Rightarrow> distinct (map do_uid orders)"
    by (simp_all add: sample_auction)
  from nonces_never_reused [OF t this s, of "\<lparr>tr_posted = [], tr_step = 0\<rparr>"] s show ?thesis
    by (auto simp: sample_subsolver_def)
qed

end
