(* ===== verification/Api_Properties.thy ===== *)
theory Api_Properties
  imports Api Lifecycle_Properties
begin

text \<open>
  The properties of the API: what a submission must carry to be stored and how it is stored, that
  nothing in an answer tells a stranger whether a proposal exists, that the statuses clients are told
  are final are final, and what the bearer gate lets through.
\<close>

subsection \<open>Submitting\<close>

text \<open>The proposal a request asks to store, field by field: every signed field parsed from the body, the
  hashes computed, the sub-solver recovered from the signature over exactly those fields.\<close>

definition onchain_of :: "proposal \<Rightarrow> onchain_proposal" where
  "onchain_of p = \<lparr>oc_orderUidHash = p_order_uid_hash p, oc_sellAmount = p_sell_amount p,
     oc_buyAmount = p_buy_amount p, oc_validUntil = p_valid_until p, oc_nonce = p_nonce p\<rparr>"

definition signed_fields :: "codec \<Rightarrow> crypto \<Rightarrow> eip712_domain \<Rightarrow> create_request \<Rightarrow> proposal \<Rightarrow> bool" where
  "signed_fields c k domain body p \<longleftrightarrow>
     from_hex c (cr_order_uid body) = Inr (p_order_uid p) \<and>
     parse_u256 c (cr_sell_amount body) = Some (p_sell_amount p) \<and>
     parse_u256 c (cr_buy_amount body) = Some (p_buy_amount p) \<and>
     parse_u256 c (cr_valid_until body) = Some (p_valid_until p) \<and>
     parse_u256 c (cr_nonce body) = Some (p_nonce p) \<and>
     parse_hex c (cr_signature body) = Some (p_signature p) \<and>
     map (dto_interaction c) (cr_interactions body) = map Inr (p_interactions p) \<and>
     p_order_uid_hash p = keccak256 k (uid_bytes (p_order_uid p)) \<and>
     p_interactions_hash p = compute_interactions_hash k (p_interactions p) \<and>
     (\<exists>sig. signature_of_bytes k (p_signature p) = Some sig \<and>
        recover_proposer k sig domain (onchain_of p) (p_interactions_hash p) = Some (p_sub_solver p))"

definition fresh_fields :: "proposal \<Rightarrow> bool" where
  "fresh_fields p \<longleftrightarrow> p_id p = ProposalId 0 \<and> p_sell_token p = 0 \<and> p_buy_token p = 0 \<and>
     p_status p = Submitted \<and> p_rejection_reason p = None \<and> p_gas_used p = None \<and> p_trampoline p = None \<and>
     p_settlement_tx_hash p = None \<and> p_penalty_tx_hash p = None"

lemma parse_order_uid_Inr: "parse_order_uid c s = Inr u \<longleftrightarrow> from_hex c s = Inr u"
  by (simp add: parse_order_uid_def split: sum.splits)

lemma submitted_Inr_iff:
  "submitted c k domain body = Inr p \<longleftrightarrow> signed_fields c k domain body p \<and> fresh_fields p"
  by (auto simp: submitted_def and_then_Inr_iff ok_or_Inr_iff parse_order_uid_Inr collect_Inr_iff Let_def
      signed_fields_def fresh_fields_def onchain_of_def)

lemma check_lifetime_Inr_iff:
  "check_lifetime app now vu = Inr () \<longleftrightarrow> unat now \<le> unat vu \<and>
     unat vu \<le> min (unat now + unat (app_max_proposal_lifetime_secs app)) (2 ^ 64 - 1)"
  by (auto simp: check_lifetime_def not_less word_le_nat_alt arith_facts word_less_nat_alt)

definition timely :: "app_state \<Rightarrow> u64 \<Rightarrow> u256 \<Rightarrow> bool" where
  "timely app now vu \<longleftrightarrow> unat now \<le> unat vu \<and>
     unat vu \<le> min (unat now + unat (app_max_proposal_lifetime_secs app)) (2 ^ 64 - 1)"

lemma check_lifetime_cases:
  "check_lifetime app now vu = Inr () \<and> timely app now vu \<or>
   (\<exists>e. check_lifetime app now vu = Inl e) \<and> \<not> timely app now vu"
  using check_lifetime_Inr_iff [of app now vu] by (cases "check_lifetime app now vu") (auto simp: timely_def)

lemma signed_unique:
  "signed_fields c k domain body p \<Longrightarrow> fresh_fields p \<Longrightarrow> submitted c k domain body = Inr p"
  by (simp add: submitted_Inr_iff)

lemma internal_kind [simp]: "err_kind (internal e) = Internal"
  by (simp add: internal_def error_from_def error_new_def)

text \<open>What the handler does with a well-formed request is one insertion.\<close>

lemma create_inserts:
  assumes "submitted c k (app_domain app) body = Inr p" and "unix_secs (wall_now clk) = Some now"
    and "timely app now (p_valid_until p)"
  shows "create_proposal c k app clk body st =
    map_option (\<lambda>(r, st'). (case r of Inl e \<Rightarrow> Inl (internal e) | Inr pid \<Rightarrow> Inr pid, st'))
      (insert_proposal_op c clk p st)"
  using check_lifetime_cases [of app now "p_valid_until p"] assms
  by (auto simp: create_proposal_def split: option.splits prod.splits sum.splits)

lemma create_refuses:
  assumes "unix_secs (wall_now clk) = Some now"
    and "\<And>p. submitted c k (app_domain app) body = Inr p \<Longrightarrow> \<not> timely app now (p_valid_until p)"
  shows "\<exists>e. create_proposal c k app clk body st = Some (Inl e, st)"
  using assms check_lifetime_cases
  by (cases "submitted c k (app_domain app) body") (fastforce simp: create_proposal_def)+

text \<open>The handler on every branch.\<close>

lemma create_outcome:
  assumes "good c st" and "codec_ok c" and "unix_secs (wall_now clk) = Some now"
  shows "\<exists>r st'. create_proposal c k app clk body st = Some (r, st') \<and> good c st' \<and>
    (case r of
       Inl e \<Rightarrow> same_state st st' \<and>
         (err_kind e = Internal \<or>
          \<not> (\<exists>p. signed_fields c k (app_domain app) body p \<and> fresh_fields p \<and> timely app now (p_valid_until p)))
     | Inr pid \<Rightarrow> \<exists>p. signed_fields c k (app_domain app) body p \<and> fresh_fields p \<and>
         timely app now (p_valid_until p) \<and>
         book c st pid = None \<and> book c st' = (book c st)(pid \<mapsto> p\<lparr>p_id := pid\<rparr>) \<and>
         st_audit st' = st_audit st @ [event (wall_now clk) (Received (p\<lparr>p_id := pid\<rparr>))])"
proof (cases "\<exists>p. submitted c k (app_domain app) body = Inr p \<and> timely app now (p_valid_until p)")
  case False
  then obtain e where "create_proposal c k app clk body st = Some (Inl e, st)"
    using create_refuses [OF assms(3)] by blast
  with False assms(1) show ?thesis by (auto simp: submitted_Inr_iff)
next
  case True
  then obtain p where p: "submitted c k (app_domain app) body = Inr p" "timely app now (p_valid_until p)" by blast
  then have f: "signed_fields c k (app_domain app) body p" "fresh_fields p" by (simp_all add: submitted_Inr_iff)
  then have u: "uid_ok (p_order_uid p)" and gas: "gas_column (p_gas_used p) = Some None"
    by (auto simp: signed_fields_def fresh_fields_def gas_column_def intro: from_hex_uid_ok)
  from insert_outcome [OF assms(1,2) u gas, of clk] create_inserts [OF p(1) assms(3) p(2), of st] p(2) f
  show ?thesis by (fastforce split: sum.splits)
qed

text \<open>C21. A submission is stored exactly as it was signed: with the clock past the epoch the handler never
  panics. It answers with an error and changes nothing - with a 500 alone when the request was
  well-formed, signed and timely - or it stores, under a fresh identifier and with one \<open>Received\<close> event,
  the proposal whose fields parse from the body, whose sub-solver is the address recovered from the
  signature over those very fields, whose status is \<open>Submitted\<close>, and whose deadline lies between now and
  the lifetime cap.\<close>

theorem submission_stored_as_signed:
  assumes "good c st" and "codec_ok c" and "unix_secs (wall_now clk) = Some now"
  shows "\<exists>r st'. create_proposal c k app clk body st = Some (r, st') \<and> good c st' \<and>
    (case r of
       Inl e \<Rightarrow> same_state st st' \<and>
         (err_kind e = Internal \<or>
          \<not> (\<exists>p. signed_fields c k (app_domain app) body p \<and> fresh_fields p \<and> timely app now (p_valid_until p)))
     | Inr pid \<Rightarrow> \<exists>p. signed_fields c k (app_domain app) body p \<and> fresh_fields p \<and>
         timely app now (p_valid_until p) \<and>
         book c st pid = None \<and> book c st' = (book c st)(pid \<mapsto> p\<lparr>p_id := pid\<rparr>) \<and>
         st_audit st' = st_audit st @ [event (wall_now clk) (Received (p\<lparr>p_id := pid\<rparr>))])"
  using create_outcome [OF assms] .

definition sample_app :: app_state where
  "sample_app = \<lparr>app_domain = byos_domain 1 66, app_max_proposal_lifetime_secs = 300\<rparr>"

definition sample_body :: create_request where
  "sample_body = \<lparr>cr_order_uid = uid_text std_codec sample_uid, cr_sell_amount = u256_text std_codec 1000000,
     cr_buy_amount = u256_text std_codec 950000, cr_interactions = [],
     cr_valid_until = u256_text std_codec 700, cr_nonce = u256_text std_codec 9,
     cr_signature = hex_prefixed std_codec [17]\<rparr>"

lemma sample_signed:
  "\<exists>p. signed_fields std_codec toy_crypto (app_domain sample_app) sample_body p \<and> fresh_fields p \<and>
     timely sample_app 600 (p_valid_until p) \<and> p_sub_solver p = 17"
  by (rule exI [where x = "\<lparr>p_id = ProposalId 0, p_sub_solver = 17, p_order_uid = sample_uid,
      p_order_uid_hash = 56, p_sell_amount = 1000000, p_buy_amount = 950000, p_sell_token = 0, p_buy_token = 0,
      p_interactions = [], p_interactions_hash = 0, p_valid_until = 700, p_nonce = 9, p_signature = [17],
      p_status = Submitted, p_rejection_reason = None, p_gas_used = None, p_trampoline = None,
      p_settlement_tx_hash = None, p_penalty_tx_hash = None\<rparr>"])
    (simp add: signed_fields_def fresh_fields_def timely_def sample_body_def sample_app_def
      codec_read_back [OF codec_ok_std] from_hex_text [OF codec_ok_std] parse_hex_def toy_crypto_def
      recover_proposer_def compute_interactions_hash_def sample_uid_def uid_ok_def)

theorem submission_stored_as_signed_witness:
  "\<exists>r st'. create_proposal std_codec toy_crypto sample_app sample_clock sample_body (stored_sample Active) = Some (r, st') \<and>
     (case r of Inl e \<Rightarrow> err_kind e = Internal
      | Inr pid \<Rightarrow> book std_codec (stored_sample Active) pid = None \<and> book std_codec st' pid \<noteq> None)"
proof -
  have "unix_secs (wall_now sample_clock) = Some 600" by (simp add: unix_secs_def sample_clock_def)
  from submission_stored_as_signed [OF sample_facts this, of toy_crypto sample_app sample_body Active] sample_signed
  show ?thesis by (fastforce split: sum.splits)
qed

subsection \<open>Reading and cancelling\<close>

text \<open>How a lookup ends, given what is stored: the same statement is sent whatever the answer.\<close>

definition lookup_answer :: "fault option \<Rightarrow> 'a \<Rightarrow> store_error + 'a" where
  "lookup_answer f a = (case f of None \<Rightarrow> Inr a | Some (Failed e) \<Rightarrow> Inl (Database e)
     | Some (Unacknowledged e) \<Rightarrow> Inl (Database e))"

lemma book_absent_row:
  assumes gd: "good c st" and i: "i64_of_u64 (pid_raw pid) = Some i" and b: "book c st pid = None"
  shows "find_row i (st_db st) = None"
proof (rule ccontr)
  assume "find_row i (st_db st) \<noteq> None"
  then obtain r where f: "find_row i (st_db st) = Some r" by blast
  then have "row_ok c r" using gd find_row_mem [OF f] by (auto simp: good_def db_ok_def)
  then show False using b i f by (auto simp: book_def proposal_at_def readable_def row_ok_def split: sum.splits)
qed

lemma fst_get_proposal:
  assumes gd: "good c st" and i: "i64_of_u64 (pid_raw pid) = Some i"
  shows "fst (get_proposal c pid st) = lookup_answer (next_fault st) (book c st pid)"
proof (cases "book c st pid")
  case None
  with book_absent_row [OF gd i] i show ?thesis
    by (auto simp: get_proposal_def as_db_id_def act_def select_row_def stmt_def Let_def lookup_answer_def
        done_with_def lift_def split: option.splits fault.splits)
next
  case (Some q)
  from book_row [OF gd Some] i obtain r where "find_row i (st_db st) = Some r" "proposal_of_row c r = Inr q"
    by (metis option.inject)
  with Some i show ?thesis
    by (auto simp: get_proposal_def as_db_id_def act_def select_row_def stmt_def Let_def lookup_answer_def
        done_with_def lift_def split: option.splits fault.splits)
qed

text \<open>A cancellation that is not the owner's: two statements are sent (BEGIN and the locking SELECT), and
  unless one of them fails the answer is the 404.\<close>

definition refusal :: "fault option list \<Rightarrow> api_error" where
  "refusal fs = (case fs of
       Some _ # _ \<Rightarrow> error_from Internal
     | _ # Some _ # _ \<Rightarrow> error_from Internal
     | _ \<Rightarrow> error_from ProposalNotFound)"

lemma cancel_refused:
  assumes gd: "good c st" and c: "codec_ok c" and i: "i64_of_u64 (pid_raw pid) = Some i"
    and "\<And>q. book c st pid = Some q \<Longrightarrow> p_sub_solver q \<noteq> signer"
  shows "fst (served cancel_failure (cancel c clk pid signer) (\<lambda>_. Inr ()) st) = Inl (refusal (st_faults st))"
proof -
  note run = served_def cancel_def act_def in_tx_def cancel_body_def locked_row_def select_row_def stmt_def
    next_fault_def Let_def as_db_id_def refusal_def cancel_failure_def internal_def fail_def lift_def done_with_def
  show ?thesis
  proof (cases "book c st pid")
    case None
    with book_absent_row [OF gd i] i show ?thesis
      by (auto simp: run split: option.splits list.splits fault.splits)
  next
    case (Some q)
    then obtain r where r: "find_row i (st_db st) = Some r" "r_sub_solver r = addr_text c (p_sub_solver q)"
        "r_order_uid r = uid_text c (p_order_uid q)" "uid_ok (p_order_uid q)"
      using book_row [OF gd Some] i by (metis option.inject)
    have "parse_addr c (r_sub_solver r) = Some (p_sub_solver q)" "parse_uid_column c (r_order_uid r) = Inr (p_order_uid q)"
      using r c by (simp_all add: codec_read_back from_hex_text parse_uid_column_def)
    with Some r(1) i assms(4) show ?thesis
      by (auto simp: run parse_column_def split: option.splits list.splits fault.splits)
  qed
qed

text \<open>C23. An answer never tells a stranger whether a proposal exists: whatever the header, for two stores
  that differ in anything but the outcome of the next statements - in one the identifier names a
  proposal the caller does not own, in the other it names none - the read endpoint and the cancel
  endpoint answer the same, status code, kind and description included.\<close>

theorem existence_not_revealed:
  assumes "codec_ok c" and "good c st1" and "good c st2" and "st_faults st1 = st_faults st2"
    and "book c st1 pid = Some q" and "book c st2 pid = None"
    and "\<forall>a. authenticate_reader c k (app_domain app) h = Inr a \<longrightarrow> p_sub_solver q \<noteq> a"
    and "\<forall>a. authenticate_canceller c k (app_domain app) pid h = Inr a \<longrightarrow> p_sub_solver q \<noteq> a"
  shows "response 200 (fst (get_endpoint c k app pid h st1)) = response 200 (fst (get_endpoint c k app pid h st2)) \<and>
    response 204 (fst (cancel_proposal c k app clk pid h st1)) = response 204 (fst (cancel_proposal c k app clk pid h st2))"
proof -
  obtain i where i: "i64_of_u64 (pid_raw pid) = Some i" using book_db_id assms(2,5) by blast
  have nf: "next_fault st1 = next_fault st2" using assms(4) by (simp add: next_fault_def)
  have "fst (get_endpoint c k app pid h st1) = fst (get_endpoint c k app pid h st2)"
  proof (cases "authenticate_reader c k (app_domain app) h")
    case (Inr a)
    then have "p_sub_solver q \<noteq> a" using assms(7) by blast
    with Inr fst_get_proposal [OF assms(2) i] fst_get_proposal [OF assms(3) i] nf assms(5,6) show ?thesis
      by (auto simp: get_endpoint_def authenticated_def served_def lookup_answer_def split: prod.splits sum.splits option.splits fault.splits)
  qed (simp add: get_endpoint_def authenticated_def)
  moreover have "fst (cancel_proposal c k app clk pid h st1) = fst (cancel_proposal c k app clk pid h st2)"
  proof (cases "authenticate_canceller c k (app_domain app) pid h")
    case (Inr a)
    then have "p_sub_solver q \<noteq> a" using assms(8) by blast
    with Inr cancel_refused [OF assms(2,1) i, of a clk] cancel_refused [OF assms(3,1) i, of a clk] assms(4-6)
    show ?thesis by (simp add: cancel_proposal_def authenticated_def)
  qed (simp add: cancel_proposal_def authenticated_def)
  ultimately show ?thesis by simp
qed

theorem existence_not_revealed_witness:
  "fst (get_endpoint std_codec toy_crypto sample_app (ProposalId 1) (HeaderText ''0x12'') (stored_sample Active))
    = fst (get_endpoint std_codec toy_crypto sample_app (ProposalId 1) (HeaderText ''0x12'') (s_store first_sys))"
proof -
  have auth: "authenticate_reader std_codec toy_crypto d (HeaderText ''0x12'') = Inr 18"
    "authenticate_canceller std_codec toy_crypto d i (HeaderText ''0x12'') = Inr 18" for d i
    by (simp_all add: authenticate_reader_def authenticate_canceller_def signature_from_header_def parse_hex_def
        std_codec_def hex_val_def toy_crypto_def recover_reader_def recover_canceller_def)
  have "good std_codec (s_store first_sys)" using starts_ok [OF first_starts] by (simp add: sys_ok_def)
  moreover have "book std_codec (s_store first_sys) (ProposalId 1) = None"
    by (simp add: book_def proposal_at_def i64_of_u64_def find_row_def first_sys_def empty_db_def)
  moreover have "st_faults (stored_sample Active) = st_faults (s_store first_sys)"
    by (simp add: stored_sample_def first_sys_def)
  ultimately show ?thesis
    using existence_not_revealed [OF codec_ok_std good_sample _ _ book_sample, where k = toy_crypto
        and app = sample_app and h = "HeaderText ''0x12''"] auth
    by (simp add: response_def sample_proposal_def split: sum.splits)
qed

subsection \<open>Statuses served\<close>

definition dead :: "proposal_id \<Rightarrow> life \<Rightarrow> bool" where
  "dead pid a \<longleftrightarrow> uint (pid_raw pid) < l_next a \<and>
     (\<forall>q. l_book a pid = Some q \<longrightarrow> is_terminal (wire_status_of (p_status q)))"

lemma dead_step: "lifecycle a a' \<Longrightarrow> life_ok a \<Longrightarrow> dead pid a \<Longrightarrow> dead pid a'"
proof -
  assume step: "lifecycle a a'" and ok: "life_ok a" and d: "dead pid a"
  have nx: "l_next a \<le> l_next a'" using step by (induction rule: lifecycle_by.induct) auto
  show "dead pid a'"
  proof (cases "l_book a pid")
    case None
    then show ?thesis using lifecycle_fresh [OF step] d by (simp add: dead_def)
  next
    case (Some q)
    then have t: "is_terminal (wire_status_of (p_status q))" using d by (simp add: dead_def)
    have "is_terminal (wire_status_of (p_status q'))" if "l_book a' pid = Some q'" for q'
      using lifecycle_status [OF step ok Some] that t by (cases "p_status q") (auto simp: is_terminal_def)
    with nx d show ?thesis by (auto simp: dead_def)
  qed
qed

text \<open>What the API calls terminal is terminal: once a client has been shown one of the statuses
  \<open>is_terminal\<close> names, then in every later state of any run of the service the proposal, if it is still
  stored, shows a terminal status again - it never becomes executable.\<close>

theorem terminal_never_revives:
  assumes "codec_ok c" and "sys_ok c s" and "(service_step c)\<^sup>*\<^sup>* s s'"
    and "book c (s_store s) pid = Some q" and "is_terminal (gr_status (get_response_of c q))"
    and "book c (s_store s') pid = Some q'"
  shows "is_terminal (gr_status (get_response_of c q')) \<and> p_status q' \<notin> {Submitted, Active, Executing}"
proof -
  have served: "gr_status (get_response_of c p) = wire_status_of (p_status p)" for p
    by (simp add: get_response_of_def)
  have "life_ok (life_of c (s_store s))" using assms(2) by (simp add: sys_ok_def)
  from life_ok_D(2) [OF this, of pid q] assms(4,5) have "dead pid (life_of c (s_store s))"
    unfolding dead_def served by simp
  then have "dead pid (life_of c (s_store s'))"
    by (intro run_keeps [where K = "dead pid", OF assms(3,1,2)]) (auto intro: dead_step)
  then have t: "is_terminal (wire_status_of (p_status q'))"
    using assms(6) unfolding dead_def life_of_simps by blast
  then have "p_status q' \<notin> {Submitted, Active, Executing}" by (auto simp: is_terminal_def)
  with t show ?thesis by (simp only: served simp_thms)
qed

theorem terminal_never_revives_witness:
  "is_terminal (gr_status (get_response_of std_codec settled_sample))"
  using terminal_never_revives [OF codec_ok_std settled_ok rtranclp.rtrancl_refl, of "ProposalId 1" settled_sample settled_sample]
  by (simp add: settled_stored get_response_of_def settled_sample_def is_terminal_def)

subsection \<open>The internal listener\<close>

lemma split_once_Some_iff:
  "split_once d s = Some (a, b) \<longleftrightarrow> s = a @ d # b \<and> d \<notin> set a"
proof (induction s arbitrary: a)
  case (Cons ch s)
  then show ?case by (cases a) (auto split: prod.splits)
qed simp

text \<open>With a token configured, the internal listener runs \<open>/solve\<close> and \<open>/notify\<close> exactly for requests
  whose \<open>Authorization\<close> header is the scheme \<open>bearer\<close> in any letter case, one space, and the configured
  token to the letter; every other request is answered 401 and touches nothing. Without a token every
  request passes.\<close>

theorem bearer_gate_exact:
  "internal_gate solve_bearer_token h next st =
     (case solve_bearer_token of
        None \<Rightarrow> (Inr (fst (next st)), snd (next st))
      | Some expected \<Rightarrow>
          if \<exists>scheme. h = HeaderText (scheme @ '' '' @ expected) \<and> map ascii_lower scheme = ''bearer''
          then (Inr (fst (next st)), snd (next st)) else (Inl 401, st))"
proof -
  have lower: "map ascii_lower ''Bearer'' = ''bearer''" by code_simp
  have bearer: "eq_ignore_ascii_case s ''Bearer'' \<longleftrightarrow> map ascii_lower s = ''bearer''" for s
    unfolding eq_ignore_ascii_case_def lower by (rule refl)
  have nospace: "CHR '' '' \<notin> set scheme" if "map ascii_lower scheme = ''bearer''" for scheme
  proof
    assume "CHR '' '' \<in> set scheme"
    then have "ascii_lower CHR '' '' \<in> set ''bearer''" using that by (metis image_eqI list.set_map)
    moreover have "ascii_lower CHR '' '' \<notin> set ''bearer''" by code_simp
    ultimately show False by simp
  qed
  have "authorized expected h \<longleftrightarrow>
      (\<exists>scheme. h = HeaderText (scheme @ '' '' @ expected) \<and> map ascii_lower scheme = ''bearer'')" for expected
  proof (cases h)
    case (HeaderText v)
    have "authorized expected h \<longleftrightarrow>
        (\<exists>scheme. split_once CHR '' '' v = Some (scheme, expected) \<and> map ascii_lower scheme = ''bearer'')"
      by (auto simp: HeaderText authorized_def bearer split: option.splits)
    also have "\<dots> \<longleftrightarrow> (\<exists>scheme. v = scheme @ '' '' @ expected \<and> map ascii_lower scheme = ''bearer'')"
    proof (rule arg_cong [where f = Ex], rule ext)
      fix scheme
      show "(split_once CHR '' '' v = Some (scheme, expected) \<and> map ascii_lower scheme = ''bearer'') =
          (v = scheme @ '' '' @ expected \<and> map ascii_lower scheme = ''bearer'')"
        by (metis split_once_Some_iff nospace append_Cons append_Nil)
    qed
    finally show ?thesis by (simp add: HeaderText)
  qed (simp_all add: authorized_def)
  then show ?thesis by (cases solve_bearer_token) (simp_all add: internal_gate_def split: prod.splits)
qed

end
