(* ===== verification/End_To_End.thy ===== *)
theory End_To_End
  imports Subsolver Api_Properties
begin

text \<open>
  The sub-solver against the service. The locale \<open>proposal_service\<close> is what the sub-solver relies on: an
  answer that calls a proposal terminal is true for good, and a proposal of its own is open only under the
  identifier that a \<open>POST\<close> returned. Inside it the loop is shown to track every open unexpired proposal.
  The service's own handlers provide the contract, over a transport that may lose requests and replies: a
  proposal whose \<open>POST\<close> was answered but whose answer never arrived is not counted as opened to the
  sub-solver. The last section runs both programs together, with every other client of the service.
\<close>

subsection \<open>What the sub-solver relies on\<close>

text \<open>Every open, unexpired proposal of ours is the one the sub-solver has on record for its order.\<close>

definition tracked ::
  "('w \<Rightarrow> bytes \<Rightarrow> u64 \<Rightarrow> u256 \<Rightarrow> bool) \<Rightarrow> ('w \<Rightarrow> bool) \<Rightarrow> u64 \<Rightarrow> subsolver \<Rightarrow> 'w \<Rightarrow> bool" where
  "tracked opened sound now s w \<longleftrightarrow> sound w \<and> (\<forall>uid i vu. opened w uid i vu \<longrightarrow> u256_of now < vu \<longrightarrow>
     (\<exists>l. ss_live s uid = Some l \<and> lv_id l = i \<and> u256_of (lv_valid_until l) = vu))"

text \<open>\<open>opened w uid i vu\<close>: the service holds an open proposal \<open>i\<close> of ours for the order, valid until \<open>vu\<close>, and
  the answer to its submission was not lost.\<close>

locale proposal_service = submission_log nw posted finished
  for nw :: "'w network" and posted :: "'w \<Rightarrow> create_request list" and finished :: "u64 \<Rightarrow> bool" +
  fixes cfg :: subsolver_config and opened :: "'w \<Rightarrow> bytes \<Rightarrow> u64 \<Rightarrow> u256 \<Rightarrow> bool" and sound :: "'w \<Rightarrow> bool"
  assumes auction_keeps: "sound w \<Longrightarrow> nw_auction nw w = (a, w') \<Longrightarrow> sound w' \<and> opened w' = opened w"
    and get_keeps: "sound w \<Longrightarrow> nw_get nw i h w = (g, w') \<Longrightarrow> sound w' \<and> opened w' = opened w"
    and get_true: "sound w \<Longrightarrow> nw_get nw i h w = (g, w') \<Longrightarrow> parse_answer g = Inr view \<Longrightarrow> is_terminal (gr_status view)
      \<Longrightarrow> \<not> opened w uid i vu"
    and reserves_keep: "sound w \<Longrightarrow> nw_reserves nw qs w = (rs, w') \<Longrightarrow> sound w' \<and> opened w' = opened w"
    and post_sound: "sound w \<Longrightarrow> nw_post nw (request_of (sc_codec cfg) p) w = (r, w') \<Longrightarrow> sound w'"
    and post_opens: "sound w \<Longrightarrow> nw_post nw (request_of (sc_codec cfg) p) w = (r, w') \<Longrightarrow> opened w' uid i vu \<Longrightarrow>
      opened w uid i vu \<or> parse_answer r = Inr i \<and> uid = sd_order_uid p \<and> vu = u256_of (sd_valid_until p)"
begin

lemma trackedI:
  assumes "sound w" and "\<And>uid i vu. opened w uid i vu \<Longrightarrow> u256_of now < vu \<Longrightarrow>
     \<exists>l. ss_live s uid = Some l \<and> lv_id l = i \<and> u256_of (lv_valid_until l) = vu"
  shows "tracked opened sound now s w"
  using assms by (simp add: tracked_def)

lemma trackedD:
  assumes "tracked opened sound now s w"
  shows "sound w" and "opened w uid i vu \<Longrightarrow> u256_of now < vu \<Longrightarrow>
     \<exists>l. ss_live s uid = Some l \<and> lv_id l = i \<and> u256_of (lv_valid_until l) = vu"
  using assms by (simp_all add: tracked_def)

lemma tracked_keeps: "tracked opened sound now s w \<Longrightarrow> sound w' \<Longrightarrow> opened w' = opened w \<Longrightarrow> tracked opened sound now s w'"
  by (simp add: tracked_def)

lemma tracked_retain: "tracked opened sound now s w \<Longrightarrow> tracked opened sound now (s\<lparr>ss_live := unexpired now (ss_live s)\<rparr>) w"
proof (rule trackedI, goal_cases)
  case (2 uid i vu)
  from trackedD(2) [OF 2] obtain l where l: "ss_live s uid = Some l" "lv_id l = i" "u256_of (lv_valid_until l) = vu" by blast
  then have "now < lv_valid_until l" using 2(3) by (auto simp: word_less_nat_alt arith_facts)
  with l show ?case by (simp add: unexpired_def)
qed (rule trackedD)

lemma holds_live_tracks:
  assumes "holds_live_proposal cfg nw uid (s, w) = Some (held, s', w')" and "tracked opened sound now s w"
  shows "tracked opened sound now s' w' \<and> (\<not> held \<longrightarrow> ss_live s' uid = None) \<and> (\<forall>u. ss_live s u = None \<longrightarrow> ss_live s' u = None)"
proof (cases "ss_live s uid")
  case None
  then have "held = False \<and> s' = s \<and> w' = w" using assms(1) by (simp add: holds_live_proposal_def)
  with None assms(2) show ?thesis by simp
next
  case (Some l)
  with assms(1) obtain h where h: "read_auth (sc_codec cfg) (sc_crypto cfg) (sc_abi cfg) (sc_signer cfg) (sc_domain cfg) = Some h"
    by (auto simp: holds_live_proposal_def split: option.splits)
  obtain g w1 where g: "nw_get nw (lv_id l) h w = (g, w1)" by (cases "nw_get nw (lv_id l) h w")
  have keep: "tracked opened sound now s w1" using get_keeps [OF trackedD(1) [OF assms(2)] g] tracked_keeps [OF assms(2)] by blast
  show ?thesis
  proof (cases "held")
    case True
    then have "s' = s \<and> w' = w1" using assms(1) Some h g
      by (cases "parse_answer g") (auto simp: holds_live_proposal_def split: if_splits)
    with keep True show ?thesis by simp
  next
    case False
    then obtain view where v: "parse_answer g = Inr view" "is_terminal (gr_status view)"
        and e: "s' = s\<lparr>ss_live := (ss_live s)(uid := None)\<rparr>" "w' = w1"
      using assms(1) Some h g by (cases "parse_answer g") (auto simp: holds_live_proposal_def split: if_splits)
    have closed: "\<not> opened w1 uid (lv_id l) vu" for vu
      using get_true [OF trackedD(1) [OF assms(2)] g v] get_keeps [OF trackedD(1) [OF assms(2)] g] by simp
    have "tracked opened sound now s' w1"
    proof (rule trackedI, goal_cases)
      case (2 u i vu)
      from trackedD(2) [OF keep 2] obtain l' where l': "ss_live s u = Some l'" "lv_id l' = i" "u256_of (lv_valid_until l') = vu" by blast
      then have "u \<noteq> uid" using 2(1) closed Some by auto
      with l' show ?case by (simp add: e)
    qed (rule trackedD [OF keep])
    with e False show ?thesis by simp
  qed
qed

lemma pending_orders_tracks:
  assumes "pending_orders cfg nw ords (s, w) = Some (pending, s', w')" and "tracked opened sound now s w"
  shows "tracked opened sound now s' w' \<and> (\<forall>ord\<in>set pending. ss_live s' (od_uid ord) = None) \<and> (\<forall>u. ss_live s u = None \<longrightarrow> ss_live s' u = None)"
  using assms
proof (induction ords arbitrary: s w pending)
  case (Cons ord ords)
  obtain held s1 w1 where one: "holds_live_proposal cfg nw (od_uid ord) (s, w) = Some (held, s1, w1)"
      and rest: "\<exists>pend. pending_orders cfg nw ords (s1, w1) = Some (pend, s', w') \<and> pending = (if held then pend else ord # pend)"
    using Cons.prems(1) by (auto simp: bind_eq_Some_conv)
  then obtain pend where r: "pending_orders cfg nw ords (s1, w1) = Some (pend, s', w')"
      and p: "pending = (if held then pend else ord # pend)" by blast
  note h = holds_live_tracks [OF one Cons.prems(2)]
  note IH = Cons.IH [OF r h [THEN conjunct1]]
  show ?case using h IH p by (cases held) simp_all
qed simp

lemma propose_tracks:
  assumes "propose cfg nw ord rs rb now (s, w) = Some (r, s', w')" and "tracked opened sound now s w" and "ss_live s (od_uid ord) = None"
  shows "ss_live s' = ss_live s \<and>
    tracked opened sound now (case r of Inr (Some l) \<Rightarrow> s'\<lparr>ss_live := (ss_live s')(od_uid ord \<mapsto> l)\<rparr> | _ \<Rightarrow> s') w'"
proof -
  let ?params = "\<lparr>rt_router = sc_uniswap_router cfg, rt_trampoline = sc_trampoline cfg,
            rt_reserve_sell = rs, rt_reserve_buy = rb, rt_valid_until = now + sc_proposal_ttl cfg,
            rt_nonce = u256_of (ss_next_nonce s), rt_extra_interactions = sc_extra_interactions cfg\<rparr>"
  note run = assms(1) [unfolded propose_def Let_def, simplified]
  show ?thesis
  proof (cases "build_proposal (sc_crypto cfg) (sc_abi cfg) ord ?params (sc_domain cfg) (sc_signer cfg)")
    case None
    with run show ?thesis by simp
  next
    case b: (Some b)
    show ?thesis
    proof (cases b)
      case None
      with run b have "r = Inr None \<and> s' = s \<and> w' = w" by auto
      with assms(2) show ?thesis by simp
    next
      case (Some p)
      obtain a w1 where a: "nw_post nw (request_of (sc_codec cfg) p) w = (a, w1)"
        by (cases "nw_post nw (request_of (sc_codec cfg) p) w")
      have p: "sd_order_uid p = od_uid ord" "sd_valid_until p = now + sc_proposal_ttl cfg"
        using built_proposal [OF b [unfolded Some]] by auto
      have all: "s' = s\<lparr>ss_next_nonce := ss_next_nonce s + 1\<rparr> \<and> w' = w1 \<and> r = (case parse_answer a of
          Inl e \<Rightarrow> Inl e | Inr i \<Rightarrow> Inr (Some \<lparr>lv_id = i, lv_valid_until = now + sc_proposal_ttl cfg\<rparr>))"
        using run b Some a by (cases "parse_answer a") simp_all
      then have live: "ss_live s' = ss_live s" and w': "w' = w1" by simp_all
      note r = all [THEN conjunct2, THEN conjunct2]
      note was = trackedD(2) [OF assms(2)] and opens = post_opens [OF trackedD(1) [OF assms(2)] a]
      have "tracked opened sound now (case r of Inr (Some l) \<Rightarrow> s'\<lparr>ss_live := (ss_live s')(od_uid ord \<mapsto> l)\<rparr> | _ \<Rightarrow> s') w1"
      proof (rule trackedI, goal_cases)
        case 1
        show ?case using post_sound [OF trackedD(1) [OF assms(2)] a] .
      next
        case (2 uid i vu)
        show ?case
        proof (cases "opened w uid i vu")
          case True
          from was [OF this 2(2)] obtain l where l: "ss_live s uid = Some l" "lv_id l = i" "u256_of (lv_valid_until l) = vu" by blast
          then have "uid \<noteq> od_uid ord" using assms(3) by auto
          with l show ?thesis by (simp add: r live split: sum.splits)
        next
          case False
          with opens [OF 2(1)] p show ?thesis by (simp add: r)
        qed
      qed
      with live w' show ?thesis by simp
    qed
  qed
qed

lemma propose_all_tracks:
  assumes "propose_all cfg nw now items (s, w) = Some (s', w')" and "tracked opened sound now s w"
    and "distinct (map (\<lambda>it. od_uid (fst it)) items)" and "\<forall>it\<in>set items. ss_live s (od_uid (fst it)) = None"
  shows "tracked opened sound now s' w'"
  using assms
proof (induction items arbitrary: s w)
  case (Cons item rest)
  obtain ord q where item: "item = (ord, q)" by (cases item)
  show ?case
  proof (cases q)
    case None
    with Cons item show ?thesis by simp
  next
    case (Some rr)
    obtain rs rb where rr: "rr = (rs, rb)" by (cases rr)
    obtain r t w1 where one: "propose cfg nw ord rs rb now (s, w) = Some (r, t, w1)"
        and cont: "propose_all cfg nw now rest
          (case r of Inr (Some l) \<Rightarrow> (t\<lparr>ss_live := (ss_live t)(od_uid ord \<mapsto> l)\<rparr>, w1) | _ \<Rightarrow> (t, w1)) = Some (s', w')"
      using Cons.prems(1) item Some rr by (auto simp: bind_eq_Some_conv)
    let ?t = "case r of Inr (Some l) \<Rightarrow> t\<lparr>ss_live := (ss_live t)(od_uid ord \<mapsto> l)\<rparr> | _ \<Rightarrow> t"
    have cont: "propose_all cfg nw now rest (?t, w1) = Some (s', w')"
      using cont by (simp split: sum.splits option.splits)
    have free: "ss_live s (od_uid ord) = None" using Cons.prems(4) item by simp
    note tr = propose_tracks [OF one Cons.prems(2) free]
    have "ss_live ?t (od_uid (fst it)) = None" if "it \<in> set rest" for it
    proof -
      have "od_uid (fst it) \<noteq> od_uid ord" using Cons.prems(3) item that by force
      then have "ss_live ?t (od_uid (fst it)) = ss_live t (od_uid (fst it))" by (simp split: sum.splits option.splits)
      then show ?thesis using tr Cons.prems(4) that by simp
    qed
    then show ?thesis using Cons.IH [OF cont] tr Cons.prems(3) item by simp
  qed
qed simp

lemma poll_once_tracks:
  assumes "poll_once cfg nw now (s, w) = Some (ok, s', w')" and "tracked opened sound now s w"
    and "case nw_auction nw w of (None, _) \<Rightarrow> True | (Some orders, _) \<Rightarrow> distinct (map do_uid orders)"
  shows "tracked opened sound now s' w'"
proof -
  let ?s = "s\<lparr>ss_live := unexpired now (ss_live s)\<rparr>"
  obtain a w1 where a: "nw_auction nw w = (a, w1)" by (cases "nw_auction nw w")
  have t1: "tracked opened sound now ?s w1"
    using tracked_keeps [OF tracked_retain [OF assms(2)]] auction_keeps [OF trackedD(1) [OF assms(2)] a] by blast
  show ?thesis
  proof (cases a)
    case None
    with assms(1) a t1 show ?thesis by (simp add: poll_once_def Let_def)
  next
    case (Some orders)
    with assms(1) a obtain pending s2 w2 where p: "pending_orders cfg nw (solvable_orders orders) (?s, w1) = Some (pending, s2, w2)"
      by (auto simp: poll_once_def Let_def bind_eq_Some_conv)
    note t2 = pending_orders_tracks [OF p t1]
    have "distinct (map do_uid orders)" using assms(3) a Some by simp
    then have "distinct (map od_uid (solvable_orders orders))"
      by (simp add: solvable_orders_def comp_def distinct_map_filter)
    note dist = pending_orders_result [OF this p]
    define queries where "queries = map (\<lambda>ord. \<lparr>rq_pair = pair_address (keccak256 (sc_crypto cfg)) (sc_create2 cfg) (sc_address_bytes cfg)
        (sc_uniswap_factory cfg) (sc_pair_init_code_hash cfg) (od_sell ord) (od_buy ord),
        rq_sell_token = od_sell ord, rq_buy_token = od_buy ord\<rparr>) pending"
    obtain rs w3 where rs: "chain_reserves nw queries w2 = (rs, w3)" by (cases "chain_reserves nw queries w2")
    have "sound w3 \<and> opened w3 = opened w2"
      using rs trackedD(1) [OF t2 [THEN conjunct1]]
      by (auto simp: chain_reserves_def dest: reserves_keep split: if_splits prod.splits option.splits)
    then have t3: "tracked opened sound now s2 w3" using tracked_keeps [OF t2 [THEN conjunct1]] by blast
    have rest: "(case rs of None \<Rightarrow> Some (False, s2, w3)
        | Some reserves \<Rightarrow> map_option (Pair True) (propose_all cfg nw now (zip pending reserves) (s2, w3))) = Some (ok, s', w')"
      using assms(1) a Some p rs by (simp add: poll_once_def Let_def queries_def)
    show ?thesis
    proof (cases rs)
      case None
      with rest t3 show ?thesis by simp
    next
      case (Some reserves)
      with rest have all: "propose_all cfg nw now (zip pending reserves) (s2, w3) = Some (s', w')" by auto
      have "map (\<lambda>it. od_uid (fst it)) (zip pending reserves) = map od_uid (map fst (zip pending reserves))" by simp
      also have "\<dots> = take (length reserves) (map od_uid pending)" by (simp only: map_fst_zip_take take_map) (simp add: min_def)
      finally have "distinct (map (\<lambda>it. od_uid (fst it)) (zip pending reserves))" using dist by simp
      moreover have "\<forall>it\<in>set (zip pending reserves). ss_live s2 (od_uid (fst it)) = None"
        using t2 by (auto dest: set_zip_leftD)
      ultimately show ?thesis using propose_all_tracks [OF all t3] by blast
    qed
  qed
qed

end

subsection \<open>The service as that network\<close>

text \<open>\<open>jo_lost\<close>: the identifiers the service answered to a \<open>POST\<close> whose answer was lost on the way back.\<close>

record joint =
  jo_store :: store
  jo_posted :: "create_request list"
  jo_lost :: "u64 set"
  jo_step :: nat

text \<open>What surrounds the two programs: the auctions, the chain, which requests reach the service and which of
  its answers come back, and its clock.\<close>

record surroundings =
  su_auction :: "nat \<Rightarrow> discovered_order list option"
  su_reserves :: "nat \<Rightarrow> reserves_query list \<Rightarrow> (u256 \<times> u256) option list option"
  su_reaches :: "nat \<Rightarrow> bool"
  su_answers :: "nat \<Rightarrow> bool"
  su_clock :: "nat \<Rightarrow> clock"

definition answer_of :: "nat \<Rightarrow> ('a \<Rightarrow> 'b) \<Rightarrow> api_error + 'a \<Rightarrow> 'b answer" where
  "answer_of ok f r = (case r of
      Inl e \<Rightarrow> Answer (error_status (err_kind e)) None (Some e)
    | Inr a \<Rightarrow> Answer ok (Some (f a)) None)"

definition service_get ::
  "codec \<Rightarrow> crypto \<Rightarrow> app_state \<Rightarrow> u64 \<Rightarrow> header \<Rightarrow> store \<Rightarrow> get_response answer \<times> store" where
  "service_get c k app i h st = (case get_endpoint c k app (ProposalId i) h st of (r, st') \<Rightarrow> (answer_of 200 (\<lambda>v. v) r, st'))"

text \<open>A handler that panics closes the connection.\<close>

definition service_post ::
  "codec \<Rightarrow> crypto \<Rightarrow> app_state \<Rightarrow> clock \<Rightarrow> create_request \<Rightarrow> store \<Rightarrow> u64 answer \<times> store" where
  "service_post c k app clk req st = (case create_proposal c k app clk req st of
      None \<Rightarrow> (NoAnswer, st)
    | Some (r, st') \<Rightarrow> (answer_of 202 pid_raw r, st'))"

text \<open>An answer that does not come back is an error of the client's transport.\<close>

definition come_back :: "bool \<Rightarrow> 'a answer \<Rightarrow> 'a answer" where
  "come_back answers r = (if answers then r else NoAnswer)"

definition service_network :: "codec \<Rightarrow> crypto \<Rightarrow> app_state \<Rightarrow> surroundings \<Rightarrow> joint network" where
  "service_network c k app su =
     \<lparr>nw_auction = (\<lambda>w. (su_auction su (jo_step w), w\<lparr>jo_step := jo_step w + 1\<rparr>)),
      nw_get = (\<lambda>i h w.
        (case (if su_reaches su (jo_step w) then service_get c k app i h (jo_store w) else (NoAnswer, jo_store w)) of
           (g, st) \<Rightarrow> (come_back (su_answers su (jo_step w)) g, w\<lparr>jo_store := st, jo_step := jo_step w + 1\<rparr>))),
      nw_reserves = (\<lambda>qs w. (su_reserves su (jo_step w) qs, w\<lparr>jo_step := jo_step w + 1\<rparr>)),
      nw_post = (\<lambda>req w.
        (case (if su_reaches su (jo_step w) then service_post c k app (su_clock su (jo_step w)) req (jo_store w)
               else (NoAnswer, jo_store w)) of
           (r, st) \<Rightarrow> (come_back (su_answers su (jo_step w)) r,
             \<lparr>jo_store = st, jo_posted = jo_posted w @ [req],
              jo_lost = (case parse_answer r of Inr i \<Rightarrow> if su_answers su (jo_step w) then jo_lost w else insert i (jo_lost w)
                         | Inl _ \<Rightarrow> jo_lost w),
              jo_step = jo_step w + 1\<rparr>)))\<rparr>"

definition answered_terminal :: "codec \<Rightarrow> crypto \<Rightarrow> app_state \<Rightarrow> u64 \<Rightarrow> bool" where
  "answered_terminal c k app i \<longleftrightarrow>
     (\<exists>h st view. parse_answer (fst (service_get c k app i h st)) = Inr view \<and> is_terminal (gr_status view))"

text \<open>The stored proposals of \<open>me\<close> that are not terminal.\<close>

definition open_for :: "codec \<Rightarrow> address \<Rightarrow> store \<Rightarrow> bytes \<Rightarrow> u64 \<Rightarrow> u256 \<Rightarrow> bool" where
  "open_for c me st uid i vu \<longleftrightarrow> (\<exists>q. book c st (ProposalId i) = Some q \<and> p_sub_solver q = me \<and>
     p_order_uid q = OrderUid uid \<and> p_valid_until q = vu \<and> \<not> is_terminal (wire_status_of (p_status q)))"

definition opened_to :: "codec \<Rightarrow> address \<Rightarrow> joint \<Rightarrow> bytes \<Rightarrow> u64 \<Rightarrow> u256 \<Rightarrow> bool" where
  "opened_to c me w uid i vu \<longleftrightarrow> open_for c me (jo_store w) uid i vu \<and> i \<notin> jo_lost w"

definition sound_service :: "codec \<Rightarrow> proposal list \<Rightarrow> pending_penalty list \<Rightarrow> store \<Rightarrow> bool" where
  "sound_service c held charges st \<longleftrightarrow> codec_ok c \<and> reads_u64 c \<and> sys_ok c \<lparr>s_store = st, s_held = held, s_charges = charges\<rparr>"

lemma sound_serviceD:
  assumes "sound_service c held charges st"
  shows "codec_ok c" "reads_u64 c" "sys_ok c \<lparr>s_store = st, s_held = held, s_charges = charges\<rparr>" "good c st"
  using assms by (simp_all add: sound_service_def sys_ok_def)

lemma sound_service_step:
  assumes "sound_service c held charges st"
    and "service_step c \<lparr>s_store = st, s_held = held, s_charges = charges\<rparr> \<lparr>s_store = st', s_held = held, s_charges = charges\<rparr>"
  shows "sound_service c held charges st'"
  using sound_serviceD [OF assms(1)] step_refines [OF _ _ assms(2)] by (simp add: sound_service_def)

lemma parse_answer_of [simp]:
  "parse_answer (answer_of 200 f r) = Inr a \<longleftrightarrow> (\<exists>b. r = Inr b \<and> a = f b)"
  "parse_answer (answer_of 202 f r) = Inr a \<longleftrightarrow> (\<exists>b. r = Inr b \<and> a = f b)"
proof -
  have "\<not> is_success (error_status (err_kind e))" for e :: api_error
    by (cases "err_kind e") (simp_all add: is_success_def)
  then show "parse_answer (answer_of 200 f r) = Inr a \<longleftrightarrow> (\<exists>b. r = Inr b \<and> a = f b)"
    "parse_answer (answer_of 202 f r) = Inr a \<longleftrightarrow> (\<exists>b. r = Inr b \<and> a = f b)"
    by (auto simp: parse_answer_def answer_of_def is_success_def ok_or_def split: sum.splits)
qed

lemma service_get_facts:
  assumes "sound_service c held charges st" and "service_get c k app i h st = (g, st')"
  shows "sound_service c held charges st' \<and> book c st' = book c st \<and>
    (\<forall>view. parse_answer g = Inr view \<longrightarrow> (\<exists>q. book c st (ProposalId i) = Some q \<and> gr_status view = wire_status_of (p_status q)))"
proof -
  obtain r where run: "get_endpoint c k app (ProposalId i) h st = (r, st')" and g: "g = answer_of 200 (\<lambda>v. v) r"
    using assms(2) by (auto simp: service_get_def split: prod.splits)
  show ?thesis
  proof (cases "authenticate_reader c k (app_domain app) h")
    case (Inl e)
    then have "r = Inl e \<and> st' = st" using run by (simp add: get_endpoint_def authenticated_def)
    with assms(1) g show ?thesis by simp
  next
    case (Inr reader)
    obtain x st1 where x: "get_proposal c (ProposalId i) st = (x, st1)" by (cases "get_proposal c (ProposalId i) st")
    note spec = wpD [OF wp_get_proposal [OF sound_serviceD(4) [OF assms(1)]] x]
    have st': "st' = st1" and r: "r = (case x of Inl e \<Rightarrow> Inl (internal e) | Inr found \<Rightarrow>
        and_then (ok_or (error_from ProposalNotFound) (case found of None \<Rightarrow> None | Some p \<Rightarrow> if p_sub_solver p = reader then Some p else None))
         (\<lambda>p. Inr (get_response_of c p)))"
      using run Inr x by (auto simp: get_endpoint_def authenticated_def served_def split: sum.splits)
    have "service_step c \<lparr>s_store = st, s_held = held, s_charges = charges\<rparr> \<lparr>s_store = st', s_held = held, s_charges = charges\<rparr>"
      using service_by.Get [of c "ProposalId i" "\<lparr>s_store = st, s_held = held, s_charges = charges\<rparr>" x st1] x st' by simp
    moreover have "book c st' = book c st" using spec st' by (simp add: read_result_def same_state_def book_def)
    moreover have "\<exists>q. book c st (ProposalId i) = Some q \<and> gr_status view = wire_status_of (p_status q)"
      if "parse_answer g = Inr view" for view
      using that spec r g
      by (auto simp: read_result_def and_then_Inr_iff ok_or_Inr_iff get_response_of_def split: sum.splits option.splits if_splits)
    ultimately show ?thesis using sound_service_step [OF assms(1)] by blast
  qed
qed

lemma create_is_step:
  assumes "create_proposal c k app clk req st = Some (r, st')"
  shows "st' = st \<or> service_step c \<lparr>s_store = st, s_held = held, s_charges = charges\<rparr> \<lparr>s_store = st', s_held = held, s_charges = charges\<rparr>"
proof (cases "st' = st")
  case False
  then obtain p x where p: "submitted c k (app_domain app) req = Inr p" and x: "insert_proposal_op c clk p st = Some (x, st')"
    using assms by (auto simp: create_proposal_def split: sum.splits option.splits prod.splits)
  then have "uid_ok (p_order_uid p)" "p_status p = Submitted" "p_gas_used p = None"
    by (auto simp: submitted_Inr_iff signed_fields_def fresh_fields_def intro: from_hex_uid_ok)
  with x service_by.Insert [of c clk p "\<lparr>s_store = st, s_held = held, s_charges = charges\<rparr>" x st'] show ?thesis by simp
qed simp

lemma request_fields:
  assumes "codec_ok c" and "reads_u64 c" and "signed_fields c k domain (request_of c p) q"
  shows "p_order_uid q = OrderUid (sd_order_uid p)" and "p_valid_until q = u256_of (sd_valid_until p)"
proof -
  have "from_hex c (hex_prefixed c (sd_order_uid p)) = Inr (p_order_uid q)"
    using assms(3) by (simp add: signed_fields_def request_of_def)
  moreover have "hex_decode c (strip_0x (hex_prefixed c (sd_order_uid p))) = Some (sd_order_uid p)"
    using parse_hex_text [OF assms(1)] by (simp add: parse_hex_def)
  ultimately show "p_order_uid q = OrderUid (sd_order_uid p)"
    by (auto simp: from_hex_def and_then_Inr_iff ok_or_def split: if_splits)
  show "p_valid_until q = u256_of (sd_valid_until p)"
    using assms(2,3) by (simp add: signed_fields_def request_of_def reads_u64_def)
qed

lemma service_post_facts:
  assumes "sound_service c held charges st" and "service_post c k app clk (request_of c p) st = (r, st')"
  shows "sound_service c held charges st'"
    and "open_for c me st' uid i vu \<Longrightarrow>
      open_for c me st uid i vu \<or> parse_answer r = Inr i \<and> uid = sd_order_uid p \<and> vu = u256_of (sd_valid_until p)"
proof -
  note snd = sound_serviceD [OF assms(1)]
  have "st' = st \<or> (\<exists>x. create_proposal c k app clk (request_of c p) st = Some (x, st') \<and> r = answer_of 202 pid_raw x)"
    using assms(2) by (auto simp: service_post_def split: option.splits prod.splits)
  then consider (same) "st' = st" | (created) x where "create_proposal c k app clk (request_of c p) st = Some (x, st')"
      "r = answer_of 202 pid_raw x" by blast
  note cases = this
  show "sound_service c held charges st'"
    using cases
  proof cases
    case created
    with create_is_step [OF created(1), of held charges] sound_service_step [OF assms(1)] assms(1) show ?thesis by blast
  qed (use assms(1) in simp)
  assume o: "open_for c me st' uid i vu"
  show "open_for c me st uid i vu \<or> parse_answer r = Inr i \<and> uid = sd_order_uid p \<and> vu = u256_of (sd_valid_until p)"
    using cases
  proof cases
    case same
    with o show ?thesis by simp
  next
    case created
    show ?thesis
    proof (cases "unix_secs (wall_now clk)")
      case None
      with created(1) have "st' = st" by (auto simp: create_proposal_def split: sum.splits)
      with o show ?thesis by simp
    next
      case (Some now)
      from create_outcome [OF snd(4,1) Some, of k app "request_of c p"] created(1)
      have out: "case x of Inl e \<Rightarrow> same_state st st'
        | Inr pid \<Rightarrow> \<exists>q. signed_fields c k (app_domain app) (request_of c p) q \<and> book c st' = (book c st)(pid \<mapsto> q\<lparr>p_id := pid\<rparr>)"
        by (auto split: sum.splits)
      show ?thesis
      proof (cases x)
        case (Inl e)
        with out have "book c st' = book c st" by (simp add: same_state_def book_def)
        with o show ?thesis by (simp add: open_for_def)
      next
        case (Inr pid)
        with out obtain q where q: "signed_fields c k (app_domain app) (request_of c p) q"
            and b: "book c st' = (book c st)(pid \<mapsto> q\<lparr>p_id := pid\<rparr>)" by auto
        show ?thesis
        proof (cases "pid = ProposalId i")
          case True
          with o b request_fields [OF snd(1,2) q] created(2) Inr show ?thesis by (auto simp: open_for_def)
        next
          case False
          with o b show ?thesis by (auto simp: open_for_def)
        qed
      qed
    qed
  qed
qed

lemma no_answer [simp]: "parse_answer NoAnswer = Inl Http"
  by (simp add: parse_answer_def)

lemma network_get:
  assumes "nw_get (service_network c k app su) i h w = (g, w')"
  shows "jo_posted w' = jo_posted w \<and> jo_lost w' = jo_lost w \<and>
    (jo_store w' = jo_store w \<or> (\<exists>g'. service_get c k app i h (jo_store w) = (g', jo_store w'))) \<and>
    (g = NoAnswer \<or> service_get c k app i h (jo_store w) = (g, jo_store w'))"
  using assms by (auto simp: service_network_def come_back_def split: prod.splits if_splits)

lemma network_post:
  assumes "nw_post (service_network c k app su) req w = (r, w')"
  shows "jo_posted w' = jo_posted w @ [req] \<and> jo_lost w \<subseteq> jo_lost w' \<and>
    (jo_store w' = jo_store w \<or> (\<exists>clk r'. service_post c k app clk req (jo_store w) = (r', jo_store w') \<and>
       (\<forall>i. parse_answer r' = Inr i \<longrightarrow> i \<in> jo_lost w' \<or> r = r')))"
proof (cases "su_reaches su (jo_step w)")
  case True
  obtain r' st where "service_post c k app (su_clock su (jo_step w)) req (jo_store w) = (r', st)"
    by (cases "service_post c k app (su_clock su (jo_step w)) req (jo_store w)")
  with True assms show ?thesis
    by (intro conjI disjI2 exI [of _ "su_clock su (jo_step w)"] exI [of _ r'])
      (auto simp: service_network_def come_back_def split: sum.splits if_splits)
qed (use assms in \<open>auto simp: service_network_def come_back_def split: sum.splits\<close>)

lemma network_get_true:
  assumes "nw_get (service_network c k app su) i h w = (g, w')" and "parse_answer g = Inr view" and "is_terminal (gr_status view)"
  shows "answered_terminal c k app i"
proof -
  have "service_get c k app i h (jo_store w) = (g, jo_store w')" using network_get [OF assms(1)] assms(2) by auto
  then have "fst (service_get c k app i h (jo_store w)) = g" by simp
  with assms(2,3) show ?thesis unfolding answered_terminal_def by blast
qed

lemma network_get_closed:
  assumes "sound_service c held charges (jo_store w)" and "nw_get (service_network c k app su) i h w = (g, w')"
    and "parse_answer g = Inr view" and "is_terminal (gr_status view)"
  shows "\<not> opened_to c me w uid i vu"
proof -
  have "service_get c k app i h (jo_store w) = (g, jo_store w')" using network_get [OF assms(2)] assms(3) by auto
  from service_get_facts [OF assms(1) this] assms(3,4) show ?thesis by (auto simp: opened_to_def open_for_def)
qed

lemma network_get_keeps:
  assumes "sound_service c held charges (jo_store w)" and "nw_get (service_network c k app su) i h w = (g, w')"
  shows "sound_service c held charges (jo_store w') \<and> opened_to c me w' = opened_to c me w"
proof -
  note facts = network_get [OF assms(2)]
  have "sound_service c held charges (jo_store w') \<and> book c (jo_store w') = book c (jo_store w)"
    using facts service_get_facts [OF assms(1)] assms(1) by metis
  with facts show ?thesis by (simp add: opened_to_def open_for_def fun_eq_iff)
qed

lemma network_post_facts:
  assumes "sound_service c held charges (jo_store w)" and "nw_post (service_network c k app su) (request_of c p) w = (r, w')"
  shows "sound_service c held charges (jo_store w')"
    and "opened_to c me w' uid i vu \<Longrightarrow>
      opened_to c me w uid i vu \<or> parse_answer r = Inr i \<and> uid = sd_order_uid p \<and> vu = u256_of (sd_valid_until p)"
proof -
  note facts = network_post [OF assms(2)]
  show "sound_service c held charges (jo_store w')" using facts service_post_facts(1) [OF assms(1)] assms(1) by metis
  assume o: "opened_to c me w' uid i vu"
  show "opened_to c me w uid i vu \<or> parse_answer r = Inr i \<and> uid = sd_order_uid p \<and> vu = u256_of (sd_valid_until p)"
  proof (cases "jo_store w' = jo_store w")
    case True
    with o facts show ?thesis by (auto simp: opened_to_def)
  next
    case False
    with facts obtain clk r' where r': "service_post c k app clk (request_of c p) (jo_store w) = (r', jo_store w')"
      "\<forall>i. parse_answer r' = Inr i \<longrightarrow> i \<in> jo_lost w' \<or> r = r'" by blast
    from service_post_facts(2) [OF assms(1) r'(1)] o r'(2) facts show ?thesis unfolding opened_to_def by blast
  qed
qed

interpretation backed: proposal_service "service_network (sc_codec cfg) k app su" jo_posted "answered_terminal (sc_codec cfg) k app"
    cfg "opened_to (sc_codec cfg) me" "\<lambda>w. sound_service (sc_codec cfg) held charges (jo_store w)"
  for cfg k app su me held charges
proof (unfold_locales, goal_cases)
  case 1
  then show ?case by (auto simp: service_network_def opened_to_def fun_eq_iff)
next
  case 2
  then show ?case using network_get by blast
next
  case 3
  then show ?case by (rule network_get_true)
next
  case 4
  then show ?case by (auto simp: service_network_def opened_to_def fun_eq_iff)
next
  case 5
  then show ?case using network_post by blast
next
  case 6
  then show ?case by (auto simp: service_network_def opened_to_def fun_eq_iff)
next
  case 7
  then show ?case by (rule network_get_keeps)
next
  case 8
  then show ?case by (rule network_get_closed)
next
  case 9
  then show ?case by (auto simp: service_network_def opened_to_def fun_eq_iff)
next
  case 10
  then show ?case by (rule network_post_facts(1))
next
  case 11
  then show ?case by (rule network_post_facts(2))
qed

subsection \<open>Both programs together\<close>

record both =
  bo_now :: u64
  bo_sub :: subsolver
  bo_sys :: sys
  bo_posted :: "create_request list"
  bo_lost :: "u64 set"

definition joint_of :: "both \<Rightarrow> joint" where
  "joint_of b = \<lparr>jo_store = s_store (bo_sys b), jo_posted = bo_posted b, jo_lost = bo_lost b, jo_step = 0\<rparr>"

text \<open>A poll of the sub-solver, or a step of the service on behalf of anyone else: only the sub-solver has
  its key, so no one else submits in its name.\<close>

inductive joint_step :: "subsolver_config \<Rightarrow> crypto \<Rightarrow> app_state \<Rightarrow> both \<Rightarrow> both \<Rightarrow> bool" for cfg k app where
  Poll: "poll_once cfg (service_network (sc_codec cfg) k app su) now (bo_sub b, joint_of b) = Some (ok, s', w') \<Longrightarrow>
    bo_now b \<le> now \<Longrightarrow> (case su_auction su 0 of None \<Rightarrow> True | Some orders \<Rightarrow> distinct (map do_uid orders)) \<Longrightarrow>
    joint_step cfg k app b \<lparr>bo_now = now, bo_sub = s', bo_sys = (bo_sys b)\<lparr>s_store := jo_store w'\<rparr>, bo_posted = jo_posted w',
      bo_lost = jo_lost w'\<rparr>"
| Others: "service_step (sc_codec cfg) (bo_sys b) y \<Longrightarrow>
    (\<And>pid q. book (sc_codec cfg) (s_store y) pid = Some q \<Longrightarrow> p_sub_solver q = sg_address (sc_signer cfg) \<Longrightarrow>
       book (sc_codec cfg) (s_store (bo_sys b)) pid \<noteq> None) \<Longrightarrow>
    joint_step cfg k app b (b\<lparr>bo_sys := y\<rparr>)"

definition joint_inv :: "subsolver_config \<Rightarrow> both \<Rightarrow> bool" where
  "joint_inv cfg b \<longleftrightarrow>
     tracked (opened_to (sc_codec cfg) (sg_address (sc_signer cfg)))
       (\<lambda>w. sound_service (sc_codec cfg) (s_held (bo_sys b)) (s_charges (bo_sys b)) (jo_store w)) (bo_now b) (bo_sub b) (joint_of b)"

lemma joint_inv_iff:
  "joint_inv cfg b \<longleftrightarrow> codec_ok (sc_codec cfg) \<and> reads_u64 (sc_codec cfg) \<and> sys_ok (sc_codec cfg) (bo_sys b) \<and>
     (\<forall>uid i vu. open_for (sc_codec cfg) (sg_address (sc_signer cfg)) (s_store (bo_sys b)) uid i vu \<longrightarrow> i \<notin> bo_lost b \<longrightarrow> u256_of (bo_now b) < vu \<longrightarrow>
        (\<exists>l. ss_live (bo_sub b) uid = Some l \<and> lv_id l = i \<and> u256_of (lv_valid_until l) = vu))"
  by (cases "bo_sys b") (auto simp: joint_inv_def tracked_def joint_of_def sound_service_def opened_to_def)

lemma open_for_step:
  assumes "codec_ok c" and "sys_ok c y" and "service_step c y y'"
    and "\<And>pid q. book c (s_store y') pid = Some q \<Longrightarrow> p_sub_solver q = me \<Longrightarrow> book c (s_store y) pid \<noteq> None"
    and "open_for c me (s_store y') uid i vu"
  shows "open_for c me (s_store y) uid i vu"
proof -
  from assms(5) obtain q' where q': "book c (s_store y') (ProposalId i) = Some q'" "p_sub_solver q' = me"
      "p_order_uid q' = OrderUid uid" "p_valid_until q' = vu" "\<not> is_terminal (wire_status_of (p_status q'))"
    by (auto simp: open_for_def)
  then obtain q where q: "book c (s_store y) (ProposalId i) = Some q" using assms(4) by blast
  have ok: "life_ok (life_of c (s_store y))" using assms(2) by (simp add: sys_ok_def)
  have "lifecycle (life_of c (s_store y)) (life_of c (s_store y'))" using step_refines [OF assms(1,2,3)] by blast
  from lifecycle_status [OF this ok, of "ProposalId i" q] q q'(1)
  have m: "same_body q q'" "q' = q \<or> (p_status q = Active \<and> p_status q' = Active) \<or> edge (p_status q) (p_status q')" by auto
  then have "\<not> is_terminal (wire_status_of (p_status q))"
    using q'(5) by (cases "p_status q") (auto simp: is_terminal_def)
  with m(1) q q' show ?thesis by (auto simp: open_for_def same_body_def)
qed

lemma joint_inv_step:
  assumes "joint_step cfg k app b b'" and "joint_inv cfg b"
  shows "joint_inv cfg b'"
  using assms
proof (cases rule: joint_step.cases)
  case (Poll su now ok s' w')
  let ?me = "sg_address (sc_signer cfg)" and ?c = "sc_codec cfg"
  have later: "u256_of (bo_now b) < vu" if "u256_of now < vu" for vu
    using Poll(3) that by (simp add: word_less_nat_alt word_le_nat_alt arith_facts)
  have "tracked (opened_to ?c ?me)
       (\<lambda>w. sound_service ?c (s_held (bo_sys b)) (s_charges (bo_sys b)) (jo_store w)) now (bo_sub b) (joint_of b)"
    using assms(2) later unfolding joint_inv_def tracked_def by blast
  moreover have "case nw_auction (service_network ?c k app su) (joint_of b) of (None, _) \<Rightarrow> True | (Some orders, _) \<Rightarrow> distinct (map do_uid orders)"
    using Poll(4) by (simp add: service_network_def joint_of_def split: option.splits)
  ultimately have "tracked (opened_to ?c ?me)
       (\<lambda>w. sound_service ?c (s_held (bo_sys b)) (s_charges (bo_sys b)) (jo_store w)) now s' w'"
    by (rule backed.poll_once_tracks [OF Poll(2)])
  then show ?thesis by (simp add: Poll(1) joint_inv_def tracked_def joint_of_def opened_to_def)
next
  case (Others y)
  note inv = assms(2) [unfolded joint_inv_iff]
  have cs: "codec_ok (sc_codec cfg)" "sys_ok (sc_codec cfg) (bo_sys b)" using inv by simp_all
  have "sys_ok (sc_codec cfg) y" using step_refines [OF cs Others(2)] by blast
  moreover have "open_for (sc_codec cfg) (sg_address (sc_signer cfg)) (s_store (bo_sys b)) uid i vu"
    if "open_for (sc_codec cfg) (sg_address (sc_signer cfg)) (s_store y) uid i vu" for uid i vu
    by (rule open_for_step [OF cs Others(2) _ that]) (rule Others(3))
  ultimately show ?thesis using inv by (simp add: Others(1) joint_inv_iff)
qed

definition fresh_both :: "time \<Rightarrow> sys \<Rightarrow> both \<Rightarrow> bool" where
  "fresh_both t y b \<longleftrightarrow> starts y \<and> new_subsolver t = Some (bo_sub b) \<and> bo_sys b = y \<and> bo_posted b = [] \<and> bo_lost b = {}"

lemma joint_inv_run:
  assumes "codec_ok (sc_codec cfg)" and "reads_u64 (sc_codec cfg)" and "fresh_both t y b0" and "(joint_step cfg k app)\<^sup>*\<^sup>* b0 b"
  shows "joint_inv cfg b"
  using assms(4)
proof (induction rule: rtranclp_induct)
  case base
  have "starts y" "bo_sys b0 = y" using assms(3) by (simp_all add: fresh_both_def)
  moreover have "book (sc_codec cfg) (s_store y) pid = None" for pid
    using \<open>starts y\<close> by (auto simp: starts_def book_def proposal_at_def find_row_def empty_db_def bind_eq_None_conv)
  ultimately show ?case using assms(1,2) starts_ok [of y] by (simp add: joint_inv_iff open_for_def)
qed (rule joint_inv_step)

text \<open>C10. One open proposal per order, end to end, but for lost answers. Run the sub-solver against the
  service, with every other client, the driver and the background loops stepping in between in any order,
  requests getting lost before they reach the service and answers after they left it, and whatever auctions
  and reserves: the proposals of that sub-solver for one order that are open and unexpired at any time are at
  most one, not counting those whose submission was accepted and whose answer was lost (\<open>bo_lost\<close>). The
  service's own connection to the database is truthful. So while
  no answer to a \<open>POST\<close> was lost there is at most one, and each answer lost makes room for one more:
  the client takes the error for a refusal and submits the order again at the next poll.\<close>

theorem one_open_proposal_per_order:
  assumes "codec_ok (sc_codec cfg)" and "reads_u64 (sc_codec cfg)" and "fresh_both t y b0"
    and "(joint_step cfg k app)\<^sup>*\<^sup>* b0 b"
  shows "\<exists>i. \<forall>pid p. book (sc_codec cfg) (s_store (bo_sys b)) pid = Some p \<and> p_sub_solver p = sg_address (sc_signer cfg) \<and>
      p_order_uid p = uid \<and> \<not> is_terminal (wire_status_of (p_status p)) \<and> u256_of (bo_now b) < p_valid_until p \<longrightarrow>
    pid_raw pid = i \<or> pid_raw pid \<in> bo_lost b"
proof -
  note inv = joint_inv_run [OF assms, unfolded joint_inv_iff]
  obtain u where u: "uid = OrderUid u" by (cases uid)
  have "\<exists>l. ss_live (bo_sub b) u = Some l \<and> lv_id l = pid_raw pid"
    if "book (sc_codec cfg) (s_store (bo_sys b)) pid = Some p" "p_sub_solver p = sg_address (sc_signer cfg)"
      "p_order_uid p = uid" "\<not> is_terminal (wire_status_of (p_status p))" "u256_of (bo_now b) < p_valid_until p"
      "pid_raw pid \<notin> bo_lost b" for pid p
  proof -
    have "open_for (sc_codec cfg) (sg_address (sc_signer cfg)) (s_store (bo_sys b)) u (pid_raw pid) (p_valid_until p)"
      using that u by (auto simp: open_for_def)
    with inv that(5,6) show ?thesis by blast
  qed
  then show ?thesis by (intro exI [of _ "lv_id (the (ss_live (bo_sub b) u))"]) fastforce
qed

subsection \<open>A concrete run of both\<close>

definition sample_surroundings :: surroundings where
  "sample_surroundings =
     \<lparr>su_auction = re_auction sample_replies, su_reserves = re_reserves sample_replies, su_reaches = (\<lambda>_. True),
      su_answers = (\<lambda>_. True),
      su_clock = (\<lambda>_. \<lparr>db_now = 440000000, wall_now = 440000000\<rparr>)\<rparr>"

definition sample_start :: both where
  "sample_start = \<lparr>bo_now = 0, bo_sub = \<lparr>ss_live = (\<lambda>_. None), ss_next_nonce = 1\<rparr>, bo_sys = first_sys, bo_posted = [], bo_lost = {}\<rparr>"

lemma sample_start_fresh: "fresh_both 1000 first_sys sample_start"
  by (simp add: fresh_both_def sample_start_def first_starts new_subsolver_def)

text \<open>The poll at 440 posts one proposal, valid until 500, which the service stores.\<close>

lemma sample_post:
  assumes "build_proposal toy_crypto toy_client_abi sample_client_order sample_params (byos_domain 1 66) (toy_signer 17) = Some (Some p)"
  shows "\<exists>q st'. service_post std_codec toy_crypto sample_app \<lparr>db_now = 440000000, wall_now = 440000000\<rparr> (request_of std_codec p)
      (s_store first_sys) = (Answer 202 (Some 1) None, st') \<and> book std_codec st' (ProposalId 1) = Some q \<and>
      p_sub_solver q = 17 \<and> p_status q = Submitted \<and> p_valid_until q = 500"
proof -
  have len: "length (od_uid sample_client_order) = 56" by (simp add: sample_client_order_def)
  have me: "sg_address (toy_signer 17) = 17" by (simp add: toy_signer_def)
  from built_admitted [OF codec_ok_std reads_u64_std toy_signs toy_signature_round_trip len assms, of 1]
  obtain q where sub: "submitted std_codec toy_crypto (app_domain sample_app) (request_of std_codec p) = Inr q"
      and q: "p_sub_solver q = 17" "p_valid_until q = u256_of (sd_valid_until p)"
    by (auto simp: me sample_app_def split: sum.splits)
  have vu: "p_valid_until q = 500" using q(2) built_proposal [OF assms] by (auto simp: sample_params_def u256_of_def)
  have f: "signed_fields std_codec toy_crypto (app_domain sample_app) (request_of std_codec p) q" "fresh_fields q"
    using sub by (simp_all add: submitted_Inr_iff)
  then have u: "uid_ok (p_order_uid q)" and gas: "p_gas_used q = None" and stq: "p_status q = Submitted"
    by (auto simp: signed_fields_def fresh_fields_def intro: from_hex_uid_ok)
  let ?clk = "\<lparr>db_now = 440000000, wall_now = 440000000\<rparr> :: clock"
  obtain st' where ins: "insert_proposal_op std_codec ?clk q (s_store first_sys) = Some (Inr (ProposalId 1), st')"
    using first_insert [OF gas] by blast
  have "good std_codec (s_store first_sys)" using starts_ok [OF first_starts] by (simp add: sys_ok_def)
  from insert_outcome [OF this codec_ok_std u, of None ?clk] gas ins
  have b: "book std_codec st' (ProposalId 1) = Some (q\<lparr>p_id := ProposalId 1\<rparr>)" by (auto simp: gas_column_def)
  have now: "unix_secs (wall_now ?clk) = Some 440" by (simp add: unix_secs_def)
  have "check_lifetime sample_app 440 (p_valid_until q) = Inr ()"
    by (simp add: check_lifetime_def vu sample_app_def u256_of_def saturating_add_def)
  then have "create_proposal std_codec toy_crypto sample_app ?clk (request_of std_codec p) (s_store first_sys) = Some (Inr (ProposalId 1), st')"
    using sub now ins by (simp add: create_proposal_def)
  with b q(1) stq vu show ?thesis by (intro exI [of _ "q\<lparr>p_id := ProposalId 1\<rparr>"] exI [of _ st']) (simp add: service_post_def answer_of_def)
qed

lemma sample_joint_poll:
  "\<exists>b q. joint_step sample_subsolver toy_crypto sample_app sample_start b \<and> bo_now b = 440 \<and>
     book std_codec (s_store (bo_sys b)) (ProposalId 1) = Some q \<and> p_sub_solver q = 17 \<and> p_status q = Submitted \<and>
     p_valid_until q = 500 \<and> bo_lost b = {}"
proof -
  obtain p where p: "build_proposal toy_crypto toy_client_abi sample_client_order sample_params (byos_domain 1 66) (toy_signer 17) = Some (Some p)"
    by (simp add: build_proposal_def sample_routed sign_proposal_def toy_signer_def Let_def)
  obtain q st' where post: "service_post std_codec toy_crypto sample_app \<lparr>db_now = 440000000, wall_now = 440000000\<rparr> (request_of std_codec p)
      (s_store first_sys) = (Answer 202 (Some 1) None, st')" "book std_codec st' (ProposalId 1) = Some q"
      "p_sub_solver q = 17" "p_status q = Submitted" "p_valid_until q = 500"
    using sample_post [OF p] by blast
  have "\<exists>s' w'. poll_once sample_subsolver (service_network std_codec toy_crypto sample_app sample_surroundings) 440
      (bo_sub sample_start, joint_of sample_start) = Some (True, s', w') \<and> jo_store w' = st' \<and> jo_lost w' = {}"
    using post(1) p [unfolded sample_client_order_def sample_params_def]
    by (simp add: poll_once_def sample_subsolver_def sample_replies_def sample_surroundings_def service_network_def solvable_orders_def
        balance_or_default_def holds_live_proposal_def chain_reserves_def oriented_def propose_def Let_def unexpired_def
        parse_answer_def is_success_def ok_or_def u256_of_def joint_of_def sample_start_def come_back_def)
  then obtain s' w' where "poll_once sample_subsolver (service_network (sc_codec sample_subsolver) toy_crypto sample_app sample_surroundings) 440
      (bo_sub sample_start, joint_of sample_start) = Some (True, s', w')" "jo_store w' = st'" "jo_lost w' = {}"
    by (auto simp: sample_subsolver_def)
  note poll = this
  have "joint_step sample_subsolver toy_crypto sample_app sample_start
      \<lparr>bo_now = 440, bo_sub = s', bo_sys = (bo_sys sample_start)\<lparr>s_store := jo_store w'\<rparr>, bo_posted = jo_posted w',
        bo_lost = jo_lost w'\<rparr>"
    by (rule joint_step.Poll [OF poll(1)]) (simp_all add: sample_start_def sample_surroundings_def sample_auction)
  with post poll(2,3) show ?thesis by (intro exI conjI) (assumption | simp)+
qed

text \<open>The same poll when the answer is lost: the service holds the proposal, open until 500, and the
  sub-solver has nothing on record, so the order is among those it submits at its next poll.\<close>

lemma lost_answer_forgotten:
  "\<exists>b q. joint_step sample_subsolver toy_crypto sample_app sample_start b \<and> bo_now b = 440 \<and>
     book std_codec (s_store (bo_sys b)) (ProposalId 1) = Some q \<and> p_sub_solver q = 17 \<and> p_status q = Submitted \<and>
     p_valid_until q = 500 \<and> bo_lost b = {1} \<and> (\<forall>uid. ss_live (bo_sub b) uid = None)"
proof -
  let ?su = "sample_surroundings\<lparr>su_answers := \<lambda>_. False\<rparr>"
  obtain p where p: "build_proposal toy_crypto toy_client_abi sample_client_order sample_params (byos_domain 1 66) (toy_signer 17) = Some (Some p)"
    by (simp add: build_proposal_def sample_routed sign_proposal_def toy_signer_def Let_def)
  obtain q st' where post: "service_post std_codec toy_crypto sample_app \<lparr>db_now = 440000000, wall_now = 440000000\<rparr> (request_of std_codec p)
      (s_store first_sys) = (Answer 202 (Some 1) None, st')" "book std_codec st' (ProposalId 1) = Some q"
      "p_sub_solver q = 17" "p_status q = Submitted" "p_valid_until q = 500"
    using sample_post [OF p] by blast
  have none: "unexpired 440 (\<lambda>_. None) = (\<lambda>_. None)" by (rule ext) (simp add: unexpired_def)
  have "\<exists>s' w'. poll_once sample_subsolver (service_network std_codec toy_crypto sample_app ?su) 440
      (bo_sub sample_start, joint_of sample_start) = Some (True, s', w') \<and> jo_store w' = st' \<and> jo_lost w' = {1} \<and>
      ss_live s' = (\<lambda>_. None)"
    using post(1) p [unfolded sample_client_order_def sample_params_def]
    by (simp add: poll_once_def sample_subsolver_def sample_replies_def sample_surroundings_def service_network_def solvable_orders_def
        balance_or_default_def holds_live_proposal_def chain_reserves_def oriented_def propose_def Let_def none
        parse_answer_def is_success_def ok_or_def u256_of_def joint_of_def sample_start_def come_back_def)
  then obtain s' w' where poll: "poll_once sample_subsolver (service_network (sc_codec sample_subsolver) toy_crypto sample_app ?su) 440
      (bo_sub sample_start, joint_of sample_start) = Some (True, s', w')" "jo_store w' = st'" "jo_lost w' = {1}"
      "ss_live s' = (\<lambda>_. None)"
    by (auto simp: sample_subsolver_def)
  have "joint_step sample_subsolver toy_crypto sample_app sample_start
      \<lparr>bo_now = 440, bo_sub = s', bo_sys = (bo_sys sample_start)\<lparr>s_store := jo_store w'\<rparr>, bo_posted = jo_posted w',
        bo_lost = jo_lost w'\<rparr>"
    by (rule joint_step.Poll [OF poll(1)]) (simp_all add: sample_start_def sample_surroundings_def sample_auction)
  with post poll(2-4) show ?thesis by (intro exI conjI) (assumption | simp)+
qed

theorem one_open_proposal_per_order_witness:
  "\<exists>b q. joint_step sample_subsolver toy_crypto sample_app sample_start b \<and>
     book std_codec (s_store (bo_sys b)) (ProposalId 1) = Some q \<and>
     (\<forall>pid p. book std_codec (s_store (bo_sys b)) pid = Some p \<and> p_sub_solver p = 17 \<and> p_order_uid p = p_order_uid q \<and>
        p_status p = Submitted \<and> u256_of (bo_now b) < p_valid_until p \<longrightarrow> pid = ProposalId 1 \<and> p = q)"
proof -
  obtain b q where b: "joint_step sample_subsolver toy_crypto sample_app sample_start b" "bo_now b = 440"
      "book std_codec (s_store (bo_sys b)) (ProposalId 1) = Some q" "p_sub_solver q = 17" "p_status q = Submitted" "p_valid_until q = 500"
      "bo_lost b = {}"
    using sample_joint_poll by blast
  have c: "sc_codec sample_subsolver = std_codec" and me: "sg_address (sc_signer sample_subsolver) = 17"
    by (simp_all add: sample_subsolver_def toy_signer_def)
  from one_open_proposal_per_order [where cfg = sample_subsolver and k = toy_crypto and app = sample_app and b = b
        and b0 = sample_start and uid = "p_order_uid q", OF _ _ sample_start_fresh]
  obtain i where i: "\<And>pid p. book std_codec (s_store (bo_sys b)) pid = Some p \<Longrightarrow> p_sub_solver p = 17 \<Longrightarrow>
      p_order_uid p = p_order_uid q \<Longrightarrow> p_status p = Submitted \<Longrightarrow> u256_of (bo_now b) < p_valid_until p \<Longrightarrow> pid_raw pid = i"
    using b(1,7) c me codec_ok_std reads_u64_std by (auto simp: r_into_rtranclp is_terminal_def)
  have "i = 1" using i [OF b(3,4) refl b(5)] b(2,6) by (simp add: u256_of_def)
  then have "pid = ProposalId 1 \<and> p = q"
    if "book std_codec (s_store (bo_sys b)) pid = Some p" "p_sub_solver p = 17" "p_order_uid p = p_order_uid q"
      "p_status p = Submitted" "u256_of (bo_now b) < p_valid_until p" for pid p
    using i [OF that] that(1) b(3) by (cases pid) auto
  with b show ?thesis by blast
qed

end
