(* ===== verification/Operator.thy ===== *)
theory Operator
  imports Penalty_Policy
begin

text \<open>
  The escrow operator (\<open>infra/blockchain/operator.rs\<close>) behind the chain edge \<open>DebitEscrow\<close> of
  \<open>domain/penalty.rs\<close>: what a reverted settlement cost, from its receipt, and the debit transaction
  with a bounded wait for its receipt. The node's answers are a parameter. The edge is the locale
  \<open>debit_edge\<close>; \<open>confirmed\<close> lists the debits reported as landed.
\<close>

record receipt =
  rc_gas_used :: u64
  rc_effective_gas_price :: u128
  rc_status :: bool
  rc_transaction_hash :: b256

text \<open>A sent debit is a pending transaction: what the wait for its receipt ends in, given the timeout in
  seconds.\<close>

record node =
  n_receipt :: "b256 \<Rightarrow> string + receipt option"
  n_send_debit :: "address \<Rightarrow> u256 \<Rightarrow> b256 \<Rightarrow> string + (nat \<Rightarrow> string + receipt)"

definition CONFIRMATION_TIMEOUT :: nat where
  "CONFIRMATION_TIMEOUT = 120"

definition settlement_cost :: "codec \<Rightarrow> node \<Rightarrow> b256 \<Rightarrow> debit_error + u256" where
  "settlement_cost c w tx =
     (case n_receipt w tx of
        Inl e \<Rightarrow> Inl (Transient e)
      | Inr None \<Rightarrow> Inl (Transient (''no receipt yet for '' @ b256_text c tx))
      | Inr (Some r) \<Rightarrow>
          Inr (saturating_mul (u256_of (rc_gas_used r)) (u256_of (rc_effective_gas_price r))))"

definition operator_debit :: "codec \<Rightarrow> node \<Rightarrow> address \<Rightarrow> u256 \<Rightarrow> b256 \<Rightarrow> debit_error + b256" where
  "operator_debit c w sub_solver amount reason =
     (case n_send_debit w sub_solver amount reason of
        Inl e \<Rightarrow> Inl (Transient e)
      | Inr pending \<Rightarrow>
          (case pending CONFIRMATION_TIMEOUT of
             Inl e \<Rightarrow> Inl (Transient e)
           | Inr r \<Rightarrow>
               if \<not> rc_status r then Inl (Transient (''debit tx '' @ b256_text c (rc_transaction_hash r) @ '' reverted''))
               else Inr (rc_transaction_hash r)))"

subsection \<open>The interface\<close>

record debit_entry =
  de_sub_solver :: address
  de_amount :: u256
  de_reason :: b256
  de_tx :: b256

definition landed :: "address \<Rightarrow> u256 \<Rightarrow> b256 \<Rightarrow> debit_error + b256 \<Rightarrow> debit_entry list" where
  "landed a amount reason r =
     (case r of Inl _ \<Rightarrow> [] | Inr tx \<Rightarrow> [\<lparr>de_sub_solver = a, de_amount = amount, de_reason = reason, de_tx = tx\<rparr>])"

locale debit_edge =
  fixes cost :: "b256 \<Rightarrow> 'e \<Rightarrow> (debit_error + u256) \<times> 'e"
    and debit :: "address \<Rightarrow> u256 \<Rightarrow> b256 \<Rightarrow> 'e \<Rightarrow> (debit_error + b256) \<times> 'e"
    and confirmed :: "'e \<Rightarrow> debit_entry list"
    and ok :: "'e \<Rightarrow> bool"
    and price :: "b256 \<Rightarrow> u256 \<Rightarrow> bool"
  assumes cost_law: "ok e \<Longrightarrow> cost tx e = (r, e') \<Longrightarrow> ok e' \<and> confirmed e' = confirmed e \<and> (\<forall>x. r = Inr x \<longrightarrow> price tx x)"
    and debit_law: "ok e \<Longrightarrow> debit a amount reason e = (r', e') \<Longrightarrow>
      ok e' \<and> confirmed e' = confirmed e @ landed a amount reason r'"

text \<open>The operator with the answers its calls meet, one node state per call, and the debits confirmed so
  far. \<open>receipts\<close> is the chain: an answered receipt is the one on chain.\<close>

type_synonym operator = "(nat \<Rightarrow> node) \<times> debit_entry list"

fun operator_cost :: "codec \<Rightarrow> b256 \<Rightarrow> operator \<Rightarrow> (debit_error + u256) \<times> operator" where
  "operator_cost c tx (ws, ds) = (settlement_cost c (ws 0) tx, (\<lambda>i. ws (Suc i)), ds)"

fun operator_send :: "codec \<Rightarrow> address \<Rightarrow> u256 \<Rightarrow> b256 \<Rightarrow> operator \<Rightarrow> (debit_error + b256) \<times> operator" where
  "operator_send c a amount reason (ws, ds) =
     (let r = operator_debit c (ws 0) a amount reason in (r, (\<lambda>i. ws (Suc i)), ds @ landed a amount reason r))"

definition receipts_true :: "(b256 \<Rightarrow> receipt option) \<Rightarrow> operator \<Rightarrow> bool" where
  "receipts_true receipts op \<longleftrightarrow> (\<forall>i tx r. n_receipt (fst op i) tx = Inr (Some r) \<longrightarrow> receipts tx = Some r)"

definition price_on_chain :: "(b256 \<Rightarrow> receipt option) \<Rightarrow> b256 \<Rightarrow> u256 \<Rightarrow> bool" where
  "price_on_chain receipts tx x \<longleftrightarrow> (\<exists>r. receipts tx = Some r \<and>
     unat x = min (unat (rc_gas_used r) * unat (rc_effective_gas_price r)) (2 ^ 256 - 1))"

lemma settlement_cost_price:
  "receipts_true receipts (ws, ds) \<Longrightarrow> settlement_cost c (ws 0) tx = Inr x \<Longrightarrow> price_on_chain receipts tx x"
  by (auto simp: settlement_cost_def receipts_true_def price_on_chain_def unat_saturating_mul arith_facts
      split: sum.splits option.splits)

interpretation operator: debit_edge "operator_cost c" "operator_send c" snd "receipts_true receipts" "price_on_chain receipts"
  for c receipts
proof (unfold_locales, goal_cases)
  case (1 e tx r e')
  obtain ws ds where e: "e = (ws, ds)" by (cases e)
  with 1 settlement_cost_price [of receipts ws ds] show ?case by (auto simp: receipts_true_def)
next
  case (2 e a amount reason r' e')
  then show ?case by (cases e) (auto simp: receipts_true_def Let_def)
qed

end
