(* ===== verification/Settlement.thy ===== *)
theory Settlement
  imports Types
begin

text \<open>
  The settlement a proposal stands for (\<open>byos-common/src/trampoline.rs\<close>, \<open>settlement.rs\<close>,
  \<open>infra/blockchain/simulation.rs\<close>): the two intra-interactions that wrap a route, the one-trade
  \<open>settle()\<close> call and the \<open>eth_estimateGas\<close> request with its two state overrides. The ABI encoders of
  the contract bindings and \<open>keccak256\<close> are third-party: they are the parameters \<open>abi\<close> and \<open>keccak\<close>.
\<close>

unbundle bit_operations_syntax

subsection \<open>The call structures\<close>

record trade_data =
  td_sellTokenIndex :: u256
  td_buyTokenIndex :: u256
  td_receiver :: address
  td_sellAmount :: u256
  td_buyAmount :: u256
  td_validTo :: u32
  td_appData :: b256
  td_feeAmount :: u256
  td_flags :: u256
  td_executedAmount :: u256
  td_signature :: bytes

record settle_call =
  sc_tokens :: "address list"
  sc_clearingPrices :: "u256 list"
  sc_trades :: "trade_data list"
  sc_pre :: "interaction list"
  sc_intra :: "interaction list"
  sc_post :: "interaction list"

record execute_call =
  ec_proposal :: onchain_proposal
  ec_interactions :: "interaction list"
  ec_sellToken :: address
  ec_buyToken :: address
  ec_signature :: bytes

text \<open>\<open>abi_encode\<close> of the three calls.\<close>

record abi =
  abi_transfer :: "address \<Rightarrow> u256 \<Rightarrow> bytes"
  abi_execute :: "execute_call \<Rightarrow> bytes"
  abi_settle :: "settle_call \<Rightarrow> bytes"

subsection \<open>Order hooks\<close>

text \<open>\<open>byos-common/src/hooks.rs\<close>, the hooks of an order as its app data declares them. The service settles the
  interactions the orderbook has already encoded from them (\<open>or_pre_interactions\<close>,
  \<open>or_post_interactions\<close>) and does not read these types.\<close>

record hook =
  hk_target :: address
  hk_call_data :: bytes
  hk_gas_limit :: u256

record hooks =
  hks_pre :: "hook list"
  hks_post :: "hook list"

definition default_hooks :: hooks where
  "default_hooks = \<lparr>hks_pre = [], hks_post = []\<rparr>"

definition hooks_is_empty :: "hooks \<Rightarrow> bool" where
  "hooks_is_empty h \<longleftrightarrow> hks_pre h = [] \<and> hks_post h = []"

lemma hooks_is_empty_iff: "hooks_is_empty h \<longleftrightarrow> h = default_hooks"
  by (cases h) (simp add: hooks_is_empty_def default_hooks_def)

subsection \<open>The trampoline interactions\<close>

definition encode_trampoline_interactions ::
  "abi \<Rightarrow> address \<Rightarrow> address \<Rightarrow> onchain_proposal \<Rightarrow> interaction list \<Rightarrow> address \<Rightarrow> bytes \<Rightarrow> interaction list" where
  "encode_trampoline_interactions e trampoline sell_token oc interactions buy_token signature =
     (let transfer = \<lparr>i_target = sell_token, i_value = 0,
            i_callData = abi_transfer e trampoline (oc_sellAmount oc)\<rparr>;
          execute = \<lparr>i_target = trampoline, i_value = 0,
            i_callData = abi_execute e \<lparr>ec_proposal = oc, ec_interactions = interactions,
              ec_sellToken = sell_token, ec_buyToken = buy_token, ec_signature = signature\<rparr>\<rparr>
      in [transfer, execute])"

subsection \<open>The settle call\<close>

fun scheme_bits :: "signing_scheme \<Rightarrow> u64" where
  "scheme_bits Eip712 = 0"
| "scheme_bits EthSign = push_bit 5 1"
| "scheme_bits Eip1271 = push_bit 5 2"
| "scheme_bits PreSign = push_bit 5 3"

definition trade_flags :: "cow_order \<Rightarrow> u256" where
  "trade_flags ord =
     (let flags = 0 :: u64;
          flags = (if co_kind ord = Buy then flags OR 1 else flags);
          flags = (if co_partially_fillable ord then flags OR push_bit 1 1 else flags);
          flags = flags OR scheme_bits (co_signing_scheme ord)
      in u256_of flags)"

definition settle_of ::
  "abi \<Rightarrow> cow_order \<Rightarrow> onchain_proposal \<Rightarrow> address \<Rightarrow> interaction list \<Rightarrow> bytes
    \<Rightarrow> interaction list \<Rightarrow> interaction list \<Rightarrow> settle_call" where
  "settle_of e ord oc trampoline route proposal_signature pre post =
     (let trade = \<lparr>td_sellTokenIndex = 0, td_buyTokenIndex = 1, td_receiver = co_receiver ord,
            td_sellAmount = co_sell_amount ord, td_buyAmount = co_buy_amount ord,
            td_validTo = co_valid_to ord, td_appData = co_app_data ord, td_feeAmount = co_fee_amount ord,
            td_flags = trade_flags ord,
            td_executedAmount = (case co_kind ord of Sell \<Rightarrow> oc_sellAmount oc | Buy \<Rightarrow> oc_buyAmount oc),
            td_signature = co_signature ord\<rparr>;
          intra = encode_trampoline_interactions e trampoline (co_sell_token ord) oc route
                    (co_buy_token ord) proposal_signature
      in \<lparr>sc_tokens = [co_sell_token ord, co_buy_token ord],
          sc_clearingPrices = [oc_buyAmount oc, oc_sellAmount oc], sc_trades = [trade],
          sc_pre = pre, sc_intra = intra, sc_post = post\<rparr>)"

definition encode_settle ::
  "abi \<Rightarrow> cow_order \<Rightarrow> onchain_proposal \<Rightarrow> address \<Rightarrow> interaction list \<Rightarrow> bytes
    \<Rightarrow> interaction list \<Rightarrow> interaction list \<Rightarrow> bytes" where
  "encode_settle e ord oc trampoline route proposal_signature pre post =
     abi_settle e (settle_of e ord oc trampoline route proposal_signature pre post)"

subsection \<open>The simulation request\<close>

definition DUMMY_SUBMITTER :: address where
  "DUMMY_SUBMITTER = 0x1111111111111111111111111111111111111111"

definition ANYONE_AUTHENTICATOR_CODE :: bytes where
  "ANYONE_AUTHENTICATOR_CODE = (case std_hex_decode
     (''6080604052348015600e575f5ffd5b50600436106026575f3560e01c806302cc250d14602a575b5f5ffd5b603b6035''
      @ ''366004604f565b50600190565b604051901515815260200160405180910390f35b5f60208284031215605e575f5ffd5b''
      @ ''813573ffffffffffffffffffffffffffffffffffffffff811681146080575f5ffd5b939250505056fea164736f6c63''
      @ ''4300081e000a'') of Some code \<Rightarrow> code | None \<Rightarrow> [])"

definition SUBMITTER_ROLE :: b256 where
  "SUBMITTER_ROLE = 0xe1a65d1a914580ff6931bc952f0fb26573e9282358a4458bceb9ccc6d923d041"

definition ROLES_MAPPING_SLOT :: byte where
  "ROLES_MAPPING_SLOT = 5"

record sim_params =
  sp_settlement :: address
  sp_authenticator :: address
  sp_escrow :: address
  sp_trampoline :: address
  sp_order :: cow_order
  sp_proposal :: onchain_proposal
  sp_route :: "interaction list"
  sp_signature :: bytes
  sp_pre :: "interaction list"
  sp_post :: "interaction list"

text \<open>The fields of the transaction request and of an account override the code sets.\<close>

record account_override =
  ao_code :: "bytes option"
  ao_state_diff :: "(b256 \<times> b256) list option"

record simulation =
  sim_from :: address
  sim_to :: address
  sim_input :: bytes
  sim_authenticator_override :: "address \<times> account_override"
  sim_escrow_override :: "address \<times> account_override"

text \<open>The 32 bytes of a word, most significant first.\<close>

definition be_bytes :: "nat \<Rightarrow> 'a::len word \<Rightarrow> bytes" where
  "be_bytes n w = map (\<lambda>i. ucast (drop_bit (8 * (n - 1 - i)) w)) [0..<n]"

definition submitter_role_slot :: "(bytes \<Rightarrow> b256) \<Rightarrow> address \<Rightarrow> b256" where
  "submitter_role_slot keccak account =
     (let role_data_slot = keccak (be_bytes 32 SUBMITTER_ROLE @ be_bytes 32 (ucast ROLES_MAPPING_SLOT :: b256))
      in keccak (be_bytes 32 (ucast account :: b256) @ be_bytes 32 role_data_slot))"

definition build_simulation :: "abi \<Rightarrow> (bytes \<Rightarrow> b256) \<Rightarrow> sim_params \<Rightarrow> simulation" where
  "build_simulation e keccak ps =
     \<lparr>sim_from = DUMMY_SUBMITTER, sim_to = sp_settlement ps,
      sim_input = encode_settle e (sp_order ps) (sp_proposal ps) (sp_trampoline ps) (sp_route ps)
                    (sp_signature ps) (sp_pre ps) (sp_post ps),
      sim_authenticator_override =
        (sp_authenticator ps, \<lparr>ao_code = Some ANYONE_AUTHENTICATOR_CODE, ao_state_diff = None\<rparr>),
      sim_escrow_override =
        (sp_escrow ps, \<lparr>ao_code = None,
           ao_state_diff = Some [(submitter_role_slot keccak DUMMY_SUBMITTER, 1)]\<rparr>)\<rparr>"

subsection \<open>Reading the flags back\<close>

text \<open>\<open>GPv2Trade.extractFlags\<close> as the doc comment of \<open>trade_flags\<close> states it: kind in bit 0, partial
  fill in bit 1, balance locations in bits 2 to 4 (0: plain \<open>erc20\<close>), signing scheme in bits 5 and 6.\<close>

definition flags_kind :: "u256 \<Rightarrow> order_kind" where
  "flags_kind f = (if bit f 0 then Buy else Sell)"

definition flags_partial :: "u256 \<Rightarrow> bool" where
  "flags_partial f = bit f 1"

definition flags_balances :: "u256 \<Rightarrow> u256" where
  "flags_balances f = drop_bit 2 f AND 7"

definition flags_scheme :: "u256 \<Rightarrow> signing_scheme" where
  "flags_scheme f = (if drop_bit 5 f = 0 then Eip712 else if drop_bit 5 f = 1 then EthSign
     else if drop_bit 5 f = 2 then Eip1271 else PreSign)"

text \<open>The flags word of the simulated trade reads back: for every order the kind, the fill mode and
  the signing scheme decode to the order's own, the balance locations decode to plain \<open>erc20\<close>, and no
  bit above the seven is set.\<close>

theorem trade_flags_read_back:
  "flags_kind (trade_flags ord) = co_kind ord \<and>
   flags_partial (trade_flags ord) = co_partially_fillable ord \<and>
   flags_balances (trade_flags ord) = 0 \<and>
   flags_scheme (trade_flags ord) = co_signing_scheme ord \<and>
   drop_bit 7 (trade_flags ord) = 0"
  by (cases "co_kind ord"; cases "co_partially_fillable ord"; cases "co_signing_scheme ord";
      simp add: trade_flags_def flags_kind_def flags_partial_def flags_balances_def flags_scheme_def
        u256_of_def)

end
