(* ===== verification/Orderbook.thy ===== *)
theory Orderbook
  imports Settlement Signing "HOL-Library.AList"
begin

text \<open>
  The orderbook client (\<open>infra/orderbook.rs\<close>): the wire order and its conversion, the bounded cache of
  fetched orders, the classification of HTTP replies, and the native price. A request's reply (no
  answer, or a status with the parsed body) is a parameter of each operation. A price is the 64 bits of
  an IEEE double: the guards are read off the bits, the scaled conversion to \<open>u128\<close> is a parameter.
\<close>

datatype orderbook_error = OrderUnknown | OrderbookTransient

text \<open>\<open>Reply status body\<close>: \<open>None\<close> when the body does not parse.\<close>

datatype 'a http_reply = NoReply | Reply nat "'a option"

record wire_gpv2 =
  wg_target :: address
  wg_value :: u256
  wg_call_data :: bytes

record order_dto =
  od_receiver :: "address option"
  od_sell_token :: address
  od_buy_token :: address
  od_sell_amount :: u256
  od_buy_amount :: u256
  od_fee_amount :: u256
  od_valid_to :: u32
  od_app_data :: b256
  od_kind :: order_kind
  od_partially_fillable :: bool
  od_sell_token_balance :: string
  od_buy_token_balance :: string
  od_signing_scheme :: signing_scheme
  od_signature :: bytes
  od_pre :: "wire_gpv2 list"
  od_post :: "wire_gpv2 list"

definition into_gpv2 :: "wire_gpv2 \<Rightarrow> interaction" where
  "into_gpv2 w = \<lparr>i_target = wg_target w, i_value = wg_value w, i_callData = wg_call_data w\<rparr>"

definition into_record :: "order_dto \<Rightarrow> order_record" where
  "into_record d =
     \<lparr>or_order =
        \<lparr>co_sell_token = od_sell_token d, co_buy_token = od_buy_token d,
         co_receiver = (case od_receiver d of None \<Rightarrow> 0 | Some r \<Rightarrow> r),
         co_sell_amount = od_sell_amount d, co_buy_amount = od_buy_amount d, co_valid_to = od_valid_to d,
         co_app_data = od_app_data d, co_fee_amount = od_fee_amount d, co_kind = od_kind d,
         co_partially_fillable = od_partially_fillable d, co_signing_scheme = od_signing_scheme d,
         co_signature = od_signature d\<rparr>,
      or_pre_interactions = map into_gpv2 (od_pre d), or_post_interactions = map into_gpv2 (od_post d),
      or_erc20_balances = (od_sell_token_balance d = ''erc20'' \<and> od_buy_token_balance d = ''erc20'')\<rparr>"

subsection \<open>The bounded cache\<close>

type_synonym order_cache = "(order_uid \<times> order_record) list"

definition CACHE_CAPACITY :: nat where
  "CACHE_CAPACITY = 10000"

definition remember :: "nat \<Rightarrow> order_uid \<Rightarrow> order_record \<Rightarrow> order_cache \<Rightarrow> order_cache" where
  "remember capacity uid r cache =
     AList.update uid r (if capacity \<le> length cache \<and> map_of cache uid = None then [] else cache)"

text \<open>\<open>HashMap\<close>: one entry per key; and never more than the ceiling.\<close>

definition cache_ok :: "nat \<Rightarrow> order_cache \<Rightarrow> bool" where
  "cache_ok capacity cache \<longleftrightarrow> distinct (map fst cache) \<and> length cache \<le> capacity"

lemma length_update: "length (AList.update k v al) = (if map_of al k = None then Suc (length al) else length al)"
  by (induction al) auto

lemma remember_ok: "0 < capacity \<Longrightarrow> cache_ok capacity cache \<Longrightarrow> cache_ok capacity (remember capacity uid r cache)"
  by (auto simp: cache_ok_def remember_def length_update intro: distinct_update)

lemma remember_lookup:
  "map_of (remember capacity uid r cache) k =
     (if k = uid then Some r else if capacity \<le> length cache \<and> map_of cache uid = None then None else map_of cache k)"
  by (simp add: remember_def update_conv')

subsection \<open>Requests\<close>

definition read_reply :: "'a http_reply \<Rightarrow> orderbook_error + 'a" where
  "read_reply reply =
     (case reply of
        NoReply \<Rightarrow> Inl OrderbookTransient
      | Reply status body \<Rightarrow>
          if status = 404 then Inl OrderUnknown
          else if \<not> (200 \<le> status \<and> status < 300) then Inl OrderbookTransient
          else ok_or OrderbookTransient body)"

definition fetch_order ::
  "nat \<Rightarrow> (order_uid \<Rightarrow> order_dto http_reply) \<Rightarrow> order_uid \<Rightarrow> order_cache \<Rightarrow> (orderbook_error + order_record) \<times> order_cache" where
  "fetch_order capacity get uid cache =
     (case map_of cache uid of
        Some r \<Rightarrow> (Inr r, cache)
      | None \<Rightarrow>
          (case read_reply (get uid) of
             Inl e \<Rightarrow> (Inl e, cache)
           | Inr dto \<Rightarrow> let r = into_record dto in (Inr r, remember capacity uid r cache)))"

text \<open>\<open>is_finite\<close> and \<open>< 0.0\<close> on the bits of a double (the exponent is not all ones; the sign is set and
  the value is not \<open>-0.0\<close>).\<close>

definition f64_is_finite :: "u64 \<Rightarrow> bool" where
  "f64_is_finite b \<longleftrightarrow> drop_bit 52 b AND 0x7FF \<noteq> 0x7FF"

definition f64_negative :: "u64 \<Rightarrow> bool" where
  "f64_negative b \<longleftrightarrow> bit b 63 \<and> b \<noteq> push_bit 63 1"

definition native_price ::
  "(u64 \<Rightarrow> u128) \<Rightarrow> (address \<Rightarrow> u64 http_reply) \<Rightarrow> address \<Rightarrow> orderbook_error + u256" where
  "native_price times_1e18 get token =
     and_then (read_reply (get token)) (\<lambda>price.
       if \<not> f64_is_finite price \<or> f64_negative price then Inl OrderbookTransient
       else Inr (u256_of (times_1e18 price)))"

text \<open>Orders are immutable: \<open>orders\<close> is what the orderbook holds, a reply that parses says so and the cache
  remembers nothing else.\<close>

definition replies_honestly :: "(order_uid \<Rightarrow> order_record option) \<Rightarrow> (order_uid \<Rightarrow> order_dto http_reply) \<Rightarrow> bool" where
  "replies_honestly orders get \<longleftrightarrow> (\<forall>uid dto. read_reply (get uid) = Inr dto \<longrightarrow> orders uid = Some (into_record dto))"

definition cache_coherent :: "nat \<Rightarrow> (order_uid \<Rightarrow> order_record option) \<Rightarrow> order_cache \<Rightarrow> bool" where
  "cache_coherent capacity orders cache \<longleftrightarrow> cache_ok capacity cache \<and>
     (\<forall>uid r. map_of cache uid = Some r \<longrightarrow> orders uid = Some r)"

lemma fetch_order_result:
  assumes c: "cache_coherent capacity orders cache" and h: "replies_honestly orders get" and cap: "0 < capacity"
    and f: "fetch_order capacity get uid cache = (r, cache')"
  shows "cache_coherent capacity orders cache'"
    and "r = Inr rec \<Longrightarrow> orders uid = Some rec"
    and "r = Inl e \<Longrightarrow> read_reply (get uid) = Inl e"
proof -
  have "cache_coherent capacity orders (remember capacity uid (into_record dto) cache)"
    if "read_reply (get uid) = Inr dto" for dto
    using that c h remember_ok [OF cap, of cache uid "into_record dto"]
    by (auto simp: cache_coherent_def replies_honestly_def remember_lookup)
  with f c show "cache_coherent capacity orders cache'"
    by (auto simp: fetch_order_def Let_def split: option.splits sum.splits)
  show "r = Inr rec \<Longrightarrow> orders uid = Some rec" "r = Inl e \<Longrightarrow> read_reply (get uid) = Inl e"
    using f c h by (auto simp: fetch_order_def Let_def cache_coherent_def replies_honestly_def split: option.splits sum.splits)
qed

end
