(* ===== verification/Validator.thy ===== *)
theory Validator
  imports Orderbook Envelope Scoring
begin

text \<open>
  The production validator (\<open>infra/blockchain/escrow.rs\<close>, \<open>validator.rs\<close>) behind the seam
  \<open>ValidateProposal\<close> (\<open>domain/validator.rs\<close>): escrow balance first, then the simulation of the full
  settlement and, for a first simulation, the profitability gate. What the node and the orderbook
  answer during one validation is the parameter \<open>world\<close>; a different validation may meet different
  answers. The caches are the state \<open>caches\<close>; log lines are not modelled.
\<close>

subsection \<open>Answers from outside\<close>

datatype rpc_error = ErrorResp int | NullResp | OtherRpcError

datatype contract_error = TransportError rpc_error | OtherContractError

definition is_revert :: "rpc_error \<Rightarrow> bool" where
  "is_revert e = (case e of ErrorResp code \<Rightarrow> code = 3 | NullResp \<Rightarrow> True | OtherRpcError \<Rightarrow> False)"

definition is_trampoline_revert :: "contract_error \<Rightarrow> bool" where
  "is_trampoline_revert e = (case e of TransportError r \<Rightarrow> is_revert r | OtherContractError \<Rightarrow> False)"

record world =
  w_effective_balance :: "address \<Rightarrow> contract_error + u256"
  w_address_of :: "address \<Rightarrow> contract_error + address"
  w_authenticator :: "contract_error + address"
  w_estimate_gas :: "simulation \<Rightarrow> rpc_error + u64"
  w_order :: "order_uid \<Rightarrow> order_dto http_reply"
  w_price :: "address \<Rightarrow> u64 http_reply"
  w_times_1e18 :: "u64 \<Rightarrow> u128"

record validator_config =
  vc_settlement :: address
  vc_escrow :: address
  vc_min_collateral :: u256
  vc_min_score :: u256
  vc_cache_capacity :: nat
  vc_abi :: abi
  vc_keccak :: "bytes \<Rightarrow> b256"

record caches =
  ca_balances :: "address \<Rightarrow> u256 option"
  ca_trampolines :: "address \<Rightarrow> address option"
  ca_authenticator :: "address option"
  ca_orders :: order_cache

subsection \<open>The escrow check\<close>

definition threshold :: "validator_config \<Rightarrow> u64 \<Rightarrow> u256" where
  "threshold cfg gas_price =
     saturating_add (saturating_mul (u256_of ESCROW_GAS_ESTIMATION) (u256_of gas_price)) (vc_min_collateral cfg)"

definition clear_cache :: "caches \<Rightarrow> caches" where
  "clear_cache ca = ca\<lparr>ca_balances := (\<lambda>_. None)\<rparr>"

definition get_balance :: "world \<Rightarrow> address \<Rightarrow> caches \<Rightarrow> (contract_error + u256) \<times> caches" where
  "get_balance w sub_solver ca =
     (case ca_balances ca sub_solver of
        Some balance \<Rightarrow> (Inr balance, ca)
      | None \<Rightarrow>
          (case w_effective_balance w sub_solver of
             Inl e \<Rightarrow> (Inl e, ca)
           | Inr balance \<Rightarrow> (Inr balance, ca\<lparr>ca_balances := (ca_balances ca)(sub_solver \<mapsto> balance)\<rparr>)))"

definition validate_escrow ::
  "validator_config \<Rightarrow> u64 \<Rightarrow> world \<Rightarrow> proposal \<Rightarrow> caches \<Rightarrow> verdict option \<times> caches" where
  "validate_escrow cfg gas_price w p ca =
     (case get_balance w (p_sub_solver p) ca of
        (Inr balance, ca') \<Rightarrow>
          if threshold cfg gas_price \<le> balance then (Some (Accept None), ca')
          else (Some (Reject InsufficientEscrow), ca')
      | (Inl e, ca') \<Rightarrow> (None, ca'))"

subsection \<open>The simulation\<close>

definition resolve_trampoline :: "world \<Rightarrow> address \<Rightarrow> caches \<Rightarrow> (contract_error + address) \<times> caches" where
  "resolve_trampoline w sub_solver ca =
     (case ca_trampolines ca sub_solver of
        Some addr \<Rightarrow> (Inr addr, ca)
      | None \<Rightarrow>
          (case w_address_of w sub_solver of
             Inl e \<Rightarrow> (Inl e, ca)
           | Inr addr \<Rightarrow> (Inr addr, ca\<lparr>ca_trampolines := (ca_trampolines ca)(sub_solver \<mapsto> addr)\<rparr>)))"

definition resolve_authenticator :: "world \<Rightarrow> caches \<Rightarrow> (contract_error + address) \<times> caches" where
  "resolve_authenticator w ca =
     (case ca_authenticator ca of
        Some addr \<Rightarrow> (Inr addr, ca)
      | None \<Rightarrow>
          (case w_authenticator w of
             Inl e \<Rightarrow> (Inl e, ca)
           | Inr addr \<Rightarrow> (Inr addr, ca\<lparr>ca_authenticator := Some addr\<rparr>)))"

definition order_score :: "order_record \<Rightarrow> proposal \<Rightarrow> u64 \<Rightarrow> u64 \<Rightarrow> u256 \<Rightarrow> u256 option" where
  "order_score r p gas gas_price price =
     (let gas_cost = saturating_mul (u256_of (effective_gas gas)) (u256_of gas_price);
          candidate = scaled_to_fill (candidate_of (or_order r) p gas_cost) (co_partially_fillable (or_order r))
      in Option.bind candidate (\<lambda>cand. score_proposal cand (SurplusPrice price)))"

text \<open>\<open>None\<close> defers, \<open>Some (Inl reason)\<close> rejects.\<close>

definition profitability ::
  "validator_config \<Rightarrow> u64 \<Rightarrow> world \<Rightarrow> proposal \<Rightarrow> order_record \<Rightarrow> u64 \<Rightarrow> (rejection_reason + unit) option" where
  "profitability cfg gas_price w p r gas =
     (let token = surplus_token (co_kind (or_order r) = Sell) (co_sell_token (or_order r)) (co_buy_token (or_order r))
      in case native_price (w_times_1e18 w) (w_price w) token of
           Inl OrderUnknown \<Rightarrow> Some (Inl Unprofitable)
         | Inl OrderbookTransient \<Rightarrow> None
         | Inr price \<Rightarrow>
             (case order_score r p gas gas_price price of
                None \<Rightarrow> Some (Inl Unprofitable)
              | Some score \<Rightarrow> if score \<le> vc_min_score cfg then Some (Inl Unprofitable) else Some (Inr ())))"

definition simulation_of :: "validator_config \<Rightarrow> order_record \<Rightarrow> proposal \<Rightarrow> address \<Rightarrow> address \<Rightarrow> simulation" where
  "simulation_of cfg r p trampoline authenticator =
     build_simulation (vc_abi cfg) (vc_keccak cfg)
       \<lparr>sp_settlement = vc_settlement cfg, sp_authenticator = authenticator, sp_escrow = vc_escrow cfg,
        sp_trampoline = trampoline, sp_order = or_order r,
        sp_proposal = \<lparr>oc_orderUidHash = p_order_uid_hash p, oc_sellAmount = p_sell_amount p,
          oc_buyAmount = p_buy_amount p, oc_validUntil = p_valid_until p, oc_nonce = p_nonce p\<rparr>,
        sp_route = p_interactions p, sp_signature = p_signature p,
        sp_pre = or_pre_interactions r, sp_post = or_post_interactions r\<rparr>"

text \<open>Steps 5 and 6: what the estimate makes of the proposal.\<close>

definition judge_estimate ::
  "validator_config \<Rightarrow> u64 \<Rightarrow> world \<Rightarrow> proposal \<Rightarrow> order_record \<Rightarrow> address \<Rightarrow> address \<Rightarrow> verdict option" where
  "judge_estimate cfg gas_price w p r trampoline authenticator =
     (case w_estimate_gas w (simulation_of cfg r p trampoline authenticator) of
        Inl e \<Rightarrow> if is_revert e then Some VSimFailed else None
      | Inr gas \<Rightarrow>
          if i64_of_u64 gas = None then None
          else
            let accept = Some (Accept (Some \<lparr>so_gas_used = gas, so_trampoline = trampoline,
                  so_sell_token = co_sell_token (or_order r), so_buy_token = co_buy_token (or_order r)\<rparr>))
            in if p_status p = Submitted then
                 (case profitability cfg gas_price w p r gas of
                    None \<Rightarrow> None
                  | Some (Inl reason) \<Rightarrow> Some (Reject reason)
                  | Some (Inr _) \<Rightarrow> accept)
               else accept)"

definition trampoline_for :: "world \<Rightarrow> proposal \<Rightarrow> caches \<Rightarrow> (contract_error + address) \<times> caches" where
  "trampoline_for w p ca =
     (case p_trampoline p of Some addr \<Rightarrow> (Inr addr, ca) | None \<Rightarrow> resolve_trampoline w (p_sub_solver p) ca)"

definition validate_simulation ::
  "validator_config \<Rightarrow> u64 \<Rightarrow> world \<Rightarrow> proposal \<Rightarrow> caches \<Rightarrow> verdict option \<times> caches" where
  "validate_simulation cfg gas_price w p ca =
     (case fetch_order (vc_cache_capacity cfg) (w_order w) (p_order_uid p) (ca_orders ca) of
        (Inl OrderUnknown, orders) \<Rightarrow> (Some (Reject OrderNotFound), ca\<lparr>ca_orders := orders\<rparr>)
      | (Inl OrderbookTransient, orders) \<Rightarrow> (None, ca\<lparr>ca_orders := orders\<rparr>)
      | (Inr r, orders) \<Rightarrow>
          (let ca1 = ca\<lparr>ca_orders := orders\<rparr> in
           case check_envelope r p of
             Inl reason \<Rightarrow> (Some (Reject reason), ca1)
           | Inr _ \<Rightarrow>
               (case trampoline_for w p ca1 of
                  (Inl e, ca2) \<Rightarrow> (if is_trampoline_revert e then Some VSimFailed else None, ca2)
                | (Inr trampoline, ca2) \<Rightarrow>
                    (case resolve_authenticator w ca2 of
                       (Inl e, ca3) \<Rightarrow> (None, ca3)
                     | (Inr authenticator, ca3) \<Rightarrow>
                         (judge_estimate cfg gas_price w p r trampoline authenticator, ca3)))))"

subsection \<open>The composite\<close>

definition validate_proposal ::
  "validator_config \<Rightarrow> u64 \<Rightarrow> world \<Rightarrow> proposal \<Rightarrow> caches \<Rightarrow> verdict option \<times> caches" where
  "validate_proposal cfg gas_price w p ca =
     (case validate_escrow cfg gas_price w p ca of
        (Some (Accept _), ca') \<Rightarrow> validate_simulation cfg gas_price w p ca'
      | (verdict, ca') \<Rightarrow> (verdict, ca'))"

definition accept_all :: "proposal \<Rightarrow> 's \<Rightarrow> verdict option \<times> 's" where
  "accept_all p s = (Some (Accept None), s)"

end
