(* ===== verification/Validator_Properties.thy ===== *)
theory Validator_Properties
  imports Validator
begin

text \<open>
  Every verdict of the production validator is justified by the facts on chain and in the orderbook,
  whatever the caches hold: \<open>facts\<close> is what is true during a tick (balances) and forever (trampolines,
  the authenticator, orders), \<open>honest\<close> says that answers report it, \<open>coherent\<close> that the caches remember
  nothing else. Answers may be missing or fail in any way.
\<close>

record facts =
  f_balance :: "address \<Rightarrow> u256"
  f_trampoline :: "address \<Rightarrow> address"
  f_authenticator :: address
  f_order :: "order_uid \<Rightarrow> order_record option"

definition honest :: "facts \<Rightarrow> world \<Rightarrow> bool" where
  "honest t w \<longleftrightarrow>
     (\<forall>a b. w_effective_balance w a = Inr b \<longrightarrow> b = f_balance t a) \<and>
     (\<forall>a b. w_address_of w a = Inr b \<longrightarrow> b = f_trampoline t a) \<and>
     (\<forall>b. w_authenticator w = Inr b \<longrightarrow> b = f_authenticator t) \<and>
     replies_honestly (f_order t) (w_order w)"

definition coherent :: "validator_config \<Rightarrow> facts \<Rightarrow> caches \<Rightarrow> bool" where
  "coherent cfg t ca \<longleftrightarrow>
     (\<forall>a b. ca_balances ca a = Some b \<longrightarrow> b = f_balance t a) \<and>
     (\<forall>a b. ca_trampolines ca a = Some b \<longrightarrow> b = f_trampoline t a) \<and>
     (\<forall>b. ca_authenticator ca = Some b \<longrightarrow> b = f_authenticator t) \<and>
     cache_coherent (vc_cache_capacity cfg) (f_order t) (ca_orders ca)"

definition trampoline_fact :: "facts \<Rightarrow> proposal \<Rightarrow> address" where
  "trampoline_fact t p = (case p_trampoline p of Some addr \<Rightarrow> addr | None \<Rightarrow> f_trampoline t (p_sub_solver p))"

text \<open>The simulation the facts prescribe, the price of the surplus token as the orderbook answers it, and the
  score at that price. A proposal is unprofitable when its score at the price answered misses the minimum
  (or cannot be computed), or when the orderbook says that the token has no price; a price that could not
  be obtained makes it neither.\<close>

definition true_simulation :: "validator_config \<Rightarrow> facts \<Rightarrow> order_record \<Rightarrow> proposal \<Rightarrow> simulation" where
  "true_simulation cfg t r p = simulation_of cfg r p (trampoline_fact t p) (f_authenticator t)"

definition answered_price :: "world \<Rightarrow> order_record \<Rightarrow> orderbook_error + u256" where
  "answered_price w r = native_price (w_times_1e18 w) (w_price w)
     (surplus_token (co_kind (or_order r) = Sell) (co_sell_token (or_order r)) (co_buy_token (or_order r)))"

definition profitable :: "validator_config \<Rightarrow> u64 \<Rightarrow> world \<Rightarrow> order_record \<Rightarrow> proposal \<Rightarrow> u64 \<Rightarrow> bool" where
  "profitable cfg gas_price w r p gas \<longleftrightarrow>
     (\<exists>price score. answered_price w r = Inr price \<and>
        order_score r p gas gas_price price = Some score \<and> vc_min_score cfg < score)"

definition unprofitable :: "validator_config \<Rightarrow> u64 \<Rightarrow> world \<Rightarrow> order_record \<Rightarrow> proposal \<Rightarrow> u64 \<Rightarrow> bool" where
  "unprofitable cfg gas_price w r p gas \<longleftrightarrow> answered_price w r = Inl OrderUnknown \<or>
     (\<exists>price. answered_price w r = Inr price \<and> (case order_score r p gas gas_price price of
        None \<Rightarrow> True | Some score \<Rightarrow> score \<le> vc_min_score cfg))"

definition justified :: "validator_config \<Rightarrow> u64 \<Rightarrow> facts \<Rightarrow> world \<Rightarrow> proposal \<Rightarrow> verdict \<Rightarrow> bool" where
  "justified cfg gas_price t w p v \<longleftrightarrow>
     (case v of
        Accept sim \<Rightarrow>
          threshold cfg gas_price \<le> f_balance t (p_sub_solver p) \<and>
          (\<exists>r gas. f_order t (p_order_uid p) = Some r \<and> check_envelope r p = Inr () \<and>
             w_estimate_gas w (true_simulation cfg t r p) = Inr gas \<and> i64_of_u64 gas \<noteq> None \<and>
             (p_status p \<noteq> Submitted \<or> profitable cfg gas_price w r p gas) \<and>
             sim = Some \<lparr>so_gas_used = gas, so_trampoline = trampoline_fact t p,
               so_sell_token = co_sell_token (or_order r), so_buy_token = co_buy_token (or_order r)\<rparr>)
      | VSimFailed \<Rightarrow>
          (\<exists>e. w_address_of w (p_sub_solver p) = Inl e \<and> is_trampoline_revert e) \<or>
          (\<exists>r e. f_order t (p_order_uid p) = Some r \<and> w_estimate_gas w (true_simulation cfg t r p) = Inl e \<and> is_revert e)
      | Reject reason \<Rightarrow>
          (case reason of
             InsufficientEscrow \<Rightarrow> f_balance t (p_sub_solver p) < threshold cfg gas_price
           | OrderNotFound \<Rightarrow> read_reply (w_order w (p_order_uid p)) = Inl OrderUnknown
           | Unprofitable \<Rightarrow> p_status p = Submitted \<and>
               (\<exists>r gas. f_order t (p_order_uid p) = Some r \<and> check_envelope r p = Inr () \<and>
                  w_estimate_gas w (true_simulation cfg t r p) = Inr gas \<and> unprofitable cfg gas_price w r p gas)
           | _ \<Rightarrow> (\<exists>r. f_order t (p_order_uid p) = Some r \<and> check_envelope r p = Inl reason)))"

text \<open>An answer the judgement needs is missing: the balance; for a funded sub-solver, the order; for an
  acceptable order, the estimate (without a revert), or on a first simulation the price.\<close>

definition unanswered :: "validator_config \<Rightarrow> u64 \<Rightarrow> facts \<Rightarrow> caches \<Rightarrow> world \<Rightarrow> proposal \<Rightarrow> bool" where
  "unanswered cfg gas_price t ca w p \<longleftrightarrow>
     isl (w_effective_balance w (p_sub_solver p)) \<and> ca_balances ca (p_sub_solver p) = None \<or>
     threshold cfg gas_price \<le> f_balance t (p_sub_solver p) \<and>
       (map_of (ca_orders ca) (p_order_uid p) = None \<and> read_reply (w_order w (p_order_uid p)) = Inl OrderbookTransient \<or>
        (\<exists>r. f_order t (p_order_uid p) = Some r \<and> read_reply (w_order w (p_order_uid p)) \<noteq> Inl OrderUnknown \<and>
           check_envelope r p = Inr () \<and>
           (\<forall>e. w_address_of w (p_sub_solver p) = Inl e \<longrightarrow> \<not> is_trampoline_revert e) \<and>
           (case w_estimate_gas w (true_simulation cfg t r p) of
              Inl e \<Rightarrow> \<not> is_revert e
            | Inr gas \<Rightarrow> i64_of_u64 gas = None \<or>
                p_status p = Submitted \<and> answered_price w r = Inl OrderbookTransient)))"

subsection \<open>The cached lookups\<close>

lemma get_balance_fact:
  assumes "coherent cfg t ca" and "honest t w" and "get_balance w a ca = (r, ca')"
  shows "coherent cfg t ca' \<and> (\<forall>b. r = Inr b \<longrightarrow> b = f_balance t a)"
  using assms
  by (cases "w_effective_balance w a") (auto simp: get_balance_def coherent_def honest_def split: option.splits if_splits)

lemma trampoline_for_fact:
  assumes "coherent cfg t ca" and "honest t w" and "trampoline_for w p ca = (r, ca')"
  shows "coherent cfg t ca' \<and> (\<forall>b. r = Inr b \<longrightarrow> b = trampoline_fact t p) \<and>
    (\<forall>e. r = Inl e \<longrightarrow> w_address_of w (p_sub_solver p) = Inl e)"
  using assms
  by (cases "w_address_of w (p_sub_solver p)"; cases "ca_trampolines ca (p_sub_solver p)"; cases "p_trampoline p")
    (auto simp: trampoline_for_def resolve_trampoline_def trampoline_fact_def coherent_def honest_def
      split: option.splits if_splits)

lemma resolve_authenticator_fact:
  assumes "coherent cfg t ca" and "honest t w" and "resolve_authenticator w ca = (r, ca')"
  shows "coherent cfg t ca' \<and> (\<forall>b. r = Inr b \<longrightarrow> b = f_authenticator t)"
  using assms by (auto simp: resolve_authenticator_def coherent_def honest_def split: option.splits sum.splits)

lemma fetch_order_fact:
  assumes "coherent cfg t ca" and "honest t w" and "0 < vc_cache_capacity cfg"
    and "fetch_order (vc_cache_capacity cfg) (w_order w) uid (ca_orders ca) = (r, orders)"
  shows "coherent cfg t (ca\<lparr>ca_orders := orders\<rparr>)"
    and "r = Inr rec \<Longrightarrow> f_order t uid = Some rec" and "r = Inl e \<Longrightarrow> read_reply (w_order w uid) = Inl e"
  using fetch_order_result [OF _ _ assms(3,4), of "f_order t"] assms(1,2)
  by (auto simp: coherent_def honest_def)

lemma envelope_reasons: "check_envelope r p = Inl reason \<Longrightarrow> reason \<in> {UnsupportedOrder, AmountMismatch}"
  using check_envelope_Inl_cases [of r p reason] by (simp split: if_splits)

lemma profitability_cases:
  "profitability cfg gp w p r gas = Some (Inr ()) \<and> profitable cfg gp w r p gas \<or>
   profitability cfg gp w p r gas = Some (Inl Unprofitable) \<and> unprofitable cfg gp w r p gas \<or>
   profitability cfg gp w p r gas = None"
  by (auto simp: profitability_def profitable_def unprofitable_def answered_price_def Let_def not_le split: sum.splits orderbook_error.splits option.splits)

lemma judge_estimate_justified:
  assumes "judge_estimate cfg gp w p r (trampoline_fact t p) (f_authenticator t) = Some v"
    and "f_order t (p_order_uid p) = Some r" and "check_envelope r p = Inr ()"
    and "threshold cfg gp \<le> f_balance t (p_sub_solver p)"
  shows "justified cfg gp t w p v"
proof (cases "w_estimate_gas w (true_simulation cfg t r p)")
  case (Inl e)
  with assms show ?thesis
    by (auto simp: judge_estimate_def true_simulation_def justified_def split: if_splits)
next
  case (Inr gas)
  show ?thesis
  proof (cases "p_status p = Submitted")
    case True
    with assms Inr profitability_cases [of cfg gp w p r gas] show ?thesis
      by (auto simp: judge_estimate_def true_simulation_def justified_def Let_def split: if_splits)
  next
    case False
    with assms Inr show ?thesis
      by (auto simp: judge_estimate_def true_simulation_def justified_def Let_def split: if_splits)
  qed
qed

lemma validate_simulation_justified:
  assumes co: "coherent cfg t ca" and h: "honest t w" and cap: "0 < vc_cache_capacity cfg"
    and bal: "threshold cfg gp \<le> f_balance t (p_sub_solver p)"
    and run: "validate_simulation cfg gp w p ca = (v, ca')"
  shows "coherent cfg t ca' \<and> (\<forall>v'. v = Some v' \<longrightarrow> justified cfg gp t w p v')"
proof -
  obtain fo orders where fo: "fetch_order (vc_cache_capacity cfg) (w_order w) (p_order_uid p) (ca_orders ca) = (fo, orders)"
    by (cases "fetch_order (vc_cache_capacity cfg) (w_order w) (p_order_uid p) (ca_orders ca)")
  note fact = fetch_order_fact [OF co h cap fo]
  show ?thesis
  proof (cases fo)
    case (Inl e)
    with run fo fact(1) fact(3) [OF Inl] show ?thesis
      by (cases e) (auto simp: validate_simulation_def justified_def)
  next
    case (Inr r)
    note r = fact(2) [OF Inr]
    let ?ca1 = "ca\<lparr>ca_orders := orders\<rparr>"
    show ?thesis
    proof (cases "check_envelope r p")
      case e: (Inl reason)
      with envelope_reasons [OF e] run fo Inr fact(1) r show ?thesis
        by (auto simp: validate_simulation_def justified_def Let_def)
    next
      case ok: (Inr u)
      obtain tr ca2 where tr: "trampoline_for w p ?ca1 = (tr, ca2)" by (cases "trampoline_for w p ?ca1")
      note trf = trampoline_for_fact [OF fact(1) h tr]
      show ?thesis
      proof (cases tr)
        case (Inl e)
        with run fo Inr ok tr trf show ?thesis
          by (auto simp: validate_simulation_def justified_def Let_def split: if_splits)
      next
        case a: (Inr trampoline)
        obtain au ca3 where au: "resolve_authenticator w ca2 = (au, ca3)" by (cases "resolve_authenticator w ca2")
        have "coherent cfg t ca2" using trf by simp
        note auf = resolve_authenticator_fact [OF this h au]
        show ?thesis
        proof (cases au)
          case (Inl e)
          with run fo Inr ok tr a au auf show ?thesis by (auto simp: validate_simulation_def Let_def)
        next
          case (Inr authenticator)
          with run fo \<open>fo = Inr r\<close> ok tr a au trf auf
          have "v = judge_estimate cfg gp w p r (trampoline_fact t p) (f_authenticator t)" "ca' = ca3"
            by (auto simp: validate_simulation_def Let_def)
          with judge_estimate_justified [OF _ r _ bal] ok auf show ?thesis by auto
        qed
      qed
    qed
  qed
qed

lemma validate_proposal_justified:
  assumes "coherent cfg t ca" and "honest t w" and "0 < vc_cache_capacity cfg"
    and "validate_proposal cfg gas_price w p ca = (v, ca')"
  shows "coherent cfg t ca' \<and> (\<forall>v'. v = Some v' \<longrightarrow> justified cfg gas_price t w p v')"
proof -
  obtain b ca1 where b: "get_balance w (p_sub_solver p) ca = (b, ca1)" by (cases "get_balance w (p_sub_solver p) ca")
  note bf = get_balance_fact [OF assms(1,2) b]
  show ?thesis
  proof (cases b)
    case (Inl e)
    with assms(4) b bf show ?thesis by (auto simp: validate_proposal_def validate_escrow_def)
  next
    case (Inr balance)
    show ?thesis
    proof (cases "threshold cfg gas_price \<le> balance")
      case True
      with assms(4) b Inr have "validate_simulation cfg gas_price w p ca1 = (v, ca')"
        by (simp add: validate_proposal_def validate_escrow_def)
      with True Inr bf show ?thesis by (intro validate_simulation_justified [OF _ assms(2,3)]) auto
    next
      case False
      with assms(4) b Inr bf show ?thesis
        by (auto simp: validate_proposal_def validate_escrow_def justified_def)
    qed
  qed
qed

text \<open>A missing answer yields no verdict.\<close>

lemma judge_estimate_defers:
  assumes "case w_estimate_gas w (true_simulation cfg t r p) of
              Inl e \<Rightarrow> \<not> is_revert e
            | Inr gas \<Rightarrow> i64_of_u64 gas = None \<or> p_status p = Submitted \<and> answered_price w r = Inl OrderbookTransient"
  shows "judge_estimate cfg gp w p r (trampoline_fact t p) (f_authenticator t) = None"
  using assms
  by (auto simp: judge_estimate_def true_simulation_def profitability_def answered_price_def Let_def split: sum.splits)

lemma validate_simulation_defers:
  assumes co: "coherent cfg t ca" and h: "honest t w" and cap: "0 < vc_cache_capacity cfg"
    and miss: "map_of (ca_orders ca) (p_order_uid p) = None \<and> read_reply (w_order w (p_order_uid p)) = Inl OrderbookTransient \<or>
      f_order t (p_order_uid p) = Some r \<and> read_reply (w_order w (p_order_uid p)) \<noteq> Inl OrderUnknown \<and>
        check_envelope r p = Inr () \<and> (\<forall>e. w_address_of w (p_sub_solver p) = Inl e \<longrightarrow> \<not> is_trampoline_revert e) \<and>
        judge_estimate cfg gp w p r (trampoline_fact t p) (f_authenticator t) = None"
  shows "fst (validate_simulation cfg gp w p ca) = None"
proof -
  obtain fo orders where fo: "fetch_order (vc_cache_capacity cfg) (w_order w) (p_order_uid p) (ca_orders ca) = (fo, orders)"
    by (cases "fetch_order (vc_cache_capacity cfg) (w_order w) (p_order_uid p) (ca_orders ca)")
  note fact = fetch_order_fact [OF co h cap fo]
  show ?thesis
  proof (cases fo)
    case (Inl e)
    with miss fact(3) [OF Inl] fo show ?thesis by (cases e) (auto simp: validate_simulation_def)
  next
    case (Inr r')
    with miss fo fact(2) [OF Inr] have r: "r' = r" "check_envelope r p = Inr ()"
      "\<forall>e. w_address_of w (p_sub_solver p) = Inl e \<longrightarrow> \<not> is_trampoline_revert e"
      "judge_estimate cfg gp w p r (trampoline_fact t p) (f_authenticator t) = None"
      by (auto simp: fetch_order_def)
    let ?ca1 = "ca\<lparr>ca_orders := orders\<rparr>"
    obtain tr ca2 where tr: "trampoline_for w p ?ca1 = (tr, ca2)" by (cases "trampoline_for w p ?ca1")
    note trf = trampoline_for_fact [OF fact(1) h tr]
    obtain au ca3 where au: "resolve_authenticator w ca2 = (au, ca3)" by (cases "resolve_authenticator w ca2")
    have "coherent cfg t ca2" using trf by simp
    note auf = resolve_authenticator_fact [OF this h au]
    show ?thesis using fo Inr r tr trf au auf
      by (cases tr; cases au) (auto simp: validate_simulation_def Let_def)
  qed
qed

lemma validate_proposal_defers:
  assumes co: "coherent cfg t ca" and h: "honest t w" and cap: "0 < vc_cache_capacity cfg"
    and miss: "unanswered cfg gp t ca w p"
  shows "fst (validate_proposal cfg gp w p ca) = None"
proof (cases "isl (w_effective_balance w (p_sub_solver p)) \<and> ca_balances ca (p_sub_solver p) = None")
  case True
  then show ?thesis
    by (cases "w_effective_balance w (p_sub_solver p)") (auto simp: validate_proposal_def validate_escrow_def get_balance_def)
next
  case False
  obtain b ca1 where b: "get_balance w (p_sub_solver p) ca = (b, ca1)" by (cases "get_balance w (p_sub_solver p) ca")
  note bf = get_balance_fact [OF co h b]
  have orders: "ca_orders ca1 = ca_orders ca"
    using b by (auto simp: get_balance_def split: option.splits sum.splits)
  from False miss have funded: "threshold cfg gp \<le> f_balance t (p_sub_solver p)" unfolding unanswered_def by blast
  show ?thesis
  proof (cases b)
    case (Inl e)
    with b show ?thesis by (simp add: validate_proposal_def validate_escrow_def)
  next
    case (Inr balance)
    with b bf funded have v: "validate_proposal cfg gp w p ca = validate_simulation cfg gp w p ca1"
      by (simp add: validate_proposal_def validate_escrow_def)
    from False miss obtain r where "map_of (ca_orders ca1) (p_order_uid p) = None \<and> read_reply (w_order w (p_order_uid p)) = Inl OrderbookTransient \<or>
      f_order t (p_order_uid p) = Some r \<and> read_reply (w_order w (p_order_uid p)) \<noteq> Inl OrderUnknown \<and>
        check_envelope r p = Inr () \<and> (\<forall>e. w_address_of w (p_sub_solver p) = Inl e \<longrightarrow> \<not> is_trampoline_revert e) \<and>
        judge_estimate cfg gp w p r (trampoline_fact t p) (f_authenticator t) = None"
      using judge_estimate_defers [where w = w and cfg = cfg and t = t and p = p and gp = gp] unfolding unanswered_def orders by blast
    with validate_simulation_defers [OF _ h cap] bf show ?thesis by (simp add: v)
  qed
qed

text \<open>C8. Every verdict is justified, whatever the caches hold and whichever calls fail: an \<open>Accept\<close>
  means that the escrow balance reaches the threshold, the order exists and the pair is in the
  envelope, the full settlement simulates with a gas the column can hold and, on a first simulation,
  scores above the minimum at the price answered - and it carries exactly that simulation; every
  \<open>Reject\<close> and \<open>SimFailed\<close> names a fact that holds and was answered: a balance below the threshold, an
  order the orderbook does not know, a pair outside the envelope, a score at the price answered that
  misses the minimum or a token without a price, a revert. Failures only defer: a balance, an order, an
  estimate or a price that could not be obtained (and is not cached) yields no verdict. The caches stay
  true and the order cache within its ceiling.\<close>

theorem verdicts_are_justified:
  assumes "coherent cfg t ca" and "honest t w" and "0 < vc_cache_capacity cfg"
    and "validate_proposal cfg gas_price w p ca = (v, ca')"
  shows "coherent cfg t ca' \<and> length (ca_orders ca') \<le> vc_cache_capacity cfg \<and>
    (case v of None \<Rightarrow> True | Some v' \<Rightarrow> justified cfg gas_price t w p v') \<and>
    (unanswered cfg gas_price t ca w p \<longrightarrow> v = None)"
proof -
  have "unanswered cfg gas_price t ca w p \<longrightarrow> v = None"
    using validate_proposal_defers [OF assms(1-3)] assms(4) by (metis fst_conv)
  with validate_proposal_justified [OF assms] show ?thesis
    by (auto simp: coherent_def cache_coherent_def cache_ok_def split: option.splits)
qed

subsection \<open>A concrete validation\<close>

definition sample_config :: validator_config where
  "sample_config = \<lparr>vc_settlement = 1, vc_escrow = 2, vc_min_collateral = 1000, vc_min_score = 0,
     vc_cache_capacity = CACHE_CAPACITY,
     vc_abi = \<lparr>abi_transfer = (\<lambda>_ _. []), abi_execute = (\<lambda>_. []), abi_settle = (\<lambda>_. [])\<rparr>, vc_keccak = (\<lambda>_. 0)\<rparr>"

definition no_caches :: caches where
  "no_caches = \<lparr>ca_balances = (\<lambda>_. None), ca_trampolines = (\<lambda>_. None), ca_authenticator = None, ca_orders = []\<rparr>"

text \<open>A chain on which every sub-solver has a balance of 5 wei.\<close>

definition poor_world :: world where
  "poor_world = \<lparr>w_effective_balance = (\<lambda>_. Inr 5), w_address_of = (\<lambda>_. Inr 3), w_authenticator = Inr 4,
     w_estimate_gas = (\<lambda>_. Inr 100000), w_order = (\<lambda>_. NoReply), w_price = (\<lambda>_. NoReply), w_times_1e18 = (\<lambda>_. 0)\<rparr>"

definition poor_facts :: facts where
  "poor_facts = \<lparr>f_balance = (\<lambda>_. 5), f_trampoline = (\<lambda>_. 3), f_authenticator = 4, f_order = (\<lambda>_. None)\<rparr>"

theorem verdicts_are_justified_witness:
  "justified sample_config 10 poor_facts poor_world sample_proposal (Reject InsufficientEscrow)"
proof -
  have "coherent sample_config poor_facts no_caches"
    by (simp add: coherent_def no_caches_def cache_coherent_def cache_ok_def)
  moreover have "honest poor_facts poor_world"
    by (simp add: honest_def poor_facts_def poor_world_def replies_honestly_def read_reply_def)
  moreover have "validate_proposal sample_config 10 poor_world sample_proposal no_caches
      = (Some (Reject InsufficientEscrow), no_caches\<lparr>ca_balances := (\<lambda>_. None)(p_sub_solver sample_proposal \<mapsto> 5)\<rparr>)"
    by (simp add: validate_proposal_def validate_escrow_def get_balance_def no_caches_def poor_world_def threshold_def
        sample_config_def ESCROW_GAS_ESTIMATION_def saturating_add_def saturating_mul_def u256_of_def)
  ultimately show ?thesis
    using verdicts_are_justified [of sample_config poor_facts no_caches poor_world 10 sample_proposal]
    by (simp add: sample_config_def CACHE_CAPACITY_def)
qed

end
