(* ===== verification/Store_Healthy.thy ===== *)
theory Store_Healthy
  imports Store_Reads
begin

text \<open>
  What a healthy database guarantees: with no fault pending, no operation ends in a database error and
  none is pending afterwards. Together with the rules of \<open>Store_Ops\<close> this turns "fails without effect or
  succeeds" into "succeeds".
\<close>

definition calm :: "store \<Rightarrow> bool" where
  "calm st \<longleftrightarrow> st_faults st = []"

definition healthy :: "'a action \<Rightarrow> bool" where
  "healthy m \<longleftrightarrow> (\<forall>st. calm st \<longrightarrow> calm (snd (m st)) \<and> (\<forall>x. fst (m st) \<noteq> Inl (Database x)))"

named_theorems healthy_rules "actions without database errors of their own"

lemma healthyD: "healthy m \<Longrightarrow> calm st \<Longrightarrow> m st = (r, st') \<Longrightarrow> calm st' \<and> (\<forall>x. r \<noteq> Inl (Database x))"
  by (metis fst_conv healthy_def snd_conv)

lemma calm_stmt: "calm st \<Longrightarrow> stmt f st = (case f (st_db st) of Inl e \<Rightarrow> (Inl (Database e), st) | Inr (a, d) \<Rightarrow> (Inr a, st\<lparr>st_db := d\<rparr>))"
  by (simp add: stmt_def calm_def next_fault_def Let_def split: sum.splits)

lemma healthy_stmt [healthy_rules]: "(\<And>d. \<exists>x. f d = Inr x) \<Longrightarrow> healthy (stmt f)"
proof -
  assume f: "\<And>d. \<exists>x. f d = Inr x"
  have "calm (snd (stmt f st)) \<and> (\<forall>x. fst (stmt f st) \<noteq> Inl (Database x))" if "calm st" for st
    using that f [of "st_db st"] calm_stmt [OF that, of f] by (auto simp: calm_def)
  then show ?thesis by (simp add: healthy_def)
qed

lemma healthy_act [healthy_rules]: "healthy m \<Longrightarrow> (\<And>a. healthy (k a)) \<Longrightarrow> healthy (act m k)"
  by (auto simp: healthy_def act_def split: prod.splits sum.splits)

lemma healthy_lift [healthy_rules]: "(\<And>x. r \<noteq> Inl (Database x)) \<Longrightarrow> healthy (lift r)"
  by (simp add: healthy_def lift_def)

lemma healthy_done [healthy_rules]: "healthy (done_with a)"
  by (simp add: healthy_def done_with_def lift_def)

lemma healthy_fail [healthy_rules]: "(\<And>x. e \<noteq> Database x) \<Longrightarrow> healthy (fail e)"
  by (simp add: healthy_def fail_def lift_def)

lemma healthy_emit [healthy_rules]: "healthy (emit t k)"
  by (simp add: healthy_def emit_def calm_def)

lemma healthy_emit_all [healthy_rules]: "healthy (emit_all t ks)"
  by (induction ks) (auto intro!: healthy_rules)

lemma healthy_if [healthy_rules]: "healthy m \<Longrightarrow> healthy n \<Longrightarrow> healthy (if b then m else n)"
  by simp

lemma healthy_in_tx [healthy_rules]: "healthy body \<Longrightarrow> healthy (in_tx body)"
proof -
  assume b: "healthy body"
  have "calm (snd (in_tx body st)) \<and> (\<forall>x. fst (in_tx body st) \<noteq> Inl (Database x))" if c: "calm st" for st
  proof -
    have s: "stmt (\<lambda>d. Inr ((), d)) st = (Inr (), st)" "calm st"
      using c by (cases st; simp add: calm_stmt)+
    obtain r st2 where r: "body st = (r, st2)" by (cases "body st")
    note h = healthyD [OF b s(2) r]
    then have "calm (st2\<lparr>st_db := st_db st\<rparr>)" by (simp add: calm_def)
    note commit = calm_stmt [OF this]
    from h show ?thesis
      by (cases r) (auto simp: in_tx_def s(1) r commit calm_def split: tx_end.splits)
  qed
  then show ?thesis by (simp add: healthy_def)
qed

lemma as_db_id_no_db [simp]: "as_db_id pid \<noteq> Inl (Database x)"
  by (simp add: as_db_id_def ok_or_def split: option.splits)

lemma corrupt_no_db [simp]: "corrupt col \<noteq> Database x" "corrupt_in t col \<noteq> Database x"
  by (simp_all add: corrupt_def corrupt_in_def)

lemma healthy_stale_or_missing [healthy_rules]: "healthy (stale_or_missing pid expected)"
  unfolding stale_or_missing_def by (intro healthy_rules) (auto intro!: healthy_rules split: option.splits)

lemma healthy_transition: "healthy (transition clk p to)"
  unfolding transition_def Let_def by (intro healthy_rules) auto

lemma healthy_record_penalty: "healthy (record_penalty c clk p amount tx)"
  unfolding record_penalty_def Let_def by (intro healthy_rules) auto

lemma healthy_query [healthy_rules]: "healthy (query c P)"
  unfolding query_def by (intro healthy_rules) auto

lemma healthy_snapshot: "healthy (snapshot_by_statuses c sts)"
  unfolding snapshot_by_statuses_def by (rule healthy_query)

lemma and_then_no_db: "m \<noteq> Inl (Database x) \<Longrightarrow> (\<And>a. k a \<noteq> Inl (Database x)) \<Longrightarrow> and_then m k \<noteq> Inl (Database x)"
  by (cases m) auto

lemma parse_no_db [simp]: "parse_column col v \<noteq> Inl (Database x)" "parse_uid_column c s \<noteq> Inl (Database x)"
  by (auto simp: parse_column_def parse_uid_column_def ok_or_def split: option.splits sum.splits)

lemma released_keys_no_db: "released_keys c r \<noteq> Inl (Database x)"
  unfolding released_keys_def by (intro and_then_no_db) auto

lemma collect_no_db: "(\<And>m. m \<in> set ms \<Longrightarrow> m \<noteq> Inl (Database x)) \<Longrightarrow> collect ms \<noteq> Inl (Database x)"
  by (induction ms rule: collect.induct) (auto split: sum.splits)

lemma healthy_release: "healthy (release_stale_executing c clk t)"
  unfolding release_stale_executing_def release_body_def
  by (intro healthy_rules collect_no_db) (auto simp: released_keys_no_db)

lemma healthy_pending: "healthy (pending_penalties c)"
proof -
  have "penalty_of_row c q \<noteq> Inl (Database x)" for q x
    unfolding penalty_of_row_def by (intro and_then_no_db) (auto simp: ok_or_def split: option.splits sum.splits)
  then show ?thesis unfolding pending_penalties_def by (intro healthy_rules collect_no_db) auto
qed

lemma healthy_debit: "healthy (record_non_settlement_debit c clk pp amount tx)"
  unfolding record_non_settlement_debit_def by (intro healthy_rules) auto

subsection \<open>Success\<close>

lemma calm_snapshot:
  assumes gd: "good c st" and "calm st"
  obtains ps st' where "snapshot_by_statuses c sts st = (Inr ps, st')" "good c st'" "calm st'" "same_state st st'"
    "stored_where c st (\<lambda>q. p_status q \<in> set sts) ps"
proof -
  obtain r st' where run: "snapshot_by_statuses c sts st = (r, st')" by (cases "snapshot_by_statuses c sts st")
  from wpD [OF wp_snapshot_by_statuses [OF gd] run] healthyD [OF healthy_snapshot assms(2) run] that run
  show ?thesis by (cases r) (auto simp: read_result_def)
qed

lemma calm_transition:
  assumes gd: "good c st" and c: "codec_ok c" and "calm st" and b: "book c st (p_id p) = Some p"
    and run: "transition clk p to st = (r, st')"
  shows "r = Inr () \<and> calm st' \<and> good c st' \<and> book c st' = (book c st)(p_id p \<mapsto> with_status to p)"
proof (cases r)
  case (Inl e)
  with wpD [OF wp_transition [OF gd c] run] have "cas_error c st p e" by simp
  with b healthyD [OF healthy_transition assms(3) run] Inl show ?thesis by (simp add: cas_error_def)
next
  case (Inr u)
  note spec = wpD [OF wp_transition [OF gd c] run]
  then have g: "good c st'" by simp
  from spec Inr obtain q evs where q: "p_id q = p_id p" "moved c st st' q (with_status to q) evs" by auto
  have "book c st (p_id q) = Some q" "book c st' = (book c st)(p_id q \<mapsto> with_status to q)"
    using q(2) by (simp_all add: moved_def)
  moreover from this(1) have "q = p" using b unfolding q(1) by simp
  ultimately have "book c st' = (book c st)(p_id p \<mapsto> with_status to p)" by simp
  with g Inr healthyD [OF healthy_transition assms(3) run] show ?thesis by simp
qed

end
