(* ===== verification/Validation.thy ===== *)
theory Validation
  imports Validator_Properties Api Store_Healthy "HOL-Library.Multiset"
begin

text \<open>
  The background validation loop (\<open>infra/validation.rs\<close>): one tick releases the timed-out \<open>Executing\<close>
  proposals, expires the live ones past their deadline and asks the validator about the rest. The
  validator is behind the interface \<open>tick_validator\<close>, provided by the production validator and by
  \<open>AcceptAll\<close>. Up to eight validations are in flight and each verdict is written as soon as it is
  there: \<open>schedule\<close> is the order in which they finish, any permutation of the work.
\<close>

subsection \<open>The tick\<close>

fun expire_all :: "clock \<Rightarrow> u256 \<Rightarrow> proposal list \<Rightarrow> store \<Rightarrow> proposal list \<times> store" where
  "expire_all clk now [] st = ([], st)"
| "expire_all clk now (p # ps) st =
     (if p_valid_until p < now then (case transition clk p Expired st of (_, st') \<Rightarrow> expire_all clk now ps st')
      else (case expire_all clk now ps st of (to_validate, st') \<Rightarrow> (p # to_validate, st')))"

fun judge_all ::
  "(proposal \<Rightarrow> 's \<Rightarrow> verdict option \<times> 's) \<Rightarrow> codec \<Rightarrow> clock \<Rightarrow> proposal list \<Rightarrow> 's \<Rightarrow> store \<Rightarrow> 's \<times> store" where
  "judge_all validate c clk [] s st = (s, st)"
| "judge_all validate c clk (p # ps) s st =
     (case validate p s of
        (None, s') \<Rightarrow> judge_all validate c clk ps s' st
      | (Some v, s') \<Rightarrow>
          (case resolve_verdict c clk (p_id p) v st of (_, st') \<Rightarrow> judge_all validate c clk ps s' st'))"

definition run_tick ::
  "(proposal \<Rightarrow> 's \<Rightarrow> verdict option \<times> 's) \<Rightarrow> ('s \<Rightarrow> 's) \<Rightarrow> (proposal list \<Rightarrow> proposal list) \<Rightarrow> codec \<Rightarrow> clock
    \<Rightarrow> u64 \<Rightarrow> time \<Rightarrow> 's \<Rightarrow> store \<Rightarrow> 's \<times> store" where
  "run_tick validate begin_tick schedule c clk now executing_timeout s st =
     (let s' = begin_tick s in
      case release_stale_executing c clk executing_timeout st of (_, st1) \<Rightarrow>
     (case snapshot_by_statuses c [Submitted, Active] st1 of
        (Inl e, st2) \<Rightarrow> (s', st2)
      | (Inr live, st2) \<Rightarrow>
          (case expire_all clk (u256_of now) live st2 of (to_validate, st3) \<Rightarrow>
             judge_all validate c clk (schedule to_validate) s' st3)))"

text \<open>The loop of \<open>spawn\<close>: one tick per reading of the clock; it panics on a clock before the epoch.\<close>

fun run_loop ::
  "(proposal \<Rightarrow> 's \<Rightarrow> verdict option \<times> 's) \<Rightarrow> ('s \<Rightarrow> 's) \<Rightarrow> (proposal list \<Rightarrow> proposal list) \<Rightarrow> codec \<Rightarrow> clock list
    \<Rightarrow> time \<Rightarrow> 's \<Rightarrow> store \<Rightarrow> ('s \<times> store) option" where
  "run_loop validate begin_tick schedule c [] executing_timeout s st = Some (s, st)"
| "run_loop validate begin_tick schedule c (clk # clks) executing_timeout s st =
     (case unix_secs (wall_now clk) of
        None \<Rightarrow> None
      | Some now \<Rightarrow>
          (case run_tick validate begin_tick schedule c clk now executing_timeout s st of (s', st') \<Rightarrow>
             run_loop validate begin_tick schedule c clks executing_timeout s' st'))"

subsection \<open>Loops that move each proposal at most once\<close>

text \<open>From \<open>st\<close> to \<open>st'\<close> the proposals of \<open>ps\<close> may have become what \<open>R\<close> allows; the others have not changed.\<close>

definition changes :: "codec \<Rightarrow> proposal list \<Rightarrow> (proposal \<Rightarrow> proposal \<Rightarrow> bool) \<Rightarrow> store \<Rightarrow> store \<Rightarrow> bool" where
  "changes c ps R st st' \<longleftrightarrow> good c st' \<and>
     (\<forall>pid. book c st' pid = book c st pid \<or>
        (\<exists>p q. p \<in> set ps \<and> p_id p = pid \<and> R p q \<and> book c st' pid = Some q))"

definition in_book :: "codec \<Rightarrow> store \<Rightarrow> proposal list \<Rightarrow> bool" where
  "in_book c st ps \<longleftrightarrow> good c st \<and> distinct (map p_id ps) \<and> (\<forall>p\<in>set ps. book c st (p_id p) = Some p)"

lemma changes_refl: "good c st \<Longrightarrow> changes c ps R st st"
  by (simp add: changes_def)

lemma in_bookD:
  assumes "in_book c st ps"
  shows "good c st" "distinct (map p_id ps)" "p \<in> set ps \<Longrightarrow> book c st (p_id p) = Some p"
  using assms by (simp_all add: in_book_def)

lemma changes_other: "changes c ps R st st' \<Longrightarrow> pid \<notin> p_id ` set ps \<Longrightarrow> book c st' pid = book c st pid"
  unfolding changes_def by blast

lemma in_book_Cons:
  assumes "in_book c st (p # ps)" and "changes c [p] R st st1"
  shows "in_book c st1 ps"
proof -
  note b = in_bookD [OF assms(1)]
  have "book c st1 (p_id q) = Some q" if q: "q \<in> set ps" for q
  proof -
    have "p_id q \<in> p_id ` set ps" "p_id p \<notin> p_id ` set ps" using b(2) q by simp_all
    then have "p_id q \<notin> p_id ` set [p]" by auto
    with b(3) q changes_other [OF assms(2)] show ?thesis by simp
  qed
  with b assms(2) show ?thesis by (simp add: in_book_def changes_def)
qed

lemma changes_Cons:
  assumes "in_book c st (p # ps)" and "changes c [p] R st st1" and "changes c ps R st1 st2"
  shows "changes c (p # ps) R st st2"
  unfolding changes_def
proof (intro conjI allI)
  show "good c st2" using assms(3) by (simp add: changes_def)
next
  fix pid
  have "book c st2 pid = book c st1 pid \<or> (\<exists>p q. p \<in> set ps \<and> p_id p = pid \<and> R p q \<and> book c st2 pid = Some q)"
    "book c st1 pid = book c st pid \<or> (p_id p = pid \<and> (\<exists>q. R p q \<and> book c st1 pid = Some q))"
    using assms(2,3) by (auto simp: changes_def)
  then show "book c st2 pid = book c st pid \<or>
      (\<exists>p' q. p' \<in> set (p # ps) \<and> p_id p' = pid \<and> R p' q \<and> book c st2 pid = Some q)"
    by (metis list.set_intros)
qed

lemma changes_skip: "changes c ps R st st' \<Longrightarrow> changes c (p # ps) R st st'"
  by (fastforce simp: changes_def)

lemma moved_changes:
  assumes "in_book c st (p # ps)" and "good c st'" and m: "moved c st st' q (f q) evs" and id: "p_id q = p_id p"
    and "R p (f p)"
  shows "changes c [p] R st st'"
proof -
  have "book c st (p_id q) = Some q" "book c st' = (book c st)(p_id q \<mapsto> f q)" using m by (simp_all add: moved_def)
  moreover have "q = p" using calculation(1) id assms(1) by (simp add: in_book_def)
  ultimately show ?thesis using assms(2,5) by (simp add: changes_def)
qed

lemma same_changes: "good c st' \<Longrightarrow> same_state st st' \<Longrightarrow> changes c ps R st st'"
  by (simp add: changes_def same_state_def book_def)

lemma expire_one:
  assumes "in_book c st (p # ps)" and c: "codec_ok c" and run: "transition clk p Expired st = (r, st')"
  shows "changes c [p] (\<lambda>p q. q = with_status Expired p) st st'"
proof -
  have gd: "good c st" using assms(1) by (simp add: in_book_def)
  note spec = wpD [OF wp_transition [OF gd c] run]
  show ?thesis
  proof (cases r)
    case (Inl e)
    with spec show ?thesis by (auto intro: same_changes)
  next
    case (Inr u)
    with spec obtain q evs where "p_id q = p_id p" "moved c st st' q (with_status Expired q) evs" by auto
    with spec show ?thesis by (auto intro: moved_changes [OF assms(1)])
  qed
qed

lemma expire_all_changes:
  assumes "in_book c st ps" and c: "codec_ok c" and "expire_all clk now ps st = (keep, st')"
  shows "keep = filter (\<lambda>p. \<not> p_valid_until p < now) ps \<and> in_book c st' keep \<and>
    changes c (filter (\<lambda>p. p_valid_until p < now) ps) (\<lambda>p q. q = with_status Expired p) st st'"
  using assms(1,3)
proof (induction ps arbitrary: st keep)
  case Nil
  then show ?case by (simp add: in_book_def changes_refl)
next
  case (Cons p ps)
  show ?case
  proof (cases "p_valid_until p < now")
    case True
    obtain r st1 where t: "transition clk p Expired st = (r, st1)" by (cases "transition clk p Expired st")
    note one = expire_one [OF Cons.prems(1) c t]
    note IH = Cons.IH [OF in_book_Cons [OF Cons.prems(1) one], of keep]
    have "in_book c st (p # filter (\<lambda>p. p_valid_until p < now) ps)"
      using Cons.prems(1) by (auto simp: in_book_def distinct_map_filter)
    note tail = changes_Cons [OF this one]
    have "expire_all clk now ps st1 = (keep, st')" using Cons.prems(2) True t by simp
    with IH have "keep = filter (\<lambda>p. \<not> p_valid_until p < now) ps" "in_book c st' keep"
      "changes c (filter (\<lambda>p. p_valid_until p < now) ps) (\<lambda>p q. q = with_status Expired p) st1 st'" by blast+
    with tail True show ?thesis by simp
  next
    case False
    obtain keep' where k: "expire_all clk now ps st = (keep', st')" "keep = p # keep'"
      using Cons.prems(2) False by (auto split: prod.splits)
    have "in_book c st ps" using Cons.prems(1) by (simp add: in_book_def)
    note IH = Cons.IH [OF this k(1)]
    have "book c st (p_id p) = Some p" "p_id p \<notin> p_id ` set (filter (\<lambda>p. p_valid_until p < now) ps)"
      using in_bookD [OF Cons.prems(1)] by auto
    then have "book c st' (p_id p) = Some p"
      using changes_other [OF IH [THEN conjunct2, THEN conjunct2]] by simp
    with IH k(2) False Cons.prems(1) show ?thesis by (auto simp: in_book_def)
  qed
qed

subsection \<open>The interface to the validator\<close>

text \<open>What a stored proposal becomes under a verdict, and what a tick makes of the stored proposals:
  the live ones past \<open>now\<close> may have expired, the other live ones may have been judged. In the interface, \<open>ready\<close> holds between ticks, \<open>ok\<close> from the start of a tick to its end; \<open>just p v\<close> is what a verdict
  \<open>v\<close> on \<open>p\<close> promises.\<close>

definition judged :: "(proposal \<Rightarrow> verdict \<Rightarrow> bool) \<Rightarrow> proposal \<Rightarrow> proposal \<Rightarrow> bool" where
  "judged just p q \<longleftrightarrow>
     (\<exists>v. just p v \<and> (case verdict_parts v of (to, reason, sim) \<Rightarrow> q = with_verdict to reason sim p))"

definition ticked ::
  "(proposal \<Rightarrow> verdict \<Rightarrow> bool) \<Rightarrow> u256 \<Rightarrow> (proposal_id \<Rightarrow> proposal option) \<Rightarrow> (proposal_id \<Rightarrow> proposal option) \<Rightarrow> bool" where
  "ticked just now b b' \<longleftrightarrow>
     (\<forall>pid. b' pid = b pid \<or> (\<exists>p q. b pid = Some p \<and> b' pid = Some q \<and> p_status p \<in> {Submitted, Active} \<and>
        (if p_valid_until p < now then q = with_status Expired p else judged just p q)))"

lemma ticked_refl [simp]: "ticked just now b b"
  by (simp add: ticked_def)

locale tick_validator =
  fixes validate :: "proposal \<Rightarrow> 's \<Rightarrow> verdict option \<times> 's" and begin_tick :: "'s \<Rightarrow> 's"
    and ready :: "'s \<Rightarrow> bool" and ok :: "'s \<Rightarrow> bool" and just :: "proposal \<Rightarrow> verdict \<Rightarrow> bool"
  assumes begin_ok: "ready s \<Longrightarrow> ok (begin_tick s)"
    and validate_ok: "ok s \<Longrightarrow> validate p s = (v, s') \<Longrightarrow> ok s'"
    and validate_just: "ok s \<Longrightarrow> validate p s = (Some v', s') \<Longrightarrow> just p v'"
begin

lemma judge_one:
  assumes "in_book c st (p # ps)" and c: "codec_ok c" and j: "just p v"
    and run: "resolve_verdict c clk (p_id p) v st = (r, st')"
  shows "changes c [p] (judged just) st st'"
proof -
  have gd: "good c st" using assms(1) by (simp add: in_book_def)
  obtain to reason sim where v: "verdict_parts v = (to, reason, sim)" by (cases "verdict_parts v")
  note spec = wpD [OF wp_resolve_verdict [OF gd c v] run]
  show ?thesis
  proof (cases r)
    case (Inl e)
    with spec show ?thesis by (auto intro: same_changes)
  next
    case (Inr s)
    with spec obtain q evs where "p_id q = p_id p" "moved c st st' q (with_verdict to reason sim q) evs" by auto
    moreover have "judged just p (with_verdict to reason sim p)" using j v by (auto simp: judged_def)
    ultimately show ?thesis using spec by (auto intro: moved_changes [OF assms(1)])
  qed
qed

lemma judge_all_changes:
  assumes "in_book c st ps" and c: "codec_ok c" and "ok s" and "judge_all validate c clk ps s st = (s', st')"
  shows "ok s' \<and> changes c ps (judged just) st st'"
  using assms(1,3,4)
proof (induction ps arbitrary: s st)
  case Nil
  then show ?case by (simp add: in_book_def changes_refl)
next
  case (Cons p ps)
  obtain v s1 where v: "validate p s = (v, s1)" by (cases "validate p s")
  note ok = validate_ok [OF Cons.prems(2) v]
  show ?case
  proof (cases v)
    case None
    have "in_book c st ps" using Cons.prems(1) by (simp add: in_book_def)
    with Cons.IH [OF this ok] Cons.prems(3) None v show ?thesis by (simp add: changes_skip)
  next
    case (Some v')
    obtain r st1 where r: "resolve_verdict c clk (p_id p) v' st = (r, st1)" by (cases "resolve_verdict c clk (p_id p) v' st")
    have "just p v'" using validate_just [OF Cons.prems(2)] v Some by simp
    note one = judge_one [OF Cons.prems(1) c this r]
    from Cons.IH [OF in_book_Cons [OF Cons.prems(1) one] ok] changes_Cons [OF Cons.prems(1) one] Cons.prems(3) v Some r
    show ?thesis by simp
  qed
qed

lemma tick_result:
  assumes gd: "good c st" and c: "codec_ok c" and rd: "ready s" and perm: "\<And>ps. mset (schedule ps) = mset ps"
    and run: "run_tick validate begin_tick schedule c clk now timeout s st = (s', st')"
  shows "ok s' \<and> good c st' \<and> (ticked just (u256_of now) (book c st) (book c st') \<or>
    ticked just (u256_of now) (released_book c clk timeout st) (book c st'))"
proof -
  obtain r1 st1 where r1: "release_stale_executing c clk timeout st = (r1, st1)" by (cases "release_stale_executing c clk timeout st")
  from wpD [OF wp_release_stale_executing [OF gd c] r1] have g1: "good c st1"
    and b1: "book c st1 = book c st \<or> book c st1 = released_book c clk timeout st"
    by (auto simp: same_state_def book_def split: sum.splits)
  obtain r2 st2 where r2: "snapshot_by_statuses c [Submitted, Active] st1 = (r2, st2)"
    by (cases "snapshot_by_statuses c [Submitted, Active] st1")
  from wpD [OF wp_snapshot_by_statuses [OF g1] r2] have g2: "good c st2" and b2: "book c st2 = book c st1"
    and live: "\<And>ps. r2 = Inr ps \<Longrightarrow> stored_where c st1 (\<lambda>q. p_status q \<in> {Submitted, Active}) ps"
    by (auto simp: read_result_def same_state_def book_def split: sum.splits)
  note ok = begin_ok [OF rd]
  show ?thesis
  proof (cases r2)
    case (Inl e)
    with run r1 r2 ok g2 b1 b2 show ?thesis by (auto simp: run_tick_def)
  next
    case (Inr ps)
    have st_ps: "set ps = {q. book c st1 (p_id q) = Some q \<and> p_status q \<in> {Submitted, Active}}" "distinct (map p_id ps)"
      using live [OF Inr] by (simp_all add: stored_where_def)
    have ib: "in_book c st2 ps" using g2 st_ps b2 by (simp add: in_book_def)
    obtain keep st3 where k: "expire_all clk (u256_of now) ps st2 = (keep, st3)" by (cases "expire_all clk (u256_of now) ps st2")
    note ex = expire_all_changes [OF ib c k]
    have sk: "mset (schedule keep) = mset keep" by (rule perm)
    then have "mset (map p_id (schedule keep)) = mset (map p_id keep)" by simp
    then have "distinct (map p_id (schedule keep))" using ex by (metis in_book_def mset_eq_imp_distinct_iff)
    then have "in_book c st3 (schedule keep)" using ex mset_eq_setD [OF sk] by (simp add: in_book_def)
    with run r1 r2 Inr k have ju: "ok s' \<and> changes c (schedule keep) (judged just) st3 st'"
      by (intro judge_all_changes [OF _ c ok]) (auto simp: run_tick_def)
    have "ticked just (u256_of now) (book c st1) (book c st')"
      unfolding ticked_def
    proof
      fix pid
      have s: "set (schedule keep) = {p \<in> set ps. \<not> p_valid_until p < u256_of now}"
        using mset_eq_setD [OF sk] ex by auto
      have A: "book c st' pid = book c st3 pid \<or> (\<exists>p q. p \<in> set ps \<and> \<not> p_valid_until p < u256_of now \<and>
          p_id p = pid \<and> judged just p q \<and> book c st' pid = Some q)"
        using ju s unfolding changes_def by blast
      have B: "book c st3 pid = book c st1 pid \<or> (\<exists>p. p \<in> set ps \<and> p_valid_until p < u256_of now \<and>
          p_id p = pid \<and> book c st3 pid = Some (with_status Expired p))"
        using ex b2 unfolding changes_def by auto
      have P: "p \<in> set ps \<longleftrightarrow> book c st1 (p_id p) = Some p \<and> p_status p \<in> {Submitted, Active}" for p
        using st_ps(1) by blast
      show "book c st' pid = book c st1 pid \<or> (\<exists>p q. book c st1 pid = Some p \<and> book c st' pid = Some q \<and>
          p_status p \<in> {Submitted, Active} \<and>
          (if p_valid_until p < u256_of now then q = with_status Expired p else judged just p q))"
      proof (cases "book c st' pid = book c st3 pid")
        case True
        with B P show ?thesis by (metis (full_types))
      next
        case False
        with A P show ?thesis by (metis (full_types))
      qed
    qed
    with ju b1 show ?thesis by (simp add: changes_def) metis
  qed
qed

end

subsection \<open>The providers\<close>

text \<open>The production validator with its caches and the answers its calls meet, one gas price and world per
  validation.\<close>

type_synonym answers = "nat \<Rightarrow> u64 \<times> world"

fun production_validate ::
  "validator_config \<Rightarrow> proposal \<Rightarrow> caches \<times> answers \<Rightarrow> verdict option \<times> caches \<times> answers" where
  "production_validate cfg p (ca, ws) =
     (case validate_proposal cfg (fst (ws 0)) (snd (ws 0)) p ca of (v, ca') \<Rightarrow> (v, ca', \<lambda>i. ws (Suc i)))"

fun production_begin :: "caches \<times> answers \<Rightarrow> caches \<times> answers" where
  "production_begin (ca, ws) = (clear_cache ca, ws)"

text \<open>\<open>W\<close>: what the validator meets, all of it honest. Before a tick the balances may be out of date, once
  they are cleared the caches hold facts. A verdict is justified by an answer that was met.\<close>

definition honest_answers :: "facts \<Rightarrow> (u64 \<times> world) set \<Rightarrow> answers \<Rightarrow> bool" where
  "honest_answers t W ws \<longleftrightarrow> range ws \<subseteq> W \<and> (\<forall>x\<in>W. honest t (snd x))"

lemma honest_answersD: "honest_answers t W ws \<Longrightarrow> ws i \<in> W \<and> honest t (snd (ws i)) \<and> honest_answers t W (\<lambda>i. ws (Suc i))"
  by (auto simp: honest_answers_def)

definition production_ready :: "validator_config \<Rightarrow> facts \<Rightarrow> (u64 \<times> world) set \<Rightarrow> caches \<times> answers \<Rightarrow> bool" where
  "production_ready cfg t W s \<longleftrightarrow> coherent cfg t (clear_cache (fst s)) \<and> 0 < vc_cache_capacity cfg \<and> honest_answers t W (snd s)"

definition production_ok :: "validator_config \<Rightarrow> facts \<Rightarrow> (u64 \<times> world) set \<Rightarrow> caches \<times> answers \<Rightarrow> bool" where
  "production_ok cfg t W s \<longleftrightarrow> coherent cfg t (fst s) \<and> 0 < vc_cache_capacity cfg \<and> honest_answers t W (snd s)"

definition production_just :: "validator_config \<Rightarrow> facts \<Rightarrow> (u64 \<times> world) set \<Rightarrow> proposal \<Rightarrow> verdict \<Rightarrow> bool" where
  "production_just cfg t W p v \<longleftrightarrow> (\<exists>(gas_price, w)\<in>W. justified cfg gas_price t w p v)"

lemma production_step:
  assumes "production_ok cfg t W s" and "production_validate cfg p s = (v, s')"
  shows "production_ok cfg t W s' \<and> (\<forall>v'. v = Some v' \<longrightarrow> production_just cfg t W p v')"
proof -
  obtain ca ws ca' where s: "s = (ca, ws)" and ca': "validate_proposal cfg (fst (ws 0)) (snd (ws 0)) p ca = (v, ca')"
      and s': "s' = (ca', \<lambda>i. ws (Suc i))"
    using assms(2) by (cases s) (auto split: prod.splits)
  have h: "honest_answers t W ws" and co: "coherent cfg t ca" "0 < vc_cache_capacity cfg"
    using assms(1) by (simp_all add: production_ok_def s)
  note a = honest_answersD [OF h, of 0]
  from validate_proposal_justified [OF co(1) a [THEN conjunct2, THEN conjunct1] co(2) ca'] a co(2) show ?thesis
    by (auto simp: production_ok_def production_just_def s s' intro: bexI [of _ "ws 0"])
qed

interpretation production: tick_validator "production_validate cfg" production_begin
    "production_ready cfg t W" "production_ok cfg t W" "production_just cfg t W" for cfg t W
proof (unfold_locales, goal_cases)
  case (1 s)
  then show ?case by (cases s) (simp add: production_ready_def production_ok_def)
qed (use production_step in blast)+

interpretation accept_all: tick_validator accept_all "\<lambda>s. s" "\<lambda>_. True" "\<lambda>_. True" "\<lambda>_ v. v = Accept None"
  by unfold_locales (simp_all add: accept_all_def)

interpretation unconstrained: tick_validator validate begin_tick "\<lambda>_. True" "\<lambda>_. True" "\<lambda>_ _. True" for validate begin_tick
  by unfold_locales simp_all

subsection \<open>Ticks of the production validator\<close>

text \<open>C20. A tick moves only what it may move. Whichever statements fail, whichever calls to the node and
  the orderbook fail, and in whatever order the concurrent validations finish: first the \<open>Executing\<close>
  proposals that have timed out go back to \<open>Active\<close>, all of them or none; after that a proposal is either
  unchanged or was live, and then either its deadline has passed and it is \<open>Expired\<close>, unvalidated, or
  it carries exactly the verdict of the validator, which the facts justify together with one of the
  answers \<open>W\<close> that the node and the orderbook gave it - never a call that failed, which leaves the
  proposal alone. So a proposal that is neither live nor \<open>Executing\<close> is left as it is.\<close>

theorem tick_moves_justified:
  assumes "good c st" and "codec_ok c" and "production_ready cfg t W s" and "\<forall>ps. mset (schedule ps) = mset ps"
    and "run_tick (production_validate cfg) production_begin schedule c clk now timeout s st = (s', st')"
  shows "good c st' \<and> production_ok cfg t W s' \<and>
    (\<exists>b. (b = book c st \<or> b = released_book c clk timeout st) \<and>
       (\<forall>pid. book c st' pid = b pid \<or>
          (\<exists>p q. b pid = Some p \<and> book c st' pid = Some q \<and> p_status p \<in> {Submitted, Active} \<and>
             (if p_valid_until p < u256_of now then q = with_status Expired p
              else judged (production_just cfg t W) p q)))) \<and>
    (\<forall>pid. (case book c st pid of None \<Rightarrow> True | Some p \<Rightarrow> p_status p \<notin> {Submitted, Active, Executing}) \<longrightarrow>
       book c st' pid = book c st pid)"
proof -
  from production.tick_result [OF assms(1-3) _ assms(5)] assms(4) obtain b where
    g: "good c st'" "production_ok cfg t W s'" and b: "b = book c st \<or> b = released_book c clk timeout st"
    and moves: "\<forall>pid. book c st' pid = b pid \<or>
          (\<exists>p q. b pid = Some p \<and> book c st' pid = Some q \<and> p_status p \<in> {Submitted, Active} \<and>
             (if p_valid_until p < u256_of now then q = with_status Expired p
              else judged (production_just cfg t W) p q))"
    unfolding ticked_def by blast
  have "book c st' pid = book c st pid"
    if "case book c st pid of None \<Rightarrow> True | Some p \<Rightarrow> p_status p \<notin> {Submitted, Active, Executing}" for pid
  proof -
    have "b pid = book c st pid" using that b by (auto simp: released_book_def overdue_def split: option.splits)
    then show ?thesis using that moves [rule_format, of pid] by (auto split: option.splits)
  qed
  with g b moves show ?thesis by blast
qed

lemma expire_all_calm:
  assumes "in_book c st ps" and c: "codec_ok c" and "calm st" and "expire_all clk now ps st = (keep, st')"
  shows "calm st' \<and> (\<forall>p\<in>set ps. p_valid_until p < now \<longrightarrow> book c st' (p_id p) = Some (with_status Expired p))"
  using assms(1,3,4)
proof (induction ps arbitrary: st keep)
  case (Cons p ps)
  note b = in_bookD [OF Cons.prems(1)]
  show ?case
  proof (cases "p_valid_until p < now")
    case True
    obtain r st1 where t: "transition clk p Expired st = (r, st1)" by (cases "transition clk p Expired st")
    have "book c st (p_id p) = Some p" using b by simp
    note one = calm_transition [OF b(1) c Cons.prems(2) this t]
    have ib: "in_book c st1 ps" by (rule in_book_Cons [OF Cons.prems(1) expire_one [OF Cons.prems(1) c t]])
    have run: "expire_all clk now ps st1 = (keep, st')" using Cons.prems(3) True t by simp
    note IH = Cons.IH [OF ib _ run]
    have "p_id p \<notin> p_id ` set (filter (\<lambda>p. p_valid_until p < now) ps)" using b(2) by auto
    from changes_other [OF expire_all_changes [OF ib c run, THEN conjunct2, THEN conjunct2] this] one IH
    show ?thesis by simp
  next
    case False
    obtain keep' where k: "expire_all clk now ps st = (keep', st')"
      using Cons.prems(3) False by (auto split: prod.splits)
    have "in_book c st ps" using Cons.prems(1) by (simp add: in_book_def)
    from Cons.IH [OF this Cons.prems(2) k] False show ?thesis by simp
  qed
qed simp

lemma live_not_overdue:
  assumes gd: "good c st" and c: "codec_ok c" and "st_faults st = []" and perm: "\<forall>ps. mset (schedule ps) = mset ps"
    and run: "run_tick validate begin_tick schedule c clk now timeout s st = (s', st')"
    and q: "book c st' pid = Some q" "p_status q \<in> {Submitted, Active}"
  shows "u256_of now \<le> p_valid_until q"
proof (rule ccontr)
  assume "\<not> u256_of now \<le> p_valid_until q"
  then have late: "p_valid_until q < u256_of now" by simp
  obtain r1 st1 where r1: "release_stale_executing c clk timeout st = (r1, st1)" by (cases "release_stale_executing c clk timeout st")
  have g1: "good c st1" using wpD [OF wp_release_stale_executing [OF gd c] r1] by simp
  have "calm st1" using healthyD [OF healthy_release _ r1] assms(3) by (simp add: calm_def)
  then obtain ps st2 where r2: "snapshot_by_statuses c [Submitted, Active] st1 = (Inr ps, st2)" and g2: "good c st2" "calm st2"
      and same: "same_state st1 st2" and live: "stored_where c st1 (\<lambda>q. p_status q \<in> set [Submitted, Active]) ps"
    by (rule calm_snapshot [OF g1])
  have b2: "book c st2 = book c st1" using same by (simp add: same_state_def book_def)
  have st_ps: "p \<in> set ps \<longleftrightarrow> book c st2 (p_id p) = Some p \<and> p_status p \<in> {Submitted, Active}" for p
    using live b2 by (auto simp: stored_where_def)
  have ib: "in_book c st2 ps" using g2 st_ps live by (simp add: in_book_def stored_where_def)
  obtain keep st3 where k: "expire_all clk (u256_of now) ps st2 = (keep, st3)" by (cases "expire_all clk (u256_of now) ps st2")
  note ex = expire_all_changes [OF ib c k] and exc = expire_all_calm [OF ib c g2(2) k]
  have sk: "mset (schedule keep) = mset keep" using perm by simp
  then have "mset (map p_id (schedule keep)) = mset (map p_id keep)" by simp
  then have "distinct (map p_id (schedule keep))" using ex by (metis in_book_def mset_eq_imp_distinct_iff)
  then have ibk: "in_book c st3 (schedule keep)" using ex mset_eq_setD [OF sk] by (simp add: in_book_def)
  have "judge_all validate c clk (schedule keep) (begin_tick s) st3 = (s', st')"
    using run r1 r2 k by (simp add: run_tick_def)
  note ju = unconstrained.judge_all_changes [OF ibk c TrueI this]
  have "book c st3 pid \<noteq> Some q"
  proof
    assume a: "book c st3 pid = Some q"
    have id: "p_id q = pid" using book_id [OF gd] book_id [OF _ a] ex in_bookD(1) by blast
    show False
    proof (cases "q \<in> set ps")
      case True
        have "p_status (with_status Expired q) = Expired" by (simp add: with_status_def)
        moreover have "q = with_status Expired q" using exc late a id True by auto
        ultimately have "p_status q = Expired" by metis
        with q(2) show False by simp
    next
      case False
      then have "book c st2 pid \<noteq> Some q" using st_ps [of q] id q(2) False by blast
      with ex [THEN conjunct2, THEN conjunct2, unfolded changes_def, THEN conjunct2, THEN spec, of pid] a
      obtain p where "q = with_status Expired p" by auto
      then have "p_status q = Expired" by (simp add: with_status_def)
      with q(2) show False by simp
    qed
  qed
  with ju q obtain p where "p \<in> set (schedule keep)" "judged (\<lambda>_ _. True) p q" unfolding changes_def by (metis option.inject)
  moreover from this(1) have "\<not> p_valid_until p < u256_of now" using mset_eq_setD [OF sk] ex by auto
  moreover have "p_valid_until q = p_valid_until p" using calculation(2) by (auto simp: judged_def with_verdict_def)
  ultimately show False using late by simp
qed

text \<open>C31. Deadlines are enforced: while the database answers, after one tick no live proposal is past its
  deadline, whatever the validator does.\<close>

theorem tick_expires_overdue:
  assumes "good c st" and "codec_ok c" and "st_faults st = []" and "\<forall>ps. mset (schedule ps) = mset ps"
    and "run_tick validate begin_tick schedule c clk now timeout s st = (s', st')"
  shows "case book c st' pid of None \<Rightarrow> True
    | Some q \<Rightarrow> (if p_status q \<in> {Submitted, Active} then u256_of now \<le> p_valid_until q else True)"
  using live_not_overdue [OF assms] by (simp split: option.splits)

subsection \<open>Witnesses\<close>

theorem tick_moves_justified_witness:
  "good std_codec (snd (run_tick (production_validate sample_config) production_begin (\<lambda>ps. ps) std_codec sample_clock
     5 60 (no_caches, \<lambda>_. (10, poor_world)) (stored_sample Active)))"
proof -
  have "production_ready sample_config poor_facts {(10, poor_world)} (no_caches, \<lambda>_. (10, poor_world))"
    by (simp add: production_ready_def honest_answers_def coherent_def clear_cache_def no_caches_def cache_coherent_def cache_ok_def
        sample_config_def CACHE_CAPACITY_def honest_def poor_facts_def poor_world_def replies_honestly_def read_reply_def)
  then show ?thesis
    using tick_moves_justified [OF sample_facts, of sample_config poor_facts "{(10, poor_world)}" _ "\<lambda>ps. ps" sample_clock 5 60 Active]
    by (metis prod.collapse)
qed

theorem tick_expires_overdue_witness:
  "case book std_codec (snd (run_tick accept_all (\<lambda>s. s) (\<lambda>ps. ps) std_codec sample_clock 5 60 True (stored_sample Active)))
     (ProposalId 1) of None \<Rightarrow> True
   | Some q \<Rightarrow> (if p_status q \<in> {Submitted, Active} then u256_of (5::u64) \<le> p_valid_until q else True)"
proof -
  obtain s' st' where r: "run_tick accept_all (\<lambda>s. s) (\<lambda>ps. ps) std_codec sample_clock 5 60 True (stored_sample Active) = (s', st')"
    by (cases "run_tick accept_all (\<lambda>s. s) (\<lambda>ps. ps) std_codec sample_clock 5 60 True (stored_sample Active)")
  have "st_faults (stored_sample Active) = []" by (simp add: stored_sample_def)
  from tick_expires_overdue [OF sample_facts this _ r] show ?thesis unfolding r snd_conv by simp
qed

end
