(* ===== verification/Penalty_Loop.thy ===== *)
theory Penalty_Loop
  imports Operator Validation
begin

text \<open>
  The penalty loop (\<open>infra/penalty.rs\<close>): every \<open>SettleFailed\<close> proposal is debited the cost of its
  settlement plus the collateral and becomes \<open>Penalized\<close>, every queued charge is debited a tenth of
  the collateral; a debit that keeps failing is given up after ten attempts. The chain edge is a
  parameter, with the contract \<open>debit_edge\<close>; log lines are not modelled.
\<close>

definition MAX_DEBIT_ATTEMPTS :: u32 where
  "MAX_DEBIT_ATTEMPTS = 10"

record debit_attempts =
  da_revert :: "proposal_id \<Rightarrow> u32 option"
  da_non_settlement :: "i64 \<Rightarrow> u32 option"

definition note_debit_failure :: "u32 \<Rightarrow> u32" where
  "note_debit_failure attempts = attempts + 1"

definition parked :: "('k \<Rightarrow> u32 option) \<Rightarrow> 'k \<Rightarrow> bool" where
  "parked attempts k = (case attempts k of None \<Rightarrow> False | Some n \<Rightarrow> MAX_DEBIT_ATTEMPTS \<le> n)"

text \<open>\<open>note_debit_failure(attempts.entry(k).or_insert(0))\<close>.\<close>

definition count_failure :: "('k \<Rightarrow> u32 option) \<Rightarrow> 'k \<Rightarrow> 'k \<Rightarrow> u32 option" where
  "count_failure attempts k =
     attempts(k \<mapsto> note_debit_failure (case attempts k of None \<Rightarrow> 0 | Some n \<Rightarrow> n))"

definition revert_one ::
  "(b256 \<Rightarrow> 'e \<Rightarrow> (debit_error + u256) \<times> 'e) \<Rightarrow> (address \<Rightarrow> u256 \<Rightarrow> b256 \<Rightarrow> 'e \<Rightarrow> (debit_error + b256) \<times> 'e)
    \<Rightarrow> codec \<Rightarrow> clock \<Rightarrow> u256 \<Rightarrow> proposal \<Rightarrow> (proposal_id \<Rightarrow> u32 option) \<times> 'e \<times> store
    \<Rightarrow> (proposal_id \<Rightarrow> u32 option) \<times> 'e \<times> store" where
  "revert_one cost debit c clk c_l p = (\<lambda>(attempts, e, st).
     if parked attempts (p_id p) then (attempts, e, st)
     else
       (case p_settlement_tx_hash p of
          None \<Rightarrow> (attempts, e, st)
        | Some settlement_tx \<Rightarrow>
            (case cost settlement_tx e of
               (Inl err, e1) \<Rightarrow> (count_failure attempts (p_id p), e1, st)
             | (Inr price, e1) \<Rightarrow>
                 (let amount = revert_debit price c_l in
                  case debit (p_sub_solver p) amount settlement_tx e1 of
                    (Inl err, e2) \<Rightarrow> (count_failure attempts (p_id p), e2, st)
                  | (Inr penalty_tx, e2) \<Rightarrow>
                      (case record_penalty c clk p amount penalty_tx st of
                         (_, st') \<Rightarrow> (attempts(p_id p := None), e2, st'))))))"

definition revert_debits ::
  "(b256 \<Rightarrow> 'e \<Rightarrow> (debit_error + u256) \<times> 'e) \<Rightarrow> (address \<Rightarrow> u256 \<Rightarrow> b256 \<Rightarrow> 'e \<Rightarrow> (debit_error + b256) \<times> 'e)
    \<Rightarrow> codec \<Rightarrow> clock \<Rightarrow> u256 \<Rightarrow> (proposal_id \<Rightarrow> u32 option) \<times> 'e \<times> store \<Rightarrow> (proposal_id \<Rightarrow> u32 option) \<times> 'e \<times> store" where
  "revert_debits cost debit c clk c_l = (\<lambda>(attempts, e, st).
     case snapshot_by_statuses c [SettleFailed] st of
       (Inl err, st') \<Rightarrow> (attempts, e, st')
     | (Inr pending, st') \<Rightarrow> fold (revert_one cost debit c clk c_l) pending (attempts, e, st'))"

definition non_settlement_one ::
  "(address \<Rightarrow> u256 \<Rightarrow> b256 \<Rightarrow> 'e \<Rightarrow> (debit_error + b256) \<times> 'e) \<Rightarrow> (bytes \<Rightarrow> b256)
    \<Rightarrow> codec \<Rightarrow> clock \<Rightarrow> u256 \<Rightarrow> pending_penalty \<Rightarrow> (i64 \<Rightarrow> u32 option) \<times> 'e \<times> store
    \<Rightarrow> (i64 \<Rightarrow> u32 option) \<times> 'e \<times> store" where
  "non_settlement_one debit keccak c clk c_l pp = (\<lambda>(attempts, e, st).
     if parked attempts (pp_id pp) then (attempts, e, st)
     else
       (let amount = non_settlement_debit c_l; reason = keccak (uid_bytes (pp_order_uid pp)) in
        case debit (pp_sub_solver pp) amount reason e of
          (Inl err, e1) \<Rightarrow> (count_failure attempts (pp_id pp), e1, st)
        | (Inr penalty_tx, e1) \<Rightarrow>
            (case record_non_settlement_debit c clk pp amount penalty_tx st of
               (_, st') \<Rightarrow> (attempts(pp_id pp := None), e1, st'))))"

definition non_settlement_debits ::
  "(address \<Rightarrow> u256 \<Rightarrow> b256 \<Rightarrow> 'e \<Rightarrow> (debit_error + b256) \<times> 'e) \<Rightarrow> (bytes \<Rightarrow> b256)
    \<Rightarrow> codec \<Rightarrow> clock \<Rightarrow> u256 \<Rightarrow> (i64 \<Rightarrow> u32 option) \<times> 'e \<times> store \<Rightarrow> (i64 \<Rightarrow> u32 option) \<times> 'e \<times> store" where
  "non_settlement_debits debit keccak c clk c_l = (\<lambda>(attempts, e, st).
     case pending_penalties c st of
       (Inl err, st') \<Rightarrow> (attempts, e, st')
     | (Inr pending, st') \<Rightarrow> fold (non_settlement_one debit keccak c clk c_l) pending (attempts, e, st'))"

definition penalty_tick ::
  "(b256 \<Rightarrow> 'e \<Rightarrow> (debit_error + u256) \<times> 'e) \<Rightarrow> (address \<Rightarrow> u256 \<Rightarrow> b256 \<Rightarrow> 'e \<Rightarrow> (debit_error + b256) \<times> 'e)
    \<Rightarrow> (bytes \<Rightarrow> b256) \<Rightarrow> codec \<Rightarrow> clock \<Rightarrow> u256 \<Rightarrow> debit_attempts \<times> 'e \<times> store \<Rightarrow> debit_attempts \<times> 'e \<times> store" where
  "penalty_tick cost debit keccak c clk c_l = (\<lambda>(attempts, e, st).
     case revert_debits cost debit c clk c_l (da_revert attempts, e, st) of (rs, e1, st1) \<Rightarrow>
     (case non_settlement_debits debit keccak c clk c_l (da_non_settlement attempts, e1, st1) of (ns, e2, st2) \<Rightarrow>
        (\<lparr>da_revert = rs, da_non_settlement = ns\<rparr>, e2, st2)))"

text \<open>The loop of \<open>spawn\<close>: the attempts start empty and live across ticks.\<close>

definition no_attempts :: debit_attempts where
  "no_attempts = \<lparr>da_revert = (\<lambda>_. None), da_non_settlement = (\<lambda>_. None)\<rparr>"

definition penalty_loop ::
  "(b256 \<Rightarrow> 'e \<Rightarrow> (debit_error + u256) \<times> 'e) \<Rightarrow> (address \<Rightarrow> u256 \<Rightarrow> b256 \<Rightarrow> 'e \<Rightarrow> (debit_error + b256) \<times> 'e)
    \<Rightarrow> (bytes \<Rightarrow> b256) \<Rightarrow> codec \<Rightarrow> u256 \<Rightarrow> clock list \<Rightarrow> debit_attempts \<times> 'e \<times> store \<Rightarrow> debit_attempts \<times> 'e \<times> store" where
  "penalty_loop cost debit keccak c c_l clks = fold (\<lambda>clk. penalty_tick cost debit keccak c clk c_l) clks"

subsection \<open>What a revert debit does\<close>

text \<open>The debit due for a proposal.\<close>

definition revert_due :: "(b256 \<Rightarrow> u256 \<Rightarrow> bool) \<Rightarrow> u256 \<Rightarrow> proposal \<Rightarrow> debit_entry \<Rightarrow> bool" where
  "revert_due price c_l p d \<longleftrightarrow> p_status p = SettleFailed \<and> de_sub_solver d = p_sub_solver p \<and>
     (\<exists>settlement_tx x. p_settlement_tx_hash p = Some settlement_tx \<and> price settlement_tx x \<and>
        de_reason d = settlement_tx \<and> de_amount d = revert_debit x c_l)"

definition charge_due :: "(bytes \<Rightarrow> b256) \<Rightarrow> u256 \<Rightarrow> pending_penalty \<Rightarrow> debit_entry \<Rightarrow> bool" where
  "charge_due keccak c_l pp d \<longleftrightarrow> de_sub_solver d = pp_sub_solver pp \<and>
     de_amount d = non_settlement_debit c_l \<and> de_reason d = keccak (uid_bytes (pp_order_uid pp))"

definition paid_with :: "proposal list \<Rightarrow> debit_entry list \<Rightarrow> proposal \<Rightarrow> proposal \<Rightarrow> bool" where
  "paid_with qs ds p q \<longleftrightarrow> (\<exists>d. (p, d) \<in> set (zip qs ds) \<and> q = with_penalty (de_tx d) p)"

text \<open>The queue after charges were paid: every row is as before or names the debit that paid it.\<close>

definition paid_rows :: "codec \<Rightarrow> pending_penalty list \<Rightarrow> debit_entry list \<Rightarrow> store \<Rightarrow> store \<Rightarrow> bool" where
  "paid_rows c pps es st st' \<longleftrightarrow>
     (\<forall>row\<in>set (d_penalties (st_db st')). row \<in> set (d_penalties (st_db st)) \<or>
        (\<exists>pp d. (pp, d) \<in> set (zip pps es) \<and> pr_id row = pp_id pp \<and>
           pr_penalty_tx_hash row = Some (b256_text c (de_tx d))))"

lemma book_pay_penalty: "st_db st' = pay_penalty i tx (st_db st) \<Longrightarrow> book c st' = book c st"
  by (simp add: book_def pay_penalty_def proposal_at_def find_row_def fun_eq_iff)

text \<open>The charges waiting in the queue.\<close>

definition pending :: "codec \<Rightarrow> store \<Rightarrow> pending_penalty \<Rightarrow> bool" where
  "pending c st pp \<longleftrightarrow> (\<exists>row\<in>set (d_penalties (st_db st)). pr_penalty_tx_hash row = None \<and> penalty_of_row c row = Inr pp)"

lemma read_keys:
  "map f rows = map Inr xs \<Longrightarrow> (\<And>q. q \<in> set rows \<Longrightarrow> \<exists>x. f q = Inr x \<and> g x = h q) \<Longrightarrow> map g xs = map h rows"
proof (induction rows arbitrary: xs)
  case (Cons q rows)
  then obtain x xs' where "xs = x # xs'" "f q = Inr x" "map f rows = map Inr xs'" by (cases xs) auto
  with Cons.IH [of xs'] Cons.prems(2) show ?case by fastforce
qed simp

lemma pending_rows_read:
  assumes gd: "good c st" and m: "map (penalty_of_row c) (pending_rows (st_db st)) = map Inr pps"
  shows "distinct (map pp_id pps)" "\<And>pp. pp \<in> set pps \<Longrightarrow> pending c st pp"
proof -
  have rows: "set (pending_rows (st_db st)) = {q \<in> set (d_penalties (st_db st)). pr_penalty_tx_hash q = None}"
    by (simp add: pending_rows_def)
  have "map pp_id pps = map pr_id (pending_rows (st_db st))"
  proof (rule read_keys [OF m])
    fix q assume "q \<in> set (pending_rows (st_db st))"
    then have "penalty_row_ok c q" using rows gd by (simp add: good_def db_ok_def)
    then show "\<exists>pp. penalty_of_row c q = Inr pp \<and> pp_id pp = pr_id q" by (rule penalty_of_row_ok)
  qed
  moreover have "distinct (map pr_id (d_penalties (st_db st)))" using gd by (simp add: good_def db_ok_def)
  then have "distinct (map pr_id (pending_rows (st_db st)))"
    by (simp add: pending_rows_def distinct_map inj_on_def)
  ultimately show "distinct (map pp_id pps)" by simp
  fix pp assume "pp \<in> set pps"
  then have "Inr pp \<in> set (map (penalty_of_row c) (pending_rows (st_db st)))" unfolding m by simp
  with rows show "pending c st pp" by (auto simp: pending_def)
qed

context debit_edge
begin

text \<open>One proposal: at most one debit lands, it is the one due, and only then may the proposal change.\<close>

lemma revert_one_result:
  assumes gd: "good c st" and c: "codec_ok c" and "ok e" and p: "book c st (p_id p) = Some p" "p_status p = SettleFailed"
    and run: "revert_one cost debit c clk c_l p (att, e, st) = (att', e', st')"
  shows "ok e' \<and> (confirmed e' = confirmed e \<and> st' = st \<or>
    (\<exists>d. confirmed e' = confirmed e @ [d] \<and> revert_due price c_l p d \<and>
       changes c [p] (\<lambda>p q. q = with_penalty (de_tx d) p) st st' \<and> d_penalties (st_db st') = d_penalties (st_db st)))"
proof (cases "parked att (p_id p) \<or> p_settlement_tx_hash p = None")
  case True
  with run assms(3) show ?thesis by (auto simp: revert_one_def split: if_splits)
next
  case False
  then obtain s where s: "p_settlement_tx_hash p = Some s" "\<not> parked att (p_id p)" by auto
  obtain r1 e1 where r1: "cost s e = (r1, e1)" by (cases "cost s e")
  note l1 = cost_law [OF assms(3) r1]
  show ?thesis
  proof (cases r1)
    case (Inl err)
    with run s r1 l1 show ?thesis by (auto simp: revert_one_def)
  next
    case (Inr x)
    let ?amount = "revert_debit x c_l"
    obtain r2 e2 where r2: "debit (p_sub_solver p) ?amount s e1 = (r2, e2)" by (cases "debit (p_sub_solver p) ?amount s e1")
    note l2 = debit_law [OF l1 [THEN conjunct1] r2]
    show ?thesis
    proof (cases r2)
      case (Inl err)
      with run s r1 r2 \<open>r1 = Inr x\<close> l1 l2 show ?thesis by (auto simp: revert_one_def landed_def)
    next
      case tx: (Inr tx)
      let ?d = "\<lparr>de_sub_solver = p_sub_solver p, de_amount = ?amount, de_reason = s, de_tx = tx\<rparr>"
      obtain r3 st3 where r3: "record_penalty c clk p ?amount tx st = (r3, st3)"
        by (cases "record_penalty c clk p ?amount tx st")
      have st': "st' = st3" "e' = e2" using run s r1 r2 r3 Inr tx by (auto simp: revert_one_def)
      have ib: "in_book c st [p]" using gd p by (simp add: in_book_def)
      note spec = wpD [OF wp_record_penalty [OF gd c] r3]
      have "changes c [p] (\<lambda>p q. q = with_penalty (de_tx ?d) p) st st3 \<and> d_penalties (st_db st3) = d_penalties (st_db st)"
      proof (cases r3)
        case (Inl err)
        with spec show ?thesis by (auto intro: same_changes simp: same_state_def)
      next
        case (Inr u)
        with spec obtain q evs where "p_id q = p_id p" "moved c st st3 q (with_penalty tx q) evs" by auto
        with spec Inr show ?thesis by (auto intro: moved_changes [OF ib])
      qed
      moreover have "confirmed e2 = confirmed e @ [?d]" using l1 l2 tx by (simp add: landed_def)
      moreover have "revert_due price c_l p ?d" using p(2) s l1 Inr by (auto simp: revert_due_def)
      ultimately show ?thesis using l2 st' by blast
    qed
  qed
qed

text \<open>The whole sweep: the debits landed are due, each to another proposal.\<close>

lemma revert_fold_result:
  assumes "in_book c st ps" and c: "codec_ok c" and "ok e" and "\<forall>p\<in>set ps. p_status p = SettleFailed"
    and "fold (revert_one cost debit c clk c_l) ps (att, e, st) = (att', e', st')"
  shows "ok e' \<and> d_penalties (st_db st') = d_penalties (st_db st) \<and>
    (\<exists>qs ds. set qs \<subseteq> set ps \<and> distinct (map p_id qs) \<and> confirmed e' = confirmed e @ ds \<and>
       list_all2 (revert_due price c_l) qs ds \<and> changes c ps (paid_with qs ds) st st')"
  using assms(1,3,4,5)
proof (induction ps arbitrary: att e st)
  case Nil
  then have "changes c [] (paid_with [] []) st st'" by (simp add: in_book_def changes_refl)
  moreover have "ok e' \<and> st' = st \<and> e' = e" using Nil by simp
  ultimately show ?case by (intro conjI exI [of _ "[]"]) auto
next
  case (Cons p ps)
  note b = in_bookD [OF Cons.prems(1)]
  have p: "book c st (p_id p) = Some p" "p_status p = SettleFailed" using b(3) Cons.prems(3) by simp_all
  obtain att1 e1 st1 where one: "revert_one cost debit c clk c_l p (att, e, st) = (att1, e1, st1)"
    by (cases "revert_one cost debit c clk c_l p (att, e, st)")
  have rest: "fold (revert_one cost debit c clk c_l) ps (att1, e1, st1) = (att', e', st')"
    using Cons.prems(4) one by simp
  note r1 = revert_one_result [OF b(1) c Cons.prems(2) p one]
  have ib: "in_book c st ps" using Cons.prems(1) by (simp add: in_book_def)
  have sf: "\<forall>p\<in>set ps. p_status p = SettleFailed" using Cons.prems(3) by simp
  show ?case
  proof (cases "confirmed e1 = confirmed e \<and> st1 = st")
    case True
    then have "in_book c st1 ps" "ok e1" using ib r1 by simp_all
    from Cons.IH [OF this sf rest] obtain qs ds where q: "set qs \<subseteq> set ps" "distinct (map p_id qs)"
      "confirmed e' = confirmed e1 @ ds" "list_all2 (revert_due price c_l) qs ds" "changes c ps (paid_with qs ds) st1 st'"
      "ok e'" "d_penalties (st_db st') = d_penalties (st_db st1)" by blast
    have "changes c (p # ps) (paid_with qs ds) st st'" using q(5) True by (simp add: changes_skip)
    with q True show ?thesis by (intro conjI exI [of _ qs] exI [of _ ds]) auto
  next
    case False
    with r1 obtain d where d: "confirmed e1 = confirmed e @ [d]" "revert_due price c_l p d" "ok e1"
      "changes c [p] (\<lambda>p q. q = with_penalty (de_tx d) p) st st1" "d_penalties (st_db st1) = d_penalties (st_db st)" by blast
    note ib1 = in_book_Cons [OF Cons.prems(1) d(4)]
    from Cons.IH [OF ib1 d(3) sf rest] obtain qs ds where q: "set qs \<subseteq> set ps" "distinct (map p_id qs)"
      "confirmed e' = confirmed e1 @ ds" "list_all2 (revert_due price c_l) qs ds" "changes c ps (paid_with qs ds) st1 st'"
      "ok e'" "d_penalties (st_db st') = d_penalties (st_db st1)" by blast
    have "changes c [p] (paid_with (p # qs) (d # ds)) st st1"
      using d(4) by (auto simp: changes_def paid_with_def)
    moreover have "changes c ps (paid_with (p # qs) (d # ds)) st1 st'"
      using q(5) by (fastforce simp: changes_def paid_with_def)
    ultimately have "changes c (p # ps) (paid_with (p # qs) (d # ds)) st st'"
      by (rule changes_Cons [OF Cons.prems(1)])
    moreover have "p_id p \<notin> p_id ` set qs" using b(2) q(1) by auto
    ultimately show ?thesis using q d by (intro conjI exI [of _ "p # qs"] exI [of _ "d # ds"]) auto
  qed
qed

lemma non_settlement_one_result:
  assumes gd: "good c st" and "ok e"
    and run: "non_settlement_one debit keccak c clk c_l pp (att, e, st) = (att', e', st')"
  shows "ok e' \<and> good c st' \<and> book c st' = book c st \<and> (confirmed e' = confirmed e \<and> st' = st \<or>
    (\<exists>d. confirmed e' = confirmed e @ [d] \<and> charge_due keccak c_l pp d \<and> paid_rows c [pp] [d] st st'))"
proof (cases "parked att (pp_id pp)")
  case True
  with run assms show ?thesis by (auto simp: non_settlement_one_def)
next
  case False
  let ?amount = "non_settlement_debit c_l" and ?reason = "keccak (uid_bytes (pp_order_uid pp))"
  obtain r e1 where r: "debit (pp_sub_solver pp) ?amount ?reason e = (r, e1)" by (cases "debit (pp_sub_solver pp) ?amount ?reason e")
  note l = debit_law [OF assms(2) r]
  show ?thesis
  proof (cases r)
    case (Inl err)
    with run False r l gd show ?thesis by (auto simp: non_settlement_one_def landed_def Let_def)
  next
    case (Inr tx)
    let ?d = "\<lparr>de_sub_solver = pp_sub_solver pp, de_amount = ?amount, de_reason = ?reason, de_tx = tx\<rparr>"
    obtain r2 st2 where r2: "record_non_settlement_debit c clk pp ?amount tx st = (r2, st2)"
      by (cases "record_non_settlement_debit c clk pp ?amount tx st")
    have st': "st' = st2" "e' = e1" using run False r r2 Inr by (auto simp: non_settlement_one_def Let_def)
    note spec = wpD [OF wp_record_non_settlement_debit [OF gd] r2]
    have "good c st2 \<and> book c st2 = book c st \<and> paid_rows c [pp] [?d] st st2"
    proof (cases r2)
      case (Inl err)
      with spec show ?thesis by (auto simp: same_state_def book_def paid_rows_def)
    next
      case (Inr u)
      with spec have db: "st_db st2 = pay_penalty (pp_id pp) (b256_text c tx) (st_db st)" "good c st2" by auto
      from db(1) have "paid_rows c [pp] [?d] st st2"
        by (auto simp: paid_rows_def pay_penalty_def split: if_splits)
      with db book_pay_penalty [OF db(1)] show ?thesis by simp
    qed
    moreover have "confirmed e1 = confirmed e @ [?d]" using l Inr by (simp add: landed_def)
    moreover have "charge_due keccak c_l pp ?d" by (simp add: charge_due_def)
    ultimately show ?thesis using l st' by blast
  qed
qed

lemma paid_rows_step:
  assumes "paid_rows c [pp] [d] st st1" and "paid_rows c pps es st1 st'"
  shows "paid_rows c (pp # pps) (d # es) st st'"
  unfolding paid_rows_def
proof
  fix row assume "row \<in> set (d_penalties (st_db st'))"
  with assms(2) consider "row \<in> set (d_penalties (st_db st1))"
    | pp' d' where "(pp', d') \<in> set (zip pps es)" "pr_id row = pp_id pp'" "pr_penalty_tx_hash row = Some (b256_text c (de_tx d'))"
    unfolding paid_rows_def by blast
  then show "row \<in> set (d_penalties (st_db st)) \<or> (\<exists>pp' d'. (pp', d') \<in> set (zip (pp # pps) (d # es)) \<and>
      pr_id row = pp_id pp' \<and> pr_penalty_tx_hash row = Some (b256_text c (de_tx d')))"
  proof cases
    case 1
    with assms(1) show ?thesis unfolding paid_rows_def by auto
  next
    case 2
    then show ?thesis by auto
  qed
qed

lemma non_settlement_fold_result:
  assumes "good c st" and "ok e" and "distinct (map pp_id ps)"
    and "fold (non_settlement_one debit keccak c clk c_l) ps (att, e, st) = (att', e', st')"
  shows "ok e' \<and> good c st' \<and> book c st' = book c st \<and>
    (\<exists>pps es. set pps \<subseteq> set ps \<and> distinct (map pp_id pps) \<and> confirmed e' = confirmed e @ es \<and>
       list_all2 (charge_due keccak c_l) pps es \<and> paid_rows c pps es st st')"
  using assms
proof (induction ps arbitrary: att e st)
  case Nil
  then have "paid_rows c [] [] st st'" "e' = e" "st' = st" by (auto simp: paid_rows_def)
  with Nil show ?case by (intro conjI exI [of _ "[]"]) auto
next
  case (Cons p ps)
  obtain att1 e1 st1 where one: "non_settlement_one debit keccak c clk c_l p (att, e, st) = (att1, e1, st1)"
    by (cases "non_settlement_one debit keccak c clk c_l p (att, e, st)")
  have rest: "fold (non_settlement_one debit keccak c clk c_l) ps (att1, e1, st1) = (att', e', st')"
    using Cons.prems(4) one by simp
  note r1 = non_settlement_one_result [OF Cons.prems(1,2) one]
  have dst: "distinct (map pp_id ps)" using Cons.prems(3) by simp
  have g1: "good c st1" "ok e1" "book c st1 = book c st" using r1 by blast+
  from Cons.IH [OF g1(1,2) dst rest] obtain pps es where q: "set pps \<subseteq> set ps" "distinct (map pp_id pps)"
    "confirmed e' = confirmed e1 @ es" "list_all2 (charge_due keccak c_l) pps es" "paid_rows c pps es st1 st'"
    "ok e'" "good c st'" "book c st' = book c st1" by blast
  show ?case
  proof (cases "confirmed e1 = confirmed e \<and> st1 = st")
    case True
    with q show ?thesis by (intro conjI exI [of _ pps] exI [of _ es]) auto
  next
    case False
    with r1 obtain d where d: "confirmed e1 = confirmed e @ [d]" "charge_due keccak c_l p d" "paid_rows c [p] [d] st st1" by blast
    have "pp_id p \<notin> pp_id ` set pps" using Cons.prems(3) q(1) by auto
    with q d g1 paid_rows_step [OF d(3) q(5)] show ?thesis
      by (intro conjI exI [of _ "p # pps"] exI [of _ "d # es"]) auto
  qed
qed

lemma penalty_tick_result:
  assumes gd: "good c st" and c: "codec_ok c" and "ok e"
    and run: "penalty_tick cost debit keccak c clk c_l (att, e, st) = (att', e', st')"
  shows "ok e' \<and> good c st' \<and> (\<exists>qs ds pps es. confirmed e' = confirmed e @ ds @ es \<and>
    distinct (map p_id qs) \<and> (\<forall>q\<in>set qs. book c st (p_id q) = Some q) \<and> list_all2 (revert_due price c_l) qs ds \<and>
    distinct (map pp_id pps) \<and> (\<forall>pp\<in>set pps. pending c st pp) \<and> list_all2 (charge_due keccak c_l) pps es \<and>
    (\<forall>pid. book c st' pid = book c st pid \<or>
       (\<exists>p d. (p, d) \<in> set (zip qs ds) \<and> p_id p = pid \<and> book c st' pid = Some (with_penalty (de_tx d) p))) \<and>
    paid_rows c pps es st st')"
proof -
  obtain rs e1 st1 where r: "revert_debits cost debit c clk c_l (da_revert att, e, st) = (rs, e1, st1)"
    by (cases "revert_debits cost debit c clk c_l (da_revert att, e, st)")
  obtain ns where n: "non_settlement_debits debit keccak c clk c_l (da_non_settlement att, e1, st1) = (ns, e', st')"
    using run r by (auto simp: penalty_tick_def split: prod.splits)
  have A: "ok e1 \<and> good c st1 \<and> d_penalties (st_db st1) = d_penalties (st_db st) \<and> (\<exists>qs ds. confirmed e1 = confirmed e @ ds \<and>
    distinct (map p_id qs) \<and> (\<forall>q\<in>set qs. book c st (p_id q) = Some q) \<and> list_all2 (revert_due price c_l) qs ds \<and>
    (\<forall>pid. book c st1 pid = book c st pid \<or>
       (\<exists>p d. (p, d) \<in> set (zip qs ds) \<and> p_id p = pid \<and> book c st1 pid = Some (with_penalty (de_tx d) p))))"
  proof -
    obtain x sta where s: "snapshot_by_statuses c [SettleFailed] st = (x, sta)" by (cases "snapshot_by_statuses c [SettleFailed] st")
    note spec = wpD [OF wp_snapshot_by_statuses [OF gd] s, unfolded read_result_def]
    have ga: "good c sta" "same_state st sta" using spec by simp_all
    then have ba: "book c sta = book c st" "d_penalties (st_db sta) = d_penalties (st_db st)"
      by (simp_all add: same_state_def book_def)
    show ?thesis
    proof (cases x)
      case (Inl err)
      then have "e1 = e" "st1 = sta" using r s by (auto simp: revert_debits_def)
      with ga ba assms(3) show ?thesis by (intro conjI exI [of _ "[]"]) auto
    next
      case (Inr ps)
      then have ps: "set ps = {q. book c st (p_id q) = Some q \<and> p_status q = SettleFailed}" "distinct (map p_id ps)"
        using spec by (auto simp: stored_where_def)
      have ib: "in_book c sta ps" using ga ba ps by (simp add: in_book_def)
      have "fold (revert_one cost debit c clk c_l) ps (da_revert att, e, sta) = (rs, e1, st1)"
        using r s Inr by (simp add: revert_debits_def)
      from revert_fold_result [OF ib c assms(3) _ this] ps obtain qs ds where q: "set qs \<subseteq> set ps" "distinct (map p_id qs)"
        "confirmed e1 = confirmed e @ ds" "list_all2 (revert_due price c_l) qs ds" "changes c ps (paid_with qs ds) sta st1"
        "ok e1" "d_penalties (st_db st1) = d_penalties (st_db sta)" by auto
      have "good c st1" using q(5) by (simp add: changes_def)
      moreover have "book c st1 pid = book c st pid \<or>
         (\<exists>p d. (p, d) \<in> set (zip qs ds) \<and> p_id p = pid \<and> book c st1 pid = Some (with_penalty (de_tx d) p))" for pid
        using q(5) ba unfolding changes_def paid_with_def by metis
      ultimately show ?thesis using q ps ba by (intro conjI exI [of _ qs] exI [of _ ds]) auto
    qed
  qed
  have B: "ok e' \<and> good c st' \<and> book c st' = book c st1 \<and> (\<exists>pps es. confirmed e' = confirmed e1 @ es \<and>
    distinct (map pp_id pps) \<and> (\<forall>pp\<in>set pps. pending c st1 pp) \<and> list_all2 (charge_due keccak c_l) pps es \<and>
    paid_rows c pps es st1 st')"
  proof -
    have g1: "good c st1" "ok e1" using A by blast+
    obtain x sta where s: "pending_penalties c st1 = (x, sta)" by (cases "pending_penalties c st1")
    note spec = wpD [OF wp_pending_penalties [OF g1(1)] s]
    have ga: "good c sta" "same_state st1 sta" using spec by simp_all
    then have ba: "book c sta = book c st1" "paid_rows c [] [] st1 sta" "\<And>pps es st'. paid_rows c pps es sta st' = paid_rows c pps es st1 st'"
      by (simp_all add: same_state_def book_def paid_rows_def)
    show ?thesis
    proof (cases x)
      case (Inl err)
      then have "e' = e1" "st' = sta" using n s by (auto simp: non_settlement_debits_def)
      with ga ba g1 show ?thesis by (intro conjI exI [of _ "[]"]) auto
    next
      case (Inr pps)
      with spec have m: "map (penalty_of_row c) (pending_rows (st_db st1)) = map Inr pps" by simp
      note pd = pending_rows_read [OF g1(1) m]
      have "fold (non_settlement_one debit keccak c clk c_l) pps (da_non_settlement att, e1, sta) = (ns, e', st')"
        using n s Inr by (simp add: non_settlement_debits_def)
      from non_settlement_fold_result [OF ga(1) g1(2) pd(1) this] ba pd(2) show ?thesis
        by (metis (no_types, lifting) subsetD)
    qed
  qed
  have "pending c st1 = pending c st" "\<And>pps es. paid_rows c pps es st1 st' = paid_rows c pps es st st'"
    using A by (simp_all add: pending_def fun_eq_iff paid_rows_def)
  with A B show ?thesis by (metis (no_types, lifting) append_assoc)
qed

end

text \<open>C9. Money moves only as it is owed: whatever fails in a tick, every debit that lands in it is either
  the cost of a \<open>SettleFailed\<close> proposal's settlement on chain plus the collateral, from its sub-solver
  and citing that settlement, or a tenth of the collateral for a charge waiting in the queue; no
  proposal and no charge is debited twice in the tick; and a stored proposal changes only by becoming
  \<open>Penalized\<close> under the transaction of its own debit, a queue row only by naming the debit that paid it.\<close>

theorem penalties_follow_debits:
  assumes "good c st" and "codec_ok c" and "receipts_true receipts (ws, debits)"
    and "penalty_tick (operator_cost c) (operator_send c) keccak c clk c_l (att, (ws, debits), st) = (att', (ws', debits'), st')"
  shows "good c st' \<and> (\<exists>qs ds pps es. debits' = debits @ ds @ es \<and>
    distinct (map p_id qs) \<and> (\<forall>q\<in>set qs. book c st (p_id q) = Some q) \<and>
    list_all2 (revert_due (price_on_chain receipts) c_l) qs ds \<and>
    distinct (map pp_id pps) \<and> (\<forall>pp\<in>set pps. pending c st pp) \<and> list_all2 (charge_due keccak c_l) pps es \<and>
    (\<forall>pid. book c st' pid = book c st pid \<or>
       (\<exists>p d. (p, d) \<in> set (zip qs ds) \<and> p_id p = pid \<and> book c st' pid = Some (with_penalty (de_tx d) p))) \<and>
    paid_rows c pps es st st')"
  using operator.penalty_tick_result [OF assms] by (simp only: snd_conv)

subsection \<open>Giving up\<close>

definition bump :: "'k set \<Rightarrow> ('k \<Rightarrow> u32 option) \<Rightarrow> 'k \<Rightarrow> u32 option" where
  "bump D att k = (if k \<in> D \<and> \<not> parked att k then count_failure att k k else att k)"

definition failures :: "('k \<Rightarrow> u32 option) \<Rightarrow> 'k \<Rightarrow> nat" where
  "failures att k = (case att k of None \<Rightarrow> 0 | Some n \<Rightarrow> unat n)"

lemma parked_iff: "parked att k \<longleftrightarrow> 10 \<le> failures att k"
  by (auto simp: parked_def failures_def MAX_DEBIT_ATTEMPTS_def word_le_nat_alt split: option.splits)

lemma bump_keeps_parked: "parked att k \<Longrightarrow> parked (bump D att) k"
  by (simp add: bump_def parked_def)

lemma bump_failures:
  assumes "k \<in> D"
  shows "parked (bump D att) k \<or> failures (bump D att) k = Suc (failures att k)"
proof (cases "parked att k")
  case True
  then show ?thesis by (simp add: bump_keeps_parked)
next
  case False
  let ?n = "case att k of None \<Rightarrow> 0 | Some n \<Rightarrow> n"
  have "unat ?n < 10" using False by (auto simp: parked_iff failures_def split: option.splits)
  then have "unat (?n + 1) = Suc (unat ?n)" by (simp add: unat_word_ariths)
  moreover have "failures att k = unat ?n" by (auto simp: failures_def split: option.splits)
  ultimately show ?thesis using False assms by (simp add: bump_def count_failure_def note_debit_failure_def failures_def)
qed

lemma bump_parked [simp]: "\<forall>k\<in>D. parked att k \<Longrightarrow> bump D att = att"
  by (auto simp: bump_def fun_eq_iff)

lemma bumps_stuck: "\<forall>k\<in>D. parked att k \<Longrightarrow> (bump D ^^ n) att = att"
  by (induction n) simp_all

lemma bumps_parked:
  assumes "k \<in> D" and "10 \<le> n"
  shows "parked ((bump D ^^ n) att) k"
proof -
  have "parked ((bump D ^^ n) att) k \<or> n \<le> failures ((bump D ^^ n) att) k" for n
  proof (induction n)
    case (Suc n)
    show ?case
    proof (cases "parked ((bump D ^^ n) att) k")
      case True
      then show ?thesis using bump_keeps_parked [OF True] by simp
    next
      case False
      with Suc bump_failures [OF assms(1), of "(bump D ^^ n) att"] show ?thesis by auto
    qed
  qed simp
  from this [of n] assms(2) show ?thesis by (auto simp: parked_iff)
qed

text \<open>The keys under which debits are due in a state.\<close>

definition revert_keys :: "codec \<Rightarrow> store \<Rightarrow> proposal_id set" where
  "revert_keys c st = {pid. \<exists>p. book c st pid = Some p \<and> p_status p = SettleFailed \<and> p_settlement_tx_hash p \<noteq> None}"

definition charge_keys :: "store \<Rightarrow> i64 set" where
  "charge_keys st = {pr_id row | row. row \<in> set (d_penalties (st_db st)) \<and> pr_penalty_tx_hash row = None}"

lemma pending_keys:
  assumes gd: "good c st" and m: "map (penalty_of_row c) (pending_rows (st_db st)) = map Inr pps"
  shows "pp_id ` set pps = charge_keys st"
proof -
  have "map pp_id pps = map pr_id (pending_rows (st_db st))"
  proof (rule read_keys [OF m])
    fix q assume "q \<in> set (pending_rows (st_db st))"
    then have "penalty_row_ok c q" using gd by (simp add: pending_rows_def good_def db_ok_def)
    then show "\<exists>pp. penalty_of_row c q = Inr pp \<and> pp_id pp = pr_id q" by (rule penalty_of_row_ok)
  qed
  then have "set (map pp_id pps) = set (map pr_id (pending_rows (st_db st)))" by simp
  then show ?thesis by (auto simp: charge_keys_def pending_rows_def)
qed

definition never_lands :: "(address \<Rightarrow> u256 \<Rightarrow> b256 \<Rightarrow> 'e \<Rightarrow> (debit_error + b256) \<times> 'e) \<Rightarrow> bool" where
  "never_lands debit \<longleftrightarrow> (\<forall>a amount reason e. \<exists>err. fst (debit a amount reason e) = Inl err)"

lemma never_landsE:
  assumes "never_lands debit"
  obtains err e' where "debit a amount reason e = (Inl err, e')"
  using assms unfolding never_lands_def by (metis prod.collapse)

lemma revert_one_fails:
  assumes "never_lands debit" and "revert_one cost debit c clk c_l p (att, e, st) = (att', e', st')"
  shows "st' = st \<and> att' = bump (if p_settlement_tx_hash p = None then {} else {p_id p}) att \<and>
    (parked att (p_id p) \<or> p_settlement_tx_hash p = None \<longrightarrow> e' = e)"
proof (cases "parked att (p_id p) \<or> p_settlement_tx_hash p = None")
  case True
  with assms(2) show ?thesis by (auto simp: revert_one_def bump_def fun_eq_iff split: if_splits)
next
  case False
  then obtain s where s: "p_settlement_tx_hash p = Some s" "\<not> parked att (p_id p)" by auto
  obtain r1 e1 where r1: "cost s e = (r1, e1)" by (cases "cost s e")
  obtain x e2 where r2: "debit (p_sub_solver p) (revert_debit (projr r1) c_l) s e1 = (Inl x, e2)"
    by (rule never_landsE [OF assms(1)])
  have "count_failure att (p_id p) = bump {p_id p} att" using s by (auto simp: bump_def count_failure_def fun_eq_iff)
  with assms(2) s r1 r2 show ?thesis by (cases r1) (auto simp: revert_one_def)
qed

lemma bump_bump: "A \<inter> B = {} \<Longrightarrow> bump B (bump A att) = bump (A \<union> B) att"
  by (auto simp: bump_def fun_eq_iff parked_def count_failure_def)

lemma revert_fold_fails:
  assumes "never_lands debit" and "distinct (map p_id ps)"
    and "fold (revert_one cost debit c clk c_l) ps (att, e, st) = (att', e', st')"
  shows "st' = st \<and> att' = bump {p_id p | p. p \<in> set ps \<and> p_settlement_tx_hash p \<noteq> None} att \<and>
    ((\<forall>p\<in>set ps. p_settlement_tx_hash p = None \<or> parked att (p_id p)) \<longrightarrow> e' = e)"
  using assms(2,3)
proof (induction ps arbitrary: att e st)
  case Nil
  then show ?case by (simp add: bump_def fun_eq_iff)
next
  case (Cons p ps)
  obtain att1 e1 st1 where one: "revert_one cost debit c clk c_l p (att, e, st) = (att1, e1, st1)"
    by (cases "revert_one cost debit c clk c_l p (att, e, st)")
  note r = revert_one_fails [OF assms(1) one]
  have dst: "distinct (map p_id ps)" "p_id p \<notin> p_id ` set ps" using Cons.prems(1) by simp_all
  have rest: "fold (revert_one cost debit c clk c_l) ps (att1, e1, st1) = (att', e', st')"
    using Cons.prems(2) one by simp
  note IH = Cons.IH [OF dst(1) rest]
  let ?A = "if p_settlement_tx_hash p = None then {} else {p_id p}"
  let ?B = "{p_id p | p. p \<in> set ps \<and> p_settlement_tx_hash p \<noteq> None}"
  have "?A \<inter> ?B = {}" using dst(2) by auto
  moreover have "?A \<union> ?B = {p_id p' | p'. p' \<in> set (p # ps) \<and> p_settlement_tx_hash p' \<noteq> None}" by auto
  moreover have "att' = bump ?B (bump ?A att)" using IH r by simp
  ultimately have "att' = bump {p_id p' | p'. p' \<in> set (p # ps) \<and> p_settlement_tx_hash p' \<noteq> None} att"
    by (simp only: bump_bump)
  moreover have "e' = e" if "\<forall>q\<in>set (p # ps). p_settlement_tx_hash q = None \<or> parked att (p_id q)"
  proof -
    have "e1 = e" using that r by auto
    moreover have "\<forall>q\<in>set ps. p_settlement_tx_hash q = None \<or> parked att1 (p_id q)"
      using that r bump_keeps_parked by (metis list.set_intros(2))
    ultimately show ?thesis using IH by simp
  qed
  moreover have "st' = st" using IH r by simp
  ultimately show ?case by blast
qed

lemma non_settlement_one_fails:
  assumes "never_lands debit" and "non_settlement_one debit keccak c clk c_l pp (att, e, st) = (att', e', st')"
  shows "st' = st \<and> att' = bump {pp_id pp} att \<and> (parked att (pp_id pp) \<longrightarrow> e' = e)"
proof (cases "parked att (pp_id pp)")
  case True
  with assms(2) show ?thesis by (auto simp: non_settlement_one_def bump_def fun_eq_iff)
next
  case False
  obtain x e1 where r: "debit (pp_sub_solver pp) (non_settlement_debit c_l) (keccak (uid_bytes (pp_order_uid pp))) e = (Inl x, e1)"
    by (rule never_landsE [OF assms(1)])
  have "count_failure att (pp_id pp) = bump {pp_id pp} att" using False by (auto simp: bump_def count_failure_def fun_eq_iff)
  with assms(2) False r show ?thesis by (auto simp: non_settlement_one_def Let_def)
qed

lemma non_settlement_fold_fails:
  assumes "never_lands debit" and "distinct (map pp_id ps)"
    and "fold (non_settlement_one debit keccak c clk c_l) ps (att, e, st) = (att', e', st')"
  shows "st' = st \<and> att' = bump (pp_id ` set ps) att \<and> ((\<forall>p\<in>set ps. parked att (pp_id p)) \<longrightarrow> e' = e)"
  using assms(2,3)
proof (induction ps arbitrary: att e st)
  case Nil
  then show ?case by (simp add: bump_def fun_eq_iff)
next
  case (Cons p ps)
  obtain att1 e1 st1 where one: "non_settlement_one debit keccak c clk c_l p (att, e, st) = (att1, e1, st1)"
    by (cases "non_settlement_one debit keccak c clk c_l p (att, e, st)")
  note r = non_settlement_one_fails [OF assms(1) one]
  have dst: "distinct (map pp_id ps)" "{pp_id p} \<inter> pp_id ` set ps = {}" using Cons.prems(1) by auto
  have rest: "fold (non_settlement_one debit keccak c clk c_l) ps (att1, e1, st1) = (att', e', st')"
    using Cons.prems(2) one by simp
  note IH = Cons.IH [OF dst(1) rest]
  have "att' = bump (pp_id ` set ps) (bump {pp_id p} att)" using IH r by simp
  then have "att' = bump (pp_id ` set (p # ps)) att" by (simp only: bump_bump [OF dst(2)]) simp
  moreover have "e' = e" if "\<forall>q\<in>set (p # ps). parked att (pp_id q)"
    using that r IH bump_keeps_parked by (metis list.set_intros)
  ultimately show ?case using IH r by blast
qed

text \<open>A tick in which no debit lands, over a database that answers.\<close>

lemma penalty_tick_fails:
  assumes n: "never_lands debit" and gd: "good c st" and "calm st"
    and run: "penalty_tick cost debit keccak c clk c_l (att, e, st) = (att', e', st')"
  shows "good c st' \<and> calm st' \<and> same_state st st' \<and>
    da_revert att' = bump (revert_keys c st) (da_revert att) \<and>
    da_non_settlement att' = bump (charge_keys st) (da_non_settlement att) \<and>
    ((\<forall>k\<in>revert_keys c st. parked (da_revert att) k) \<and> (\<forall>k\<in>charge_keys st. parked (da_non_settlement att) k)
       \<longrightarrow> e' = e)"
proof -
  obtain ps st1 where s1: "snapshot_by_statuses c [SettleFailed] st = (Inr ps, st1)" and g1: "good c st1" "calm st1"
      and same1: "same_state st st1" and ps: "stored_where c st (\<lambda>q. p_status q \<in> set [SettleFailed]) ps"
    by (rule calm_snapshot [OF gd assms(3)])
  obtain rs e1 sta where r: "fold (revert_one cost debit c clk c_l) ps (da_revert att, e, st1) = (rs, e1, sta)"
    by (cases "fold (revert_one cost debit c clk c_l) ps (da_revert att, e, st1)")
  have dst: "distinct (map p_id ps)" using ps by (simp add: stored_where_def)
  note rf = revert_fold_fails [OF n dst r]
  have P: "p \<in> set ps \<longleftrightarrow> book c st (p_id p) = Some p \<and> p_status p = SettleFailed" for p
    using ps by (auto simp: stored_where_def)
  have keys: "{p_id p | p. p \<in> set ps \<and> p_settlement_tx_hash p \<noteq> None} = revert_keys c st"
    unfolding revert_keys_def using P book_id [OF gd] by blast
  obtain x st2 where s2: "pending_penalties c st1 = (x, st2)" by (cases "pending_penalties c st1")
  note spec = wpD [OF wp_pending_penalties [OF g1(1)] s2]
  obtain pps where x: "x = Inr pps" using spec healthyD [OF healthy_pending g1(2) s2] by (cases x) auto
  have g2: "good c st2" "calm st2" "same_state st1 st2" using spec healthyD [OF healthy_pending g1(2) s2] by auto
  have m: "map (penalty_of_row c) (pending_rows (st_db st1)) = map Inr pps" using spec x by simp
  note pr = pending_rows_read [OF g1(1) m]
  have ids: "pp_id ` set pps = charge_keys st"
    using pending_keys [OF g1(1) m] same1 by (simp add: charge_keys_def same_state_def)
  obtain ns e2 stb where q: "fold (non_settlement_one debit keccak c clk c_l) pps (da_non_settlement att, e1, st2) = (ns, e2, stb)"
    by (cases "fold (non_settlement_one debit keccak c clk c_l) pps (da_non_settlement att, e1, st2)")
  note nf = non_settlement_fold_fails [OF n pr(1) q]
  have res: "att' = \<lparr>da_revert = rs, da_non_settlement = ns\<rparr>" "e' = e2" "st' = st2"
    using run s1 r rf s2 x q nf by (auto simp: penalty_tick_def revert_debits_def non_settlement_debits_def)
  have "same_state st st2" using same1 g2(3) by (simp add: same_state_def)
  moreover have "e' = e" if parked: "\<forall>k\<in>revert_keys c st. parked (da_revert att) k" "\<forall>k\<in>charge_keys st. parked (da_non_settlement att) k"
  proof -
    have "e1 = e" using rf parked(1) unfolding keys [symmetric] by blast
    with nf parked(2) show ?thesis unfolding ids [symmetric] res by blast
  qed
  ultimately show ?thesis using g2 rf nf keys ids res by simp
qed

lemma keys_same: "same_state st st' \<Longrightarrow> revert_keys c st' = revert_keys c st \<and> charge_keys st' = charge_keys st"
  by (simp add: same_state_def revert_keys_def charge_keys_def book_def)

lemma penalty_loop_fails:
  assumes n: "never_lands debit" and "good c st" and "calm st"
    and "penalty_loop cost debit keccak c c_l clks (att, e, st) = (att', e', st')"
  shows "good c st' \<and> calm st' \<and> same_state st st' \<and>
    da_revert att' = (bump (revert_keys c st) ^^ length clks) (da_revert att) \<and>
    da_non_settlement att' = (bump (charge_keys st) ^^ length clks) (da_non_settlement att) \<and>
    ((\<forall>k\<in>revert_keys c st. parked (da_revert att) k) \<and> (\<forall>k\<in>charge_keys st. parked (da_non_settlement att) k)
       \<longrightarrow> e' = e)"
  using assms(2-4) unfolding penalty_loop_def
proof (induction clks arbitrary: att e st)
  case (Cons clk clks)
  obtain att1 e1 st1 where one: "penalty_tick cost debit keccak c clk c_l (att, e, st) = (att1, e1, st1)"
    by (cases "penalty_tick cost debit keccak c clk c_l (att, e, st)")
  note t = penalty_tick_fails [OF n Cons.prems(1,2) one]
  have rest: "fold (\<lambda>clk. penalty_tick cost debit keccak c clk c_l) clks (att1, e1, st1) = (att', e', st')"
    using Cons.prems(3) one by simp
  have g: "good c st1" "calm st1" using t by blast+
  note IH = Cons.IH [OF g rest]
  have ks: "revert_keys c st1 = revert_keys c st" "charge_keys st1 = charge_keys st"
    using t keys_same [of st st1 c] by simp_all
  have "same_state st st'" using IH t by (simp add: same_state_def)
  with IH t ks show ?case by (simp add: funpow_swap1)
qed simp

text \<open>C30. A debit that cannot land is given up: while the database answers and no debit lands, after ten
  ticks the loop makes no further call to the chain, however long it runs, whatever the edge's failures
  look like; the stored proposals and the queue stay as they are.\<close>

theorem failing_debits_parked:
  assumes "never_lands debit" and "good c st" and "st_faults st = []" and "length clks = 10"
    and "penalty_loop cost debit keccak c c_l clks (att, e, st) = (att1, e1, st1)"
    and "penalty_loop cost debit keccak c c_l later (att1, e1, st1) = (att2, e2, st2)"
  shows "e2 = e1 \<and> att2 = att1 \<and> book c st2 = book c st \<and> d_penalties (st_db st2) = d_penalties (st_db st)"
proof -
  have "calm st" using assms(3) by (simp add: calm_def)
  note a = penalty_loop_fails [OF assms(1,2) this assms(5)]
  have g: "good c st1" "calm st1" using a by blast+
  note b = penalty_loop_fails [OF assms(1) g assms(6)]
  have ks: "revert_keys c st1 = revert_keys c st" "charge_keys st1 = charge_keys st"
    using a keys_same [of st st1 c] by simp_all
  have p: "\<forall>k\<in>revert_keys c st. parked (da_revert att1) k" "\<forall>k\<in>charge_keys st. parked (da_non_settlement att1) k"
    using a assms(4) by (auto intro: bumps_parked)
  have "da_revert att2 = da_revert att1" "da_non_settlement att2 = da_non_settlement att1"
    using b p by (simp_all add: ks bumps_stuck)
  moreover have "e2 = e1" using b p by (simp add: ks)
  moreover have "same_state st st2" using a b by (simp add: same_state_def)
  ultimately show ?thesis by (cases att1; cases att2) (simp add: same_state_def book_def)
qed

subsection \<open>Witnesses\<close>

definition silent_node :: node where
  "silent_node = \<lparr>n_receipt = (\<lambda>_. Inr None), n_send_debit = (\<lambda>_ _ _. Inl ''nonce too low'')\<rparr>"

theorem penalties_follow_debits_witness:
  "good std_codec (snd (snd (penalty_tick (operator_cost std_codec) (operator_send std_codec) (\<lambda>_. 0) std_codec sample_clock 100
     (no_attempts, ((\<lambda>_. silent_node), []), stored_sample SettleFailed))))"
proof -
  obtain att' ws' ds' st' where r: "penalty_tick (operator_cost std_codec) (operator_send std_codec) (\<lambda>_. 0) std_codec sample_clock 100
     (no_attempts, ((\<lambda>_. silent_node), []), stored_sample SettleFailed) = (att', (ws', ds'), st')"
    by (metis prod.collapse)
  have "receipts_true (\<lambda>_. None) ((\<lambda>_. silent_node), [])" by (simp add: receipts_true_def silent_node_def)
  from penalties_follow_debits [OF sample_facts this r] show ?thesis by (simp add: r)
qed

text \<open>An edge that prices every settlement at 5 wei, never lands a debit and counts its calls.\<close>

theorem failing_debits_parked_witness:
  "\<exists>calls. \<forall>n. fst (snd (penalty_loop (\<lambda>_ e. (Inr 5, Suc e)) (\<lambda>_ _ _ e. (Inl (Transient ''paused''), Suc e)) (\<lambda>_. 0) std_codec 100
      (replicate n sample_clock)
      (penalty_loop (\<lambda>_ e. (Inr 5, Suc e)) (\<lambda>_ _ _ e. (Inl (Transient ''paused''), Suc e)) (\<lambda>_. 0) std_codec 100
         (replicate 10 sample_clock) (no_attempts, 0, stored_sample SettleFailed)))) = calls"
proof -
  let ?cost = "\<lambda>(_ :: b256) e. (Inr 5 :: debit_error + u256, Suc e)"
  let ?debit = "\<lambda>(_ :: address) (_ :: u256) (_ :: b256) e. (Inl (Transient ''paused'') :: debit_error + b256, Suc e)"
  obtain att e st where r: "penalty_loop ?cost ?debit (\<lambda>_. 0) std_codec 100 (replicate 10 sample_clock)
      (no_attempts, 0, stored_sample SettleFailed) = (att, e, st)" by (metis prod.collapse)
  have "never_lands ?debit" by (simp add: never_lands_def)
  moreover have "st_faults (stored_sample SettleFailed) = []" by (simp add: stored_sample_def)
  ultimately have "fst (snd (penalty_loop ?cost ?debit (\<lambda>_. 0) std_codec 100 (replicate n sample_clock) (att, e, st))) = e" for n
    using failing_debits_parked [OF _ good_sample _ _ r] by (metis fst_conv length_replicate prod.collapse snd_conv)
  then show ?thesis unfolding r by blast
qed

end
