(* ===== verification/Notify.thy ===== *)
theory Notify
  imports Store_Properties
begin

text \<open>
  The driver's notifications (\<open>infra/api/notify.rs\<close>): attribution of a report to proposals through the
  \<open>solutions\<close> table, the vocabulary of outcomes, and the handler. Log lines are not modelled; one reading
  of the clocks serves one handler.
\<close>

datatype solution_ids = Single u64 | Merged "u64 list"

record notification =
  nt_auction_id :: "string option"
  nt_solution_id :: "solution_ids option"
  nt_kind :: string
  nt_transaction :: "b256 option"

definition outcome_of :: "notification \<Rightarrow> settlement_outcome option" where
  "outcome_of n =
     (if nt_kind n = ''settlementStarted'' then Some Started
      else if nt_kind n = ''success'' then map_option Succeeded (nt_transaction n)
      else if nt_kind n = ''revert'' then map_option Reverted (nt_transaction n)
      else if nt_kind n \<in> {''cancelled'', ''expired'', ''fail''} then Some Abandoned
      else None)"

definition is_outcome :: "string \<Rightarrow> bool" where
  "is_outcome k \<longleftrightarrow>
     k \<in> {''settlementStarted'', ''success'', ''revert'', ''cancelled'', ''expired'', ''fail''}"

definition ids_of :: "solution_ids \<Rightarrow> u64 list" where
  "ids_of ids = (case ids of Single i \<Rightarrow> [i] | Merged many \<Rightarrow> many)"

definition attributed_proposals :: "codec \<Rightarrow> notification \<Rightarrow> store \<Rightarrow> proposal list \<times> store" where
  "attributed_proposals c n st =
     (case (Option.bind (nt_auction_id n) parse_i64, map_option ids_of (nt_solution_id n)) of
        (Some auction_id, Some solution_ids) \<Rightarrow>
          (case solution_proposals c auction_id solution_ids st of
             (Inr ps, st') \<Rightarrow> (ps, st')
           | (Inl e, st') \<Rightarrow> ([], st'))
      | _ \<Rightarrow> ([], st))"

fun note_all :: "clock \<Rightarrow> string \<Rightarrow> proposal list \<Rightarrow> store \<Rightarrow> store" where
  "note_all clk k [] st = st"
| "note_all clk k (p # ps) st = note_all clk k ps (snd (note_driver_notification clk p k st))"

fun apply_outcomes :: "codec \<Rightarrow> clock \<Rightarrow> string \<Rightarrow> settlement_outcome \<Rightarrow> proposal list \<Rightarrow> store \<Rightarrow> store" where
  "apply_outcomes c clk k oc [] st = st"
| "apply_outcomes c clk k oc (p # ps) st =
     (case apply_settlement_outcome c clk p oc st of
        (Inr (Applied from to), st') \<Rightarrow> apply_outcomes c clk k oc ps st'
      | (Inr (Ignored from), st') \<Rightarrow>
          apply_outcomes c clk k oc ps (snd (note_driver_notification clk p k st'))
      | (Inl e, st') \<Rightarrow> apply_outcomes c clk k oc ps st')"

text \<open>The status code, and the store the handler leaves.\<close>

definition notify :: "codec \<Rightarrow> clock \<Rightarrow> notification \<Rightarrow> store \<Rightarrow> nat \<times> store" where
  "notify c clk n st =
     (case attributed_proposals c n st of
        (ps, st') \<Rightarrow>
          if ps = [] then (200, st')
          else case outcome_of n of
                 None \<Rightarrow> (200, note_all clk (nt_kind n) ps st')
               | Some oc \<Rightarrow> (200, apply_outcomes c clk (nt_kind n) oc ps st'))"

subsection \<open>What a notification names\<close>

definition attributed :: "db \<Rightarrow> notification \<Rightarrow> proposal_id \<Rightarrow> bool" where
  "attributed d n pid \<longleftrightarrow>
     (\<exists>text a ids s i. nt_auction_id n = Some text \<and> parse_i64 text = Some a \<and> nt_solution_id n = Some ids \<and>
        s \<in> set (ids_of ids) \<and> i64_of_u64 s = Some i \<and> solution_of d a i = Some (uint (pid_raw pid)))"

lemma attributed_result:
  assumes gd: "good c st" and run: "attributed_proposals c n st = (ps, st1)"
  shows "good c st1 \<and> same_state st st1 \<and>
    (\<forall>p\<in>set ps. book c st (p_id p) = Some p \<and> attributed (st_db st) n (p_id p))"
proof (cases "(Option.bind (nt_auction_id n) parse_i64, map_option ids_of (nt_solution_id n))")
  case (Pair a ids)
  show ?thesis
  proof (cases "a = None \<or> ids = None")
    case True
    then show ?thesis using run gd Pair by (auto simp: attributed_proposals_def split: option.splits)
  next
    case False
    then obtain a' sids where ai: "a = Some a'" "ids = Some sids" by auto
    obtain r where r: "solution_proposals c a' sids st = (r, st1)" "ps = (case r of Inr ps \<Rightarrow> ps | Inl _ \<Rightarrow> [])"
      using run Pair ai by (auto simp: attributed_proposals_def split: prod.splits sum.splits)
    from wpD [OF wp_solution_proposals [OF gd] r(1)] r(2) Pair ai show ?thesis
      by (fastforce simp: read_result_def attributed_def bind_eq_Some_conv split: sum.splits)
  qed
qed

subsection \<open>The loop over the attributed proposals\<close>

lemma outcome_target_once: "outcome_target oc from = Some to \<Longrightarrow> outcome_target oc to = None"
  by (cases "(oc, from)" rule: outcome_target.cases) auto

lemma note_effect:
  assumes gd: "good c st"
  shows "good c (snd (note_driver_notification clk p k st)) \<and>
    st_db (snd (note_driver_notification clk p k st)) = st_db st \<and>
    st_audit (snd (note_driver_notification clk p k st)) = st_audit st @
      [event (wall_now clk) (DriverNotified (p_id p) (p_sub_solver p) (p_order_uid p) k)]"
  using gd by (simp add: note_driver_notification_def emit_def good_def reliable_def event_def)

lemma note_all_effect:
  assumes "good c st"
  shows "good c (note_all clk k ps st) \<and> st_db (note_all clk k ps st) = st_db st \<and>
    st_audit (note_all clk k ps st) = st_audit st @
      map (\<lambda>p. event (wall_now clk) (DriverNotified (p_id p) (p_sub_solver p) (p_order_uid p) k)) ps"
  using assms
proof (induction ps arbitrary: st)
  case (Cons p ps)
  note n = note_effect [OF Cons.prems, of clk p k]
  from Cons.IH [OF n [THEN conjunct1]] n show ?case by simp
qed simp

text \<open>One application, read on the stored proposals.\<close>

definition outcome_effect_on :: "codec \<Rightarrow> settlement_outcome \<Rightarrow> proposal_id \<Rightarrow> store \<Rightarrow> store \<Rightarrow> bool" where
  "outcome_effect_on c oc pid st st' \<longleftrightarrow> good c st' \<and>
     d_solutions (st_db st') = d_solutions (st_db st) \<and> d_next_proposal (st_db st') = d_next_proposal (st_db st) \<and>
     (\<exists>ks. map ae_kind (st_audit st') = map ae_kind (st_audit st) @ ks \<and> (\<forall>k\<in>set ks. kind_proposal_id k = pid)) \<and>
     (book c st' = book c st \<and> d_penalties (st_db st') = d_penalties (st_db st) \<or>
      (\<exists>q to x. book c st pid = Some q \<and> outcome_target oc (p_status q) = Some to \<and>
         book c st' = (book c st)(pid \<mapsto> with_outcome to (outcome_tx oc) q) \<and>
         d_penalties (st_db st') = d_penalties (st_db st) @ (if oc = Abandoned then [x] else []) \<and>
         (oc = Abandoned \<longrightarrow> pr_proposal_id x = uint (pid_raw pid))))"

lemma apply_outcome_effect:
  assumes gd: "good c st" and c: "codec_ok c" and u: "uid_ok (p_order_uid p)"
  shows "case apply_settlement_outcome c clk p oc st of
      (Inr (Ignored from), st') \<Rightarrow> outcome_effect_on c oc (p_id p) st (snd (note_driver_notification clk p k st'))
    | (_, st') \<Rightarrow> outcome_effect_on c oc (p_id p) st st'"
proof -
  obtain r st' where run: "apply_settlement_outcome c clk p oc st = (r, st')"
    by (cases "apply_settlement_outcome c clk p oc st")
  note spec = wpD [OF wp_apply_settlement_outcome [OF gd c u] run]
  show ?thesis
  proof (cases r)
    case (Inl e)
    with spec run show ?thesis by (auto simp: outcome_effect_on_def same_state_def book_def)
  next
    case (Inr eff)
    show ?thesis
    proof (cases eff)
      case (Ignored fr)
      with spec Inr have s: "good c st'" "same_state st st'" by auto
      with note_effect [OF s(1), of clk p k] Inr Ignored run show ?thesis
        by (auto simp: outcome_effect_on_def same_state_def book_def event_def)
    next
      case (Applied fr to)
      with spec Inr obtain q where q: "p_id q = p_id p" "p_status q = fr" "outcome_target oc fr = Some to"
        "moved c st st' q (with_outcome to (outcome_tx oc) q) [event (wall_now clk)
          (StatusChanged (p_id p) (p_sub_solver p) (p_order_uid p) fr to None (outcome_tx oc))]"
        "good c st'" "d_penalties (st_db st') = d_penalties (st_db st) @ queued_charge c (st_db st) p oc" by auto
      with run Inr Applied show ?thesis
        by (auto simp: outcome_effect_on_def moved_def queued_charge_def event_def)
    qed
  qed
qed

lemma apply_outcomes_induct:
  assumes "good c st" and "codec_ok c" and "\<forall>p\<in>set ps. uid_ok (p_order_uid p)" and "J st"
    and step: "\<And>p st st'. p \<in> set ps \<Longrightarrow> good c st \<Longrightarrow> outcome_effect_on c oc (p_id p) st st' \<Longrightarrow> J st \<Longrightarrow> J st'"
  shows "good c (apply_outcomes c clk k oc ps st) \<and> J (apply_outcomes c clk k oc ps st)"
  using assms
proof (induction ps arbitrary: st)
  case (Cons p ps)
  have u: "uid_ok (p_order_uid p)" using Cons.prems(3) by simp
  obtain st1 where st1: "outcome_effect_on c oc (p_id p) st st1"
      "apply_outcomes c clk k oc (p # ps) st = apply_outcomes c clk k oc ps st1"
    using apply_outcome_effect [OF Cons.prems(1,2) u, where clk = clk and oc = oc and k = k]
    by (auto split: prod.splits sum.splits outcome_effect.splits)
  have g1: "good c st1" using st1(1) by (simp add: outcome_effect_on_def)
  have "J st1" using Cons.prems(5) [of p st st1] Cons.prems(1,4) st1(1) by simp
  with Cons.IH [OF g1 Cons.prems(2)] Cons.prems(3,5) show ?case unfolding st1(2) by (metis list.set_intros(2))
qed simp

text \<open>From the stored proposals before the loop to those after it: each has moved at most once.\<close>

definition moved_by :: "codec \<Rightarrow> settlement_outcome \<Rightarrow> (proposal_id \<Rightarrow> bool) \<Rightarrow> store \<Rightarrow> store \<Rightarrow> bool" where
  "moved_by c oc A st st' \<longleftrightarrow>
     d_solutions (st_db st') = d_solutions (st_db st) \<and> d_next_proposal (st_db st') = d_next_proposal (st_db st) \<and>
     (\<exists>ks. map ae_kind (st_audit st') = map ae_kind (st_audit st) @ ks \<and> (\<forall>k\<in>set ks. A (kind_proposal_id k))) \<and>
     (\<forall>pid. book c st' pid = book c st pid \<or>
        (A pid \<and> (\<exists>q to. book c st pid = Some q \<and> outcome_target oc (p_status q) = Some to \<and>
           book c st' pid = Some (with_outcome to (outcome_tx oc) q))))"

lemma moved_by_step:
  assumes m: "moved_by c oc A st0 st" and e: "outcome_effect_on c oc pid st st'" and A: "A pid"
  shows "moved_by c oc A st0 st'"
proof -
  obtain ks ks' where ks: "map ae_kind (st_audit st) = map ae_kind (st_audit st0) @ ks" "\<forall>k\<in>set ks. A (kind_proposal_id k)"
      "map ae_kind (st_audit st') = map ae_kind (st_audit st) @ ks'" "\<forall>k\<in>set ks'. kind_proposal_id k = pid"
    using m e unfolding moved_by_def outcome_effect_on_def by blast
  then have trail: "map ae_kind (st_audit st') = map ae_kind (st_audit st0) @ (ks @ ks')"
      "\<forall>k\<in>set (ks @ ks'). A (kind_proposal_id k)" using A by auto
  have b: "book c st' i = book c st0 i \<or>
      (A i \<and> (\<exists>q to. book c st0 i = Some q \<and> outcome_target oc (p_status q) = Some to \<and>
         book c st' i = Some (with_outcome to (outcome_tx oc) q)))" for i
  proof (cases "i = pid \<and> book c st' pid \<noteq> book c st pid")
    case False
    then have "book c st' i = book c st i" using e by (auto simp: outcome_effect_on_def)
    then show ?thesis using m by (simp add: moved_by_def)
  next
    case True
    then obtain q to where q: "book c st pid = Some q" "outcome_target oc (p_status q) = Some to"
      "book c st' pid = Some (with_outcome to (outcome_tx oc) q)"
      using e by (auto simp: outcome_effect_on_def)
    from m have "book c st pid = book c st0 pid \<or> (\<exists>q0 to0. book c st0 pid = Some q0 \<and>
        outcome_target oc (p_status q0) = Some to0 \<and> book c st pid = Some (with_outcome to0 (outcome_tx oc) q0))"
      unfolding moved_by_def by blast
    then show ?thesis
    proof
      assume "book c st pid = book c st0 pid"
      with q True A show ?thesis by auto
    next
      assume "\<exists>q0 to0. book c st0 pid = Some q0 \<and> outcome_target oc (p_status q0) = Some to0 \<and>
        book c st pid = Some (with_outcome to0 (outcome_tx oc) q0)"
      then obtain q0 to0 where "outcome_target oc (p_status q0) = Some to0"
        "q = with_outcome to0 (outcome_tx oc) q0" using q(1) by auto
      with q(2) outcome_target_once show ?thesis by (auto simp: with_outcome_def)
    qed
  qed
  show ?thesis unfolding moved_by_def
  proof (intro conjI)
    show "d_solutions (st_db st') = d_solutions (st_db st0)" "d_next_proposal (st_db st') = d_next_proposal (st_db st0)"
      using m e by (simp_all add: moved_by_def outcome_effect_on_def)
  qed (use trail b in blast)+
qed

lemma attributed_uids:
  assumes "good c st" and "\<forall>p\<in>set ps. book c st (p_id p) = Some p \<and> X p"
  shows "\<forall>p\<in>set ps. uid_ok (p_order_uid p)"
  using assms by (auto elim: book_row)

text \<open>C28. A notification moves only what it names: the handler answers 200 whatever happens, emits
  evidence only about proposals the solutions table attributes to the reported auction and solution,
  and changes only such proposals, each at most once and along the legality table from its status
  before the notification. A report that names no outcome, or an outcome without its transaction,
  changes no proposal at all.\<close>

theorem notification_moves_attributed:
  assumes "good c st" and "codec_ok c" and "notify c clk n st = (code, st')"
  shows "code = 200 \<and> good c st' \<and> d_solutions (st_db st') = d_solutions (st_db st) \<and>
    (\<exists>ks. map ae_kind (st_audit st') = map ae_kind (st_audit st) @ ks \<and>
       (\<forall>k\<in>set ks. attributed (st_db st) n (kind_proposal_id k))) \<and>
    (\<forall>pid. book c st' pid = book c st pid \<or>
       (attributed (st_db st) n pid \<and>
        (\<exists>q oc to. book c st pid = Some q \<and> outcome_of n = Some oc \<and> outcome_target oc (p_status q) = Some to \<and>
           book c st' pid = Some (with_outcome to (outcome_tx oc) q))))"
proof -
  obtain ps st1 where a: "attributed_proposals c n st = (ps, st1)" by (cases "attributed_proposals c n st")
  note at = attributed_result [OF assms(1) a]
  have same: "st_db st1 = st_db st" "st_audit st1 = st_audit st" "book c st1 = book c st"
    using at by (simp_all add: same_state_def book_def)
  show ?thesis
  proof (cases "ps = [] \<or> outcome_of n = None")
    case True
    have "st' = (if ps = [] then st1 else note_all clk (nt_kind n) ps st1)" "code = 200"
      using assms(3) a True by (auto simp: notify_def split: if_splits)
    with note_all_effect [of c st1 clk "nt_kind n" ps] at same show ?thesis
      by (auto simp: book_def event_def comp_def)
  next
    case False
    then obtain oc where oc: "outcome_of n = Some oc" by auto
    then have st': "st' = apply_outcomes c clk (nt_kind n) oc ps st1" "code = 200"
      using assms(3) a False by (auto simp: notify_def)
    have u: "\<forall>p\<in>set ps. uid_ok (p_order_uid p)" using attributed_uids [OF assms(1)] at by blast
    have "good c st' \<and> moved_by c oc (attributed (st_db st) n) st1 st'"
      unfolding st'(1)
    proof (rule apply_outcomes_induct [OF _ assms(2) u])
      show "good c st1" using at by simp
      show "moved_by c oc (attributed (st_db st) n) st1 st1" by (simp add: moved_by_def)
    next
      fix p sta stb assume "p \<in> set ps" "outcome_effect_on c oc (p_id p) sta stb"
        "moved_by c oc (attributed (st_db st) n) st1 sta"
      with at show "moved_by c oc (attributed (st_db st) n) st1 stb" by (blast intro: moved_by_step)
    qed
    with oc st'(2) same show ?thesis by (auto simp: moved_by_def)
  qed
qed

subsection \<open>Charging an abandonment\<close>

text \<open>The charges queued against a proposal, and one more while it may still be charged.\<close>

definition charges :: "store \<Rightarrow> proposal_id \<Rightarrow> nat" where
  "charges st pid = length (filter (\<lambda>x. pr_proposal_id x = uint (pid_raw pid)) (d_penalties (st_db st)))"

definition executing :: "codec \<Rightarrow> store \<Rightarrow> proposal_id \<Rightarrow> bool" where
  "executing c st pid \<longleftrightarrow> (\<exists>q. book c st pid = Some q \<and> p_status q = Executing)"

definition chargeable :: "codec \<Rightarrow> store \<Rightarrow> proposal_id \<Rightarrow> nat" where
  "chargeable c st pid = charges st pid + (if executing c st pid then 1 else 0)"

lemma chargeable_step:
  assumes e: "outcome_effect_on c oc i st st'" and oc: "oc \<noteq> Started"
  shows "chargeable c st' pid \<le> chargeable c st pid"
proof (cases "book c st' = book c st \<and> d_penalties (st_db st') = d_penalties (st_db st)")
  case True
  then show ?thesis by (simp add: chargeable_def charges_def executing_def)
next
  case False
  then obtain q to x where q: "book c st i = Some q" "outcome_target oc (p_status q) = Some to"
      "book c st' = (book c st)(i \<mapsto> with_outcome to (outcome_tx oc) q)"
      "d_penalties (st_db st') = d_penalties (st_db st) @ (if oc = Abandoned then [x] else [])"
      "oc = Abandoned \<longrightarrow> pr_proposal_id x = uint (pid_raw i)"
    using e unfolding outcome_effect_on_def by blast
  have tgt: "to \<noteq> Executing" "oc = Abandoned \<Longrightarrow> p_status q = Executing"
    using q(2) oc by (cases "(oc, p_status q)" rule: outcome_target.cases; simp)+
  have ids: "uint (pid_raw i) = uint (pid_raw pid) \<longleftrightarrow> i = pid" by (rule uint_pid_eq_iff)
  show ?thesis
    using q tgt ids by (cases "i = pid"; cases "oc = Abandoned")
      (auto simp: chargeable_def charges_def executing_def with_outcome_def)
qed

fun notify_all :: "codec \<Rightarrow> clock \<Rightarrow> notification list \<Rightarrow> store \<Rightarrow> store" where
  "notify_all c clk [] st = st"
| "notify_all c clk (n # ns) st = notify_all c clk ns (snd (notify c clk n st))"

lemma notify_chargeable:
  assumes gd: "good c st" and c: "codec_ok c" and n: "nt_kind n \<noteq> ''settlementStarted''"
  shows "chargeable c (snd (notify c clk n st)) pid \<le> chargeable c st pid \<and> good c (snd (notify c clk n st))"
proof -
  obtain ps st1 where a: "attributed_proposals c n st = (ps, st1)" by (cases "attributed_proposals c n st")
  note at = attributed_result [OF gd a]
  have same: "chargeable c st1 pid = chargeable c st pid"
    using at by (simp add: same_state_def book_def chargeable_def charges_def executing_def)
  show ?thesis
  proof (cases "ps = [] \<or> outcome_of n = None")
    case True
    have "snd (notify c clk n st) = (if ps = [] then st1 else note_all clk (nt_kind n) ps st1)"
      using a True by (auto simp: notify_def)
    with note_all_effect [of c st1 clk "nt_kind n" ps] at same show ?thesis
      by (auto simp: chargeable_def charges_def executing_def book_def)
  next
    case False
    then obtain oc where oc: "outcome_of n = Some oc" by auto
    then have "oc \<noteq> Started" using n by (auto simp: outcome_of_def split: if_splits)
    have u: "\<forall>p\<in>set ps. uid_ok (p_order_uid p)" using attributed_uids [OF gd] at by blast
    have "good c (apply_outcomes c clk (nt_kind n) oc ps st1) \<and>
        chargeable c (apply_outcomes c clk (nt_kind n) oc ps st1) pid \<le> chargeable c st pid"
      by (rule apply_outcomes_induct [OF _ c u])
        (use at same chargeable_step [OF _ \<open>oc \<noteq> Started\<close>, of c _ _ _ pid] in \<open>auto dest: order_trans\<close>)
    moreover have "snd (notify c clk n st) = apply_outcomes c clk (nt_kind n) oc ps st1"
      using a oc False by (auto simp: notify_def)
    ultimately show ?thesis by simp
  qed
qed

text \<open>C29. An abandonment is charged at most once: over any number of notifications none of which reports
  a new submission, a proposal gains at most one queued charge in total, and none at all unless it was
  \<open>Executing\<close> at the start - however often the driver repeats a report, under whatever solution ids,
  and whichever database calls fail in between.\<close>

theorem abandonment_charged_once:
  assumes "good c st" and "codec_ok c" and "\<forall>n\<in>set ns. nt_kind n \<noteq> ''settlementStarted''"
  shows "charges (notify_all c clk ns st) pid \<le> charges st pid + (if executing c st pid then 1 else 0)"
proof -
  have "chargeable c (notify_all c clk ns st) pid \<le> chargeable c st pid"
    using assms
  proof (induction ns arbitrary: st)
    case (Cons n ns)
    have n: "nt_kind n \<noteq> ''settlementStarted''" using Cons.prems(3) by simp
    note step = notify_chargeable [OF Cons.prems(1,2) n, of clk pid]
    have "chargeable c (notify_all c clk ns (snd (notify c clk n st))) pid \<le> chargeable c (snd (notify c clk n st)) pid"
      by (rule Cons.IH) (use step Cons.prems in auto)
    with step show ?case by simp
  qed simp
  then show ?thesis by (simp add: chargeable_def)
qed

subsection \<open>Witnesses\<close>

definition sample_notification :: "string \<Rightarrow> notification" where
  "sample_notification k = \<lparr>nt_auction_id = Some ''7'', nt_solution_id = Some (Single 1), nt_kind = k, nt_transaction = None\<rparr>"

theorem notification_moves_attributed_witness:
  "fst (notify std_codec sample_clock (sample_notification ''settlementStarted'') (stored_sample Active)) = 200"
  using notification_moves_attributed [OF sample_facts, of sample_clock "sample_notification ''settlementStarted''" Active]
  by (cases "notify std_codec sample_clock (sample_notification ''settlementStarted'') (stored_sample Active)") simp

theorem abandonment_charged_once_witness:
  "charges (notify_all std_codec sample_clock [sample_notification ''fail'', sample_notification ''fail'']
     (stored_sample Executing)) (ProposalId 1) \<le> 1"
  using abandonment_charged_once [OF sample_facts, where clk = sample_clock and pid = "ProposalId 1"
      and ns = "[sample_notification ''fail'', sample_notification ''fail'']", of Executing]
  by (simp add: sample_notification_def charges_def stored_sample_def split: if_splits)

end
