(* ===== verification/Collection.thy ===== *)
theory Collection
  imports Penalty_Loop Notify
begin

text \<open>
  What is owed is collected: while the database answers, a report of the driver is carried out on every
  proposal it names, and while the escrow answers too, one pass of the penalty loop debits everything
  that is due. Together: a reverted settlement costs its sub-solver the gas and the collateral.
\<close>

subsection \<open>Reports are carried out\<close>

definition ends_calm :: "'a action \<Rightarrow> store \<Rightarrow> bool" where
  "ends_calm m st \<longleftrightarrow> calm (snd (m st)) \<and> (\<forall>x. fst (m st) \<noteq> Inl (Database x))"

lemma healthy_ends_calm: "healthy m \<Longrightarrow> calm st \<Longrightarrow> ends_calm m st"
  by (simp add: healthy_def ends_calm_def)

lemma ends_calm_act:
  assumes "ends_calm m st" and "\<And>a st'. m st = (Inr a, st') \<Longrightarrow> calm st' \<Longrightarrow> ends_calm (k a) st'"
  shows "ends_calm (act m k) st"
  using assms by (cases "m st"; cases "fst (m st)") (auto simp: ends_calm_def act_def)

lemma ends_calm_in_tx:
  assumes "calm st" and "ends_calm body st"
  shows "ends_calm (in_tx body) st"
proof -
  have opened: "stmt (\<lambda>d. Inr ((), d)) st = (Inr (), st)" using assms(1) by (cases st) (simp add: calm_stmt)
  obtain r st2 where r: "body st = (r, st2)" by (cases "body st")
  then have c: "calm (st2\<lparr>st_db := st_db st\<rparr>)" "calm st2" "\<forall>x. r \<noteq> Inl (Database x)"
    using assms(2) by (simp_all add: ends_calm_def calm_def)
  from c(2,3) show ?thesis
    by (cases r) (auto simp: ends_calm_def in_tx_def opened r calm_stmt [OF c(1)] calm_def split: tx_end.splits)
qed

text \<open>Only the sequence of the queue could still fail.\<close>

lemma ends_calm_outcome:
  assumes "calm st" and "d_next_penalty (st_db st) \<le> i64_max"
  shows "ends_calm (apply_settlement_outcome c clk p oc) st"
proof -
  have same: "st_db st' = st_db st" if "locked_row pid st = (Inr r, st')" for pid r st'
    using that assms(1)
    by (auto simp: locked_row_def act_def select_row_def lift_def fail_def done_with_def calm_stmt split: sum.splits option.splits)
  have pen: "ends_calm (stmt (insert_penalty i a u)) st2" if "calm st2" "d_next_penalty (st_db st2) \<le> i64_max" for i a u st2
    using that by (simp add: ends_calm_def calm_stmt insert_penalty_def Let_def calm_def)
  have locked: "healthy (locked_row pid)" for pid
    unfolding locked_row_def select_row_def by (intro healthy_rules) (auto intro!: healthy_rules split: option.splits)
  have "ends_calm (outcome_body c clk p oc) st"
    unfolding outcome_body_def
  proof (rule ends_calm_act [OF healthy_ends_calm [OF locked assms(1)]])
    fix r st1 assume r: "locked_row (p_id p) st = (Inr r, st1)" "calm st1"
    have n1: "d_next_penalty (st_db st1) \<le> i64_max" using same [OF r(1)] assms(2) by simp
    show "ends_calm (act (lift (parse_column ''status'' (parse_status (r_status r)))) (\<lambda>from.
     case outcome_target oc from of
       None \<Rightarrow> done_with (Rollback (Ignored from))
     | Some to \<Rightarrow>
         act (stmt (\<lambda>d. Inr (update_rows (\<lambda>r'. r_id r' = r_id r)
                (\<lambda>r'. r'\<lparr>r_status := status_text to,
                         r_settlement_tx_hash :=
                           coalesce (map_option (b256_text c) (outcome_tx oc)) (r_settlement_tx_hash r'),
                         r_status_changed_at := db_now clk\<rparr>) d))) (\<lambda>_.
         act (if oc = Abandoned
              then stmt (insert_penalty (r_id r) (addr_text c (p_sub_solver p)) (uid_text c (p_order_uid p)))
              else done_with ()) (\<lambda>_.
           done_with (Commit (Applied from to)))))) st1"
    proof (rule ends_calm_act, goal_cases)
      case 1
      show ?case by (rule healthy_ends_calm [OF healthy_lift r(2)]) simp
    next
      case (2 fr st2)
      then have st2: "st2 = st1" by (simp add: lift_def)
      show ?case
      proof (cases "outcome_target oc fr")
        case None
        then show ?thesis using healthy_ends_calm [OF healthy_done 2(2)] by simp
      next
        case (Some to)
        then show ?thesis
          using n1 2(2)
          by (auto simp: st2 update_rows_def calm_stmt calm_def
              intro!: ends_calm_act healthy_ends_calm [OF healthy_stmt] healthy_ends_calm [OF healthy_done] pen)
      qed
    qed
  qed
  from ends_calm_in_tx [OF assms(1) this] show ?thesis
    unfolding apply_settlement_outcome_def
    by (rule ends_calm_act) (auto intro!: healthy_ends_calm healthy_rules split: outcome_effect.splits)
qed

text \<open>What an outcome makes of a stored proposal.\<close>

definition carried_out :: "settlement_outcome \<Rightarrow> proposal \<Rightarrow> proposal" where
  "carried_out oc q = (case outcome_target oc (p_status q) of None \<Rightarrow> q | Some to \<Rightarrow> with_outcome to (outcome_tx oc) q)"

lemma carried_out_twice: "carried_out oc (carried_out oc q) = carried_out oc q"
  using outcome_target_once [of oc "p_status q"] by (auto simp: carried_out_def with_outcome_def split: option.splits)

definition room :: "nat \<Rightarrow> store \<Rightarrow> bool" where
  "room n st \<longleftrightarrow> d_next_penalty (st_db st) + int n \<le> i64_max + 1"

lemma calm_outcome:
  assumes gd: "good c st" and c: "codec_ok c" and u: "uid_ok (p_order_uid p)" and calm: "calm st" and "room 1 st"
    and b: "book c st (p_id p) = Some q" and run: "apply_settlement_outcome c clk p oc st = (r, st')"
  shows "good c st' \<and> calm st' \<and> book c st' = (book c st)(p_id p \<mapsto> carried_out oc q) \<and>
    r = Inr (case outcome_target oc (p_status q) of None \<Rightarrow> Ignored (p_status q) | Some to \<Rightarrow> Applied (p_status q) to)"
proof -
  have e: "ends_calm (apply_settlement_outcome c clk p oc) st"
    by (rule ends_calm_outcome [OF calm]) (use assms(5) in \<open>simp add: room_def\<close>)
  then have e': "calm st'" "\<forall>x. r \<noteq> Inl (Database x)" using run by (simp_all add: ends_calm_def)
  note spec = wpD [OF wp_apply_settlement_outcome [OF gd c u] run]
  show ?thesis
  proof (cases r)
    case (Inl err)
    with spec b e'(2) show ?thesis by (auto simp: outcome_error_def)
  next
    case (Inr eff)
    show ?thesis
    proof (cases eff)
      case (Ignored fr)
      with Inr spec b have "fr = p_status q" "outcome_target oc (p_status q) = None" "same_state st st'" "good c st'" by auto
      with Inr Ignored e'(1) b show ?thesis by (auto simp: carried_out_def same_state_def book_def fun_upd_idem)
    next
      case (Applied fr to)
      with Inr spec obtain q' evs where q': "p_id q' = p_id p" "p_status q' = fr"
          "moved c st st' q' (with_outcome to (outcome_tx oc) q') evs" "outcome_target oc fr = Some to" "good c st'" by auto
      then have "q' = q" using b by (simp add: moved_def)
      with q' Inr Applied e'(1) show ?thesis by (simp add: carried_out_def moved_def)
    qed
  qed
qed

text \<open>The queue's sequence advances by at most one.\<close>

definition advances :: "int \<Rightarrow> 'a action \<Rightarrow> bool" where
  "advances n m \<longleftrightarrow> 0 \<le> n \<and> (\<forall>st. d_next_penalty (st_db (snd (m st))) \<le> d_next_penalty (st_db st) + n)"

lemma advancesD: "advances n m \<Longrightarrow> m st = (r, st') \<Longrightarrow> d_next_penalty (st_db st') \<le> d_next_penalty (st_db st) + n"
  by (metis advances_def snd_conv)

lemma advances_act:
  assumes "advances n m" and "\<And>a. advances k (f a)"
  shows "advances (n + k) (act m f)"
proof -
  have k: "0 \<le> k" "0 \<le> n" using assms by (simp_all add: advances_def)
  have "d_next_penalty (st_db (snd (act m f st))) \<le> d_next_penalty (st_db st) + (n + k)" for st
  proof -
    obtain r st1 where r: "m st = (r, st1)" by (cases "m st")
    note n = advancesD [OF assms(1) r]
    show ?thesis
    proof (cases r)
      case (Inr a)
      obtain r2 st2 where "f a st1 = (r2, st2)" by (cases "f a st1")
      with n r Inr advancesD [OF assms(2) this] show ?thesis by (simp add: act_def)
    qed (use n r k in \<open>simp add: act_def\<close>)
  qed
  then show ?thesis using k by (simp add: advances_def)
qed

lemmas advances_then = advances_act [where n = 0, simplified] and advances_last = advances_act [where k = 0, simplified]

lemma advances_stmt:
  assumes "0 \<le> n" and "\<And>d a d'. f d = Inr (a, d') \<Longrightarrow> d_next_penalty d' \<le> d_next_penalty d + n"
  shows "advances n (stmt f)"
  using assms by (auto simp: advances_def stmt_def Let_def split: option.splits fault.splits sum.splits)

lemma advances_in_tx:
  assumes "advances n body"
  shows "advances n (in_tx body)"
proof -
  have s: "d_next_penalty (st_db (snd (stmt (\<lambda>d. Inr ((), d)) st))) \<le> d_next_penalty (st_db st)" for st
    using advances_stmt [of 0 "\<lambda>d. Inr ((), d)"] by (simp add: advances_def)
  have "d_next_penalty (st_db (snd (in_tx body st))) \<le> d_next_penalty (st_db st) + n" for st
  proof -
    obtain r0 st1 where r0: "stmt (\<lambda>d. Inr ((), d)) st = (r0, st1)" by (cases "stmt (\<lambda>d. Inr ((), d)) st")
    have 0: "d_next_penalty (st_db st1) \<le> d_next_penalty (st_db st)" "0 \<le> n" using s [of st] r0 assms by (simp_all add: advances_def)
    obtain r st2 where r: "body st1 = (r, st2)" by (cases "body st1")
    have 1: "d_next_penalty (st_db st2) \<le> d_next_penalty (st_db st1) + n"
      using assms r by (auto simp: advances_def dest: spec [of _ st1])
    have "d_next_penalty (st_db (snd (stmt (\<lambda>_. Inr (a, st_db st2)) (st2\<lparr>st_db := st_db st1\<rparr>)))) \<le> d_next_penalty (st_db st) + n" for a :: 'a
      using 0 1 by (auto simp: stmt_def Let_def split: option.splits fault.splits)
    with 0 1 r0 r show ?thesis by (cases r0; cases r) (auto simp: in_tx_def split: tx_end.splits)
  qed
  then show ?thesis using assms by (simp add: advances_def)
qed

lemma advances_pure: "advances 0 (lift r)" "advances 0 (done_with a)" "advances 0 (fail e)" "advances 0 (emit t k)"
  by (simp_all add: advances_def lift_def done_with_def fail_def emit_def)

lemma advances_done: "advances 1 (done_with a)"
  by (simp add: advances_def done_with_def lift_def)

lemma outcome_advances: "advances 1 (apply_settlement_outcome c clk p oc)"
proof -
  have locked: "advances 0 (locked_row pid)" for pid
    unfolding locked_row_def select_row_def
    by (intro advances_then advances_pure advances_stmt) (auto intro: advances_pure split: option.splits)
  have pen: "advances 1 (stmt (insert_penalty i a u))" for i a u
    by (rule advances_stmt) (auto simp: insert_penalty_def Let_def split: if_splits)
  have upd: "advances 0 (stmt (\<lambda>d. Inr (update_rows P f d)))" for P f
    by (rule advances_stmt) (auto simp: update_rows_def)
  have body: "advances 1 (outcome_body c clk p oc)"
    unfolding outcome_body_def
  proof (rule advances_then [OF locked], rule advances_then [OF advances_pure(1)], goal_cases)
    case (1 r fr)
    show ?case
    proof (cases "outcome_target oc fr")
      case (Some to)
      have "advances 1 (if oc = Abandoned then stmt (insert_penalty (r_id r) (addr_text c (p_sub_solver p)) (uid_text c (p_order_uid p)))
              else done_with ())"
        by (simp add: pen advances_done)
      then show ?thesis by (simp add: Some advances_then [OF upd advances_last] advances_pure)
    qed (simp add: advances_done)
  qed
  show ?thesis unfolding apply_settlement_outcome_def
    by (rule advances_last [OF advances_in_tx [OF body]])
      (auto intro!: advances_then advances_pure split: outcome_effect.splits)
qed

text \<open>The loop over the attributed proposals: each is carried out once, however often it is listed.\<close>

lemma room_mono: "room n st \<Longrightarrow> m \<le> n \<Longrightarrow> room m st"
  by (simp add: room_def)

lemma apply_outcomes_calm:
  assumes "good c st" and c: "codec_ok c" and "calm st" and "room (length ps) st"
    and "\<forall>p\<in>set ps. uid_ok (p_order_uid p) \<and> book c st (p_id p) \<noteq> None"
  shows "good c (apply_outcomes c clk k oc ps st) \<and> calm (apply_outcomes c clk k oc ps st) \<and>
    book c (apply_outcomes c clk k oc ps st) =
      (\<lambda>pid. if pid \<in> p_id ` set ps then map_option (carried_out oc) (book c st pid) else book c st pid)"
  using assms(1,3-5)
proof (induction ps arbitrary: st)
  case (Cons p ps)
  obtain q where b: "book c st (p_id p) = Some q" and u: "uid_ok (p_order_uid p)" using Cons.prems(4) by auto
  obtain r st1 where run: "apply_settlement_outcome c clk p oc st = (r, st1)" by (cases "apply_settlement_outcome c clk p oc st")
  have "room 1 st" using Cons.prems(3) by (rule room_mono) simp
  note one = calm_outcome [OF Cons.prems(1) c u Cons.prems(2) this b run]
  have n1: "room (length ps) st1" using advancesD [OF outcome_advances run] Cons.prems(3) by (simp add: room_def)
  obtain st2 where st2: "apply_outcomes c clk k oc (p # ps) st = apply_outcomes c clk k oc ps st2"
      "good c st2" "calm st2" "st_db st2 = st_db st1"
  proof (cases "outcome_target oc (p_status q)")
    case None
    have "st_faults (snd (note_driver_notification clk p k st1)) = st_faults st1" by (simp add: note_driver_notification_def emit_def)
    with None one run note_effect [of c st1 clk p k] show ?thesis
      by (intro that [of "snd (note_driver_notification clk p k st1)"]) (simp_all add: calm_def)
  next
    case (Some to)
    with one run show ?thesis by (intro that [of st1]) simp_all
  qed
  have b2: "book c st2 = (book c st)(p_id p \<mapsto> carried_out oc q)" using one st2(4) by (simp add: book_def)
  have "room (length ps) st2" using n1 st2(4) by (simp add: room_def)
  moreover have "\<forall>p\<in>set ps. uid_ok (p_order_uid p) \<and> book c st2 (p_id p) \<noteq> None" using Cons.prems(4) b2 by auto
  ultimately have IH: "good c (apply_outcomes c clk k oc ps st2) \<and> calm (apply_outcomes c clk k oc ps st2) \<and>
    book c (apply_outcomes c clk k oc ps st2) =
      (\<lambda>pid. if pid \<in> p_id ` set ps then map_option (carried_out oc) (book c st2 pid) else book c st2 pid)"
    using Cons.IH [OF st2(2,3)] by blast
  have "(if pid \<in> p_id ` set ps then map_option (carried_out oc) (book c st2 pid) else book c st2 pid) =
      (if pid \<in> p_id ` set (p # ps) then map_option (carried_out oc) (book c st pid) else book c st pid)" for pid
    using b b2 carried_out_twice by simp
  with IH show ?case unfolding st2(1) by simp
qed simp

lemma attributed_calm:
  assumes gd: "good c st" and "calm st" and run: "attributed_proposals c n st = (ps, st1)"
  shows "good c st1 \<and> calm st1 \<and> same_state st st1 \<and>
    set ps = {q. book c st (p_id q) = Some q \<and> attributed (st_db st) n (p_id q)}"
proof (cases "\<exists>a ids. Option.bind (nt_auction_id n) parse_i64 = Some a \<and> nt_solution_id n = Some ids")
  case False
  then have "ps = []" "st1 = st" using run by (auto simp: attributed_proposals_def split: option.splits)
  moreover have "\<not> attributed (st_db st) n pid" for pid using False by (auto simp: attributed_def)
  ultimately show ?thesis using assms(1,2) by simp
next
  case True
  then obtain a ids where ai: "Option.bind (nt_auction_id n) parse_i64 = Some a" "nt_solution_id n = Some ids" by blast
  obtain r where r: "solution_proposals c a (ids_of ids) st = (r, st1)" "ps = (case r of Inr ps \<Rightarrow> ps | Inl _ \<Rightarrow> [])"
    using run ai by (auto simp: attributed_proposals_def split: prod.splits sum.splits)
  have "healthy (solution_proposals c a (ids_of ids))"
    unfolding solution_proposals_def Let_def by (intro healthy_rules) auto
  from healthyD [OF this assms(2) r(1)] wpD [OF wp_solution_proposals [OF gd] r(1)] r(2)
  obtain qs where "r = Inr qs" "calm st1" "good c st1" "same_state st st1" "ps = qs" "set qs =
      {q. book c st (p_id q) = Some q \<and> (\<exists>s\<in>set (ids_of ids). \<exists>i. i64_of_u64 s = Some i \<and>
          solution_of (st_db st) a i = Some (uint (pid_raw (p_id q))))}"
    by (cases r) (auto simp: read_result_def)
  moreover have "attributed (st_db st) n pid \<longleftrightarrow> (\<exists>s\<in>set (ids_of ids). \<exists>i. i64_of_u64 s = Some i \<and>
          solution_of (st_db st) a i = Some (uint (pid_raw pid)))" for pid
    using ai by (auto simp: attributed_def bind_eq_Some_conv) blast
  ultimately show ?thesis by simp
qed

text \<open>The queue has room for one charge per row the report could be attributed to.\<close>

definition queue_has_room :: "codec \<Rightarrow> notification \<Rightarrow> store \<Rightarrow> bool" where
  "queue_has_room c n st \<longleftrightarrow> room (length (fst (attributed_proposals c n st))) st"

lemma notify_calm:
  assumes gd: "good c st" and c: "codec_ok c" and calm: "st_faults st = []" and "queue_has_room c n st"
    and oc: "outcome_of n = Some oc" and run: "notify c clk n st = (code, st')"
  shows "good c st' \<and> st_faults st' = [] \<and> book c st' =
    (\<lambda>pid. if attributed (st_db st) n pid then map_option (carried_out oc) (book c st pid) else book c st pid)"
proof -
  obtain ps st1 where a: "attributed_proposals c n st = (ps, st1)" by (cases "attributed_proposals c n st")
  have "calm st" using calm by (simp add: calm_def)
  note at = attributed_calm [OF gd this a]
  then have g1: "good c st1" "calm st1" and b1: "book c st1 = book c st" "st_db st1 = st_db st"
    by (simp_all add: same_state_def book_def)
  have ids: "pid \<in> p_id ` set ps \<longleftrightarrow> book c st pid \<noteq> None \<and> attributed (st_db st) n pid" for pid
  proof
    assume "pid \<in> p_id ` set ps"
    then obtain q where "q \<in> set ps" "pid = p_id q" by (elim imageE)
    with at show "book c st pid \<noteq> None \<and> attributed (st_db st) n pid" by simp
  next
    assume p: "book c st pid \<noteq> None \<and> attributed (st_db st) n pid"
    then obtain q where q: "book c st pid = Some q" by blast
    have id: "p_id q = pid" using book_id [OF gd q] .
    then have "q \<in> set ps" using at p q by simp
    then show "pid \<in> p_id ` set ps" by (rule rev_image_eqI) (simp add: id)
  qed
  have "st' = apply_outcomes c clk (nt_kind n) oc ps st1"
    using run a oc by (cases "ps = []") (auto simp: notify_def)
  moreover have "room (length ps) st1" using assms(4) a b1(2) by (simp add: queue_has_room_def room_def)
  moreover have "\<forall>p\<in>set ps. uid_ok (p_order_uid p) \<and> book c st1 (p_id p) \<noteq> None"
    using at b1(1) gd by (auto elim: book_row)
  ultimately have "good c st' \<and> calm st' \<and> book c st' =
      (\<lambda>pid. if pid \<in> p_id ` set ps then map_option (carried_out oc) (book c st1 pid) else book c st1 pid)"
    using apply_outcomes_calm [OF g1(1) c g1(2)] by simp
  then show ?thesis using ids b1(1) by (auto simp: calm_def fun_eq_iff)
qed

subsection \<open>What is due is debited\<close>

text \<open>An edge that answers, for the settlements of \<open>T\<close>, and keeps answering.\<close>

definition edge_answers ::
  "('e \<Rightarrow> bool) \<Rightarrow> b256 set \<Rightarrow> (b256 \<Rightarrow> 'e \<Rightarrow> (debit_error + u256) \<times> 'e)
    \<Rightarrow> (address \<Rightarrow> u256 \<Rightarrow> b256 \<Rightarrow> 'e \<Rightarrow> (debit_error + b256) \<times> 'e) \<Rightarrow> bool" where
  "edge_answers A T cost debit \<longleftrightarrow>
     (\<forall>tx e. tx \<in> T \<longrightarrow> A e \<longrightarrow> (\<exists>x e'. cost tx e = (Inr x, e') \<and> A e')) \<and>
     (\<forall>a amount reason e. A e \<longrightarrow> (\<exists>tx e'. debit a amount reason e = (Inr tx, e') \<and> A e'))"

lemma calm_record_penalty:
  assumes gd: "good c st" and c: "codec_ok c" and "calm st" and b: "book c st (p_id p) = Some p"
    and run: "record_penalty c clk p amount tx st = (r, st')"
  shows "calm st' \<and> good c st' \<and> book c st' = (book c st)(p_id p \<mapsto> with_penalty tx p) \<and>
    d_penalties (st_db st') = d_penalties (st_db st)"
proof (cases r)
  case (Inl e)
  with wpD [OF wp_record_penalty [OF gd c] run] have "cas_error c st p e" by simp
  with b healthyD [OF healthy_record_penalty assms(3) run] Inl show ?thesis by (simp add: cas_error_def)
next
  case (Inr u)
  note spec = wpD [OF wp_record_penalty [OF gd c] run]
  then have g: "good c st'" by simp
  from spec Inr obtain q evs where q: "p_id q = p_id p" "moved c st st' q (with_penalty tx q) evs"
      "d_penalties (st_db st') = d_penalties (st_db st)" by auto
  have "book c st (p_id q) = Some q" "book c st' = (book c st)(p_id q \<mapsto> with_penalty tx q)"
    using q(2) by (simp_all add: moved_def)
  moreover from this(1) have "q = p" using b unfolding q(1) by simp
  ultimately have "book c st' = (book c st)(p_id p \<mapsto> with_penalty tx p)" by simp
  with g q(3) healthyD [OF healthy_record_penalty assms(3) run] show ?thesis by simp
qed

text \<open>One proposal, and the sweep.\<close>

definition skipped :: "(proposal_id \<Rightarrow> u32 option) \<Rightarrow> proposal \<Rightarrow> bool" where
  "skipped att p \<longleftrightarrow> parked att (p_id p) \<or> p_settlement_tx_hash p = None"

lemma revert_one_pays:
  assumes ans: "edge_answers A T cost debit" and gd: "good c st" and c: "codec_ok c" and "calm st" and "A e"
    and b: "book c st (p_id p) = Some p" and T: "set_option (p_settlement_tx_hash p) \<subseteq> T"
    and run: "revert_one cost debit c clk c_l p (att, e, st) = (att', e', st')"
  shows "good c st' \<and> calm st' \<and> A e' \<and> d_penalties (st_db st') = d_penalties (st_db st) \<and>
    (\<forall>k. k \<noteq> p_id p \<longrightarrow> att' k = att k) \<and>
    (if skipped att p then st' = st else \<exists>tx. book c st' = (book c st)(p_id p \<mapsto> with_penalty tx p))"
proof (cases "skipped att p")
  case True
  with run assms(2,4,5) show ?thesis by (auto simp: skipped_def revert_one_def split: if_splits)
next
  case False
  then obtain s where s: "p_settlement_tx_hash p = Some s" "\<not> parked att (p_id p)" by (auto simp: skipped_def)
  have "s \<in> T" using T s(1) by simp
  then obtain x e1 where 1: "cost s e = (Inr x, e1)" "A e1" using ans assms(5) unfolding edge_answers_def by blast
  obtain tx e2 where 2: "debit (p_sub_solver p) (revert_debit x c_l) s e1 = (Inr tx, e2)" "A e2"
    using ans 1(2) unfolding edge_answers_def by blast
  obtain r st3 where 3: "record_penalty c clk p (revert_debit x c_l) tx st = (r, st3)"
    by (cases "record_penalty c clk p (revert_debit x c_l) tx st")
  have "att' = att(p_id p := None)" "e' = e2" "st' = st3" using run s 1 2 3 by (auto simp: revert_one_def)
  with calm_record_penalty [OF gd c assms(4) b 3] 2(2) False show ?thesis by auto
qed

lemma revert_fold_pays:
  assumes ans: "edge_answers A T cost debit" and c: "codec_ok c"
    and "in_book c st ps" and "calm st" and "A e" and "\<forall>p\<in>set ps. set_option (p_settlement_tx_hash p) \<subseteq> T"
    and "fold (revert_one cost debit c clk c_l) ps (att, e, st) = (att', e', st')"
  shows "good c st' \<and> calm st' \<and> A e' \<and> d_penalties (st_db st') = d_penalties (st_db st) \<and>
    (\<forall>pid. pid \<notin> p_id ` set ps \<longrightarrow> book c st' pid = book c st pid) \<and>
    (\<forall>p\<in>set ps. if skipped att p then book c st' (p_id p) = Some p else \<exists>tx. book c st' (p_id p) = Some (with_penalty tx p))"
  using assms(3-7)
proof (induction ps arbitrary: att e st)
  case Nil
  then show ?case by (simp add: in_book_def)
next
  case (Cons p ps)
  note b = in_bookD [OF Cons.prems(1)]
  obtain att1 e1 st1 where one: "revert_one cost debit c clk c_l p (att, e, st) = (att1, e1, st1)"
    by (cases "revert_one cost debit c clk c_l p (att, e, st)")
  have bp: "book c st (p_id p) = Some p" and T: "set_option (p_settlement_tx_hash p) \<subseteq> T"
    using b(3) Cons.prems(4) by simp_all
  note r = revert_one_pays [OF ans b(1) c Cons.prems(2,3) bp T one]
  have others: "book c st1 pid = book c st pid" if "pid \<noteq> p_id p" for pid using r that by (auto split: if_splits)
  have ne: "p_id q \<noteq> p_id p" if "q \<in> set ps" for q
    using b(2) imageI [OF that, of p_id] by (metis distinct.simps(2) list.simps(9) set_map)
  have ib: "in_book c st1 ps" using r b ne others by (simp add: in_book_def)
  have rest: "fold (revert_one cost debit c clk c_l) ps (att1, e1, st1) = (att', e', st')" using Cons.prems(5) one by simp
  have g: "calm st1" "A e1" using r by blast+
  have "\<forall>p\<in>set ps. set_option (p_settlement_tx_hash p) \<subseteq> T" using Cons.prems(4) by simp
  note IH = Cons.IH [OF ib g this rest]
  have sk: "skipped att1 q = skipped att q" if "q \<in> set ps" for q
    using r ne [OF that] by (simp add: skipped_def parked_def)
  have "p_id p \<notin> p_id ` set ps" using b(2) by simp
  then have "book c st' (p_id p) = book c st1 (p_id p)" using IH by blast
  then have "if skipped att p then book c st' (p_id p) = Some p else \<exists>tx. book c st' (p_id p) = Some (with_penalty tx p)"
    using r bp by (auto split: if_splits)
  with IH r others sk show ?case by (simp add: ball_Un)
qed

text \<open>The queue.\<close>

lemma calm_record_debit:
  assumes gd: "good c st" and "calm st" and run: "record_non_settlement_debit c clk pp amount tx st = (r, st')"
  shows "calm st' \<and> good c st' \<and> st_db st' = pay_penalty (pp_id pp) (b256_text c tx) (st_db st)"
  using wpD [OF wp_record_non_settlement_debit [OF gd] run] healthyD [OF healthy_debit assms(2) run] by (cases r) auto

lemma charge_keys_pay:
  assumes "st_db st' = pay_penalty i tx (st_db st)"
  shows "charge_keys st' = charge_keys st - {i}"
proof -
  have "row \<in> set (d_penalties (st_db st')) \<and> pr_penalty_tx_hash row = None \<longleftrightarrow>
      row \<in> set (d_penalties (st_db st)) \<and> pr_penalty_tx_hash row = None \<and> pr_id row \<noteq> i" for row
    by (auto simp: assms pay_penalty_def split: if_splits)
  then show ?thesis unfolding charge_keys_def by blast
qed

lemma non_settlement_one_pays:
  assumes ans: "edge_answers A T cost debit" and gd: "good c st" and "calm st" and "A e"
    and run: "non_settlement_one debit keccak c clk c_l pp (att, e, st) = (att', e', st')"
  shows "good c st' \<and> calm st' \<and> A e' \<and> book c st' = book c st \<and> (\<forall>k. k \<noteq> pp_id pp \<longrightarrow> att' k = att k) \<and>
    map pr_id (d_penalties (st_db st')) = map pr_id (d_penalties (st_db st)) \<and>
    charge_keys st' = (if parked att (pp_id pp) then charge_keys st else charge_keys st - {pp_id pp})"
proof (cases "parked att (pp_id pp)")
  case True
  with run assms(2-4) show ?thesis by (auto simp: non_settlement_one_def)
next
  case False
  let ?amount = "non_settlement_debit c_l" and ?reason = "keccak (uid_bytes (pp_order_uid pp))"
  obtain tx e1 where 1: "debit (pp_sub_solver pp) ?amount ?reason e = (Inr tx, e1)" "A e1"
    using ans assms(4) unfolding edge_answers_def by blast
  obtain r st2 where 2: "record_non_settlement_debit c clk pp ?amount tx st = (r, st2)"
    by (cases "record_non_settlement_debit c clk pp ?amount tx st")
  have res: "att' = att(pp_id pp := None)" "e' = e1" "st' = st2" using run False 1 2 by (auto simp: non_settlement_one_def Let_def)
  note paid = calm_record_debit [OF gd assms(3) 2]
  have "map pr_id (d_penalties (st_db st2)) = map pr_id (d_penalties (st_db st))"
    using paid by (simp add: pay_penalty_def)
  with paid res 1(2) False charge_keys_pay book_pay_penalty show ?thesis by auto
qed

lemma non_settlement_fold_pays:
  assumes ans: "edge_answers A T cost debit" and "good c st" and "calm st" and "A e" and "distinct (map pp_id ps)"
    and "fold (non_settlement_one debit keccak c clk c_l) ps (att, e, st) = (att', e', st')"
  shows "good c st' \<and> calm st' \<and> A e' \<and> book c st' = book c st \<and>
    map pr_id (d_penalties (st_db st')) = map pr_id (d_penalties (st_db st)) \<and>
    charge_keys st' = charge_keys st - {k \<in> pp_id ` set ps. \<not> parked att k}"
  using assms(2-6)
proof (induction ps arbitrary: att e st)
  case (Cons p ps)
  obtain att1 e1 st1 where one: "non_settlement_one debit keccak c clk c_l p (att, e, st) = (att1, e1, st1)"
    by (cases "non_settlement_one debit keccak c clk c_l p (att, e, st)")
  note r = non_settlement_one_pays [OF ans Cons.prems(1-3) one]
  have g: "good c st1" "calm st1" "A e1" "distinct (map pp_id ps)" using r Cons.prems(4) by simp_all
  have rest: "fold (non_settlement_one debit keccak c clk c_l) ps (att1, e1, st1) = (att', e', st')" using Cons.prems(5) one by simp
  note IH = Cons.IH [OF g rest]
  have "pp_id p \<notin> pp_id ` set ps" using Cons.prems(4) by simp
  then have "{k \<in> pp_id ` set ps. \<not> parked att1 k} = {k \<in> pp_id ` set ps. \<not> parked att k}"
    using r by (metis (mono_tags, lifting) parked_def)
  then have "charge_keys st' = charge_keys st1 - {k \<in> pp_id ` set ps. \<not> parked att k}" using IH by simp
  then have "charge_keys st' = charge_keys st - {k \<in> pp_id ` set (p # ps). \<not> parked att k}"
    using r by (cases "parked att (pp_id p)") auto
  with IH r show ?case by simp
qed simp

text \<open>One pass over a database that answers, through an edge that answers.\<close>

lemma penalty_tick_pays:
  assumes ans: "edge_answers A T cost debit" and gd: "good c st" and c: "codec_ok c" and "calm st" and "A e"
    and T: "{tx. \<exists>pid p. book c st pid = Some p \<and> p_status p = SettleFailed \<and> p_settlement_tx_hash p = Some tx} \<subseteq> T"
    and run: "penalty_tick cost debit keccak c clk c_l (att, e, st) = (att', e', st')"
  shows "good c st' \<and> calm st' \<and> A e' \<and>
    (\<forall>pid p. book c st pid = Some p \<longrightarrow> (if p_status p = SettleFailed \<and> \<not> skipped (da_revert att) p
       then \<exists>tx. book c st' pid = Some (with_penalty tx p) else book c st' pid = Some p)) \<and>
    map pr_id (d_penalties (st_db st')) = map pr_id (d_penalties (st_db st)) \<and>
    charge_keys st' = {k \<in> charge_keys st. parked (da_non_settlement att) k}"
proof -
  obtain ps st1 where s1: "snapshot_by_statuses c [SettleFailed] st = (Inr ps, st1)" and g1: "good c st1" "calm st1"
      and same1: "same_state st st1" and ps: "stored_where c st (\<lambda>q. p_status q \<in> set [SettleFailed]) ps"
    by (rule calm_snapshot [OF gd assms(4)])
  obtain rs e1 st2 where r: "fold (revert_one cost debit c clk c_l) ps (da_revert att, e, st1) = (rs, e1, st2)"
    by (cases "fold (revert_one cost debit c clk c_l) ps (da_revert att, e, st1)")
  have P: "p \<in> set ps \<longleftrightarrow> book c st (p_id p) = Some p \<and> p_status p = SettleFailed" for p
    using ps by (auto simp: stored_where_def)
  have b1: "book c st1 = book c st" "d_penalties (st_db st1) = d_penalties (st_db st)"
    using same1 by (simp_all add: same_state_def book_def)
  have ib: "in_book c st1 ps" using g1 ps P b1 by (simp add: in_book_def stored_where_def)
  have "\<forall>p\<in>set ps. set_option (p_settlement_tx_hash p) \<subseteq> T" using P T by fastforce
  note rf = revert_fold_pays [OF ans c ib g1(2) assms(5) this r]
  then have g2: "good c st2" "calm st2" "A e1" by blast+
  obtain x st3 where s2: "pending_penalties c st2 = (x, st3)" by (cases "pending_penalties c st2")
  note spec = wpD [OF wp_pending_penalties [OF g2(1)] s2]
  obtain pps where x: "x = Inr pps" using spec healthyD [OF healthy_pending g2(2) s2] by (cases x) auto
  have g3: "good c st3" "calm st3" "same_state st2 st3" using spec healthyD [OF healthy_pending g2(2) s2] by auto
  have m: "map (penalty_of_row c) (pending_rows (st_db st2)) = map Inr pps" using spec x by simp
  note pr = pending_rows_read [OF g2(1) m]
  have keys: "charge_keys st3 = charge_keys st" "pp_id ` set pps = charge_keys st"
    using pending_keys [OF g2(1) m] rf g3(3) b1(2) by (simp_all add: charge_keys_def same_state_def)
  obtain ns e2 st4 where q: "fold (non_settlement_one debit keccak c clk c_l) pps (da_non_settlement att, e1, st3) = (ns, e2, st4)"
    by (cases "fold (non_settlement_one debit keccak c clk c_l) pps (da_non_settlement att, e1, st3)")
  note nf = non_settlement_fold_pays [OF ans g3(1,2) g2(3) pr(1) q]
  have res: "e' = e2" "st' = st4"
    using run s1 r s2 x q by (auto simp: penalty_tick_def revert_debits_def non_settlement_debits_def)
  have b': "book c st' = book c st2" using nf g3(3) by (simp add: res same_state_def book_def)
  have moves: "if p_status p = SettleFailed \<and> \<not> skipped (da_revert att) p
       then \<exists>tx. book c st' pid = Some (with_penalty tx p) else book c st' pid = Some p" if b: "book c st pid = Some p" for pid p
  proof -
    have id: "p_id p = pid" using book_id [OF gd b] .
    show ?thesis
    proof (cases "p_status p = SettleFailed")
      case True
      with rf P [of p] b id b' show ?thesis by (auto split: if_splits)
    next
      case False
      then have "pid \<notin> p_id ` set ps" using P b id by force
      with rf b b' b1 False show ?thesis by simp
    qed
  qed
  have "charge_keys st' = {k \<in> charge_keys st. parked (da_non_settlement att) k}" using nf keys by (auto simp: res)
  moreover have "map pr_id (d_penalties (st_db st')) = map pr_id (d_penalties (st_db st))"
    using nf rf g3(3) b1(2) by (simp add: res same_state_def)
  moreover have "good c st'" "calm st'" "A e'" using nf by (simp_all add: res)
  ultimately show ?thesis using moves by blast
qed

text \<open>The operator answers as long as its node does: it has the receipts of \<open>T\<close>, and a debit it sends is
  confirmed within the timeout.\<close>

definition node_answers :: "b256 set \<Rightarrow> node \<Rightarrow> bool" where
  "node_answers T w \<longleftrightarrow> (\<forall>tx\<in>T. \<exists>r. n_receipt w tx = Inr (Some r)) \<and>
     (\<forall>a amount reason. \<exists>wait r. n_send_debit w a amount reason = Inr wait \<and> wait CONFIRMATION_TIMEOUT = Inr r \<and> rc_status r)"

lemma operator_answers:
  "edge_answers (\<lambda>op. \<forall>i. node_answers T (fst op i)) T (operator_cost c) (operator_send c)"
  unfolding edge_answers_def
proof (intro conjI allI impI)
  fix tx and e :: operator assume "tx \<in> T" and a: "\<forall>i. node_answers T (fst e i)"
  obtain ws ds where e: "e = (ws, ds)" by (cases e)
  obtain r where "n_receipt (ws 0) tx = Inr (Some r)" using a \<open>tx \<in> T\<close> by (fastforce simp: e node_answers_def)
  with a show "\<exists>x e'. operator_cost c tx e = (Inr x, e') \<and> (\<forall>i. node_answers T (fst e' i))"
    by (simp add: e settlement_cost_def)
next
  fix sub_solver amount reason and e :: operator assume a: "\<forall>i. node_answers T (fst e i)"
  obtain ws ds where e: "e = (ws, ds)" by (cases e)
  from a have "node_answers T (ws 0)" by (simp add: e)
  then obtain wait r where "n_send_debit (ws 0) sub_solver amount reason = Inr wait" "wait CONFIRMATION_TIMEOUT = Inr r" "rc_status r"
    unfolding node_answers_def by blast
  with a show "\<exists>tx e'. operator_send c sub_solver amount reason e = (Inr tx, e') \<and> (\<forall>i. node_answers T (fst e' i))"
    by (simp add: e operator_debit_def Let_def)
qed

definition failed_settlements :: "codec \<Rightarrow> store \<Rightarrow> b256 set" where
  "failed_settlements c st = {tx. \<exists>pid p. book c st pid = Some p \<and> p_status p = SettleFailed \<and> p_settlement_tx_hash p = Some tx}"

subsection \<open>The properties\<close>

lemma notify_status: "notify c clk n st = (code, st') \<Longrightarrow> code = 200"
  by (auto simp: notify_def split: prod.splits if_splits option.splits)

text \<open>C19. A report is carried out. While the database answers, a notification that names an outcome moves
  every stored proposal the solutions table attributes to it exactly as the legality table says, and
  changes no other; nothing is left undone because an earlier proposal of the report was not legal. It is
  answered 200.\<close>

theorem report_carried_out:
  assumes "good c st" and "codec_ok c" and "st_faults st = []" and "queue_has_room c n st"
    and "outcome_of n = Some oc" and "notify c clk n st = (code, st')"
  shows "code = 200 \<and> book c st' = (\<lambda>pid. if attributed (st_db st) n pid
     then map_option (\<lambda>q. case outcome_target oc (p_status q) of None \<Rightarrow> q | Some to \<Rightarrow> with_outcome to (outcome_tx oc) q) (book c st pid)
     else book c st pid)"
  using notify_calm [OF assms, unfolded carried_out_def [abs_def]] notify_status [OF assms(6)] by (elim conjE) (rule conjI)

lemma unique_penalty:
  assumes "good c st" and "x \<in> set (d_penalties (st_db st))" and "y \<in> set (d_penalties (st_db st))" and "pr_id x = pr_id y"
  shows "x = y"
proof -
  have "distinct (map pr_id (d_penalties (st_db st)))" using assms(1) by (simp add: good_def db_ok_def)
  then show ?thesis using assms(2-4) by (simp add: distinct_map inj_on_def)
qed

text \<open>A charge no longer waiting was paid by the debit its row names.\<close>

lemma charge_paid_by:
  assumes gd: "good c st" and rows: "map pr_id (d_penalties (st_db st')) = map pr_id (d_penalties (st_db st))"
    and paid: "paid_rows c pps es st st'" and pps: "\<forall>pp\<in>set pps. pending c st pp"
    and pp: "pending c st pp" and gone: "pp_id pp \<notin> charge_keys st'"
  shows "\<exists>d. (pp, d) \<in> set (zip pps es) \<and> (\<exists>row\<in>set (d_penalties (st_db st')). pr_id row = pp_id pp \<and>
    pr_penalty_tx_hash row = Some (b256_text c (de_tx d)))"
proof -
  have key: "pr_id q = pp_id x" if "penalty_of_row c q = Inr x" for q x
    using that by (auto simp: penalty_of_row_def and_then_Inr_iff)
  obtain q where q: "q \<in> set (d_penalties (st_db st))" "pr_penalty_tx_hash q = None" "penalty_of_row c q = Inr pp"
    using pp by (auto simp: pending_def)
  have "pr_id q \<in> set (map pr_id (d_penalties (st_db st')))" using q(1) unfolding rows by simp
  then obtain row where row: "row \<in> set (d_penalties (st_db st'))" "pr_id row = pp_id pp" using key [OF q(3)] by auto
  then have "pr_penalty_tx_hash row \<noteq> None" using gone by (auto simp: charge_keys_def)
  then have "row \<notin> set (d_penalties (st_db st))" using unique_penalty [OF gd _ q(1)] q(2) row(2) key [OF q(3)] by auto
  with paid row obtain x d where x: "(x, d) \<in> set (zip pps es)" "pr_id row = pp_id x"
    "pr_penalty_tx_hash row = Some (b256_text c (de_tx d))" unfolding paid_rows_def by blast
  obtain q' where q': "q' \<in> set (d_penalties (st_db st))" "penalty_of_row c q' = Inr x"
    using pps set_zip_leftD [OF x(1)] by (auto simp: pending_def)
  have "q' = q" using unique_penalty [OF gd q'(1) q(1)] key [OF q'(2)] key [OF q(3)] x(2) row(2) by simp
  then have "x = pp" using q'(2) q(3) by simp
  with x row show ?thesis by blast
qed

text \<open>C18. What is owed is collected. While the database answers and the node has the receipts of the failed
  settlements and confirms the debits sent, one tick of the penalty loop leaves nothing owed that it has
  not given up: for every \<open>SettleFailed\<close> proposal with a settlement a debit lands of its sub-solver, citing
  that settlement, of what it cost on chain plus the collateral, and the proposal becomes \<open>Penalized\<close> under
  that debit; for every charge in the queue a debit of a tenth of the collateral lands, and its row names
  it. No proposal and no charge is debited twice, and all other proposals stay as they are.\<close>

theorem due_penalties_collected:
  assumes "good c st" and "codec_ok c" and "st_faults st = []"
    and "\<forall>i. node_answers (failed_settlements c st) (ws i)" and "receipts_true receipts (ws, debits)"
    and "penalty_tick (operator_cost c) (operator_send c) keccak c clk c_l (att, (ws, debits), st) = (att', (ws', debits'), st')"
  shows "\<exists>qs ds pps es. debits' = debits @ ds @ es \<and>
    distinct (map p_id qs) \<and> list_all2 (revert_due (price_on_chain receipts) c_l) qs ds \<and>
    distinct (map pp_id pps) \<and> list_all2 (charge_due keccak c_l) pps es \<and>
    (\<forall>pid p. book c st pid = Some p \<longrightarrow>
      (if p_status p = SettleFailed \<and> p_settlement_tx_hash p \<noteq> None \<and> \<not> parked (da_revert att) (p_id p)
       then \<exists>d. (p, d) \<in> set (zip qs ds) \<and> book c st' pid = Some (with_penalty (de_tx d) p) else book c st' pid = Some p)) \<and>
    (\<forall>pp. pending c st pp \<and> \<not> parked (da_non_settlement att) (pp_id pp) \<longrightarrow>
      (\<exists>d. (pp, d) \<in> set (zip pps es) \<and> (\<exists>row\<in>set (d_penalties (st_db st')). pr_id row = pp_id pp \<and>
         pr_penalty_tx_hash row = Some (b256_text c (de_tx d))))) \<and>
    (\<forall>row\<in>set (d_penalties (st_db st')). pr_penalty_tx_hash row = None \<longrightarrow> parked (da_non_settlement att) (pr_id row))"
proof -
  have "calm st" "\<forall>i. node_answers (failed_settlements c st) (fst (ws, debits) i)" using assms(3,4) by (simp_all add: calm_def)
  from penalty_tick_pays [OF operator_answers assms(1,2) this _ assms(6)]
  have r: "\<And>pid p. book c st pid = Some p \<Longrightarrow> (if p_status p = SettleFailed \<and> \<not> skipped (da_revert att) p
       then \<exists>tx. book c st' pid = Some (with_penalty tx p) else book c st' pid = Some p)"
    and k: "charge_keys st' = {k \<in> charge_keys st. parked (da_non_settlement att) k}"
    and rows: "map pr_id (d_penalties (st_db st')) = map pr_id (d_penalties (st_db st))"
    by (simp_all add: failed_settlements_def)
  obtain qs ds pps es where t: "debits' = debits @ ds @ es" "distinct (map p_id qs)" "\<forall>q\<in>set qs. book c st (p_id q) = Some q"
      "list_all2 (revert_due (price_on_chain receipts) c_l) qs ds" "distinct (map pp_id pps)"
      "\<forall>pp\<in>set pps. pending c st pp" "list_all2 (charge_due keccak c_l) pps es"
      "\<forall>pid. book c st' pid = book c st pid \<or>
         (\<exists>p d. (p, d) \<in> set (zip qs ds) \<and> p_id p = pid \<and> book c st' pid = Some (with_penalty (de_tx d) p))"
      "paid_rows c pps es st st'"
    using operator.penalty_tick_result [OF assms(1,2,5,6)] by (auto simp only: snd_conv)
  have due: "p_status p = SettleFailed \<and> p_settlement_tx_hash p \<noteq> None \<and> \<not> parked (da_revert att) (p_id p) \<longleftrightarrow>
      p_status p = SettleFailed \<and> \<not> skipped (da_revert att) p" for p by (auto simp: skipped_def)
  have moves: "if p_status p = SettleFailed \<and> p_settlement_tx_hash p \<noteq> None \<and> \<not> parked (da_revert att) (p_id p)
       then \<exists>d. (p, d) \<in> set (zip qs ds) \<and> book c st' pid = Some (with_penalty (de_tx d) p) else book c st' pid = Some p"
    if b: "book c st pid = Some p" for pid p
  proof (cases "p_status p = SettleFailed \<and> \<not> skipped (da_revert att) p")
    case True
    with r [OF b] obtain tx where tx: "book c st' pid = Some (with_penalty tx p)" by auto
    then have "book c st' pid \<noteq> book c st pid" using b True by (auto simp: with_penalty_def dest: arg_cong [where f = p_status])
    with t(8) obtain q d where q: "(q, d) \<in> set (zip qs ds)" "p_id q = pid" "book c st' pid = Some (with_penalty (de_tx d) q)" by blast
    have "q = p" using t(3) set_zip_leftD [OF q(1)] q(2) b by auto
    with q True show ?thesis unfolding due by auto
  next
    case False
    then show ?thesis using r [OF b] unfolding due by (simp only: if_False)
  qed
  have charged: "\<exists>d. (pp, d) \<in> set (zip pps es) \<and> (\<exists>row\<in>set (d_penalties (st_db st')). pr_id row = pp_id pp \<and>
         pr_penalty_tx_hash row = Some (b256_text c (de_tx d)))"
    if "pending c st pp \<and> \<not> parked (da_non_settlement att) (pp_id pp)" for pp
    by (rule charge_paid_by [OF assms(1) rows t(9,6)]) (use that k in auto)
  have left: "parked (da_non_settlement att) (pr_id row)"
    if "row \<in> set (d_penalties (st_db st'))" "pr_penalty_tx_hash row = None" for row
  proof -
    have "pr_id row \<in> charge_keys st'" using that by (auto simp: charge_keys_def)
    then show ?thesis by (simp add: k)
  qed
  show ?thesis using t(1,2,4,5,7) moves charged left by (intro exI [of _ qs] exI [of _ ds] exI [of _ pps] exI [of _ es]) blast
qed

text \<open>C6. A reverted settlement costs its sub-solver the gas and the collateral. While the database and the
  node answer: if the driver reports a revert for a solution that the solutions table attributes to an
  \<open>Executing\<close> or \<open>Active\<close> proposal, the next tick of the penalty loop lands a debit on that proposal's
  sub-solver, citing the reverted transaction, of what it cost on chain plus the collateral, and the
  proposal ends \<open>Penalized\<close> under exactly that debit.\<close>

theorem revert_is_charged:
  assumes "good c st" and "codec_ok c" and "st_faults st = []" and "queue_has_room c n st"
    and "nt_kind n = ''revert''" and "nt_transaction n = Some tx" and "attributed (st_db st) n pid"
    and "book c st pid = Some p" and "p_status p \<in> {Executing, Active}" and "notify c clk n st = (code, st1)"
    and "\<forall>i. node_answers (failed_settlements c st1) (ws i)" and "receipts_true receipts (ws, debits)"
    and "penalty_tick (operator_cost c) (operator_send c) keccak c clk' c_l (att, (ws, debits), st1) = (att', (ws', debits'), st2)"
    and "\<not> parked (da_revert att) pid"
  shows "\<exists>d cost. d \<in> set (drop (length debits) debits') \<and> de_sub_solver d = p_sub_solver p \<and> de_reason d = tx \<and>
    price_on_chain receipts tx cost \<and> de_amount d = revert_debit cost c_l \<and>
    book c st2 pid = Some (with_penalty (de_tx d) (with_outcome SettleFailed (Some tx) p))"
proof -
  have oc: "outcome_of n = Some (Reverted tx)" using assms(5,6) by (simp add: outcome_of_def)
  note n = notify_calm [OF assms(1-4) oc assms(10)]
  let ?p = "with_outcome SettleFailed (Some tx) p"
  have id: "p_id p = pid" using book_id [OF assms(1,8)] .
  have b: "book c st1 pid = Some ?p" using n assms(7-9) by (auto simp: carried_out_def)
  have sf: "p_status ?p = SettleFailed" "p_settlement_tx_hash ?p = Some tx" "p_id ?p = pid" "p_sub_solver ?p = p_sub_solver p"
    using id by (simp_all add: with_outcome_def coalesce_def)
  have g: "good c st1" "calm st1" using n by (simp_all add: calm_def)
  have a: "\<forall>i. node_answers (failed_settlements c st1) (fst (ws, debits) i)" using assms(11) by simp
  have "\<not> skipped (da_revert att) ?p" using assms(14) sf by (simp add: skipped_def)
  have "\<forall>pid p. book c st1 pid = Some p \<longrightarrow> (if p_status p = SettleFailed \<and> \<not> skipped (da_revert att) p
       then \<exists>tx. book c st2 pid = Some (with_penalty tx p) else book c st2 pid = Some p)"
    using penalty_tick_pays [OF operator_answers g(1) assms(2) g(2) a _ assms(13)] by (simp add: failed_settlements_def)
  from this [rule_format, OF b] \<open>\<not> skipped _ _\<close> sf(1) obtain ptx where paid: "book c st2 pid = Some (with_penalty ptx ?p)" by auto
  have "p_status (with_penalty ptx ?p) \<noteq> p_status ?p" by (simp add: with_penalty_def sf)
  then have ne: "book c st2 pid \<noteq> book c st1 pid" using paid b by auto
  obtain qs ds es where r: "debits' = debits @ ds @ es" "\<forall>q\<in>set qs. book c st1 (p_id q) = Some q"
      "list_all2 (revert_due (price_on_chain receipts) c_l) qs ds"
      "\<forall>pid. book c st2 pid = book c st1 pid \<or>
         (\<exists>p d. (p, d) \<in> set (zip qs ds) \<and> p_id p = pid \<and> book c st2 pid = Some (with_penalty (de_tx d) p))"
    using operator.penalty_tick_result [OF g(1) assms(2) assms(12) assms(13)] by (auto simp only: snd_conv)
  with ne obtain q d where q: "(q, d) \<in> set (zip qs ds)" "p_id q = pid" "book c st2 pid = Some (with_penalty (de_tx d) q)" by blast
  have "q = ?p" using r(2) set_zip_leftD [OF q(1)] q(2) b by auto
  moreover have "revert_due (price_on_chain receipts) c_l q d" using r(3) q(1) by (auto simp: list_all2_iff)
  moreover have "d \<in> set (drop (length debits) debits')" using r(1) set_zip_rightD [OF q(1)] by simp
  ultimately show ?thesis using q(3) sf by (auto simp: revert_due_def)
qed

subsection \<open>Witnesses\<close>

text \<open>A node that has every receipt and confirms every debit.\<close>

definition sample_receipt :: "b256 \<Rightarrow> receipt" where
  "sample_receipt tx = \<lparr>rc_gas_used = 21000, rc_effective_gas_price = 10, rc_status = True, rc_transaction_hash = tx + 1\<rparr>"

definition willing_node :: node where
  "willing_node = \<lparr>n_receipt = (\<lambda>tx. Inr (Some (sample_receipt tx))), n_send_debit = (\<lambda>_ _ reason. Inr (\<lambda>_. Inr (sample_receipt reason)))\<rparr>"

lemma willing_answers: "node_answers T willing_node"
  by (simp add: node_answers_def willing_node_def sample_receipt_def)

definition revert_report :: notification where
  "revert_report = \<lparr>nt_auction_id = Some ''7'', nt_solution_id = Some (Single 1), nt_kind = ''revert'', nt_transaction = Some 77\<rparr>"

lemma parse_seven: "parse_i64 ''7'' = Some 7"
  by (simp add: parse_i64_def dec_val_def)

lemma revert_report_attributed: "attributed (st_db (stored_sample s)) revert_report (ProposalId 1)"
  unfolding attributed_def
  by (rule exI [of _ "''7''"], rule exI [of _ 7], rule exI [of _ "Single 1"], rule exI [of _ 1], rule exI [of _ 1])
    (simp add: parse_seven revert_report_def ids_of_def i64_of_u64_def solution_of_def stored_sample_def)

lemma revert_report_room: "queue_has_room std_codec revert_report (stored_sample s)"
proof -
  let ?r = "insert_row std_codec 1 0 (sample_proposal\<lparr>p_status := s\<rparr>) None"
  have "fst (attributed_proposals std_codec revert_report (stored_sample s)) = decode_rows std_codec [?r]"
    by (simp add: attributed_proposals_def revert_report_def ids_of_def parse_seven solution_proposals_def act_def stmt_def
        next_fault_def stored_sample_def done_with_def lift_def solution_rows_def i64_of_u64_def List.map_filter_simps insert_row_def)
  moreover have "length (decode_rows std_codec [?r]) \<le> 1" by (simp add: decode_rows_def List.map_filter_simps split: option.splits)
  ultimately show ?thesis by (simp add: queue_has_room_def room_def stored_sample_def)
qed

definition failed_sample :: proposal where
  "failed_sample = with_outcome SettleFailed (Some 77) (sample_proposal\<lparr>p_status := Executing\<rparr>)"

definition reported :: store where
  "reported = snd (notify std_codec sample_clock revert_report (stored_sample Executing))"

lemma reported_notify: "notify std_codec sample_clock revert_report (stored_sample Executing) = (200, reported)"
proof -
  obtain code st' where run: "notify std_codec sample_clock revert_report (stored_sample Executing) = (code, st')"
    by (cases "notify std_codec sample_clock revert_report (stored_sample Executing)")
  then have "code = 200" by (rule notify_status)
  with run show ?thesis by (simp add: reported_def)
qed

lemma sample_calm: "st_faults (stored_sample s) = []"
  by (simp add: stored_sample_def)

lemma reported_facts:
  "good std_codec reported" "st_faults reported = []" "book std_codec reported (ProposalId 1) = Some failed_sample"
  "p_status failed_sample = SettleFailed" "p_settlement_tx_hash failed_sample = Some 77" "p_id failed_sample = ProposalId 1"
proof -
  have oc: "outcome_of revert_report = Some (Reverted 77)" by (simp add: revert_report_def outcome_of_def)
  from notify_calm [OF sample_facts sample_calm revert_report_room oc reported_notify]
  show "good std_codec reported" "st_faults reported = []" "book std_codec reported (ProposalId 1) = Some failed_sample"
    by (auto simp: revert_report_attributed book_sample carried_out_def failed_sample_def)
  show "p_status failed_sample = SettleFailed" "p_settlement_tx_hash failed_sample = Some 77" "p_id failed_sample = ProposalId 1"
    by (simp_all add: failed_sample_def with_outcome_def coalesce_def sample_proposal_def)
qed

theorem report_carried_out_witness:
  "fst (notify std_codec sample_clock revert_report (stored_sample Executing)) = 200 \<and>
   book std_codec reported (ProposalId 1) = Some (with_outcome SettleFailed (Some 77) (sample_proposal\<lparr>p_status := Executing\<rparr>))"
proof -
  have "outcome_of revert_report = Some (Reverted 77)" by (simp add: revert_report_def outcome_of_def)
  from report_carried_out [OF sample_facts sample_calm revert_report_room this reported_notify]
  show ?thesis by (simp add: revert_report_attributed book_sample reported_notify)
qed

definition collected :: "debit_attempts \<times> operator \<times> store" where
  "collected = penalty_tick (operator_cost std_codec) (operator_send std_codec) (\<lambda>_. 0) std_codec sample_clock 100
     (no_attempts, ((\<lambda>_. willing_node), []), reported)"

lemma collected_run:
  "penalty_tick (operator_cost std_codec) (operator_send std_codec) (\<lambda>_. 0) std_codec sample_clock 100
     (no_attempts, ((\<lambda>_. willing_node), []), reported) =
   (fst collected, (fst (fst (snd collected)), snd (fst (snd collected))), snd (snd collected))"
  by (simp add: collected_def)

lemma nothing_parked: "\<not> parked (da_revert no_attempts) pid" "\<not> parked (da_non_settlement no_attempts) i"
  by (simp_all add: parked_def no_attempts_def)

theorem due_penalties_collected_witness:
  "\<exists>d\<in>set (snd (fst (snd collected))). de_sub_solver d = 17 \<and> de_reason d = 77 \<and>
     book std_codec (snd (snd collected)) (ProposalId 1) = Some (with_penalty (de_tx d) failed_sample)"
proof -
  have "receipts_true (\<lambda>tx. Some (sample_receipt tx)) ((\<lambda>_. willing_node), [])"
    by (simp add: receipts_true_def willing_node_def)
  from due_penalties_collected [OF reported_facts(1) codec_ok_std reported_facts(2) _ this collected_run] willing_answers
  obtain qs ds pps es where t: "snd (fst (snd collected)) = ds @ es"
    "list_all2 (revert_due (price_on_chain (\<lambda>tx. Some (sample_receipt tx))) 100) qs ds"
    "\<forall>pid p. book std_codec reported pid = Some p \<longrightarrow>
      (if p_status p = SettleFailed \<and> p_settlement_tx_hash p \<noteq> None \<and> \<not> parked (da_revert no_attempts) (p_id p)
       then \<exists>d. (p, d) \<in> set (zip qs ds) \<and> book std_codec (snd (snd collected)) pid = Some (with_penalty (de_tx d) p)
       else book std_codec (snd (snd collected)) pid = Some p)" by auto
  from t(3) [rule_format, OF reported_facts(3)] reported_facts(4-6) nothing_parked
  obtain d where d: "(failed_sample, d) \<in> set (zip qs ds)"
    "book std_codec (snd (snd collected)) (ProposalId 1) = Some (with_penalty (de_tx d) failed_sample)" by auto
  have "revert_due (price_on_chain (\<lambda>tx. Some (sample_receipt tx))) 100 failed_sample d" using t(2) d(1) by (auto simp: list_all2_iff)
  then have "de_sub_solver d = 17" "de_reason d = 77"
    by (auto simp: revert_due_def failed_sample_def with_outcome_def sample_proposal_def coalesce_def)
  moreover have "d \<in> set (snd (fst (snd collected)))" using t(1) set_zip_rightD [OF d(1)] by simp
  ultimately show ?thesis using d(2) by blast
qed

theorem revert_is_charged_witness:
  "\<exists>d. d \<in> set (snd (fst (snd collected))) \<and> de_sub_solver d = 17 \<and> de_reason d = 77 \<and>
     (\<exists>cost. price_on_chain (\<lambda>tx. Some (sample_receipt tx)) 77 cost \<and> de_amount d = revert_debit cost 100)"
proof -
  have "receipts_true (\<lambda>tx. Some (sample_receipt tx)) ((\<lambda>_. willing_node), [])"
    by (simp add: receipts_true_def willing_node_def)
  note charged = revert_is_charged [OF sample_facts sample_calm revert_report_room _ _ revert_report_attributed book_sample
      _ reported_notify _ this collected_run nothing_parked(1), of 77]
  have "nt_kind revert_report = ''revert''" "nt_transaction revert_report = Some 77" by (simp_all add: revert_report_def)
  with charged willing_answers show ?thesis by (auto simp: sample_proposal_def)
qed

end
