(* ===== verification/Solve.thy ===== *)
theory Solve
  imports Gas_Cut Settlement Api
begin

text \<open>
  The solver engine endpoint (\<open>infra/api/solve.rs\<close>): one read of the active proposals per auction, the
  choice of the best proposal for every order, and the solutions bid, each recorded for attribution
  before it is returned. The auction and solution types are the fields of \<open>solvers_dto\<close> the handler
  reads and sets; the fields it sets to fixed empty values are left out. \<open>None\<close> is a panic.
\<close>

record auction_order =
  ao_uid :: order_uid
  ao_sell_token :: address
  ao_buy_token :: address
  ao_sell_amount :: u256
  ao_buy_amount :: u256
  ao_kind :: order_kind
  ao_partially_fillable :: bool

text \<open>\<open>au_reference_price\<close> is the lookup of a token with its optional reference price.\<close>

record auction =
  au_id :: "i64 option"
  au_reference_price :: "address \<Rightarrow> u256 option"
  au_effective_gas_price :: u256
  au_orders :: "auction_order list"

record solution =
  sol_id :: u64
  sol_prices :: "address \<Rightarrow> u256 option"
  sol_order :: order_uid
  sol_executed_amount :: u256
  sol_fee :: u256
  sol_interactions :: "interaction list"
  sol_gas :: u64

definition price_of :: "auction \<Rightarrow> address \<Rightarrow> u256" where
  "price_of a token = (case au_reference_price a token of None \<Rightarrow> 0 | Some p \<Rightarrow> p)"

text \<open>What a proposal is worth for an order: \<open>None\<close> when it is not eligible.\<close>

definition exceeds_remaining :: "auction_order \<Rightarrow> proposal \<Rightarrow> bool" where
  "exceeds_remaining ord p \<longleftrightarrow> ao_partially_fillable ord \<and>
     (case ao_kind ord of Sell \<Rightarrow> ao_sell_amount ord < p_sell_amount p
      | Buy \<Rightarrow> ao_buy_amount ord < p_buy_amount p)"

definition auction_candidate :: "auction \<Rightarrow> auction_order \<Rightarrow> proposal \<Rightarrow> u64 \<Rightarrow> candidate option" where
  "auction_candidate a ord p gas_used =
     scaled_to_fill
       \<lparr>c_order_sell = ao_sell_amount ord, c_order_buy = ao_buy_amount ord,
        c_proposal_sell = p_sell_amount p, c_proposal_buy = p_buy_amount p,
        c_is_sell_order = (ao_kind ord = Sell),
        c_gas_cost = saturating_mul (u256_of (effective_gas gas_used)) (au_effective_gas_price a)\<rparr>
       (ao_partially_fillable ord)"

definition ranked :: "auction \<Rightarrow> auction_order \<Rightarrow> proposal \<Rightarrow> (proposal \<times> u64 \<times> gas_cut \<times> u256) option" where
  "ranked a ord p =
     (let is_sell = (ao_kind ord = Sell);
          surplus_price = SurplusPrice (price_of a (surplus_token is_sell (ao_sell_token ord) (ao_buy_token ord)));
          sell_token_price = SellTokenPrice (price_of a (ao_sell_token ord))
      in if exceeds_remaining ord p then None
         else Option.bind (p_gas_used p) (\<lambda>gas_used.
              Option.bind (auction_candidate a ord p gas_used) (\<lambda>cand.
              Option.bind (score_proposal cand surplus_price) (\<lambda>score.
              Option.bind (gas_cut_size cand sell_token_price) (\<lambda>gcut.
                if 0 < score then Some (p, gas_used, gcut, score) else None)))))"

text \<open>\<open>max_by_key\<close>: of several maxima the last.\<close>

fun max_by_key :: "('a \<Rightarrow> 'b::linorder) \<Rightarrow> 'a list \<Rightarrow> 'a option" where
  "max_by_key k [] = None"
| "max_by_key k (x # xs) =
     (case max_by_key k xs of None \<Rightarrow> Some x | Some y \<Rightarrow> if k y < k x then Some x else Some y)"

definition best_for :: "auction \<Rightarrow> auction_order \<Rightarrow> u256 \<Rightarrow> proposal list \<Rightarrow> (proposal \<times> u64 \<times> gas_cut \<times> u256) option" where
  "best_for a ord now ps =
     max_by_key (\<lambda>(_, _, _, score). score) (List.map_filter (ranked a ord) (filter (\<lambda>p. now < p_valid_until p) ps))"

definition build_solution ::
  "abi \<Rightarrow> u64 \<Rightarrow> auction_order \<Rightarrow> proposal \<Rightarrow> u64 \<Rightarrow> gas_cut \<Rightarrow> solution option" where
  "build_solution e i ord p gas_used gcut =
     (case p_trampoline p of
        None \<Rightarrow> None
      | Some trampoline \<Rightarrow>
          Some \<lparr>sol_id = i,
            sol_prices = ((\<lambda>_. None)(ao_sell_token ord \<mapsto> p_buy_amount p))(ao_buy_token ord \<mapsto> p_sell_amount p),
            sol_order = ao_uid ord,
            sol_executed_amount = gc_executed_amount gcut, sol_fee = gc_amount gcut,
            sol_interactions = encode_trampoline_interactions e trampoline (ao_sell_token ord)
              \<lparr>oc_orderUidHash = p_order_uid_hash p, oc_sellAmount = p_sell_amount p,
               oc_buyAmount = p_buy_amount p, oc_validUntil = p_valid_until p, oc_nonce = p_nonce p\<rparr>
              (p_interactions p) (ao_buy_token ord) (p_signature p),
            sol_gas = effective_gas gas_used\<rparr>)"

text \<open>The loop over the auction's orders, with the solutions bid so far.\<close>

fun solve_orders ::
  "abi \<Rightarrow> auction \<Rightarrow> u256 \<Rightarrow> (order_uid \<Rightarrow> proposal list option) \<Rightarrow> auction_order list \<Rightarrow> solution list
    \<Rightarrow> store \<Rightarrow> (solution list \<times> store) option" where
  "solve_orders e a now by_order [] sols st = Some (sols, st)"
| "solve_orders e a now by_order (ord # ords) sols st =
     (case by_order (ao_uid ord) of
        None \<Rightarrow> solve_orders e a now by_order ords sols st
      | Some ps \<Rightarrow>
     (case best_for a ord now ps of
        None \<Rightarrow> solve_orders e a now by_order ords sols st
      | Some (p, gas_used, gcut, score) \<Rightarrow>
     (let i = word_of_nat (length sols) + 1 in
      case build_solution e i ord p gas_used gcut of
        None \<Rightarrow> solve_orders e a now by_order ords sols st
      | Some sol \<Rightarrow>
     (case i64_of_u64 i of
        None \<Rightarrow> None
      | Some solution_id \<Rightarrow>
     (case au_id a of
        None \<Rightarrow> solve_orders e a now by_order ords (sols @ [sol]) st
      | Some auction_id \<Rightarrow>
     (case record_solution auction_id solution_id (p_id p) st of
        (Inl err, st') \<Rightarrow> solve_orders e a now by_order ords sols st'
      | (Inr _, st') \<Rightarrow> solve_orders e a now by_order ords (sols @ [sol]) st'))))))"

text \<open>The solutions, the gas price published to the validators, and the store.\<close>

definition solve ::
  "codec \<Rightarrow> abi \<Rightarrow> clock \<Rightarrow> auction \<Rightarrow> u64 \<Rightarrow> store \<Rightarrow> (solution list \<times> u64 \<times> store) option" where
  "solve c e clk a gas_price st =
     (let gas_price' = (case u64_of_u256 (au_effective_gas_price a) of Some gp \<Rightarrow> gp | None \<Rightarrow> gas_price) in
      case unix_secs (wall_now clk) of
        None \<Rightarrow> None
      | Some now \<Rightarrow>
          (case active_by_order_uids c (map ao_uid (au_orders a)) st of
             (Inl err, st') \<Rightarrow> Some ([], gas_price', st')
           | (Inr by_order, st') \<Rightarrow>
               map_option (\<lambda>(sols, st''). (sols, gas_price', st''))
                 (solve_orders e a (u256_of now) by_order (au_orders a) [] st')))"

subsection \<open>The choice\<close>

lemma max_by_key_None_iff: "max_by_key k xs = None \<longleftrightarrow> xs = []"
  by (cases xs) (auto split: option.splits)

lemma max_by_key_Some: "max_by_key k xs = Some x \<Longrightarrow> x \<in> set xs \<and> (\<forall>y\<in>set xs. k y \<le> k x)"
  by (induction xs arbitrary: x)
    (auto simp: max_by_key_None_iff not_less split: option.splits if_splits intro: order_trans dest: less_imp_le)

lemma ranked_Some_fst: "ranked a ord p = Some (q, r) \<Longrightarrow> q = p"
  by (auto simp: ranked_def bind_eq_Some_conv Let_def split: if_splits)

lemma mem_map_filter: "y \<in> set (List.map_filter f xs) \<longleftrightarrow> (\<exists>x\<in>set xs. f x = Some y)"
  by (force simp: List.map_filter_def)

lemma best_for_Some:
  assumes "best_for a ord now ps = Some (p, gas, gcut, score)"
  shows "p \<in> set ps \<and> now < p_valid_until p \<and> ranked a ord p = Some (p, gas, gcut, score) \<and>
    (\<forall>q\<in>set ps. now < p_valid_until q \<longrightarrow> (case ranked a ord q of None \<Rightarrow> True | Some (_, _, _, s) \<Rightarrow> s \<le> score))"
proof -
  note best = max_by_key_Some [OF assms [unfolded best_for_def]]
  then obtain q where "q \<in> set ps" "now < p_valid_until q" "ranked a ord q = Some (p, gas, gcut, score)"
    by (auto simp: mem_map_filter)
  moreover from this have "q = p" using ranked_Some_fst by blast
  moreover have "s \<le> score" if "q' \<in> set ps" "now < p_valid_until q'" "ranked a ord q' = Some (q'', g, k, s)" for q' q'' g k s
    using best that by (force simp: mem_map_filter)
  ultimately show ?thesis by (auto split: option.splits)
qed

end
