(* ===== verification/Solve_Properties.thy ===== *)
theory Solve_Properties
  imports Solve
begin

text \<open>
  What \<open>/solve\<close> bids: live proposals only, for every order the best one, under distinct ids each of
  which the store attributes to the proposal bid, within what the order's owner signed.
\<close>

text \<open>A solution backed by a proposal: the best of those stored for an order of the auction, attributed to
  it in the store the handler leaves.\<close>

definition attributes :: "auction \<Rightarrow> store \<Rightarrow> solution \<Rightarrow> proposal_id \<Rightarrow> bool" where
  "attributes a st sol pid \<longleftrightarrow>
     (case au_id a of None \<Rightarrow> True
      | Some auction_id \<Rightarrow> solution_of (st_db st) auction_id (uint (sol_id sol)) = Some (uint (pid_raw pid)))"

definition bids :: "codec \<Rightarrow> abi \<Rightarrow> auction \<Rightarrow> u256 \<Rightarrow> store \<Rightarrow> solution \<Rightarrow> auction_order \<Rightarrow> proposal \<Rightarrow> bool" where
  "bids c e a now st sol ord p \<longleftrightarrow>
     ord \<in> set (au_orders a) \<and> book c st (p_id p) = Some p \<and> p_order_uid p = ao_uid ord \<and>
     p_status p = Active \<and> now < p_valid_until p \<and>
     (\<exists>gas gcut score. ranked a ord p = Some (p, gas, gcut, score) \<and>
        build_solution e (sol_id sol) ord p gas gcut = Some sol \<and>
        (\<forall>q. book c st (p_id q) = Some q \<and> p_order_uid q = ao_uid ord \<and> p_status q = Active \<and> now < p_valid_until q
           \<longrightarrow> (case ranked a ord q of None \<Rightarrow> True | Some (_, _, _, s) \<Rightarrow> s \<le> score)))"

definition numbered :: "solution list \<Rightarrow> bool" where
  "numbered sols \<longleftrightarrow> map sol_id sols = map word_of_nat [1..<Suc (length sols)]"

lemma uint_word_of_nat_u64: "n < 2 ^ 64 \<Longrightarrow> uint (word_of_nat n :: u64) = int n"
  by (simp add: unsigned_of_nat take_bit_int_eq_self take_bit_nat_eq_self flip: uint_nat of_nat_take_bit)

lemma numbered_ids:
  assumes "numbered sols" and "length sols < 2 ^ 63" and "sol \<in> set sols"
  shows "uint (sol_id sol) < int (length sols) + 1"
proof -
  have "sol_id sol \<in> set (map word_of_nat [1..<Suc (length sols)])"
    using assms(1,3) unfolding numbered_def by (metis list.set_map imageI)
  then obtain n where "sol_id sol = word_of_nat n" "n \<le> length sols" by auto
  then show ?thesis using assms(2) by (simp add: uint_word_of_nat_u64)
qed

lemma build_solution_id: "build_solution e i ord p gas gcut = Some sol \<Longrightarrow> sol_id sol = i"
  by (auto simp: build_solution_def split: option.splits)

text \<open>The invariant of the loop, relative to the store the auction was read from.\<close>

definition solving :: "codec \<Rightarrow> abi \<Rightarrow> auction \<Rightarrow> u256 \<Rightarrow> store \<Rightarrow> solution list \<Rightarrow> store \<Rightarrow> bool" where
  "solving c e a now st0 sols st \<longleftrightarrow>
     good c st \<and> book c st = book c st0 \<and> st_audit st = st_audit st0 \<and>
     d_penalties (st_db st) = d_penalties (st_db st0) \<and> numbered sols \<and>
     (\<forall>sol\<in>set sols. \<exists>ord p. bids c e a now st0 sol ord p \<and> attributes a st sol (p_id p))"

lemma solving_push:
  assumes inv: "solving c e a now st0 sols st" and len: "length sols < 2 ^ 63 - 1"
    and i: "i = word_of_nat (length sols) + 1" and id: "i64_of_u64 i = Some sid"
    and b: "bids c e a now st0 sol ord p" "sol_id sol = i"
    and rec: "case au_id a of None \<Rightarrow> st' = st
       | Some auction_id \<Rightarrow> good c st' \<and> st_audit st' = st_audit st \<and> book c st' = book c st \<and>
           d_penalties (st_db st') = d_penalties (st_db st) \<and>
           solution_of (st_db st') = (\<lambda>a' s'. if a' = auction_id \<and> s' = sid then Some (uint (pid_raw (p_id p)))
             else solution_of (st_db st) a' s')"
  shows "solving c e a now st0 (sols @ [sol]) st'"
proof -
  have i': "i = word_of_nat (Suc (length sols))" by (simp add: i)
  have sid: "sid = int (length sols) + 1" "uint i = sid"
    using id len by (auto simp: i64_of_u64_def i' uint_word_of_nat_u64 simp del: of_nat_Suc split: if_splits)
  have num: "numbered (sols @ [sol])" using inv b(2) i' by (simp add: solving_def numbered_def)
  have old: "attributes a st' s (p_id q)" if "s \<in> set sols" "attributes a st s (p_id q)" for s q
  proof -
    have "uint (sol_id s) < sid"
      using numbered_ids [OF _ _ that(1)] inv len by (simp add: solving_def sid)
    then show ?thesis using that(2) rec by (auto simp: attributes_def split: option.splits)
  qed
  have new: "attributes a st' sol (p_id p)"
    using rec sid b(2) by (auto simp: attributes_def split: option.splits)
  have st': "good c st'" "book c st' = book c st0" "st_audit st' = st_audit st0"
      "d_penalties (st_db st') = d_penalties (st_db st0)"
    using inv rec by (auto simp: solving_def split: option.splits)
  have "\<forall>s\<in>set (sols @ [sol]). \<exists>ord p. bids c e a now st0 s ord p \<and> attributes a st' s (p_id p)"
    using inv old new b(1) unfolding solving_def by (metis Un_iff list.set(1,2) set_append singletonD insert_iff)
  with st' num show ?thesis unfolding solving_def by blast
qed

lemma solve_orders_solving:
  assumes "solving c e a now st0 sols st" and "set ords \<subseteq> set (au_orders a)"
    and "length sols + length ords < 2 ^ 63 - 1"
    and by_order: "\<And>uid ps. by_order uid = Some ps \<Longrightarrow>
      stored_where c st0 (\<lambda>q. p_order_uid q = uid \<and> p_status q = Active) ps"
  shows "\<exists>sols' st'. solve_orders e a now by_order ords sols st = Some (sols', st') \<and> solving c e a now st0 sols' st'"
  using assms(1-3)
proof (induction ords arbitrary: sols st)
  case Nil
  then show ?case by simp
next
  case (Cons ord ords)
  have skip: "\<exists>sols' st'. solve_orders e a now by_order ords sols st1 = Some (sols', st') \<and> solving c e a now st0 sols' st'"
    if "solving c e a now st0 sols st1" for st1
    using Cons.IH [OF that] Cons.prems by simp
  have push: "\<exists>sols' st'. solve_orders e a now by_order ords (sols @ [sol]) st1 = Some (sols', st') \<and> solving c e a now st0 sols' st'"
    if "solving c e a now st0 (sols @ [sol]) st1" for sol st1
    using Cons.IH [OF that] Cons.prems by simp
  show ?case
  proof (cases "Option.bind (by_order (ao_uid ord)) (best_for a ord now)")
    case None
    then show ?thesis using skip [OF Cons.prems(1)] by (auto split: option.splits)
  next
    case (Some pick)
    obtain p gas gcut score where pick: "pick = (p, gas, gcut, score)" by (cases pick)
    from Some obtain ps where ps: "by_order (ao_uid ord) = Some ps" "best_for a ord now ps = Some (p, gas, gcut, score)"
      unfolding pick by (auto simp: bind_eq_Some_conv)
    note best = best_for_Some [OF ps(2)]
    have stored: "set ps = {q. book c st0 (p_id q) = Some q \<and> p_order_uid q = ao_uid ord \<and> p_status q = Active}"
      using by_order [OF ps(1)] by (simp add: stored_where_def)
    let ?i = "word_of_nat (length sols) + 1 :: u64"
    show ?thesis
    proof (cases "build_solution e ?i ord p gas gcut")
      case None
      then show ?thesis using skip [OF Cons.prems(1)] ps by simp
    next
      case sol: (Some sol)
      have b: "bids c e a now st0 sol ord p"
        using best stored sol build_solution_id [OF sol] Cons.prems(2) by (auto simp: bids_def)
      have len: "length sols < 2 ^ 63 - 1" using Cons.prems(3) by simp
      have "uint ?i = int (Suc (length sols))" using uint_word_of_nat_u64 [of "Suc (length sols)"] len
        by (simp add: add.commute)
      then obtain sid where sid: "i64_of_u64 ?i = Some sid" using len by (simp add: i64_of_u64_def)
      note pushed = solving_push [OF Cons.prems(1) len refl sid b build_solution_id [OF sol]]
      show ?thesis
      proof (cases "au_id a")
        case None
        then show ?thesis using push [OF pushed] ps sol sid by simp
      next
        case au: (Some auction_id)
        obtain r st1 where run: "record_solution auction_id sid (p_id p) st = (r, st1)"
          by (cases "record_solution auction_id sid (p_id p) st")
        have "good c st" using Cons.prems(1) by (simp add: solving_def)
        note spec = wpD [OF wp_record_solution [OF this] run]
        show ?thesis
        proof (cases r)
          case (Inl err)
          then have "good c st1" "st_db st1 = st_db st" "st_audit st1 = st_audit st"
            using spec by (simp_all add: same_state_def)
          then have "solving c e a now st0 sols st1"
            using Cons.prems(1) unfolding solving_def attributes_def book_def by (elim conjE) (simp only: simp_thms)
          then show ?thesis using skip ps sol sid au run Inl by simp
        next
          case (Inr u)
          then show ?thesis using push [OF pushed] spec ps sol sid au run by simp
        qed
      qed
    qed
  qed
qed

lemma solve_solving:
  assumes "good c st" and "codec_ok c" and "unix_secs (wall_now clk) = Some now"
    and "length (au_orders a) < 2 ^ 63 - 1"
  shows "\<exists>sols gp st'. solve c e clk a gas_price st = Some (sols, gp, st') \<and> solving c e a (u256_of now) st sols st'"
proof -
  obtain r st1 where run: "active_by_order_uids c (map ao_uid (au_orders a)) st = (r, st1)"
    by (cases "active_by_order_uids c (map ao_uid (au_orders a)) st")
  note spec = wpD [OF wp_active_by_order_uids [OF assms(1,2)] run]
  show ?thesis
  proof (cases r)
    case (Inl err)
    with spec run assms(3) show ?thesis by (simp add: solve_def read_result_def same_state_def book_def solving_def numbered_def)
  next
    case (Inr by_order)
    have "solving c e a (u256_of now) st [] st1"
      using spec by (simp add: read_result_def solving_def same_state_def book_def numbered_def)
    moreover have "stored_where c st (\<lambda>q. p_order_uid q = uid \<and> p_status q = Active) ps"
      if "by_order uid = Some ps" for uid ps
    proof -
      from spec Inr have "case by_order uid of
          None \<Rightarrow> uid \<in> set (map ao_uid (au_orders a)) \<longrightarrow> stored_where c st (\<lambda>q. p_order_uid q = uid \<and> p_status q = Active) []
        | Some ps \<Rightarrow> uid \<in> set (map ao_uid (au_orders a)) \<and> ps \<noteq> [] \<and>
            stored_where c st (\<lambda>q. p_order_uid q = uid \<and> p_status q = Active) ps" by (simp add: read_result_def)
      with that show ?thesis by simp
    qed
    ultimately obtain sols st' where
      "solve_orders e a (u256_of now) by_order (au_orders a) [] st1 = Some (sols, st')"
      "solving c e a (u256_of now) st sols st'"
      using solve_orders_solving [of c e a "u256_of now" st "[]" st1 "au_orders a" by_order] assms(4) by auto
    with run Inr assms(3) show ?thesis by (simp add: solve_def)
  qed
qed

text \<open>C7. Every bid is backed: with the clock past the epoch \<open>/solve\<close> never panics and changes no
  proposal, no charge and no evidence. The solutions it returns are numbered 1, 2, ... without gaps, and
  each is built from a proposal that is stored, \<open>Active\<close>, unexpired and for that order, whose score is
  positive and at least that of every other such proposal the handler may choose, and to which - the
  auction having an id - the store attributes that very solution when the answer goes out.\<close>

theorem bids_are_backed:
  assumes "good c st" and "codec_ok c" and "unix_secs (wall_now clk) = Some now"
    and "length (au_orders a) < 2 ^ 63 - 1"
  shows "\<exists>sols gp st'. solve c e clk a gas_price st = Some (sols, gp, st') \<and> good c st' \<and>
    book c st' = book c st \<and> st_audit st' = st_audit st \<and> d_penalties (st_db st') = d_penalties (st_db st) \<and>
    map sol_id sols = map word_of_nat [1..<Suc (length sols)] \<and>
    (\<forall>sol\<in>set sols. \<exists>ord p. bids c e a (u256_of now) st sol ord p \<and> attributes a st' sol (p_id p))"
  using solve_solving [OF assms, of e gas_price] by (auto simp: solving_def numbered_def)

definition toy_abi :: abi where
  "toy_abi = \<lparr>abi_transfer = (\<lambda>to amount. be_bytes 20 to @ be_bytes 32 amount),
     abi_execute = (\<lambda>x. ec_signature x), abi_settle = (\<lambda>x. concat (map i_callData (sc_intra x)))\<rparr>"

definition sample_auction :: auction where
  "sample_auction = \<lparr>au_id = Some 7, au_reference_price = (\<lambda>_. Some 5000000000000000000), au_effective_gas_price = 1,
     au_orders = [\<lparr>ao_uid = sample_uid, ao_sell_token = 21, ao_buy_token = 22, ao_sell_amount = 1000000,
       ao_buy_amount = 900000, ao_kind = Sell, ao_partially_fillable = False\<rparr>]\<rparr>"

theorem bids_are_backed_witness:
  "\<exists>sols gp st'. solve std_codec toy_abi sample_clock sample_auction 0 (stored_sample Active) = Some (sols, gp, st') \<and>
     map sol_id sols = map word_of_nat [1..<Suc (length sols)]"
  using bids_are_backed [OF sample_facts, of sample_clock 600 sample_auction toy_abi 0 Active]
  by (auto simp: unix_secs_def sample_clock_def sample_auction_def)

subsection \<open>What a bid asks of the order's owner\<close>

lemma scaled_sell:
  assumes "scaled_to_fill c part = Some c'" and "c_is_sell_order c"
  shows "c_is_sell_order c'" and "c_proposal_sell c' = c_proposal_sell c" and "c_proposal_buy c' = c_proposal_buy c"
    and "c_order_sell c' = (if part then c_proposal_sell c else c_order_sell c)"
    and "unat (c_order_buy c) * unat (c_order_sell c') \<le> unat (c_order_buy c') * unat (c_order_sell c)"
proof -
  show "c_is_sell_order c'" "c_proposal_sell c' = c_proposal_sell c" "c_proposal_buy c' = c_proposal_buy c"
    "c_order_sell c' = (if part then c_proposal_sell c else c_order_sell c)"
    using assms by (auto simp: scaled_to_fill_def bind_eq_Some_conv Let_def split: if_splits)
  show "unat (c_order_buy c) * unat (c_order_sell c') \<le> unat (c_order_buy c') * unat (c_order_sell c)"
  proof (cases part)
    case True
    with assms obtain prod where nz: "c_order_sell c \<noteq> 0"
      and prod: "checked_mul (c_order_buy c) (c_proposal_sell c) = Some prod"
      and c': "c' = c\<lparr>c_order_sell := c_proposal_sell c, c_order_buy := div_ceil prod (c_order_sell c)\<rparr>"
      by (auto simp: scaled_to_fill_def bind_eq_Some_conv Let_def split: if_splits)
    have "unat prod \<le> ceil_div (unat prod) (unat (c_order_sell c)) * unat (c_order_sell c)"
      using nz by (intro ceil_div_ge) (simp add: unat_gt_0)
    with prod nz show ?thesis by (simp add: c' arith_facts)
  qed (use assms in \<open>auto simp: scaled_to_fill_def\<close>)
qed

lemma scaled_buy:
  assumes "scaled_to_fill c part = Some c'" and "\<not> c_is_sell_order c"
  shows "\<not> c_is_sell_order c'" and "c_proposal_sell c' = c_proposal_sell c"
    and "c_order_buy c' = (if part then c_proposal_buy c else c_order_buy c)"
    and "unat (c_order_sell c') * unat (c_order_buy c) \<le> unat (c_order_sell c) * unat (c_order_buy c')"
proof -
  show "\<not> c_is_sell_order c'" "c_proposal_sell c' = c_proposal_sell c"
    "c_order_buy c' = (if part then c_proposal_buy c else c_order_buy c)"
    using assms by (auto simp: scaled_to_fill_def bind_eq_Some_conv Let_def split: if_splits)
  show "unat (c_order_sell c') * unat (c_order_buy c) \<le> unat (c_order_sell c) * unat (c_order_buy c')"
  proof (cases part)
    case True
    with assms obtain prod q where "checked_mul (c_order_sell c) (c_proposal_buy c) = Some prod"
      "checked_div prod (c_order_buy c) = Some q" "c' = c\<lparr>c_order_sell := q, c_order_buy := c_proposal_buy c\<rparr>"
      by (auto simp: scaled_to_fill_def bind_eq_Some_conv Let_def split: if_splits)
    then show ?thesis by (simp add: arith_facts) (metis div_times_less_eq_dividend)
  qed (use assms in \<open>auto simp: scaled_to_fill_def\<close>)
qed

lemma rankedE:
  assumes "ranked a ord p = Some (q, gas, gcut, score)"
  obtains cand where "\<not> exceeds_remaining ord p" "auction_candidate a ord p gas = Some cand"
    "gas_cut_size cand (SellTokenPrice (price_of a (ao_sell_token ord))) = Some gcut" "0 < score"
  using assms by (auto simp: ranked_def bind_eq_Some_conv Let_def split: if_splits)

text \<open>C15. A bid honours the order net of the fee it keeps. For a sell order the executed amount and the
  fee together are the order's sell amount (the proposal's for a partial fill, never more than what
  remains), and at the route's rate the executed amount alone still buys the limit price for both. For
  a buy order the executed amount is the order's buy amount (the proposal's for a partial fill, never
  more than what remains), and the route's input plus the fee stays within the limit price for it.\<close>

theorem bid_honours_order:
  assumes "ranked a ord p = Some (q, gas, gcut, score)" and "build_solution e i ord p gas gcut = Some sol"
  shows "case ao_kind ord of
      Sell \<Rightarrow>
        unat (sol_executed_amount sol) + unat (sol_fee sol)
          = unat (if ao_partially_fillable ord then p_sell_amount p else ao_sell_amount ord) \<and>
        unat (sol_executed_amount sol) + unat (sol_fee sol) \<le> unat (ao_sell_amount ord) \<and>
        unat (ao_buy_amount ord) * (unat (sol_executed_amount sol) + unat (sol_fee sol)) * unat (p_sell_amount p)
          \<le> unat (p_buy_amount p) * unat (sol_executed_amount sol) * unat (ao_sell_amount ord)
    | Buy \<Rightarrow>
        sol_executed_amount sol = (if ao_partially_fillable ord then p_buy_amount p else ao_buy_amount ord) \<and>
        sol_executed_amount sol \<le> ao_buy_amount ord \<and>
        (unat (p_sell_amount p) + unat (sol_fee sol)) * unat (ao_buy_amount ord)
          \<le> unat (ao_sell_amount ord) * unat (sol_executed_amount sol)"
proof -
  obtain cand where ex: "\<not> exceeds_remaining ord p" and cand: "auction_candidate a ord p gas = Some cand"
    and gcut: "gas_cut_size cand (SellTokenPrice (price_of a (ao_sell_token ord))) = Some gcut"
    using rankedE [OF assms(1)] by metis
  have sol: "sol_executed_amount sol = gc_executed_amount gcut" "sol_fee sol = gc_amount gcut"
    using assms(2) by (auto simp: build_solution_def split: option.splits)
  note scale = cand [unfolded auction_candidate_def]
  show ?thesis
  proof (cases "ao_kind ord")
    case Sell
    note s = scaled_sell [OF scale, simplified, OF Sell]
    note g = gas_cut_sell [OF gcut s(1)]
    let ?ob = "unat (ao_buy_amount ord)" and ?os = "unat (ao_sell_amount ord)" and ?ps = "unat (p_sell_amount p)"
      and ?pb = "unat (p_buy_amount p)" and ?ex = "unat (gc_executed_amount gcut)"
      and ?co = "unat (c_order_sell cand)" and ?cb = "unat (c_order_buy cand)"
    have nz: "0 < ?ps" using g(2) s(2) by (simp add: unat_gt_0)
    have "?cb * ?ps \<le> ?pb * ?ex" using g(3) s nz by (simp add: le_div_iff)
    then have "?cb * ?ps * ?os \<le> ?pb * ?ex * ?os" by (rule mult_le_mono1)
    moreover have "?ob * ?co * ?ps \<le> ?cb * ?os * ?ps" using s(5) by (intro mult_le_mono1) simp
    moreover have "?cb * ?os * ?ps = ?cb * ?ps * ?os" by (simp only: ac_simps)
    ultimately have "?ob * ?co * ?ps \<le> ?pb * ?ex * ?os" by linarith
    moreover have "?co \<le> ?os" using s(4) ex Sell by (simp add: exceeds_remaining_def word_le_nat_alt not_less)
    moreover have "c_order_sell cand = (if ao_partially_fillable ord then p_sell_amount p else ao_sell_amount ord)"
      using s(4) by simp
    ultimately show ?thesis using Sell g(1) sol by (auto simp: add.commute split: if_splits)
  next
    case Buy
    note b = scaled_buy [OF scale, simplified, unfolded Buy, simplified]
    note g = gas_cut_buy [OF gcut b(1)]
    have le: "c_order_buy cand \<le> ao_buy_amount ord"
      using b(3) ex Buy by (simp add: exceeds_remaining_def not_less)
    have "(unat (p_sell_amount p) + unat (gc_amount gcut)) * unat (ao_buy_amount ord)
        \<le> unat (c_order_sell cand) * unat (ao_buy_amount ord)"
      using g(2) b(2) by (intro mult_le_mono1) simp
    also have "\<dots> \<le> unat (ao_sell_amount ord) * unat (c_order_buy cand)" using b(4) by simp
    finally show ?thesis using Buy le b(3) g(1) sol by simp
  qed
qed

definition biddable :: proposal where
  "biddable = sample_proposal\<lparr>p_status := Active, p_buy_amount := 1000000, p_gas_used := Some 100000,
     p_trampoline := Some 3\<rparr>"

definition sample_order :: auction_order where
  "sample_order = \<lparr>ao_uid = sample_uid, ao_sell_token = 21, ao_buy_token = 22, ao_sell_amount = 1000000,
     ao_buy_amount = 900000, ao_kind = Sell, ao_partially_fillable = False\<rparr>"

lemma biddable_ranked:
  "ranked sample_auction sample_order biddable
     = Some (biddable, 100000, \<lparr>gc_amount = 26000, gc_executed_amount = 974000\<rparr>, 370000)"
  by (simp add: ranked_def sample_order_def biddable_def sample_proposal_def exceeds_remaining_def Let_def
      auction_candidate_def scaled_to_fill_def effective_gas_def GAS_BUFFER_def sample_auction_def price_of_def
      saturating_add_def saturating_mul_def u256_of_def surplus_token_def checked_sub_def checked_mul_def
      checked_div_def div_ceil_def ETHER_def)

theorem bid_honours_order_witness:
  "\<exists>sol. build_solution toy_abi 1 sample_order biddable 100000 \<lparr>gc_amount = 26000, gc_executed_amount = 974000\<rparr> = Some sol \<and>
     unat (sol_executed_amount sol) + unat (sol_fee sol) = 1000000"
proof -
  have "p_trampoline biddable = Some 3" by (simp add: biddable_def)
  then obtain sol where sol: "build_solution toy_abi 1 sample_order biddable 100000
      \<lparr>gc_amount = 26000, gc_executed_amount = 974000\<rparr> = Some sol"
    by (simp add: build_solution_def)
  with bid_honours_order [OF biddable_ranked sol] show ?thesis by (auto simp: sample_order_def)
qed

end
