(* ===== verification/Listeners.thy ===== *)
theory Listeners
  imports Notify Solve_Properties Api_Properties
begin

text \<open>
  The two listeners (\<open>infra/api/mod.rs\<close>): their route tables, the bearer layer over the driver's
  endpoints, and what a request does. Which route of a table serves a path is decided by the framework
  and so a parameter, \<open>dp_dispatch\<close>, with its documented rules in \<open>dispatch_ok\<close>: the path must match,
  a static path goes before a capture, and the method is looked at last, inside the layer of the path's
  routes. Bodies and path parameters are
  extracted by the framework too (\<open>extractors\<close>; \<open>Inl\<close> is the status of its rejection).
\<close>

datatype http_method = GET | HEAD | POST | DELETE | OtherMethod string

datatype segment = Static string | Capture

datatype endpoint =
    Healthz | CreateProposal | GetProposal | CancelProposal | ListProposals | ListBySubSolver | SolveAuction | NotifyOutcome

record route =
  ro_method :: http_method
  ro_path :: "segment list"
  ro_endpoint :: endpoint
  ro_layer :: "string option"

definition route_to :: "segment list \<Rightarrow> http_method \<Rightarrow> endpoint \<Rightarrow> route" where
  "route_to path m ep = \<lparr>ro_method = m, ro_path = path, ro_endpoint = ep, ro_layer = None\<rparr>"

definition public_router :: "route list" where
  "public_router =
     [route_to [Static ''healthz''] GET Healthz,
      route_to [Static ''proposals''] POST CreateProposal,
      route_to [Static ''proposal'', Capture] GET GetProposal,
      route_to [Static ''proposal'', Capture] DELETE CancelProposal,
      route_to [Static ''proposals'', Capture] GET ListProposals,
      route_to [Static ''proposals'', Static ''by-sub-solver''] GET ListBySubSolver]"

definition internal_router :: "string option \<Rightarrow> route list" where
  "internal_router solve_bearer_token =
     (let solve = [route_to [Static ''solve''] POST SolveAuction, route_to [Static ''notify''] POST NotifyOutcome];
          solve = (case solve_bearer_token of
              None \<Rightarrow> solve
            | Some token \<Rightarrow> map (\<lambda>r. r\<lparr>ro_layer := Some token\<rparr>) solve)
      in [route_to [Static ''healthz''] GET Healthz] @ solve)"

subsection \<open>Requests and answers\<close>

record http_request =
  hr_method :: http_method
  hr_path :: "string list"
  hr_authorization :: header
  hr_signature :: header
  hr_body :: bytes

datatype body =
    NoBody | FrameworkText | ErrorBody api_error | CreatedBody u64 | ProposalBody get_response
  | ListBody "metadata list" | SolutionsBody "solution list"

record http_response =
  hs_status :: nat
  hs_body :: body
  hs_challenge :: "string option"

record extractors =
  ex_id :: "string \<Rightarrow> nat + proposal_id"
  ex_create :: "http_request \<Rightarrow> nat + create_request"
  ex_auction :: "http_request \<Rightarrow> nat + auction"
  ex_notification :: "http_request \<Rightarrow> nat + notification"

text \<open>\<open>WrongMethod\<close> carries the layer of the path: the framework's answer to a method no route of the path
  serves is part of that path's routes, and a \<open>route_layer\<close> wraps it with them.\<close>

datatype dispatched = NoRoute | WrongMethod "string option" | Matched route "string list"

record deployment =
  dp_codec :: codec
  dp_crypto :: crypto
  dp_abi :: abi
  dp_app :: app_state
  dp_extract :: extractors
  dp_dispatch :: "route list \<Rightarrow> http_method \<Rightarrow> string list \<Rightarrow> dispatched"

text \<open>The mutable part of \<open>AppState\<close>.\<close>

record shared =
  sh_store :: store
  sh_gas_price :: u64

definition rendered :: "nat \<Rightarrow> ('a \<Rightarrow> body) \<Rightarrow> api_error + 'a \<Rightarrow> nat \<times> body" where
  "rendered ok f r = (case r of Inl e \<Rightarrow> (error_status (err_kind e), ErrorBody e) | Inr a \<Rightarrow> (ok, f a))"

text \<open>A handler over the store alone, and one that may panic; the first fallible extractor that rejects
  answers instead.\<close>

definition over_store :: "nat \<Rightarrow> ('a \<Rightarrow> body) \<Rightarrow> 'a handler \<Rightarrow> shared \<Rightarrow> (nat \<times> body) \<times> shared" where
  "over_store ok f h sh = (case h (sh_store sh) of (r, st') \<Rightarrow> (rendered ok f r, sh\<lparr>sh_store := st'\<rparr>))"

definition extracted :: "nat + 'a \<Rightarrow> shared \<Rightarrow> ('a \<Rightarrow> ((nat \<times> body) \<times> shared) option) \<Rightarrow> ((nat \<times> body) \<times> shared) option" where
  "extracted x sh h = (case x of Inl status \<Rightarrow> Some ((status, FrameworkText), sh) | Inr a \<Rightarrow> h a)"

definition first_capture :: "string list \<Rightarrow> string" where
  "first_capture caps = (case caps of [] \<Rightarrow> [] | s # _ \<Rightarrow> s)"

fun run_endpoint ::
  "deployment \<Rightarrow> clock \<Rightarrow> http_request \<Rightarrow> string list \<Rightarrow> shared \<Rightarrow> endpoint \<Rightarrow> ((nat \<times> body) \<times> shared) option" where
  "run_endpoint dp clk req caps sh Healthz = Some ((healthz, NoBody), sh)"
| "run_endpoint dp clk req caps sh CreateProposal =
     extracted (ex_create (dp_extract dp) req) sh (\<lambda>body.
       map_option (\<lambda>(r, st'). (rendered 202 (\<lambda>pid. CreatedBody (pid_raw pid)) r, sh\<lparr>sh_store := st'\<rparr>))
         (create_proposal (dp_codec dp) (dp_crypto dp) (dp_app dp) clk body (sh_store sh)))"
| "run_endpoint dp clk req caps sh GetProposal =
     extracted (ex_id (dp_extract dp) (first_capture caps)) sh (\<lambda>pid.
       Some (over_store 200 ProposalBody (get_endpoint (dp_codec dp) (dp_crypto dp) (dp_app dp) pid (hr_signature req)) sh))"
| "run_endpoint dp clk req caps sh CancelProposal =
     extracted (ex_id (dp_extract dp) (first_capture caps)) sh (\<lambda>pid.
       Some (over_store 204 (\<lambda>_. NoBody)
         (cancel_proposal (dp_codec dp) (dp_crypto dp) (dp_app dp) clk pid (hr_signature req)) sh))"
| "run_endpoint dp clk req caps sh ListProposals =
     Some (over_store 200 ListBody
       (list_proposals (dp_codec dp) (dp_crypto dp) (dp_app dp) (first_capture caps) (hr_signature req)) sh)"
| "run_endpoint dp clk req caps sh ListBySubSolver =
     Some (over_store 200 ListBody
       (list_proposals_by_sub_solver (dp_codec dp) (dp_crypto dp) (dp_app dp) (hr_signature req)) sh)"
| "run_endpoint dp clk req caps sh SolveAuction =
     extracted (ex_auction (dp_extract dp) req) sh (\<lambda>a.
       map_option (\<lambda>(sols, gas_price, st'). ((200, SolutionsBody sols), \<lparr>sh_store = st', sh_gas_price = gas_price\<rparr>))
         (solve (dp_codec dp) (dp_abi dp) clk a (sh_gas_price sh) (sh_store sh)))"
| "run_endpoint dp clk req caps sh NotifyOutcome =
     extracted (ex_notification (dp_extract dp) req) sh (\<lambda>n.
       case notify (dp_codec dp) clk n (sh_store sh) of (status, st') \<Rightarrow>
         Some ((status, NoBody), sh\<lparr>sh_store := st'\<rparr>))"

text \<open>One request on a listener; the layer runs before the handler, and only on a path that has routes. The
  framework drops the body of an answer to \<open>HEAD\<close>. \<open>None\<close>: the handler panicked and the connection is
  closed.\<close>

definition serve_request ::
  "deployment \<Rightarrow> route list \<Rightarrow> clock \<Rightarrow> http_request \<Rightarrow> shared \<Rightarrow> (http_response \<times> shared) option" where
  "serve_request dp router clk req sh =
     (case dp_dispatch dp router (hr_method req) (hr_path req) of
        NoRoute \<Rightarrow> Some (\<lparr>hs_status = 404, hs_body = NoBody, hs_challenge = None\<rparr>, sh)
      | WrongMethod layer \<Rightarrow>
          (case internal_gate layer (hr_authorization req) (\<lambda>sh. (405, sh)) sh of
             (Inl status, sh') \<Rightarrow> Some (\<lparr>hs_status = status, hs_body = NoBody, hs_challenge = Some ''Bearer''\<rparr>, sh')
           | (Inr status, sh') \<Rightarrow> Some (\<lparr>hs_status = status, hs_body = NoBody, hs_challenge = None\<rparr>, sh'))
      | Matched r caps \<Rightarrow>
          (case internal_gate (ro_layer r) (hr_authorization req)
                  (\<lambda>sh. (run_endpoint dp clk req caps sh (ro_endpoint r), sh)) sh of
             (Inl status, sh') \<Rightarrow> Some (\<lparr>hs_status = status, hs_body = NoBody, hs_challenge = Some ''Bearer''\<rparr>, sh')
           | (Inr None, sh') \<Rightarrow> None
           | (Inr (Some ((status, b), sh')), _) \<Rightarrow>
               Some (\<lparr>hs_status = status, hs_body = (if hr_method req = HEAD then NoBody else b), hs_challenge = None\<rparr>, sh')))"

subsection \<open>The framework's rules\<close>

text \<open>A \<open>GET\<close> route also serves \<open>HEAD\<close>; a capture takes one non-empty segment.\<close>

definition serves :: "http_method \<Rightarrow> http_method \<Rightarrow> bool" where
  "serves route_method m \<longleftrightarrow> m = route_method \<or> (route_method = GET \<and> m = HEAD)"

fun captures :: "segment list \<Rightarrow> string list \<Rightarrow> string list option" where
  "captures [] [] = Some []"
| "captures (Static s # ps) (x # xs) = (if x = s then captures ps xs else None)"
| "captures (Capture # ps) (x # xs) = (if x = [] then None else map_option ((#) x) (captures ps xs))"
| "captures _ _ = None"

definition static_path :: "segment list \<Rightarrow> bool" where
  "static_path ps \<longleftrightarrow> Capture \<notin> set ps"

definition candidates :: "route list \<Rightarrow> string list \<Rightarrow> route list" where
  "candidates rs path =
     (let found = filter (\<lambda>r. captures (ro_path r) path \<noteq> None) rs;
          exact = filter (\<lambda>r. static_path (ro_path r)) found
      in if exact = [] then found else exact)"

definition dispatch_law :: "route list \<Rightarrow> http_method \<Rightarrow> string list \<Rightarrow> dispatched \<Rightarrow> bool" where
  "dispatch_law rs m path x \<longleftrightarrow> (case x of
       NoRoute \<Rightarrow> candidates rs path = []
     | WrongMethod layer \<Rightarrow> (\<exists>r\<in>set (candidates rs path). layer = ro_layer r) \<and> (\<forall>r\<in>set (candidates rs path). \<not> serves (ro_method r) m)
     | Matched r caps \<Rightarrow> r \<in> set (candidates rs path) \<and> serves (ro_method r) m \<and> captures (ro_path r) path = Some caps)"

definition dispatch_ok :: "(route list \<Rightarrow> http_method \<Rightarrow> string list \<Rightarrow> dispatched) \<Rightarrow> bool" where
  "dispatch_ok dispatch \<longleftrightarrow> (\<forall>rs m path. dispatch_law rs m path (dispatch rs m path))"

definition std_dispatch :: "route list \<Rightarrow> http_method \<Rightarrow> string list \<Rightarrow> dispatched" where
  "std_dispatch rs m path =
     (case candidates rs path of
        [] \<Rightarrow> NoRoute
      | c # cs \<Rightarrow> (case List.find (\<lambda>r. serves (ro_method r) m) (c # cs) of
            None \<Rightarrow> WrongMethod (ro_layer c)
          | Some r \<Rightarrow> (case captures (ro_path r) path of None \<Rightarrow> NoRoute | Some caps \<Rightarrow> Matched r caps)))"

lemma candidates_match: "r \<in> set (candidates rs path) \<Longrightarrow> r \<in> set rs \<and> (\<exists>caps. captures (ro_path r) path = Some caps)"
  by (auto simp: candidates_def Let_def split: if_splits)

lemma dispatch_ok_std: "dispatch_ok std_dispatch"
proof -
  have "dispatch_law rs m path (std_dispatch rs m path)" for rs m path
  proof (cases "candidates rs path")
    case (Cons r' cs)
    show ?thesis
    proof (cases "List.find (\<lambda>r. serves (ro_method r) m) (candidates rs path)")
      case None
      then have "\<forall>r\<in>set (candidates rs path). \<not> serves (ro_method r) m" by (auto simp: find_None_iff)
      with None Cons show ?thesis by (simp add: std_dispatch_def dispatch_law_def)
    next
      case (Some r)
      then have r: "r \<in> set (candidates rs path)" "serves (ro_method r) m" by (auto simp: find_Some_iff)
      with candidates_match [of r rs path] obtain caps where "captures (ro_path r) path = Some caps" by blast
      with r Some Cons show ?thesis by (simp add: std_dispatch_def dispatch_law_def)
    qed
  qed (simp add: std_dispatch_def dispatch_law_def)
  then show ?thesis by (simp add: dispatch_ok_def)
qed

subsection \<open>Which handler a request reaches\<close>

lemma dispatch_one:
  assumes "dispatch_ok d" and "filter (\<lambda>r. serves (ro_method r) m) (candidates rs path) = [r]"
  shows "d rs m path = Matched r (the (captures (ro_path r) path))"
proof -
  have law: "dispatch_law rs m path (d rs m path)" using assms(1) by (simp add: dispatch_ok_def)
  have u: "r' \<in> set (candidates rs path) \<and> serves (ro_method r') m \<longleftrightarrow> r' = r" for r'
    using arg_cong [OF assms(2), of set] by auto
  show ?thesis
  proof (cases "d rs m path")
    case NoRoute
    with law have "candidates rs path = []" by (simp add: dispatch_law_def)
    with u [of r] show ?thesis by simp
  next
    case WrongMethod
    with law u [of r] show ?thesis by (auto simp: dispatch_law_def)
  next
    case (Matched r' caps)
    with law u [of r'] show ?thesis by (simp add: dispatch_law_def)
  qed
qed

lemma dispatch_none:
  assumes "dispatch_ok d" and "filter (\<lambda>r. serves (ro_method r) m) (candidates rs path) = []"
  shows "if candidates rs path = [] then d rs m path = NoRoute
    else \<exists>r\<in>set (candidates rs path). d rs m path = WrongMethod (ro_layer r)"
proof -
  have law: "dispatch_law rs m path (d rs m path)" using assms(1) by (simp add: dispatch_ok_def)
  show ?thesis
  proof (cases "d rs m path")
    case (Matched r' caps)
    with law have "r' \<in> set (filter (\<lambda>r. serves (ro_method r) m) (candidates rs path))" by (simp add: dispatch_law_def)
    with assms(2) show ?thesis by simp
  qed (use law in \<open>auto simp: dispatch_law_def\<close>)
qed

text \<open>The handler a request on the public listener is meant for, with the captured segment.\<close>

fun public_target :: "http_method \<Rightarrow> string list \<Rightarrow> (endpoint \<times> string list) option" where
  "public_target m [a] =
     (if a = ''healthz'' \<and> serves GET m then Some (Healthz, [])
      else if a = ''proposals'' \<and> m = POST then Some (CreateProposal, []) else None)"
| "public_target m [a, s] =
     (if s = [] then None
      else if a = ''proposal'' \<and> serves GET m then Some (GetProposal, [s])
      else if a = ''proposal'' \<and> m = DELETE then Some (CancelProposal, [s])
      else if a = ''proposals'' \<and> serves GET m
        then Some (if s = ''by-sub-solver'' then (ListBySubSolver, []) else (ListProposals, [s])) else None)"
| "public_target m _ = None"

fun internal_target :: "http_method \<Rightarrow> string list \<Rightarrow> endpoint option" where
  "internal_target m [a] =
     (if a = ''healthz'' \<and> serves GET m then Some Healthz
      else if a = ''solve'' \<and> m = POST then Some SolveAuction
      else if a = ''notify'' \<and> m = POST then Some NotifyOutcome else None)"
| "internal_target m _ = None"

lemma public_candidates:
  "candidates public_router [] = []"
  "candidates public_router [a] =
     (if a = ''healthz'' then [route_to [Static ''healthz''] GET Healthz]
      else if a = ''proposals'' then [route_to [Static ''proposals''] POST CreateProposal] else [])"
  "candidates public_router [a, s] =
     (if s = [] then []
      else if a = ''proposal'' then
        [route_to [Static ''proposal'', Capture] GET GetProposal, route_to [Static ''proposal'', Capture] DELETE CancelProposal]
      else if a = ''proposals'' then
        (if s = ''by-sub-solver'' then [route_to [Static ''proposals'', Static ''by-sub-solver''] GET ListBySubSolver]
         else [route_to [Static ''proposals'', Capture] GET ListProposals])
      else [])"
  "candidates public_router (a # s # x # xs) = []"
  by (auto simp: candidates_def public_router_def route_to_def static_path_def Let_def)

lemma public_routes:
  assumes "dispatch_ok d"
  shows "case public_target m path of
      Some (ep, caps) \<Rightarrow> \<exists>p. \<exists>m'. d public_router m path = Matched (route_to p m' ep) caps
    | None \<Rightarrow> d public_router m path = NoRoute \<or> d public_router m path = WrongMethod None"
proof -
  note one = dispatch_one [OF assms, of m public_router path] and none = dispatch_none [OF assms, of m public_router path]
  note parts = public_candidates route_to_def serves_def
  consider "path = []" | a where "path = [a]" | a s where "path = [a, s]" | a s x xs where "path = a # s # x # xs"
    by (metis list.exhaust)
  then show ?thesis
  proof cases
    case 1 then show ?thesis using none by (simp add: public_candidates)
  next
    case 2
    show ?thesis
    proof (cases "public_target m path")
      case None
      then show ?thesis using none 2 by (auto simp: parts split: if_splits)
    next
      case (Some t)
      then show ?thesis using one 2 by (auto simp: parts split: if_splits)
    qed
  next
    case 3
    show ?thesis
    proof (cases "public_target m path")
      case None
      then show ?thesis using none 3 by (auto simp: parts split: if_splits)
    next
      case (Some t)
      then show ?thesis using one 3 by (auto simp: parts split: if_splits)
    qed
  next
    case 4
    then show ?thesis using none by (simp add: public_candidates)
  qed
qed

lemma internal_candidates:
  "candidates (internal_router token) [] = []"
  "candidates (internal_router token) [a] =
     (if a = ''healthz'' then [route_to [Static ''healthz''] GET Healthz]
      else if a = ''solve'' then [(route_to [Static ''solve''] POST SolveAuction)\<lparr>ro_layer := token\<rparr>]
      else if a = ''notify'' then [(route_to [Static ''notify''] POST NotifyOutcome)\<lparr>ro_layer := token\<rparr>] else [])"
  "candidates (internal_router token) (a # s # xs) = []"
  by (cases token; auto simp: candidates_def internal_router_def route_to_def static_path_def Let_def)+

definition driver_paths :: "string list set" where
  "driver_paths = {[''solve''], [''notify'']}"

lemma internal_routes:
  assumes "dispatch_ok d"
  shows "case internal_target m path of
      Some ep \<Rightarrow> \<exists>p. \<exists>m'. d (internal_router token) m path =
        Matched ((route_to p m' ep)\<lparr>ro_layer := (if ep = Healthz then None else token)\<rparr>) []
    | None \<Rightarrow> d (internal_router token) m path =
        (if path \<in> driver_paths then WrongMethod token else if path = [''healthz''] then WrongMethod None else NoRoute)"
proof -
  note one = dispatch_one [OF assms, of m "internal_router token" path]
    and none = dispatch_none [OF assms, of m "internal_router token" path]
  note parts = internal_candidates route_to_def serves_def driver_paths_def
  consider "path = []" | a where "path = [a]" | a s xs where "path = a # s # xs" by (metis list.exhaust)
  then show ?thesis
  proof cases
    case 1
    then show ?thesis using none by (simp add: parts)
  next
    case 2
    show ?thesis
    proof (cases "internal_target m path")
      case None
      then show ?thesis using none 2 by (auto simp: parts split: if_splits)
    next
      case (Some t)
      then show ?thesis using one 2 by (auto simp: parts split: if_splits)
    qed
  next
    case 3
    then show ?thesis using none by (simp add: parts)
  qed
qed

text \<open>So an answer is the handler's, or the framework's 404 or 405, which changes nothing.\<close>

definition answered :: "http_request \<Rightarrow> (nat \<times> body) \<times> shared \<Rightarrow> http_response \<times> shared" where
  "answered req = (\<lambda>((status, b), sh).
     (\<lparr>hs_status = status, hs_body = (if hr_method req = HEAD then NoBody else b), hs_challenge = None\<rparr>, sh))"

lemma answeredE:
  assumes "map_option (answered req) x = Some (resp, sh')"
  obtains status b where "x = Some ((status, b), sh')"
    "resp = \<lparr>hs_status = status, hs_body = (if hr_method req = HEAD then NoBody else b), hs_challenge = None\<rparr>"
  using assms by (cases x) (auto simp: answered_def split: prod.splits)

lemma serve_public:
  assumes "dispatch_ok (dp_dispatch dp)"
  shows "case public_target (hr_method req) (hr_path req) of
      Some (ep, caps) \<Rightarrow> serve_request dp public_router clk req sh = map_option (answered req) (run_endpoint dp clk req caps sh ep)
    | None \<Rightarrow> \<exists>status\<in>{404, 405}. serve_request dp public_router clk req sh =
        Some (\<lparr>hs_status = status, hs_body = NoBody, hs_challenge = None\<rparr>, sh)"
  using public_routes [OF assms, of "hr_method req" "hr_path req"]
  by (auto simp: serve_request_def route_to_def internal_gate_def answered_def split: option.splits prod.splits)

lemma internal_target_paths:
  "internal_target m path = Some ep \<Longrightarrow> if ep = Healthz then path = [''healthz''] \<and> serves GET m else path \<in> driver_paths"
  "internal_target m [''healthz''] = None \<Longrightarrow> \<not> serves GET m"
  by (cases "(m, path)" rule: internal_target.cases) (auto simp: driver_paths_def split: if_splits)

lemma serve_internal:
  assumes "dispatch_ok (dp_dispatch dp)"
  shows "case internal_target (hr_method req) (hr_path req) of
      Some ep \<Rightarrow> serve_request dp (internal_router token) clk req sh =
        (if ep \<noteq> Healthz \<and> (case token of None \<Rightarrow> False | Some expected \<Rightarrow> \<not> authorized expected (hr_authorization req))
         then Some (\<lparr>hs_status = 401, hs_body = NoBody, hs_challenge = Some ''Bearer''\<rparr>, sh)
         else map_option (answered req) (run_endpoint dp clk req [] sh ep))
    | None \<Rightarrow> serve_request dp (internal_router token) clk req sh =
        (if hr_path req \<in> driver_paths \<and> (case token of None \<Rightarrow> False | Some expected \<Rightarrow> \<not> authorized expected (hr_authorization req))
         then Some (\<lparr>hs_status = 401, hs_body = NoBody, hs_challenge = Some ''Bearer''\<rparr>, sh)
         else Some (\<lparr>hs_status = (if hr_path req \<in> insert [''healthz''] driver_paths then 405 else 404),
                hs_body = NoBody, hs_challenge = None\<rparr>, sh))"
  using internal_routes [OF assms, where m = "hr_method req" and path = "hr_path req" and token = token]
  by (auto simp: serve_request_def route_to_def internal_gate_def answered_def split: option.splits prod.splits if_splits)

subsection \<open>What the public listener may do\<close>

text \<open>What a body shows of the proposals: only the caller's own, never a solution.\<close>

definition shows_own :: "deployment \<Rightarrow> http_request \<Rightarrow> store \<Rightarrow> body \<Rightarrow> bool" where
  "shows_own dp req st b \<longleftrightarrow>
     (let reader = authenticate_reader (dp_codec dp) (dp_crypto dp) (app_domain (dp_app dp)) (hr_signature req) in
      case b of
        ProposalBody v \<Rightarrow> \<exists>p. book (dp_codec dp) st (p_id p) = Some p \<and> v = get_response_of (dp_codec dp) p \<and>
          reader = Inr (p_sub_solver p)
      | ListBody ms \<Rightarrow> \<exists>ps. ms = map (metadata_of (dp_codec dp)) ps \<and>
          (\<forall>p\<in>set ps. book (dp_codec dp) st (p_id p) = Some p \<and> reader = Inr (p_sub_solver p))
      | SolutionsBody sols \<Rightarrow> False
      | _ \<Rightarrow> True)"

text \<open>What becomes of a stored proposal: nothing, it is submitted by its signer, or its owner cancels it.\<close>

definition owner_change :: "deployment \<Rightarrow> http_request \<Rightarrow> store \<Rightarrow> store \<Rightarrow> proposal_id \<Rightarrow> bool" where
  "owner_change dp req st st' pid \<longleftrightarrow>
     book (dp_codec dp) st' pid = book (dp_codec dp) st pid \<or>
     (\<exists>body p. ex_create (dp_extract dp) req = Inr body \<and> submitted (dp_codec dp) (dp_crypto dp) (app_domain (dp_app dp)) body = Inr p \<and>
        book (dp_codec dp) st pid = None \<and> book (dp_codec dp) st' pid = Some (p\<lparr>p_id := pid\<rparr>)) \<or>
     (\<exists>q. book (dp_codec dp) st pid = Some q \<and> p_status q \<in> {Submitted, Active} \<and>
        authenticate_canceller (dp_codec dp) (dp_crypto dp) (app_domain (dp_app dp)) pid (hr_signature req) = Inr (p_sub_solver q) \<and>
        book (dp_codec dp) st' pid = Some (with_status Cancelled q))"

definition confined :: "deployment \<Rightarrow> http_request \<Rightarrow> shared \<Rightarrow> body \<Rightarrow> shared \<Rightarrow> bool" where
  "confined dp req sh b sh' \<longleftrightarrow> good (dp_codec dp) (sh_store sh') \<and> sh_gas_price sh' = sh_gas_price sh \<and>
     d_solutions (st_db (sh_store sh')) = d_solutions (st_db (sh_store sh)) \<and>
     d_penalties (st_db (sh_store sh')) = d_penalties (st_db (sh_store sh)) \<and>
     shows_own dp req (sh_store sh) b \<and>
     (\<exists>pid. owner_change dp req (sh_store sh) (sh_store sh') pid \<and>
        (\<forall>i. i \<noteq> pid \<longrightarrow> book (dp_codec dp) (sh_store sh') i = book (dp_codec dp) (sh_store sh) i))"

lemma confined_same:
  assumes "good (dp_codec dp) st'" and "same_state (sh_store sh) st'" and "shows_own dp req (sh_store sh) b"
  shows "confined dp req sh b (sh\<lparr>sh_store := st'\<rparr>)"
  using assms by (simp add: confined_def owner_change_def same_state_def book_def)

lemma confined_idle: "good (dp_codec dp) (sh_store sh) \<Longrightarrow> shows_own dp req (sh_store sh) b \<Longrightarrow> confined dp req sh b sh"
  by (simp add: confined_def owner_change_def)

lemma shows_own_simps [simp]:
  "shows_own dp req st NoBody" "shows_own dp req st FrameworkText" "shows_own dp req st (ErrorBody e)"
  "shows_own dp req st (CreatedBody i)" "\<not> shows_own dp req st (SolutionsBody sols)"
  by (simp_all add: shows_own_def Let_def)

lemma create_confined:
  assumes gd: "good (dp_codec dp) (sh_store sh)" and c: "codec_ok (dp_codec dp)" and x: "ex_create (dp_extract dp) req = Inr body"
    and run: "create_proposal (dp_codec dp) (dp_crypto dp) (dp_app dp) clk body (sh_store sh) = Some (r, st')"
  shows "confined dp req sh (snd (rendered 202 (\<lambda>pid. CreatedBody (pid_raw pid)) r)) (sh\<lparr>sh_store := st'\<rparr>)"
proof -
  have b: "shows_own dp req (sh_store sh) (snd (rendered 202 (\<lambda>pid. CreatedBody (pid_raw pid)) r))"
    by (cases r) (simp_all add: rendered_def)
  show ?thesis
  proof (cases "st' = sh_store sh")
    case True
    with confined_idle [OF gd b] show ?thesis by simp
  next
    case False
    then obtain p y where p: "submitted (dp_codec dp) (dp_crypto dp) (app_domain (dp_app dp)) body = Inr p"
        and y: "insert_proposal_op (dp_codec dp) clk p (sh_store sh) = Some (y, st')"
      using run by (auto simp: create_proposal_def split: sum.splits option.splits prod.splits)
    then have u: "uid_ok (p_order_uid p)" and gas: "gas_column (p_gas_used p) = Some None"
      by (auto simp: submitted_Inr_iff signed_fields_def fresh_fields_def gas_column_def intro: from_hex_uid_ok)
    note spec = insert_outcome [OF gd c u gas, of clk]
    show ?thesis
    proof (cases y)
      case (Inl e)
      with spec y have "good (dp_codec dp) st'" "same_state (sh_store sh) st'" by auto
      then show ?thesis using b by (rule confined_same)
    next
      case (Inr pid)
      with spec y p x b show ?thesis by (auto simp: confined_def owner_change_def intro!: exI [of _ pid])
    qed
  qed
qed

lemma cancel_confined:
  assumes gd: "good (dp_codec dp) (sh_store sh)" and c: "codec_ok (dp_codec dp)"
    and run: "cancel_proposal (dp_codec dp) (dp_crypto dp) (dp_app dp) clk pid (hr_signature req) (sh_store sh) = (r, st')"
  shows "confined dp req sh (snd (rendered 204 (\<lambda>_. NoBody) r)) (sh\<lparr>sh_store := st'\<rparr>)"
proof -
  have b: "shows_own dp req (sh_store sh) (snd (rendered 204 (\<lambda>_. NoBody) r))"
    by (cases r) (simp_all add: rendered_def)
  show ?thesis
  proof (cases "authenticate_canceller (dp_codec dp) (dp_crypto dp) (app_domain (dp_app dp)) pid (hr_signature req)")
    case (Inl e)
    then have "st' = sh_store sh" using run by (simp add: cancel_proposal_def authenticated_def)
    with confined_idle [OF gd b] show ?thesis by simp
  next
    case (Inr me)
    obtain y st1 where y: "cancel (dp_codec dp) clk pid me (sh_store sh) = (y, st1)"
      by (cases "cancel (dp_codec dp) clk pid me (sh_store sh)")
    have st': "st' = st1" using run Inr y by (auto simp: cancel_proposal_def authenticated_def served_def split: sum.splits)
    note spec = wpD [OF wp_cancel [OF gd c] y]
    show ?thesis
    proof (cases y)
      case (Inl e)
      with spec have "good (dp_codec dp) st1" "same_state (sh_store sh) st1" by auto
      then show ?thesis using b unfolding st' by (rule confined_same)
    next
      case (Inr u)
      with spec b st' \<open>authenticate_canceller _ _ _ _ _ = _\<close> show ?thesis
        by (auto simp: confined_def owner_change_def moved_def intro!: exI [of _ pid])
    qed
  qed
qed

lemma authenticated_Inr [simp]: "authenticated (Inr a) h = h a"
  by (simp add: authenticated_def fun_eq_iff)

lemma read_confined:
  assumes gd: "good (dp_codec dp) (sh_store sh)"
    and run: "authenticated (authenticate_reader (dp_codec dp) (dp_crypto dp) (app_domain (dp_app dp)) (hr_signature req))
       (\<lambda>me. authenticated (pre me) (\<lambda>x. served internal (m me x) (g me))) (sh_store sh) = (r, st')"
    and m: "\<And>me x a st1. m me x (sh_store sh) = (a, st1) \<Longrightarrow> read_result (dp_codec dp) (sh_store sh) (K me x) a st1"
    and own: "\<And>me x a v. authenticate_reader (dp_codec dp) (dp_crypto dp) (app_domain (dp_app dp)) (hr_signature req) = Inr me
       \<Longrightarrow> K me x a \<Longrightarrow> g me a = Inr v \<Longrightarrow> shows_own dp req (sh_store sh) (f v)"
  shows "confined dp req sh (snd (rendered 200 f r)) (sh\<lparr>sh_store := st'\<rparr>)"
proof (cases "authenticate_reader (dp_codec dp) (dp_crypto dp) (app_domain (dp_app dp)) (hr_signature req)")
  case (Inl e)
  with run confined_idle [OF gd] show ?thesis by (auto simp: authenticated_def rendered_def)
next
  case me: (Inr me)
  show ?thesis
  proof (cases "pre me")
    case (Inl e)
    with me run confined_idle [OF gd] show ?thesis by (auto simp: authenticated_def rendered_def)
  next
    case (Inr x)
    obtain a st1 where a: "m me x (sh_store sh) = (a, st1)" by (cases "m me x (sh_store sh)")
    have st': "st' = st1" "r = (case a of Inl e \<Rightarrow> Inl (internal e) | Inr v \<Rightarrow> g me v)"
      using run me Inr a by (auto simp: authenticated_def served_def split: sum.splits)
    have rr: "read_result (dp_codec dp) (sh_store sh) (K me x) a st1" using m [OF a] .
    then have s: "good (dp_codec dp) st1" "same_state (sh_store sh) st1" by (simp_all add: read_result_def)
    have "shows_own dp req (sh_store sh) (snd (rendered 200 f r))"
      using st'(2) rr own [OF me] by (auto simp: rendered_def read_result_def split: sum.splits)
    with s show ?thesis unfolding st'(1) by (rule confined_same)
  qed
qed

lemma get_confined:
  assumes gd: "good (dp_codec dp) (sh_store sh)"
    and run: "get_endpoint (dp_codec dp) (dp_crypto dp) (dp_app dp) pid (hr_signature req) (sh_store sh) = (r, st')"
  shows "confined dp req sh (snd (rendered 200 ProposalBody r)) (sh\<lparr>sh_store := st'\<rparr>)"
proof (rule read_confined [OF gd, where pre = "\<lambda>_. Inr ()" and m = "\<lambda>_ _. get_proposal (dp_codec dp) pid"
      and g = "\<lambda>me found. and_then (ok_or (error_from ProposalNotFound)
           (case found of None \<Rightarrow> None | Some p \<Rightarrow> if p_sub_solver p = me then Some p else None))
         (\<lambda>p. Inr (get_response_of (dp_codec dp) p))" and K = "\<lambda>_ _ found. found = book (dp_codec dp) (sh_store sh) pid"])
  show "authenticated (authenticate_reader (dp_codec dp) (dp_crypto dp) (app_domain (dp_app dp)) (hr_signature req))
      (\<lambda>me. authenticated (Inr ()) (\<lambda>x. served internal (get_proposal (dp_codec dp) pid)
         (\<lambda>found. and_then (ok_or (error_from ProposalNotFound)
           (case found of None \<Rightarrow> None | Some p \<Rightarrow> if p_sub_solver p = me then Some p else None))
         (\<lambda>p. Inr (get_response_of (dp_codec dp) p))))) (sh_store sh) = (r, st')"
    using run by (simp add: get_endpoint_def)
next
  fix me x a st1
  assume "get_proposal (dp_codec dp) pid (sh_store sh) = (a, st1)"
  then show "read_result (dp_codec dp) (sh_store sh) (\<lambda>found. found = book (dp_codec dp) (sh_store sh) pid) a st1"
    by (rule wpD [OF wp_get_proposal [OF gd]])
next
  fix me x a v
  assume "authenticate_reader (dp_codec dp) (dp_crypto dp) (app_domain (dp_app dp)) (hr_signature req) = Inr me"
    "a = book (dp_codec dp) (sh_store sh) pid"
    "and_then (ok_or (error_from ProposalNotFound) (case a of None \<Rightarrow> None | Some p \<Rightarrow> if p_sub_solver p = me then Some p else None))
         (\<lambda>p. Inr (get_response_of (dp_codec dp) p)) = Inr v"
  then show "shows_own dp req (sh_store sh) (ProposalBody v)"
    using book_id [OF gd] by (fastforce simp: shows_own_def and_then_Inr_iff ok_or_Inr_iff split: option.splits if_splits)
qed

lemma list_confined:
  assumes gd: "good (dp_codec dp) (sh_store sh)" and c: "codec_ok (dp_codec dp)"
    and run: "list_proposals (dp_codec dp) (dp_crypto dp) (dp_app dp) hex (hr_signature req) (sh_store sh) = (r, st')"
  shows "confined dp req sh (snd (rendered 200 ListBody r)) (sh\<lparr>sh_store := st'\<rparr>)"
  using run unfolding list_proposals_def
proof (rule read_confined [OF gd])
  fix me x a st1
  assume "list_by_order_uid_for_owner (dp_codec dp) x me (sh_store sh) = (a, st1)"
  then show "read_result (dp_codec dp) (sh_store sh) (stored_where (dp_codec dp) (sh_store sh)
       (\<lambda>q. p_order_uid q = x \<and> p_sub_solver q = me \<and> p_status q = Active)) a st1"
    by (rule wpD [OF wp_list_by_order_uid_for_owner [OF gd c]])
next
  fix me x a v
  assume "authenticate_reader (dp_codec dp) (dp_crypto dp) (app_domain (dp_app dp)) (hr_signature req) = Inr me"
    "stored_where (dp_codec dp) (sh_store sh) (\<lambda>q. p_order_uid q = x \<and> p_sub_solver q = me \<and> p_status q = Active) a"
    "(Inr (map (metadata_of (dp_codec dp)) a) :: api_error + metadata list) = Inr v"
  then show "shows_own dp req (sh_store sh) (ListBody v)" by (auto simp: shows_own_def stored_where_def)
qed

lemma own_list_confined:
  assumes gd: "good (dp_codec dp) (sh_store sh)" and c: "codec_ok (dp_codec dp)"
    and run: "list_proposals_by_sub_solver (dp_codec dp) (dp_crypto dp) (dp_app dp) (hr_signature req) (sh_store sh) = (r, st')"
  shows "confined dp req sh (snd (rendered 200 ListBody r)) (sh\<lparr>sh_store := st'\<rparr>)"
proof (rule read_confined [OF gd, where pre = "\<lambda>_. Inr ()" and m = "\<lambda>me _. list_by_sub_solver (dp_codec dp) me"
      and g = "\<lambda>_ ps. Inr (map (metadata_of (dp_codec dp)) ps)"
      and K = "\<lambda>me _. stored_where (dp_codec dp) (sh_store sh) (\<lambda>q. p_sub_solver q = me \<and> p_status q \<in> {Submitted, Active})"])
  show "authenticated (authenticate_reader (dp_codec dp) (dp_crypto dp) (app_domain (dp_app dp)) (hr_signature req))
      (\<lambda>me. authenticated (Inr ()) (\<lambda>x. served internal (list_by_sub_solver (dp_codec dp) me)
         (\<lambda>ps. Inr (map (metadata_of (dp_codec dp)) ps)))) (sh_store sh) = (r, st')"
    using run by (simp add: list_proposals_by_sub_solver_def)
next
  fix me x a st1
  assume "list_by_sub_solver (dp_codec dp) me (sh_store sh) = (a, st1)"
  then show "read_result (dp_codec dp) (sh_store sh)
      (stored_where (dp_codec dp) (sh_store sh) (\<lambda>q. p_sub_solver q = me \<and> p_status q \<in> {Submitted, Active})) a st1"
    by (rule wpD [OF wp_list_by_sub_solver [OF gd c]])
next
  fix me x a v
  assume "authenticate_reader (dp_codec dp) (dp_crypto dp) (app_domain (dp_app dp)) (hr_signature req) = Inr me"
    "stored_where (dp_codec dp) (sh_store sh) (\<lambda>q. p_sub_solver q = me \<and> p_status q \<in> {Submitted, Active}) a"
    "(Inr (map (metadata_of (dp_codec dp)) a) :: api_error + metadata list) = Inr v"
  then show "shows_own dp req (sh_store sh) (ListBody v)" by (auto simp: shows_own_def stored_where_def)
qed

lemma public_target_endpoint:
  "public_target m path = Some (ep, caps) \<Longrightarrow>
     ep \<in> {Healthz, CreateProposal, GetProposal, CancelProposal, ListProposals, ListBySubSolver}"
  by (cases "(m, path)" rule: public_target.cases) (auto split: if_splits)

lemma public_endpoint_confined:
  assumes gd: "good (dp_codec dp) (sh_store sh)" and c: "codec_ok (dp_codec dp)"
    and "public_target m path = Some (ep, caps)" and run: "run_endpoint dp clk req caps sh ep = Some ((status, b), sh')"
  shows "confined dp req sh b sh'"
proof -
  note ep = public_target_endpoint [OF assms(3)]
  have rej: "confined dp req sh FrameworkText sh" using confined_idle [OF gd] by simp
  show ?thesis
  proof (cases ep)
    case CreateProposal
    show ?thesis
    proof (cases "ex_create (dp_extract dp) req")
      case (Inr body)
      with run CreateProposal obtain r st' where
        r: "create_proposal (dp_codec dp) (dp_crypto dp) (dp_app dp) clk body (sh_store sh) = Some (r, st')"
        "b = snd (rendered 202 (\<lambda>pid. CreatedBody (pid_raw pid)) r)" "sh' = sh\<lparr>sh_store := st'\<rparr>"
        by (auto simp: extracted_def)
      from create_confined [OF gd c Inr r(1)] show ?thesis by (simp add: r(2,3))
    qed (use run rej CreateProposal in \<open>simp add: extracted_def\<close>)
  next
    case GetProposal
    show ?thesis
    proof (cases "ex_id (dp_extract dp) (first_capture caps)")
      case (Inr pid)
      obtain r st' where r: "get_endpoint (dp_codec dp) (dp_crypto dp) (dp_app dp) pid (hr_signature req) (sh_store sh) = (r, st')"
        by (cases "get_endpoint (dp_codec dp) (dp_crypto dp) (dp_app dp) pid (hr_signature req) (sh_store sh)")
      with run GetProposal Inr have "rendered 200 ProposalBody r = (status, b)" "sh' = sh\<lparr>sh_store := st'\<rparr>"
        by (simp_all add: extracted_def over_store_def)
      with get_confined [OF gd r] show ?thesis by simp
    qed (use run rej GetProposal in \<open>simp add: extracted_def\<close>)
  next
    case CancelProposal
    show ?thesis
    proof (cases "ex_id (dp_extract dp) (first_capture caps)")
      case (Inr pid)
      obtain r st' where r: "cancel_proposal (dp_codec dp) (dp_crypto dp) (dp_app dp) clk pid (hr_signature req) (sh_store sh) = (r, st')"
        by (cases "cancel_proposal (dp_codec dp) (dp_crypto dp) (dp_app dp) clk pid (hr_signature req) (sh_store sh)")
      with run CancelProposal Inr have "rendered 204 (\<lambda>_. NoBody) r = (status, b)" "sh' = sh\<lparr>sh_store := st'\<rparr>"
        by (simp_all add: extracted_def over_store_def)
      with cancel_confined [OF gd c r] show ?thesis by simp
    qed (use run rej CancelProposal in \<open>simp add: extracted_def\<close>)
  next
    case ListProposals
    obtain r st' where r: "list_proposals (dp_codec dp) (dp_crypto dp) (dp_app dp) (first_capture caps) (hr_signature req) (sh_store sh) = (r, st')"
      by (cases "list_proposals (dp_codec dp) (dp_crypto dp) (dp_app dp) (first_capture caps) (hr_signature req) (sh_store sh)")
    with run ListProposals have "rendered 200 ListBody r = (status, b)" "sh' = sh\<lparr>sh_store := st'\<rparr>"
      by (simp_all add: over_store_def)
    with list_confined [OF gd c r] show ?thesis by simp
  next
    case ListBySubSolver
    obtain r st' where r: "list_proposals_by_sub_solver (dp_codec dp) (dp_crypto dp) (dp_app dp) (hr_signature req) (sh_store sh) = (r, st')"
      by (cases "list_proposals_by_sub_solver (dp_codec dp) (dp_crypto dp) (dp_app dp) (hr_signature req) (sh_store sh)")
    with run ListBySubSolver have "rendered 200 ListBody r = (status, b)" "sh' = sh\<lparr>sh_store := st'\<rparr>"
      by (simp_all add: over_store_def)
    with own_list_confined [OF gd c r] show ?thesis by simp
  qed (use ep run confined_idle [OF gd] in \<open>auto simp: healthz_def\<close>)
qed

text \<open>C5. The internet-facing listener is confined. Whatever request it gets, whatever fails underneath: the
  answer shows only proposals of the sub-solver its signature header authenticates and never a solution;
  the gas price, the attributions and the queue of charges stay as they are; and of
  the stored proposals at most one changes, by being submitted by its signer or cancelled, while live, by
  its owner. Every path that is not one of its seven routes is answered 404 or 405 without effect.\<close>

theorem public_listener_confined:
  assumes "good (dp_codec dp) (sh_store sh)" and "codec_ok (dp_codec dp)" and "dispatch_ok (dp_dispatch dp)"
    and "serve_request dp public_router clk req sh = Some (resp, sh')"
  shows "confined dp req sh (hs_body resp) sh' \<and>
    (public_target (hr_method req) (hr_path req) = None \<longrightarrow> hs_status resp \<in> {404, 405} \<and> sh' = sh)"
proof -
  note srv = serve_public [OF assms(3), where req = req and clk = clk and sh = sh]
  show ?thesis
  proof (cases "public_target (hr_method req) (hr_path req)")
    case None
    with srv assms(4) have "hs_status resp \<in> {404, 405}" "hs_body resp = NoBody" "sh' = sh" by auto
    with None confined_idle [OF assms(1)] show ?thesis by simp
  next
    case (Some t)
    obtain ep caps where t: "t = (ep, caps)" by (cases t)
    with srv Some assms(4) have "map_option (answered req) (run_endpoint dp clk req caps sh ep) = Some (resp, sh')" by simp
    then obtain status b where run: "run_endpoint dp clk req caps sh ep = Some ((status, b), sh')" and
      b: "hs_body resp = (if hr_method req = HEAD then NoBody else b)"
      by (rule answeredE) simp
    have "confined dp req sh b sh'" by (rule public_endpoint_confined [OF assms(1,2) _ run]) (use Some t in simp)
    then have "confined dp req sh (hs_body resp) sh'" by (simp add: b confined_def)
    with Some show ?thesis by simp
  qed
qed

subsection \<open>Who may speak for the driver\<close>

text \<open>C17. Only the bearer of the token speaks for the driver. With a token configured, a request to the
  internal listener without it changes nothing and is shown nothing: on the driver's two paths, whatever
  its method, it is answered 401 with the challenge; the health check answers it 200, and 405 to other
  methods; every other path answers 404. With the token the request reaches exactly the handler its method
  and path name, and is answered 405 or 404 otherwise. A solution is only ever served to \<open>POST /solve\<close>
  there, and the public listener has no route to either handler.\<close>

theorem driver_endpoints_need_token:
  assumes "dispatch_ok (dp_dispatch dp)"
    and "serve_request dp (internal_router (Some token)) clk req sh = Some (resp, sh')"
  shows "(if authorized token (hr_authorization req) then
      (case internal_target (hr_method req) (hr_path req) of
         None \<Rightarrow> hs_status resp = (if hr_path req \<in> insert [''healthz''] driver_paths then 405 else 404) \<and> sh' = sh
       | Some ep \<Rightarrow> map_option (answered req) (run_endpoint dp clk req [] sh ep) = Some (resp, sh'))
     else sh' = sh \<and> hs_body resp = NoBody \<and>
       (if hr_path req \<in> driver_paths then hs_status resp = 401 \<and> hs_challenge resp = Some ''Bearer''
        else hs_status resp = (if hr_path req = [''healthz''] then if serves GET (hr_method req) then 200 else 405 else 404))) \<and>
    (\<forall>sols. hs_body resp = SolutionsBody sols \<longrightarrow> hr_method req = POST \<and> hr_path req = [''solve''])"
proof -
  note srv = serve_internal [OF assms(1), where req = req and token = "Some token" and clk = clk and sh = sh]
  show ?thesis
  proof (cases "internal_target (hr_method req) (hr_path req)")
    case None
    with srv assms(2) internal_target_paths(2) [of "hr_method req"] show ?thesis by (auto simp: driver_paths_def split: if_splits)
  next
    case (Some ep)
    note path = internal_target_paths(1) [OF Some]
    have sols: "hr_method req = POST \<and> hr_path req = [''solve'']"
      if "run_endpoint dp clk req [] sh ep = Some ((status, SolutionsBody s), sh')" for status s
      using that Some by (cases "(hr_method req, hr_path req)" rule: internal_target.cases)
        (auto simp: extracted_def split: if_splits sum.splits prod.splits)
    show ?thesis
    proof (cases "ep \<noteq> Healthz \<and> \<not> authorized token (hr_authorization req)")
      case True
      with srv assms(2) Some path show ?thesis by simp
    next
      case False
      then have "map_option (answered req) (run_endpoint dp clk req [] sh ep) = Some (resp, sh')"
        using srv assms(2) Some by auto
      moreover from this obtain status b where "run_endpoint dp clk req [] sh ep = Some ((status, b), sh')"
        "resp = \<lparr>hs_status = status, hs_body = (if hr_method req = HEAD then NoBody else b), hs_challenge = None\<rparr>"
        by (rule answeredE)
      ultimately show ?thesis using False Some sols path by (auto simp: healthz_def driver_paths_def)
    qed
  qed
qed

subsection \<open>Witnesses\<close>

definition sample_extractors :: extractors where
  "sample_extractors =
     \<lparr>ex_id = (\<lambda>s. if s = ''1'' then Inr (ProposalId 1) else Inl 400), ex_create = (\<lambda>_. Inl 422), ex_auction = (\<lambda>_. Inl 422),
      ex_notification = (\<lambda>_. Inl 422)\<rparr>"

definition sample_deployment :: deployment where
  "sample_deployment = \<lparr>dp_codec = std_codec, dp_crypto = toy_crypto, dp_abi = toy_abi, dp_app = sample_app,
     dp_extract = sample_extractors, dp_dispatch = std_dispatch\<rparr>"

definition sample_request :: "http_method \<Rightarrow> string list \<Rightarrow> http_request" where
  "sample_request m path = \<lparr>hr_method = m, hr_path = path, hr_authorization = Missing, hr_signature = HeaderText ''0x11'', hr_body = []\<rparr>"

definition sample_shared :: "proposal_status \<Rightarrow> shared" where
  "sample_shared s = \<lparr>sh_store = stored_sample s, sh_gas_price = 7\<rparr>"

lemma sample_get:
  "\<exists>v sh'. serve_request sample_deployment public_router sample_clock (sample_request GET [''proposal'', ''1'']) (sample_shared Active)
     = Some (\<lparr>hs_status = 200, hs_body = ProposalBody v, hs_challenge = None\<rparr>, sh')"
proof -
  have auth: "authenticate_reader std_codec toy_crypto d (HeaderText ''0x11'') = Inr 17" for d
    by (simp add: authenticate_reader_def signature_from_header_def parse_hex_def
        std_codec_def hex_val_def toy_crypto_def recover_reader_def)
  have "fst (get_proposal std_codec (ProposalId 1) (stored_sample Active)) = Inr (Some (sample_proposal\<lparr>p_status := Active\<rparr>))"
    using fst_get_proposal [OF good_sample, of "ProposalId 1" 1 Active] book_sample [of Active]
    by (simp add: i64_of_u64_def lookup_answer_def next_fault_def stored_sample_def)
  then obtain st' where get: "get_proposal std_codec (ProposalId 1) (stored_sample Active) = (Inr (Some (sample_proposal\<lparr>p_status := Active\<rparr>)), st')"
    by (metis fst_conv surj_pair)
  have "dispatch_ok (dp_dispatch sample_deployment)" by (simp add: sample_deployment_def dispatch_ok_std)
  from serve_public [OF this, where req = "sample_request GET [''proposal'', ''1'']" and clk = sample_clock and sh = "sample_shared Active"]
  show ?thesis using get auth
    by (simp add: sample_deployment_def sample_request_def sample_shared_def serves_def sample_extractors_def extracted_def
        first_capture_def over_store_def get_endpoint_def served_def ok_or_def rendered_def answered_def sample_proposal_def)
qed

theorem public_listener_confined_witness:
  "\<exists>v sh'. serve_request sample_deployment public_router sample_clock (sample_request GET [''proposal'', ''1'']) (sample_shared Active)
      = Some (\<lparr>hs_status = 200, hs_body = ProposalBody v, hs_challenge = None\<rparr>, sh') \<and>
     shows_own sample_deployment (sample_request GET [''proposal'', ''1'']) (stored_sample Active) (ProposalBody v)"
proof -
  obtain v sh' where run: "serve_request sample_deployment public_router sample_clock (sample_request GET [''proposal'', ''1'']) (sample_shared Active)
      = Some (\<lparr>hs_status = 200, hs_body = ProposalBody v, hs_challenge = None\<rparr>, sh')"
    using sample_get by blast
  have "good (dp_codec sample_deployment) (sh_store (sample_shared Active))" "codec_ok (dp_codec sample_deployment)"
    "dispatch_ok (dp_dispatch sample_deployment)"
    by (simp_all add: sample_deployment_def sample_shared_def good_sample codec_ok_std dispatch_ok_std)
  from public_listener_confined [OF this run] run show ?thesis by (auto simp: confined_def sample_shared_def)
qed

theorem driver_endpoints_need_token_witness:
  "serve_request sample_deployment (internal_router (Some ''key'')) sample_clock (sample_request POST [''solve'']) (sample_shared Active)
     = Some (\<lparr>hs_status = 401, hs_body = NoBody, hs_challenge = Some ''Bearer''\<rparr>, sample_shared Active)"
proof -
  have d: "dispatch_ok (dp_dispatch sample_deployment)" by (simp add: sample_deployment_def dispatch_ok_std)
  have a: "\<not> authorized ''key'' (hr_authorization (sample_request POST [''solve'']))" by (simp add: authorized_def sample_request_def)
  obtain resp sh' where run: "serve_request sample_deployment (internal_router (Some ''key'')) sample_clock
      (sample_request POST [''solve'']) (sample_shared Active) = Some (resp, sh')"
    using serve_internal [OF d, where req = "sample_request POST [''solve'']" and token = "Some ''key''"
        and clk = sample_clock and sh = "sample_shared Active"] a by (simp add: sample_request_def)
  from driver_endpoints_need_token [OF d run] a run show ?thesis
    by (cases resp) (simp add: sample_request_def driver_paths_def)
qed

end
