(* ===== verification/Audit_Writer.thy ===== *)
theory Audit_Writer
  imports Lifecycle_Properties
begin

text \<open>
  The write-behind audit writer (\<open>infra/audit.rs\<close>): it takes the events the store emitted, in order, and
  inserts each into \<open>audit_events\<close>, retrying with a capped exponential backoff until the database
  acknowledges it. \<open>fates n\<close> is what happens to the \<open>n\<close>-th statement, as in theory \<open>Storage\<close>: a lost
  acknowledgement leaves a row behind and is retried. \<open>None\<close> is a drain that never ends.
\<close>

subsection \<open>The table\<close>

record audit_row =
  au_proposal_id :: i64
  au_event_type :: string
  au_sub_solver :: string
  au_order_uid :: string
  au_settlement_tx_hash :: "string option"
  au_payload :: json
  au_occurred_at :: time

text \<open>The binds of the INSERT; \<open>None\<close> is the panic on an identifier past \<open>i64::MAX\<close>.\<close>

definition audit_row_of :: "codec \<Rightarrow> audit_event \<Rightarrow> audit_row option" where
  "audit_row_of c e =
     map_option (\<lambda>i.
       \<lparr>au_proposal_id = i, au_event_type = event_type (ae_kind e),
        au_sub_solver = addr_text c (kind_sub_solver (ae_kind e)),
        au_order_uid = uid_text c (kind_order_uid (ae_kind e)),
        au_settlement_tx_hash = map_option (b256_text c) (kind_settlement_tx_hash (ae_kind e)),
        au_payload = payload c (ae_kind e), au_occurred_at = ae_occurred_at e\<rparr>)
       (i64_of_u64 (pid_raw (kind_proposal_id (ae_kind e))))"

subsection \<open>The writer\<close>

text \<open>Milliseconds.\<close>

definition INITIAL_BACKOFF :: nat where "INITIAL_BACKOFF = 100"

definition MAX_BACKOFF :: nat where "MAX_BACKOFF = 5000"

record writer =
  wr_rows :: "audit_row list"
  wr_statements :: nat
  wr_slept :: "nat list"

type_synonym fates = "nat \<Rightarrow> fault option"

definition insert_audit_row :: "fates \<Rightarrow> audit_row \<Rightarrow> writer \<Rightarrow> bool \<times> writer" where
  "insert_audit_row fates row w =
     (let w' = w\<lparr>wr_statements := wr_statements w + 1\<rparr> in
      case fates (wr_statements w) of
        None \<Rightarrow> (True, w'\<lparr>wr_rows := wr_rows w @ [row]\<rparr>)
      | Some (Unacknowledged e) \<Rightarrow> (False, w'\<lparr>wr_rows := wr_rows w @ [row]\<rparr>)
      | Some (Failed e) \<Rightarrow> (False, w'))"

partial_function (option) keep_inserting :: "fates \<Rightarrow> audit_row \<Rightarrow> nat \<Rightarrow> writer \<Rightarrow> writer option" where
  "keep_inserting fates row backoff w =
     (case insert_audit_row fates row w of
        (landed, w') \<Rightarrow>
          if landed then Some w'
          else keep_inserting fates row (min (backoff * 2) MAX_BACKOFF) (w'\<lparr>wr_slept := wr_slept w' @ [backoff]\<rparr>))"

text \<open>\<open>Inl ()\<close>: the writer task panicked.\<close>

definition insert_with_retry :: "codec \<Rightarrow> fates \<Rightarrow> audit_event \<Rightarrow> writer \<Rightarrow> (unit + writer) option" where
  "insert_with_retry c fates e w =
     (case audit_row_of c e of
        None \<Rightarrow> Some (Inl ())
      | Some row \<Rightarrow> map_option Inr (keep_inserting fates row INITIAL_BACKOFF w))"

text \<open>The task: it ends when the channel is closed and drained.\<close>

fun drain :: "codec \<Rightarrow> fates \<Rightarrow> audit_event list \<Rightarrow> writer \<Rightarrow> (unit + writer) option" where
  "drain c fates [] w = Some (Inr w)"
| "drain c fates (e # es) w =
     Option.bind (insert_with_retry c fates e w) (\<lambda>r. case r of Inl u \<Rightarrow> Some (Inl u) | Inr w' \<Rightarrow> drain c fates es w')"

definition idle_writer :: writer where
  "idle_writer = \<lparr>wr_rows = [], wr_statements = 0, wr_slept = []\<rparr>"

subsection \<open>One event\<close>

definition lost :: "fault option \<Rightarrow> bool" where
  "lost f \<longleftrightarrow> (case f of Some (Unacknowledged _) \<Rightarrow> True | _ \<Rightarrow> False)"

definition lost_between :: "fates \<Rightarrow> nat \<Rightarrow> nat \<Rightarrow> nat" where
  "lost_between fates m n = length (filter (\<lambda>i. lost (fates i)) [m..<n])"

text \<open>The database acknowledges a statement again and again.\<close>

definition recovers :: "fates \<Rightarrow> bool" where
  "recovers fates \<longleftrightarrow> (\<forall>n. \<exists>m\<ge>n. fates m = None)"

lemma lost_between_step: "m < n \<Longrightarrow> lost_between fates m n = (if lost (fates m) then 1 else 0) + lost_between fates (Suc m) n"
  by (simp add: lost_between_def upt_conv_Cons)

lemma lost_between_append:
  assumes "m \<le> n" and "n \<le> k"
  shows "lost_between fates m k = lost_between fates m n + lost_between fates n k"
proof -
  have "[m..<k] = [m..<n] @ [n..<k]" using upt_add_eq_append [OF assms(1), of "k - n"] assms(2) by simp
  then show ?thesis by (simp add: lost_between_def)
qed

lemma keep_inserting_lands:
  assumes "fates (wr_statements w + k) = None" and "\<And>i. i < k \<Longrightarrow> fates (wr_statements w + i) \<noteq> None"
    and "INITIAL_BACKOFF \<le> backoff" and "backoff \<le> MAX_BACKOFF"
  shows "\<exists>w' waits. keep_inserting fates row backoff w = Some w' \<and>
    wr_rows w' = wr_rows w @ replicate (1 + lost_between fates (wr_statements w) (wr_statements w')) row \<and>
    wr_statements w' = wr_statements w + k + 1 \<and> wr_slept w' = wr_slept w @ waits \<and>
    set waits \<subseteq> {INITIAL_BACKOFF..MAX_BACKOFF}"
  using assms
proof (induction k arbitrary: w backoff)
  case 0
  then show ?case
    by (subst keep_inserting.simps) (simp add: insert_audit_row_def Let_def lost_between_def lost_def)
next
  case (Suc k)
  obtain f where f: "fates (wr_statements w) = Some f" using Suc.prems(2) [of 0] by auto
  let ?rows = "if lost (Some f) then [row] else []"
  let ?w = "w\<lparr>wr_statements := wr_statements w + 1, wr_rows := wr_rows w @ ?rows, wr_slept := wr_slept w @ [backoff]\<rparr>"
  have unroll: "keep_inserting fates row backoff w = keep_inserting fates row (min (backoff * 2) MAX_BACKOFF) ?w"
    by (subst keep_inserting.simps) (cases f; simp add: insert_audit_row_def f lost_def)
  have "INITIAL_BACKOFF \<le> min (backoff * 2) MAX_BACKOFF" using Suc.prems(3,4) by simp
  moreover have "fates (wr_statements ?w + i) \<noteq> None" if "i < k" for i using Suc.prems(2) [of "Suc i"] that by simp
  ultimately obtain w' waits where w': "keep_inserting fates row (min (backoff * 2) MAX_BACKOFF) ?w = Some w'"
    "wr_rows w' = wr_rows ?w @ replicate (1 + lost_between fates (wr_statements ?w) (wr_statements w')) row"
    "wr_statements w' = wr_statements ?w + k + 1" "wr_slept w' = wr_slept ?w @ waits"
    "set waits \<subseteq> {INITIAL_BACKOFF..MAX_BACKOFF}"
    using Suc.IH [of ?w "min (backoff * 2) MAX_BACKOFF"] Suc.prems(1) by auto
  have "lost_between fates (wr_statements w) (wr_statements w') =
      length ?rows + lost_between fates (wr_statements ?w) (wr_statements w')"
    using w'(3) by (simp add: lost_between_step f)
  then have "wr_rows w' = wr_rows w @ replicate (1 + lost_between fates (wr_statements w) (wr_statements w')) row"
    using w'(2) by simp
  then show ?case using unroll w' Suc.prems(3,4) by (intro exI [of _ w'] exI [of _ "backoff # waits"]) simp
qed

lemma insert_with_retry_lands:
  assumes "recovers fates" and "audit_row_of c e = Some row"
  shows "\<exists>w' waits. insert_with_retry c fates e w = Some (Inr w') \<and>
    wr_rows w' = wr_rows w @ replicate (1 + lost_between fates (wr_statements w) (wr_statements w')) row \<and>
    wr_statements w < wr_statements w' \<and> wr_slept w' = wr_slept w @ waits \<and> set waits \<subseteq> {INITIAL_BACKOFF..MAX_BACKOFF}"
proof -
  have "\<exists>k. fates (wr_statements w + k) = None"
    using assms(1) by (metis recovers_def le_add_diff_inverse)
  then obtain k where "fates (wr_statements w + k) = None" "\<And>i. i < k \<Longrightarrow> fates (wr_statements w + i) \<noteq> None"
    using LeastI_ex [of "\<lambda>k. fates (wr_statements w + k) = None"] not_less_Least by blast
  moreover have "INITIAL_BACKOFF \<le> MAX_BACKOFF" by (simp add: INITIAL_BACKOFF_def MAX_BACKOFF_def)
  ultimately show ?thesis using keep_inserting_lands [of fates w k INITIAL_BACKOFF row] assms(2)
    by (fastforce simp: insert_with_retry_def)
qed

subsection \<open>The drain\<close>

definition copies :: "nat list \<Rightarrow> 'a list \<Rightarrow> 'a list" where
  "copies ks xs = concat (map2 replicate ks xs)"

lemma copies_simps [simp]:
  "copies [] xs = []" "copies (k # ks) (x # xs) = replicate k x @ copies ks xs"
  by (simp_all add: copies_def)

definition row_for :: "codec \<Rightarrow> audit_event \<Rightarrow> audit_row" where
  "row_for c e = the (audit_row_of c e)"

lemma drain_lands:
  assumes "recovers fates" and "\<forall>e\<in>set es. audit_row_of c e \<noteq> None"
  shows "\<exists>w' ks waits. drain c fates es w = Some (Inr w') \<and> length ks = length es \<and> 0 \<notin> set ks \<and>
    wr_rows w' = wr_rows w @ copies ks (map (row_for c) es) \<and>
    sum_list ks = length es + lost_between fates (wr_statements w) (wr_statements w') \<and>
    wr_statements w \<le> wr_statements w' \<and>
    wr_slept w' = wr_slept w @ waits \<and> set waits \<subseteq> {INITIAL_BACKOFF..MAX_BACKOFF}"
  using assms
proof (induction es arbitrary: w)
  case Nil
  then show ?case by (intro exI [of _ w] exI [of _ "[]"]) (simp add: lost_between_def)
next
  case (Cons e es)
  obtain row where row: "audit_row_of c e = Some row" using Cons.prems(2) by auto
  obtain w1 waits1 where one: "insert_with_retry c fates e w = Some (Inr w1)"
    "wr_rows w1 = wr_rows w @ replicate (1 + lost_between fates (wr_statements w) (wr_statements w1)) row"
    "wr_statements w < wr_statements w1" "wr_slept w1 = wr_slept w @ waits1" "set waits1 \<subseteq> {INITIAL_BACKOFF..MAX_BACKOFF}"
    using insert_with_retry_lands [OF Cons.prems(1) row, of w] by blast
  obtain w' ks waits where rest: "drain c fates es w1 = Some (Inr w')" "length ks = length es" "0 \<notin> set ks"
    "wr_rows w' = wr_rows w1 @ copies ks (map (row_for c) es)"
    "sum_list ks = length es + lost_between fates (wr_statements w1) (wr_statements w')"
    "wr_statements w1 \<le> wr_statements w'"
    "wr_slept w' = wr_slept w1 @ waits" "set waits \<subseteq> {INITIAL_BACKOFF..MAX_BACKOFF}"
    using Cons.IH [OF Cons.prems(1), of w1] Cons.prems(2) by auto
  let ?ks = "(1 + lost_between fates (wr_statements w) (wr_statements w1)) # ks"
  have "lost_between fates (wr_statements w) (wr_statements w') =
      lost_between fates (wr_statements w) (wr_statements w1) + lost_between fates (wr_statements w1) (wr_statements w')"
    using one(3) rest(6) by (intro lost_between_append) simp_all
  then have "sum_list ?ks = length (e # es) + lost_between fates (wr_statements w) (wr_statements w')"
    using rest(5) by simp
  moreover have "wr_rows w' = wr_rows w @ copies ?ks (map (row_for c) (e # es))"
    using one(2) rest(4) row by (simp add: row_for_def)
  moreover have "drain c fates (e # es) w = Some (Inr w')" using one(1) rest(1) by simp
  ultimately show ?case using one(3-5) rest(2,3,6-8)
    by (intro exI [of _ w'] exI [of _ ?ks] exI [of _ "waits1 @ waits"]) simp
qed

text \<open>C27. Evidence is never dropped: as long as the database keeps coming back, the writer ends and has
  written every event it was sent, in order; an event appears more than once only for acknowledgements that were
  lost, one extra row for each; it never sleeps less than 100 ms or more than five seconds between attempts.\<close>

theorem evidence_persisted:
  assumes "recovers fates" and "\<forall>e\<in>set es. uint (pid_raw (kind_proposal_id (ae_kind e))) \<le> i64_max"
  shows "\<exists>w' ks. drain c fates es idle_writer = Some (Inr w') \<and>
    wr_rows w' = copies ks (map (row_for c) es) \<and> length ks = length es \<and> 0 \<notin> set ks \<and>
    sum_list ks = length es + lost_between fates 0 (wr_statements w') \<and> set (wr_slept w') \<subseteq> {100..5000}"
proof -
  have "\<forall>e\<in>set es. audit_row_of c e \<noteq> None" using assms(2) by (simp add: audit_row_of_def i64_of_u64_def)
  from drain_lands [OF assms(1) this, where w = idle_writer] show ?thesis
    by (auto simp: idle_writer_def INITIAL_BACKOFF_def MAX_BACKOFF_def)
qed

subsection \<open>Reading the table back\<close>

text \<open>What a row says of its proposal's status, from the \<open>event_type\<close> column alone.\<close>

definition row_status :: "string \<Rightarrow> proposal_status option" where
  "row_status t =
     map_of [(''received'', Submitted), (''resubmitted'', Submitted), (''cancelled'', Cancelled), (''validated'', Active),
       (''released'', Active), (''rejected'', Rejected), (''expired'', Expired), (''settlement_started'', Executing),
       (''sim_failed'', SimFailed), (''settled'', Settled), (''settle_failed'', SettleFailed), (''penalized'', Penalized)] t"

definition observe_row :: "proposal_id \<Rightarrow> proposal_status option \<Rightarrow> audit_row \<Rightarrow> proposal_status option" where
  "observe_row i s r = (if au_proposal_id r = uint (pid_raw i)
     then (case row_status (au_event_type r) of Some st \<Rightarrow> Some st | None \<Rightarrow> s) else s)"

definition replay_rows :: "proposal_id \<Rightarrow> audit_row list \<Rightarrow> proposal_status option" where
  "replay_rows i rows = foldl (observe_row i) None rows"

lemma row_status_event: "row_status (event_type k) = event_status k"
proof (cases k)
  case (StatusChanged i s u st0 st1 reason tx)
  then show ?thesis by (cases st1) (simp_all add: row_status_def)
qed (simp_all add: row_status_def)

lemma observe_row_again: "foldl (observe_row i) (observe_row i s r) (replicate n r) = observe_row i s r"
proof (induction n)
  case (Suc n)
  have "observe_row i (observe_row i s r) r = observe_row i s r" by (simp add: observe_row_def split: option.splits)
  with Suc show ?case by simp
qed simp

lemma foldl_copies:
  assumes "length ks = length rows" and "0 \<notin> set ks"
  shows "foldl (observe_row i) s (copies ks rows) = foldl (observe_row i) s rows"
  using assms
proof (induction ks rows arbitrary: s rule: list_induct2)
  case (Cons k ks r rows)
  obtain n where "k = Suc n" using Cons.prems by (cases k) auto
  with Cons show ?case by (simp add: observe_row_again)
qed simp

lemma foldl_rows:
  assumes "\<And>e. e \<in> set es \<Longrightarrow> audit_row_of c e \<noteq> None"
  shows "foldl (observe_row i) s (map (row_for c) es) = foldl (observe i) s (map ae_kind es)"
  using assms
proof (induction es arbitrary: s)
  case (Cons e es)
  have "uint (pid_raw (kind_proposal_id (ae_kind e))) = uint (pid_raw i) \<longleftrightarrow> kind_proposal_id (ae_kind e) = i"
    by (rule uint_pid_eq_iff)
  moreover have "audit_row_of c e \<noteq> None" using Cons.prems by simp
  ultimately have "observe_row i s (row_for c e) = observe i s (ae_kind e)"
    by (auto simp: observe_row_def observe_def row_for_def audit_row_of_def i64_of_u64_def row_status_event split: if_splits)
  with Cons show ?case by simp
qed simp

lemma lifecycle_next:
  "lifecycle a a' \<Longrightarrow> l_next a' = l_next a \<or> (\<exists>i p. l_book a' i = Some p \<and> l_next a' = uint (pid_raw i) + 1)"
  by (induction rule: lifecycle_by.induct) auto

lemma book_bounded: "book c st i = Some p \<Longrightarrow> uint (pid_raw i) \<le> i64_max"
  by (auto simp: book_def proposal_at_def i64_of_u64_def bind_eq_Some_conv split: if_splits)

text \<open>The sequence of identifiers stays within \<open>BIGINT\<close>, so the writer never panics on one.\<close>

lemma next_bounded:
  assumes "codec_ok c" and "starts s0" and "runs c s0 s"
  shows "d_next_proposal (st_db (s_store s)) \<le> i64_max + 1"
  using assms(3)
proof (induction rule: rtranclp_induct)
  case base
  then show ?case using assms(2) by (simp add: starts_def empty_db_def)
next
  case (step s s')
  have "sys_ok c s" using runs_ok [OF assms(1,2) step(1)] .
  then have "lifecycle (life_of c (s_store s)) (life_of c (s_store s'))" using step_refines [OF assms(1) _ step(2)] by blast
  from lifecycle_next [OF this] step.IH book_bounded [of c "s_store s'"] show ?case by fastforce
qed

lemma trail_rows:
  assumes "codec_ok c" and "starts s0" and "runs c s0 s" and "e \<in> set (st_audit (s_store s))"
  shows "audit_row_of c e \<noteq> None"
proof -
  have "life_ok (life_of c (s_store s))" using runs_ok [OF assms(1-3)] by (simp add: sys_ok_def)
  from life_ok_D(6) [OF this, of "ae_kind e"] next_bounded [OF assms(1-3)] assms(4)
  show ?thesis by (simp add: audit_row_of_def i64_of_u64_def)
qed

text \<open>C11. The audit table is evidence of the proposals: whatever the service ran, and however often the
  database failed or lost an acknowledgement while the writer drained the events of that run, the
  drained table, read by its proposal and event-type columns alone, gives each stored proposal exactly
  its current status, and every deleted one a dropped status.\<close>

theorem audit_table_replays:
  assumes "codec_ok c" and "starts s0" and "(service_step c)\<^sup>*\<^sup>* s0 s" and "recovers fates"
  shows "\<exists>w. drain c fates (st_audit (s_store s)) idle_writer = Some (Inr w) \<and>
    (\<forall>pid. case book c (s_store s) pid of
        Some q \<Rightarrow> replay_rows pid (wr_rows w) = Some (p_status q)
      | None \<Rightarrow> replay_rows pid (wr_rows w) \<in> {None, Some Rejected, Some SimFailed, Some Expired, Some Cancelled})"
proof -
  let ?es = "st_audit (s_store s)"
  have rows: "\<forall>e\<in>set ?es. audit_row_of c e \<noteq> None" using trail_rows [OF assms(1-3)] by blast
  obtain w ks where w: "drain c fates ?es idle_writer = Some (Inr w)" "length ks = length ?es" "0 \<notin> set ks"
      "wr_rows w = copies ks (map (row_for c) ?es)"
    using drain_lands [OF assms(4) rows, where w = idle_writer] by (auto simp: idle_writer_def)
  have table: "replay_rows pid (wr_rows w) = replay pid (trail s)" for pid
    using foldl_copies [of ks "map (row_for c) ?es" pid None] foldl_rows [of ?es c pid None] rows w(2-4)
    by (simp add: replay_rows_def replay_def)
  have ok: "life_ok (life_of c (s_store s))" using runs_ok [OF assms(1-3)] by (simp add: sys_ok_def)
  have "case book c (s_store s) pid of
        Some q \<Rightarrow> replay pid (trail s) = Some (p_status q)
      | None \<Rightarrow> replay pid (trail s) \<in> {None, Some Rejected, Some SimFailed, Some Expired, Some Cancelled}" for pid
    using life_ok_D(4,5) [OF ok, of pid] by (auto simp: dropped_statuses_def split: option.splits)
  with w(1) show ?thesis unfolding table [symmetric] by blast
qed

subsection \<open>A concrete drain\<close>

text \<open>The first statement's acknowledgement is lost.\<close>

definition flaky :: fates where
  "flaky n = (if n = 0 then Some (Unacknowledged Connection) else None)"

lemma flaky_recovers: "recovers flaky"
  unfolding recovers_def flaky_def by (metis le_add2 not_one_le_zero one_neq_zero le_zero_eq add_is_0)

theorem evidence_persisted_witness:
  "\<exists>w' ks. drain std_codec flaky (st_audit (s_store second_sys)) idle_writer = Some (Inr w') \<and>
    wr_rows w' = copies ks (map (row_for std_codec) (st_audit (s_store second_sys))) \<and> length ks = 1 \<and> 0 \<notin> set ks"
  using evidence_persisted [OF flaky_recovers, of "st_audit (s_store second_sys)" std_codec]
  by (auto simp: second_sys_def event_def sample_proposal_def)

theorem audit_table_replays_witness:
  "\<exists>w. drain std_codec flaky (st_audit (s_store second_sys)) idle_writer = Some (Inr w) \<and>
     replay_rows (ProposalId 1) (wr_rows w) = Some Submitted"
  using audit_table_replays [OF codec_ok_std first_starts first_run flaky_recovers] second_stored
  by (force simp: sample_proposal_def split: option.splits)

end
