(* ===== verification/Process.thy ===== *)
theory Process
  imports Validation Penalty_Loop Audit_Writer
begin

text \<open>
  The service process (\<open>run.rs\<close>, \<open>infra/api/mod.rs\<close>, \<open>infra/retention.rs\<close>): its arguments with what the
  parser enforces between them, the start-up, the background tasks it spawns and its teardown. A
  \<open>process\<close> is the tasks that run and the holders of a store handle; every handle carries a sender of
  the audit channel, so the writer ends only when none is left. An abort is a request: the task and its
  handle go when the runtime reclaims it, which it does in any order with the other things it schedules
  (\<open>runtime_step\<close>). That the writer writes out what is queued once no handle is left takes a database that
  comes back; this is the subject of \<open>Audit_Writer\<close>, and a drain that never ends is not counted here as a
  hang. The outside world - database, node, sockets - is an \<open>environment\<close> of outcomes. Not
  modelled: the task that waits for the signal (it holds no store), and connections that outlive listeners
  which failed while serving (a graceful shutdown waits for them).
\<close>

subsection \<open>Arguments\<close>

text \<open>The log filters and the socket addresses are left out; durations are in microseconds.\<close>

record arguments =
  ar_solve_bearer_token :: "string option"
  ar_chain_id :: u64
  ar_trampoline_factory :: address
  ar_database_url :: string
  ar_rpc_url :: "string option"
  ar_orderbook_url :: "string option"
  ar_escrow_address :: "address option"
  ar_settlement_address :: "address option"
  ar_min_collateral :: "u128 option"
  ar_default_gas_price :: "u64 option"
  ar_validation_interval_secs :: u64
  ar_dropped_retention :: time
  ar_retention_sweep_interval_secs :: u64
  ar_max_proposal_lifetime_secs :: u64
  ar_executing_timeout :: time
  ar_min_proposal_score :: u128
  ar_operator_private_key :: "signer option"

text \<open>The required flags, and the default of every other one.\<close>

definition default_arguments :: "u64 \<Rightarrow> address \<Rightarrow> string \<Rightarrow> arguments" where
  "default_arguments chain_id trampoline_factory database_url =
     \<lparr>ar_solve_bearer_token = None, ar_chain_id = chain_id, ar_trampoline_factory = trampoline_factory,
      ar_database_url = database_url, ar_rpc_url = None, ar_orderbook_url = None, ar_escrow_address = None,
      ar_settlement_address = None, ar_min_collateral = None, ar_default_gas_price = None,
      ar_validation_interval_secs = 12, ar_dropped_retention = 3600 * 1000000, ar_retention_sweep_interval_secs = 300,
      ar_max_proposal_lifetime_secs = 300, ar_executing_timeout = 300 * 1000000, ar_min_proposal_score = 0,
      ar_operator_private_key = None\<rparr>"

text \<open>\<open>requires_all\<close> of \<open>--rpc-url\<close> and \<open>requires\<close> of \<open>--operator-private-key\<close>.\<close>

definition accepted :: "arguments \<Rightarrow> bool" where
  "accepted args \<longleftrightarrow>
     (ar_rpc_url args = None \<or>
        ar_escrow_address args \<noteq> None \<and> ar_min_collateral args \<noteq> None \<and> ar_default_gas_price args \<noteq> None \<and>
        ar_settlement_address args \<noteq> None \<and> ar_orderbook_url args \<noteq> None) \<and>
     (ar_operator_private_key args = None \<or> ar_rpc_url args \<noteq> None)"

subsection \<open>Tasks and handles\<close>

datatype validator_choice = AcceptAllChosen | ProductionChosen validator_config string address

datatype task =
    WriterTask
  | PenaltyTask signer address u64 u256
  | ValidationTask validator_choice u64 time
  | RetentionTask u64 time

datatype holder = HeldByScope | HeldByListeners | HeldByTask task

text \<open>\<open>pr_cancelled\<close>: the tasks whose cancellation was requested.\<close>

record process =
  pr_tasks :: "task list"
  pr_handles :: "holder list"
  pr_cancelled :: "task list"

definition spawn :: "task \<Rightarrow> process \<Rightarrow> process" where
  "spawn t p = p\<lparr>pr_tasks := pr_tasks p @ [t], pr_handles := pr_handles p @ [HeldByTask t]\<rparr>"

definition abort :: "task \<Rightarrow> process \<Rightarrow> process" where
  "abort t p = p\<lparr>pr_cancelled := t # pr_cancelled p\<rparr>"

text \<open>A task ends - it returns, panics or is reclaimed - and drops what it holds.\<close>

definition finish :: "task \<Rightarrow> process \<Rightarrow> process" where
  "finish t p = p\<lparr>pr_tasks := removeAll t (pr_tasks p), pr_handles := removeAll (HeldByTask t) (pr_handles p)\<rparr>"

definition hold :: "holder \<Rightarrow> process \<Rightarrow> process" where
  "hold h p = p\<lparr>pr_handles := pr_handles p @ [h]\<rparr>"

definition release :: "holder \<Rightarrow> process \<Rightarrow> process" where
  "release h p = p\<lparr>pr_handles := remove1 h (pr_handles p)\<rparr>"

text \<open>\<open>interval_at(Instant::now() + period, period)\<close>, the first thing each loop does when it is first polled:
  it panics on a period of zero, and the addition on a period that leaves the range of the clock (seconds in
  an \<open>i64\<close>). \<open>uptime\<close> is the clock's reading in seconds.\<close>

definition interval_starts :: "nat \<Rightarrow> u64 \<Rightarrow> bool" where
  "interval_starts uptime secs \<longleftrightarrow> 0 < secs \<and> uptime + unat secs < 2 ^ 63"

fun task_starts :: "nat \<Rightarrow> task \<Rightarrow> bool" where
  "task_starts uptime WriterTask = True"
| "task_starts uptime (PenaltyTask key escrow period collateral) = interval_starts uptime period"
| "task_starts uptime (ValidationTask v period timeout) = interval_starts uptime period"
| "task_starts uptime (RetentionTask period retention) = interval_starts uptime period"

text \<open>The process once every spawned task was polled: a task that panicked is gone, and nobody is told.\<close>

definition first_poll :: "nat \<Rightarrow> process \<Rightarrow> process" where
  "first_poll uptime p = fold finish (filter (\<lambda>t. \<not> task_starts uptime t) (pr_tasks p)) p"

text \<open>What the runtime does on its own: it reclaims a cancelled task, a loop panics when first polled, and the
  writer returns when no sender of its channel is left.\<close>

inductive runtime_step :: "nat \<Rightarrow> process \<Rightarrow> process \<Rightarrow> bool" for uptime :: nat where
  Reclaim: "t \<in> set (pr_tasks p) \<Longrightarrow> t \<in> set (pr_cancelled p) \<Longrightarrow> runtime_step uptime p (finish t p)"
| LoopPanics: "t \<in> set (pr_tasks p) \<Longrightarrow> \<not> task_starts uptime t \<Longrightarrow> runtime_step uptime p (finish t p)"
| WriterReturns: "WriterTask \<in> set (pr_tasks p) \<Longrightarrow> pr_handles p = [] \<Longrightarrow> runtime_step uptime p (finish WriterTask p)"

text \<open>\<open>writer.await\<close>: meanwhile the runtime reclaims what is cancelled; \<open>None\<close> is an await that never
  completes, because a handle stays.\<close>

definition await_writer :: "process \<Rightarrow> process option" where
  "await_writer p =
     (let p' = fold finish (pr_cancelled p) p in if pr_handles p' = [] then Some (finish WriterTask p') else None)"

subsection \<open>The world\<close>

datatype serve_error = BindError | ServeFailed

text \<open>The two sockets, their resolved addresses and how serving them ends.\<close>

record sockets =
  so_public :: bool
  so_internal :: bool
  so_addresses :: bool
  so_served :: bool

definition serve :: "sockets \<Rightarrow> serve_error + unit" where
  "serve so =
     (if \<not> so_public so then Inl BindError
      else if \<not> so_internal so then Inl BindError
      else if \<not> so_addresses so then Inl BindError
      else if \<not> so_served so then Inl ServeFailed
      else Inr ())"

record environment =
  en_database :: bool
  en_url_parses :: "string \<Rightarrow> bool"
  en_rpc_reachable :: bool
  en_sockets :: sockets
  en_writer_panics :: bool
  en_uptime :: nat
  en_abi :: abi
  en_keccak :: "bytes \<Rightarrow> b256"

datatype fatal =
    DatabaseUnavailable | InvalidRpcUrl | RpcUnreachable | ServerExited serve_error | WriterPanicked

text \<open>\<open>Hangs\<close>: the writer is awaited while a handle is still held. \<open>Panics\<close>: an \<open>expect\<close> fails.\<close>

datatype ending = Panics | Hangs | Ends "fatal + unit"

subsection \<open>Start-up and teardown\<close>

definition state_of :: "eip712_domain \<Rightarrow> arguments \<Rightarrow> app_state" where
  "state_of domain args = \<lparr>app_domain = domain, app_max_proposal_lifetime_secs = ar_max_proposal_lifetime_secs args\<rparr>"

text \<open>The gas price before the first auction.\<close>

definition initial_gas_price :: "arguments \<Rightarrow> u64" where
  "initial_gas_price args = (case ar_default_gas_price args of None \<Rightarrow> 0 | Some g \<Rightarrow> g)"

text \<open>The loops up to the validation loop: \<open>None\<close> a panic, \<open>Inl\<close> an early return, \<open>Inr\<close> the validation
  task and the penalty task.\<close>

definition start_loops ::
  "arguments \<Rightarrow> environment \<Rightarrow> process \<Rightarrow> ((fatal + task \<times> task option) \<times> process) option" where
  "start_loops args env p =
     (case ar_rpc_url args of
        None \<Rightarrow>
          (let v = ValidationTask AcceptAllChosen (ar_validation_interval_secs args) (ar_executing_timeout args)
           in Some (Inr (v, None), spawn v p))
      | Some rpc_url \<Rightarrow>
          Option.bind (ar_escrow_address args) (\<lambda>escrow_address.
          Option.bind (ar_min_collateral args) (\<lambda>min_collateral.
          Option.bind (ar_settlement_address args) (\<lambda>settlement_address.
            if \<not> en_url_parses env rpc_url then Some (Inl InvalidRpcUrl, p)
            else if \<not> en_rpc_reachable env then Some (Inl RpcUnreachable, p)
            else
              (let penalty = map_option (\<lambda>operator_key.
                     PenaltyTask operator_key escrow_address (ar_validation_interval_secs args) (u256_of min_collateral))
                   (ar_operator_private_key args);
                   p = (case penalty of None \<Rightarrow> p | Some t \<Rightarrow> spawn t p)
               in Option.bind (ar_orderbook_url args) (\<lambda>orderbook_url.
                    let cfg = \<lparr>vc_settlement = settlement_address, vc_escrow = escrow_address,
                          vc_min_collateral = u256_of min_collateral, vc_min_score = u256_of (ar_min_proposal_score args),
                          vc_cache_capacity = CACHE_CAPACITY, vc_abi = en_abi env, vc_keccak = en_keccak env\<rparr>;
                        v = ValidationTask (ProductionChosen cfg orderbook_url (ar_trampoline_factory args))
                              (ar_validation_interval_secs args) (ar_executing_timeout args)
                    in Some (Inr (v, penalty), spawn v p)))))))"

text \<open>The listeners have returned; the loops are aborted, in this order.\<close>

definition teardown :: "task \<Rightarrow> task \<Rightarrow> task option \<Rightarrow> process \<Rightarrow> process" where
  "teardown validation retention penalty p =
     (let p = abort retention (abort validation (release HeldByListeners p))
      in case penalty of None \<Rightarrow> p | Some t \<Rightarrow> abort t p)"

text \<open>How the process ends, what was spawned when it began to serve, and what is left when \<open>run_with\<close>
  returns. An early return drops the locals, and with them every handle of the scope; the writer's handle is
  dropped too, which detaches the task: it runs on until it has drained its channel.\<close>

definition run_with :: "arguments \<Rightarrow> environment \<Rightarrow> ending \<times> process option \<times> process" where
  "run_with args env =
     (if \<not> en_database env then (Ends (Inl DatabaseUnavailable), None, \<lparr>pr_tasks = [], pr_handles = [], pr_cancelled = []\<rparr>)
      else
        (let p = \<lparr>pr_tasks = [WriterTask], pr_handles = [HeldByScope], pr_cancelled = []\<rparr>;
             p = hold HeldByListeners p
         in case start_loops args env p of
              None \<Rightarrow> (Panics, None, p)
            | Some (Inl e, p) \<Rightarrow> (Ends (Inl e), None, release HeldByScope (release HeldByListeners p))
            | Some (Inr (validation, penalty), p) \<Rightarrow>
                (let retention = RetentionTask (ar_retention_sweep_interval_secs args) (ar_dropped_retention args);
                     serving = spawn retention (release HeldByScope p);
                     served = serve (en_sockets env);
                     p = teardown validation retention penalty serving
                 in case await_writer p of
                      None \<Rightarrow> (Hangs, Some serving, p)
                    | Some p \<Rightarrow> (Ends (case served of
                                  Inl e \<Rightarrow> Inl (ServerExited e)
                                | Inr _ \<Rightarrow> if en_writer_panics env then Inl WriterPanicked else Inr ()),
                          Some serving, p))))"

text \<open>The binary: an error is printed and ends it with status 1, a panic with 101; \<open>None\<close>: it hangs.\<close>

definition start :: "arguments \<Rightarrow> environment \<Rightarrow> nat option" where
  "start args env = (case fst (run_with args env) of
     Ends (Inl _) \<Rightarrow> Some 1 | Ends (Inr _) \<Rightarrow> Some 0 | Panics \<Rightarrow> Some 101 | Hangs \<Rightarrow> None)"

subsection \<open>The retention loop\<close>

text \<open>One sweep per reading of the clock; a failure is logged and the next pass makes up for it.\<close>

fun retention_loop :: "time \<Rightarrow> clock list \<Rightarrow> store \<Rightarrow> store" where
  "retention_loop retention [] st = st"
| "retention_loop retention (clk # clks) st =
     (case sweep_dropped clk retention st of (_, st') \<Rightarrow> retention_loop retention clks st')"

lemma retention_loop_runs:
  "(service_step c)\<^sup>*\<^sup>* s (s\<lparr>s_store := retention_loop retention clks (s_store s)\<rparr>)"
proof (induction clks arbitrary: s)
  case (Cons clk clks)
  obtain r st where st: "sweep_dropped clk retention (s_store s) = (r, st)" by (cases "sweep_dropped clk retention (s_store s)")
  have "service_step c s (s\<lparr>s_store := st\<rparr>)" using st by (rule service_by.Sweep)
  moreover have "(service_step c)\<^sup>*\<^sup>* (s\<lparr>s_store := st\<rparr>) (s\<lparr>s_store := retention_loop retention (clk # clks) (s_store s)\<rparr>)"
    using Cons.IH [of "s\<lparr>s_store := st\<rparr>"] st by simp
  ultimately show ?case by (rule converse_rtranclp_into_rtranclp)
qed simp

subsection \<open>Clean ends\<close>

lemma process_simps [simp]:
  "pr_tasks (spawn t p) = pr_tasks p @ [t]" "pr_handles (spawn t p) = pr_handles p @ [HeldByTask t]"
  "pr_tasks (abort t p) = pr_tasks p" "pr_handles (abort t p) = pr_handles p"
  "pr_cancelled (abort t p) = t # pr_cancelled p" "pr_cancelled (spawn t p) = pr_cancelled p"
  "pr_tasks (finish t p) = removeAll t (pr_tasks p)" "pr_handles (finish t p) = removeAll (HeldByTask t) (pr_handles p)"
  "pr_cancelled (finish t p) = pr_cancelled p" "pr_cancelled (hold h p) = pr_cancelled p"
  "pr_cancelled (release h p) = pr_cancelled p"
  "pr_tasks (hold h p) = pr_tasks p" "pr_handles (hold h p) = pr_handles p @ [h]"
  "pr_tasks (release h p) = pr_tasks p" "pr_handles (release h p) = remove1 h (pr_handles p)"
  by (simp_all add: spawn_def abort_def hold_def release_def finish_def)

text \<open>What is spawned when serving begins.\<close>

definition served_with :: "arguments \<Rightarrow> validator_choice \<Rightarrow> task option \<Rightarrow> process" where
  "served_with args w penalty =
     (let loops = (case penalty of None \<Rightarrow> [] | Some t \<Rightarrow> [t]) @
            [ValidationTask w (ar_validation_interval_secs args) (ar_executing_timeout args),
             RetentionTask (ar_retention_sweep_interval_secs args) (ar_dropped_retention args)]
      in \<lparr>pr_tasks = WriterTask # loops, pr_handles = HeldByListeners # map HeldByTask loops, pr_cancelled = []\<rparr>)"

lemmas process_defs = spawn_def abort_def finish_def hold_def release_def

lemma served_process:
  assumes "accepted args" and "en_database env"
    and "case ar_rpc_url args of None \<Rightarrow> True | Some u \<Rightarrow> en_url_parses env u \<and> en_rpc_reachable env"
  shows "\<exists>w penalty. (case run_with args env of (ending, serving, final) \<Rightarrow>
       ending = Ends (case serve (en_sockets env) of
             Inl e \<Rightarrow> Inl (ServerExited e)
           | Inr _ \<Rightarrow> if en_writer_panics env then Inl WriterPanicked else Inr ()) \<and>
       serving = Some (served_with args w penalty) \<and> pr_tasks final = [] \<and> pr_handles final = []) \<and>
    (w = AcceptAllChosen \<longleftrightarrow> ar_rpc_url args = None) \<and>
    (case penalty of None \<Rightarrow> ar_operator_private_key args = None
     | Some t \<Rightarrow> \<exists>key escrow collateral. ar_operator_private_key args = Some key \<and>
         t = PenaltyTask key escrow (ar_validation_interval_secs args) collateral)"
proof (cases "ar_rpc_url args")
  case None
  with assms(1) have k: "ar_operator_private_key args = None" by (simp add: accepted_def)
  show ?thesis
    by (intro exI [of _ AcceptAllChosen] exI [of _ None])
      (use None k assms(2) in \<open>simp_all add: run_with_def start_loops_def Let_def teardown_def await_writer_def served_with_def process_defs\<close>)
next
  case (Some rpc_url)
  with assms obtain escrow collateral settlement orderbook where given:
    "ar_escrow_address args = Some escrow" "ar_min_collateral args = Some collateral"
    "ar_settlement_address args = Some settlement" "ar_orderbook_url args = Some orderbook"
    "en_url_parses env rpc_url" "en_rpc_reachable env"
    by (auto simp: accepted_def)
  note facts = Some given assms(2)
  let ?w = "ProductionChosen \<lparr>vc_settlement = settlement, vc_escrow = escrow,
      vc_min_collateral = u256_of collateral, vc_min_score = u256_of (ar_min_proposal_score args),
      vc_cache_capacity = CACHE_CAPACITY, vc_abi = en_abi env, vc_keccak = en_keccak env\<rparr> orderbook (ar_trampoline_factory args)"
  show ?thesis
  proof (cases "ar_operator_private_key args")
    case None
    show ?thesis
      by (intro exI [of _ ?w] exI [of _ None])
        (use None facts in \<open>simp_all add: run_with_def start_loops_def Let_def teardown_def await_writer_def served_with_def process_defs\<close>)
  next
    case (Some key)
    show ?thesis
      by (intro exI [of _ ?w] exI [of _ "Some (PenaltyTask key escrow (ar_validation_interval_secs args) (u256_of collateral))"])
        (use Some facts in \<open>simp_all add: run_with_def start_loops_def Let_def teardown_def await_writer_def served_with_def process_defs\<close>)
  qed
qed

lemma early_return:
  assumes "accepted args"
    and "\<not> (en_database env \<and> (case ar_rpc_url args of None \<Rightarrow> True | Some u \<Rightarrow> en_url_parses env u \<and> en_rpc_reachable env))"
  shows "run_with args env = (Ends (Inl (if \<not> en_database env then DatabaseUnavailable
           else if \<not> en_url_parses env (the (ar_rpc_url args)) then InvalidRpcUrl else RpcUnreachable)), None,
     \<lparr>pr_tasks = (if en_database env then [WriterTask] else []), pr_handles = [], pr_cancelled = []\<rparr>)"
  using assms by (cases "ar_rpc_url args")
    (auto simp: accepted_def run_with_def start_loops_def Let_def hold_def release_def)

text \<open>Whatever the runtime does first after the teardown, it comes to rest, with nothing left.\<close>

definition winding_down :: "process \<Rightarrow> bool" where
  "winding_down p \<longleftrightarrow> set (pr_tasks p) \<subseteq> insert WriterTask (set (pr_cancelled p)) \<and>
     (\<forall>h\<in>set (pr_handles p). \<exists>t\<in>set (pr_tasks p). h = HeldByTask t \<and> t \<in> set (pr_cancelled p))"

lemma winding_down_finish:
  assumes "winding_down p"
  shows "winding_down (finish t p)"
proof -
  have tasks: "x = WriterTask \<or> x \<in> set (pr_cancelled p)" if "x \<in> set (pr_tasks p)" for x
    using assms that unfolding winding_down_def by blast
  have "\<exists>x\<in>set (pr_tasks p). h = HeldByTask x \<and> x \<in> set (pr_cancelled p) \<and> x \<noteq> t"
    if "h \<in> set (pr_handles p)" "h \<noteq> HeldByTask t" for h
    using assms that unfolding winding_down_def by blast
  with tasks show ?thesis unfolding winding_down_def process_simps set_removeAll by (intro conjI subsetI ballI) (blast | metis DiffE DiffI insertI1 singletonD insertCI)+
qed

lemma winding_down_step: "runtime_step uptime p q \<Longrightarrow> winding_down p \<Longrightarrow> winding_down q \<and> length (pr_tasks q) < length (pr_tasks p)"
proof (induction rule: runtime_step.induct)
  case (Reclaim t p)
  then show ?case by (simp add: winding_down_finish length_removeAll_less)
next
  case (LoopPanics t p)
  then show ?case by (simp add: winding_down_finish length_removeAll_less)
next
  case (WriterReturns p)
  then show ?case by (simp add: winding_down_finish length_removeAll_less)
qed

lemma winding_down_rest:
  assumes "winding_down p" and "\<nexists>q. runtime_step uptime p q"
  shows "pr_tasks p = [] \<and> pr_handles p = []"
proof -
  have live: "t \<notin> set (pr_cancelled p)" if "t \<in> set (pr_tasks p)" for t
    using assms(2) that runtime_step.Reclaim by blast
  then have h: "pr_handles p = []" using assms(1) by (cases "pr_handles p") (auto simp: winding_down_def)
  then have w: "WriterTask \<notin> set (pr_tasks p)" using assms(2) runtime_step.WriterReturns [of p uptime] by blast
  have "x \<notin> set (pr_tasks p)" for x
    using live [of x] w assms(1) unfolding winding_down_def by (cases "x = WriterTask") blast+
  with h show ?thesis by (cases "pr_tasks p") auto
qed

lemma winding_down_run: "(runtime_step uptime)\<^sup>*\<^sup>* p q \<Longrightarrow> winding_down p \<Longrightarrow> winding_down q \<and> length (pr_tasks q) \<le> length (pr_tasks p)"
proof (induction rule: rtranclp_induct)
  case (step q r)
  with winding_down_step [of uptime q r] show ?case by simp
qed simp

lemma winding_down_rests: "winding_down p \<Longrightarrow> \<exists>q. (runtime_step uptime)\<^sup>*\<^sup>* p q \<and> (\<nexists>r. runtime_step uptime q r)"
proof (induction "length (pr_tasks p)" arbitrary: p rule: less_induct)
  case less
  show ?case
  proof (cases "\<exists>q. runtime_step uptime p q")
    case True
    then obtain q where q: "runtime_step uptime p q" by blast
    note w = winding_down_step [OF this less.prems]
    from less.hyps [OF w [THEN conjunct2] w [THEN conjunct1]] obtain r where
      "(runtime_step uptime)\<^sup>*\<^sup>* q r" "\<nexists>x. runtime_step uptime r x" by blast
    with q show ?thesis by (meson converse_rtranclp_into_rtranclp)
  qed blast
qed

definition comes_to_rest :: "nat \<Rightarrow> process \<Rightarrow> bool" where
  "comes_to_rest uptime p \<longleftrightarrow>
     (\<exists>q. (runtime_step uptime)\<^sup>*\<^sup>* p q \<and> (\<nexists>r. runtime_step uptime q r)) \<and>
     (\<forall>q r. (runtime_step uptime)\<^sup>*\<^sup>* p q \<longrightarrow> runtime_step uptime q r \<longrightarrow> length (pr_tasks r) < length (pr_tasks q)) \<and>
     (\<forall>q. (runtime_step uptime)\<^sup>*\<^sup>* p q \<longrightarrow> (\<nexists>r. runtime_step uptime q r) \<longrightarrow> pr_tasks q = [] \<and> pr_handles q = [])"

lemma winding_down_comes_to_rest: "winding_down p \<Longrightarrow> comes_to_rest uptime p"
  unfolding comes_to_rest_def using winding_down_rests winding_down_run winding_down_step winding_down_rest by meson

lemma first_poll_tasks: "pr_tasks (first_poll uptime p) = filter (task_starts uptime) (pr_tasks p)"
proof -
  have "pr_tasks (fold finish ts q) = filter (\<lambda>t. t \<notin> set ts) (pr_tasks q)" for ts q
    by (induction ts arbitrary: q) (auto simp: removeAll_filter_not_eq intro: filter_cong)
  then show ?thesis by (auto simp: first_poll_def intro: filter_cong)
qed


text \<open>The status reports failure exactly for a database or a node out of reach, a URL that does not parse,
  listeners that failed, or a writer that panicked.\<close>

lemma start_status:
  assumes "accepted args"
  shows "start args env = Some (if en_database env \<and> (case ar_rpc_url args of None \<Rightarrow> True
      | Some u \<Rightarrow> en_url_parses env u \<and> en_rpc_reachable env) \<and> serve (en_sockets env) = Inr () \<and> \<not> en_writer_panics env then 0 else 1)"
proof (cases "en_database env \<and> (case ar_rpc_url args of None \<Rightarrow> True | Some u \<Rightarrow> en_url_parses env u \<and> en_rpc_reachable env)")
  case True
  from served_process [OF assms conjunct1 [OF True] conjunct2 [OF True]] obtain w penalty where "case run_with args env of (ending, serving, final) \<Rightarrow>
       ending = Ends (case serve (en_sockets env) of
             Inl e \<Rightarrow> Inl (ServerExited e)
           | Inr _ \<Rightarrow> if en_writer_panics env then Inl WriterPanicked else Inr ()) \<and>
       serving = Some (served_with args w penalty) \<and> pr_tasks final = [] \<and> pr_handles final = []" by (elim exE conjE)
  with True show ?thesis by (cases "run_with args env") (auto simp: start_def split: sum.splits)
next
  case False
  with early_return [OF assms False] show ?thesis by (auto simp: start_def)
qed

definition blank_abi :: abi where
  "blank_abi = \<lparr>abi_transfer = (\<lambda>to amount. be_bytes 20 to @ be_bytes 32 amount), abi_execute = ec_signature,
     abi_settle = (\<lambda>x. concat (map i_callData (sc_intra x)))\<rparr>"

definition quiet_environment :: environment where
  "quiet_environment =
     \<lparr>en_database = True, en_url_parses = (\<lambda>_. True), en_rpc_reachable = True,
      en_sockets = \<lparr>so_public = True, so_internal = True, so_addresses = True, so_served = True\<rparr>,
      en_writer_panics = False, en_uptime = 1000, en_abi = blank_abi, en_keccak = (\<lambda>_. 0)\<rparr>"

definition staged_arguments :: arguments where
  "staged_arguments = (default_arguments 1 66 ''postgres'')
     \<lparr>ar_rpc_url := Some ''http'', ar_orderbook_url := Some ''api'', ar_escrow_address := Some 5, ar_settlement_address := Some 6,
      ar_min_collateral := Some 1000, ar_default_gas_price := Some 7, ar_operator_private_key := Some (toy_signer 17)\<rparr>"


text \<open>An interval of zero is accepted: the validation loop is spawned and panics at once, and the service goes
  on to serve without it.\<close>

lemma zero_interval_serves_unvalidated:
  "\<exists>p final. accepted (staged_arguments\<lparr>ar_validation_interval_secs := 0\<rparr>) \<and>
     run_with (staged_arguments\<lparr>ar_validation_interval_secs := 0\<rparr>) quiet_environment = (Ends (Inr ()), Some p, final) \<and>
     pr_tasks (first_poll 1000 p) = [WriterTask, RetentionTask 300 (3600 * 1000000)]"
  by (simp add: accepted_def staged_arguments_def default_arguments_def run_with_def start_loops_def quiet_environment_def Let_def
      serve_def teardown_def await_writer_def first_poll_tasks interval_starts_def)

end
