(* ===== verification/Lost_Replies.thy ===== *)
theory Lost_Replies
  imports Service "HOL-Library.Sublist"
begin

text \<open>
  What is left of the refinement when the connection is not truthful: a COMMIT or an autocommitted
  statement may take effect and report an error, and the audit writer may be gone. Every operation of
  the store (\<open>infra/storage.rs\<close>) that may meet such failures leaves the tables as it could have left
  them over a truthful connection, and of the evidence it would then have emitted it emits a part, in
  order (\<open>mimicked\<close>). So every run of the service, with any failures, has a truthful run beside it over
  the same tables, whose evidence contains the one emitted (\<open>shadowed\<close>).
\<close>

subsection \<open>Truthful executions\<close>

definition truthful :: "fault option list \<Rightarrow> bool" where
  "truthful fs \<longleftrightarrow> (\<forall>f\<in>set fs. acknowledged f)"

definition told :: "db \<Rightarrow> audit_event list \<Rightarrow> fault option list \<Rightarrow> store" where
  "told d A fs = \<lparr>st_db = d, st_audit = A, st_faults = fs, st_writer = True\<rparr>"

lemma told_simps [simp]:
  "st_db (told d A fs) = d" "st_audit (told d A fs) = A" "st_faults (told d A fs) = fs" "st_writer (told d A fs)"
  "told d A fs\<lparr>st_db := d'\<rparr> = told d' A fs" "told d A fs\<lparr>st_faults := fs'\<rparr> = told d A fs'"
  "told d A fs\<lparr>st_audit := A'\<rparr> = told d A' fs"
  by (simp_all add: told_def)

text \<open>\<open>follows m d r d' new\<close>: over a truthful connection and with the writer alive, \<open>m\<close> can take the tables
  \<open>d\<close> to \<open>d'\<close>, return \<open>r\<close> and emit \<open>new\<close>, whatever was emitted before and is to come.\<close>

definition follows :: "'a action \<Rightarrow> db \<Rightarrow> store_error + 'a \<Rightarrow> db \<Rightarrow> audit_event list \<Rightarrow> bool" where
  "follows m d r d' new \<longleftrightarrow>
     (\<exists>fs. truthful fs \<and> (\<forall>A gs. m (told d A (fs @ gs)) = (r, told d' (A @ new) gs)))"

lemma followsI: "truthful fs \<Longrightarrow> (\<And>A gs. m (told d A (fs @ gs)) = (r, told d' (A @ new) gs)) \<Longrightarrow> follows m d r d' new"
  by (auto simp: follows_def)

lemma truthful_simps [simp]: "truthful []" "truthful (f # fs) \<longleftrightarrow> acknowledged f \<and> truthful fs"
  "truthful (fs @ gs) \<longleftrightarrow> truthful fs \<and> truthful gs"
  by (auto simp: truthful_def)

lemma follows_act:
  assumes "follows m d (Inr a) d1 n1" and "follows (k a) d1 r d2 n2"
  shows "follows (act m k) d r d2 (n1 @ n2)"
proof -
  from assms obtain fs1 fs2 where f: "truthful fs1" "truthful fs2"
    and m: "\<And>A gs. m (told d A (fs1 @ gs)) = (Inr a, told d1 (A @ n1) gs)"
    and k: "\<And>A gs. k a (told d1 A (fs2 @ gs)) = (r, told d2 (A @ n2) gs)" by (auto simp: follows_def)
  have "act m k (told d A ((fs1 @ fs2) @ gs)) = (r, told d2 (A @ n1 @ n2) gs)" for A gs
    using m [of A "fs2 @ gs"] k [of "A @ n1" gs] by (simp add: act_def)
  with f show ?thesis by (intro followsI [of "fs1 @ fs2"]) simp_all
qed

lemma follows_stop: "follows m d (Inl e) d1 n \<Longrightarrow> follows (act m k) d (Inl e) d1 n"
  by (auto simp: follows_def act_def)

lemma follows_lift: "follows (lift r) d r d []"
  by (rule followsI [of "[]"]) (simp_all add: lift_def)

lemma follows_emit: "follows (emit t k) d (Inr ()) d [event t k]"
  by (rule followsI [of "[]"]) (simp_all add: emit_def event_def)

lemma follows_refused: "follows (stmt f) d (Inl (Database e)) d []"
  by (rule followsI [of "[Some (Failed e)]"]) (simp_all add: stmt_def next_fault_def)

lemma follows_error: "f d = Inl e \<Longrightarrow> follows (stmt f) d (Inl (Database e)) d []"
  by (rule followsI [of "[None]"]) (simp_all add: stmt_def next_fault_def)

lemma follows_effect: "f d = Inr (a, d') \<Longrightarrow> follows (stmt f) d (Inr a) d' []"
  by (rule followsI [of "[None]"]) (simp_all add: stmt_def next_fault_def)

text \<open>A transaction refused at BEGIN, one whose body fails, one that is rolled back, refused at COMMIT and
  committed.\<close>

lemma follows_tx_refused: "follows (in_tx body) d (Inl (Database e)) d []"
  by (rule followsI [of "[Some (Failed e)]"]) (simp_all add: in_tx_def stmt_def next_fault_def)

lemma follows_tx:
  assumes "follows body d r d1 []"
  shows "r = Inl e \<Longrightarrow> follows (in_tx body) d (Inl e) d []"
    and "r = Inr (Rollback a) \<Longrightarrow> follows (in_tx body) d (Inr a) d []"
    and "r = Inr (Commit a) \<Longrightarrow> follows (in_tx body) d (Inl (Database x)) d []"
    and "r = Inr (Commit a) \<Longrightarrow> follows (in_tx body) d (Inr a) d1 []"
proof -
  from assms obtain fs where f: "truthful fs" and b: "\<And>A gs. body (told d A (fs @ gs)) = (r, told d1 A gs)"
    by (auto simp: follows_def)
  show "follows (in_tx body) d (Inl e) d []" if "r = Inl e"
    by (rule followsI [of "None # fs"]) (use f b that in \<open>simp_all add: in_tx_def stmt_def next_fault_def\<close>)
  show "follows (in_tx body) d (Inr a) d []" if "r = Inr (Rollback a)"
    by (rule followsI [of "None # fs"]) (use f b that in \<open>simp_all add: in_tx_def stmt_def next_fault_def\<close>)
  show "follows (in_tx body) d (Inl (Database x)) d []" if "r = Inr (Commit a)"
    by (rule followsI [of "None # fs @ [Some (Failed x)]"])
      (use f b that in \<open>simp_all add: in_tx_def stmt_def next_fault_def\<close>)
  show "follows (in_tx body) d (Inr a) d1 []" if "r = Inr (Commit a)"
    by (rule followsI [of "None # fs @ [None]"]) (use f b that in \<open>simp_all add: in_tx_def stmt_def next_fault_def\<close>)
qed

lemma some_follows:
  "\<exists>r. follows (stmt f) d r d []" "f d = Inr (a, d') \<Longrightarrow> \<exists>r. follows (stmt f) d r d' []"
  "\<exists>r. follows (in_tx body) d r d []"
  by (blast intro: follows_refused follows_effect follows_tx_refused)+

subsection \<open>Operations over a connection that loses replies\<close>

named_theorems lossy "operations that behave like truthful ones"

text \<open>A read changes nothing, and what it returns it can return over a truthful connection.\<close>

definition reads :: "'a action \<Rightarrow> bool" where
  "reads m \<longleftrightarrow> (\<forall>st r st'. m st = (r, st') \<longrightarrow>
     st_db st' = st_db st \<and> st_audit st' = st_audit st \<and> follows m (st_db st) r (st_db st) [])"

text \<open>The body of a transaction emits nothing; the tables it leaves count when it succeeds.\<close>

definition quiet :: "'a action \<Rightarrow> bool" where
  "quiet m \<longleftrightarrow> (\<forall>st r st'. m st = (r, st') \<longrightarrow> st_audit st' = st_audit st \<and>
     (\<exists>d. follows m (st_db st) r d [] \<and> (\<forall>a. r = Inr a \<longrightarrow> d = st_db st')))"

text \<open>What follows a statement that took effect leaves the tables alone when nothing else fails, or fails.\<close>

definition settles :: "'a action \<Rightarrow> bool" where
  "settles m \<longleftrightarrow> (\<forall>d. \<exists>r new. follows m d r d new)"

definition mimicked :: "'a action \<Rightarrow> bool" where
  "mimicked m \<longleftrightarrow> (\<forall>st r st'. m st = (r, st') \<longrightarrow> (\<exists>new r' more.
     st_audit st' = st_audit st @ new \<and> follows m (st_db st) r' (st_db st') more \<and> subseq new more \<and>
     (\<forall>a. r = Inr a \<longrightarrow> r' = Inr a)))"

lemma readsD: "reads m \<Longrightarrow> m st = (r, st') \<Longrightarrow>
    st_db st' = st_db st \<and> st_audit st' = st_audit st \<and> follows m (st_db st) r (st_db st) []"
  by (simp add: reads_def)

lemma reads_lift [lossy]: "reads (lift r)"
proof -
  have "lift r st = (r, st)" for st by (simp add: lift_def)
  then show ?thesis by (simp add: reads_def follows_lift)
qed

lemma reads_done [lossy]: "reads (done_with a)" and reads_fail [lossy]: "reads (fail e)"
  by (simp_all add: done_with_def fail_def reads_lift)

lemma reads_stmt [lossy]: "reads (stmt (\<lambda>d. Inr (g d, d)))"
  by (auto simp: reads_def stmt_def Let_def split: option.splits fault.splits
      intro: follows_refused follows_effect)

lemma reads_act [lossy]:
  assumes "reads m" and "\<And>a. reads (k a)"
  shows "reads (act m k)"
  unfolding reads_def
proof (intro allI impI)
  fix st r st' assume run: "act m k st = (r, st')"
  obtain r1 st1 where m: "m st = (r1, st1)" by (cases "m st")
  note rm = readsD [OF assms(1) m]
  show "st_db st' = st_db st \<and> st_audit st' = st_audit st \<and> follows (act m k) (st_db st) r (st_db st) []"
  proof (cases r1)
    case (Inl e)
    with run m rm show ?thesis using follows_stop by (auto simp: act_def)
  next
    case (Inr a)
    with run m have "k a st1 = (r, st')" by (simp add: act_def)
    from readsD [OF assms(2) this] rm Inr follows_act [of m "st_db st" a "st_db st" "[]" k r "st_db st" "[]"]
    show ?thesis by simp
  qed
qed

lemma reads_quiet: "reads m \<Longrightarrow> quiet m"
  unfolding reads_def quiet_def by metis

lemma reads_settles: "reads m \<Longrightarrow> settles m"
  unfolding settles_def
proof
  fix d assume "reads m"
  obtain r st' where "m (told d [] []) = (r, st')" by (cases "m (told d [] [])")
  from readsD [OF \<open>reads m\<close> this] show "\<exists>r new. follows m d r d new" by auto
qed

lemma reads_mimicked: "reads m \<Longrightarrow> mimicked m"
  unfolding reads_def mimicked_def by (metis append_Nil2 subseq_order.order_refl)

lemma quiet_stmt [lossy]: "quiet (stmt f)"
  by (auto simp: quiet_def stmt_def Let_def split: option.splits fault.splits sum.splits
      intro: follows_refused follows_effect follows_error)

lemma quiet_act [lossy]:
  assumes "quiet m" and "\<And>a. quiet (k a)"
  shows "quiet (act m k)"
  unfolding quiet_def
proof (intro allI impI)
  fix st r st' assume run: "act m k st = (r, st')"
  obtain r1 st1 where m: "m st = (r1, st1)" by (cases "m st")
  with assms(1) obtain d where a: "st_audit st1 = st_audit st" and f: "follows m (st_db st) r1 d []"
    and d: "\<And>a. r1 = Inr a \<Longrightarrow> d = st_db st1" unfolding quiet_def by metis
  show "st_audit st' = st_audit st \<and> (\<exists>d. follows (act m k) (st_db st) r d [] \<and> (\<forall>a. r = Inr a \<longrightarrow> d = st_db st'))"
  proof (cases r1)
    case (Inl e)
    with run m have "r = Inl e" "st' = st1" by (simp_all add: act_def)
    with a follows_stop [OF f [unfolded Inl], of k] show ?thesis by auto
  next
    case (Inr x)
    with run m have "k x st1 = (r, st')" by (simp add: act_def)
    with assms(2) obtain d' where "st_audit st' = st_audit st1" "follows (k x) (st_db st1) r d' []"
      "\<forall>a. r = Inr a \<longrightarrow> d' = st_db st'" unfolding quiet_def by metis
    moreover have "follows (act m k) (st_db st) r d' []"
      using follows_act [where m = m and a = x and ?n1.0 = "[]" and ?n2.0 = "[]"] f d Inr calculation by simp
    ultimately show ?thesis using a by auto
  qed
qed

lemma settles_emit [lossy]: "settles (emit t k)"
  unfolding settles_def using follows_emit by blast

lemma settles_act_pure: "settles m \<Longrightarrow> (\<And>a. settles (k a)) \<Longrightarrow> settles (act m k)"
  unfolding settles_def
proof
  fix d assume m: "\<forall>d. \<exists>r new. follows m d r d new" and k: "\<And>a. \<forall>d. \<exists>r new. follows (k a) d r d new"
  from m obtain r new where f: "follows m d r d new" by blast
  show "\<exists>r new. follows (act m k) d r d new"
  proof (cases r)
    case (Inl e)
    with f follows_stop show ?thesis by blast
  next
    case (Inr a)
    obtain r2 new2 where "follows (k a) d r2 d new2" using k by blast
    with follows_act [where m = m and d = d and k = k] f Inr show ?thesis by blast
  qed
qed

lemma settles_emit_all [lossy]: "settles (emit_all t ks)"
  by (induction ks) (simp_all add: reads_settles reads_done settles_act_pure settles_emit)

lemma mimicked_emit [lossy]: "mimicked (emit t k)"
  using follows_emit by (auto simp: mimicked_def emit_def event_def)

lemma mimicked_stmt [lossy]: "mimicked (stmt f)"
proof -
  have "\<exists>r'. follows (stmt f) (st_db st) r' (st_db st') [] \<and> (\<forall>a. r = Inr a \<longrightarrow> r' = Inr a)"
    if "stmt f st = (r, st')" for st r st'
    using that by (auto simp: stmt_def Let_def split: option.splits fault.splits sum.splits
        intro: follows_refused follows_effect follows_error some_follows)
  moreover have "st_audit st' = st_audit st" if "stmt f st = (r, st')" for st r st'
    using that by (auto simp: stmt_def Let_def split: option.splits fault.splits sum.splits)
  ultimately show ?thesis unfolding mimicked_def by (metis append_Nil2 subseq_order.order_refl)
qed

text \<open>Where \<open>m\<close> took effect and reported an error, what would have followed runs in the truthful execution
  only.\<close>

lemma mimicked_act [lossy]:
  assumes "mimicked m" and "\<And>a. mimicked (k a)" and "\<And>a. settles (k a)"
  shows "mimicked (act m k)"
  unfolding mimicked_def
proof (intro allI impI)
  fix st r st' assume run: "act m k st = (r, st')"
  obtain r1 st1 where m: "m st = (r1, st1)" by (cases "m st")
  with assms(1) obtain new r2 more where a: "st_audit st1 = st_audit st @ new"
    and f: "follows m (st_db st) r2 (st_db st1) more" and s: "subseq new more"
    and r2: "\<And>a. r1 = Inr a \<Longrightarrow> r2 = Inr a" unfolding mimicked_def by metis
  show "\<exists>new r' more. st_audit st' = st_audit st @ new \<and> follows (act m k) (st_db st) r' (st_db st') more \<and>
      subseq new more \<and> (\<forall>a. r = Inr a \<longrightarrow> r' = Inr a)"
  proof (cases r1)
    case (Inl e)
    with run m have r: "r = Inl e" "st' = st1" by (simp_all add: act_def)
    show ?thesis
    proof (cases r2)
      case (Inl e')
      with r a s follows_stop f show ?thesis by blast
    next
      case (Inr x)
      from assms(3) obtain r3 new3 where "follows (k x) (st_db st1) r3 (st_db st1) new3"
        unfolding settles_def by blast
      with f Inr r have "follows (act m k) (st_db st) r3 (st_db st') (more @ new3)"
        by (simp add: follows_act [where a = x])
      with a s r show ?thesis using subseq_rev_drop_many by blast
    qed
  next
    case (Inr x)
    with run m have "k x st1 = (r, st')" by (simp add: act_def)
    with assms(2) obtain new' r' more' where k: "st_audit st' = st_audit st1 @ new'"
      "follows (k x) (st_db st1) r' (st_db st') more'" "subseq new' more'" "\<forall>a. r = Inr a \<longrightarrow> r' = Inr a"
      unfolding mimicked_def by metis
    have "follows (act m k) (st_db st) r' (st_db st') (more @ more')"
      by (rule follows_act [where a = x]) (use f r2 [OF Inr] k(2) in simp_all)
    moreover have "subseq (new @ new') (more @ more')" using s k(3) by (rule list_emb_append_mono)
    ultimately show ?thesis using a k by (metis append_assoc)
  qed
qed

lemma mimicked_lift [lossy]: "(\<And>a. mimicked (k a)) \<Longrightarrow> mimicked (act (lift x) k)"
proof (cases x)
  case (Inl e)
  then have "act (lift x) k = lift (Inl e)" by (simp add: fun_eq_iff act_def lift_def)
  then show ?thesis by (simp add: reads_mimicked reads_lift)
next
  case (Inr a)
  then have "act (lift x) k = k a" by (simp add: fun_eq_iff act_def lift_def)
  then show "(\<And>a. mimicked (k a)) \<Longrightarrow> ?thesis" by simp
qed

lemma mimicked_emit_all [lossy]: "mimicked (emit_all t ks)"
  by (induction ks) (simp_all add: reads_mimicked reads_done mimicked_act mimicked_emit settles_emit_all)

lemma mimicked_in_tx [lossy]:
  assumes "quiet body"
  shows "mimicked (in_tx body)"
proof -
  have "st_audit st' = st_audit st \<and>
      (\<exists>r'. follows (in_tx body) (st_db st) r' (st_db st') [] \<and> (\<forall>a. r = Inr a \<longrightarrow> r' = Inr a))"
    if run: "in_tx body st = (r, st')" for st r st'
  proof -
    obtain r1 st1 where b: "stmt (\<lambda>d. Inr ((), d)) st = (r1, st1)" by (cases "stmt (\<lambda>d. Inr ((), d)) st")
    then have same: "st_db st1 = st_db st" "st_audit st1 = st_audit st"
      by (auto simp: stmt_def Let_def split: option.splits fault.splits)
    show ?thesis
    proof (cases r1)
      case (Inl e)
      with run b same show ?thesis using follows_tx_refused [of body "st_db st"] by (auto simp: in_tx_def)
    next
      case (Inr u)
      obtain r2 st2 where m: "body st1 = (r2, st2)" by (cases "body st1")
      with assms same obtain d where a: "st_audit st2 = st_audit st" and f: "follows body (st_db st) r2 d []"
        and d: "\<And>a. r2 = Inr a \<Longrightarrow> d = st_db st2" unfolding quiet_def by metis
      from run b m Inr d follows_tx [OF f] a same show ?thesis
        by (auto simp: in_tx_def stmt_def Let_def split: sum.splits tx_end.splits option.splits fault.splits
            intro: some_follows)
    qed
  qed
  then show ?thesis unfolding mimicked_def by (metis append_Nil2 subseq_order.order_refl)
qed

subsection \<open>The operations of the store\<close>

lemma reads_cases [lossy]:
  "reads a \<Longrightarrow> (\<And>y. reads (b y)) \<Longrightarrow> reads (case x of None \<Rightarrow> a | Some y \<Rightarrow> b y)"
  "reads a \<Longrightarrow> reads a' \<Longrightarrow> reads (if P then a else a')"
  by (auto split: option.split)

lemma quiet_cases [lossy]:
  "quiet a \<Longrightarrow> (\<And>y. quiet (b y)) \<Longrightarrow> quiet (case x of None \<Rightarrow> a | Some y \<Rightarrow> b y)"
  "quiet a \<Longrightarrow> quiet a' \<Longrightarrow> quiet (if P then a else a')"
  by (auto split: option.split)

lemma settles_cases [lossy]:
  "settles a \<Longrightarrow> settles a' \<Longrightarrow> settles (if P then a else a')"
  by simp

lemma mimicked_cases [lossy]:
  "mimicked a \<Longrightarrow> mimicked a' \<Longrightarrow> mimicked (if P then a else a')"
  by simp

lemmas reads_pure = reads_lift reads_done reads_fail
lemmas quiet_pure [lossy] = reads_pure [THEN reads_quiet]
lemmas settles_pure [lossy] = reads_pure [THEN reads_settles]
lemmas mimicked_pure [lossy] = reads_pure [THEN reads_mimicked]

lemma reads_stale_or_missing: "reads (stale_or_missing pid expected)"
  unfolding stale_or_missing_def by (intro lossy)

lemmas stale_lossy [lossy] = reads_stale_or_missing [THEN reads_settles] reads_stale_or_missing [THEN reads_mimicked]

lemma reads_select_row: "reads (select_row i)"
  unfolding select_row_def by (intro lossy)

lemma reads_query: "reads (query c P)"
  unfolding query_def by (intro lossy)

lemma reads_snapshot: "reads (snapshot_by_statuses c sts)"
  and reads_attributed: "reads (solution_proposals c auction sids)"
  and reads_auction: "reads (active_by_order_uids c uids)"
  and reads_owned: "reads (list_by_order_uid_for_owner c uid owner)"
  and reads_live: "reads (list_by_sub_solver c owner)"
  and reads_pending: "reads (pending_penalties c)"
  unfolding snapshot_by_statuses_def solution_proposals_def active_by_order_uids_def list_by_order_uid_for_owner_def
    list_by_sub_solver_def pending_penalties_def Let_def
  by (intro lossy reads_query)+

lemma reads_get: "reads (get_proposal c pid)"
  unfolding get_proposal_def by (cases "as_db_id pid") (simp_all add: reads_done reads_act reads_select_row reads_lift reads_cases)

lemma mimicked_transition: "mimicked (transition clk p to)"
  and mimicked_record_penalty: "mimicked (record_penalty c clk p amount tx)"
  unfolding transition_def record_penalty_def Let_def by (intro lossy)+

lemma quiet_locked_row [lossy]: "quiet (locked_row pid)"
  unfolding locked_row_def by (intro lossy reads_select_row [THEN reads_quiet])

lemma quiet_require_live [lossy]: "quiet (require_live pid from)"
  unfolding require_live_def by (intro lossy)

lemma mimicked_cancel: "mimicked (cancel c clk pid owner)"
  unfolding cancel_def cancel_body_def by (intro lossy)

lemma mimicked_verdict: "mimicked (resolve_verdict c clk pid v)"
proof (cases "verdict_parts v")
  case (fields to reason sim)
  have "mimicked (act (in_tx (verdict_body c clk pid to reason sim)) (\<lambda>(from, sub_solver, order_uid).
      act (if from \<noteq> to then emit (wall_now clk) (StatusChanged pid sub_solver order_uid from to reason None)
           else done_with ()) (\<lambda>_. done_with to)))"
    unfolding verdict_body_def split_beta by (intro lossy settles_act_pure)
  then show ?thesis by (simp add: resolve_verdict_def fields)
qed

lemma mimicked_outcome: "mimicked (apply_settlement_outcome c clk p oc)"
proof -
  have "settles (case eff of Ignored from \<Rightarrow> done_with (Ignored from) | Applied from to \<Rightarrow>
      act (emit t k) (\<lambda>_. done_with (Applied from to)))" for eff t k
    by (cases eff) (simp_all add: settles_pure settles_act_pure settles_emit)
  moreover have "mimicked (case eff of Ignored from \<Rightarrow> done_with (Ignored from) | Applied from to \<Rightarrow>
      act (emit (t to) (k from to)) (\<lambda>_. done_with (Applied from to)))" for eff t k
    by (cases eff) (simp_all add: mimicked_pure settles_pure mimicked_act mimicked_emit)
  moreover have "quiet (outcome_body c clk p oc)"
    unfolding outcome_body_def by (intro lossy)
  ultimately show ?thesis unfolding apply_settlement_outcome_def
    by (intro mimicked_act mimicked_in_tx) (auto simp: settles_act_pure settles_emit settles_pure split: outcome_effect.split)
qed

lemma mimicked_release: "mimicked (release_stale_executing c clk older)"
  unfolding release_stale_executing_def release_body_def by (intro lossy settles_act_pure)

lemma mimicked_note: "mimicked (note_driver_notification clk p kind)"
  and mimicked_sweep: "mimicked (sweep_dropped clk older)"
  and mimicked_debit: "mimicked (record_non_settlement_debit c clk pp amount tx)"
  and mimicked_bid: "mimicked (record_solution auction sid pid)"
  unfolding note_driver_notification_def sweep_dropped_def record_non_settlement_debit_def record_solution_def
  by (intro lossy)+

subsection \<open>The truthful run beside a run\<close>

text \<open>\<open>t\<close> stands for \<open>s\<close>: the same tables and the same reads, all the evidence \<open>s\<close> has and perhaps more, over
  a truthful connection.\<close>

definition shadowed :: "codec \<Rightarrow> sys \<Rightarrow> sys \<Rightarrow> bool" where
  "shadowed c s t \<longleftrightarrow> sys_ok c t \<and> st_db (s_store t) = st_db (s_store s) \<and>
     subseq (st_audit (s_store s)) (st_audit (s_store t)) \<and> s_held t = s_held s \<and> s_charges t = s_charges s"

lemma good_told:
  assumes "good c st" and "truthful fs"
  shows "good c (told (st_db st) (st_audit st) fs)"
  using assms by (simp add: good_def reliable_def truthful_def)

lemma sys_ok_told:
  assumes "sys_ok c t" and "truthful fs"
  shows "sys_ok c (t\<lparr>s_store := told (st_db (s_store t)) (st_audit (s_store t)) fs\<rparr>)"
  using assms good_told by (simp add: sys_ok_def life_of_def book_def charges_bounded_def)

text \<open>The truthful counterpart of an operation, from a store over the same tables.\<close>

lemma mimic:
  assumes "mimicked m" and "m st = (r, st')" and "st_db sh = st_db st" and "subseq (st_audit st) (st_audit sh)"
  shows "\<exists>fs r' sh'. truthful fs \<and> m (told (st_db sh) (st_audit sh) fs) = (r', sh') \<and> st_db sh' = st_db st' \<and>
    subseq (st_audit st') (st_audit sh')"
proof -
  from assms(1,2) obtain new r' more where a: "st_audit st' = st_audit st @ new" "subseq new more"
    and f: "follows m (st_db st) r' (st_db st') more" unfolding mimicked_def by metis
  from f obtain fs where fs: "truthful fs" "\<And>A gs. m (told (st_db st) A (fs @ gs)) = (r', told (st_db st') (A @ more) gs)"
    by (auto simp: follows_def)
  have "m (told (st_db sh) (st_audit sh) fs) = (r', told (st_db st') (st_audit sh @ more) [])"
    using fs(2) [of "st_audit sh" "[]"] assms(3) by simp
  moreover have "subseq (st_audit st') (st_audit sh @ more)"
    unfolding a(1) using assms(4) a(2) by (rule list_emb_append_mono)
  ultimately show ?thesis using fs(1) by (metis told_simps(1,2))
qed

lemma mimic_read:
  assumes "reads m" and "m st = (r, st')" and "st_db sh = st_db st" and "subseq (st_audit st) (st_audit sh)"
  shows "\<exists>fs sh'. truthful fs \<and> m (told (st_db sh) (st_audit sh) fs) = (r, sh') \<and> st_db sh' = st_db st' \<and>
    subseq (st_audit st') (st_audit sh')"
proof -
  from readsD [OF assms(1,2)] obtain fs where "truthful fs" "\<And>A gs. m (told (st_db st) A (fs @ gs)) = (r, told (st_db st) A gs)"
    and same: "st_db st' = st_db st" "st_audit st' = st_audit st" by (auto simp: follows_def)
  then have "m (told (st_db sh) (st_audit sh) fs) = (r, told (st_db sh) (st_audit sh) [])"
    using assms(3) by (metis append_Nil2)
  with \<open>truthful fs\<close> same assms(3,4) show ?thesis by (metis told_simps(1,2))
qed

lemma mimic_insert:
  assumes gd: "good c sh" and c: "codec_ok c" and u: "uid_ok (p_order_uid p)" and gas: "p_gas_used p = None"
    and run: "insert_proposal_op c clk p st = Some (r, st')"
    and "st_db sh = st_db st" and "subseq (st_audit st) (st_audit sh)"
  shows "\<exists>fs r' sh'. truthful fs \<and> insert_proposal_op c clk p (told (st_db sh) (st_audit sh) fs) = Some (r', sh') \<and>
    st_db sh' = st_db st' \<and> subseq (st_audit st') (st_audit sh')"
proof -
  let ?f = "insert_proposal c (db_now clk) p None"
  have g: "gas_column (p_gas_used p) = Some None" using gas by (simp add: gas_column_def)
  obtain r1 st1 where s: "stmt ?f st = (r1, st1)" by (cases "stmt ?f st")
  have moved: "(st_db st1 = st_db st \<and> (\<exists>e. r1 = Inl e)) \<or> (\<exists>i. ?f (st_db st) = Inr (i, st_db st1) \<and> (r1 = Inr i \<or> (\<exists>e. r1 = Inl e)))"
    and a1: "st_audit st1 = st_audit st"
    using s by (auto simp: stmt_def Let_def split: option.splits fault.splits sum.splits)
  have d': "st_db st' = st_db st1" and a': "\<forall>i pid. r1 = Inr i \<longrightarrow> id_of_db i = Some pid \<longrightarrow>
      more = [event (wall_now clk) (Received (p\<lparr>p_id := pid\<rparr>))] \<Longrightarrow> subseq (st_audit st') (st_audit st @ more)" for more
    using run s g a1 by (auto simp: insert_proposal_op_def act_def emit_def done_with_def lift_def event_def
        split: sum.splits option.splits prod.splits if_splits)
  have refused: "\<exists>r'. insert_proposal_op c clk p (told (st_db sh) (st_audit sh) [Some (Failed x)]) = Some (r', told (st_db sh) (st_audit sh) [])"
    for x by (simp add: insert_proposal_op_def g stmt_def next_fault_def)
  show ?thesis
  proof (cases "\<exists>i. ?f (st_db st) = Inr (i, st_db st1) \<and> (r1 = Inr i \<or> (\<exists>e. r1 = Inl e))")
    case True
    then obtain i where i: "?f (st_db sh) = Inr (i, st_db st1)" "r1 = Inr i \<or> (\<exists>e. r1 = Inl e)" using assms(6) by metis
    have gt: "good c (told (st_db sh) (st_audit sh) [None])" using good_told [OF gd] by simp
    from insert_outcome [OF gt c u g, of clk] obtain r2 sh' where
      o: "insert_proposal_op c clk p (told (st_db sh) (st_audit sh) [None]) = Some (r2, sh')" by auto
    then obtain pid where pid: "id_of_db i = Some pid" and sh': "st_db sh' = st_db st1"
      "st_audit sh' = st_audit sh @ [event (wall_now clk) (Received (p\<lparr>p_id := pid\<rparr>))]"
      using i(1) by (auto simp: insert_proposal_op_def g stmt_def next_fault_def act_def emit_def done_with_def lift_def
          event_def split: option.splits)
    have "subseq (st_audit st') (st_audit st @ [event (wall_now clk) (Received (p\<lparr>p_id := pid\<rparr>))])"
      by (rule a') (use pid i(2) in auto)
    with o sh' d' assms(7) show ?thesis
      by (intro exI [of _ "[None]"]) (auto intro: subseq_order.order_trans list_emb_append_mono)
  next
    case False
    with moved obtain e where e: "st_db st1 = st_db st" "r1 = Inl e" by auto
    have "subseq (st_audit st') (st_audit st @ [])" "st_db st' = st_db st1" using a' [of "[]"] d' e(2) by auto
    with refused e assms(6,7) show ?thesis
      by (intro exI [of _ "[Some (Failed x)]" for x]) (fastforce intro: subseq_order.order_trans)
  qed
qed

text \<open>A step of \<open>s\<close>, whatever its connection reports, has a truthful step of \<open>t\<close> beside it.\<close>

lemma shadow_reached:
  assumes c: "codec_ok c" and sh: "shadowed c s t" and "truthful fs" 
    and step: "service_by c J (t\<lparr>s_store := told (st_db (s_store t)) (st_audit (s_store t)) fs\<rparr>) t'"
    and "st_db (s_store t') = st_db (s_store s')" and "subseq (st_audit (s_store s')) (st_audit (s_store t'))"
    and "s_held t' = s_held s'" and "s_charges t' = s_charges s'"
  shows "\<exists>t'. shadowed c s' t' \<and> lifecycle_by (verdict_by J) (life_of c (s_store t)) (life_of c (s_store t'))"
proof -
  have "sys_ok c (t\<lparr>s_store := told (st_db (s_store t)) (st_audit (s_store t)) fs\<rparr>)"
    using sh by (intro sys_ok_told [OF _ assms(3)]) (simp add: shadowed_def)
  note r = step_refines_by [OF c this step]
  have "life_of c (told (st_db (s_store t)) (st_audit (s_store t)) fs) = life_of c (s_store t)"
    by (simp add: life_of_def book_def)
  with r assms(5-8) show ?thesis by (intro exI [of _ t']) (simp add: shadowed_def)
qed

lemma shadow_write:
  assumes c: "codec_ok c" and sh: "shadowed c s t" and m: "mimicked m" and run: "m (s_store s) = (r, st')"
    and step: "\<And>st r st'. m st = (r, st') \<Longrightarrow> service_by c J (t\<lparr>s_store := st\<rparr>) (t\<lparr>s_store := st'\<rparr>)"
  shows "\<exists>t'. shadowed c (s\<lparr>s_store := st'\<rparr>) t' \<and> lifecycle_by (verdict_by J) (life_of c (s_store t)) (life_of c (s_store t'))"
proof -
  have same: "st_db (s_store t) = st_db (s_store s)" "subseq (st_audit (s_store s)) (st_audit (s_store t))"
    "s_held t = s_held s" "s_charges t = s_charges s" using sh by (simp_all add: shadowed_def)
  from mimic [OF m run same(1,2)] obtain fs r' sh' where
    "truthful fs" "m (told (st_db (s_store t)) (st_audit (s_store t)) fs) = (r', sh')" "st_db sh' = st_db st'"
    "subseq (st_audit st') (st_audit sh')" by blast
  with shadow_reached [OF c sh _ step] same show ?thesis by simp
qed

lemma shadow_read:
  assumes c: "codec_ok c" and sh: "shadowed c s t" and m: "reads m" and run: "m (s_store s) = (r, st')"
    and step: "\<And>st st'. m st = (r, st') \<Longrightarrow>
      service_by c J (t\<lparr>s_store := st\<rparr>) (t\<lparr>s_store := st', s_held := ps @ s_held t, s_charges := pps @ s_charges t\<rparr>)"
  shows "\<exists>t'. shadowed c (s\<lparr>s_store := st', s_held := ps @ s_held s, s_charges := pps @ s_charges s\<rparr>) t' \<and>
    lifecycle_by (verdict_by J) (life_of c (s_store t)) (life_of c (s_store t'))"
proof -
  have same: "st_db (s_store t) = st_db (s_store s)" "subseq (st_audit (s_store s)) (st_audit (s_store t))"
    "s_held t = s_held s" "s_charges t = s_charges s" using sh by (simp_all add: shadowed_def)
  from mimic_read [OF m run same(1,2)] obtain fs sh' where
    "truthful fs" "m (told (st_db (s_store t)) (st_audit (s_store t)) fs) = (r, sh')" "st_db sh' = st_db st'"
    "subseq (st_audit st') (st_audit sh')" by blast
  with shadow_reached [OF c sh _ step] same show ?thesis by simp
qed

lemma shadow_step:
  assumes c: "codec_ok c" and sh: "shadowed c s t" and step: "service_by c J s s'"
  shows "\<exists>t'. shadowed c s' t' \<and> lifecycle_by (verdict_by J) (life_of c (s_store t)) (life_of c (s_store t'))"
proof -
  have same: "st_db (s_store t) = st_db (s_store s)" "subseq (st_audit (s_store s)) (st_audit (s_store t))"
    "s_held t = s_held s" "s_charges t = s_charges s" and gd: "good c (s_store t)"
    using sh by (simp_all add: shadowed_def sys_ok_def)
  note writes = shadow_write [OF c sh, where J = J] and reads = shadow_read [OF c sh, where J = J]
  note plain = reads [where ps = "[]" and pps = "[]", simplified]
  note held = reads [where pps = "[]", simplified]
  from step show ?thesis
  proof cases
    case (Insert clk p r st')
    from mimic_insert [OF gd c Insert(3,5,2) same(1,2)] obtain fs r' sh' where
      "truthful fs" "insert_proposal_op c clk p (told (st_db (s_store t)) (st_audit (s_store t)) fs) = Some (r', sh')"
      "st_db sh' = st_db st'" "subseq (st_audit st') (st_audit sh')" by blast
    with shadow_reached [OF c sh, where t' = "t\<lparr>s_store := sh'\<rparr>" and J = J and s' = s'] same Insert
    show ?thesis using service_by.Insert [of c clk p "t\<lparr>s_store := told (st_db (s_store t)) (st_audit (s_store t)) fs\<rparr>" r' sh' J]
      by simp
  next
    case (Snapshot sts r st')
    show ?thesis unfolding Snapshot(1)
      by (rule held [OF reads_snapshot Snapshot(2)])
        (use service_by.Snapshot [of c sts "t\<lparr>s_store := _\<rparr>" r _ J] in simp)
  next
    case (Attribute auction sids r st')
    show ?thesis unfolding Attribute(1)
      by (rule held [OF reads_attributed Attribute(2)])
        (use service_by.Attribute [of c auction sids "t\<lparr>s_store := _\<rparr>" r _ J] in simp)
  next
    case (Get pid r st')
    show ?thesis unfolding Get(1)
      by (rule plain [OF reads_get Get(2)]) (use service_by.Get [of c pid "t\<lparr>s_store := _\<rparr>" r _ J] in simp)
  next
    case (Auction uids r1 st')
    show ?thesis unfolding Auction(1)
      by (rule plain [OF reads_auction Auction(2)]) (use service_by.Auction [of c uids "t\<lparr>s_store := _\<rparr>" r1 _ J] in simp)
  next
    case (Owned uid owner r1 st')
    show ?thesis unfolding Owned(1)
      by (rule plain [OF reads_owned Owned(2)]) (use service_by.Owned [of c uid owner "t\<lparr>s_store := _\<rparr>" r1 _ J] in simp)
  next
    case (Live owner r1 st')
    show ?thesis unfolding Live(1)
      by (rule plain [OF reads_live Live(2)]) (use service_by.Live [of c owner "t\<lparr>s_store := _\<rparr>" r1 _ J] in simp)
  next
    case (Expire p clk r2 st')
    show ?thesis unfolding Expire(1)
      by (rule writes [OF mimicked_transition Expire(4)])
        (use Expire(2,3) same(3) service_by.Expire [of p "t\<lparr>s_store := _\<rparr>" clk _ _ c J] in simp)
  next
    case (Verdict p v clk r3 st')
    show ?thesis unfolding Verdict(1)
      by (rule writes [OF mimicked_verdict Verdict(4)])
        (use Verdict(2,3) same(3) service_by.Verdict [of p "t\<lparr>s_store := _\<rparr>" J v c clk _ _] in simp)
  next
    case (Cancel clk pid sub_solver r4 st')
    show ?thesis unfolding Cancel(1)
      by (rule writes [OF mimicked_cancel Cancel(2)])
        (use service_by.Cancel [of c clk pid sub_solver "t\<lparr>s_store := _\<rparr>" _ _ J] in simp)
  next
    case (Outcome p clk oc r5 st')
    show ?thesis unfolding Outcome(1)
      by (rule writes [OF mimicked_outcome Outcome(3)])
        (use Outcome(2) same(3) service_by.Outcome [of p "t\<lparr>s_store := _\<rparr>" c clk oc _ _ J] in simp)
  next
    case (Notified p clk kind r2 st')
    show ?thesis unfolding Notified(1)
      by (rule writes [OF mimicked_note Notified(3)])
        (use Notified(2) same(3) service_by.Notified [of p "t\<lparr>s_store := _\<rparr>" clk kind _ _ c J] in simp)
  next
    case (Penalty p clk amount tx r2 st')
    show ?thesis unfolding Penalty(1)
      by (rule writes [OF mimicked_record_penalty Penalty(4)])
        (use Penalty(2,3) same(3) service_by.Penalty [of p "t\<lparr>s_store := _\<rparr>" c clk amount tx _ _ J] in simp)
  next
    case (Pending r6 st')
    show ?thesis unfolding Pending(1)
      by (rule reads [OF reads_pending Pending(2), where ps = "[]", simplified])
        (use service_by.Pending [of c "t\<lparr>s_store := _\<rparr>" r6 _ J] in simp)
  next
    case (Debit pp clk amount tx r2 st')
    show ?thesis unfolding Debit(1)
      by (rule writes [OF mimicked_debit Debit(3)])
        (use Debit(2) same(4) service_by.Debit [of pp "t\<lparr>s_store := _\<rparr>" c clk amount tx _ _ J] in simp)
  next
    case (Release clk older r7 st')
    show ?thesis unfolding Release(1)
      by (rule writes [OF mimicked_release Release(2)])
        (use service_by.Release [of c clk older "t\<lparr>s_store := _\<rparr>" _ _ J] in simp)
  next
    case (Sweep clk older r7 st')
    show ?thesis unfolding Sweep(1)
      by (rule writes [OF mimicked_sweep Sweep(2)])
        (use service_by.Sweep [of clk older "t\<lparr>s_store := _\<rparr>" _ _ c J] in simp)
  next
    case (Bid auction sid pid r2 st')
    show ?thesis unfolding Bid(1)
      by (rule writes [OF mimicked_bid Bid(2)])
        (use service_by.Bid [of auction sid pid "t\<lparr>s_store := _\<rparr>" _ _ c J] in simp)
  qed
qed

lemma shadow_run:
  assumes c: "codec_ok c" and sh: "shadowed c s t" and run: "(service_by c J)\<^sup>*\<^sup>* s s'"
  shows "\<exists>t'. shadowed c s' t' \<and>
    (lifecycle_by (verdict_by J))\<^sup>*\<^sup>* (life_of c (s_store t)) (life_of c (s_store t'))"
  using run
proof (induction rule: rtranclp_induct)
  case base
  then show ?case using sh by blast
next
  case (step s1 s2)
  then obtain t1 where t1: "shadowed c s1 t1"
    "(lifecycle_by (verdict_by J))\<^sup>*\<^sup>* (life_of c (s_store t)) (life_of c (s_store t1))" by blast
  with shadow_step [OF c t1(1) step.hyps(2)] show ?case by (meson rtranclp.rtrancl_into_rtrancl)
qed

text \<open>A run from an empty database over any connection: the tables it leaves are those of a run of the
  lifecycle, whose trail contains the evidence emitted and gives every stored proposal its status.\<close>

definition begins :: "sys \<Rightarrow> bool" where
  "begins s \<longleftrightarrow> st_db (s_store s) = empty_db \<and> st_audit (s_store s) = [] \<and> s_held s = [] \<and> s_charges s = []"

lemma starts_begins: "starts s \<longleftrightarrow> begins s \<and> reliable (s_store s)"
  by (auto simp: starts_def begins_def)

lemma lossy_run:
  assumes c: "codec_ok c" and s: "begins s" and run: "(service_step c)\<^sup>*\<^sup>* s s'"
  shows "\<exists>trail. lifecycle\<^sup>*\<^sup>* (life_of c (s_store s)) ((life_of c (s_store s'))\<lparr>l_trail := trail\<rparr>) \<and>
    subseq (map ae_kind (st_audit (s_store s'))) trail \<and>
    (\<forall>pid q. book c (s_store s') pid = Some q \<longrightarrow> replay pid trail = Some (p_status q))"
proof -
  let ?t = "s\<lparr>s_store := told empty_db [] []\<rparr>"
  have "starts ?t" using s by (simp add: starts_def begins_def reliable_def)
  with s have "shadowed c s ?t" by (simp add: shadowed_def begins_def starts_ok)
  from shadow_run [OF c this run] obtain t' where t': "shadowed c s' t'"
    "(lifecycle_by (verdict_by (\<lambda>_ _. True)))\<^sup>*\<^sup>* (life_of c (s_store ?t)) (life_of c (s_store t'))" by blast
  have "life_of c (s_store ?t) = life_of c (s_store s)" using s by (simp add: begins_def life_of_def book_def)
  moreover have "life_of c (s_store t') = (life_of c (s_store s'))\<lparr>l_trail := map ae_kind (st_audit (s_store t'))\<rparr>"
    using t'(1) by (simp add: shadowed_def life_of_def book_def)
  moreover have "lifecycle\<^sup>*\<^sup>* (life_of c (s_store ?t)) (life_of c (s_store t'))"
    using t'(2) by (rule rtranclp_mono [THEN predicate2D, rotated]) (use lifecycle_any in blast)
  moreover have "replay pid (map ae_kind (st_audit (s_store t'))) = Some (p_status q)"
    if "book c (s_store s') pid = Some q" for pid q
    using life_ok_D(4) [of "life_of c (s_store t')" pid q] t'(1) that by (simp add: shadowed_def sys_ok_def book_def)
  moreover have "subseq (map ae_kind (st_audit (s_store s'))) (map ae_kind (st_audit (s_store t')))"
    using t'(1) by (intro subseq_map) (simp add: shadowed_def)
  ultimately show ?thesis by (intro exI [of _ "map ae_kind (st_audit (s_store t'))"]) simp
qed

end
