(* ===== verification/Program.thy ===== *)
theory Program
  imports Listeners Process Lost_Replies
begin

text \<open>
  The program as it runs: every request either listener serves and every pass of the background loops,
  in any order, over the one store. Each is shown to be a run of the transition system of \<open>Service\<close> -
  whose steps are single operations of the store, so that interleavings inside a handler are runs of it
  as well - and the program so inherits what holds in all of its runs.
\<close>

subsection \<open>Operations in sequence\<close>

text \<open>From \<open>st\<close> to \<open>st'\<close> by steps of the service, for a caller that holds the snapshots \<open>ps\<close> and the
  charges \<open>pps\<close>.\<close>

definition operates ::
  "codec \<Rightarrow> (proposal \<Rightarrow> verdict \<Rightarrow> bool) \<Rightarrow> proposal list \<Rightarrow> pending_penalty list \<Rightarrow> store \<Rightarrow> store \<Rightarrow> bool" where
  "operates c J ps pps st st' \<longleftrightarrow> (\<forall>held charges. set ps \<subseteq> set held \<longrightarrow> set pps \<subseteq> set charges \<longrightarrow>
     (\<exists>held' charges'. set held \<subseteq> set held' \<and> set charges \<subseteq> set charges' \<and>
        (service_by c J)\<^sup>*\<^sup>* \<lparr>s_store = st, s_held = held, s_charges = charges\<rparr>
          \<lparr>s_store = st', s_held = held', s_charges = charges'\<rparr>))"

lemma operates_refl [simp]: "operates c J ps pps st st"
  unfolding operates_def by blast

lemma operates_step:
  assumes "\<And>held charges. set ps \<subseteq> set held \<Longrightarrow> set pps \<subseteq> set charges \<Longrightarrow>
    service_by c J \<lparr>s_store = st, s_held = held, s_charges = charges\<rparr> \<lparr>s_store = st', s_held = held, s_charges = charges\<rparr>"
  shows "operates c J ps pps st st'"
  unfolding operates_def using assms by blast

lemma operates_trans:
  assumes "operates c J ps pps st st1" and "operates c J ps pps st1 st'"
  shows "operates c J ps pps st st'"
  unfolding operates_def
proof (intro allI impI)
  fix held charges assume h: "set ps \<subseteq> set held" "set pps \<subseteq> set charges"
  with assms(1) obtain held1 charges1 where 1: "set held \<subseteq> set held1" "set charges \<subseteq> set charges1"
    "(service_by c J)\<^sup>*\<^sup>* \<lparr>s_store = st, s_held = held, s_charges = charges\<rparr> \<lparr>s_store = st1, s_held = held1, s_charges = charges1\<rparr>"
    unfolding operates_def by blast
  with h have "set ps \<subseteq> set held1" "set pps \<subseteq> set charges1" by auto
  with assms(2) obtain held2 charges2 where 2: "set held1 \<subseteq> set held2" "set charges1 \<subseteq> set charges2"
    "(service_by c J)\<^sup>*\<^sup>* \<lparr>s_store = st1, s_held = held1, s_charges = charges1\<rparr> \<lparr>s_store = st', s_held = held2, s_charges = charges2\<rparr>"
    unfolding operates_def by blast
  from 1(3) 2(3) have "(service_by c J)\<^sup>*\<^sup>* \<lparr>s_store = st, s_held = held, s_charges = charges\<rparr>
      \<lparr>s_store = st', s_held = held2, s_charges = charges2\<rparr>" by (rule rtranclp_trans)
  with 1 2 show "\<exists>held' charges'. set held \<subseteq> set held' \<and> set charges \<subseteq> set charges' \<and>
      (service_by c J)\<^sup>*\<^sup>* \<lparr>s_store = st, s_held = held, s_charges = charges\<rparr> \<lparr>s_store = st', s_held = held', s_charges = charges'\<rparr>"
    by (meson subset_trans)
qed

lemma operates_more: "operates c J ps pps st st' \<Longrightarrow> set ps \<subseteq> set ps' \<Longrightarrow> set pps \<subseteq> set pps' \<Longrightarrow> operates c J ps' pps' st st'"
  unfolding operates_def by (meson subset_trans)

text \<open>What a read returned is held afterwards.\<close>

lemma operates_read:
  assumes "\<And>held charges. service_by c J \<lparr>s_store = st, s_held = held, s_charges = charges\<rparr>
      \<lparr>s_store = st1, s_held = qs @ held, s_charges = qqs @ charges\<rparr>"
    and "operates c J (qs @ ps) (qqs @ pps) st1 st'"
  shows "operates c J ps pps st st'"
  unfolding operates_def
proof (intro allI impI)
  fix held charges assume "set ps \<subseteq> set held" "set pps \<subseteq> set charges"
  then have "set (qs @ ps) \<subseteq> set (qs @ held)" "set (qqs @ pps) \<subseteq> set (qqs @ charges)" by auto
  with assms(2) obtain held' charges' where r: "set (qs @ held) \<subseteq> set held'" "set (qqs @ charges) \<subseteq> set charges'"
    "(service_by c J)\<^sup>*\<^sup>* \<lparr>s_store = st1, s_held = qs @ held, s_charges = qqs @ charges\<rparr> \<lparr>s_store = st', s_held = held', s_charges = charges'\<rparr>"
    unfolding operates_def by blast
  from converse_rtranclp_into_rtranclp [OF assms(1) this(3)] r
  show "\<exists>held' charges'. set held \<subseteq> set held' \<and> set charges \<subseteq> set charges' \<and>
      (service_by c J)\<^sup>*\<^sup>* \<lparr>s_store = st, s_held = held, s_charges = charges\<rparr> \<lparr>s_store = st', s_held = held', s_charges = charges'\<rparr>"
    by auto
qed

lemma operates_fold:
  assumes "\<And>x s. x \<in> set xs \<Longrightarrow> operates c J ps pps (g s) (g (f x s))"
  shows "operates c J ps pps (g s) (g (fold f xs s))"
  using assms
proof (induction xs arbitrary: s)
  case (Cons x xs)
  have "operates c J ps pps (g s) (g (f x s))" by (rule Cons.prems) simp
  moreover have "operates c J ps pps (g (f x s)) (g (fold f xs (f x s)))" by (rule Cons.IH) (use Cons.prems in simp)
  ultimately show ?case using operates_trans by simp
qed simp

subsection \<open>The public handlers\<close>

text \<open>A step that needs no snapshot.\<close>

lemma operates_once:
  assumes "\<And>held charges. service_by c J \<lparr>s_store = st, s_held = held, s_charges = charges\<rparr>
      (\<lparr>s_store = st, s_held = held, s_charges = charges\<rparr>\<lparr>s_store := st'\<rparr>)"
  shows "operates c J ps pps st st'"
  by (rule operates_step) (use assms in simp)

lemma served_operates:
  assumes "\<And>r st1. m st = (r, st1) \<Longrightarrow> operates c J ps pps st st1" and "served f m g st = (r, st')"
  shows "operates c J ps pps st st'"
  using assms by (cases "m st") (auto simp: served_def split: sum.splits)

lemma authenticated_operates:
  assumes "\<And>a r st1. h a st = (r, st1) \<Longrightarrow> operates c J ps pps st st1" and "authenticated x h st = (r, st')"
  shows "operates c J ps pps st st'"
  using assms by (cases x) (auto simp: authenticated_def)

lemma create_operates:
  assumes "create_proposal c k app clk body st = Some (r, st')"
  shows "operates c J ps pps st st'"
proof (cases "st' = st")
  case False
  then obtain p y where p: "submitted c k (app_domain app) body = Inr p" and y: "insert_proposal_op c clk p st = Some (y, st')"
    using assms by (auto simp: create_proposal_def split: sum.splits option.splits prod.splits)
  then have "uid_ok (p_order_uid p)" "p_status p = Submitted" "p_gas_used p = None"
    by (auto simp: submitted_Inr_iff signed_fields_def fresh_fields_def intro: from_hex_uid_ok)
  with y show ?thesis by (intro operates_once service_by.Insert) simp_all
qed simp

lemma get_operates: "get_endpoint c k app pid h st = (r, st') \<Longrightarrow> operates c J ps pps st st'"
  unfolding get_endpoint_def
  by (erule authenticated_operates [rotated], erule served_operates [rotated]) (rule operates_once, rule service_by.Get, simp)

lemma list_operates: "list_proposals c k app hex h st = (r, st') \<Longrightarrow> operates c J ps pps st st'"
  unfolding list_proposals_def
  by (erule authenticated_operates [rotated], erule authenticated_operates [rotated], erule served_operates [rotated])
    (rule operates_once, rule service_by.Owned, simp)

lemma own_list_operates: "list_proposals_by_sub_solver c k app h st = (r, st') \<Longrightarrow> operates c J ps pps st st'"
  unfolding list_proposals_by_sub_solver_def
  by (erule authenticated_operates [rotated], erule served_operates [rotated]) (rule operates_once, rule service_by.Live, simp)

lemma cancel_operates: "cancel_proposal c k app clk pid h st = (r, st') \<Longrightarrow> operates c J ps pps st st'"
  unfolding cancel_proposal_def
  by (erule authenticated_operates [rotated], erule served_operates [rotated]) (rule operates_once, rule service_by.Cancel, simp)

subsection \<open>The driver's handlers\<close>

lemma solve_orders_operates:
  "solve_orders e a now by_order ords sols st = Some (sols', st') \<Longrightarrow> operates c J ps pps st st'"
proof (induction ords arbitrary: sols st)
  case (Cons ord ords)
  have bid: "operates c J ps pps st st1" if "record_solution auction_id sid pid st = (r, st1)" for auction_id sid pid r st1
    using that by (intro operates_once service_by.Bid) simp
  from Cons.prems show ?case
    by (auto split: option.splits prod.splits sum.splits if_splits simp: Let_def intro: Cons.IH operates_trans [OF bid Cons.IH])
qed simp

lemma solve_operates:
  assumes "solve c e clk a gas_price st = Some (sols, gas_price', st')"
  shows "operates c J ps pps st st'"
proof -
  obtain r st1 where r: "active_by_order_uids c (map ao_uid (au_orders a)) st = (r, st1)"
    by (cases "active_by_order_uids c (map ao_uid (au_orders a)) st")
  then have "operates c J ps pps st st1" by (intro operates_once service_by.Auction) simp
  moreover have "operates c J ps pps st1 st'"
    using assms r solve_orders_operates by (auto simp: solve_def Let_def split: option.splits sum.splits)
  ultimately show ?thesis by (rule operates_trans)
qed

lemma note_operates:
  "p \<in> set ps \<Longrightarrow> operates c J ps pps st (snd (note_driver_notification clk p k st))"
  by (rule operates_step)
    (auto intro!: service_by.Notified [where s = "\<lparr>s_store = st, s_held = _, s_charges = _\<rparr>", simplified] simp: prod_eq_iff)

lemma outcome_operates:
  assumes "p \<in> set ps" and "apply_settlement_outcome c clk p oc st = (r, st')"
  shows "operates c J ps pps st st'"
proof (rule operates_step)
  fix held :: "proposal list" and charges :: "pending_penalty list"
  assume "set ps \<subseteq> set held"
  with assms service_by.Outcome [of p "\<lparr>s_store = st, s_held = held, s_charges = charges\<rparr>" c clk oc r st']
  show "service_by c J \<lparr>s_store = st, s_held = held, s_charges = charges\<rparr> \<lparr>s_store = st', s_held = held, s_charges = charges\<rparr>"
    by auto
qed

lemma note_all_operates: "set qs \<subseteq> set ps \<Longrightarrow> operates c J ps pps st (note_all clk k qs st)"
proof (induction qs arbitrary: st)
  case (Cons p qs)
  have "operates c J ps pps st (snd (note_driver_notification clk p k st))" by (rule note_operates) (use Cons.prems in simp)
  moreover note Cons.IH
  ultimately show ?case using Cons.prems operates_trans by auto
qed simp

lemma apply_outcomes_operates: "set qs \<subseteq> set ps \<Longrightarrow> operates c J ps pps st (apply_outcomes c clk k oc qs st)"
proof (induction qs arbitrary: st)
  case (Cons p qs)
  have p: "p \<in> set ps" "set qs \<subseteq> set ps" using Cons.prems by simp_all
  obtain r st1 where r: "apply_settlement_outcome c clk p oc st = (r, st1)" by (cases "apply_settlement_outcome c clk p oc st")
  note first = operates_trans [OF outcome_operates [OF p(1) r]]
  show ?case
  proof (cases r)
    case (Inl e)
    with r first [OF Cons.IH [OF p(2)]] show ?thesis by simp
  next
    case (Inr eff)
    with r first [OF Cons.IH [OF p(2)]] first [OF operates_trans [OF note_operates [OF p(1)] Cons.IH [OF p(2)]]]
    show ?thesis by (cases eff) auto
  qed
qed simp

lemma attributed_operates:
  assumes "attributed_proposals c n st = (qs, st1)" and "operates c J (qs @ ps) pps st1 st'"
  shows "operates c J ps pps st st'"
proof (cases "Option.bind (nt_auction_id n) parse_i64")
  case None
  then have "qs = [] \<and> st1 = st" using assms(1) by (simp add: attributed_proposals_def)
  with assms(2) show ?thesis by simp
next
  case (Some a)
  show ?thesis
  proof (cases "nt_solution_id n")
    case None
    then have "qs = [] \<and> st1 = st" using assms(1) Some by (simp add: attributed_proposals_def)
    with assms(2) show ?thesis by simp
  next
    case ids: (Some ids)
    obtain r st2 where r: "solution_proposals c a (ids_of ids) st = (r, st2)" by (cases "solution_proposals c a (ids_of ids) st")
    have qs: "qs = rows_read r" "st1 = st2" using assms(1) Some ids r
      by (auto simp: attributed_proposals_def split: sum.splits)
    show ?thesis
    proof (rule operates_read [where qs = qs and qqs = "[]" and ?st1.0 = st1])
      fix held charges
      from service_by.Attribute [of c a "ids_of ids" "\<lparr>s_store = st, s_held = held, s_charges = charges\<rparr>" r st2] r
      show "service_by c J \<lparr>s_store = st, s_held = held, s_charges = charges\<rparr> \<lparr>s_store = st1, s_held = qs @ held, s_charges = [] @ charges\<rparr>"
        by (simp add: qs)
    qed (use assms(2) in simp)
  qed
qed

lemma notify_operates:
  assumes "notify c clk n st = (code, st')"
  shows "operates c J ps pps st st'"
proof -
  obtain qs st1 where a: "attributed_proposals c n st = (qs, st1)" by (cases "attributed_proposals c n st")
  have "operates c J (qs @ ps) pps st1 st'"
    using assms a note_all_operates [of qs "qs @ ps"] apply_outcomes_operates [of qs "qs @ ps"]
    by (auto simp: notify_def split: if_splits option.splits)
  with a show ?thesis by (rule attributed_operates)
qed

subsection \<open>The background loops\<close>

lemma snapshot_read:
  assumes "snapshot_by_statuses c sts st = (r, st1)" and "operates c J (rows_read r @ ps) pps st1 st'"
  shows "operates c J ps pps st st'"
proof (rule operates_read [where qs = "rows_read r" and qqs = "[]" and ?st1.0 = st1])
  fix held charges
  from service_by.Snapshot [of c sts "\<lparr>s_store = st, s_held = held, s_charges = charges\<rparr>" r st1] assms(1)
  show "service_by c J \<lparr>s_store = st, s_held = held, s_charges = charges\<rparr> \<lparr>s_store = st1, s_held = rows_read r @ held, s_charges = [] @ charges\<rparr>"
    by simp
qed (use assms(2) in simp)

lemma snapshot_statuses:
  assumes "snapshot_by_statuses c sts st = (r, st1)" and "p \<in> set (rows_read r)"
  shows "p_status p \<in> set sts"
proof -
  have "p_status p \<in> set sts" if "r_status x \<in> set (status_names sts)" "readable c x = Some p" for x
    using that by (auto simp: readable_def proposal_of_row_def and_then_Inr_iff parse_column_def ok_or_Inr_iff status_names_def
        split: sum.splits)
  then show ?thesis using assms
    by (auto simp: snapshot_by_statuses_def query_def act_def stmt_def Let_def done_with_def lift_def decode_rows_def
        map_filter_def select_rows_def split: option.splits fault.splits)
qed

lemma transition_operates:
  assumes "p \<in> set ps" and "p_status p \<in> {Submitted, Active}" and "transition clk p Expired st = (r, st')"
  shows "operates c J ps pps st st'"
proof (rule operates_step)
  fix held :: "proposal list" and charges :: "pending_penalty list"
  assume "set ps \<subseteq> set held"
  with assms service_by.Expire [of p "\<lparr>s_store = st, s_held = held, s_charges = charges\<rparr>" clk r st' c]
  show "service_by c J \<lparr>s_store = st, s_held = held, s_charges = charges\<rparr> \<lparr>s_store = st', s_held = held, s_charges = charges\<rparr>"
    by auto
qed

lemma expire_all_operates:
  assumes "set qs \<subseteq> set ps" and "\<forall>p\<in>set qs. p_status p \<in> {Submitted, Active}"
    and "expire_all clk now qs st = (keep, st')"
  shows "operates c J ps pps st st'"
  using assms
proof (induction qs arbitrary: st keep)
  case (Cons p qs)
  show ?case
  proof (cases "p_valid_until p < now")
    case True
    obtain r st1 where t: "transition clk p Expired st = (r, st1)" by (cases "transition clk p Expired st")
    have "operates c J ps pps st st1" by (rule transition_operates [OF _ _ t]) (use Cons.prems in simp_all)
    moreover have "operates c J ps pps st1 st'" by (rule Cons.IH) (use Cons.prems True t in simp_all)
    ultimately show ?thesis by (rule operates_trans)
  next
    case False
    with Cons.prems obtain keep' where "expire_all clk now qs st = (keep', st')" by (auto split: prod.splits)
    with Cons.IH Cons.prems show ?thesis by simp
  qed
qed simp

text \<open>A validator that keeps \<open>ok\<close> and whose verdicts are in \<open>J\<close>.\<close>

lemma judge_all_operates:
  assumes valid: "\<And>p s v s'. ok s \<Longrightarrow> validate p s = (v, s') \<Longrightarrow> ok s' \<and> (\<forall>v'. v = Some v' \<longrightarrow> J p v')"
    and "set qs \<subseteq> set ps" and "ok s" and "judge_all validate c clk qs s st = (s', st')"
  shows "operates c J ps pps st st' \<and> ok s'"
  using assms(2-4)
proof (induction qs arbitrary: s st)
  case (Cons p qs)
  have qs: "set qs \<subseteq> set ps" "p \<in> set ps" using Cons.prems(1) by simp_all
  obtain v s1 where v: "validate p s = (v, s1)" by (cases "validate p s")
  show ?case
  proof (cases v)
    case None
    with v valid [OF Cons.prems(2) v] Cons.IH [OF qs(1)] Cons.prems(3) show ?thesis by simp
  next
    case (Some v')
    note ok = valid [OF Cons.prems(2) v]
    obtain r st1 where r: "resolve_verdict c clk (p_id p) v' st = (r, st1)" by (cases "resolve_verdict c clk (p_id p) v' st")
    have "operates c J ps pps st st1"
    proof (rule operates_step)
      fix held charges assume "set ps \<subseteq> set held"
      with qs(2) ok Some r service_by.Verdict [of p "\<lparr>s_store = st, s_held = held, s_charges = charges\<rparr>" J v' c clk r st1]
      show "service_by c J \<lparr>s_store = st, s_held = held, s_charges = charges\<rparr> \<lparr>s_store = st1, s_held = held, s_charges = charges\<rparr>"
        by auto
    qed
    moreover have "operates c J ps pps st1 st' \<and> ok s'" by (rule Cons.IH [OF qs(1)]) (use ok Cons.prems(3) v Some r in simp_all)
    ultimately show ?thesis using operates_trans by blast
  qed
qed simp

lemma expire_all_subset: "expire_all clk now qs st = (keep, st') \<Longrightarrow> set keep \<subseteq> set qs"
proof (induction qs arbitrary: keep st)
  case (Cons p qs)
  show ?case
  proof (cases "p_valid_until p < now")
    case True
    obtain r st1 where "transition clk p Expired st = (r, st1)" by (cases "transition clk p Expired st")
    with True Cons.prems Cons.IH [of st1 keep] show ?thesis by auto
  next
    case False
    with Cons.prems obtain keep' where "expire_all clk now qs st = (keep', st')" "keep = p # keep'" by (auto split: prod.splits)
    with Cons.IH show ?thesis by auto
  qed
qed simp

lemma run_tick_operates:
  assumes valid: "\<And>p s v s'. ok s \<Longrightarrow> validate p s = (v, s') \<Longrightarrow> ok s' \<and> (\<forall>v'. v = Some v' \<longrightarrow> J p v')"
    and start: "ok (begin_tick s)" and perm: "\<And>ps. mset (schedule ps) = mset ps"
    and run: "run_tick validate begin_tick schedule c clk now timeout s st = (s', st')"
  shows "operates c J ps pps st st' \<and> ok s'"
proof -
  obtain r1 st1 where r1: "release_stale_executing c clk timeout st = (r1, st1)" by (cases "release_stale_executing c clk timeout st")
  have o1: "operates c J ps pps st st1" using r1 by (intro operates_once service_by.Release) simp
  obtain r2 st2 where r2: "snapshot_by_statuses c [Submitted, Active] st1 = (r2, st2)"
    by (cases "snapshot_by_statuses c [Submitted, Active] st1")
  have "operates c J (rows_read r2 @ ps) pps st2 st' \<and> ok s'"
  proof (cases r2)
    case (Inl e)
    with run r1 r2 start show ?thesis by (auto simp: run_tick_def Let_def)
  next
    case (Inr live)
    obtain keep st3 where k: "expire_all clk (u256_of now) live st2 = (keep, st3)" by (cases "expire_all clk (u256_of now) live st2")
    have "operates c J (rows_read r2 @ ps) pps st2 st3"
      by (rule expire_all_operates [OF _ _ k]) (use Inr snapshot_statuses [OF r2] in auto)
    moreover have "operates c J (rows_read r2 @ ps) pps st3 st' \<and> ok s'"
    proof (rule judge_all_operates [where ok = ok, OF valid _ start])
      show "set (schedule keep) \<subseteq> set (rows_read r2 @ ps)"
        using expire_all_subset [OF k] Inr mset_eq_setD [OF perm] by auto
      show "judge_all validate c clk (schedule keep) (begin_tick s) st3 = (s', st')"
        using run r1 r2 Inr k by (simp add: run_tick_def Let_def)
    qed
    ultimately show ?thesis using operates_trans by blast
  qed
  then show ?thesis using operates_trans [OF o1 snapshot_read [OF r2]] by blast
qed

abbreviation left_store :: "'a \<times> 'e \<times> store \<Rightarrow> store" where
  "left_store x \<equiv> snd (snd x)"

lemma revert_one_operates:
  assumes "p \<in> set ps" and "p_status p = SettleFailed"
  shows "operates c J ps pps (left_store x) (left_store (revert_one cost debit c clk c_l p x))"
proof -
  obtain att e st where x: "x = (att, e, st)" by (cases x)
  have paid: "operates c J ps pps st st'" if "record_penalty c clk p amount tx st = (r, st')" for amount tx r st'
  proof (rule operates_step)
    fix held :: "proposal list" and charges :: "pending_penalty list"
    assume "set ps \<subseteq> set held"
    with assms that service_by.Penalty [of p "\<lparr>s_store = st, s_held = held, s_charges = charges\<rparr>" c clk amount tx r st']
    show "service_by c J \<lparr>s_store = st, s_held = held, s_charges = charges\<rparr> \<lparr>s_store = st', s_held = held, s_charges = charges\<rparr>"
      by auto
  qed
  have "left_store (revert_one cost debit c clk c_l p x) = st \<or>
      (\<exists>amount tx. left_store (revert_one cost debit c clk c_l p x) = snd (record_penalty c clk p amount tx st))"
    by (simp add: x revert_one_def Let_def split: option.split sum.split prod.split) (metis snd_conv)
  then show ?thesis using paid by (auto simp: x) (metis prod.collapse)
qed

lemma charge_operates:
  assumes "pp \<in> set pps"
  shows "operates c J ps pps (left_store x) (left_store (non_settlement_one debit keccak c clk c_l pp x))"
proof -
  obtain att e st where x: "x = (att, e, st)" by (cases x)
  have paid: "operates c J ps pps st st'" if "record_non_settlement_debit c clk pp amount tx st = (r, st')" for amount tx r st'
  proof (rule operates_step)
    fix held :: "proposal list" and charges :: "pending_penalty list"
    assume "set pps \<subseteq> set charges"
    with assms that service_by.Debit [of pp "\<lparr>s_store = st, s_held = held, s_charges = charges\<rparr>" c clk amount tx r st']
    show "service_by c J \<lparr>s_store = st, s_held = held, s_charges = charges\<rparr> \<lparr>s_store = st', s_held = held, s_charges = charges\<rparr>"
      by auto
  qed
  have "left_store (non_settlement_one debit keccak c clk c_l pp x) = st \<or>
      (\<exists>amount tx. left_store (non_settlement_one debit keccak c clk c_l pp x) = snd (record_non_settlement_debit c clk pp amount tx st))"
    by (simp add: x non_settlement_one_def Let_def split: sum.split prod.split) (metis snd_conv)
  then show ?thesis using paid by (auto simp: x) (metis prod.collapse)
qed

lemma revert_debits_operates:
  assumes run: "revert_debits cost debit c clk c_l (att, e, st) = (att', e', st')"
  shows "operates c J ps pps st st'"
proof -
  obtain r st1 where r: "snapshot_by_statuses c [SettleFailed] st = (r, st1)" by (cases "snapshot_by_statuses c [SettleFailed] st")
  have "operates c J (rows_read r @ ps) pps st1 st'"
  proof (cases r)
    case (Inl err)
    with run r show ?thesis by (simp add: revert_debits_def)
  next
    case (Inr qs)
    have "operates c J (rows_read r @ ps) pps (left_store (att, e, st1))
        (left_store (fold (revert_one cost debit c clk c_l) qs (att, e, st1)))"
      by (rule operates_fold, rule revert_one_operates) (use Inr snapshot_statuses [OF r] in auto)
    with run r Inr show ?thesis by (simp add: revert_debits_def)
  qed
  with r show ?thesis by (rule snapshot_read)
qed

lemma charges_operate:
  assumes run: "non_settlement_debits debit keccak c clk c_l (att, e, st) = (att', e', st')"
  shows "operates c J ps pps st st'"
proof -
  obtain r st1 where r: "pending_penalties c st = (r, st1)" by (cases "pending_penalties c st")
  have "operates c J ps (rows_read r @ pps) st1 st'"
  proof (cases r)
    case (Inl err)
    with run r show ?thesis by (simp add: non_settlement_debits_def)
  next
    case (Inr qs)
    have "operates c J ps (rows_read r @ pps) (left_store (att, e, st1))
        (left_store (fold (non_settlement_one debit keccak c clk c_l) qs (att, e, st1)))"
      by (rule operates_fold, rule charge_operates) (use Inr in simp)
    with run r Inr show ?thesis by (simp add: non_settlement_debits_def)
  qed
  then have rest: "operates c J ([] @ ps) (rows_read r @ pps) st1 st'" by simp
  have "service_by c J \<lparr>s_store = st, s_held = held, s_charges = charges\<rparr>
      \<lparr>s_store = st1, s_held = [] @ held, s_charges = rows_read r @ charges\<rparr>" for held charges
    using service_by.Pending [of c "\<lparr>s_store = st, s_held = held, s_charges = charges\<rparr>" r st1] r by simp
  then show ?thesis by (rule operates_read [OF _ rest])
qed

text \<open>What a sequence of operations keeps.\<close>

lemma operates_runs:
  assumes "operates c J [] [] st st'"
  shows "\<exists>held charges. (service_by c J)\<^sup>*\<^sup>* \<lparr>s_store = st, s_held = [], s_charges = []\<rparr> \<lparr>s_store = st', s_held = held, s_charges = charges\<rparr>"
proof -
  note a = assms [unfolded operates_def, THEN spec [where x = "[]"], THEN spec [where x = "[]"]]
  obtain held charges where "(service_by c J)\<^sup>*\<^sup>* \<lparr>s_store = st, s_held = [], s_charges = []\<rparr> \<lparr>s_store = st', s_held = held, s_charges = charges\<rparr>"
    using a [THEN mp, THEN mp, OF subset_refl subset_refl] by (elim exE conjE)
  then show ?thesis by (intro exI)
qed

lemma service_runs_any: "(service_by c J)\<^sup>*\<^sup>* x y \<Longrightarrow> (service_step c)\<^sup>*\<^sup>* x y"
  by (erule rtranclp_mono [THEN predicate2D, rotated]) (use service_any in blast)

lemma operates_good:
  assumes "operates c J [] [] st st'" and "codec_ok c" and "sys_ok c \<lparr>s_store = st, s_held = [], s_charges = []\<rparr>"
  shows "good c st' \<and> sys_ok c \<lparr>s_store = st', s_held = [], s_charges = []\<rparr>"
proof -
  obtain held charges where "(service_by c J)\<^sup>*\<^sup>* \<lparr>s_store = st, s_held = [], s_charges = []\<rparr> \<lparr>s_store = st', s_held = held, s_charges = charges\<rparr>"
    using operates_runs [OF assms(1)] by (elim exE)
  from runs_life [OF service_runs_any [OF this] assms(2,3)] show ?thesis by (simp add: sys_ok_def)
qed

lemma penalty_tick_operates:
  assumes run: "penalty_tick cost debit keccak c clk c_l (att, e, st) = (att', e', st')"
  shows "operates c J ps pps st st'"
proof -
  obtain rs e1 st1 where r: "revert_debits cost debit c clk c_l (da_revert att, e, st) = (rs, e1, st1)"
    by (cases "revert_debits cost debit c clk c_l (da_revert att, e, st)")
  from revert_debits_operates [OF r] have "operates c J ps pps st st1" .
  moreover have "operates c J ps pps st1 st'"
    using run r by (auto simp: penalty_tick_def split: prod.splits intro: charges_operate)
  ultimately show ?thesis by (rule operates_trans)
qed

subsection \<open>The program\<close>

text \<open>What runs beside the listeners: the validator with its caches, the escrow's edge with the attempts
  of the penalty loop, and the settings of the loops. \<open>bg_boots\<close>: the validators a process may start with.\<close>

record ('v, 'e) background =
  bg_validate :: "proposal \<Rightarrow> 'v \<Rightarrow> verdict option \<times> 'v"
  bg_begin_tick :: "'v \<Rightarrow> 'v"
  bg_boots :: "'v \<Rightarrow> bool"
  bg_gas_price :: u64
  bg_schedule :: "proposal list \<Rightarrow> proposal list"
  bg_executing_timeout :: time
  bg_cost :: "b256 \<Rightarrow> 'e \<Rightarrow> (debit_error + u256) \<times> 'e"
  bg_debit :: "address \<Rightarrow> u256 \<Rightarrow> b256 \<Rightarrow> 'e \<Rightarrow> (debit_error + b256) \<times> 'e"
  bg_keccak :: "bytes \<Rightarrow> b256"
  bg_collateral :: u256
  bg_retention :: time
  bg_token :: "string option"

record ('v, 'e) program =
  pg_shared :: shared
  pg_validator :: 'v
  pg_attempts :: debit_attempts
  pg_edge :: 'e

text \<open>A restart loses what the process kept in memory - the validator's caches, the gas price of the last
  auction, the attempts of the penalty loop - and finds the tables and the chain as they were. What
  teardown aborts is a pass whose remaining calls fail.\<close>

inductive program_step :: "deployment \<Rightarrow> ('v, 'e) background \<Rightarrow> ('v, 'e) program \<Rightarrow> ('v, 'e) program \<Rightarrow> bool"
  for dp :: deployment and bg :: "('v, 'e) background" where
  Public: "serve_request dp public_router clk req (pg_shared s) = Some (resp, sh') \<Longrightarrow>
    program_step dp bg s (s\<lparr>pg_shared := sh'\<rparr>)"
| Internal: "serve_request dp (internal_router (bg_token bg)) clk req (pg_shared s) = Some (resp, sh') \<Longrightarrow>
    program_step dp bg s (s\<lparr>pg_shared := sh'\<rparr>)"
| Validation: "unix_secs (wall_now clk) = Some now \<Longrightarrow>
    run_tick (bg_validate bg) (bg_begin_tick bg) (bg_schedule bg) (dp_codec dp) clk now (bg_executing_timeout bg)
      (pg_validator s) (sh_store (pg_shared s)) = (v', st') \<Longrightarrow>
    program_step dp bg s (s\<lparr>pg_validator := v', pg_shared := (pg_shared s)\<lparr>sh_store := st'\<rparr>\<rparr>)"
| Penalties: "penalty_tick (bg_cost bg) (bg_debit bg) (bg_keccak bg) (dp_codec dp) clk (bg_collateral bg)
      (pg_attempts s, pg_edge s, sh_store (pg_shared s)) = (att', e', st') \<Longrightarrow>
    program_step dp bg s (s\<lparr>pg_attempts := att', pg_edge := e', pg_shared := (pg_shared s)\<lparr>sh_store := st'\<rparr>\<rparr>)"
| Retention: "sweep_dropped clk (bg_retention bg) (sh_store (pg_shared s)) = (r, st') \<Longrightarrow>
    program_step dp bg s (s\<lparr>pg_shared := (pg_shared s)\<lparr>sh_store := st'\<rparr>\<rparr>)"
| Restart: "bg_boots bg v \<Longrightarrow>
    program_step dp bg s (s\<lparr>pg_validator := v, pg_attempts := no_attempts,
      pg_shared := (pg_shared s)\<lparr>sh_gas_price := bg_gas_price bg\<rparr>\<rparr>)"

abbreviation program_store :: "('v, 'e) program \<Rightarrow> store" where
  "program_store s \<equiv> sh_store (pg_shared s)"

lemma endpoint_operates:
  assumes "run_endpoint dp clk req caps sh ep = Some (x, sh')"
  shows "operates (dp_codec dp) J ps pps (sh_store sh) (sh_store sh')"
proof (cases ep)
  case CreateProposal
  then show ?thesis using assms create_operates by (auto simp: extracted_def split: sum.splits)
next
  case GetProposal
  then show ?thesis using assms get_operates by (auto simp: extracted_def over_store_def split: sum.splits prod.splits)
next
  case CancelProposal
  then show ?thesis using assms cancel_operates by (auto simp: extracted_def over_store_def split: sum.splits prod.splits)
next
  case ListProposals
  then show ?thesis using assms list_operates by (auto simp: over_store_def split: prod.splits)
next
  case ListBySubSolver
  then show ?thesis using assms own_list_operates by (auto simp: over_store_def split: prod.splits)
next
  case SolveAuction
  then show ?thesis using assms solve_operates by (auto simp: extracted_def split: sum.splits)
next
  case NotifyOutcome
  then show ?thesis using assms notify_operates by (auto simp: extracted_def split: sum.splits prod.splits)
qed (use assms in simp)

lemma request_operates:
  assumes "serve_request dp router clk req sh = Some (resp, sh')"
  shows "operates (dp_codec dp) J ps pps (sh_store sh) (sh_store sh')"
proof -
  have "sh' = sh \<or> (\<exists>caps ep x. run_endpoint dp clk req caps sh ep = Some (x, sh'))"
    using assms by (auto simp: serve_request_def internal_gate_def split: dispatched.splits option.splits if_splits)
  with endpoint_operates show ?thesis by auto
qed

text \<open>The background's validator keeps the contract \<open>tick_validator\<close> from tick to tick and from every start,
  its verdicts in \<open>J\<close>, and a tick validates each of its proposals once, in any order.\<close>

definition validated_by :: "('v, 'e) background \<Rightarrow> ('v \<Rightarrow> bool) \<Rightarrow> (proposal \<Rightarrow> verdict \<Rightarrow> bool) \<Rightarrow> bool" where
  "validated_by bg ok J \<longleftrightarrow> (\<forall>ps. mset (bg_schedule bg ps) = mset ps) \<and> (\<forall>v. bg_boots bg v \<longrightarrow> ok v) \<and>
     tick_validator (bg_validate bg) (bg_begin_tick bg) ok ok J"

lemma any_validated: "\<forall>ps. mset (bg_schedule bg ps) = mset ps \<Longrightarrow> validated_by bg (\<lambda>_. True) (\<lambda>_ _. True)"
  using unconstrained.tick_validator_axioms by (simp add: validated_by_def)

lemma program_operates:
  assumes "program_step dp bg s s'" and v: "validated_by bg ok J" and ok: "ok (pg_validator s)"
  shows "operates (dp_codec dp) J ps pps (program_store s) (program_store s') \<and> ok (pg_validator s')"
  using assms(1)
proof cases
  case (Validation clk now v' st')
  note tv = v [unfolded validated_by_def, THEN conjunct2, THEN conjunct2]
  have valid: "ok x' \<and> (\<forall>y'. y = Some y' \<longrightarrow> J p y')" if "ok x" "bg_validate bg p x = (y, x')" for p x y x'
    using that tick_validator.validate_ok [OF tv] tick_validator.validate_just [OF tv] by blast
  have "operates (dp_codec dp) J ps pps (program_store s) st' \<and> ok v'"
    by (rule run_tick_operates [OF _ _ _ Validation(3)])
      (use valid tick_validator.begin_ok [OF tv ok] v in \<open>auto simp: validated_by_def\<close>)
  with Validation(1) show ?thesis by simp
next
  case Penalties
  with penalty_tick_operates [OF Penalties(2)] ok show ?thesis by simp
next
  case Retention
  with ok show ?thesis by (auto intro!: operates_once service_by.Sweep)
next
  case Restart
  with v show ?thesis by (simp add: validated_by_def)
qed (use request_operates ok in auto)

lemma program_runs_over:
  assumes "(program_step dp bg)\<^sup>*\<^sup>* s s'" and v: "validated_by bg ok J" "ok (pg_validator s)"
  shows "operates (dp_codec dp) J [] [] (program_store s) (program_store s') \<and> ok (pg_validator s')"
  using assms(1)
proof (induction rule: rtranclp_induct)
  case (step s1 s2)
  with program_operates [OF step.hyps(2) v(1)] show ?case using operates_trans by blast
qed (use v in simp)

lemma program_runs:
  assumes "(program_step dp bg)\<^sup>*\<^sup>* s s'" and c: "codec_ok (dp_codec dp)" and v: "validated_by bg ok J" "ok (pg_validator s)"
    and "sys_ok (dp_codec dp) \<lparr>s_store = program_store s, s_held = [], s_charges = []\<rparr>"
  shows "operates (dp_codec dp) J [] [] (program_store s) (program_store s') \<and> ok (pg_validator s') \<and>
    sys_ok (dp_codec dp) \<lparr>s_store = program_store s', s_held = [], s_charges = []\<rparr>"
  using program_runs_over [OF assms(1) v] operates_good [OF _ c assms(5)] by blast

text \<open>C1. The program implements the lifecycle. Start it over an empty database and let the listeners
  serve any requests, the background loops make any passes and the process restart any number of times, in
  any order, the validator, the escrow and the clocks answering as they like and the validations of a tick
  finishing in any order. Statements may fail, take effect and have their reply lost, and the audit writer
  may be gone. What happens to the store is a run of the service's single operations; the stored proposals
  are those of a run of the abstract lifecycle; the evidence emitted is a part of that run's trail, in order,
  and the trail replays to exactly the status of every stored proposal. When no reply is lost and the writer
  is alive, the trail is the evidence emitted. A request and a pass of a loop are each one step here;
  interleavings inside them are runs of the service.\<close>

theorem program_refines_lifecycle:
  assumes "codec_ok (dp_codec dp)" and "begins \<lparr>s_store = program_store s0, s_held = [], s_charges = []\<rparr>"
    and "\<forall>ps. mset (bg_schedule bg ps) = mset ps" and "(program_step dp bg)\<^sup>*\<^sup>* s0 s"
  shows "(\<exists>held charges. (service_step (dp_codec dp))\<^sup>*\<^sup>* \<lparr>s_store = program_store s0, s_held = [], s_charges = []\<rparr>
      \<lparr>s_store = program_store s, s_held = held, s_charges = charges\<rparr>) \<and>
    (\<exists>trail. lifecycle\<^sup>*\<^sup>* (life_of (dp_codec dp) (program_store s0))
        ((life_of (dp_codec dp) (program_store s))\<lparr>l_trail := trail\<rparr>) \<and>
      subseq (map ae_kind (st_audit (program_store s))) trail \<and>
      (\<forall>pid q. book (dp_codec dp) (program_store s) pid = Some q \<longrightarrow> replay pid trail = Some (p_status q)) \<and>
      (reliable (program_store s0) \<longrightarrow> trail = map ae_kind (st_audit (program_store s))))"
proof -
  let ?s = "\<lparr>s_store = program_store s0, s_held = [], s_charges = []\<rparr>" and ?c = "dp_codec dp"
  note run = program_runs_over [OF assms(4) any_validated [OF assms(3)] TrueI]
  obtain held charges where r: "runs ?c ?s \<lparr>s_store = program_store s, s_held = held, s_charges = charges\<rparr>"
    using operates_runs [OF run [THEN conjunct1]] by (elim exE)
  show ?thesis
  proof (cases "reliable (program_store s0)")
    case True
    then have ok: "sys_ok ?c ?s" using assms(2) by (intro starts_ok) (simp add: starts_begins)
    note rl = runs_life [OF r assms(1) ok]
    then have l: "life_ok (life_of ?c (program_store s))" by (simp add: sys_ok_def)
    have same: "(life_of ?c (program_store s))\<lparr>l_trail := map ae_kind (st_audit (program_store s))\<rparr> = life_of ?c (program_store s)"
      unfolding life_of_def by simp
    have "\<forall>pid q. book ?c (program_store s) pid = Some q \<longrightarrow>
        replay pid (map ae_kind (st_audit (program_store s))) = Some (p_status q)"
      using life_ok_D(4) [OF l] by simp
    then show ?thesis
      by (intro conjI exI [of _ "map ae_kind (st_audit (program_store s))"] exI [of _ held] exI [of _ charges])
        (use r rl in \<open>simp_all only: same sys.simps subseq_order.order_refl simp_thms\<close>)
  next
    case False
    with lossy_run [OF assms(1,2) r] r show ?thesis by auto
  qed
qed

subsection \<open>A concrete run\<close>

definition posting_deployment :: deployment where
  "posting_deployment = sample_deployment\<lparr>dp_extract := sample_extractors\<lparr>ex_create := \<lambda>_. Inr sample_body, ex_auction := \<lambda>_. Inr sample_auction\<rparr>\<rparr>"

definition accepting_background :: "(bool, nat) background" where
  "accepting_background =
     \<lparr>bg_validate = accept_all, bg_begin_tick = (\<lambda>s. s), bg_boots = (\<lambda>v. v),
      bg_gas_price = 7, bg_schedule = (\<lambda>ps. ps), bg_executing_timeout = 300000000,
      bg_cost = (\<lambda>_ e. (Inr 5, Suc e)), bg_debit = (\<lambda>_ _ _ e. (Inr 9, Suc e)), bg_keccak = (\<lambda>_. 0), bg_collateral = 100,
      bg_retention = 3600000000, bg_token = Some ''key''\<rparr>"

definition first_shared :: shared where
  "first_shared = \<lparr>sh_store = s_store first_sys, sh_gas_price = 7\<rparr>"

definition first_program :: "(bool, nat) program" where
  "first_program = \<lparr>pg_shared = first_shared, pg_validator = True, pg_attempts = no_attempts, pg_edge = 0\<rparr>"

text \<open>A POST of the sample body, whatever the store then does with the insertion.\<close>

lemma posting_served:
  obtains p where "p_sub_solver p = 17" "p_order_uid p = sample_uid" "p_sell_amount p = 1000000" "p_buy_amount p = 950000"
    "p_valid_until p = 700" "p_gas_used p = None" "p_status p = Submitted" "p_trampoline p = None"
    "\<And>bg s r st'. insert_proposal_op std_codec sample_clock p (program_store s) = Some (r, st') \<Longrightarrow>
       program_step posting_deployment bg s (s\<lparr>pg_shared := (pg_shared s)\<lparr>sh_store := st'\<rparr>\<rparr>)"
proof -
  obtain p where f: "signed_fields std_codec toy_crypto (app_domain sample_app) sample_body p" "fresh_fields p"
      and t: "timely sample_app 600 (p_valid_until p)" "p_sub_solver p = 17" using sample_signed by blast
  have uid: "uid_ok sample_uid" by (simp add: sample_uid_def uid_ok_def)
  have p: "p_order_uid p = sample_uid" "p_sell_amount p = 1000000" "p_buy_amount p = 950000" "p_valid_until p = 700"
      "p_gas_used p = None" "p_status p = Submitted" "p_trampoline p = None"
    using f by (simp_all add: signed_fields_def fresh_fields_def sample_body_def codec_read_back [OF codec_ok_std]
        from_hex_text [OF codec_ok_std uid])
  have now: "unix_secs (wall_now sample_clock) = Some 600" by (simp add: unix_secs_def sample_clock_def)
  note create = create_inserts [OF signed_unique [OF f] now t(1)]
  have d: "dispatch_ok (dp_dispatch posting_deployment)" by (simp add: posting_deployment_def sample_deployment_def dispatch_ok_std)
  have "program_step posting_deployment bg s (s\<lparr>pg_shared := (pg_shared s)\<lparr>sh_store := st'\<rparr>\<rparr>)"
    if ins: "insert_proposal_op std_codec sample_clock p (program_store s) = Some (r, st')"
    for bg :: "('v, 'e) background" and s r st'
  proof -
    from serve_public [OF d, where req = "sample_request POST [''proposals'']" and clk = sample_clock and sh = "pg_shared s"]
    obtain resp where "serve_request posting_deployment public_router sample_clock (sample_request POST [''proposals''])
        (pg_shared s) = Some (resp, (pg_shared s)\<lparr>sh_store := st'\<rparr>)"
      using create [of "program_store s"] ins by (auto simp: sample_request_def serves_def posting_deployment_def
          sample_deployment_def sample_extractors_def extracted_def answered_def rendered_def split: prod.splits)
    then show ?thesis by (rule program_step.Public)
  qed
  from that [OF t(2) p(1-4) p(5-7) this] show thesis .
qed

lemma program_posts:
  assumes "pg_shared s0 = first_shared"
  obtains st' q where "program_step posting_deployment bg s0 (s0\<lparr>pg_shared := first_shared\<lparr>sh_store := st'\<rparr>\<rparr>)"
    "st_faults st' = []" "book std_codec st' (ProposalId 1) = Some q" "p_sub_solver q = 17" "p_status q = Submitted"
    "p_order_uid q = sample_uid" "p_sell_amount q = 1000000" "p_buy_amount q = 950000" "p_valid_until q = 700"
    "p_trampoline q = None"
proof -
  obtain p where p: "p_sub_solver p = 17" "p_order_uid p = sample_uid" "p_sell_amount p = 1000000" "p_buy_amount p = 950000"
    "p_valid_until p = 700" "p_gas_used p = None" "p_status p = Submitted" "p_trampoline p = None"
    and step: "\<And>r st'. insert_proposal_op std_codec sample_clock p (program_store s0) = Some (r, st') \<Longrightarrow>
       program_step posting_deployment bg s0 (s0\<lparr>pg_shared := (pg_shared s0)\<lparr>sh_store := st'\<rparr>\<rparr>)"
    by (rule posting_served) blast
  obtain st' where ins: "insert_proposal_op std_codec sample_clock p (s_store first_sys) = Some (Inr (ProposalId 1), st')"
    using first_insert [OF p(6)] by blast
  have uid: "uid_ok (p_order_uid p)" by (simp add: p(2) sample_uid_def uid_ok_def)
  have "good std_codec (s_store first_sys)" using starts_ok [OF first_starts] by (simp add: sys_ok_def)
  from insert_outcome [OF this codec_ok_std uid, of None sample_clock] ins p(6)
  have b: "book std_codec st' (ProposalId 1) = Some (p\<lparr>p_id := ProposalId 1\<rparr>)" by (auto simp: gas_column_def)
  have "program_step posting_deployment bg s0 (s0\<lparr>pg_shared := first_shared\<lparr>sh_store := st'\<rparr>\<rparr>)"
    using step ins assms by (simp add: first_shared_def)
  from that [OF this first_insert_calm [OF ins] b] p show thesis by simp
qed

text \<open>The reply to the INSERT of the first submission is lost: the proposal is stored, and no evidence of it
  is emitted.\<close>

definition deaf_program :: "(bool, nat) program" where
  "deaf_program = first_program\<lparr>pg_shared := first_shared\<lparr>sh_store :=
     (s_store first_sys)\<lparr>st_faults := [Some (Unacknowledged Connection)]\<rparr>\<rparr>\<rparr>"

lemma insert_unacknowledged:
  assumes "insert_proposal_op c clk p st = Some (Inr pid, st')" and "st_faults st = []"
  shows "insert_proposal_op c clk p (st\<lparr>st_faults := [Some (Unacknowledged e)]\<rparr>) = Some (Inl (Database e), st\<lparr>st_db := st_db st'\<rparr>)"
  using assms by (auto simp: insert_proposal_op_def stmt_def next_fault_def Let_def act_def emit_def done_with_def lift_def
      split: option.splits sum.splits prod.splits if_splits)

lemma deaf_post:
  obtains s q where "program_step posting_deployment accepting_background deaf_program s"
    "book std_codec (program_store s) (ProposalId 1) = Some q" "p_sub_solver q = 17" "p_status q = Submitted"
    "st_audit (program_store s) = []"
proof -
  obtain p where p: "p_sub_solver p = 17" "p_order_uid p = sample_uid" "p_gas_used p = None" "p_status p = Submitted"
    and step: "\<And>r st'. insert_proposal_op std_codec sample_clock p (program_store deaf_program) = Some (r, st') \<Longrightarrow>
       program_step posting_deployment accepting_background deaf_program
         (deaf_program\<lparr>pg_shared := (pg_shared deaf_program)\<lparr>sh_store := st'\<rparr>\<rparr>)"
    by (rule posting_served) blast
  obtain st' where ins: "insert_proposal_op std_codec sample_clock p (s_store first_sys) = Some (Inr (ProposalId 1), st')"
    using first_insert [OF p(3)] by blast
  have uid: "uid_ok (p_order_uid p)" by (simp add: p(2) sample_uid_def uid_ok_def)
  have "good std_codec (s_store first_sys)" using starts_ok [OF first_starts] by (simp add: sys_ok_def)
  from insert_outcome [OF this codec_ok_std uid, of None sample_clock] ins p(3)
  have b: "book std_codec st' (ProposalId 1) = Some (p\<lparr>p_id := ProposalId 1\<rparr>)" by (auto simp: gas_column_def)
  have calm: "st_faults (s_store first_sys) = []" by (simp add: first_sys_def)
  have "program_store deaf_program = (s_store first_sys)\<lparr>st_faults := [Some (Unacknowledged Connection)]\<rparr>"
    by (simp add: deaf_program_def)
  from step [unfolded this, OF insert_unacknowledged [OF ins calm]]
  show thesis by (rule that [where q = "p\<lparr>p_id := ProposalId 1\<rparr>"]) (use b in \<open>simp_all add: book_def first_sys_def p\<close>)
qed

theorem program_refines_lifecycle_witness:
  "\<exists>s q trail. program_step posting_deployment accepting_background deaf_program s \<and>
     book std_codec (program_store s) (ProposalId 1) = Some q \<and> p_sub_solver q = 17 \<and> st_audit (program_store s) = [] \<and>
     lifecycle\<^sup>*\<^sup>* (life_of std_codec (program_store deaf_program)) ((life_of std_codec (program_store s))\<lparr>l_trail := trail\<rparr>) \<and>
     replay (ProposalId 1) trail = Some Submitted"
proof -
  obtain s q where s: "program_step posting_deployment accepting_background deaf_program s"
      "book std_codec (program_store s) (ProposalId 1) = Some q" "p_sub_solver q = 17" "p_status q = Submitted"
      "st_audit (program_store s) = []"
    by (rule deaf_post)
  have c: "dp_codec posting_deployment = std_codec" by (simp add: posting_deployment_def sample_deployment_def)
  have "begins \<lparr>s_store = program_store deaf_program, s_held = [], s_charges = []\<rparr>"
    by (simp add: begins_def deaf_program_def first_sys_def)
  from program_refines_lifecycle [OF _ this _ r_into_rtranclp [of "program_step posting_deployment accepting_background", OF s(1)]]
  obtain trail where "lifecycle\<^sup>*\<^sup>* (life_of std_codec (program_store deaf_program)) ((life_of std_codec (program_store s))\<lparr>l_trail := trail\<rparr>)"
      "\<forall>pid q. book std_codec (program_store s) pid = Some q \<longrightarrow> replay pid trail = Some (p_status q)"
    by (auto simp: c codec_ok_std accepting_background_def)
  with s show ?thesis by metis
qed

end
