(* ===== verification/Bid_Simulation.thy ===== *)
theory Bid_Simulation
  imports Program
begin

text \<open>
  What the driver is asked to execute is what was simulated. The validator simulates a full settlement
  (\<open>infra/blockchain/simulation.rs\<close>), the store keeps the gas and the trampoline of that simulation, and
  \<open>/solve\<close> rebuilds the interactions from the stored proposal: over every run of the program with the
  production validator, the two meet.
\<close>

subsection \<open>The facts that last\<close>

text \<open>Balances change from tick to tick; trampolines, the authenticator and orders do not.\<close>

definition lasting_honest :: "facts \<Rightarrow> world \<Rightarrow> bool" where
  "lasting_honest t w \<longleftrightarrow> (\<forall>a b. w_address_of w a = Inr b \<longrightarrow> b = f_trampoline t a) \<and>
     (\<forall>b. w_authenticator w = Inr b \<longrightarrow> b = f_authenticator t) \<and> replies_honestly (f_order t) (w_order w)"

definition lasting_coherent :: "validator_config \<Rightarrow> facts \<Rightarrow> caches \<Rightarrow> bool" where
  "lasting_coherent cfg t ca \<longleftrightarrow> (\<forall>a b. ca_trampolines ca a = Some b \<longrightarrow> b = f_trampoline t a) \<and>
     (\<forall>b. ca_authenticator ca = Some b \<longrightarrow> b = f_authenticator t) \<and>
     cache_coherent (vc_cache_capacity cfg) (f_order t) (ca_orders ca)"

text \<open>\<open>W\<close>: the answers the validator meets in a run.\<close>

definition lasting_ok :: "validator_config \<Rightarrow> facts \<Rightarrow> (u64 \<times> world) set \<Rightarrow> caches \<times> answers \<Rightarrow> bool" where
  "lasting_ok cfg t W s \<longleftrightarrow> lasting_coherent cfg t (fst s) \<and> 0 < vc_cache_capacity cfg \<and>
     range (snd s) \<subseteq> W \<and> (\<forall>x\<in>W. lasting_honest t (snd x))"

lemma lasting_okD:
  assumes "lasting_ok cfg t W (ca, ws)"
  shows "lasting_coherent cfg t ca" and "0 < vc_cache_capacity cfg" and "(fst (ws 0), snd (ws 0)) \<in> W"
    and "lasting_honest t (snd (ws 0))" and "lasting_coherent cfg t ca' \<Longrightarrow> lasting_ok cfg t W (ca', \<lambda>i. ws (Suc i))"
  using assms by (auto simp: lasting_ok_def)

text \<open>The simulation behind an acceptance: a successful estimate among the answers met.\<close>

definition simulates :: "validator_config \<Rightarrow> facts \<Rightarrow> (u64 \<times> world) set \<Rightarrow> proposal \<Rightarrow> verdict \<Rightarrow> bool" where
  "simulates cfg t W p v \<longleftrightarrow> (case v of Accept sim \<Rightarrow>
     (\<exists>r gp w gas. (gp, w) \<in> W \<and> f_order t (p_order_uid p) = Some r \<and> check_envelope r p = Inr () \<and>
        w_estimate_gas w (true_simulation cfg t r p) = Inr gas \<and> i64_of_u64 gas \<noteq> None \<and>
        sim = Some \<lparr>so_gas_used = gas, so_trampoline = trampoline_fact t p,
          so_sell_token = co_sell_token (or_order r), so_buy_token = co_buy_token (or_order r)\<rparr>) | _ \<Rightarrow> True)"

subsection \<open>The production validator from tick to tick\<close>

text \<open>Balances only decide whether a simulation is made: with the balances of one validation read as
  facts, the verdicts are those of \<open>Validator_Properties\<close>.\<close>

definition with_balances :: "(address \<Rightarrow> u256) \<Rightarrow> facts \<Rightarrow> facts" where
  "with_balances b t = t\<lparr>f_balance := b\<rparr>"

lemma with_balances_simps [simp]:
  "f_balance (with_balances b t) = b" "f_trampoline (with_balances b t) = f_trampoline t"
  "f_authenticator (with_balances b t) = f_authenticator t" "f_order (with_balances b t) = f_order t"
  by (simp_all add: with_balances_def)

lemma true_simulation_balances [simp]: "true_simulation cfg (with_balances b t) r p = true_simulation cfg t r p"
  "trampoline_fact (with_balances b t) p = trampoline_fact t p"
  by (simp_all add: true_simulation_def trampoline_fact_def split: option.splits)

lemma untouched_by_balances:
  "trampoline_for (w\<lparr>w_effective_balance := b\<rparr>) = trampoline_for w"
  "resolve_authenticator (w\<lparr>w_effective_balance := b\<rparr>) = resolve_authenticator w"
  "judge_estimate cfg gp (w\<lparr>w_effective_balance := b\<rparr>) = judge_estimate cfg gp w"
  by (simp_all add: fun_eq_iff trampoline_for_def resolve_trampoline_def resolve_authenticator_def judge_estimate_def
      profitability_def cong del: option.case_cong_weak sum.case_cong_weak if_weak_cong)

lemma validate_simulation_balances:
  "validate_simulation cfg gp (w\<lparr>w_effective_balance := b\<rparr>) p ca = validate_simulation cfg gp w p ca"
  unfolding validate_simulation_def untouched_by_balances
  by (simp cong del: option.case_cong_weak sum.case_cong_weak if_weak_cong)

lemma simulation_lasting:
  assumes co: "lasting_coherent cfg t ca" and h: "lasting_honest t w" and cap: "0 < vc_cache_capacity cfg"
    and funded: "ca_balances ca (p_sub_solver p) = Some balance" "threshold cfg gp \<le> balance"
    and W: "(gp, w) \<in> W" and run: "validate_simulation cfg gp w p ca = (v, ca')"
  shows "lasting_coherent cfg t ca' \<and> (\<forall>v'. v = Some v' \<longrightarrow> simulates cfg t W p v')"
proof -
  let ?b = "\<lambda>a. case ca_balances ca a of Some x \<Rightarrow> x | None \<Rightarrow> 0"
  let ?t = "with_balances ?b t" and ?w = "w\<lparr>w_effective_balance := \<lambda>a. Inr (?b a)\<rparr>"
  have "coherent cfg ?t ca" using co by (simp add: coherent_def lasting_coherent_def)
  moreover have "honest ?t ?w" using h by (simp add: honest_def lasting_honest_def)
  moreover have "threshold cfg gp \<le> f_balance ?t (p_sub_solver p)" using funded by simp
  moreover have "validate_simulation cfg gp ?w p ca = (v, ca')" using run by (simp add: validate_simulation_balances)
  ultimately have j: "coherent cfg ?t ca' \<and> (\<forall>v'. v = Some v' \<longrightarrow> justified cfg gp ?t ?w p v')"
    using validate_simulation_justified [OF _ _ cap] by blast
  have "simulates cfg t W p v'" if "justified cfg gp ?t ?w p v'" for v'
    using that W by (cases v') (auto simp: justified_def simulates_def, (intro exI conjI, assumption+)+)
  with j show ?thesis by (auto simp: coherent_def lasting_coherent_def)
qed

lemma validation_lasting:
  assumes co: "lasting_coherent cfg t ca" and h: "lasting_honest t w" and cap: "0 < vc_cache_capacity cfg"
    and W: "(gp, w) \<in> W" and run: "validate_proposal cfg gp w p ca = (v, ca')"
  shows "lasting_coherent cfg t ca' \<and> (\<forall>v'. v = Some v' \<longrightarrow> simulates cfg t W p v')"
proof -
  obtain b ca1 where b: "get_balance w (p_sub_solver p) ca = (b, ca1)" by (cases "get_balance w (p_sub_solver p) ca")
  have co1: "lasting_coherent cfg t ca1" and hit: "b = Inr x \<Longrightarrow> ca_balances ca1 (p_sub_solver p) = Some x" for x
    using b co by (auto simp: get_balance_def lasting_coherent_def split: option.splits sum.splits)
  show ?thesis
  proof (cases "\<exists>x. b = Inr x \<and> threshold cfg gp \<le> x")
    case True
    then obtain x where x: "b = Inr x" "threshold cfg gp \<le> x" by blast
    then have "validate_simulation cfg gp w p ca1 = (v, ca')"
      using run b by (simp add: validate_proposal_def validate_escrow_def)
    from simulation_lasting [OF co1 h cap hit [OF x(1)] x(2) W this] show ?thesis .
  next
    case False
    with run b co1 show ?thesis
      by (cases b) (auto simp: validate_proposal_def validate_escrow_def simulates_def)
  qed
qed

interpretation lasting: tick_validator "production_validate cfg" production_begin
    "lasting_ok cfg t W" "lasting_ok cfg t W" "simulates cfg t W" for cfg t W
proof (unfold_locales, goal_cases)
  case (1 s)
  then show ?case by (cases s) (simp add: lasting_ok_def lasting_coherent_def clear_cache_def)
next
  case (2 s p v s')
  obtain ca ws where s: "s = (ca, ws)" by (cases s)
  show ?case
    using 2 validation_lasting [OF lasting_okD(1,4,2,3) [OF 2(1) [unfolded s]]] lasting_okD(5) [OF 2(1) [unfolded s]]
    by (auto simp: s split: prod.splits)
next
  case (3 s p v s')
  obtain ca ws where s: "s = (ca, ws)" by (cases s)
  show ?case
    using 3 validation_lasting [OF lasting_okD(1,4,2,3) [OF 3(1) [unfolded s]]] lasting_okD(5) [OF 3(1) [unfolded s]]
    by (auto simp: s split: prod.splits)
qed

subsection \<open>Accepted proposals were simulated\<close>

definition simulated :: "validator_config \<Rightarrow> facts \<Rightarrow> (u64 \<times> world) set \<Rightarrow> proposal \<Rightarrow> bool" where
  "simulated cfg t W q \<longleftrightarrow> (\<exists>r gp w addr gas. (gp, w) \<in> W \<and> f_order t (p_order_uid q) = Some r \<and>
     check_envelope r q = Inr () \<and> p_trampoline q = Some addr \<and> p_gas_used q = Some gas \<and>
     w_estimate_gas w (simulation_of cfg r q addr (f_authenticator t)) = Inr gas \<and>
     p_sell_token q = co_sell_token (or_order r) \<and> p_buy_token q = co_buy_token (or_order r))"

definition accepted_statuses :: "proposal_status set" where
  "accepted_statuses = {Active, Executing, Settled, SettleFailed, Penalized}"

definition vetted :: "validator_config \<Rightarrow> facts \<Rightarrow> (u64 \<times> world) set \<Rightarrow> life \<Rightarrow> bool" where
  "vetted cfg t W a \<longleftrightarrow> (\<forall>i q. l_book a i = Some q \<longrightarrow> p_status q \<in> accepted_statuses \<longrightarrow> simulated cfg t W q)"

lemma same_body_simulation:
  assumes "same_body p q"
  shows "simulation_of cfg r q = simulation_of cfg r p" and "check_envelope r q = check_envelope r p"
    and "p_order_uid q = p_order_uid p"
proof -
  note b = assms [unfolded same_body_def]
  show "simulation_of cfg r q = simulation_of cfg r p" using b by (simp add: simulation_of_def fun_eq_iff)
  show "check_envelope r q = check_envelope r p"
    using b by (cases "co_kind (or_order r)") (simp_all add: check_envelope_def check_partial_fill_def check_fill_or_kill_def)
  show "p_order_uid q = p_order_uid p" using b by simp
qed

lemma simulated_kept: "simulated cfg t W q \<Longrightarrow> same_body q q' \<Longrightarrow> same_sim q q' \<Longrightarrow> simulated cfg t W q'"
  using same_body_simulation [of q q'] by (simp add: simulated_def same_sim_def)

lemma stored_gas_fits: "i64_of_u64 gas \<noteq> None \<Longrightarrow> stored_gas gas = gas"
  by (auto simp: stored_gas_def saturated_gas_def i64_of_u64_def split: if_splits)

lemma verdict_simulated:
  assumes "verdict_by (simulates cfg t W) q q'" and "p_status q' \<in> accepted_statuses"
  shows "simulated cfg t W q'"
proof -
  obtain p v to reason sim where v: "simulates cfg t W p v" "same_body p q" "verdict_parts v = (to, reason, sim)"
      "q' = with_verdict to reason sim q" using assms(1) unfolding verdict_by_def by (elim exE conjE)
  then obtain sim' where accept: "v = Accept sim'" "sim = sim'"
    using assms(2) by (cases v) (auto simp: with_verdict_def accepted_statuses_def)
  with v(1) obtain r gp w gas where w: "(gp, w) \<in> W" "f_order t (p_order_uid p) = Some r" "check_envelope r p = Inr ()"
      "w_estimate_gas w (true_simulation cfg t r p) = Inr gas" "i64_of_u64 gas \<noteq> None"
      "sim = Some \<lparr>so_gas_used = gas, so_trampoline = trampoline_fact t p,
         so_sell_token = co_sell_token (or_order r), so_buy_token = co_buy_token (or_order r)\<rparr>"
    by (auto simp: simulates_def)
  have q': "p_trampoline q' = Some (trampoline_fact t p)" "p_gas_used q' = Some gas"
      "p_sell_token q' = co_sell_token (or_order r)" "p_buy_token q' = co_buy_token (or_order r)"
    using w(6) stored_gas_fits [OF w(5)] by (simp_all add: v(4) with_verdict_def coalesce_def coalesce_to_def)
  have b: "same_body p q'" using v(2,4) by (auto intro: same_body_trans)
  show ?thesis unfolding simulated_def
    by (intro exI conjI) (use w q' same_body_simulation [OF b] in \<open>simp_all add: true_simulation_def\<close>)
qed

lemma vetted_step:
  assumes "lifecycle_by (verdict_by (simulates cfg t W)) a a'" and "vetted cfg t W a"
  shows "vetted cfg t W a'"
  using assms
proof (induction rule: lifecycle_by.induct)
  case (Move a q q' k)
  have "simulated cfg t W q'" if acc: "p_status q' \<in> accepted_statuses"
    using Move(7)
  proof
    assume s: "same_sim q q'"
    then have "p_status q \<in> accepted_statuses"
      using Move(3) acc by (cases "p_status q") (auto simp: accepted_statuses_def same_sim_def)
    with Move.prems Move(1) have "simulated cfg t W q" unfolding vetted_def by blast
    then show ?thesis using Move(2) s by (rule simulated_kept)
  qed (use acc verdict_simulated in blast)
  with Move.prems show ?case by (auto simp: vetted_def)
next
  case (Refresh a q q')
  have "simulated cfg t W q'" using Refresh(5,4) by (intro verdict_simulated) (simp_all add: accepted_statuses_def)
  with Refresh.prems show ?case by (auto simp: vetted_def)
next
  case (Submit a i p)
  then show ?case by (auto simp: vetted_def accepted_statuses_def)
next
  case (Release qs a)
  have "simulated cfg t W (with_status Active q)" if q: "q \<in> set qs" for q
  proof -
    have stored: "l_book a (p_id q) = Some q" and ex: "p_status q = Executing" using Release(2) q by blast+
    have "p_status q \<in> accepted_statuses" by (simp only: ex accepted_statuses_def) simp
    with Release.prems stored have "simulated cfg t W q" unfolding vetted_def by blast
    then show ?thesis by (rule simulated_kept) (simp_all add: same_sim_def same_body_def with_status_def ex)
  qed
  note released = this
  have "simulated cfg t W q" if b: "map_option (\<lambda>q. if q \<in> set qs then with_status Active q else q) (l_book a i) = Some q"
    and acc: "p_status q \<in> accepted_statuses" for i q
  proof -
    obtain q1 where q1: "l_book a i = Some q1" "q = (if q1 \<in> set qs then with_status Active q1 else q1)" using b by auto
    show ?thesis
    proof (cases "q1 \<in> set qs")
      case True
      with q1(2) released show ?thesis by simp
    next
      case False
      with q1 acc Release.prems show ?thesis unfolding vetted_def by (metis (full_types))
    qed
  qed
  then show ?case unfolding vetted_def by simp
next
  case (Sweep b a)
  have "l_book a i = Some q" if "b i = Some q" for i q using Sweep(1) that by (metis option.distinct(1))
  with Sweep.prems show ?case by (auto simp: vetted_def)
qed (simp_all add: vetted_def)

text \<open>Over a run of the service whose verdicts are those of the production validator.\<close>

lemma vetted_runs:
  assumes "(service_by c (simulates cfg t W))\<^sup>*\<^sup>* s s'" and "codec_ok c" and "sys_ok c s" and "vetted cfg t W (life_of c (s_store s))"
  shows "vetted cfg t W (life_of c (s_store s')) \<and> sys_ok c s'"
  using assms
proof (induction rule: rtranclp_induct)
  case (step s1 s2)
  then have "sys_ok c s1" "vetted cfg t W (life_of c (s_store s1))" by blast+
  with step_refines_by [OF step.prems(1) _ step.hyps(2)] show ?case using vetted_step by blast
qed simp

subsection \<open>Bids\<close>

text \<open>A solution that settles on chain what a simulation ran: the same order, tokens, prices and hooks, and
  as interactions exactly those of the simulated \<open>settle()\<close>, with the gas of that estimate.\<close>

definition bids_simulation :: "validator_config \<Rightarrow> facts \<Rightarrow> (u64 \<times> world) set \<Rightarrow> solution \<Rightarrow> bool" where
  "bids_simulation cfg t W sol \<longleftrightarrow> (\<exists>r gp w sim call gas.
     f_order t (sol_order sol) = Some r \<and> (gp, w) \<in> W \<and> w_estimate_gas w sim = Inr gas \<and>
     sol_gas sol = effective_gas gas \<and>
     sim_to sim = vc_settlement cfg \<and> sim_input sim = abi_settle (vc_abi cfg) call \<and>
     sc_intra call = sol_interactions sol \<and>
     sc_pre call = or_pre_interactions r \<and> sc_post call = or_post_interactions r \<and>
     sc_tokens call = [co_sell_token (or_order r), co_buy_token (or_order r)] \<and>
     (if co_sell_token (or_order r) = co_buy_token (or_order r) then True
      else map (sol_prices sol) (sc_tokens call) = map Some (sc_clearingPrices call)))"

text \<open>What the auction says of an order is what the orderbook says of it.\<close>

definition auction_agrees :: "facts \<Rightarrow> auction_order \<Rightarrow> bool" where
  "auction_agrees t ord \<longleftrightarrow> (case f_order t (ao_uid ord) of None \<Rightarrow> True
     | Some r \<Rightarrow> ao_sell_token ord = co_sell_token (or_order r) \<and> ao_buy_token ord = co_buy_token (or_order r))"

lemma built_from_simulation:
  assumes "simulated cfg t W p" and "ao_uid ord = p_order_uid p" and "auction_agrees t ord"
    and r: "ranked a ord p = Some (q, gas, gcut, score)" and "build_solution (vc_abi cfg) i ord p gas gcut = Some sol"
  shows "bids_simulation cfg t W sol"
proof -
  obtain r gp w addr gas' where s: "(gp, w) \<in> W" "f_order t (p_order_uid p) = Some r" "p_trampoline p = Some addr"
      "p_gas_used p = Some gas'" "w_estimate_gas w (simulation_of cfg r p addr (f_authenticator t)) = Inr gas'"
    using assms(1) by (auto simp: simulated_def)
  have g: "gas = gas'" using r s(4) by (auto simp: ranked_def bind_eq_Some_conv Let_def split: if_splits)
  have tok: "ao_sell_token ord = co_sell_token (or_order r)" "ao_buy_token ord = co_buy_token (or_order r)"
    using assms(2,3) s(2) by (simp_all add: auction_agrees_def)
  let ?sim = "simulation_of cfg r p addr (f_authenticator t)"
  let ?oc = "\<lparr>oc_orderUidHash = p_order_uid_hash p, oc_sellAmount = p_sell_amount p, oc_buyAmount = p_buy_amount p,
      oc_validUntil = p_valid_until p, oc_nonce = p_nonce p\<rparr>"
  let ?call = "settle_of (vc_abi cfg) (or_order r) ?oc addr (p_interactions p) (p_signature p)
      (or_pre_interactions r) (or_post_interactions r)"
  have sol: "sol = \<lparr>sol_id = i,
      sol_prices = ((\<lambda>_. None)(ao_sell_token ord \<mapsto> p_buy_amount p))(ao_buy_token ord \<mapsto> p_sell_amount p),
      sol_order = ao_uid ord, sol_executed_amount = gc_executed_amount gcut, sol_fee = gc_amount gcut,
      sol_interactions = encode_trampoline_interactions (vc_abi cfg) addr (ao_sell_token ord) ?oc (p_interactions p)
        (ao_buy_token ord) (p_signature p), sol_gas = effective_gas gas\<rparr>"
    using assms(5) s(3) by (simp add: build_solution_def)
  show ?thesis unfolding bids_simulation_def
    by (rule exI [of _ r], rule exI [of _ gp], rule exI [of _ w], rule exI [of _ ?sim], rule exI [of _ ?call], rule exI [of _ gas])
      (use s g tok assms(2) in \<open>simp add: sol settle_of_def simulation_of_def build_simulation_def encode_settle_def Let_def\<close>)
qed

text \<open>C16. What is bid is what was simulated. For a proposal accepted on a simulation in \<open>W\<close>, and an auction order
  with the tokens the orderbook gives it: the solution built for it carries, interaction for interaction,
  the intra-interactions of the \<open>settle()\<close> call that was simulated, at that call's clearing prices, and
  asks for exactly the gas of that estimate plus the buffer.\<close>

theorem bid_is_what_was_simulated:
  assumes "simulated cfg t W p" and "ao_uid ord = p_order_uid p" and "auction_agrees t ord"
    and "ranked a ord p = Some (q, gas, gcut, score)" and "build_solution (vc_abi cfg) i ord p gas gcut = Some sol"
  shows "bids_simulation cfg t W sol"
  using assms by (rule built_from_simulation)

text \<open>Over every run of the program with the production validator.\<close>

lemma program_vetted:
  assumes "codec_ok (dp_codec dp)" and "starts \<lparr>s_store = program_store s0, s_held = [], s_charges = []\<rparr>"
    and "bg_validate bg = production_validate cfg" and "bg_begin_tick bg = production_begin"
    and "\<forall>ps. mset (bg_schedule bg ps) = mset ps" and "lasting_ok cfg t W (pg_validator s0)"
    and "\<forall>v. bg_boots bg v \<longrightarrow> lasting_ok cfg t W v"
    and "(program_step dp bg)\<^sup>*\<^sup>* s0 s"
  shows "vetted cfg t W (life_of (dp_codec dp) (program_store s)) \<and> good (dp_codec dp) (program_store s)"
proof -
  have v: "validated_by bg (lasting_ok cfg t W) (simulates cfg t W)"
    using assms(3-5,7) lasting.tick_validator_axioms by (simp add: validated_by_def)
  have ok: "sys_ok (dp_codec dp) \<lparr>s_store = program_store s0, s_held = [], s_charges = []\<rparr>" using starts_ok [OF assms(2)] .
  note run = program_runs [OF assms(8,1) v assms(6) ok]
  obtain held charges where r: "(service_by (dp_codec dp) (simulates cfg t W))\<^sup>*\<^sup>*
      \<lparr>s_store = program_store s0, s_held = [], s_charges = []\<rparr> \<lparr>s_store = program_store s, s_held = held, s_charges = charges\<rparr>"
    using operates_runs [OF run [THEN conjunct1]] by (elim exE)
  have "vetted cfg t W (life_of (dp_codec dp) (program_store s0))"
    using starts_empty [OF assms(2)] by (simp add: vetted_def)
  with vetted_runs [OF r assms(1) ok] have "vetted cfg t W (life_of (dp_codec dp) (program_store s))" by simp
  moreover have "good (dp_codec dp) (program_store s)" using run by (simp add: sys_ok_def)
  ultimately show ?thesis ..
qed

lemma program_bids_simulated:
  assumes "codec_ok (dp_codec dp)" and "starts \<lparr>s_store = program_store s0, s_held = [], s_charges = []\<rparr>"
    and "bg_validate bg = production_validate cfg" and "bg_begin_tick bg = production_begin"
    and "\<forall>ps. mset (bg_schedule bg ps) = mset ps" and "lasting_ok cfg t W (pg_validator s0)"
    and "\<forall>v. bg_boots bg v \<longrightarrow> lasting_ok cfg t W v"
    and "(program_step dp bg)\<^sup>*\<^sup>* s0 s"
    and "unix_secs (wall_now clk) = Some now" and "length (au_orders a) < 2 ^ 63 - 1"
    and "\<forall>ord\<in>set (au_orders a). auction_agrees t ord"
    and "solve (dp_codec dp) (vc_abi cfg) clk a gas_price (program_store s) = Some (sols, gas_price', st')"
  shows "(\<forall>pid q. book (dp_codec dp) (program_store s) pid = Some q \<longrightarrow> p_status q \<in> accepted_statuses \<longrightarrow> simulated cfg t W q) \<and>
    (\<forall>sol\<in>set sols. bids_simulation cfg t W sol \<and>
       (\<exists>ord p. bids (dp_codec dp) (vc_abi cfg) a (u256_of now) (program_store s) sol ord p \<and> simulated cfg t W p))"
proof -
  have vet: "vetted cfg t W (life_of (dp_codec dp) (program_store s))" and gd: "good (dp_codec dp) (program_store s)"
    using program_vetted [OF assms(1-8)] by blast+
  have sols: "\<exists>ord p. bids (dp_codec dp) (vc_abi cfg) a (u256_of now) (program_store s) sol ord p" if "sol \<in> set sols" for sol
    using solve_solving [OF gd assms(1,9,10), of "vc_abi cfg" gas_price] assms(12) that unfolding solving_def by fastforce
  have "bids_simulation cfg t W sol \<and>
      (\<exists>ord p. bids (dp_codec dp) (vc_abi cfg) a (u256_of now) (program_store s) sol ord p \<and> simulated cfg t W p)"
    if mem: "sol \<in> set sols" for sol
  proof -
    obtain ord p where b: "bids (dp_codec dp) (vc_abi cfg) a (u256_of now) (program_store s) sol ord p"
      using sols [OF mem] by blast
    then have "book (dp_codec dp) (program_store s) (p_id p) = Some p" "p_status p \<in> accepted_statuses"
        "ord \<in> set (au_orders a)" "ao_uid ord = p_order_uid p" by (simp_all add: bids_def accepted_statuses_def)
    moreover from this have "simulated cfg t W p" using vet unfolding vetted_def life_of_simps by blast
    ultimately show ?thesis using b assms(11) built_from_simulation unfolding bids_def by blast
  qed
  with vet show ?thesis unfolding vetted_def life_of_simps by blast
qed

subsection \<open>A concrete bid\<close>

definition sample_record :: order_record where
  "sample_record = \<lparr>or_order = \<lparr>co_sell_token = 21, co_buy_token = 22, co_receiver = 44, co_sell_amount = 1000000,
      co_buy_amount = 900000, co_valid_to = 1700000000, co_app_data = 0, co_fee_amount = 0, co_kind = Sell,
      co_partially_fillable = False, co_signing_scheme = Eip712, co_signature = [7]\<rparr>,
    or_pre_interactions = [], or_post_interactions = [], or_erc20_balances = True\<rparr>"

definition sample_facts_of :: facts where
  "sample_facts_of = poor_facts\<lparr>f_order := \<lambda>_. Some sample_record\<rparr>"

definition trading_config :: validator_config where
  "trading_config = sample_config\<lparr>vc_abi := toy_abi\<rparr>"

lemma biddable_simulated:
  "simulated trading_config sample_facts_of {(1, poor_world)} (biddable\<lparr>p_order_uid := uid\<rparr>)"
proof -
  have "check_envelope sample_record (biddable\<lparr>p_order_uid := uid\<rparr>) = Inr ()"
    by (simp add: check_envelope_def check_fill_or_kill_def sample_record_def biddable_def sample_proposal_def)
  then show ?thesis unfolding simulated_def
    by (intro exI [of _ sample_record] exI [of _ 1] exI [of _ poor_world] exI [of _ 3] exI [of _ 100000])
      (simp add: biddable_def sample_proposal_def sample_record_def sample_facts_of_def poor_world_def)
qed

theorem bid_is_what_was_simulated_witness:
  "\<exists>sol. build_solution toy_abi 1 sample_order biddable 100000 \<lparr>gc_amount = 26000, gc_executed_amount = 974000\<rparr> = Some sol \<and>
     bids_simulation trading_config sample_facts_of {(1, poor_world)} sol"
proof -
  have "p_trampoline biddable = Some 3" by (simp add: biddable_def)
  then obtain sol where sol: "build_solution (vc_abi trading_config) 1 sample_order biddable 100000
      \<lparr>gc_amount = 26000, gc_executed_amount = 974000\<rparr> = Some sol"
    by (simp add: build_solution_def)
  have "simulated trading_config sample_facts_of {(1, poor_world)} biddable"
    using biddable_simulated [of "p_order_uid biddable"] by simp
  moreover have "ao_uid sample_order = p_order_uid biddable"
    by (simp add: sample_order_def biddable_def sample_proposal_def)
  moreover have "auction_agrees sample_facts_of sample_order"
    by (simp add: auction_agrees_def sample_facts_of_def sample_order_def sample_record_def)
  ultimately have "bids_simulation trading_config sample_facts_of {(1, poor_world)} sol"
    by (rule bid_is_what_was_simulated [OF _ _ _ biddable_ranked sol])
  with sol show ?thesis by (auto simp: trading_config_def)
qed

end
