(* ===== verification/Progress.thy ===== *)
theory Progress
  imports Collection Bid_Simulation
begin

text \<open>
  What is good gets through: while the database answers, a tick of the validation loop carries out every
  verdict, the production validator accepts what the facts allow when its calls are answered, and
  \<open>/solve\<close> bids for every order that has a biddable proposal. Together: an acceptable proposal is bid or
  beaten by a better one.
\<close>

subsection \<open>Verdicts are carried out\<close>

definition decided :: "verdict \<Rightarrow> proposal \<Rightarrow> proposal" where
  "decided v p = (case verdict_parts v of (to, reason, sim) \<Rightarrow> with_verdict to reason sim p)"

lemma healthy_verdict: "healthy (resolve_verdict c clk pid v)"
proof -
  have locked: "healthy (locked_row i)" for i
    unfolding locked_row_def select_row_def by (intro healthy_rules) (auto intro!: healthy_rules split: option.splits)
  have "healthy (verdict_body c clk pid to reason sim)" for to reason sim
    unfolding verdict_body_def require_live_def by (intro healthy_rules locked) auto
  then show ?thesis
    unfolding resolve_verdict_def by (auto intro!: healthy_rules split: prod.splits)
qed

lemma calm_verdict:
  assumes gd: "good c st" and c: "codec_ok c" and "calm st" and b: "book c st pid = Some p"
    and live: "p_status p \<in> {Submitted, Active}" and run: "resolve_verdict c clk pid v st = (r, st')"
  shows "calm st' \<and> good c st' \<and> book c st' = (book c st)(pid \<mapsto> decided v p)"
proof -
  obtain to reason sim where v: "verdict_parts v = (to, reason, sim)" by (cases "verdict_parts v")
  note spec = wpD [OF wp_resolve_verdict [OF gd c v] run] and h = healthyD [OF healthy_verdict assms(3) run]
  show ?thesis
  proof (cases r)
    case (Inl e)
    with spec h have "live_error c st pid e" "\<forall>x. e \<noteq> Database x" by auto
    with b live show ?thesis by (auto simp: live_error_def)
  next
    case (Inr s)
    with spec obtain q evs where q: "p_id q = pid" "moved c st st' q (with_verdict to reason sim q) evs" by auto
    then have "book c st (p_id q) = Some q" "book c st' = (book c st)(p_id q \<mapsto> with_verdict to reason sim q)"
      by (simp_all add: moved_def)
    moreover from this(1) have "q = p" using b unfolding q(1) by simp
    ultimately have "book c st' = (book c st)(pid \<mapsto> decided v p)" using q(1) by (simp add: decided_def v)
    with h spec show ?thesis by simp
  qed
qed

text \<open>What a validation makes of a proposal: it is decided or deferred.\<close>

definition validated :: "(proposal \<Rightarrow> 's \<Rightarrow> verdict option \<times> 's) \<Rightarrow> 's \<Rightarrow> proposal \<Rightarrow> proposal" where
  "validated validate s p = (case fst (validate p s) of None \<Rightarrow> p | Some v \<Rightarrow> decided v p)"

context tick_validator
begin

lemma judge_all_calm:
  assumes "in_book c st ps" and c: "codec_ok c" and "calm st" and "\<forall>p\<in>set ps. p_status p \<in> {Submitted, Active}"
    and "ok s" and "judge_all validate c clk ps s st = (s', st')"
  shows "calm st' \<and> good c st' \<and> (\<forall>p\<in>set ps. \<exists>sp. ok sp \<and> book c st' (p_id p) = Some (validated validate sp p))"
  using assms(1,3-6)
proof (induction ps arbitrary: s st)
  case Nil
  then show ?case by (simp add: in_book_def)
next
  case (Cons p ps)
  note b = in_bookD [OF Cons.prems(1)]
  have out: "p_id p \<notin> p_id ` set ps" using b(2) by simp
  have live: "\<forall>p\<in>set ps. p_status p \<in> {Submitted, Active}" "p_status p \<in> {Submitted, Active}" using Cons.prems(3) by simp_all
  obtain v s1 where v: "validate p s = (v, s1)" by (cases "validate p s")
  note ok1 = validate_ok [OF Cons.prems(4) v]
  have stored: "book c st (p_id p) = Some p" using b(3) by simp
  obtain st1 where st1: "in_book c st1 ps" "calm st1" "book c st1 (p_id p) = Some (validated validate s p)"
    "judge_all validate c clk ps s1 st1 = (s', st')"
  proof (cases v)
    case None
    have "in_book c st ps" using Cons.prems(1) by (simp add: in_book_def)
    with that [of st] None v Cons.prems(2,5) stored show thesis by (simp add: validated_def)
  next
    case (Some v')
    obtain r st1 where r: "resolve_verdict c clk (p_id p) v' st = (r, st1)" by (cases "resolve_verdict c clk (p_id p) v' st")
    note one = calm_verdict [OF b(1) c Cons.prems(2) stored live(2) r]
    have "in_book c st1 ps"
      by (rule in_book_Cons [OF Cons.prems(1) judge_one [OF Cons.prems(1) c _ r]])
        (use validate_just [OF Cons.prems(4)] v Some in blast)
    with that [of st1] one Some v r Cons.prems(5) show thesis by (simp add: validated_def)
  qed
  have rest: "book c st' (p_id p) = book c st1 (p_id p)"
    using changes_other [OF _ out] judge_all_changes [OF st1(1) c ok1 st1(4)] by blast
  from Cons.IH [OF st1(1,2) live(1) ok1 st1(4)] st1(3) rest Cons.prems(4) show ?case by auto
qed

lemma tick_calm:
  assumes gd: "good c st" and c: "codec_ok c" and calm: "calm st" and rd: "ready s" and perm: "\<forall>ps. mset (schedule ps) = mset ps"
    and run: "run_tick validate begin_tick schedule c clk now timeout s st = (s', st')"
    and b: "book c st pid = Some p" and live: "p_status p \<in> {Submitted, Active}" and due: "\<not> p_valid_until p < u256_of now"
  shows "calm st' \<and> good c st' \<and> (\<exists>sp. ok sp \<and> book c st' pid = Some (validated validate sp p))"
proof -
  obtain r1 st1 where r1: "release_stale_executing c clk timeout st = (r1, st1)" by (cases "release_stale_executing c clk timeout st")
  have c1: "calm st1" using healthyD [OF healthy_release calm r1] by blast
  have g1: "good c st1" and b1: "book c st1 = book c st \<or> book c st1 = released_book c clk timeout st"
    using wpD [OF wp_release_stale_executing [OF gd c] r1] by (auto simp: same_state_def book_def split: sum.splits)
  have p1: "book c st1 pid = Some p" using b1 b live by (auto simp: released_book_def overdue_def)
  have id: "p_id p = pid" using book_id [OF gd b] .
  obtain ps st2 where r2: "snapshot_by_statuses c [Submitted, Active] st1 = (Inr ps, st2)" and g2: "good c st2" "calm st2"
      and same: "same_state st1 st2" and lv: "stored_where c st1 (\<lambda>q. p_status q \<in> set [Submitted, Active]) ps"
    using calm_snapshot [OF g1 c1] by blast
  have b2: "book c st2 = book c st1" using same by (simp add: same_state_def book_def)
  have mem: "q \<in> set ps \<longleftrightarrow> book c st2 (p_id q) = Some q \<and> p_status q \<in> {Submitted, Active}" for q
    using lv b2 by (auto simp: stored_where_def)
  have ib: "in_book c st2 ps" using g2 mem lv by (simp add: in_book_def stored_where_def)
  obtain keep st3 where k: "expire_all clk (u256_of now) ps st2 = (keep, st3)" by (cases "expire_all clk (u256_of now) ps st2")
  note ex = expire_all_changes [OF ib c k] and exc = expire_all_calm [OF ib c g2(2) k]
  have sk: "mset (schedule keep) = mset keep" using perm by simp
  then have "mset (map p_id (schedule keep)) = mset (map p_id keep)" by simp
  then have "distinct (map p_id (schedule keep))" using ex by (metis in_book_def mset_eq_imp_distinct_iff)
  then have ibk: "in_book c st3 (schedule keep)" using ex mset_eq_setD [OF sk] by (simp add: in_book_def)
  have lk: "\<forall>p\<in>set (schedule keep). p_status p \<in> {Submitted, Active}" using mset_eq_setD [OF sk] ex mem by auto
  have j: "judge_all validate c clk (schedule keep) (begin_tick s) st3 = (s', st')"
    using run r1 r2 k by (simp add: run_tick_def)
  note ju = judge_all_calm [OF ibk c _ lk begin_ok [OF rd] j]
  have "p \<in> set ps" using mem [of p] p1 b2 id live by simp
  then have "p \<in> set (schedule keep)" using mset_eq_setD [OF sk] ex due by auto
  with ju exc id show ?thesis by blast
qed

end

subsection \<open>What is acceptable is accepted\<close>

text \<open>The calls made for a proposal are answered and the facts are in its favour: the verdict it deserves
  carries \<open>sim\<close>.\<close>

definition acceptable :: "validator_config \<Rightarrow> u64 \<Rightarrow> facts \<Rightarrow> world \<Rightarrow> proposal \<Rightarrow> simulation_outcome \<Rightarrow> bool" where
  "acceptable cfg gp t w p sim \<longleftrightarrow>
     w_effective_balance w (p_sub_solver p) = Inr (f_balance t (p_sub_solver p)) \<and>
     w_address_of w (p_sub_solver p) = Inr (f_trampoline t (p_sub_solver p)) \<and>
     w_authenticator w = Inr (f_authenticator t) \<and>
     threshold cfg gp \<le> f_balance t (p_sub_solver p) \<and>
     (\<exists>dto gas r. read_reply (w_order w (p_order_uid p)) = Inr dto \<and> r = into_record dto \<and>
        check_envelope r p = Inr () \<and> w_estimate_gas w (true_simulation cfg t r p) = Inr gas \<and> i64_of_u64 gas \<noteq> None \<and>
        (p_status p \<noteq> Submitted \<or> profitable cfg gp w r p gas) \<and>
        sim = \<lparr>so_gas_used = gas, so_trampoline = trampoline_fact t p,
          so_sell_token = co_sell_token (or_order r), so_buy_token = co_buy_token (or_order r)\<rparr>)"

lemma balance_answers:
  "coherent cfg t ca \<Longrightarrow> w_effective_balance w a = Inr (f_balance t a) \<Longrightarrow> \<exists>ca'. get_balance w a ca = (Inr (f_balance t a), ca')"
  by (auto simp: get_balance_def coherent_def split: option.splits)

lemma order_answers:
  assumes "coherent cfg t ca" and "honest t w" and "read_reply (w_order w uid) = Inr dto"
  shows "\<exists>orders. fetch_order (vc_cache_capacity cfg) (w_order w) uid (ca_orders ca) = (Inr (into_record dto), orders)"
proof -
  have "f_order t uid = Some (into_record dto)" using assms(2,3) by (simp add: honest_def replies_honestly_def)
  with assms(1,3) show ?thesis
    by (auto simp: fetch_order_def coherent_def cache_coherent_def Let_def split: option.splits)
qed

lemma trampoline_answers:
  assumes "coherent cfg t ca" and "w_address_of w (p_sub_solver p) = Inr (f_trampoline t (p_sub_solver p))"
  shows "\<exists>ca'. trampoline_for w p ca = (Inr (trampoline_fact t p), ca')"
  using assms by (auto simp: trampoline_for_def resolve_trampoline_def trampoline_fact_def coherent_def split: option.splits)

lemma authenticator_answers:
  "coherent cfg t ca \<Longrightarrow> w_authenticator w = Inr (f_authenticator t) \<Longrightarrow>
     \<exists>ca'. resolve_authenticator w ca = (Inr (f_authenticator t), ca')"
  by (auto simp: resolve_authenticator_def coherent_def split: option.splits)

lemma estimate_accepts:
  assumes "w_estimate_gas w (true_simulation cfg t r p) = Inr gas" and "i64_of_u64 gas \<noteq> None"
    and "p_status p \<noteq> Submitted \<or> profitable cfg gp w r p gas"
  shows "judge_estimate cfg gp w p r (trampoline_fact t p) (f_authenticator t) =
    Some (Accept (Some \<lparr>so_gas_used = gas, so_trampoline = trampoline_fact t p,
      so_sell_token = co_sell_token (or_order r), so_buy_token = co_buy_token (or_order r)\<rparr>))"
proof (cases "p_status p = Submitted")
  case True
  with assms(3) have "profitability cfg gp w p r gas = Some (Inr ())"
    by (auto simp: profitable_def answered_price_def profitability_def not_le [symmetric])
  with assms True show ?thesis by (simp add: judge_estimate_def true_simulation_def Let_def)
qed (use assms in \<open>simp add: judge_estimate_def true_simulation_def Let_def\<close>)

lemma acceptable_accepted:
  assumes co: "coherent cfg t ca" and h: "honest t w" and cap: "0 < vc_cache_capacity cfg"
    and ok: "acceptable cfg gp t w p sim"
  shows "fst (validate_proposal cfg gp w p ca) = Some (Accept (Some sim))"
proof -
  obtain dto gas r where r: "read_reply (w_order w (p_order_uid p)) = Inr dto" "r = into_record dto"
      "check_envelope r p = Inr ()" "w_estimate_gas w (true_simulation cfg t r p) = Inr gas" "i64_of_u64 gas \<noteq> None"
      "p_status p \<noteq> Submitted \<or> profitable cfg gp w r p gas"
      "sim = \<lparr>so_gas_used = gas, so_trampoline = trampoline_fact t p,
          so_sell_token = co_sell_token (or_order r), so_buy_token = co_buy_token (or_order r)\<rparr>"
    using ok unfolding acceptable_def by (elim conjE exE)
  have a: "w_effective_balance w (p_sub_solver p) = Inr (f_balance t (p_sub_solver p))"
      "w_address_of w (p_sub_solver p) = Inr (f_trampoline t (p_sub_solver p))"
      "w_authenticator w = Inr (f_authenticator t)" "threshold cfg gp \<le> f_balance t (p_sub_solver p)"
    using ok by (simp_all add: acceptable_def)
  obtain ca1 where b: "get_balance w (p_sub_solver p) ca = (Inr (f_balance t (p_sub_solver p)), ca1)"
    using balance_answers [OF co a(1)] by blast
  have co1: "coherent cfg t ca1" using get_balance_fact [OF co h b] by blast
  obtain orders where o: "fetch_order (vc_cache_capacity cfg) (w_order w) (p_order_uid p) (ca_orders ca1) = (Inr r, orders)"
    using order_answers [OF co1 h r(1)] r(2) by blast
  have co2: "coherent cfg t (ca1\<lparr>ca_orders := orders\<rparr>)" using fetch_order_fact(1) [OF co1 h cap o] .
  obtain ca3 where tr: "trampoline_for w p (ca1\<lparr>ca_orders := orders\<rparr>) = (Inr (trampoline_fact t p), ca3)"
    using trampoline_answers [OF co2 a(2)] by blast
  have co3: "coherent cfg t ca3" using trampoline_for_fact [OF co2 h tr] by blast
  obtain ca4 where au: "resolve_authenticator w ca3 = (Inr (f_authenticator t), ca4)"
    using authenticator_answers [OF co3 a(3)] by blast
  have "validate_simulation cfg gp w p ca1 = (Some (Accept (Some sim)), ca4)"
    using o r(3) tr au estimate_accepts [OF r(4-6)] r(7) by (simp add: validate_simulation_def Let_def)
  then show ?thesis using b a(4) by (simp add: validate_proposal_def validate_escrow_def)
qed

text \<open>A production validator that meets such answers for \<open>p\<close> whenever it validates.\<close>

definition favours :: "validator_config \<Rightarrow> facts \<Rightarrow> proposal \<Rightarrow> simulation_outcome \<Rightarrow> caches \<times> answers \<Rightarrow> bool" where
  "favours cfg t p sim s \<longleftrightarrow> (\<forall>i. acceptable cfg (fst (snd s i)) t (snd (snd s i)) p sim)"

interpretation favoured: tick_validator "production_validate cfg" production_begin
    "\<lambda>s. production_ready cfg t W s \<and> favours cfg t p sim s" "\<lambda>s. production_ok cfg t W s \<and> favours cfg t p sim s"
    "production_just cfg t W" for cfg t W p sim
proof (unfold_locales, goal_cases)
  case (1 s)
  then show ?case using production.begin_ok [of cfg t W s] by (cases s) (auto simp: favours_def)
next
  case (2 s p' v s')
  then show ?case using production.validate_ok [of cfg t W s p' v s']
    by (cases s) (auto simp: favours_def split: prod.splits)
next
  case (3 s p' v s')
  then show ?case using production.validate_just [of cfg t W s p' v s'] by blast
qed

lemma favoured_accepted:
  assumes "production_ok cfg t W s \<and> favours cfg t p sim s"
  shows "validated (production_validate cfg) s p = decided (Accept (Some sim)) p"
proof -
  obtain ca ws where s: "s = (ca, ws)" by (cases s)
  have "fst (validate_proposal cfg (fst (ws 0)) (snd (ws 0)) p ca) = Some (Accept (Some sim))"
    by (rule acceptable_accepted [of cfg t]) (use assms honest_answersD in \<open>auto simp: s production_ok_def favours_def\<close>)
  then show ?thesis by (auto simp: s validated_def split: prod.splits)
qed

subsection \<open>Every order with a biddable proposal is bid for\<close>

lemma calm_read:
  assumes gd: "good c st" and c: "codec_ok c" and "calm st"
  obtains by_order st' where "active_by_order_uids c uids st = (Inr by_order, st')" "calm st'"
proof -
  have "healthy (active_by_order_uids c uids)"
    unfolding active_by_order_uids_def by (intro healthy_rules)
  moreover obtain r st' where run: "active_by_order_uids c uids st = (r, st')" by (cases "active_by_order_uids c uids st")
  ultimately have h: "calm st'" "\<forall>x. r \<noteq> Inl (Database x)" using healthyD assms(3) by blast+
  from wpD [OF wp_active_by_order_uids [OF gd c] run] h that run show thesis
    by (cases r) (auto simp: read_result_def)
qed

lemma calm_record:
  assumes gd: "good c st" and "calm st" and "book c st pid \<noteq> None" and run: "record_solution a s pid st = (r, st')"
  shows "r = Inr () \<and> calm st'"
proof -
  obtain i where i: "i64_of_u64 (pid_raw pid) = Some i" using assms(3) by (cases "i64_of_u64 (pid_raw pid)") (auto simp: book_def proposal_at_def)
  have "db_ok c (st_db st)" using gd by (simp add: good_def)
  with assms(3) i have "find_row i (st_db st) \<noteq> None" by (simp add: book_def proposal_at_None_iff)
  then have "\<exists>d. upsert_solution a s i (st_db st) = Inr ((), d)" by (simp add: upsert_solution_def Let_def)
  with run assms(2) i show ?thesis
    by (auto simp: record_solution_def act_def lift_def as_db_id_def calm_stmt calm_def)
qed

definition served_order :: "codec \<Rightarrow> abi \<Rightarrow> auction \<Rightarrow> u256 \<Rightarrow> store \<Rightarrow> solution list \<Rightarrow> auction_order \<Rightarrow> bool" where
  "served_order c e a now st sols ord \<longleftrightarrow> (\<exists>sol\<in>set sols. \<exists>p. bids c e a now st sol ord p)"

lemma solve_orders_served:
  assumes "solving c e a now st0 sols st" and "calm st" and "set ords \<subseteq> set (au_orders a)"
    and "length sols + length ords < 2 ^ 63 - 1"
    and by_order: "\<And>uid ps. by_order uid = Some ps \<Longrightarrow>
      stored_where c st0 (\<lambda>q. p_order_uid q = uid \<and> p_status q = Active) ps"
    and tr: "\<And>q. book c st0 (p_id q) = Some q \<Longrightarrow> p_status q = Active \<Longrightarrow> p_trampoline q \<noteq> None"
  shows "\<exists>sols' st'. solve_orders e a now by_order ords sols st = Some (sols', st') \<and> set sols \<subseteq> set sols' \<and>
    (\<forall>ord\<in>set ords. Option.bind (by_order (ao_uid ord)) (best_for a ord now) \<noteq> None \<longrightarrow> served_order c e a now st0 sols' ord)"
  using assms(1-4)
proof (induction ords arbitrary: sols st)
  case Nil
  then show ?case by simp
next
  case (Cons ord ords)
  show ?case
  proof (cases "Option.bind (by_order (ao_uid ord)) (best_for a ord now)")
    case None
    with Cons.IH [OF Cons.prems(1,2)] Cons.prems(3,4) show ?thesis by (auto split: option.splits)
  next
    case (Some pick)
    obtain p gas gcut score where pick: "pick = (p, gas, gcut, score)" by (cases pick)
    from Some obtain ps where ps: "by_order (ao_uid ord) = Some ps" "best_for a ord now ps = Some (p, gas, gcut, score)"
      unfolding pick by (auto simp: bind_eq_Some_conv)
    note best = best_for_Some [OF ps(2)]
    have stored: "set ps = {q. book c st0 (p_id q) = Some q \<and> p_order_uid q = ao_uid ord \<and> p_status q = Active}"
      using by_order [OF ps(1)] by (simp add: stored_where_def)
    then have p: "book c st0 (p_id p) = Some p" "p_status p = Active" using best by auto
    let ?i = "word_of_nat (length sols) + 1 :: u64"
    obtain sol where sol: "build_solution e ?i ord p gas gcut = Some sol"
      using tr [OF p] by (auto simp: build_solution_def)
    have b: "bids c e a now st0 sol ord p"
      using best stored sol build_solution_id [OF sol] Cons.prems(3) by (auto simp: bids_def)
    have len: "length sols < 2 ^ 63 - 1" using Cons.prems(4) by simp
    have "uint ?i = int (Suc (length sols))" using uint_word_of_nat_u64 [of "Suc (length sols)"] len
      by (simp add: add.commute)
    then obtain sid where sid: "i64_of_u64 ?i = Some sid" using len by (simp add: i64_of_u64_def)
    note pushed = solving_push [OF Cons.prems(1) len refl sid b build_solution_id [OF sol]]
    obtain st1 where st1: "solving c e a now st0 (sols @ [sol]) st1" "calm st1"
      "solve_orders e a now by_order (ord # ords) sols st = solve_orders e a now by_order ords (sols @ [sol]) st1"
    proof (cases "au_id a")
      case None
      with that [of st] pushed Cons.prems(2) ps sol sid show thesis by simp
    next
      case au: (Some auction_id)
      obtain r st1 where run: "record_solution auction_id sid (p_id p) st = (r, st1)"
        by (cases "record_solution auction_id sid (p_id p) st")
      have g: "good c st" "book c st (p_id p) \<noteq> None" using Cons.prems(1) p(1) by (simp_all add: solving_def)
      note rec = calm_record [OF g(1) Cons.prems(2) g(2) run] and spec = wpD [OF wp_record_solution [OF g(1)] run]
      with pushed au have "solving c e a now st0 (sols @ [sol]) st1" by simp
      with that [of st1] rec run ps sol sid au show thesis by simp
    qed
    have "length (sols @ [sol]) + length ords < 2 ^ 63 - 1" using Cons.prems(4) by simp
    with Cons.IH [OF st1(1,2)] Cons.prems(3) obtain sols' st' where
      rest: "solve_orders e a now by_order ords (sols @ [sol]) st1 = Some (sols', st')" "set (sols @ [sol]) \<subseteq> set sols'"
        "\<forall>ord\<in>set ords. Option.bind (by_order (ao_uid ord)) (best_for a ord now) \<noteq> None \<longrightarrow> served_order c e a now st0 sols' ord"
      by auto
    moreover from this(2) b have "served_order c e a now st0 sols' ord" by (auto simp: served_order_def)
    ultimately show ?thesis using st1(3) by auto
  qed
qed

lemma solve_serves:
  assumes gd: "good c st" and c: "codec_ok c" and calm: "calm st" and now: "unix_secs (wall_now clk) = Some now"
    and len: "length (au_orders a) < 2 ^ 63 - 1" and ord: "ord \<in> set (au_orders a)"
    and tr: "\<And>q. book c st (p_id q) = Some q \<Longrightarrow> p_status q = Active \<Longrightarrow> p_trampoline q \<noteq> None"
    and p: "book c st (p_id p) = Some p" "p_status p = Active" "p_order_uid p = ao_uid ord" "u256_of now < p_valid_until p"
    and r: "ranked a ord p \<noteq> None"
  shows "\<exists>sols gp st'. solve c e clk a gas_price st = Some (sols, gp, st') \<and> served_order c e a (u256_of now) st sols ord"
proof -
  let ?uids = "map ao_uid (au_orders a)"
  obtain by_order st1 where run: "active_by_order_uids c ?uids st = (Inr by_order, st1)" and c1: "calm st1"
    using calm_read [OF gd c calm] by blast
  note spec = wpD [OF wp_active_by_order_uids [OF gd c] run, unfolded read_result_def]
  have sv: "solving c e a (u256_of now) st [] st1"
    using spec by (simp add: solving_def same_state_def book_def numbered_def)
  have grp: "case by_order uid of None \<Rightarrow> uid \<in> set ?uids \<longrightarrow> stored_where c st (\<lambda>q. p_order_uid q = uid \<and> p_status q = Active) []
      | Some ps \<Rightarrow> uid \<in> set ?uids \<and> ps \<noteq> [] \<and> stored_where c st (\<lambda>q. p_order_uid q = uid \<and> p_status q = Active) ps" for uid
    using spec by simp
  have st_ps: "stored_where c st (\<lambda>q. p_order_uid q = uid \<and> p_status q = Active) ps" if "by_order uid = Some ps" for uid ps
    using grp [of uid] that by simp
  obtain sols st' where so: "solve_orders e a (u256_of now) by_order (au_orders a) [] st1 = Some (sols, st')"
      "Option.bind (by_order (ao_uid ord)) (best_for a ord (u256_of now)) \<noteq> None \<longrightarrow> served_order c e a (u256_of now) st sols ord"
    using solve_orders_served [where by_order = by_order, OF sv c1 subset_refl _ st_ps tr] len ord by fastforce
  have "ao_uid ord \<in> set ?uids" using ord by simp
  with grp [of "ao_uid ord"] p(1-3) obtain ps where ps: "by_order (ao_uid ord) = Some ps" "p \<in> set ps"
    by (cases "by_order (ao_uid ord)") (auto simp: stored_where_def)
  obtain y where "ranked a ord p = Some y" using r by blast
  then have "y \<in> set (List.map_filter (ranked a ord) (filter (\<lambda>p. u256_of now < p_valid_until p) ps))"
    using ps(2) p(4) by (auto simp: mem_map_filter)
  then have "best_for a ord (u256_of now) ps \<noteq> None" by (auto simp: best_for_def max_by_key_None_iff)
  with so ps(1) run now show ?thesis by (simp add: solve_def)
qed

subsection \<open>From the facts to the bid\<close>

text \<open>Accepted proposals know their trampoline, before a tick and after it.\<close>

definition trampolines_known :: "codec \<Rightarrow> store \<Rightarrow> bool" where
  "trampolines_known c st \<longleftrightarrow>
     (\<forall>pid q. book c st pid = Some q \<longrightarrow> p_status q \<in> {Active, Executing} \<longrightarrow> p_trampoline q \<noteq> None)"

lemma judged_trampoline:
  assumes "judged (production_just cfg t W) p q" and "p_status q = Active"
  shows "p_trampoline q \<noteq> None"
proof -
  obtain v where j: "production_just cfg t W p v" "case verdict_parts v of (to, reason, sim) \<Rightarrow> q = with_verdict to reason sim p"
    using assms(1) by (auto simp: judged_def)
  obtain to reason sim where parts: "verdict_parts v = (to, reason, sim)" by (cases "verdict_parts v")
  with j have v: "production_just cfg t W p v" "verdict_parts v = (to, reason, sim)" "q = with_verdict to reason sim p"
    by simp_all
  then obtain sim' where "v = Accept sim'" "sim = sim'" using assms(2) by (cases v) (auto simp: with_verdict_def)
  with v show ?thesis by (auto simp: production_just_def justified_def with_verdict_def coalesce_def)
qed

lemma tick_trampolines:
  assumes "good c st" and "codec_ok c" and "production_ready cfg t W s" and "\<forall>ps. mset (schedule ps) = mset ps"
    and "run_tick (production_validate cfg) production_begin schedule c clk now timeout s st = (s', st')"
    and tr: "trampolines_known c st" and q: "book c st' (p_id q) = Some q" "p_status q = Active"
  shows "p_trampoline q \<noteq> None"
proof -
  obtain b where b: "b = book c st \<or> b = released_book c clk timeout st"
      and tk: "ticked (production_just cfg t W) (u256_of now) b (book c st')"
    using production.tick_result [OF assms(1-3) _ assms(5)] assms(4) by blast
  have old: "p_trampoline p \<noteq> None" if "b pid = Some p" "p_status p \<in> {Active, Executing}" for pid p
    using b tr that unfolding trampolines_known_def
    by (auto simp: released_book_def overdue_def with_status_def split: if_splits)
  consider "b (p_id q) = Some q" | p where "if p_valid_until p < u256_of now then q = with_status Expired p
      else judged (production_just cfg t W) p q"
    using tk q(1) unfolding ticked_def by (metis option.inject)
  then show ?thesis
  proof cases
    case 1
    with old q(2) show ?thesis by simp
  next
    case (2 p)
    with judged_trampoline q(2) show ?thesis by (auto simp: with_status_def split: if_splits)
  qed
qed

text \<open>C3. An acceptable proposal is bid, or beaten. Let the database answer, and let the calls made for a
  live, unexpired proposal be answered with facts in its favour: funded escrow, a known order in the
  envelope, a settlement that simulates, a profitable score. One tick of the validation loop later, the
  next \<open>/solve\<close> whose auction carries the order - while the proposal is unexpired and, at the auction's
  prices, eligible with some score - answers with a solution for that order, built from this proposal
  or from one that scores at least as high.\<close>

theorem acceptable_proposal_is_bid:
  assumes "good c st" and "codec_ok c" and "st_faults st = []" and "trampolines_known c st"
    and "production_ready cfg t W s" and "favours cfg t p sim s" and "\<forall>ps. mset (schedule ps) = mset ps"
    and "run_tick (production_validate cfg) production_begin schedule c clk now timeout s st = (s', st1)"
    and "book c st pid = Some p" and "p_status p \<in> {Submitted, Active}" and "u256_of now \<le> p_valid_until p"
    and "unix_secs (wall_now clk') = Some now'" and "u256_of now' < p_valid_until p"
    and "length (au_orders a) < 2 ^ 63 - 1" and "ord \<in> set (au_orders a)" and "ao_uid ord = p_order_uid p"
    and "ranked a ord (decided (Accept (Some sim)) p) = Some (q, gas, gcut, score)"
  shows "book c st1 pid = Some (decided (Accept (Some sim)) p) \<and>
    (\<exists>sols gp st2. solve c e clk' a gas_price st1 = Some (sols, gp, st2) \<and>
       (\<exists>sol\<in>set sols. \<exists>best. bids c e a (u256_of now') st1 sol ord best \<and>
          (case ranked a ord best of None \<Rightarrow> False | Some (_, _, _, best_score) \<Rightarrow> score \<le> best_score)))"
proof -
  let ?p = "decided (Accept (Some sim)) p"
  have calm: "calm st" using assms(3) by (simp add: calm_def)
  have ready: "production_ready cfg t W s \<and> favours cfg t p sim s" using assms(5,6) by simp
  have due: "\<not> p_valid_until p < u256_of now" using assms(11) by simp
  have tick: "calm st1" "good c st1" "book c st1 pid = Some ?p"
    using favoured.tick_calm [OF assms(1,2) calm ready assms(7,8,9,10) due] favoured_accepted by auto
  have p: "p_id ?p = pid" "p_status ?p = Active" "p_order_uid ?p = ao_uid ord" "u256_of now' < p_valid_until ?p"
    using book_id [OF assms(1,9)] assms(13,16) by (simp_all add: decided_def with_verdict_def)
  have tr: "\<And>q. book c st1 (p_id q) = Some q \<Longrightarrow> p_status q = Active \<Longrightarrow> p_trampoline q \<noteq> None"
    using tick_trampolines [OF assms(1,2,5,7,8,4)] .
  have "book c st1 (p_id ?p) = Some ?p" using tick(3) p(1) by simp
  from solve_serves [OF tick(2) assms(2) tick(1) assms(12,14,15) tr this p(2,3,4), of e gas_price] assms(17)
  obtain sols gp st2 sol best where s: "solve c e clk' a gas_price st1 = Some (sols, gp, st2)" "sol \<in> set sols"
      and b: "bids c e a (u256_of now') st1 sol ord best" by (auto simp: served_order_def)
  obtain bgas bcut best_score where rb: "ranked a ord best = Some (best, bgas, bcut, best_score)"
    and all: "\<And>q. book c st1 (p_id q) = Some q \<Longrightarrow> p_order_uid q = ao_uid ord \<Longrightarrow> p_status q = Active \<Longrightarrow>
      u256_of now' < p_valid_until q \<Longrightarrow> (case ranked a ord q of None \<Rightarrow> True | Some (_, _, _, s) \<Rightarrow> s \<le> best_score)"
    using b unfolding bids_def by blast
  have "score \<le> best_score" using all [of ?p] tick(3) p assms(17) by simp
  with tick(3) s b rb show ?thesis by (intro conjI exI bexI) auto
qed

subsection \<open>A concrete passage\<close>

text \<open>A rich sub-solver, an orderbook that knows the order, a node on which it settles for 100000 gas.\<close>

definition kind_order :: order_dto where
  "kind_order = \<lparr>od_receiver = Some 44, od_sell_token = 21, od_buy_token = 22, od_sell_amount = 1000000,
     od_buy_amount = 900000, od_fee_amount = 0, od_valid_to = 1700000000, od_app_data = 0, od_kind = Sell,
     od_partially_fillable = False, od_sell_token_balance = ''erc20'', od_buy_token_balance = ''erc20'',
     od_signing_scheme = Eip712, od_signature = [7], od_pre = [], od_post = []\<rparr>"

definition kind_world :: world where
  "kind_world = poor_world\<lparr>w_effective_balance := \<lambda>_. Inr 100000000, w_order := \<lambda>_. Reply 200 (Some kind_order),
     w_price := \<lambda>_. Reply 200 (Some 0), w_times_1e18 := \<lambda>_. 5000000000000000000\<rparr>"

definition kind_facts :: facts where
  "kind_facts = poor_facts\<lparr>f_balance := \<lambda>_. 100000000, f_order := \<lambda>_. Some (into_record kind_order)\<rparr>"

definition kind_outcome :: simulation_outcome where
  "kind_outcome = \<lparr>so_gas_used = 100000, so_trampoline = 3, so_sell_token = 21, so_buy_token = 22\<rparr>"

text \<open>The fields of a proposal that decide it there.\<close>

definition kind_proposal :: "proposal \<Rightarrow> bool" where
  "kind_proposal p \<longleftrightarrow> p_order_uid p = sample_uid \<and> p_sell_amount p = 1000000 \<and> p_buy_amount p = 950000 \<and>
     p_status p = Submitted \<and> p_trampoline p = None"

lemma kind_acceptable:
  assumes "kind_proposal p"
  shows "acceptable trading_config 1 kind_facts kind_world p kind_outcome"
proof -
  note p = assms [unfolded kind_proposal_def]
  have env: "check_envelope (into_record kind_order) p = Inr ()"
    using p by (simp add: check_envelope_def check_fill_or_kill_def into_record_def kind_order_def)
  have price: "native_price (w_times_1e18 kind_world) (w_price kind_world) 22 = Inr 5000000000000000000"
    by (simp add: native_price_def kind_world_def read_reply_def and_then_def f64_is_finite_def f64_negative_def u256_of_def)
  have "order_score (into_record kind_order) p 100000 1 5000000000000000000 = Some 120000"
    using p by (simp add: order_score_def into_record_def kind_order_def candidate_of_def scaled_to_fill_def
        effective_gas_def GAS_BUFFER_def saturating_add_def saturating_mul_def u256_of_def
        checked_sub_def checked_mul_def checked_div_def div_ceil_def ETHER_def surplus_token_def Let_def)
  with price have "profitable trading_config 1 kind_world (into_record kind_order) p 100000"
    by (simp add: profitable_def answered_price_def into_record_def kind_order_def surplus_token_def trading_config_def sample_config_def)
  with env p show ?thesis unfolding acceptable_def
    by (simp add: kind_world_def kind_facts_def poor_world_def poor_facts_def read_reply_def threshold_def trading_config_def
        sample_config_def ESCROW_GAS_ESTIMATION_def saturating_add_def saturating_mul_def u256_of_def kind_outcome_def
        trampoline_fact_def into_record_def kind_order_def i64_of_u64_def)
qed

lemma kind_ranked:
  assumes "kind_proposal p"
  shows "ranked sample_auction sample_order (decided (Accept (Some kind_outcome)) p)
     = Some (decided (Accept (Some kind_outcome)) p, 100000, \<lparr>gc_amount = 26000, gc_executed_amount = 974000\<rparr>, 120000)"
  using assms
  by (simp add: kind_proposal_def ranked_def sample_order_def decided_def with_verdict_def kind_outcome_def coalesce_def
      coalesce_to_def stored_gas_def saturated_gas_def i64_of_u64_def exceeds_remaining_def Let_def
      auction_candidate_def scaled_to_fill_def effective_gas_def GAS_BUFFER_def sample_auction_def price_of_def
      saturating_add_def saturating_mul_def u256_of_def surplus_token_def checked_sub_def checked_mul_def
      checked_div_def div_ceil_def ETHER_def)

lemma sample_kind: "kind_proposal sample_proposal"
  by (simp add: kind_proposal_def sample_proposal_def)

text \<open>The production validator in that world.\<close>

definition kind_answers :: "(u64 \<times> world) set" where
  "kind_answers = {(1, kind_world)}"

abbreviation kind_validator :: "caches \<times> answers" where
  "kind_validator \<equiv> (no_caches, \<lambda>_. (1, kind_world))"

lemma kind_ready: "production_ready trading_config kind_facts kind_answers kind_validator"
  by (simp add: production_ready_def honest_answers_def kind_answers_def coherent_def clear_cache_def no_caches_def cache_coherent_def cache_ok_def
      trading_config_def sample_config_def CACHE_CAPACITY_def honest_def kind_facts_def kind_world_def poor_facts_def
      poor_world_def replies_honestly_def read_reply_def)

lemma kind_favours: "kind_proposal p \<Longrightarrow> favours trading_config kind_facts p kind_outcome kind_validator"
  using kind_acceptable by (simp add: favours_def)

lemma kind_auction:
  "unix_secs (wall_now sample_clock) = Some 600" "length (au_orders sample_auction) < 2 ^ 63 - 1"
  "sample_order \<in> set (au_orders sample_auction)" "ao_uid sample_order = sample_uid"
  by (simp_all add: unix_secs_def sample_clock_def sample_auction_def sample_order_def)

lemma book_sample_only: "pid \<noteq> ProposalId 1 \<Longrightarrow> book std_codec (stored_sample s) pid = None"
proof (cases pid)
  case (ProposalId x)
  assume "pid \<noteq> ProposalId 1"
  with ProposalId have "i64_of_u64 x \<noteq> Some 1" by (auto simp: i64_of_u64_def word_uint_eq_iff split: if_splits)
  then show ?thesis
    by (cases "i64_of_u64 x") (auto simp: ProposalId book_def proposal_at_def find_row_def stored_sample_def insert_row_def)
qed

theorem acceptable_proposal_is_bid_witness:
  "\<exists>s' st1 sols gp st2 sol. run_tick (production_validate trading_config) production_begin (\<lambda>ps. ps) std_codec sample_clock
      5 60 kind_validator (stored_sample Submitted) = (s', st1) \<and>
     solve std_codec toy_abi sample_clock sample_auction 0 st1 = Some (sols, gp, st2) \<and> sol \<in> set sols"
proof -
  obtain s' st1 where run: "run_tick (production_validate trading_config) production_begin (\<lambda>ps. ps) std_codec sample_clock
      5 60 kind_validator (stored_sample Submitted) = (s', st1)"
    by (cases "run_tick (production_validate trading_config) production_begin (\<lambda>ps. ps) std_codec sample_clock
      5 60 kind_validator (stored_sample Submitted)")
  have "p_status q = Submitted" if "book std_codec (stored_sample Submitted) pid = Some q" for pid q
    using that book_sample [of Submitted] book_sample_only [of pid Submitted] by (cases "pid = ProposalId 1") auto
  then have tr: "trampolines_known std_codec (stored_sample Submitted)" by (fastforce simp: trampolines_known_def)
  have stored: "book std_codec (stored_sample Submitted) (ProposalId 1) = Some sample_proposal"
    using book_sample [of Submitted] by (simp add: sample_proposal_def)
  have p: "p_status sample_proposal \<in> {Submitted, Active}" "u256_of (5::u64) \<le> p_valid_until sample_proposal"
      "u256_of (600::u64) < p_valid_until sample_proposal" "ao_uid sample_order = p_order_uid sample_proposal"
    by (simp_all add: sample_proposal_def u256_of_def sample_order_def)
  have perm: "\<forall>ps :: proposal list. mset ps = mset ps" by simp
  note bid = acceptable_proposal_is_bid [OF sample_facts sample_calm tr kind_ready kind_favours [OF sample_kind] perm run
      stored p(1,2) kind_auction(1) p(3) kind_auction(2,3) p(4) kind_ranked [OF sample_kind], THEN conjunct2, of toy_abi 0]
  then obtain sols gp st2 sol where "solve std_codec toy_abi sample_clock sample_auction 0 st1 = Some (sols, gp, st2)"
      "sol \<in> set sols" by blast
  with run show ?thesis by (intro exI conjI)
qed

end
