(* ===== verification/Deployed.thy ===== *)
theory Deployed
  imports Progress
begin

text \<open>
  The program as \<open>run.rs\<close> starts it. \<open>Process\<close> computes from the arguments which tasks run and with which
  settings, \<open>Program\<close> says what listeners and loops do: here the loops are the tasks of the process, and
  what holds of the program becomes a statement about what goes over the wire for given arguments.
\<close>

text \<open>A background that does what a task was spawned to do. A production validator starts with empty
  caches.\<close>

fun carries_out :: "(caches \<times> answers, 'e) background \<Rightarrow> task \<Rightarrow> bool" where
  "carries_out bg WriterTask \<longleftrightarrow> True"
| "carries_out bg (PenaltyTask operator_key escrow period c_l) \<longleftrightarrow> bg_collateral bg = c_l"
| "carries_out bg (ValidationTask AcceptAllChosen period timeout) \<longleftrightarrow>
     bg_validate bg = accept_all \<and> bg_begin_tick bg = (\<lambda>s. s) \<and> bg_executing_timeout bg = timeout"
| "carries_out bg (ValidationTask (ProductionChosen cfg orderbook_url factory) period timeout) \<longleftrightarrow>
     bg_validate bg = production_validate cfg \<and> bg_begin_tick bg = production_begin \<and>
     (\<forall>v. bg_boots bg v \<longrightarrow> fst v = no_caches) \<and> bg_executing_timeout bg = timeout"
| "carries_out bg (RetentionTask period dropped_retention) \<longleftrightarrow> bg_retention bg = dropped_retention"

text \<open>The listeners and the loops of a process that serves.\<close>

definition deployed ::
  "arguments \<Rightarrow> environment \<Rightarrow> process \<Rightarrow> deployment \<Rightarrow> (caches \<times> answers, 'e) background \<Rightarrow> bool" where
  "deployed args env p dp bg \<longleftrightarrow> list_all (carries_out bg) (pr_tasks p) \<and>
     dp_app dp = state_of (byos_domain (ar_chain_id args) (ar_trampoline_factory args)) args \<and>
     dp_abi dp = en_abi env \<and> bg_token bg = ar_solve_bearer_token args \<and> bg_gas_price bg = initial_gas_price args"

text \<open>With a node configured, the validator is the production one, with these settings.\<close>

definition configured :: "arguments \<Rightarrow> environment \<Rightarrow> validator_config \<Rightarrow> bool" where
  "configured args env cfg \<longleftrightarrow> ar_settlement_address args = Some (vc_settlement cfg) \<and>
     ar_escrow_address args = Some (vc_escrow cfg) \<and>
     map_option u256_of (ar_min_collateral args) = Some (vc_min_collateral cfg) \<and>
     vc_min_score cfg = u256_of (ar_min_proposal_score args) \<and> vc_cache_capacity cfg = CACHE_CAPACITY \<and> vc_abi cfg = en_abi env"

lemma start_loops_validates:
  assumes "start_loops args env p = Some (Inr (v, penalty), p')" and "ar_rpc_url args \<noteq> None"
  shows "\<exists>cfg url factory period timeout. configured args env cfg \<and>
    v = ValidationTask (ProductionChosen cfg url factory) period timeout \<and> v \<in> set (pr_tasks p')"
proof -
  obtain rpc_url where rpc: "ar_rpc_url args = Some rpc_url" using assms(2) by blast
  with assms(1) obtain escrow c_l settlement url where given: "ar_escrow_address args = Some escrow"
      "ar_min_collateral args = Some c_l" "ar_settlement_address args = Some settlement" "ar_orderbook_url args = Some url"
    by (auto simp: start_loops_def bind_eq_Some_conv Let_def split: if_splits)
  let ?cfg = "\<lparr>vc_settlement = settlement, vc_escrow = escrow, vc_min_collateral = u256_of c_l,
      vc_min_score = u256_of (ar_min_proposal_score args), vc_cache_capacity = CACHE_CAPACITY, vc_abi = en_abi env,
      vc_keccak = en_keccak env\<rparr>"
  have "configured args env ?cfg" using given by (simp add: configured_def)
  moreover have "v = ValidationTask (ProductionChosen ?cfg url (ar_trampoline_factory args)) (ar_validation_interval_secs args)
      (ar_executing_timeout args) \<and> v \<in> set (pr_tasks p')"
    using assms(1) rpc given by (auto simp: start_loops_def Let_def split: if_splits)
  ultimately show ?thesis by blast
qed

lemma serving_validates:
  assumes "run_with args env = (ending, Some p, final)" and "ar_rpc_url args \<noteq> None" and "deployed args env p dp bg"
  obtains cfg where "configured args env cfg" "bg_validate bg = production_validate cfg" "bg_begin_tick bg = production_begin"
    "\<forall>v. bg_boots bg v \<longrightarrow> fst v = no_caches"
proof -
  let ?p0 = "hold HeldByListeners \<lparr>pr_tasks = [WriterTask], pr_handles = [HeldByScope], pr_cancelled = []\<rparr>"
  have "\<exists>v penalty p1. start_loops args env ?p0 = Some (Inr (v, penalty), p1) \<and>
      p = spawn (RetentionTask (ar_retention_sweep_interval_secs args) (ar_dropped_retention args)) (release HeldByScope p1)"
    using assms(1) unfolding run_with_def Let_def
    by (simp only: prod.inject option.simps simp_thms split: option.splits sum.splits prod.splits if_splits; blast)
  then obtain v penalty p1 where started: "start_loops args env ?p0 = Some (Inr (v, penalty), p1)"
      and p: "p = spawn (RetentionTask (ar_retention_sweep_interval_secs args) (ar_dropped_retention args)) (release HeldByScope p1)"
    by blast
  from start_loops_validates [OF started assms(2)] obtain cfg url factory period timeout where t: "configured args env cfg"
      "ValidationTask (ProductionChosen cfg url factory) period timeout \<in> set (pr_tasks p)" by (auto simp: p)
  with assms(3) have "carries_out bg (ValidationTask (ProductionChosen cfg url factory) period timeout)"
    unfolding deployed_def list_all_iff by blast
  with t(1) show thesis by (intro that) simp_all
qed

lemma rendered_solutions: "rendered ok f r = (status, SolutionsBody sols) \<Longrightarrow> \<exists>x. f x = SolutionsBody sols"
  by (cases r) (auto simp: rendered_def)

lemma solutions_from_solve:
  assumes "serve_request dp router clk req sh = Some (resp, sh')" and "hs_body resp = SolutionsBody sols"
  shows "\<exists>a gp st'. ex_auction (dp_extract dp) req = Inr a \<and>
    solve (dp_codec dp) (dp_abi dp) clk a (sh_gas_price sh) (sh_store sh) = Some (sols, gp, st')"
proof -
  from assms obtain caps ep status where r: "run_endpoint dp clk req caps sh ep = Some ((status, SolutionsBody sols), sh')"
    by (auto simp: serve_request_def internal_gate_def split: dispatched.splits option.splits if_splits)
  show ?thesis
    by (cases ep) (use r in \<open>auto simp: extracted_def over_store_def split: sum.splits prod.splits dest!: rendered_solutions\<close>)
qed

text \<open>C2. Nothing is bid unsimulated. Start the service with a node configured over an empty database: the
  node and the orderbook may fail at any time and report any balances, but answer truthfully about
  trampolines, the authenticator and orders; \<open>W\<close> is every answer its validators meet. Let it serve any
  requests, make any passes of its loops and restart. Then every proposal stored as accepted was the
  subject of a successful gas estimate of its full settlement among those answers; and whatever response
  carries solutions, each of them is backed by such a proposal and settles on chain what that estimate
  simulated, through the configured settlement contract.\<close>

theorem nothing_bid_unsimulated:
  assumes "codec_ok (dp_codec dp)" and "run_with args env = (ending, Some p, final)" and "ar_rpc_url args \<noteq> None"
    and "deployed args env p dp bg" and "starts \<lparr>s_store = program_store s0, s_held = [], s_charges = []\<rparr>"
    and "bg_boots bg (pg_validator s0)" and "\<forall>v. bg_boots bg v \<longrightarrow> range (snd v) \<subseteq> W" and "\<forall>x\<in>W. lasting_honest t (snd x)"
    and "\<forall>ps. mset (bg_schedule bg ps) = mset ps" and "(program_step dp bg)\<^sup>*\<^sup>* s0 s"
    and "serve_request dp router clk req (pg_shared s) = Some (resp, sh')" and "hs_body resp = SolutionsBody sols"
    and "ex_auction (dp_extract dp) req = Inr a" and "length (au_orders a) < 2 ^ 63 - 1"
    and "\<forall>ord\<in>set (au_orders a). auction_agrees t ord"
  shows "\<exists>cfg. ar_settlement_address args = Some (vc_settlement cfg) \<and>
    (\<forall>pid q. book (dp_codec dp) (program_store s) pid = Some q \<longrightarrow> p_status q \<in> accepted_statuses \<longrightarrow> simulated cfg t W q) \<and>
    (\<forall>sol\<in>set sols. bids_simulation cfg t W sol \<and>
       (\<exists>ord q now. bids (dp_codec dp) (dp_abi dp) a now (program_store s) sol ord q \<and> simulated cfg t W q))"
proof -
  obtain cfg where cfg: "configured args env cfg" "bg_validate bg = production_validate cfg" "bg_begin_tick bg = production_begin"
      "\<forall>v. bg_boots bg v \<longrightarrow> fst v = no_caches"
    using serving_validates [OF assms(2,3,4)] .
  have boots: "\<forall>v. bg_boots bg v \<longrightarrow> lasting_ok cfg t W v"
    using cfg(1,4) assms(7,8)
    by (auto simp: lasting_ok_def lasting_coherent_def no_caches_def cache_coherent_def cache_ok_def configured_def CACHE_CAPACITY_def)
  have abi: "dp_abi dp = vc_abi cfg" using cfg(1) assms(4) by (simp add: configured_def deployed_def)
  obtain gp st' where sol: "solve (dp_codec dp) (vc_abi cfg) clk a (sh_gas_price (pg_shared s)) (program_store s) = Some (sols, gp, st')"
    using solutions_from_solve [OF assms(11,12)] assms(13) abi by auto
  then obtain now where "unix_secs (wall_now clk) = Some now"
    by (cases "unix_secs (wall_now clk)") (simp_all add: solve_def)
  from program_bids_simulated [OF assms(1,5) cfg(2,3) assms(9) boots [rule_format, OF assms(6)] boots assms(10) this assms(14,15) sol]
  show ?thesis using cfg(1) abi unfolding configured_def by (intro exI [of _ cfg]) (simp; blast)
qed

subsection \<open>A run, from the request to the bid\<close>

definition trading_background :: "(caches \<times> answers, nat) background" where
  "trading_background =
     \<lparr>bg_validate = production_validate trading_config, bg_begin_tick = production_begin,
      bg_boots = (\<lambda>v. v = kind_validator), bg_gas_price = 7, bg_schedule = (\<lambda>ps. ps),
      bg_executing_timeout = 300000000, bg_cost = (\<lambda>_ e. (Inr 5, Suc e)), bg_debit = (\<lambda>_ _ _ e. (Inr 9, Suc e)),
      bg_keccak = (\<lambda>_. 0), bg_collateral = 1000, bg_retention = 3600000000, bg_token = Some ''key''\<rparr>"

definition trading_program :: "(caches \<times> answers, nat) program" where
  "trading_program = \<lparr>pg_shared = first_shared, pg_validator = kind_validator, pg_attempts = no_attempts, pg_edge = 0\<rparr>"

lemma trading_starts:
  "starts \<lparr>s_store = program_store trading_program, s_held = [], s_charges = []\<rparr>"
  "lasting_ok trading_config kind_facts kind_answers (pg_validator trading_program)"
  "\<forall>v. bg_boots trading_background v \<longrightarrow> lasting_ok trading_config kind_facts kind_answers v"
  "bg_validate trading_background = production_validate trading_config"
  "bg_begin_tick trading_background = production_begin" "\<forall>ps. mset (bg_schedule trading_background ps) = mset ps"
  using first_starts kind_ready
  by (simp_all add: starts_def trading_program_def first_shared_def trading_background_def lasting_ok_def
      production_ready_def honest_answers_def lasting_coherent_def coherent_def clear_cache_def lasting_honest_def honest_def)

lemma posting_codec: "codec_ok (dp_codec posting_deployment)" "dp_codec posting_deployment = std_codec"
  by (simp_all add: posting_deployment_def sample_deployment_def codec_ok_std)

lemma program_bids:
  obtains s sols gp st2 sol where "(program_step posting_deployment trading_background)\<^sup>*\<^sup>* trading_program s"
    "solve std_codec toy_abi sample_clock sample_auction (sh_gas_price (pg_shared s)) (program_store s) = Some (sols, gp, st2)" "sol \<in> set sols"
proof -
  have "pg_shared trading_program = first_shared" by (simp add: trading_program_def)
  then obtain st q where post: "program_step posting_deployment trading_background trading_program
        (trading_program\<lparr>pg_shared := first_shared\<lparr>sh_store := st\<rparr>\<rparr>)"
      and st: "st_faults st = []" "book std_codec st (ProposalId 1) = Some q"
      and q: "p_status q = Submitted" "p_order_uid q = sample_uid" "p_sell_amount q = 1000000" "p_buy_amount q = 950000"
        "p_valid_until q = 700" "p_trampoline q = None"
    by (rule program_posts [where bg = trading_background]) auto
  let ?s1 = "trading_program\<lparr>pg_shared := first_shared\<lparr>sh_store := st\<rparr>\<rparr>"
  have kind: "kind_proposal q" using q by (simp add: kind_proposal_def)
  have any: "validated_by trading_background (\<lambda>_. True) (\<lambda>_ _. True)"
    by (rule any_validated) (simp add: trading_background_def)
  note c = posting_codec
  have "sys_ok std_codec \<lparr>s_store = st, s_held = [], s_charges = []\<rparr>"
    using program_runs [OF r_into_rtranclp [of "program_step posting_deployment trading_background", OF post] c(1) any TrueI
        starts_ok [OF trading_starts(1)]] c(2) by simp
  then have gd: "good std_codec st" by (simp add: sys_ok_def)
  obtain v' st1 where run: "run_tick (production_validate trading_config) production_begin (\<lambda>ps. ps) std_codec sample_clock
      600 300000000 kind_validator st = (v', st1)"
    by (cases "run_tick (production_validate trading_config) production_begin (\<lambda>ps. ps) std_codec sample_clock
      600 300000000 kind_validator st")
  have tick: "program_step posting_deployment trading_background ?s1
      (?s1\<lparr>pg_validator := v', pg_shared := (pg_shared ?s1)\<lparr>sh_store := st1\<rparr>\<rparr>)"
    by (rule program_step.Validation [OF kind_auction(1)])
      (use run c(2) in \<open>simp add: trading_background_def trading_program_def\<close>)
  have run2: "(program_step posting_deployment trading_background)\<^sup>*\<^sup>* trading_program
      (?s1\<lparr>pg_validator := v', pg_shared := (pg_shared ?s1)\<lparr>sh_store := st1\<rparr>\<rparr>)"
    using post tick by (blast intro: rtranclp.intros)
  have vet: "vetted trading_config kind_facts kind_answers (life_of std_codec st1)"
    using program_vetted [OF c(1) trading_starts(1,4,5,6,2,3) run2] c(2) by simp
  have perm: "\<forall>ps :: proposal list. mset ps = mset ps" by simp
  have due: "\<not> p_valid_until q < u256_of (600::u64)" "u256_of (600::u64) < p_valid_until q" "p_status q \<in> {Submitted, Active}"
    using q by (simp_all add: u256_of_def)
  have "production_ready trading_config kind_facts kind_answers kind_validator \<and> favours trading_config kind_facts q kind_outcome kind_validator"
    using kind_ready kind_favours [OF kind] by blast
  from favoured.tick_calm [OF gd codec_ok_std _ this perm run st(2) due(3,1)] st(1) favoured_accepted
  have t: "calm st1" "good std_codec st1" "book std_codec st1 (ProposalId 1) = Some (decided (Accept (Some kind_outcome)) q)"
    by (auto simp: calm_def)
  let ?p = "decided (Accept (Some kind_outcome)) q"
  have "p_id q = ProposalId 1" using book_id [OF gd st(2)] .
  then have p: "book std_codec st1 (p_id ?p) = Some ?p" "p_status ?p = Active" "p_order_uid ?p = ao_uid sample_order"
      "u256_of (600::u64) < p_valid_until ?p"
    using t(3) due(2) q(2) kind_auction(4) by (simp_all add: decided_def with_verdict_def)
  have tr: "\<And>q. book std_codec st1 (p_id q) = Some q \<Longrightarrow> p_status q = Active \<Longrightarrow> p_trampoline q \<noteq> None"
    using vet unfolding vetted_def accepted_statuses_def simulated_def life_of_simps by fastforce
  have "ranked sample_auction sample_order ?p \<noteq> None" using kind_ranked [OF kind] by simp
  from solve_serves [OF t(2) codec_ok_std t(1) kind_auction(1-3) tr p this, of toy_abi 7]
  obtain sols gp st2 sol where "solve std_codec toy_abi sample_clock sample_auction 7 st1 = Some (sols, gp, st2)" "sol \<in> set sols"
    by (auto simp: served_order_def)
  with that [OF run2] show thesis by (simp add: trading_program_def first_shared_def)
qed

text \<open>The arguments, and the world, that make this program.\<close>

definition trading_arguments :: arguments where
  "trading_arguments = staged_arguments\<lparr>ar_solve_bearer_token := Some ''key'', ar_escrow_address := Some 2,
     ar_settlement_address := Some 1\<rparr>"

definition trading_environment :: environment where
  "trading_environment = quiet_environment\<lparr>en_abi := toy_abi\<rparr>"

lemma trading_deployed:
  "\<exists>ending p final. run_with trading_arguments trading_environment = (ending, Some p, final) \<and>
     deployed trading_arguments trading_environment p posting_deployment trading_background"
  by (simp add: run_with_def start_loops_def trading_arguments_def staged_arguments_def default_arguments_def
      trading_environment_def quiet_environment_def Let_def teardown_def await_writer_def deployed_def trading_background_def state_of_def
      posting_deployment_def sample_deployment_def sample_app_def initial_gas_price_def u256_of_def serve_def
      trading_config_def sample_config_def)

abbreviation solve_request :: http_request where
  "solve_request \<equiv> (sample_request POST [''solve''])\<lparr>hr_authorization := HeaderText ''Bearer key''\<rparr>"

theorem nothing_bid_unsimulated_witness:
  "\<exists>s resp sh' sols sol cfg. (program_step posting_deployment trading_background)\<^sup>*\<^sup>* trading_program s \<and>
     serve_request posting_deployment (internal_router (Some ''key'')) sample_clock solve_request (pg_shared s) = Some (resp, sh') \<and>
     hs_body resp = SolutionsBody sols \<and> sol \<in> set sols \<and> bids_simulation cfg kind_facts kind_answers sol"
proof -
  obtain ending p final where p: "run_with trading_arguments trading_environment = (ending, Some p, final)"
      "deployed trading_arguments trading_environment p posting_deployment trading_background"
    using trading_deployed by blast
  obtain s sols gp st2 sol where run: "(program_step posting_deployment trading_background)\<^sup>*\<^sup>* trading_program s"
    and sol: "solve std_codec toy_abi sample_clock sample_auction (sh_gas_price (pg_shared s)) (program_store s) = Some (sols, gp, st2)"
      "sol \<in> set sols"
    by (rule program_bids)
  have "dispatch_ok (dp_dispatch posting_deployment)" by (simp add: posting_deployment_def sample_deployment_def dispatch_ok_std)
  note served = serve_internal [OF this, where req = solve_request and token = "Some ''key''" and clk = sample_clock and sh = "pg_shared s"]
  have gate: "authorized ''key'' (HeaderText ''Bearer key'')" by (simp add: authorized_def eq_ignore_ascii_case_def)
  have "run_endpoint posting_deployment sample_clock solve_request [] (pg_shared s) SolveAuction =
      Some ((200, SolutionsBody sols), \<lparr>sh_store = st2, sh_gas_price = gp\<rparr>)"
    using sol by (simp add: posting_deployment_def sample_deployment_def extracted_def)
  with served gate obtain resp sh' where serve: "serve_request posting_deployment (internal_router (Some ''key'')) sample_clock
      solve_request (pg_shared s) = Some (resp, sh')" and body: "hs_body resp = SolutionsBody sols"
    by (simp add: sample_request_def answered_def)
  have rpc: "ar_rpc_url trading_arguments \<noteq> None" by (simp add: trading_arguments_def staged_arguments_def)
  have a: "ex_auction (dp_extract posting_deployment) solve_request = Inr sample_auction" by (simp add: posting_deployment_def)
  have facts: "bg_boots trading_background (pg_validator trading_program)"
      "\<forall>v. bg_boots trading_background v \<longrightarrow> range (snd v) \<subseteq> kind_answers" "\<forall>x\<in>kind_answers. lasting_honest kind_facts (snd x)"
    using kind_ready by (auto simp: trading_background_def trading_program_def kind_answers_def production_ready_def
        honest_answers_def honest_def lasting_honest_def)
  have "\<forall>ord\<in>set (au_orders sample_auction). auction_agrees kind_facts ord"
    by (simp add: sample_auction_def auction_agrees_def kind_facts_def into_record_def kind_order_def)
  from nothing_bid_unsimulated [OF posting_codec(1) p(1) rpc p(2) trading_starts(1) facts trading_starts(6) run serve body a
      kind_auction(2) this] sol(2)
  obtain cfg where "bids_simulation cfg kind_facts kind_answers sol" by blast
  with run serve body sol(2) show ?thesis by (intro exI conjI)
qed

end
