(* ===== verification/Startup_Log.thy ===== *)
theory Startup_Log
  imports Process Subsolver
begin

text \<open>
  What the two programs log of their arguments at start-up (\<open>?args\<close>: the \<open>Debug\<close> text of \<open>byos/src/run.rs\<close>
  and \<open>subsolver/src/infra/cli.rs\<close>). The wrappers of secrets print a fixed text; the \<open>Debug\<close> of the
  standard library's types and of third-party ones is the parameter \<open>printers\<close>.
\<close>

record printers =
  pr_text :: "string \<Rightarrow> string"
  pr_number :: "nat \<Rightarrow> string"
  pr_flag :: "bool \<Rightarrow> string"
  pr_address :: "address \<Rightarrow> string"
  pr_url :: "string \<Rightarrow> string"
  pr_duration :: "time \<Rightarrow> string"
  pr_signer :: "signer \<Rightarrow> string"

text \<open>\<open>#[derive(Debug)]\<close> of an \<open>Option\<close> and of a struct with named fields.\<close>

definition debug_option :: "('a \<Rightarrow> string) \<Rightarrow> 'a option \<Rightarrow> string" where
  "debug_option show_it x = (case x of None \<Rightarrow> ''None'' | Some y \<Rightarrow> ''Some('' @ show_it y @ '')'')"

fun debug_fields :: "(string \<times> string) list \<Rightarrow> string" where
  "debug_fields [] = []"
| "debug_fields [(field, v)] = field @ '': '' @ v"
| "debug_fields ((field, v) # fs) = field @ '': '' @ v @ '', '' @ debug_fields fs"

declare debug_fields.simps [simp del]

definition debug_struct :: "string \<Rightarrow> (string \<times> string) list \<Rightarrow> string" where
  "debug_struct name fs = name @ '' { '' @ debug_fields fs @ '' }''"

text \<open>\<open>Debug\<close> of \<open>DatabaseUrl\<close>, \<open>RpcUrl\<close>, \<open>SolveBearerToken\<close> and \<open>OperatorPrivateKey\<close>.\<close>

definition redacted :: "'a \<Rightarrow> string" where
  "redacted secret = ''<redacted>''"

subsection \<open>The service\<close>

text \<open>The arguments with those only the start-up itself reads.\<close>

record service_args = arguments +
  al_log :: string
  al_json_logs :: bool
  al_public_addr :: string
  al_internal_addr :: string

text \<open>What the parser fills in.\<close>

definition default_service_args :: "u64 \<Rightarrow> address \<Rightarrow> string \<Rightarrow> service_args" where
  "default_service_args chain_id trampoline_factory database_url =
     arguments.extend (default_arguments chain_id trampoline_factory database_url)
       (service_args.fields ''warn,byos=debug'' False ''127.0.0.1:9585'' ''127.0.0.1:9586'')"

definition service_log :: "printers \<Rightarrow> service_args \<Rightarrow> string" where
  "service_log pr a = debug_struct ''Args''
     [(''log'', pr_text pr (al_log a)), (''json_logs'', pr_flag pr (al_json_logs a)),
      (''public_addr'', al_public_addr a), (''internal_addr'', al_internal_addr a),
      (''solve_bearer_token'', debug_option redacted (ar_solve_bearer_token a)),
      (''chain_id'', pr_number pr (unat (ar_chain_id a))),
      (''trampoline_factory'', pr_address pr (ar_trampoline_factory a)),
      (''database_url'', redacted (ar_database_url a)),
      (''rpc_url'', debug_option redacted (ar_rpc_url a)),
      (''orderbook_url'', debug_option (pr_url pr) (ar_orderbook_url a)),
      (''escrow_address'', debug_option (pr_address pr) (ar_escrow_address a)),
      (''settlement_address'', debug_option (pr_address pr) (ar_settlement_address a)),
      (''min_collateral'', debug_option (\<lambda>n. pr_number pr (unat n)) (ar_min_collateral a)),
      (''default_gas_price'', debug_option (\<lambda>n. pr_number pr (unat n)) (ar_default_gas_price a)),
      (''validation_interval_secs'', pr_number pr (unat (ar_validation_interval_secs a))),
      (''dropped_retention'', pr_duration pr (ar_dropped_retention a)),
      (''retention_sweep_interval_secs'', pr_number pr (unat (ar_retention_sweep_interval_secs a))),
      (''max_proposal_lifetime_secs'', pr_number pr (unat (ar_max_proposal_lifetime_secs a))),
      (''executing_timeout'', pr_duration pr (ar_executing_timeout a)),
      (''min_proposal_score'', pr_number pr (unat (ar_min_proposal_score a))),
      (''operator_private_key'', debug_option redacted (ar_operator_private_key a))]"

subsection \<open>The sub-solver\<close>

record subsolver_args =
  sa_config :: string
  sa_orderbook_url :: string
  sa_byos_url :: string
  sa_rpc_url :: string
  sa_private_key :: signer
  sa_log :: string

definition default_subsolver_log :: string where
  "default_subsolver_log = ''warn,subsolver=debug''"

definition subsolver_log :: "printers \<Rightarrow> subsolver_args \<Rightarrow> string" where
  "subsolver_log pr a = debug_struct ''Args''
     [(''config'', pr_text pr (sa_config a)), (''orderbook_url'', pr_url pr (sa_orderbook_url a)),
      (''byos_url'', pr_url pr (sa_byos_url a)), (''rpc_url'', redacted (sa_rpc_url a)),
      (''private_key'', pr_signer pr (sa_private_key a)), (''log'', pr_text pr (sa_log a))]"

subsection \<open>Secrets do not reach the log\<close>

text \<open>Replacing what is secret, its presence kept.\<close>

definition other_secrets ::
  "string \<Rightarrow> (string \<Rightarrow> string) \<Rightarrow> (string \<Rightarrow> string) \<Rightarrow> (signer \<Rightarrow> signer) \<Rightarrow> service_args \<Rightarrow> service_args" where
  "other_secrets db rpc token key a = a\<lparr>ar_database_url := db, ar_rpc_url := map_option rpc (ar_rpc_url a),
     ar_solve_bearer_token := map_option token (ar_solve_bearer_token a),
     ar_operator_private_key := map_option key (ar_operator_private_key a)\<rparr>"

lemma debug_option_redacted: "debug_option redacted (map_option f x) = debug_option redacted x"
  by (simp add: debug_option_def redacted_def split: option.split)

text \<open>The start-up logs reveal no secret. The service logs the same text whatever the database URL and,
  given that they are set, whatever the RPC URL, the bearer token and the operator's key; the sub-solver
  logs the same text whatever its RPC URL and for any two keys of the same address, the library's
  \<open>Debug\<close> of a key showing its address only.\<close>

theorem startup_logs_hide_secrets:
  assumes "\<forall>k k'. sg_address k = sg_address k' \<longrightarrow> pr_signer pr k = pr_signer pr k'"
  shows "service_log pr (other_secrets db rpc token key a) = service_log pr a \<and>
    (sg_address k = sg_address (sa_private_key b) \<longrightarrow>
       subsolver_log pr (b\<lparr>sa_rpc_url := url, sa_private_key := k\<rparr>) = subsolver_log pr b)"
proof -
  have "service_log pr (other_secrets db rpc token key a) = service_log pr a"
    by (simp add: service_log_def other_secrets_def debug_option_redacted redacted_def [where secret = db]
        redacted_def [where secret = "ar_database_url a"])
  moreover have "subsolver_log pr (b\<lparr>sa_rpc_url := url, sa_private_key := k\<rparr>) = subsolver_log pr b"
    if "sg_address k = sg_address (sa_private_key b)"
  proof -
    have "pr_signer pr k = pr_signer pr (sa_private_key b)" using assms that by blast
    then show ?thesis by (simp add: subsolver_log_def redacted_def)
  qed
  ultimately show ?thesis by blast
qed

end
