(* ===== verification/Test_Support.thy ===== *)
theory Test_Support
  imports Store_Logic
begin

text \<open>
  The repository's own unit tests as definitions of the model. A test of the store is a program over a
  \<open>fixture\<close> - the store and how much of the audit channel it has received - that returns whether it
  passes: \<open>expect\<close> and \<open>unwrap_err\<close> are the calls of the same names, \<open>try_recv\<close> takes the next event of
  the channel, \<open>assert\<close> goes on when its condition holds, \<open>passed\<close> is the end of the test. The database's
  clock stands still during a test, and the columns are those of \<open>std_codec\<close>.
\<close>

record fixture =
  fx_store :: store
  fx_received :: nat

type_synonym test = "fixture \<Rightarrow> bool"

named_theorems test_run \<open>how a test runs\<close>

definition passed :: test where
  "passed f \<longleftrightarrow> True"

definition assert :: "bool \<Rightarrow> test \<Rightarrow> test" where
  "assert b k f \<longleftrightarrow> b \<and> k f"

definition expect :: "'a action \<Rightarrow> ('a \<Rightarrow> test) \<Rightarrow> test" where
  "expect m ka f = (case m (fx_store f) of (Inr a, st) \<Rightarrow> ka a (f\<lparr>fx_store := st\<rparr>) | (Inl _, _) \<Rightarrow> False)"

definition unwrap_err :: "'a action \<Rightarrow> (store_error \<Rightarrow> test) \<Rightarrow> test" where
  "unwrap_err n ke f = (case n (fx_store f) of (Inl e, st) \<Rightarrow> ke e (f\<lparr>fx_store := st\<rparr>) | (Inr _, _) \<Rightarrow> False)"

text \<open>\<open>store.insert(..)\<close>, whose panics fail the test; \<open>store.get(id)..expect("exists")\<close>.\<close>

definition inserted :: "clock \<Rightarrow> proposal \<Rightarrow> (proposal_id \<Rightarrow> test) \<Rightarrow> test" where
  "inserted clk p k f = (case insert_proposal_op std_codec clk p (fx_store f) of
     Some (Inr pid, st) \<Rightarrow> k pid (f\<lparr>fx_store := st\<rparr>) | _ \<Rightarrow> False)"

definition fetched :: "proposal_id \<Rightarrow> (proposal \<Rightarrow> test) \<Rightarrow> test" where
  "fetched pid k = expect (get_proposal std_codec pid) (\<lambda>r. case r of None \<Rightarrow> (\<lambda>_. False) | Some p \<Rightarrow> k p)"

definition try_recv :: "(audit_kind option \<Rightarrow> test) \<Rightarrow> test" where
  "try_recv k f = (case drop (fx_received f) (st_audit (fx_store f)) of
     [] \<Rightarrow> k None f | e # _ \<Rightarrow> k (Some (ae_kind e)) (f\<lparr>fx_received := Suc (fx_received f)\<rparr>))"

definition received :: "(audit_kind \<Rightarrow> test) \<Rightarrow> test" where
  "received k = try_recv (\<lambda>e. case e of None \<Rightarrow> (\<lambda>_. False) | Some e \<Rightarrow> k e)"

fun for_each :: "('a \<Rightarrow> ('b \<Rightarrow> test) \<Rightarrow> test) \<Rightarrow> 'a list \<Rightarrow> ('b list \<Rightarrow> test) \<Rightarrow> test" where
  "for_each body [] k = k []"
| "for_each body (x # xs) k = body x (\<lambda>y. for_each body xs (\<lambda>ys. k (y # ys)))"

definition from_secs :: "int \<Rightarrow> time" where
  "from_secs secs = secs * 1000000"

text \<open>SQL a test runs beneath the store.\<close>

definition sql :: "(proposal_row \<Rightarrow> proposal_row) \<Rightarrow> proposal_id \<Rightarrow> test \<Rightarrow> test" where
  "sql upd pid k = expect (act (lift (as_db_id pid)) (\<lambda>i. stmt (\<lambda>d. Inr (update_rows (\<lambda>r. r_id r = i) upd d)))) (\<lambda>_. k)"

definition corrupt_sub_solver :: "proposal_id \<Rightarrow> test \<Rightarrow> test" where
  "corrupt_sub_solver = sql (\<lambda>r. r\<lparr>r_sub_solver := ''not-an-address''\<rparr>)"

definition backdate_status_change :: "clock \<Rightarrow> int \<Rightarrow> proposal_id \<Rightarrow> test \<Rightarrow> test" where
  "backdate_status_change clk secs = sql (\<lambda>r. r\<lparr>r_status_changed_at := db_now clk - secs * 1000000\<rparr>)"

definition test_store :: fixture where
  "test_store = \<lparr>fx_store = \<lparr>st_db = empty_db, st_audit = [], st_faults = [], st_writer = True\<rparr>, fx_received = 0\<rparr>"

definition test_proposal :: "(bytes \<Rightarrow> b256) \<Rightarrow> order_uid \<Rightarrow> address \<Rightarrow> proposal_status \<Rightarrow> proposal" where
  "test_proposal keccak order_uid sub_solver status =
     \<lparr>p_id = ProposalId 0, p_sub_solver = sub_solver, p_order_uid = order_uid,
      p_order_uid_hash = keccak (uid_bytes order_uid), p_sell_amount = 1000000, p_buy_amount = 990000,
      p_sell_token = 0, p_buy_token = 0, p_interactions = [], p_interactions_hash = 0,
      p_valid_until = 18446744073709551615, p_nonce = 1, p_signature = [], p_status = status,
      p_rejection_reason = None, p_gas_used = None, p_trampoline = None, p_settlement_tx_hash = None,
      p_penalty_tx_hash = None\<rparr>"

definition test_order_record :: order_record where
  "test_order_record =
     \<lparr>or_order = \<lparr>co_sell_token = 0xaa, co_buy_token = 0xbb, co_receiver = 0, co_sell_amount = 1000000,
        co_buy_amount = 980000, co_valid_to = - 1, co_app_data = 0, co_fee_amount = 0, co_kind = Sell,
        co_partially_fillable = False, co_signing_scheme = Eip712, co_signature = replicate 65 0\<rparr>,
      or_pre_interactions = [], or_post_interactions = [], or_erc20_balances = True\<rparr>"

text \<open>Setting a field of the order in a record.\<close>

definition with_order :: "(cow_order \<Rightarrow> cow_order) \<Rightarrow> order_record \<Rightarrow> order_record" where
  "with_order f r = r\<lparr>or_order := f (or_order r)\<rparr>"

definition uid_of :: "byte \<Rightarrow> order_uid" where
  "uid_of b = OrderUid (replicate 56 b)"

lemma uid_of_ok [simp]: "uid_ok (uid_of b)" "uid_of a = uid_of b \<longleftrightarrow> a = b"
  by (simp_all add: uid_of_def uid_ok_def)

subsection \<open>Running tests\<close>

lemmas std_read_back [simp] = codec_read_back [OF codec_ok_std] from_hex_text [OF codec_ok_std]
  interactions_from_json_of [OF codec_ok_std]

lemma std_prints [test_run]:
  "parse_addr std_codec ''not-an-address'' = None" "u256_text std_codec u = x # xs \<longleftrightarrow> show_nat (unat u) = x # xs"
  by (simp_all add: std_codec_def std_parse_word_def)

lemma addr_text_eq [simp]: "addr_text std_codec a = addr_text std_codec b \<longleftrightarrow> a = b"
  by (rule codec_eq_iff [OF codec_ok_std])

lemma uid_text_eq [simp]: "uid_text std_codec (uid_of a) = uid_text std_codec (uid_of b) \<longleftrightarrow> a = b"
  using from_hex_text [OF codec_ok_std, of "uid_of a"] from_hex_text [OF codec_ok_std, of "uid_of b"]
  by (metis sum.inject(2) uid_of_ok)

lemma digits:
  "digit_char 0 = CHR ''0''" "digit_char (Suc 0) = CHR ''1''" "digit_char 1 = CHR ''1''" "digit_char 2 = CHR ''2''" "digit_char 3 = CHR ''3''"
  "digit_char 4 = CHR ''4''" "digit_char 5 = CHR ''5''" "digit_char 6 = CHR ''6''" "digit_char 7 = CHR ''7''"
  "digit_char 8 = CHR ''8''" "digit_char 9 = CHR ''9''" "digit_char 10 = CHR ''a''" "digit_char 11 = CHR ''b''"
  "digit_char 12 = CHR ''c''" "digit_char 13 = CHR ''d''" "digit_char 14 = CHR ''e''" "digit_char 15 = CHR ''f''"
  by code_simp+

lemma run_steps [test_run]:
  "passed f = True" "assert b k f = (b \<and> k f)"
  "expect m ka f = (case m (fx_store f) of (Inr a, st) \<Rightarrow> ka a (f\<lparr>fx_store := st\<rparr>) | (Inl _, _) \<Rightarrow> False)"
  "unwrap_err n ke f = (case n (fx_store f) of (Inl e, st) \<Rightarrow> ke e (f\<lparr>fx_store := st\<rparr>) | (Inr _, _) \<Rightarrow> False)"
  "try_recv h f = (case drop (fx_received f) (st_audit (fx_store f)) of
     [] \<Rightarrow> h None f | e # _ \<Rightarrow> h (Some (ae_kind e)) (f\<lparr>fx_received := Suc (fx_received f)\<rparr>))"
  by (simp_all add: passed_def assert_def expect_def unwrap_err_def try_recv_def)

lemmas [test_run] = test_order_record_def with_order_def inserted_def fetched_def received_def sql_def corrupt_sub_solver_def backdate_status_change_def
  test_store_def test_proposal_def act_def lift_def done_with_def fail_def stmt_def in_tx_def emit_def next_fault_def
  insert_proposal_op_def gas_column_def insert_proposal_def id_of_db_def u64_of_i64_def i64_of_u64_def
  as_db_id_def empty_db_def find_row_def select_row_def update_rows_def get_proposal_def proposal_of_row_def
  insert_row_def parse_column_def parse_nullable_def parse_uid_column_def dec_option_def corrupt_def corrupt_in_def
  transition_def stale_or_missing_def locked_row_def require_live_def coalesce_def coalesce_to_def from_secs_def
  verdict_body_def resolve_verdict_def verdict_row_def saturated_gas_def cancel_body_def cancel_def outcome_body_def
  apply_settlement_outcome_def record_penalty_def record_non_settlement_debit_def queue_non_settlement_penalty_def
  pending_penalties_def pending_rows_def penalty_of_row_def insert_penalty_def pay_penalty_def note_driver_notification_def
  released_keys_def stale_executing_def release_row_def release_body_def release_stale_executing_def
  dropped_statuses_def swept_row_def sweep_dropped_def delete_rows_def record_solution_def upsert_solution_def
  Let_def tx_entry_def parse_reason_def show_nat.simps digits
  query_def decode_rows_def readable_def select_rows_def list_by_order_uid_def active_by_order_uids_def
  list_by_sub_solver_def snapshot_by_statuses_def status_names_def

end
