(* ===== verification/Store_Tests.thy ===== *)
theory Store_Tests
  imports Test_Support
begin

text \<open>
  The unit tests of \<open>infra/storage.rs\<close>, in their order and under their names. \<open>clk\<close> is the clock the
  test runs under and \<open>keccak\<close> the hash of \<open>test_proposal\<close>; the tests pass for any.
\<close>

definition SUB_SOLVER_A :: address where "SUB_SOLVER_A = 1"
definition SUB_SOLVER_B :: address where "SUB_SOLVER_B = 2"

definition test_order_uid :: order_uid where
  "test_order_uid = uid_of 0xaa"

definition make_proposal :: "(bytes \<Rightarrow> b256) \<Rightarrow> order_uid \<Rightarrow> address \<Rightarrow> proposal" where
  "make_proposal keccak order_uid sub_solver = test_proposal keccak order_uid sub_solver Active"

lemmas [test_run] = SUB_SOLVER_A_def SUB_SOLVER_B_def test_order_uid_def make_proposal_def

definition insert_and_get_round_trips_every_field :: "clock \<Rightarrow> (bytes \<Rightarrow> b256) \<Rightarrow> test" where
  "insert_and_get_round_trips_every_field clk keccak =
     (let expected = (make_proposal keccak test_order_uid SUB_SOLVER_A)
        \<lparr>p_interactions := [\<lparr>i_target = 0xbb, i_value = 5, i_callData = [0xde, 0xad, 0xbe, 0xef]\<rparr>],
         p_sell_amount := - 1, p_signature := replicate 65 0x11\<rparr> in
     inserted clk expected (\<lambda>pid.
     assert (pid_raw pid > 0) (
     fetched pid (\<lambda>p.
     assert (p_id p = pid \<and> p_sub_solver p = p_sub_solver expected \<and> p_order_uid p = p_order_uid expected \<and>
       p_order_uid_hash p = p_order_uid_hash expected \<and> p_sell_amount p = p_sell_amount expected \<and>
       p_buy_amount p = p_buy_amount expected \<and> p_sell_token p = p_sell_token expected \<and>
       p_buy_token p = p_buy_token expected \<and> p_interactions p = p_interactions expected \<and>
       p_interactions_hash p = p_interactions_hash expected \<and> p_valid_until p = p_valid_until expected \<and>
       p_nonce p = p_nonce expected \<and> p_signature p = p_signature expected \<and> p_status p = p_status expected \<and>
       p_rejection_reason p = None \<and> p_gas_used p = None \<and> p_trampoline p = None)
     passed))))"

definition get_nonexistent_returns_none :: test where
  "get_nonexistent_returns_none =
     expect (get_proposal std_codec (ProposalId 999)) (\<lambda>r. assert (r = None) passed)"

definition insert_emits_received_audit_event :: "clock \<Rightarrow> (bytes \<Rightarrow> b256) \<Rightarrow> test" where
  "insert_emits_received_audit_event clk keccak =
     inserted clk (make_proposal keccak test_order_uid SUB_SOLVER_A) (\<lambda>pid.
     received (\<lambda>event.
     assert (kind_proposal_id event = pid \<and> kind_sub_solver event = SUB_SOLVER_A \<and> kind_order_uid event = test_order_uid \<and>
       (case event of Received p \<Rightarrow> p_id p = pid | _ \<Rightarrow> False))
     passed))"

definition transition_updates_status_and_emits_event :: "clock \<Rightarrow> (bytes \<Rightarrow> b256) \<Rightarrow> test" where
  "transition_updates_status_and_emits_event clk keccak =
     inserted clk (make_proposal keccak test_order_uid SUB_SOLVER_A) (\<lambda>pid.
     received (\<lambda>_.
     fetched pid (\<lambda>p.
     expect (transition clk p Expired) (\<lambda>_.
     fetched pid (\<lambda>p.
     assert (p_status p = Expired) (
     received (\<lambda>event.
     assert (kind_proposal_id event = pid \<and> event_type event = ''expired'')
     passed)))))))"

definition an_unparseable_row_is_reported_as_permanent_not_transient :: "clock \<Rightarrow> (bytes \<Rightarrow> b256) \<Rightarrow> test" where
  "an_unparseable_row_is_reported_as_permanent_not_transient clk keccak =
     inserted clk (make_proposal keccak test_order_uid SUB_SOLVER_A) (\<lambda>pid.
     corrupt_sub_solver pid (
     unwrap_err (get_proposal std_codec pid) (\<lambda>err.
     assert (err = CorruptRow ''proposals'' ''sub_solver'') (
     assert (\<not> should_retry err)
     passed))))"

definition an_unparseable_row_does_not_take_the_whole_snapshot_with_it :: "clock \<Rightarrow> (bytes \<Rightarrow> b256) \<Rightarrow> test" where
  "an_unparseable_row_does_not_take_the_whole_snapshot_with_it clk keccak =
     inserted clk (make_proposal keccak test_order_uid SUB_SOLVER_A) (\<lambda>broken.
     inserted clk (make_proposal keccak (uid_of 0xbb) SUB_SOLVER_B) (\<lambda>healthy.
     corrupt_sub_solver broken (
     expect (snapshot_by_statuses std_codec [Active]) (\<lambda>live.
     assert (map p_id live = [healthy])
     passed))))"

definition a_settlement_outcome_is_judged_against_the_committed_status :: "clock \<Rightarrow> (bytes \<Rightarrow> b256) \<Rightarrow> test" where
  "a_settlement_outcome_is_judged_against_the_committed_status clk keccak =
     inserted clk (test_proposal keccak test_order_uid SUB_SOLVER_A Active) (\<lambda>pid.
     fetched pid (\<lambda>stale.
     assert (p_status stale = Active) (
     expect (transition clk stale Executing) (\<lambda>_.
     (let tx = 0x3333333333333333333333333333333333333333333333333333333333333333 in
     expect (apply_settlement_outcome std_codec clk stale (Reverted tx)) (\<lambda>effect.
     assert (effect = Applied Executing SettleFailed) (
     fetched pid (\<lambda>stored.
     assert (p_status stored = SettleFailed) (
     assert (p_settlement_tx_hash stored = Some tx)
     passed)))))))))"

definition a_revert_without_a_preceding_settlement_started_is_still_charged :: "clock \<Rightarrow> (bytes \<Rightarrow> b256) \<Rightarrow> test" where
  "a_revert_without_a_preceding_settlement_started_is_still_charged clk keccak =
     inserted clk (test_proposal keccak test_order_uid SUB_SOLVER_A Active) (\<lambda>pid.
     fetched pid (\<lambda>p.
     (let tx = 0x4444444444444444444444444444444444444444444444444444444444444444 in
     expect (apply_settlement_outcome std_codec clk p (Reverted tx)) (\<lambda>effect.
     assert (effect = Applied Active SettleFailed) (
     fetched pid (\<lambda>stored.
     assert (p_status stored = SettleFailed) (
     assert (p_settlement_tx_hash stored = Some tx)
     passed)))))))"

definition an_outcome_illegal_from_the_committed_status_is_ignored :: "clock \<Rightarrow> (bytes \<Rightarrow> b256) \<Rightarrow> test" where
  "an_outcome_illegal_from_the_committed_status_is_ignored clk keccak =
     inserted clk (test_proposal keccak test_order_uid SUB_SOLVER_A Cancelled) (\<lambda>pid.
     fetched pid (\<lambda>p.
     expect (apply_settlement_outcome std_codec clk p Started) (\<lambda>effect.
     assert (effect = Ignored Cancelled) (
     fetched pid (\<lambda>p.
     assert (p_status p = Cancelled)
     passed)))))"

definition record_penalty_emits_the_debit_evidence :: "clock \<Rightarrow> (bytes \<Rightarrow> b256) \<Rightarrow> test" where
  "record_penalty_emits_the_debit_evidence clk keccak =
     (let settlement_tx = 0x2222222222222222222222222222222222222222222222222222222222222222;
          penalty_tx = 0x7777777777777777777777777777777777777777777777777777777777777777 in
     inserted clk ((test_proposal keccak test_order_uid SUB_SOLVER_A SettleFailed)\<lparr>p_settlement_tx_hash := Some settlement_tx\<rparr>) (\<lambda>pid.
     received (\<lambda>_.
     fetched pid (\<lambda>stored.
     expect (record_penalty std_codec clk stored 16000000000000000 penalty_tx) (\<lambda>_.
     received (\<lambda>event.
     assert (kind_proposal_id event = pid \<and> kind_sub_solver event = SUB_SOLVER_A \<and> event_type event = ''penalized'') (
     assert (kind_settlement_tx_hash event = Some settlement_tx) (
     assert (json_get (payload std_codec event) ''amount'' = Some (JStr ''16000000000000000'') \<and>
       json_get (payload std_codec event) ''penaltyTxHash'' = Some (JStr (b256_text std_codec penalty_tx)) \<and>
       json_get (payload std_codec event) ''settlementTxHash'' = Some (JStr (b256_text std_codec settlement_tx)))
     passed))))))))"

definition record_non_settlement_debit_emits_the_charge_evidence :: "clock \<Rightarrow> (bytes \<Rightarrow> b256) \<Rightarrow> test" where
  "record_non_settlement_debit_emits_the_charge_evidence clk keccak =
     (let penalty_tx = 0x7777777777777777777777777777777777777777777777777777777777777777 in
     inserted clk (make_proposal keccak test_order_uid SUB_SOLVER_A) (\<lambda>pid.
     received (\<lambda>_.
     fetched pid (\<lambda>stored.
     expect (queue_non_settlement_penalty std_codec stored) (\<lambda>_.
     expect (pending_penalties std_codec) (\<lambda>pending.
     assert (pending \<noteq> []) (
     expect (record_non_settlement_debit std_codec clk (hd pending) 1000000000000000 penalty_tx) (\<lambda>_.
     received (\<lambda>event.
     assert (kind_proposal_id event = pid \<and> kind_sub_solver event = SUB_SOLVER_A \<and> kind_order_uid event = test_order_uid \<and>
       event_type event = ''non_settlement_debited'') (
     assert (json_get (payload std_codec event) ''amount'' = Some (JStr ''1000000000000000'') \<and>
       json_get (payload std_codec event) ''penaltyTxHash'' = Some (JStr (b256_text std_codec penalty_tx)))
     passed))))))))))"

definition stale_transition_emits_nothing :: "clock \<Rightarrow> (bytes \<Rightarrow> b256) \<Rightarrow> test" where
  "stale_transition_emits_nothing clk keccak =
     inserted clk (make_proposal keccak test_order_uid SUB_SOLVER_A) (\<lambda>pid.
     received (\<lambda>_.
     fetched pid (\<lambda>p.
     unwrap_err (transition clk (p\<lparr>p_status := Submitted\<rparr>) Expired) (\<lambda>err.
     assert (case err of StaleTransition _ _ _ \<Rightarrow> True | _ \<Rightarrow> False) (
     fetched pid (\<lambda>p.
     assert (p_status p = Active) (
     try_recv (\<lambda>event.
     assert (event = None)
     passed))))))))"

definition reject_verdict_records_the_reason :: "clock \<Rightarrow> (bytes \<Rightarrow> b256) \<Rightarrow> test" where
  "reject_verdict_records_the_reason clk keccak =
     inserted clk (test_proposal keccak test_order_uid SUB_SOLVER_A Submitted) (\<lambda>pid.
     received (\<lambda>_.
     (let reason = InsufficientEscrow in
     expect (resolve_verdict std_codec clk pid (Reject reason)) (\<lambda>status.
     assert (status = Rejected) (
     fetched pid (\<lambda>p.
     assert (p_status p = Rejected \<and> p_rejection_reason p = Some reason) (
     received (\<lambda>event.
     assert (event_type event = ''rejected'' \<and>
       (case event of StatusChanged _ _ _ from to rejection_reason _ \<Rightarrow>
          from = Submitted \<and> to = Rejected \<and> rejection_reason = Some reason | _ \<Rightarrow> False))
     passed))))))))"

definition accept_verdict_writes_the_simulation_outcome :: "clock \<Rightarrow> (bytes \<Rightarrow> b256) \<Rightarrow> test" where
  "accept_verdict_writes_the_simulation_outcome clk keccak =
     inserted clk (test_proposal keccak test_order_uid SUB_SOLVER_A Submitted) (\<lambda>pid.
     received (\<lambda>_.
     (let sim = \<lparr>so_gas_used = 200000, so_trampoline = 0xee, so_sell_token = 0xcc, so_buy_token = 0xdd\<rparr> in
     expect (resolve_verdict std_codec clk pid (Accept (Some sim))) (\<lambda>status.
     assert (status = Active) (
     fetched pid (\<lambda>p.
     assert (p_status p = Active \<and> p_gas_used p = Some 200000 \<and> p_trampoline p = Some (so_trampoline sim) \<and>
       p_sell_token p = so_sell_token sim \<and> p_buy_token p = so_buy_token sim) (
     received (\<lambda>event.
     assert (event_type event = ''validated'')
     passed))))))))"

definition revalidation_of_active_updates_gas_without_an_event :: "clock \<Rightarrow> (bytes \<Rightarrow> b256) \<Rightarrow> test" where
  "revalidation_of_active_updates_gas_without_an_event clk keccak =
     inserted clk ((make_proposal keccak test_order_uid SUB_SOLVER_A)\<lparr>p_gas_used := Some 100000\<rparr>) (\<lambda>pid.
     received (\<lambda>_.
     (let sim = \<lparr>so_gas_used = 150000, so_trampoline = 0xee, so_sell_token = 0xcc, so_buy_token = 0xdd\<rparr> in
     expect (resolve_verdict std_codec clk pid (Accept (Some sim))) (\<lambda>status.
     assert (status = Active) (
     fetched pid (\<lambda>p.
     assert (p_gas_used p = Some 150000) (
     try_recv (\<lambda>event.
     assert (event = None)
     passed))))))))"

definition verdict_on_terminal_proposal_is_stale :: "clock \<Rightarrow> (bytes \<Rightarrow> b256) \<Rightarrow> test" where
  "verdict_on_terminal_proposal_is_stale clk keccak =
     inserted clk (test_proposal keccak test_order_uid SUB_SOLVER_A Cancelled) (\<lambda>pid.
     received (\<lambda>_.
     unwrap_err (resolve_verdict std_codec clk pid (Accept None)) (\<lambda>err.
     assert (case err of StaleTransition _ _ _ \<Rightarrow> True | _ \<Rightarrow> False) (
     fetched pid (\<lambda>p.
     assert (p_status p = Cancelled) (
     try_recv (\<lambda>event.
     assert (event = None)
     passed)))))))"

definition transition_nonexistent_fails_with_not_found :: "clock \<Rightarrow> (bytes \<Rightarrow> b256) \<Rightarrow> test" where
  "transition_nonexistent_fails_with_not_found clk keccak =
     unwrap_err (transition clk ((make_proposal keccak test_order_uid SUB_SOLVER_A)\<lparr>p_id := ProposalId 999\<rparr>) Expired) (\<lambda>err.
     assert (case err of NotFound _ \<Rightarrow> True | _ \<Rightarrow> False)
     passed)"

definition cancel_sets_status_and_emits_event :: "clock \<Rightarrow> (bytes \<Rightarrow> b256) \<Rightarrow> test" where
  "cancel_sets_status_and_emits_event clk keccak =
     inserted clk (make_proposal keccak test_order_uid SUB_SOLVER_A) (\<lambda>pid.
     received (\<lambda>_.
     expect (cancel std_codec clk pid SUB_SOLVER_A) (\<lambda>_.
     fetched pid (\<lambda>p.
     assert (p_status p = Cancelled) (
     received (\<lambda>event.
     assert (kind_proposal_id event = pid \<and> kind_sub_solver event = SUB_SOLVER_A \<and> kind_order_uid event = test_order_uid \<and>
       (case event of AuditCancelled _ _ _ \<Rightarrow> True | _ \<Rightarrow> False))
     passed))))))"

definition cancel_wrong_owner_fails_without_evidence :: "clock \<Rightarrow> (bytes \<Rightarrow> b256) \<Rightarrow> test" where
  "cancel_wrong_owner_fails_without_evidence clk keccak =
     inserted clk (make_proposal keccak test_order_uid SUB_SOLVER_A) (\<lambda>pid.
     received (\<lambda>_.
     unwrap_err (cancel std_codec clk pid SUB_SOLVER_B) (\<lambda>err.
     assert (case err of NotOwner _ _ \<Rightarrow> True | _ \<Rightarrow> False) (
     try_recv (\<lambda>event.
     assert (event = None)
     passed)))))"

definition cancel_terminal_state_fails :: "clock \<Rightarrow> (bytes \<Rightarrow> b256) \<Rightarrow> test" where
  "cancel_terminal_state_fails clk keccak =
     inserted clk (test_proposal keccak test_order_uid SUB_SOLVER_A Settled) (\<lambda>pid.
     unwrap_err (cancel std_codec clk pid SUB_SOLVER_A) (\<lambda>err.
     assert (case err of StaleTransition _ _ _ \<Rightarrow> True | _ \<Rightarrow> False) (
     fetched pid (\<lambda>p.
     assert (p_status p = Settled)
     passed))))"

definition cancel_submitted_proposal_succeeds :: "clock \<Rightarrow> (bytes \<Rightarrow> b256) \<Rightarrow> test" where
  "cancel_submitted_proposal_succeeds clk keccak =
     inserted clk (test_proposal keccak test_order_uid SUB_SOLVER_A Submitted) (\<lambda>pid.
     expect (cancel std_codec clk pid SUB_SOLVER_A) (\<lambda>_.
     fetched pid (\<lambda>p.
     assert (p_status p = Cancelled)
     passed)))"

definition cancel_nonexistent_fails :: "clock \<Rightarrow> test" where
  "cancel_nonexistent_fails clk =
     unwrap_err (cancel std_codec clk (ProposalId 999) SUB_SOLVER_A) (\<lambda>err.
     assert (case err of NotFound _ \<Rightarrow> True | _ \<Rightarrow> False)
     passed)"

definition list_by_order_uid_returns_only_active_proposals_on_that_order :: "clock \<Rightarrow> (bytes \<Rightarrow> b256) \<Rightarrow> test" where
  "list_by_order_uid_returns_only_active_proposals_on_that_order clk keccak =
     inserted clk (make_proposal keccak test_order_uid SUB_SOLVER_A) (\<lambda>_.
     inserted clk (make_proposal keccak test_order_uid SUB_SOLVER_A) (\<lambda>_.
     inserted clk (test_proposal keccak test_order_uid SUB_SOLVER_A Submitted) (\<lambda>_.
     inserted clk (make_proposal keccak (uid_of 0xbb) SUB_SOLVER_A) (\<lambda>_.
     expect (list_by_order_uid std_codec test_order_uid) (\<lambda>results.
     assert (length results = 2) (
     assert (list_all (\<lambda>p. p_status p = Active) results)
     passed))))))"

definition active_by_order_uids_groups_and_filters_like_the_per_order_read :: "clock \<Rightarrow> (bytes \<Rightarrow> b256) \<Rightarrow> test" where
  "active_by_order_uids_groups_and_filters_like_the_per_order_read clk keccak =
     (let wanted = test_order_uid; other = uid_of 0xbb; absent = uid_of 0xcc in
     inserted clk (make_proposal keccak wanted SUB_SOLVER_A) (\<lambda>_.
     inserted clk (make_proposal keccak wanted SUB_SOLVER_B) (\<lambda>_.
     inserted clk (make_proposal keccak other SUB_SOLVER_A) (\<lambda>_.
     inserted clk (test_proposal keccak wanted SUB_SOLVER_A Submitted) (\<lambda>_.
     expect (active_by_order_uids std_codec [wanted, other, absent]) (\<lambda>grouped.
     assert (map_option length (grouped wanted) = Some 2) (
     assert (map_option length (grouped other) = Some 1) (
     assert (grouped absent = None) (
     assert (list_all (\<lambda>uid. case grouped uid of None \<Rightarrow> True | Some ps \<Rightarrow> list_all (\<lambda>p. p_status p = Active) ps)
       [wanted, other, absent]) (
     expect (list_by_order_uid std_codec wanted) (\<lambda>per_order.
     assert (map_option (map p_id) (grouped wanted) = Some (map p_id per_order)) (
     expect (list_by_order_uid std_codec other) (\<lambda>per_order.
     assert (map_option (map p_id) (grouped other) = Some (map p_id per_order))
     passed)))))))))))))"

definition empty_uid_list_does_not_query :: test where
  "empty_uid_list_does_not_query =
     expect (active_by_order_uids std_codec []) (\<lambda>grouped.
     assert (grouped = Map.empty)
     passed)"

definition list_by_sub_solver_shows_live_proposals_of_that_owner_only :: "clock \<Rightarrow> (bytes \<Rightarrow> b256) \<Rightarrow> test" where
  "list_by_sub_solver_shows_live_proposals_of_that_owner_only clk keccak =
     inserted clk (test_proposal keccak test_order_uid SUB_SOLVER_A Submitted) (\<lambda>_.
     inserted clk (make_proposal keccak (uid_of 0xbb) SUB_SOLVER_A) (\<lambda>_.
     inserted clk (test_proposal keccak (uid_of 0xcc) SUB_SOLVER_A Rejected) (\<lambda>_.
     inserted clk (make_proposal keccak test_order_uid SUB_SOLVER_B) (\<lambda>_.
     expect (list_by_sub_solver std_codec SUB_SOLVER_A) (\<lambda>results.
     assert (length results = 2) (
     assert (list_all (\<lambda>p. p_sub_solver p = SUB_SOLVER_A) results)
     passed))))))"

definition cancelled_proposals_disappear_from_the_lists :: "clock \<Rightarrow> (bytes \<Rightarrow> b256) \<Rightarrow> test" where
  "cancelled_proposals_disappear_from_the_lists clk keccak =
     inserted clk (make_proposal keccak test_order_uid SUB_SOLVER_A) (\<lambda>pid.
     expect (cancel std_codec clk pid SUB_SOLVER_A) (\<lambda>_.
     expect (list_by_order_uid std_codec test_order_uid) (\<lambda>results.
     assert (results = []) (
     expect (list_by_sub_solver std_codec SUB_SOLVER_A) (\<lambda>results.
     assert (results = [])
     passed)))))"

definition snapshot_by_statuses_returns_the_matching_rows :: "clock \<Rightarrow> (bytes \<Rightarrow> b256) \<Rightarrow> test" where
  "snapshot_by_statuses_returns_the_matching_rows clk keccak =
     inserted clk (test_proposal keccak test_order_uid SUB_SOLVER_A Submitted) (\<lambda>_.
     inserted clk (make_proposal keccak (uid_of 0xbb) SUB_SOLVER_A) (\<lambda>_.
     inserted clk (test_proposal keccak (uid_of 0xcc) SUB_SOLVER_A Expired) (\<lambda>_.
     expect (snapshot_by_statuses std_codec [Submitted, Active]) (\<lambda>live.
     assert (length live = 2)
     passed))))"

definition driver_notification_note_leaves_evidence_without_touching_the_row :: "clock \<Rightarrow> (bytes \<Rightarrow> b256) \<Rightarrow> test" where
  "driver_notification_note_leaves_evidence_without_touching_the_row clk keccak =
     inserted clk (make_proposal keccak test_order_uid SUB_SOLVER_A) (\<lambda>pid.
     received (\<lambda>_.
     fetched pid (\<lambda>p.
     expect (note_driver_notification clk p ''emptySolution'') (\<lambda>_.
     fetched pid (\<lambda>p.
     assert (p_status p = Active) (
     received (\<lambda>event.
     assert (kind_proposal_id event = pid \<and> event_type event = ''driver_notified'' \<and>
       json_get (payload std_codec event) ''kind'' = Some (JStr ''emptySolution''))
     passed)))))))"

definition stale_executing_proposals_fall_back_to_active :: "clock \<Rightarrow> (bytes \<Rightarrow> b256) \<Rightarrow> test" where
  "stale_executing_proposals_fall_back_to_active clk keccak =
     inserted clk (test_proposal keccak test_order_uid SUB_SOLVER_A Executing) (\<lambda>pid.
     received (\<lambda>_.
     backdate_status_change clk 400 pid (
     expect (release_stale_executing std_codec clk (from_secs 300)) (\<lambda>released.
     assert (released = 1) (
     fetched pid (\<lambda>p.
     assert (p_status p = Active) (
     received (\<lambda>event.
     assert (kind_proposal_id event = pid \<and> event_type event = ''released'')
     passed))))))))"

definition executing_proposals_inside_the_timeout_are_left_alone :: "clock \<Rightarrow> (bytes \<Rightarrow> b256) \<Rightarrow> test" where
  "executing_proposals_inside_the_timeout_are_left_alone clk keccak =
     inserted clk (test_proposal keccak test_order_uid SUB_SOLVER_A Executing) (\<lambda>pid.
     received (\<lambda>_.
     expect (release_stale_executing std_codec clk (from_secs 300)) (\<lambda>released.
     assert (released = 0) (
     fetched pid (\<lambda>p.
     assert (p_status p = Executing) (
     try_recv (\<lambda>event.
     assert (event = None)
     passed)))))))"

text \<open>The loops of the sweep tests: one insertion, backdated, per status and index.\<close>

definition inserted_backdated :: "clock \<Rightarrow> (bytes \<Rightarrow> b256) \<Rightarrow> byte \<times> proposal_status \<Rightarrow> (proposal_id \<Rightarrow> test) \<Rightarrow> test" where
  "inserted_backdated clk keccak x k =
     inserted clk (test_proposal keccak (uid_of (fst x)) SUB_SOLVER_A (snd x)) (\<lambda>pid.
     backdate_status_change clk 7200 pid (k pid))"

lemmas [test_run] = inserted_backdated_def

definition sweep_deletes_dropped_proposals_past_the_window :: "clock \<Rightarrow> (bytes \<Rightarrow> b256) \<Rightarrow> test" where
  "sweep_deletes_dropped_proposals_past_the_window clk keccak =
     for_each (inserted_backdated clk keccak) (zip [0, 1, 2, 3] [Rejected, SimFailed, Expired, Cancelled]) (\<lambda>ids.
     expect (sweep_dropped clk (from_secs 3600)) (\<lambda>deleted.
     assert (deleted = 4) (
     for_each (\<lambda>pid k. expect (get_proposal std_codec pid) (\<lambda>p. assert (p = None) (k ()))) ids (\<lambda>_.
     passed))))"

definition sweep_spares_fresh_dropped_rows :: "clock \<Rightarrow> (bytes \<Rightarrow> b256) \<Rightarrow> test" where
  "sweep_spares_fresh_dropped_rows clk keccak =
     inserted clk (test_proposal keccak test_order_uid SUB_SOLVER_A Rejected) (\<lambda>pid.
     expect (sweep_dropped clk (from_secs 3600)) (\<lambda>deleted.
     assert (deleted = 0) (
     expect (get_proposal std_codec pid) (\<lambda>p.
     assert (p \<noteq> None)
     passed))))"

definition sweep_never_touches_money_states_or_live_proposals :: "clock \<Rightarrow> (bytes \<Rightarrow> b256) \<Rightarrow> test" where
  "sweep_never_touches_money_states_or_live_proposals clk keccak =
     for_each (inserted_backdated clk keccak)
       (zip [0, 1, 2, 3, 4, 5] [Settled, SettleFailed, Penalized, Executing, Active, Submitted]) (\<lambda>spared.
     expect (sweep_dropped clk (from_secs 3600)) (\<lambda>deleted.
     assert (deleted = 0) (
     for_each (\<lambda>pid k. expect (get_proposal std_codec pid) (\<lambda>p. assert (p \<noteq> None) (k ()))) spared (\<lambda>_.
     passed))))"

definition sweep_cascades_solutions_rows_of_dropped_proposals_only :: "clock \<Rightarrow> (bytes \<Rightarrow> b256) \<Rightarrow> test" where
  "sweep_cascades_solutions_rows_of_dropped_proposals_only clk keccak =
     inserted clk (test_proposal keccak test_order_uid SUB_SOLVER_A Cancelled) (\<lambda>dropped.
     inserted clk (test_proposal keccak (uid_of 0xbb) SUB_SOLVER_A Settled) (\<lambda>settled.
     expect (record_solution 1 1 dropped) (\<lambda>_.
     expect (record_solution 2 1 settled) (\<lambda>_.
     backdate_status_change clk 7200 dropped (
     backdate_status_change clk 7200 settled (
     expect (sweep_dropped clk (from_secs 3600)) (\<lambda>deleted.
     assert (deleted = 1) (
     expect (stmt (\<lambda>d. Inr (sort (map sr_proposal_id (d_solutions d)), d))) (\<lambda>remaining.
     assert (map Inr remaining = [as_db_id settled])
     passed)))))))))"

definition cancellation_during_validation_wins_over_the_verdict :: "clock \<Rightarrow> (bytes \<Rightarrow> b256) \<Rightarrow> test" where
  "cancellation_during_validation_wins_over_the_verdict clk keccak =
     inserted clk (test_proposal keccak test_order_uid SUB_SOLVER_A Submitted) (\<lambda>pid.
     expect (cancel std_codec clk pid SUB_SOLVER_A) (\<lambda>_.
     unwrap_err (resolve_verdict std_codec clk pid (Accept None)) (\<lambda>stale.
     assert (case stale of StaleTransition _ _ actual \<Rightarrow> actual = Cancelled | _ \<Rightarrow> False) (
     fetched pid (\<lambda>p.
     assert (p_status p = Cancelled)
     passed)))))"

lemma store_tests_1:
  "insert_and_get_round_trips_every_field clk keccak test_store"
  "get_nonexistent_returns_none test_store"
  "insert_emits_received_audit_event clk keccak test_store"
  "transition_updates_status_and_emits_event clk keccak test_store"
  "an_unparseable_row_is_reported_as_permanent_not_transient clk keccak test_store"
  "an_unparseable_row_does_not_take_the_whole_snapshot_with_it clk keccak test_store"
  "a_settlement_outcome_is_judged_against_the_committed_status clk keccak test_store"
  "a_revert_without_a_preceding_settlement_started_is_still_charged clk keccak test_store"
  "an_outcome_illegal_from_the_committed_status_is_ignored clk keccak test_store"
  "record_penalty_emits_the_debit_evidence clk keccak test_store"
  "record_non_settlement_debit_emits_the_charge_evidence clk keccak test_store"
  "stale_transition_emits_nothing clk keccak test_store"
  "reject_verdict_records_the_reason clk keccak test_store"
  "accept_verdict_writes_the_simulation_outcome clk keccak test_store"
  "revalidation_of_active_updates_gas_without_an_event clk keccak test_store"
  "verdict_on_terminal_proposal_is_stale clk keccak test_store"
  by (simp_all add: insert_and_get_round_trips_every_field_def get_nonexistent_returns_none_def
      insert_emits_received_audit_event_def transition_updates_status_and_emits_event_def
      an_unparseable_row_is_reported_as_permanent_not_transient_def
      an_unparseable_row_does_not_take_the_whole_snapshot_with_it_def
      a_settlement_outcome_is_judged_against_the_committed_status_def
      a_revert_without_a_preceding_settlement_started_is_still_charged_def
      an_outcome_illegal_from_the_committed_status_is_ignored_def record_penalty_emits_the_debit_evidence_def
      record_non_settlement_debit_emits_the_charge_evidence_def stale_transition_emits_nothing_def
      reject_verdict_records_the_reason_def accept_verdict_writes_the_simulation_outcome_def
      revalidation_of_active_updates_gas_without_an_event_def verdict_on_terminal_proposal_is_stale_def test_run)

lemma store_tests_2:
  "transition_nonexistent_fails_with_not_found clk keccak test_store"
  "cancel_sets_status_and_emits_event clk keccak test_store"
  "cancel_wrong_owner_fails_without_evidence clk keccak test_store"
  "cancel_terminal_state_fails clk keccak test_store"
  "cancel_submitted_proposal_succeeds clk keccak test_store"
  "cancel_nonexistent_fails clk test_store"
  "list_by_order_uid_returns_only_active_proposals_on_that_order clk keccak test_store"
  "active_by_order_uids_groups_and_filters_like_the_per_order_read clk keccak test_store"
  "empty_uid_list_does_not_query test_store"
  by (simp_all add: transition_nonexistent_fails_with_not_found_def cancel_sets_status_and_emits_event_def
      cancel_wrong_owner_fails_without_evidence_def cancel_terminal_state_fails_def cancel_submitted_proposal_succeeds_def
      cancel_nonexistent_fails_def list_by_order_uid_returns_only_active_proposals_on_that_order_def
      active_by_order_uids_groups_and_filters_like_the_per_order_read_def empty_uid_list_does_not_query_def test_run)

lemma list_by_sub_solver_shows_live_proposals_of_that_owner_only_passes: "list_by_sub_solver_shows_live_proposals_of_that_owner_only clk keccak test_store"
  by (simp add: list_by_sub_solver_shows_live_proposals_of_that_owner_only_def test_run)

lemma store_tests_3:
  "cancelled_proposals_disappear_from_the_lists clk keccak test_store"
  "snapshot_by_statuses_returns_the_matching_rows clk keccak test_store"
  "driver_notification_note_leaves_evidence_without_touching_the_row clk keccak test_store"
  "stale_executing_proposals_fall_back_to_active clk keccak test_store"
  "executing_proposals_inside_the_timeout_are_left_alone clk keccak test_store"
  "sweep_deletes_dropped_proposals_past_the_window clk keccak test_store"
  "sweep_spares_fresh_dropped_rows clk keccak test_store"
  "sweep_never_touches_money_states_or_live_proposals clk keccak test_store"
  by (simp_all add: cancelled_proposals_disappear_from_the_lists_def snapshot_by_statuses_returns_the_matching_rows_def
      driver_notification_note_leaves_evidence_without_touching_the_row_def stale_executing_proposals_fall_back_to_active_def
      executing_proposals_inside_the_timeout_are_left_alone_def sweep_deletes_dropped_proposals_past_the_window_def
      sweep_spares_fresh_dropped_rows_def sweep_never_touches_money_states_or_live_proposals_def test_run)

lemma sweep_cascades_solutions_rows_of_dropped_proposals_only_passes: "sweep_cascades_solutions_rows_of_dropped_proposals_only clk keccak test_store"
  by (simp add: sweep_cascades_solutions_rows_of_dropped_proposals_only_def test_run del: set_filter set_map)

lemma cancellation_during_validation_wins_over_the_verdict_passes: "cancellation_during_validation_wins_over_the_verdict clk keccak test_store"
  by (simp add: cancellation_during_validation_wins_over_the_verdict_def test_run)

end
