(* ===== verification/Domain_Tests.thy ===== *)
theory Domain_Tests
  imports Test_Support Gas_Cut Envelope Routing
begin

text \<open>
  The unit tests of the domain (\<open>domain/scoring.rs\<close>, \<open>domain/gas_cut.rs\<close>, \<open>domain/order.rs\<close>,
  \<open>domain/audit.rs\<close>, and \<open>domain/routing.rs\<close> of the sub-solver), under their names: whether each passes, and
  that it does. \<open>keccak\<close> is the hash of \<open>test_proposal\<close>, and any will do.
\<close>

named_theorems domain_run \<open>how the arithmetic evaluates\<close>

lemmas [domain_run] = effective_gas_def GAS_BUFFER_def ETHER_def saturating_add_def checked_add_def checked_sub_def
  checked_mul_def checked_div_def div_ceil_def scaled_to_fill_def check_envelope_def check_partial_fill_def
  check_fill_or_kill_def u256_of_def Let_def

lemma u256_max [domain_run]: "unat (- 1 :: u256) = 115792089237316195423570985008687907853269984665640564039457584007913129639935"
  by (simp add: unsigned_minus_1_eq_mask mask_eq_exp_minus_1)

text \<open>\<open>domain/scoring.rs\<close>.\<close>

definition effective_gas_adds_the_buffer :: bool where
  "effective_gas_adds_the_buffer \<longleftrightarrow>
     effective_gas 200000 = 230000"

definition sell_order_positive_surplus :: bool where
  "sell_order_positive_surplus \<longleftrightarrow>
     score_proposal \<lparr>c_order_sell = 1000, c_order_buy = 900, c_proposal_sell = 1000, c_proposal_buy = 950,
        c_is_sell_order = True, c_gas_cost = 0\<rparr> (SurplusPrice (ETHER div 2)) = Some 25"

definition buy_order_positive_surplus :: bool where
  "buy_order_positive_surplus \<longleftrightarrow>
     score_proposal \<lparr>c_order_sell = 1000, c_order_buy = 900, c_proposal_sell = 950, c_proposal_buy = 900,
        c_is_sell_order = False, c_gas_cost = 0\<rparr> (SurplusPrice (ETHER div 2)) = Some 25"

definition proposal_below_minimum_returns_none :: bool where
  "proposal_below_minimum_returns_none \<longleftrightarrow>
     score_proposal \<lparr>c_order_sell = 1000, c_order_buy = 900, c_proposal_sell = 1000, c_proposal_buy = 800,
        c_is_sell_order = True, c_gas_cost = 0\<rparr> (SurplusPrice ETHER) = None"

definition gas_exceeds_surplus_returns_none :: bool where
  "gas_exceeds_surplus_returns_none \<longleftrightarrow>
     score_proposal \<lparr>c_order_sell = 1000, c_order_buy = 900, c_proposal_sell = 1000, c_proposal_buy = 910,
        c_is_sell_order = True, c_gas_cost = 20\<rparr> (SurplusPrice ETHER) = None"

definition surplus_that_overflows_the_conversion_returns_none :: bool where
  "surplus_that_overflows_the_conversion_returns_none \<longleftrightarrow>
     score_proposal \<lparr>c_order_sell = 0, c_order_buy = 0, c_proposal_sell = 0, c_proposal_buy = - 1,
        c_is_sell_order = True, c_gas_cost = 0\<rparr> (SurplusPrice 2) = None"

definition build_candidate_fill_or_kill_passes_through :: bool where
  "build_candidate_fill_or_kill_passes_through \<longleftrightarrow>
     (case scaled_to_fill \<lparr>c_order_sell = 1000, c_order_buy = 900, c_proposal_sell = 1000, c_proposal_buy = 950,
        c_is_sell_order = True, c_gas_cost = 0\<rparr> False of None \<Rightarrow> False
      | Some c \<Rightarrow> c_order_sell c = 1000 \<and> c_order_buy c = 900)"

definition build_candidate_partial_sell_scales_buy_limit :: bool where
  "build_candidate_partial_sell_scales_buy_limit \<longleftrightarrow>
     (case scaled_to_fill \<lparr>c_order_sell = 1000, c_order_buy = 900, c_proposal_sell = 500, c_proposal_buy = 480,
        c_is_sell_order = True, c_gas_cost = 0\<rparr> True of None \<Rightarrow> False
      | Some c \<Rightarrow> c_order_sell c = 500 \<and> c_order_buy c = 450)"

definition build_candidate_partial_sell_ceil_div :: bool where
  "build_candidate_partial_sell_ceil_div \<longleftrightarrow>
     (case scaled_to_fill \<lparr>c_order_sell = 1000, c_order_buy = 901, c_proposal_sell = 500, c_proposal_buy = 460,
        c_is_sell_order = True, c_gas_cost = 0\<rparr> True of None \<Rightarrow> False
      | Some c \<Rightarrow> c_order_buy c = 451)"

definition build_candidate_partial_buy_scales_sell_limit :: bool where
  "build_candidate_partial_buy_scales_sell_limit \<longleftrightarrow>
     (case scaled_to_fill \<lparr>c_order_sell = 1000, c_order_buy = 900, c_proposal_sell = 480, c_proposal_buy = 450,
        c_is_sell_order = False, c_gas_cost = 0\<rparr> True of None \<Rightarrow> False
      | Some c \<Rightarrow> c_order_sell c = 500 \<and> c_order_buy c = 450)"

definition build_candidate_partial_buy_floor_div :: bool where
  "build_candidate_partial_buy_floor_div \<longleftrightarrow>
     (case scaled_to_fill \<lparr>c_order_sell = 1001, c_order_buy = 900, c_proposal_sell = 480, c_proposal_buy = 450,
        c_is_sell_order = False, c_gas_cost = 0\<rparr> True of None \<Rightarrow> False
      | Some c \<Rightarrow> c_order_sell c = 500)"

definition build_candidate_full_fill_partial_order_is_noop :: bool where
  "build_candidate_full_fill_partial_order_is_noop \<longleftrightarrow>
     (case scaled_to_fill \<lparr>c_order_sell = 1000, c_order_buy = 900, c_proposal_sell = 1000, c_proposal_buy = 950,
        c_is_sell_order = True, c_gas_cost = 0\<rparr> True of None \<Rightarrow> False
      | Some c \<Rightarrow> c_order_sell c = 1000 \<and> c_order_buy c = 900)"

definition build_candidate_partial_sell_zero_order_sell_returns_none :: bool where
  "build_candidate_partial_sell_zero_order_sell_returns_none \<longleftrightarrow>
     scaled_to_fill \<lparr>c_order_sell = 0, c_order_buy = 900, c_proposal_sell = 0, c_proposal_buy = 450,
        c_is_sell_order = True, c_gas_cost = 0\<rparr> True = None"

definition build_candidate_overflow_returns_none :: bool where
  "build_candidate_overflow_returns_none \<longleftrightarrow>
     scaled_to_fill \<lparr>c_order_sell = - 1, c_order_buy = - 1, c_proposal_sell = (- 1) div 2, c_proposal_buy = (- 1) div 2,
        c_is_sell_order = True, c_gas_cost = 0\<rparr> True = None"

definition zero_surplus_minus_zero_gas :: bool where
  "zero_surplus_minus_zero_gas \<longleftrightarrow>
     score_proposal \<lparr>c_order_sell = 1000, c_order_buy = 900, c_proposal_sell = 1000, c_proposal_buy = 900,
        c_is_sell_order = True, c_gas_cost = 0\<rparr> (SurplusPrice ETHER) = Some 0"

text \<open>\<open>domain/gas_cut.rs\<close>.\<close>

definition sell_order_cut :: "u64 \<Rightarrow> u64 \<Rightarrow> u64 \<Rightarrow> gas_cut option" where
  "sell_order_cut order_buy proposal_buy gas_cost = gas_cut_size
     \<lparr>c_order_sell = 1000000, c_order_buy = u256_of order_buy, c_proposal_sell = 1000000,
      c_proposal_buy = u256_of proposal_buy, c_is_sell_order = True, c_gas_cost = u256_of gas_cost\<rparr> (SellTokenPrice (ETHER div 2))"

lemmas [domain_run] = sell_order_cut_def

definition sell_order_cut_is_the_gas_cost_in_sell_token_atoms :: bool where
  "sell_order_cut_is_the_gas_cost_in_sell_token_atoms \<longleftrightarrow>
     sell_order_cut 900000 1000000 100 = Some \<lparr>gc_amount = 200, gc_executed_amount = 999800\<rparr>"

definition sell_order_cut_that_breaches_the_signed_limit_is_skipped :: bool where
  "sell_order_cut_that_breaches_the_signed_limit_is_skipped \<longleftrightarrow>
     sell_order_cut 899900 900000 100 = None"

definition sell_order_cut_that_lands_exactly_on_the_limit_is_kept :: bool where
  "sell_order_cut_that_lands_exactly_on_the_limit_is_kept \<longleftrightarrow>
     map_option gc_executed_amount (sell_order_cut 999800 1000000 100) = Some 999800"

definition a_cut_that_does_not_divide_evenly_rounds_up :: bool where
  "a_cut_that_does_not_divide_evenly_rounds_up \<longleftrightarrow>
     map_option gc_amount (gas_cut_size \<lparr>c_order_sell = 1000000, c_order_buy = 900000, c_proposal_sell = 1000000, c_proposal_buy = 1000000,
        c_is_sell_order = True, c_gas_cost = 3\<rparr> (SellTokenPrice (ETHER * 2))) = Some 2"

definition an_unpriced_sell_token_cannot_be_cut :: bool where
  "an_unpriced_sell_token_cannot_be_cut \<longleftrightarrow>
     gas_cut_size \<lparr>c_order_sell = 1000000, c_order_buy = 900000, c_proposal_sell = 1000000, c_proposal_buy = 1000000,
        c_is_sell_order = True, c_gas_cost = 100\<rparr> (SellTokenPrice 0) = None"

definition a_cut_that_overflows_the_scaling_is_skipped :: bool where
  "a_cut_that_overflows_the_scaling_is_skipped \<longleftrightarrow>
     gas_cut_size \<lparr>c_order_sell = 1000000, c_order_buy = 900000, c_proposal_sell = 1000000, c_proposal_buy = 1000000,
        c_is_sell_order = True, c_gas_cost = - 1\<rparr> (SellTokenPrice 1) = None"

definition buy_order_executes_the_signed_buy_amount :: bool where
  "buy_order_executes_the_signed_buy_amount \<longleftrightarrow>
     gas_cut_size \<lparr>c_order_sell = 1000000, c_order_buy = 900000, c_proposal_sell = 950000, c_proposal_buy = 900000,
        c_is_sell_order = False, c_gas_cost = 100\<rparr> (SellTokenPrice (ETHER div 2)) = Some \<lparr>gc_amount = 200, gc_executed_amount = 900000\<rparr>"

definition buy_order_cut_over_the_signed_sell_amount_is_skipped :: bool where
  "buy_order_cut_over_the_signed_sell_amount_is_skipped \<longleftrightarrow>
     gas_cut_size \<lparr>c_order_sell = 1000000, c_order_buy = 900000, c_proposal_sell = 999900, c_proposal_buy = 900000,
        c_is_sell_order = False, c_gas_cost = 100\<rparr> (SellTokenPrice (ETHER div 2)) = None"

text \<open>\<open>domain/order.rs\<close>.\<close>

definition sample_order_record :: order_record where
  "sample_order_record = test_order_record"

definition matching_proposal :: "(bytes \<Rightarrow> b256) \<Rightarrow> proposal" where
  "matching_proposal keccak = test_proposal keccak (uid_of 0) 0 Submitted"

lemmas [domain_run] = sample_order_record_def matching_proposal_def test_proposal_def test_order_record_def with_order_def

definition partial_fill_sell_order_within_limit_passes :: "(bytes \<Rightarrow> b256) \<Rightarrow> bool" where
  "partial_fill_sell_order_within_limit_passes keccak \<longleftrightarrow>
     check_envelope (with_order (\<lambda>ord. ord\<lparr>co_partially_fillable := True\<rparr>) sample_order_record)
       ((matching_proposal keccak)\<lparr>p_sell_amount := 500000, p_buy_amount := 495000\<rparr>) = Inr ()"

definition partial_fill_sell_order_at_exact_limit_passes :: "(bytes \<Rightarrow> b256) \<Rightarrow> bool" where
  "partial_fill_sell_order_at_exact_limit_passes keccak \<longleftrightarrow>
     check_envelope (with_order (\<lambda>ord. ord\<lparr>co_partially_fillable := True\<rparr>) sample_order_record)
       ((matching_proposal keccak)\<lparr>p_sell_amount := 500000, p_buy_amount := 490000\<rparr>) = Inr ()"

definition partial_fill_sell_order_below_limit_price_rejected :: "(bytes \<Rightarrow> b256) \<Rightarrow> bool" where
  "partial_fill_sell_order_below_limit_price_rejected keccak \<longleftrightarrow>
     check_envelope (with_order (\<lambda>ord. ord\<lparr>co_partially_fillable := True\<rparr>) sample_order_record)
       ((matching_proposal keccak)\<lparr>p_sell_amount := 500000, p_buy_amount := 489999\<rparr>) = Inl AmountMismatch"

definition partial_fill_sell_order_exceeding_order_amount_rejected :: "(bytes \<Rightarrow> b256) \<Rightarrow> bool" where
  "partial_fill_sell_order_exceeding_order_amount_rejected keccak \<longleftrightarrow>
     check_envelope (with_order (\<lambda>ord. ord\<lparr>co_partially_fillable := True\<rparr>) sample_order_record)
       ((matching_proposal keccak)\<lparr>p_sell_amount := 1000001\<rparr>) = Inl AmountMismatch"

definition partial_fill_sell_order_zero_amount_rejected :: "(bytes \<Rightarrow> b256) \<Rightarrow> bool" where
  "partial_fill_sell_order_zero_amount_rejected keccak \<longleftrightarrow>
     check_envelope (with_order (\<lambda>ord. ord\<lparr>co_partially_fillable := True\<rparr>) sample_order_record)
       ((matching_proposal keccak)\<lparr>p_sell_amount := 0\<rparr>) = Inl AmountMismatch"

definition partial_fill_buy_order_zero_sell_amount_rejected :: "(bytes \<Rightarrow> b256) \<Rightarrow> bool" where
  "partial_fill_buy_order_zero_sell_amount_rejected keccak \<longleftrightarrow>
     check_envelope (with_order (\<lambda>ord. ord\<lparr>co_kind := Buy, co_partially_fillable := True\<rparr>) sample_order_record)
       ((matching_proposal keccak)\<lparr>p_buy_amount := 490000, p_sell_amount := 0\<rparr>) = Inl AmountMismatch"

definition partial_fill_buy_order_within_limit_passes :: "(bytes \<Rightarrow> b256) \<Rightarrow> bool" where
  "partial_fill_buy_order_within_limit_passes keccak \<longleftrightarrow>
     check_envelope (with_order (\<lambda>ord. ord\<lparr>co_kind := Buy, co_partially_fillable := True\<rparr>) sample_order_record)
       ((matching_proposal keccak)\<lparr>p_buy_amount := 490000, p_sell_amount := 490000\<rparr>) = Inr ()"

definition partial_fill_buy_order_exceeding_order_amount_rejected :: "(bytes \<Rightarrow> b256) \<Rightarrow> bool" where
  "partial_fill_buy_order_exceeding_order_amount_rejected keccak \<longleftrightarrow>
     check_envelope (with_order (\<lambda>ord. ord\<lparr>co_kind := Buy, co_partially_fillable := True\<rparr>) sample_order_record)
       ((matching_proposal keccak)\<lparr>p_buy_amount := 980001\<rparr>) = Inl AmountMismatch"

definition partial_fill_at_full_amount_passes :: "(bytes \<Rightarrow> b256) \<Rightarrow> bool" where
  "partial_fill_at_full_amount_passes keccak \<longleftrightarrow>
     check_envelope (with_order (\<lambda>ord. ord\<lparr>co_partially_fillable := True\<rparr>) sample_order_record)
       (matching_proposal keccak) = Inr ()"

definition non_erc20_balance_order_is_rejected :: "(bytes \<Rightarrow> b256) \<Rightarrow> bool" where
  "non_erc20_balance_order_is_rejected keccak \<longleftrightarrow>
     check_envelope (sample_order_record\<lparr>or_erc20_balances := False\<rparr>)
       (matching_proposal keccak) = Inl UnsupportedOrder"

definition sell_order_with_mismatched_sell_amount_is_rejected :: "(bytes \<Rightarrow> b256) \<Rightarrow> bool" where
  "sell_order_with_mismatched_sell_amount_is_rejected keccak \<longleftrightarrow>
     check_envelope (with_order (\<lambda>ord. ord\<lparr>co_sell_amount := 999999\<rparr>) sample_order_record)
       (matching_proposal keccak) = Inl AmountMismatch"

definition buy_order_with_mismatched_buy_amount_is_rejected :: "(bytes \<Rightarrow> b256) \<Rightarrow> bool" where
  "buy_order_with_mismatched_buy_amount_is_rejected keccak \<longleftrightarrow>
     check_envelope (with_order (\<lambda>ord. ord\<lparr>co_kind := Buy, co_buy_amount := 1, co_sell_amount := 42\<rparr>) sample_order_record)
       (matching_proposal keccak) = Inl AmountMismatch"

definition matching_fill_or_kill_order_passes :: "(bytes \<Rightarrow> b256) \<Rightarrow> bool" where
  "matching_fill_or_kill_order_passes keccak \<longleftrightarrow>
     check_envelope (sample_order_record)
       (matching_proposal keccak) = Inr ()"

definition hooked_order_passes_envelope :: "(bytes \<Rightarrow> b256) \<Rightarrow> bool" where
  "hooked_order_passes_envelope keccak \<longleftrightarrow>
     check_envelope (sample_order_record\<lparr>or_pre_interactions := [\<lparr>i_target = 0, i_value = 0, i_callData = []\<rparr>]\<rparr>)
       (matching_proposal keccak) = Inr ()"

definition hooked_partially_fillable_order_passes_envelope :: "(bytes \<Rightarrow> b256) \<Rightarrow> bool" where
  "hooked_partially_fillable_order_passes_envelope keccak \<longleftrightarrow>
     check_envelope ((with_order (\<lambda>ord. ord\<lparr>co_partially_fillable := True\<rparr>) sample_order_record)\<lparr>or_pre_interactions := [\<lparr>i_target = 0, i_value = 0, i_callData = []\<rparr>], or_post_interactions := [\<lparr>i_target = 0, i_value = 0, i_callData = []\<rparr>]\<rparr>)
       ((matching_proposal keccak)\<lparr>p_sell_amount := 500000, p_buy_amount := 495000\<rparr>) = Inr ()"

text \<open>\<open>domain/audit.rs\<close>.\<close>

definition event_for :: "string \<Rightarrow> audit_kind" where
  "event_for kind_of =
     (let p = \<lparr>p_id = ProposalId 7, p_sub_solver = 0xaa, p_order_uid = uid_of 0xab,
            p_order_uid_hash = 0x1111111111111111111111111111111111111111111111111111111111111111,
            p_sell_amount = 1000000, p_buy_amount = 990000, p_sell_token = 0xcc, p_buy_token = 0xdd,
            p_interactions = [\<lparr>i_target = 0xbb, i_value = 5, i_callData = [0xde, 0xad, 0xbe, 0xef]\<rparr>],
            p_interactions_hash = 0x2222222222222222222222222222222222222222222222222222222222222222,
            p_valid_until = 1700000000, p_nonce = 3, p_signature = replicate 65 0x11, p_status = Active,
            p_rejection_reason = None, p_gas_used = None, p_trampoline = None, p_settlement_tx_hash = None,
            p_penalty_tx_hash = None\<rparr>
      in if kind_of = ''received'' then Received p
         else if kind_of = ''validated'' \<or> kind_of = ''rejected'' then
           StatusChanged (p_id p) (p_sub_solver p) (p_order_uid p) Submitted
             (if kind_of = ''validated'' then Active else Rejected)
             (if kind_of = ''rejected'' then Some InsufficientEscrow else None) None
         else AuditCancelled (p_id p) (p_sub_solver p) (p_order_uid p))"

lemmas [domain_run] = event_for_def received_payload_def interaction_payload_def tx_entry_def

definition dispute_keys_agree_across_variants :: bool where
  "dispute_keys_agree_across_variants \<longleftrightarrow>
     list_all (\<lambda>kind_of. let event = event_for kind_of in
       kind_proposal_id event = ProposalId 7 \<and> kind_sub_solver event = 0xaa \<and> kind_order_uid event = uid_of 0xab)
     [''received'', ''cancelled'', ''validated'']"

definition received_payload_is_full_evidence :: bool where
  "received_payload_is_full_evidence \<longleftrightarrow>
     (let event = event_for ''received''; field = json_get (payload std_codec event) in
      event_type event = ''received'' \<and>
      field ''id'' = Some (JNum 7) \<and>
      field ''subSolver'' = Some (JStr ''0x00000000000000000000000000000000000000aa'') \<and>
      field ''orderUid'' = Some (JStr (''0x'' @ concat (replicate 56 ''ab''))) \<and>
      field ''orderUidHash'' = Some (JStr (''0x'' @ concat (replicate 32 ''11''))) \<and>
      field ''sellAmount'' = Some (JStr ''1000000'') \<and>
      field ''buyAmount'' = Some (JStr ''990000'') \<and>
      field ''validUntil'' = Some (JStr ''1700000000'') \<and>
      field ''nonce'' = Some (JStr ''3'') \<and>
      field ''signature'' = Some (JStr (''0x'' @ concat (replicate 65 ''11''))) \<and>
      (case field ''interactions'' of Some (JArr (i # _)) \<Rightarrow>
         json_get i ''target'' = Some (JStr ''0x00000000000000000000000000000000000000bb'') \<and>
         json_get i ''value'' = Some (JStr ''5'') \<and>
         json_get i ''callData'' = Some (JStr ''0xdeadbeef'') | _ \<Rightarrow> False) \<and>
      field ''interactionsHash'' = Some (JStr (''0x'' @ concat (replicate 32 ''22''))))"

definition cancelled_payload_is_minimal :: bool where
  "cancelled_payload_is_minimal \<longleftrightarrow>
     (let event = event_for ''cancelled'' in event_type event = ''cancelled'' \<and> payload std_codec event = JObj [])"

definition status_changed_payload_records_the_transition :: bool where
  "status_changed_payload_records_the_transition \<longleftrightarrow>
     (let event = event_for ''validated'' in
      event_type event = ''validated'' \<and>
      payload std_codec event =
        JObj [(''from'', JStr ''submitted''), (''to'', JStr ''active''), (''rejectionReason'', JNull)])"

definition rejected_payload_carries_the_reason :: bool where
  "rejected_payload_carries_the_reason \<longleftrightarrow>
     (let event = event_for ''rejected'' in
      event_type event = ''rejected'' \<and>
      json_get (payload std_codec event) ''rejectionReason'' = Some (JStr ''InsufficientEscrow''))"

text \<open>\<open>domain/routing.rs\<close> of the sub-solver.\<close>

lemmas [domain_run] = amount_out_def amount_in_def FEE_NUMERATOR_def FEE_DENOMINATOR_def

definition amount_out_applies_the_constant_product_formula_with_fee :: bool where
  "amount_out_applies_the_constant_product_formula_with_fee \<longleftrightarrow> amount_out 1000 10000 10000 = Some 906"

definition amount_in_is_the_inverse_of_amount_out :: bool where
  "amount_in_is_the_inverse_of_amount_out \<longleftrightarrow>
     (case amount_in 906 10000 10000 of None \<Rightarrow> False
      | Some cost \<Rightarrow> cost = 1000 \<and> amount_out cost 10000 10000 = Some 906)"

definition draining_or_exceeding_the_output_reserve_is_unfillable :: bool where
  "draining_or_exceeding_the_output_reserve_is_unfillable \<longleftrightarrow>
     amount_in 10000 10000 10000 = None \<and> amount_in 10001 10000 10000 = None"

definition empty_reserves_are_unfillable :: bool where
  "empty_reserves_are_unfillable \<longleftrightarrow>
     amount_out 1000 0 10000 = None \<and> amount_out 1000 10000 0 = None \<and> amount_in 10 0 10000 = None"

definition overflowing_amounts_are_unfillable_rather_than_wrong :: bool where
  "overflowing_amounts_are_unfillable_rather_than_wrong \<longleftrightarrow> amount_out (- 1) (- 1) (- 1) = None"

subsection \<open>They pass\<close>

lemma by_numeral:
  "to_hex (numeral k) n = to_hex (pred_numeral k) (n div 16) @ [digit_char (n mod 16)]"
  "replicate (numeral k) x = x # replicate (pred_numeral k) x"
  by (simp_all only: numeral_eq_Suc to_hex.simps replicate.simps)

lemmas std_texts = by_numeral std_codec_def std_word_text_def std_hex_prefixed_def std_hex_byte_def uid_text_def uid_of_def
  show_nat.simps digits

lemma payload_texts:
  "addr_text std_codec 0xaa = ''0x00000000000000000000000000000000000000aa''"
  "addr_text std_codec 0xbb = ''0x00000000000000000000000000000000000000bb''"
  "b256_text std_codec 0x1111111111111111111111111111111111111111111111111111111111111111 = ''0x'' @ concat (replicate 32 ''11'')"
  "b256_text std_codec 0x2222222222222222222222222222222222222222222222222222222222222222 = ''0x'' @ concat (replicate 32 ''22'')"
  "u256_text std_codec 1000000 = ''1000000''" "u256_text std_codec 990000 = ''990000''"
  "u256_text std_codec 1700000000 = ''1700000000''" "u256_text std_codec 3 = ''3''" "u256_text std_codec 5 = ''5''"
  "hex_prefixed std_codec [0xde, 0xad, 0xbe, 0xef] = ''0xdeadbeef''"
  by (simp_all add: std_texts)

lemma repeated_bytes:
  "uid_text std_codec (uid_of 0xab) = ''0x'' @ concat (replicate 56 ''ab'')"
  "hex_prefixed std_codec (replicate n 0x11) = ''0x'' @ concat (replicate n ''11'')"
  by (simp_all add: uid_text_def uid_of_def std_codec_def std_hex_prefixed_def std_hex_byte_def digits)

lemma domain_tests_1:
  "effective_gas_adds_the_buffer"
  "sell_order_positive_surplus"
  "buy_order_positive_surplus"
  "proposal_below_minimum_returns_none"
  "gas_exceeds_surplus_returns_none"
  "surplus_that_overflows_the_conversion_returns_none"
  "build_candidate_fill_or_kill_passes_through"
  "build_candidate_partial_sell_scales_buy_limit"
  "build_candidate_partial_sell_ceil_div"
  "build_candidate_partial_buy_scales_sell_limit"
  "build_candidate_partial_buy_floor_div"
  "build_candidate_full_fill_partial_order_is_noop"
  "build_candidate_partial_sell_zero_order_sell_returns_none"
  "build_candidate_overflow_returns_none"
  "zero_surplus_minus_zero_gas"
  "sell_order_cut_is_the_gas_cost_in_sell_token_atoms"
  by (simp_all add: effective_gas_adds_the_buffer_def sell_order_positive_surplus_def buy_order_positive_surplus_def
      proposal_below_minimum_returns_none_def gas_exceeds_surplus_returns_none_def
      surplus_that_overflows_the_conversion_returns_none_def build_candidate_fill_or_kill_passes_through_def
      build_candidate_partial_sell_scales_buy_limit_def build_candidate_partial_sell_ceil_div_def
      build_candidate_partial_buy_scales_sell_limit_def build_candidate_partial_buy_floor_div_def
      build_candidate_full_fill_partial_order_is_noop_def build_candidate_partial_sell_zero_order_sell_returns_none_def
      build_candidate_overflow_returns_none_def zero_surplus_minus_zero_gas_def
      sell_order_cut_is_the_gas_cost_in_sell_token_atoms_def domain_run)

lemma domain_tests_2:
  "sell_order_cut_that_breaches_the_signed_limit_is_skipped"
  "sell_order_cut_that_lands_exactly_on_the_limit_is_kept"
  "a_cut_that_does_not_divide_evenly_rounds_up"
  "an_unpriced_sell_token_cannot_be_cut"
  "a_cut_that_overflows_the_scaling_is_skipped"
  "buy_order_executes_the_signed_buy_amount"
  "buy_order_cut_over_the_signed_sell_amount_is_skipped"
  "partial_fill_sell_order_within_limit_passes keccak"
  "partial_fill_sell_order_at_exact_limit_passes keccak"
  "partial_fill_sell_order_below_limit_price_rejected keccak"
  "partial_fill_sell_order_exceeding_order_amount_rejected keccak"
  "partial_fill_sell_order_zero_amount_rejected keccak"
  "partial_fill_buy_order_zero_sell_amount_rejected keccak"
  "partial_fill_buy_order_within_limit_passes keccak"
  "partial_fill_buy_order_exceeding_order_amount_rejected keccak"
  "partial_fill_at_full_amount_passes keccak"
  by (simp_all add: sell_order_cut_that_breaches_the_signed_limit_is_skipped_def
      sell_order_cut_that_lands_exactly_on_the_limit_is_kept_def a_cut_that_does_not_divide_evenly_rounds_up_def
      an_unpriced_sell_token_cannot_be_cut_def a_cut_that_overflows_the_scaling_is_skipped_def
      buy_order_executes_the_signed_buy_amount_def buy_order_cut_over_the_signed_sell_amount_is_skipped_def
      partial_fill_sell_order_within_limit_passes_def partial_fill_sell_order_at_exact_limit_passes_def
      partial_fill_sell_order_below_limit_price_rejected_def partial_fill_sell_order_exceeding_order_amount_rejected_def
      partial_fill_sell_order_zero_amount_rejected_def partial_fill_buy_order_zero_sell_amount_rejected_def
      partial_fill_buy_order_within_limit_passes_def partial_fill_buy_order_exceeding_order_amount_rejected_def
      partial_fill_at_full_amount_passes_def domain_run)

lemma domain_tests_3:
  "non_erc20_balance_order_is_rejected keccak"
  "sell_order_with_mismatched_sell_amount_is_rejected keccak"
  "buy_order_with_mismatched_buy_amount_is_rejected keccak"
  "matching_fill_or_kill_order_passes keccak"
  "hooked_order_passes_envelope keccak"
  "hooked_partially_fillable_order_passes_envelope keccak"
  "dispute_keys_agree_across_variants"
  by (simp_all add: non_erc20_balance_order_is_rejected_def sell_order_with_mismatched_sell_amount_is_rejected_def
      buy_order_with_mismatched_buy_amount_is_rejected_def matching_fill_or_kill_order_passes_def
      hooked_order_passes_envelope_def hooked_partially_fillable_order_passes_envelope_def
      dispute_keys_agree_across_variants_def domain_run)

lemma received_payload_is_full_evidence_passes: "received_payload_is_full_evidence"
  by (simp add: received_payload_is_full_evidence_def domain_run payload_texts repeated_bytes)

lemma cancelled_payload_is_minimal_passes: "cancelled_payload_is_minimal"
  by (simp add: cancelled_payload_is_minimal_def domain_run)

lemma status_changed_payload_records_the_transition_passes: "status_changed_payload_records_the_transition"
  by (simp add: status_changed_payload_records_the_transition_def domain_run status_text.simps)

lemma domain_tests_4:
  "rejected_payload_carries_the_reason"
  "amount_out_applies_the_constant_product_formula_with_fee"
  "amount_in_is_the_inverse_of_amount_out"
  "draining_or_exceeding_the_output_reserve_is_unfillable"
  "empty_reserves_are_unfillable"
  "overflowing_amounts_are_unfillable_rather_than_wrong"
  by (simp_all add: rejected_payload_carries_the_reason_def amount_out_applies_the_constant_product_formula_with_fee_def
      amount_in_is_the_inverse_of_amount_out_def draining_or_exceeding_the_output_reserve_is_unfillable_def
      empty_reserves_are_unfillable_def overflowing_amounts_are_unfillable_rather_than_wrong_def domain_run)

end
