(* ===== verification/Settlement_Tests.thy ===== *)
theory Settlement_Tests
  imports Signing Settlement
begin

text \<open>
  The unit tests of \<open>byos-common\<close>: \<open>settlement.rs\<close>, \<open>trampoline.rs\<close>, \<open>hooks.rs\<close> and \<open>eip712.rs\<close>. They decode
  the calls they encode, with the decoders \<open>ds\<close> of \<open>settle()\<close> and \<open>de\<close> of \<open>execute()\<close>, which are parameters like
  the encoders; \<open>abi_reads\<close> is what a decoder promises. Left out are the tests of third-party bytes: the
  pinned calldata, the selectors, the type hash and the hashes.
\<close>

type_synonym settle_decoder = "bytes \<Rightarrow> settle_call option"
type_synonym execute_decoder = "bytes \<Rightarrow> execute_call option"

definition abi_reads :: "abi \<Rightarrow> settle_decoder \<Rightarrow> execute_decoder \<Rightarrow> bool" where
  "abi_reads e ds de \<longleftrightarrow> (\<forall>x. ds (abi_settle e x) = Some x) \<and> (\<forall>x. de (abi_execute e x) = Some x)"

definition decode_execute :: "settle_decoder \<Rightarrow> execute_decoder \<Rightarrow> bytes \<Rightarrow> execute_call option" where
  "decode_execute ds de calldata = Option.bind (ds calldata)
     (\<lambda>settle. case sc_intra settle of _ # execute # _ \<Rightarrow> de (i_callData execute) | _ \<Rightarrow> None)"

definition passes :: "'a option \<Rightarrow> ('a \<Rightarrow> bool) \<Rightarrow> bool" where
  "passes x P \<longleftrightarrow> (case x of None \<Rightarrow> False | Some a \<Rightarrow> P a)"

text \<open>\<open>settlement.rs\<close>.\<close>

definition fixture_order :: cow_order where
  "fixture_order =
     \<lparr>co_sell_token = 0xB1F1ee126e9c96231Cc3d3fAD7C08b4cf873b1f1, co_buy_token = 0xA0b86991c6218b36c1d19D4a2e9Eb0cE3606eB48,
      co_receiver = 0xd2e80D60aff5377587E49FF32c9bad639d6f68Bc, co_sell_amount = 20000002675677095795,
      co_buy_amount = 773213156, co_valid_to = 1785170912,
      co_app_data = 0x06ebf0fd49ea441fbd174e445f37f792eb8ee8848c66c470f59d06a1c3e318a4, co_fee_amount = 0,
      co_kind = Sell, co_partially_fillable = False, co_signing_scheme = Eip712,
      co_signature = be_bytes 65 (0x45bcd35b2abeeafca8cd2ea00bd662ab327e0ffd7cd38319eeff8432fd49409f6e56384a88dcdc050d92b389285c3cfd78c903f3a20f64641b9f907dbf9de8b71c :: 520 word)\<rparr>"

definition fixture_proposal :: "(bytes \<Rightarrow> b256) \<Rightarrow> onchain_proposal" where
  "fixture_proposal keccak =
     \<lparr>oc_orderUidHash = keccak (be_bytes 56 (0xb9403b4c8342c3567e5b1928398030f010730c0b1d83657248e4e4e47984d90bd2e80d60aff5377587e49ff32c9bad639d6f68bc6a678be0 :: 448 word)),
      oc_sellAmount = 20000002675677095795, oc_buyAmount = 773213156, oc_validUntil = 1785174512, oc_nonce = 0\<rparr>"

text \<open>\<open>encode_settle\<close> with the arguments the tests share: the trampoline, an empty route, the signature.\<close>

definition encoded :: "abi \<Rightarrow> cow_order \<Rightarrow> onchain_proposal \<Rightarrow> interaction list \<Rightarrow> interaction list \<Rightarrow> bytes" where
  "encoded e ord oc pre post = encode_settle e ord oc 0x7777 [] (replicate 65 0x11) pre post"

definition buy_order_flags_and_executed_amount :: "abi \<Rightarrow> (bytes \<Rightarrow> b256) \<Rightarrow> settle_decoder \<Rightarrow> bool" where
  "buy_order_flags_and_executed_amount e keccak ds \<longleftrightarrow>
     (let ord = fixture_order\<lparr>co_kind := Buy, co_signing_scheme := Eip1271\<rparr> in
      passes (ds (encoded e ord (fixture_proposal keccak) [] [])) (\<lambda>decoded. case sc_trades decoded of [] \<Rightarrow> False
      | trade # _ \<Rightarrow> td_flags trade = u256_of (1 OR push_bit 5 2 :: u64) \<and>
          td_executedAmount trade = oc_buyAmount (fixture_proposal keccak)))"

definition BUY_ETH_ADDRESS :: address where
  "BUY_ETH_ADDRESS = 0xEeeeeEeeeEeEeeEeEeEeeEEEeeeeEeeeeeeeEEeE"

definition native_eth_buy_order_passes_the_marker_through ::
  "abi \<Rightarrow> (bytes \<Rightarrow> b256) \<Rightarrow> settle_decoder \<Rightarrow> execute_decoder \<Rightarrow> bool" where
  "native_eth_buy_order_passes_the_marker_through e keccak ds de \<longleftrightarrow>
     (let ord = fixture_order\<lparr>co_buy_token := BUY_ETH_ADDRESS\<rparr>; oc = fixture_proposal keccak;
          calldata = encoded e ord oc [] [] in
      passes (ds calldata) (\<lambda>settle.
        sc_tokens settle = [co_sell_token ord, BUY_ETH_ADDRESS] \<and>
        passes (decode_execute ds de calldata) (\<lambda>execute. ec_buyToken execute = BUY_ETH_ADDRESS) \<and>
        map i_target (take 1 (sc_intra settle)) = [co_sell_token ord] \<and>
        sc_clearingPrices settle = [oc_buyAmount oc, oc_sellAmount oc]))"

definition partial_fill_uses_proposal_amounts_for_executed_amount :: "abi \<Rightarrow> (bytes \<Rightarrow> b256) \<Rightarrow> settle_decoder \<Rightarrow> bool" where
  "partial_fill_uses_proposal_amounts_for_executed_amount e keccak ds \<longleftrightarrow>
     (let ord = fixture_order\<lparr>co_partially_fillable := True\<rparr>;
          half_sell = co_sell_amount ord div 2; half_buy = co_buy_amount ord div 2;
          oc = (fixture_proposal keccak)\<lparr>oc_sellAmount := half_sell, oc_buyAmount := half_buy\<rparr> in
      passes (ds (encoded e ord oc [] [])) (\<lambda>decoded. case sc_trades decoded of [] \<Rightarrow> False
      | trade # _ \<Rightarrow> td_executedAmount trade = half_sell \<and> sc_clearingPrices decoded = [half_buy, half_sell] \<and>
          td_flags trade AND 2 \<noteq> 0))"

definition partial_fill_buy_order_uses_proposal_buy_amount :: "abi \<Rightarrow> (bytes \<Rightarrow> b256) \<Rightarrow> settle_decoder \<Rightarrow> bool" where
  "partial_fill_buy_order_uses_proposal_buy_amount e keccak ds \<longleftrightarrow>
     (let ord = fixture_order\<lparr>co_partially_fillable := True, co_kind := Buy\<rparr>;
          half_buy = co_buy_amount ord div 2;
          oc = (fixture_proposal keccak)\<lparr>oc_sellAmount := co_sell_amount ord div 2, oc_buyAmount := half_buy\<rparr> in
      passes (ds (encoded e ord oc [] [])) (\<lambda>decoded. case sc_trades decoded of [] \<Rightarrow> False
      | trade # _ \<Rightarrow> td_executedAmount trade = half_buy))"

definition same_token_order_still_pays_the_proposal_buy_amount ::
  "abi \<Rightarrow> (bytes \<Rightarrow> b256) \<Rightarrow> settle_decoder \<Rightarrow> execute_decoder \<Rightarrow> bool" where
  "same_token_order_still_pays_the_proposal_buy_amount e keccak ds de \<longleftrightarrow>
     (let ord = fixture_order\<lparr>co_buy_token := co_sell_token fixture_order, co_buy_amount := 19000000000000000000\<rparr>;
          oc = (fixture_proposal keccak)\<lparr>oc_buyAmount := co_buy_amount ord\<rparr>;
          calldata = encoded e ord oc [] [] in
      passes (ds calldata) (\<lambda>settle.
        passes (decode_execute ds de calldata) (\<lambda>execute. ec_sellToken execute = ec_buyToken execute) \<and>
        sc_tokens settle = [co_sell_token ord, co_sell_token ord] \<and>
        (case sc_clearingPrices settle of [sell_price, buy_price] \<Rightarrow>
           co_sell_amount ord * sell_price div buy_price = oc_buyAmount oc | _ \<Rightarrow> False)))"

definition pre_and_post_hook_interactions_are_spliced_into_the_settlement ::
  "abi \<Rightarrow> (bytes \<Rightarrow> b256) \<Rightarrow> settle_decoder \<Rightarrow> bool" where
  "pre_and_post_hook_interactions_are_spliced_into_the_settlement e keccak ds \<longleftrightarrow>
     (let pre = [\<lparr>i_target = 0xaaaa, i_value = 0, i_callData = replicate 4 0x11\<rparr>];
          post = [\<lparr>i_target = 0xbbbb, i_value = 0, i_callData = replicate 4 0x22\<rparr>,
                  \<lparr>i_target = 0xcccc, i_value = 0, i_callData = replicate 4 0x33\<rparr>] in
      passes (ds (encoded e fixture_order (fixture_proposal keccak) pre post)) (\<lambda>settle.
        length (sc_pre settle) = 1 \<and> map i_target (sc_pre settle) = map i_target pre \<and>
        map i_callData (sc_pre settle) = map i_callData pre \<and>
        length (sc_intra settle) = 2 \<and>
        length (sc_post settle) = 2 \<and> map i_target (sc_post settle) = map i_target post \<and>
        map i_callData (sc_post settle) = map i_callData post))"

definition partial_fill_with_hooks_encodes_both_correctly :: "abi \<Rightarrow> (bytes \<Rightarrow> b256) \<Rightarrow> settle_decoder \<Rightarrow> bool" where
  "partial_fill_with_hooks_encodes_both_correctly e keccak ds \<longleftrightarrow>
     (let ord = fixture_order\<lparr>co_partially_fillable := True\<rparr>;
          half_sell = co_sell_amount ord div 2; half_buy = co_buy_amount ord div 2;
          oc = (fixture_proposal keccak)\<lparr>oc_sellAmount := half_sell, oc_buyAmount := half_buy\<rparr>;
          pre = [\<lparr>i_target = 0xaaaa, i_value = 0, i_callData = replicate 4 0x11\<rparr>];
          post = [\<lparr>i_target = 0xbbbb, i_value = 0, i_callData = replicate 4 0x22\<rparr>] in
      passes (ds (encoded e ord oc pre post)) (\<lambda>settle. case sc_trades settle of [] \<Rightarrow> False
      | trade # _ \<Rightarrow> td_executedAmount trade = half_sell \<and> td_flags trade AND 2 \<noteq> 0 \<and>
          sc_clearingPrices settle = [half_buy, half_sell] \<and>
          length (sc_pre settle) = 1 \<and> map i_target (sc_pre settle) = map i_target pre \<and>
          length (sc_intra settle) = 2 \<and>
          length (sc_post settle) = 1 \<and> map i_target (sc_post settle) = map i_target post))"

text \<open>\<open>trampoline.rs\<close>.\<close>

definition trampoline_proposal :: onchain_proposal where
  "trampoline_proposal =
     \<lparr>oc_orderUidHash = 0xaaaaaaaaaaaaaaaaaaaaaaaaaaaaaaaaaaaaaaaaaaaaaaaaaaaaaaaaaaaaaaaa, oc_sellAmount = 1000000,
      oc_buyAmount = 990000, oc_validUntil = 1700000000, oc_nonce = 1\<rparr>"

definition trampoline_route :: "interaction list" where
  "trampoline_route = [\<lparr>i_target = 0x42, i_value = 0, i_callData = [0xab, 0xcd, 0xef]\<rparr>]"

definition execute_calldata_round_trips :: "abi \<Rightarrow> execute_decoder \<Rightarrow> bool" where
  "execute_calldata_round_trips e de \<longleftrightarrow>
     (let sell_token = 0x5678; buy_token = 0x9abc; signature = replicate 65 1 in
      case encode_trampoline_interactions e 0x1234 sell_token trampoline_proposal trampoline_route buy_token signature of
        [_, execute] \<Rightarrow> passes (de (i_callData execute)) (\<lambda>decoded.
          ec_proposal decoded = trampoline_proposal \<and> ec_interactions decoded = trampoline_route \<and>
          ec_sellToken decoded = sell_token \<and> ec_buyToken decoded = buy_token \<and> ec_signature decoded = signature)
      | _ \<Rightarrow> False)"

definition empty_interactions_encodes :: "abi \<Rightarrow> execute_decoder \<Rightarrow> bool" where
  "empty_interactions_encodes e de \<longleftrightarrow>
     (case encode_trampoline_interactions e 0x1234 0x5678 trampoline_proposal [] 0x9abc (replicate 65 0) of
        [_, execute] \<Rightarrow> passes (de (i_callData execute)) (\<lambda>decoded. ec_interactions decoded = [])
      | _ \<Rightarrow> False)"

text \<open>\<open>hooks.rs\<close>.\<close>

definition hooks_default_is_empty :: bool where
  "hooks_default_is_empty \<longleftrightarrow>
     hooks_is_empty default_hooks \<and> hks_pre default_hooks = [] \<and> hks_post default_hooks = []"

text \<open>\<open>eip712.rs\<close>, for a signer whose signing succeeds.\<close>

definition sign_and_recover_round_trip :: "crypto \<Rightarrow> signer \<Rightarrow> bool" where
  "sign_and_recover_round_trip k s \<longleftrightarrow>
     (let domain = byos_domain 1 0xDeaDBeef;
          oc = \<lparr>oc_orderUidHash = 0xaaaaaaaaaaaaaaaaaaaaaaaaaaaaaaaaaaaaaaaaaaaaaaaaaaaaaaaaaaaaaaaa, oc_sellAmount = 1000000,
            oc_buyAmount = 990000, oc_validUntil = 1700000000, oc_nonce = 42\<rparr>;
          interactions = [\<lparr>i_target = 1, i_value = 0, i_callData = [1, 2, 3]\<rparr>] in
      passes (sign_proposal k s domain oc interactions) (\<lambda>sig.
        recover_proposer k sig domain oc (compute_interactions_hash k interactions) = Some (sg_address s)))"

definition cancel_proposal_sign_and_recover :: "crypto \<Rightarrow> signer \<Rightarrow> bool" where
  "cancel_proposal_sign_and_recover k s \<longleftrightarrow>
     (let domain = byos_domain 1 0xDeaDBeef in
      passes (sign_cancellation k s domain 42) (\<lambda>sig. recover_canceller k sig domain 42 = Some (sg_address s)))"

definition read_auth_sign_and_recover :: "crypto \<Rightarrow> signer \<Rightarrow> bool" where
  "read_auth_sign_and_recover k s \<longleftrightarrow>
     (let domain = byos_domain 1 0xDeaDBeef in
      passes (sign_read_auth k s domain) (\<lambda>sig. recover_reader k sig domain = Some (sg_address s)))"

subsection \<open>They pass\<close>

lemmas settles = fixture_order_def fixture_proposal_def encoded_def encode_settle_def settle_of_def
  encode_trampoline_interactions_def decode_execute_def passes_def abi_reads_def trade_flags_def u256_of_def Let_def

lemma settlement_tests:
  assumes "abi_reads e ds de"
  shows "buy_order_flags_and_executed_amount e keccak ds"
    and "native_eth_buy_order_passes_the_marker_through e keccak ds de"
    and "partial_fill_uses_proposal_amounts_for_executed_amount e keccak ds"
    and "partial_fill_buy_order_uses_proposal_buy_amount e keccak ds"
    and "same_token_order_still_pays_the_proposal_buy_amount e keccak ds de"
    and "pre_and_post_hook_interactions_are_spliced_into_the_settlement e keccak ds"
    and "partial_fill_with_hooks_encodes_both_correctly e keccak ds"
  using assms
  by (simp_all add: buy_order_flags_and_executed_amount_def native_eth_buy_order_passes_the_marker_through_def
      partial_fill_uses_proposal_amounts_for_executed_amount_def partial_fill_buy_order_uses_proposal_buy_amount_def
      same_token_order_still_pays_the_proposal_buy_amount_def
      pre_and_post_hook_interactions_are_spliced_into_the_settlement_def
      partial_fill_with_hooks_encodes_both_correctly_def settles)

lemma trampoline_tests:
  assumes "abi_reads e ds de"
  shows "execute_calldata_round_trips e de" and "empty_interactions_encodes e de"
  using assms by (simp_all add: execute_calldata_round_trips_def empty_interactions_encodes_def settles)

lemma hooks_default_is_empty_passes: "hooks_default_is_empty"
  by (simp add: hooks_default_is_empty_def hooks_is_empty_def default_hooks_def)

lemma signing_tests:
  assumes "signs_as k s" and "\<forall>h. sg_sign_hash s h \<noteq> None"
  shows "sign_and_recover_round_trip k s" and "cancel_proposal_sign_and_recover k s" and "read_auth_sign_and_recover k s"
proof -
  have some: "\<exists>sig. sg_sign_hash s h = Some sig" for h using assms(2) by blast
  show "sign_and_recover_round_trip k s" "cancel_proposal_sign_and_recover k s" "read_auth_sign_and_recover k s"
    using some recover_signed [OF assms(1)]
    by (auto simp: sign_and_recover_round_trip_def cancel_proposal_sign_and_recover_def read_auth_sign_and_recover_def
        passes_def Let_def sign_proposal_def sign_cancellation_def sign_read_auth_def split: option.split)
qed

end
