(* ===== verification/Loop_Tests.thy ===== *)
theory Loop_Tests
  imports Test_Support Penalty_Loop
begin

text \<open>
  The unit tests of the validation loop (\<open>infra/validation.rs\<close>) and of the penalty loop
  (\<open>infra/penalty.rs\<close>) under their names, the ones of the spawned tasks aside. \<open>ran\<close> runs a tick; a stub
  of the chain edge is a pair of functions over what it records or counts.
\<close>

named_theorems loop_run \<open>how the tests of the loops run\<close>

definition ran :: "(store \<Rightarrow> 's \<times> store) \<Rightarrow> ('s \<Rightarrow> test) \<Rightarrow> test" where
  "ran m k f = (case m (fx_store f) of (s, st) \<Rightarrow> k s (f\<lparr>fx_store := st\<rparr>))"

lemma ran_step [loop_run]: "ran m k f = (case m (fx_store f) of (s, st) \<Rightarrow> k s (f\<lparr>fx_store := st\<rparr>))"
  by (simp add: ran_def)

definition repeat_byte_1 :: address where
  "repeat_byte_1 = 0x0101010101010101010101010101010101010101"

subsection \<open>The validation tick\<close>

definition EXECUTING_TIMEOUT :: time where
  "EXECUTING_TIMEOUT = from_secs 3600"

definition submitted_proposal :: "(bytes \<Rightarrow> b256) \<Rightarrow> proposal" where
  "submitted_proposal keccak = test_proposal keccak (uid_of 0xaa) repeat_byte_1 Submitted"

definition fail_all :: "proposal \<Rightarrow> unit \<Rightarrow> verdict option \<times> unit" where
  "fail_all p s = (Some VSimFailed, s)"

definition validated_by_tick :: "(proposal \<Rightarrow> unit \<Rightarrow> verdict option \<times> unit) \<Rightarrow> clock \<Rightarrow> u64 \<Rightarrow> time \<Rightarrow> test \<Rightarrow> test" where
  "validated_by_tick validate clk now timeout k = ran (run_tick validate (\<lambda>s. s) (\<lambda>ps. ps) std_codec clk now timeout ()) (\<lambda>_. k)"

definition tick_flips_submitted_to_active_with_accept_all :: "clock \<Rightarrow> (bytes \<Rightarrow> b256) \<Rightarrow> test" where
  "tick_flips_submitted_to_active_with_accept_all clk keccak =
     inserted clk (submitted_proposal keccak) (\<lambda>pid.
     validated_by_tick accept_all clk 0 EXECUTING_TIMEOUT (
     fetched pid (\<lambda>p. assert (p_status p = Active) passed)))"

definition tick_marks_sim_failed_proposals :: "clock \<Rightarrow> (bytes \<Rightarrow> b256) \<Rightarrow> test" where
  "tick_marks_sim_failed_proposals clk keccak =
     inserted clk (submitted_proposal keccak) (\<lambda>pid.
     validated_by_tick fail_all clk 0 EXECUTING_TIMEOUT (
     fetched pid (\<lambda>p. assert (p_status p = SimFailed \<and> p_rejection_reason p = None) passed)))"

definition tick_expires_active_proposals_past_valid_until :: "clock \<Rightarrow> (bytes \<Rightarrow> b256) \<Rightarrow> test" where
  "tick_expires_active_proposals_past_valid_until clk keccak =
     inserted clk ((submitted_proposal keccak)\<lparr>p_status := Active, p_valid_until := 1000\<rparr>) (\<lambda>pid.
     validated_by_tick accept_all clk 1001 EXECUTING_TIMEOUT (
     fetched pid (\<lambda>p. assert (p_status p = Expired) passed)))"

text \<open>In the two tests of a zero timeout, the database's clock has moved on when the tick runs.\<close>

definition later :: "clock \<Rightarrow> clock" where
  "later clk = clk\<lparr>db_now := db_now clk + 1\<rparr>"

definition tick_releases_executing_proposals_past_the_timeout :: "clock \<Rightarrow> (bytes \<Rightarrow> b256) \<Rightarrow> test" where
  "tick_releases_executing_proposals_past_the_timeout clk keccak =
     inserted clk ((submitted_proposal keccak)\<lparr>p_status := Executing\<rparr>) (\<lambda>pid.
     validated_by_tick accept_all (later clk) 0 0 (
     fetched pid (\<lambda>p. assert (p_status p = Active) passed)))"

definition timeout_release_queues_no_non_settlement_penalty :: "clock \<Rightarrow> (bytes \<Rightarrow> b256) \<Rightarrow> test" where
  "timeout_release_queues_no_non_settlement_penalty clk keccak =
     inserted clk ((submitted_proposal keccak)\<lparr>p_status := Executing\<rparr>) (\<lambda>_.
     validated_by_tick accept_all (later clk) 0 0 (
     expect (pending_penalties std_codec) (\<lambda>pending. assert (pending = []) passed)))"

definition tick_never_touches_executing_proposals :: "clock \<Rightarrow> (bytes \<Rightarrow> b256) \<Rightarrow> test" where
  "tick_never_touches_executing_proposals clk keccak =
     inserted clk ((submitted_proposal keccak)\<lparr>p_status := Executing, p_valid_until := 1000\<rparr>) (\<lambda>pid.
     validated_by_tick fail_all clk 2000 EXECUTING_TIMEOUT (
     fetched pid (\<lambda>p. assert (p_status p = Executing) passed)))"

definition tick_expires_submitted_proposals_instead_of_validating_them :: "clock \<Rightarrow> (bytes \<Rightarrow> b256) \<Rightarrow> test" where
  "tick_expires_submitted_proposals_instead_of_validating_them clk keccak =
     inserted clk ((submitted_proposal keccak)\<lparr>p_valid_until := 1000\<rparr>) (\<lambda>pid.
     validated_by_tick accept_all clk 1001 EXECUTING_TIMEOUT (
     fetched pid (\<lambda>p. assert (p_status p = Expired) passed)))"

lemmas [loop_run] = repeat_byte_1_def EXECUTING_TIMEOUT_def submitted_proposal_def fail_all_def validated_by_tick_def later_def
  run_tick_def accept_all_def u256_of_def

lemma loop_tests:
  "tick_flips_submitted_to_active_with_accept_all clk keccak test_store"
  "tick_marks_sim_failed_proposals clk keccak test_store"
  "tick_expires_active_proposals_past_valid_until clk keccak test_store"
  "tick_releases_executing_proposals_past_the_timeout clk keccak test_store"
  "timeout_release_queues_no_non_settlement_penalty clk keccak test_store"
  "tick_never_touches_executing_proposals clk keccak test_store"
  "tick_expires_submitted_proposals_instead_of_validating_them clk keccak test_store"
  by (simp_all add: tick_flips_submitted_to_active_with_accept_all_def tick_marks_sim_failed_proposals_def
      tick_expires_active_proposals_past_valid_until_def tick_releases_executing_proposals_past_the_timeout_def
      timeout_release_queues_no_non_settlement_penalty_def tick_never_touches_executing_proposals_def
      tick_expires_submitted_proposals_instead_of_validating_them_def test_run loop_run)

subsection \<open>The penalty tick\<close>

definition C_L :: u256 where "C_L = 10000000000000000"
definition SETTLEMENT_TX :: b256 where "SETTLEMENT_TX = 0x2222222222222222222222222222222222222222222222222222222222222222"
definition PENALTY_TX :: b256 where "PENALTY_TX = 0x7777777777777777777777777777777777777777777777777777777777777777"

text \<open>The chain edges: \<open>StubOperator\<close> lands every debit and records it, \<open>FlakyOperator\<close> fails a number of
  times first, \<open>DeadOperator\<close> and \<open>UnpriceableOperator\<close> never succeed and count how often they were asked.
  The debit of the last panics in the source; the counter of its model would then be off.\<close>

type_synonym debits = "(address \<times> u256 \<times> b256) list"

definition stub_settlement_cost :: "u256 \<Rightarrow> b256 \<Rightarrow> debits \<Rightarrow> (debit_error + u256) \<times> debits" where
  "stub_settlement_cost price tx debits = (Inr price, debits)"

definition stub_debit :: "address \<Rightarrow> u256 \<Rightarrow> b256 \<Rightarrow> debits \<Rightarrow> (debit_error + b256) \<times> debits" where
  "stub_debit sub_solver amount reason debits = (Inr PENALTY_TX, debits @ [(sub_solver, amount, reason)])"

definition fixed_settlement_cost :: "b256 \<Rightarrow> nat \<Rightarrow> (debit_error + u256) \<times> nat" where
  "fixed_settlement_cost tx n = (Inr 1000, n)"

definition flaky_debit :: "address \<Rightarrow> u256 \<Rightarrow> b256 \<Rightarrow> nat \<Rightarrow> (debit_error + b256) \<times> nat" where
  "flaky_debit sub_solver amount reason failures_left =
     (case failures_left of Suc n \<Rightarrow> (Inl (Transient ''debit tx not mined''), n) | 0 \<Rightarrow> (Inr PENALTY_TX, 0))"

definition dead_debit :: "address \<Rightarrow> u256 \<Rightarrow> b256 \<Rightarrow> nat \<Rightarrow> (debit_error + b256) \<times> nat" where
  "dead_debit sub_solver amount reason calls = (Inl (Transient ''operator lacks OPERATOR_ROLE''), calls + 1)"

definition unpriceable_settlement_cost :: "b256 \<Rightarrow> nat \<Rightarrow> (debit_error + u256) \<times> nat" where
  "unpriceable_settlement_cost tx lookups = (Inl (Transient ''no receipt for that tx''), lookups + 1)"

definition panicking_debit :: "address \<Rightarrow> u256 \<Rightarrow> b256 \<Rightarrow> nat \<Rightarrow> (debit_error + b256) \<times> nat" where
  "panicking_debit sub_solver amount reason lookups = (Inl (Transient ''must not debit a settlement it could not price''), lookups + 1000)"

text \<open>A tick over the attempts and the edge, and \<open>n\<close> of them.\<close>

type_synonym 'e chain_edge =
  "(b256 \<Rightarrow> 'e \<Rightarrow> (debit_error + u256) \<times> 'e) \<times> (address \<Rightarrow> u256 \<Rightarrow> b256 \<Rightarrow> 'e \<Rightarrow> (debit_error + b256) \<times> 'e)"

definition ticked_once ::
  "(bytes \<Rightarrow> b256) \<Rightarrow> clock \<Rightarrow> 'e chain_edge \<Rightarrow> debit_attempts \<times> 'e \<Rightarrow> (debit_attempts \<times> 'e \<Rightarrow> test) \<Rightarrow> test" where
  "ticked_once keccak clk edge s k =
     ran (\<lambda>st. case penalty_tick (fst edge) (snd edge) keccak std_codec clk C_L (fst s, snd s, st) of
       (attempts, e, st') \<Rightarrow> ((attempts, e), st')) k"

fun ticked_times ::
  "nat \<Rightarrow> (bytes \<Rightarrow> b256) \<Rightarrow> clock \<Rightarrow> 'e chain_edge \<Rightarrow> debit_attempts \<times> 'e \<Rightarrow> (debit_attempts \<times> 'e \<Rightarrow> test) \<Rightarrow> test" where
  "ticked_times 0 keccak clk edge s k = k s"
| "ticked_times (Suc n) keccak clk edge s k = ticked_once keccak clk edge s (\<lambda>s. ticked_times n keccak clk edge s k)"

definition settle_failed :: "(bytes \<Rightarrow> b256) \<Rightarrow> proposal" where
  "settle_failed keccak = (test_proposal keccak (uid_of 0xaa) repeat_byte_1 SettleFailed)\<lparr>p_settlement_tx_hash := Some SETTLEMENT_TX\<rparr>"

definition a_settle_failed_proposal_without_a_settlement_tx_is_not_debited :: "clock \<Rightarrow> (bytes \<Rightarrow> b256) \<Rightarrow> test" where
  "a_settle_failed_proposal_without_a_settlement_tx_is_not_debited clk keccak =
     inserted clk (test_proposal keccak (uid_of 0xaa) repeat_byte_1 SettleFailed) (\<lambda>pid.
     ticked_once keccak clk (stub_settlement_cost 6000000000000000, stub_debit) (no_attempts, []) (\<lambda>(_, debits).
     assert (debits = []) (
     fetched pid (\<lambda>p. assert (p_status p = SettleFailed) passed))))"

definition tick_debits_queued_non_settlement_penalties_once :: "clock \<Rightarrow> (bytes \<Rightarrow> b256) \<Rightarrow> test" where
  "tick_debits_queued_non_settlement_penalties_once clk keccak =
     (let order_uid = uid_of 0xaa; operator = (stub_settlement_cost 0, stub_debit) in
     inserted clk (test_proposal keccak order_uid repeat_byte_1 Active) (\<lambda>pid.
     fetched pid (\<lambda>stored.
     expect (queue_non_settlement_penalty std_codec stored) (\<lambda>_.
     ticked_once keccak clk operator (no_attempts, []) (\<lambda>(attempts, debits).
     assert (debits = [(repeat_byte_1, C_L div 10, keccak (uid_bytes order_uid))]) (
     expect (pending_penalties std_codec) (\<lambda>pending.
     assert (pending = []) (
     fetched pid (\<lambda>p.
     assert (p_status p = Active) (
     ticked_once keccak clk operator (attempts, debits) (\<lambda>(_, debits).
     assert (length debits = 1)
     passed)))))))))))"

definition failed_debit_stays_settle_failed_until_a_later_tick_lands_it :: "clock \<Rightarrow> (bytes \<Rightarrow> b256) \<Rightarrow> test" where
  "failed_debit_stays_settle_failed_until_a_later_tick_lands_it clk keccak =
     inserted clk (settle_failed keccak) (\<lambda>pid.
     ticked_once keccak clk (fixed_settlement_cost, flaky_debit) (no_attempts, 1) (\<lambda>s.
     fetched pid (\<lambda>p.
     assert (p_status p = SettleFailed) (
     ticked_once keccak clk (fixed_settlement_cost, flaky_debit) s (\<lambda>_.
     fetched pid (\<lambda>proposal.
     assert (p_status proposal = Penalized \<and> p_penalty_tx_hash proposal = Some PENALTY_TX)
     passed))))))"

definition a_permanently_failing_revert_debit_is_given_up_on :: "clock \<Rightarrow> (bytes \<Rightarrow> b256) \<Rightarrow> test" where
  "a_permanently_failing_revert_debit_is_given_up_on clk keccak =
     inserted clk (settle_failed keccak) (\<lambda>pid.
     ticked_times (unat MAX_DEBIT_ATTEMPTS + 5) keccak clk (fixed_settlement_cost, dead_debit) (no_attempts, 0) (\<lambda>(_, calls).
     assert (calls = unat MAX_DEBIT_ATTEMPTS) (
     fetched pid (\<lambda>p. assert (p_status p = SettleFailed) passed))))"

definition a_permanently_unpriceable_settlement_stops_being_looked_up :: "clock \<Rightarrow> (bytes \<Rightarrow> b256) \<Rightarrow> test" where
  "a_permanently_unpriceable_settlement_stops_being_looked_up clk keccak =
     inserted clk (settle_failed keccak) (\<lambda>pid.
     ticked_times (unat MAX_DEBIT_ATTEMPTS + 5) keccak clk (unpriceable_settlement_cost, panicking_debit) (no_attempts, 0) (\<lambda>(_, lookups).
     assert (lookups = unat MAX_DEBIT_ATTEMPTS) (
     fetched pid (\<lambda>p. assert (p_status p = SettleFailed) passed))))"

definition a_permanently_failing_non_settlement_debit_is_given_up_on :: "clock \<Rightarrow> (bytes \<Rightarrow> b256) \<Rightarrow> test" where
  "a_permanently_failing_non_settlement_debit_is_given_up_on clk keccak =
     inserted clk (test_proposal keccak (uid_of 0xaa) repeat_byte_1 Active) (\<lambda>pid.
     fetched pid (\<lambda>stored.
     expect (queue_non_settlement_penalty std_codec stored) (\<lambda>_.
     ticked_times (unat MAX_DEBIT_ATTEMPTS + 5) keccak clk (fixed_settlement_cost, dead_debit) (no_attempts, 0) (\<lambda>(_, calls).
     assert (calls = unat MAX_DEBIT_ATTEMPTS) (
     expect (pending_penalties std_codec) (\<lambda>pending. assert (length pending = 1) passed))))))"

definition tick_debits_a_settle_failed_proposal_and_marks_it_penalized :: "clock \<Rightarrow> (bytes \<Rightarrow> b256) \<Rightarrow> test" where
  "tick_debits_a_settle_failed_proposal_and_marks_it_penalized clk keccak =
     inserted clk (settle_failed keccak) (\<lambda>pid.
     ticked_once keccak clk (stub_settlement_cost 6000000000000000, stub_debit) (no_attempts, []) (\<lambda>(_, debits).
     fetched pid (\<lambda>proposal.
     assert (p_status proposal = Penalized \<and> p_penalty_tx_hash proposal = Some PENALTY_TX) (
     assert (debits = [(repeat_byte_1, 16000000000000000, SETTLEMENT_TX)])
     passed))))"

lemma attempt_steps [loop_run]: "unat MAX_DEBIT_ATTEMPTS = 10" "parked (\<lambda>_. None) k = False" "parked (m(k \<mapsto> n)) k = (10 \<le> n)"
  "\<not> (10::u32) \<le> 1"
  by (simp_all add: MAX_DEBIT_ATTEMPTS_def parked_def word_le_nat_alt)

lemma fifteen_ticks [loop_run]:
  "ticked_times 15 keccak clk edge s k = ticked_times (Suc (Suc (Suc (Suc (Suc (Suc (Suc (Suc (Suc (Suc (Suc (Suc (Suc (Suc (Suc 0))))))))))))))) keccak clk edge s k"
  by (simp add: eval_nat_numeral)

lemma settle_failed_id [loop_run]: "p_id (settle_failed keccak) = ProposalId 0"
  by (simp add: settle_failed_def test_proposal_def)

lemmas [loop_run] = C_L_def SETTLEMENT_TX_def PENALTY_TX_def stub_settlement_cost_def stub_debit_def fixed_settlement_cost_def
  flaky_debit_def dead_debit_def unpriceable_settlement_cost_def panicking_debit_def ticked_once_def settle_failed_def
  penalty_tick_def revert_debits_def non_settlement_debits_def revert_one_def non_settlement_one_def
  no_attempts_def count_failure_def note_debit_failure_def revert_debit_def non_settlement_debit_def saturating_add_def

lemma a_settle_failed_proposal_without_a_settlement_tx_is_not_debited_passes:
  "a_settle_failed_proposal_without_a_settlement_tx_is_not_debited clk keccak test_store"
  by (simp add: a_settle_failed_proposal_without_a_settlement_tx_is_not_debited_def test_run loop_run)

lemma tick_debits_queued_non_settlement_penalties_once_passes:
  "tick_debits_queued_non_settlement_penalties_once clk keccak test_store"
  by (simp add: tick_debits_queued_non_settlement_penalties_once_def test_run loop_run)

lemma failed_debit_stays_settle_failed_until_a_later_tick_lands_it_passes:
  "failed_debit_stays_settle_failed_until_a_later_tick_lands_it clk keccak test_store"
  by (simp add: failed_debit_stays_settle_failed_until_a_later_tick_lands_it_def test_run loop_run)

lemma a_permanently_failing_revert_debit_is_given_up_on_passes:
  "a_permanently_failing_revert_debit_is_given_up_on clk keccak test_store"
  by (simp add: a_permanently_failing_revert_debit_is_given_up_on_def test_run loop_run)

lemma a_permanently_unpriceable_settlement_stops_being_looked_up_passes:
  "a_permanently_unpriceable_settlement_stops_being_looked_up clk keccak test_store"
  by (simp add: a_permanently_unpriceable_settlement_stops_being_looked_up_def test_run loop_run)

lemma a_permanently_failing_non_settlement_debit_is_given_up_on_passes:
  "a_permanently_failing_non_settlement_debit_is_given_up_on clk keccak test_store"
  by (simp add: a_permanently_failing_non_settlement_debit_is_given_up_on_def test_run loop_run)

lemma tick_debits_a_settle_failed_proposal_and_marks_it_penalized_passes:
  "tick_debits_a_settle_failed_proposal_and_marks_it_penalized clk keccak test_store"
  by (simp add: tick_debits_a_settle_failed_proposal_and_marks_it_penalized_def test_run loop_run)

end
