(* ===== verification/Router_Tests.thy ===== *)
theory Router_Tests
  imports Loop_Tests Listeners
begin

text \<open>
  The unit tests of the two routers (\<open>infra/api/mod.rs\<close>), of the notifications (\<open>infra/api/notify.rs\<close>) and
  of the conversions (\<open>infra/api/dto.rs\<close>), under their names; those of \<open>/solve\<close> are in \<open>Solve_Tests\<close>. A
  request is served by the listener's model with \<open>std_dispatch\<close>, the bodies being the extracted values.
  The cryptography, the typed-data domain and the signers of the tests are parameters, and any will do;
  \<open>signs_for\<close> is what the tests rely on of a signer.
\<close>

named_theorems api_run \<open>how a router test runs\<close>

subsection \<open>The harness\<close>

record harness =
  th_crypto :: crypto
  th_domain :: eip712_domain
  th_abi :: abi
  th_as_bytes :: "signature \<Rightarrow> bytes"

datatype sent_body = NoPayload | CreatePayload create_request | AuctionPayload auction | NotifyPayload notification

definition test_clock :: clock where
  "test_clock = \<lparr>db_now = 1700000000000000, wall_now = 1700000000000000\<rparr>"

definition test_extractors :: "sent_body \<Rightarrow> extractors" where
  "test_extractors body =
     \<lparr>ex_id = (\<lambda>s. case parse_u64 s of None \<Rightarrow> Inl 400 | Some i \<Rightarrow> Inr (ProposalId i)),
      ex_create = (\<lambda>_. case body of CreatePayload r \<Rightarrow> Inr r | _ \<Rightarrow> Inl 422),
      ex_auction = (\<lambda>_. case body of AuctionPayload a \<Rightarrow> Inr a | _ \<Rightarrow> Inl 422),
      ex_notification = (\<lambda>_. case body of NotifyPayload n \<Rightarrow> Inr n | _ \<Rightarrow> Inl 422)\<rparr>"

definition test_state :: "harness \<Rightarrow> sent_body \<Rightarrow> deployment" where
  "test_state h body =
     \<lparr>dp_codec = std_codec, dp_crypto = th_crypto h, dp_abi = th_abi h,
      dp_app = \<lparr>app_domain = th_domain h, app_max_proposal_lifetime_secs = 300\<rparr>,
      dp_extract = test_extractors body, dp_dispatch = std_dispatch\<rparr>"

text \<open>\<open>oneshot\<close>, with the gas price cell before and after.\<close>

definition oneshot ::
  "harness \<Rightarrow> route list \<Rightarrow> http_request \<Rightarrow> sent_body \<Rightarrow> u64 \<Rightarrow> (http_response \<Rightarrow> u64 \<Rightarrow> test) \<Rightarrow> test" where
  "oneshot h app req body gas_price k f =
     (case serve_request (test_state h body) app test_clock req \<lparr>sh_store = fx_store f, sh_gas_price = gas_price\<rparr> of
        None \<Rightarrow> False
      | Some (r, sh) \<Rightarrow> k r (sh_gas_price sh) (f\<lparr>fx_store := sh_store sh\<rparr>))"

definition request :: "http_method \<Rightarrow> string list \<Rightarrow> header \<Rightarrow> header \<Rightarrow> http_request" where
  "request m path authorization signature =
     \<lparr>hr_method = m, hr_path = path, hr_authorization = authorization, hr_signature = signature, hr_body = []\<rparr>"

definition to_header :: "string option \<Rightarrow> header" where
  "to_header s = (case s of None \<Rightarrow> Missing | Some s \<Rightarrow> HeaderText s)"

text \<open>The helpers \<open>get\<close>, \<open>delete\<close> and \<open>post_proposal\<close>, and the reading of a JSON body.\<close>

definition get_uri :: "harness \<Rightarrow> string list \<Rightarrow> string option \<Rightarrow> (nat \<Rightarrow> body \<Rightarrow> test) \<Rightarrow> test" where
  "get_uri h path signature k =
     oneshot h public_router (request GET path Missing (to_header signature)) NoPayload 0 (\<lambda>r _. k (hs_status r) (hs_body r))"

definition delete_proposal :: "harness \<Rightarrow> proposal_id \<Rightarrow> string \<Rightarrow> (nat \<Rightarrow> body \<Rightarrow> test) \<Rightarrow> test" where
  "delete_proposal h pid signature k =
     oneshot h public_router (request DELETE [''proposal'', u64_text (pid_raw pid)] Missing (HeaderText signature)) NoPayload 0
       (\<lambda>r _. k (hs_status r) (hs_body r))"

definition post_proposal :: "harness \<Rightarrow> route list \<Rightarrow> create_request \<Rightarrow> (nat \<Rightarrow> body \<Rightarrow> test) \<Rightarrow> test" where
  "post_proposal h app body k =
     oneshot h app (request POST [''proposals''] Missing Missing) (CreatePayload body) 0 (\<lambda>r _. k (hs_status r) (hs_body r))"

definition json_id :: "body \<Rightarrow> (u64 \<Rightarrow> test) \<Rightarrow> test" where
  "json_id b k = (case b of CreatedBody i \<Rightarrow> k i | _ \<Rightarrow> (\<lambda>_. False))"

definition json_proposal :: "body \<Rightarrow> (get_response \<Rightarrow> test) \<Rightarrow> test" where
  "json_proposal b k = (case b of ProposalBody g \<Rightarrow> k g | _ \<Rightarrow> (\<lambda>_. False))"

definition json_list :: "body \<Rightarrow> (metadata list \<Rightarrow> test) \<Rightarrow> test" where
  "json_list b k = (case b of ListBody ms \<Rightarrow> k ms | _ \<Rightarrow> (\<lambda>_. False))"

definition json_failure :: "body \<Rightarrow> (api_error \<Rightarrow> test) \<Rightarrow> test" where
  "json_failure b k = (case b of ErrorBody e \<Rightarrow> k e | _ \<Rightarrow> (\<lambda>_. False))"

text \<open>Signing that must succeed, the header of \<open>read_auth_header\<close>, the one of a cancellation, and
  \<open>insert_proposal\<close>.\<close>

definition signing :: "'a option \<Rightarrow> ('a \<Rightarrow> test) \<Rightarrow> test" where
  "signing x k = (case x of None \<Rightarrow> (\<lambda>_. False) | Some a \<Rightarrow> k a)"

definition signature_hex :: "harness \<Rightarrow> signature \<Rightarrow> string" where
  "signature_hex h sig = hex_prefixed std_codec (th_as_bytes h sig)"

definition read_auth_header :: "harness \<Rightarrow> signer \<Rightarrow> string option" where
  "read_auth_header h s = map_option (signature_hex h) (sign_read_auth (th_crypto h) s (th_domain h))"

definition cancel_header :: "harness \<Rightarrow> signer \<Rightarrow> proposal_id \<Rightarrow> string option" where
  "cancel_header h s pid = map_option (signature_hex h) (sign_cancellation (th_crypto h) s (th_domain h) (u256_of (pid_raw pid)))"

definition proposal_in :: "harness \<Rightarrow> address \<Rightarrow> proposal_status \<Rightarrow> proposal" where
  "proposal_in h sub_solver status = test_proposal (keccak256 (th_crypto h)) (uid_of 0xaa) sub_solver status"

definition insert_proposal_for :: "harness \<Rightarrow> address \<Rightarrow> (proposal_id \<Rightarrow> test) \<Rightarrow> test" where
  "insert_proposal_for h sub_solver = inserted test_clock (proposal_in h sub_solver Active)"

text \<open>The proposal a test signs, the body of its request, and \<open>signed_proposal_body_for\<close>.\<close>

record proposal_fixture =
  pf_order_uid :: order_uid
  pf_sell_amount :: u256
  pf_buy_amount :: u256
  pf_valid_until :: u256
  pf_nonce :: u256
  pf_interactions :: "interaction list"

definition as_proposal :: "harness \<Rightarrow> proposal_fixture \<Rightarrow> onchain_proposal" where
  "as_proposal h fx =
     \<lparr>oc_orderUidHash = keccak256 (th_crypto h) (uid_bytes (pf_order_uid fx)), oc_sellAmount = pf_sell_amount fx,
      oc_buyAmount = pf_buy_amount fx, oc_validUntil = pf_valid_until fx, oc_nonce = pf_nonce fx\<rparr>"

definition wire_json :: "interaction \<Rightarrow> wire_interaction" where
  "wire_json i =
     \<lparr>wi_target = i_target i, wi_value = u256_text std_codec (i_value i), wi_call_data = hex_prefixed std_codec (i_callData i)\<rparr>"

definition body_with_signature :: "proposal_fixture \<Rightarrow> string \<Rightarrow> create_request" where
  "body_with_signature fx signature =
     \<lparr>cr_order_uid = uid_text std_codec (pf_order_uid fx), cr_sell_amount = u256_text std_codec (pf_sell_amount fx),
      cr_buy_amount = u256_text std_codec (pf_buy_amount fx), cr_interactions = map wire_json (pf_interactions fx),
      cr_valid_until = u256_text std_codec (pf_valid_until fx), cr_nonce = u256_text std_codec (pf_nonce fx),
      cr_signature = signature\<rparr>"

definition signed_body :: "harness \<Rightarrow> signer \<Rightarrow> proposal_fixture \<Rightarrow> create_request option" where
  "signed_body h s fx =
     map_option (\<lambda>sig. body_with_signature fx (signature_hex h sig))
       (sign_proposal (th_crypto h) s (th_domain h) (as_proposal h fx) (pf_interactions fx))"

definition wire_fixture :: "u256 \<Rightarrow> interaction list \<Rightarrow> proposal_fixture" where
  "wire_fixture valid_until interactions =
     \<lparr>pf_order_uid = uid_of 0xaa, pf_sell_amount = 1000000, pf_buy_amount = 990000, pf_valid_until = valid_until, pf_nonce = 1,
      pf_interactions = interactions\<rparr>"

definition signed_proposal_body_for :: "harness \<Rightarrow> signer \<Rightarrow> interaction list \<Rightarrow> create_request option" where
  "signed_proposal_body_for h s interactions = signed_body h s (wire_fixture (1700000000 + 240) interactions)"

text \<open>\<open>sample_route\<close>, and \<open>RejectAll\<close>.\<close>

definition sample_route :: "interaction list" where
  "sample_route =
     [\<lparr>i_target = 0x3333333333333333333333333333333333333333, i_value = 0, i_callData = [0x09, 0x5e, 0xa7, 0xb3, 0xde, 0xad, 0xbe, 0xef]\<rparr>,
      \<lparr>i_target = 0x4444444444444444444444444444444444444444, i_value = 7, i_callData = [0x12, 0x8a, 0xcb, 0x08, 0xca, 0xfe]\<rparr>]"

definition reject_all :: "rejection_reason \<Rightarrow> proposal \<Rightarrow> unit \<Rightarrow> verdict option \<times> unit" where
  "reject_all reason p s = (Some (Reject reason), s)"

lemmas [api_run] = test_clock_def test_extractors_def test_state_def oneshot_def request_def to_header_def get_uri_def delete_proposal_def
  post_proposal_def json_id_def json_proposal_def json_list_def json_failure_def signing_def insert_proposal_for_def proposal_in_def

subsection \<open>What the tests rely on\<close>

definition signs_for :: "harness \<Rightarrow> signer \<Rightarrow> bool" where
  "signs_for h s \<longleftrightarrow> signs_as (th_crypto h) s \<and>
     (\<forall>x. \<exists>sig. sg_sign_hash s x = Some sig \<and> signature_of_bytes (th_crypto h) (th_as_bytes h sig) = Some sig)"

lemma read_header:
  assumes "signs_for h s"
  obtains t where "read_auth_header h s = Some t"
    "authenticate_reader std_codec (th_crypto h) (th_domain h) (HeaderText t) = Inr (sg_address s)"
proof -
  obtain sig where sig: "sign_read_auth (th_crypto h) s (th_domain h) = Some sig" "signature_of_bytes (th_crypto h) (th_as_bytes h sig) = Some sig"
    using assms unfolding signs_for_def sign_read_auth_def by metis
  have "recover_reader (th_crypto h) sig (th_domain h) = Some (sg_address s)"
    using recover_signed(3) [OF _ sig(1)] assms by (simp add: signs_for_def)
  then have "authenticate_reader std_codec (th_crypto h) (th_domain h) (HeaderText (signature_hex h sig)) = Inr (sg_address s)"
    using sig(2) by (simp add: authenticate_reader_def signature_from_header_def signature_hex_def parse_hex_def ok_or_def)
  with that sig(1) show thesis by (simp add: read_auth_header_def)
qed

lemma cancel_signed:
  assumes "signs_for h s"
  obtains t where "cancel_header h s pid = Some t"
    "authenticate_canceller std_codec (th_crypto h) (th_domain h) pid (HeaderText t) = Inr (sg_address s)"
proof -
  obtain sig where sig: "sign_cancellation (th_crypto h) s (th_domain h) (u256_of (pid_raw pid)) = Some sig"
      "signature_of_bytes (th_crypto h) (th_as_bytes h sig) = Some sig"
    using assms unfolding signs_for_def sign_cancellation_def by metis
  have "recover_canceller (th_crypto h) sig (th_domain h) (u256_of (pid_raw pid)) = Some (sg_address s)"
    using recover_signed(2) [OF _ sig(1)] assms by (simp add: signs_for_def)
  then have "authenticate_canceller std_codec (th_crypto h) (th_domain h) pid (HeaderText (signature_hex h sig)) = Inr (sg_address s)"
    using sig(2) by (simp add: authenticate_canceller_def signature_from_header_def signature_hex_def parse_hex_def ok_or_def)
  with that sig(1) show thesis by (simp add: cancel_header_def)
qed

lemma interactions_parse: "collect (map (dto_interaction std_codec) (map wire_json route)) = Inr route"
  by (induction route) (simp_all add: wire_json_def dto_interaction_def parse_hex_def ok_or_def)

lemma order_uid_parses: "uid_ok u \<Longrightarrow> parse_order_uid std_codec (uid_text std_codec u) = Inr u"
  by (simp add: parse_order_uid_def)

lemma signature_parses: "parse_hex std_codec (signature_hex h sig) = Some (th_as_bytes h sig)"
  by (simp add: signature_hex_def parse_hex_def)

text \<open>The proposal the service reads from a signed body.\<close>

definition read_proposal :: "harness \<Rightarrow> signer \<Rightarrow> proposal_fixture \<Rightarrow> signature \<Rightarrow> proposal" where
  "read_proposal h s fx sig =
     (test_proposal (keccak256 (th_crypto h)) (pf_order_uid fx) (sg_address s) Submitted)
       \<lparr>p_sell_amount := pf_sell_amount fx, p_buy_amount := pf_buy_amount fx, p_interactions := pf_interactions fx,
        p_interactions_hash := compute_interactions_hash (th_crypto h) (pf_interactions fx),
        p_valid_until := pf_valid_until fx, p_nonce := pf_nonce fx, p_signature := th_as_bytes h sig\<rparr>"

lemma body_signed:
  assumes "signs_for h s" and "uid_ok (pf_order_uid fx)"
  obtains sig where "signed_body h s fx = Some (body_with_signature fx (signature_hex h sig))"
    "submitted std_codec (th_crypto h) (th_domain h) (body_with_signature fx (signature_hex h sig)) = Inr (read_proposal h s fx sig)"
    "signature_of_bytes (th_crypto h) (th_as_bytes h sig) = Some sig"
proof -
  obtain sig where sig: "sign_proposal (th_crypto h) s (th_domain h) (as_proposal h fx) (pf_interactions fx) = Some sig"
      "signature_of_bytes (th_crypto h) (th_as_bytes h sig) = Some sig"
    using assms unfolding signs_for_def sign_proposal_def Let_def by metis
  have "recover_proposer (th_crypto h) sig (th_domain h) (as_proposal h fx)
      (compute_interactions_hash (th_crypto h) (pf_interactions fx)) = Some (sg_address s)"
    using recover_signed(1) [OF _ sig(1)] assms by (simp add: signs_for_def)
  then show thesis
    using that [of sig] sig assms(2)
    by (simp add: signed_body_def body_with_signature_def submitted_def order_uid_parses signature_parses interactions_parse
        as_proposal_def read_proposal_def test_proposal_def ok_or_def Let_def del: map_map)
qed

text \<open>Signers as the tests need them exist.\<close>

lemma toy_signs_for: "signs_for \<lparr>th_crypto = toy_crypto, th_domain = d, th_abi = e, th_as_bytes = (\<lambda>sig. [ucast (sig_r sig)])\<rparr> (toy_signer x)"
proof -
  have "(ucast (ucast x :: u256) :: byte) = x" by (rule bit_word_eqI) (auto simp: bit_unsigned_iff)
  with toy_signs [of x] show ?thesis by (simp add: signs_for_def) (simp add: toy_crypto_def toy_signer_def)
qed

subsection \<open>Serving a test's request\<close>

lemma path_segments [simp]: "u64_text i \<noteq> []" "uid_text std_codec u \<noteq> []" "uid_text std_codec u \<noteq> ''by-sub-solver''"
  by (simp_all add: u64_text_def uid_text_def show_nat_nonempty std_codec_def std_hex_prefixed_def)

lemma public_dispatch [api_run]:
  "std_dispatch public_router GET [''healthz''] = Matched (route_to [Static ''healthz''] GET Healthz) []"
  "std_dispatch public_router POST [''proposals''] = Matched (route_to [Static ''proposals''] POST CreateProposal) []"
  "s \<noteq> [] \<Longrightarrow> std_dispatch public_router GET [''proposal'', s] = Matched (route_to [Static ''proposal'', Capture] GET GetProposal) [s]"
  "s \<noteq> [] \<Longrightarrow> std_dispatch public_router DELETE [''proposal'', s] =
     Matched (route_to [Static ''proposal'', Capture] DELETE CancelProposal) [s]"
  "s \<noteq> [] \<Longrightarrow> s \<noteq> ''by-sub-solver'' \<Longrightarrow> std_dispatch public_router GET [''proposals'', s] =
     Matched (route_to [Static ''proposals'', Capture] GET ListProposals) [s]"
  "std_dispatch public_router GET [''proposals'', ''by-sub-solver''] =
     Matched (route_to [Static ''proposals'', Static ''by-sub-solver''] GET ListBySubSolver) []"
  "std_dispatch public_router POST [''solve''] = NoRoute"
  by (simp_all add: std_dispatch_def public_candidates route_to_def serves_def)

lemma internal_dispatch [api_run]:
  "std_dispatch (internal_router token) GET [''healthz''] = Matched (route_to [Static ''healthz''] GET Healthz) []"
  "std_dispatch (internal_router token) POST [''solve''] = Matched ((route_to [Static ''solve''] POST SolveAuction)\<lparr>ro_layer := token\<rparr>) []"
  "std_dispatch (internal_router token) POST [''notify''] = Matched ((route_to [Static ''notify''] POST NotifyOutcome)\<lparr>ro_layer := token\<rparr>) []"
  "std_dispatch (internal_router token) POST [''proposals''] = NoRoute"
  "std_dispatch (internal_router token) GET [''proposals'', s] = NoRoute"
  by (simp_all add: std_dispatch_def internal_candidates route_to_def serves_def)

lemma bearer_checks [api_run]:
  "authorized token Missing = False"
  "authorized ''driver-secret'' (HeaderText ''Bearer driver-secret'') = True"
  "authorized ''driver-secret'' (HeaderText ''bearer driver-secret'') = True"
  "authorized ''driver-secret'' (HeaderText ''Bearer not-the-secret'') = False"
  "authorized ''driver-secret'' (HeaderText ''Bearer DRIVER-SECRET'') = False"
  by code_simp+

lemma test_lifetime [api_run]:
  "u256_of (saturating_add 1700000000 (300 :: u64)) = 1700000300" "u256_of (1700000000 :: u64) = 1700000000"
  by (simp_all add: saturating_add_def u256_of_def)

lemmas [api_run] = serve_request_def internal_gate_def route_to_def extracted_def over_store_def rendered_def
  first_capture_def parse_u64_text served_def authenticated_def get_endpoint_def cancel_proposal_def list_proposals_def
  list_proposals_by_sub_solver_def create_proposal_def unix_secs_def check_lifetime_def healthz_def
  get_response_of_def metadata_of_def ok_or_def reject_all_def order_uid_parses cancel_failure_def internal_def error_from_def error_new_def
  signed_proposal_body_for_def wire_fixture_def read_proposal_def list_by_order_uid_for_owner_def

end
