(* ===== verification/Notify_Tests.thy ===== *)
theory Notify_Tests
  imports Router_Tests
begin

text \<open>
  The tests of \<open>infra/api/notify.rs\<close>. \<open>upstream_notification_shapes_deserialize\<close> is a test of the JSON
  layer and left out.
\<close>

definition AUCTION_ID :: i64 where
  "AUCTION_ID = 77"

definition bid_proposal :: "harness \<Rightarrow> address \<Rightarrow> proposal_status \<Rightarrow> (proposal_id \<Rightarrow> test) \<Rightarrow> test" where
  "bid_proposal h sub_solver status k =
     inserted test_clock (proposal_in h sub_solver status) (\<lambda>pid.
     expect (record_solution AUCTION_ID 1 pid) (\<lambda>_. k pid))"

definition notification_of :: "string \<Rightarrow> b256 option \<Rightarrow> notification" where
  "notification_of kind transaction =
     \<lparr>nt_auction_id = Some ''77'', nt_solution_id = Some (Single 1), nt_kind = kind, nt_transaction = transaction\<rparr>"

definition post_notify_with_auth ::
  "harness \<Rightarrow> string option \<Rightarrow> notification \<Rightarrow> string option \<Rightarrow> (nat \<Rightarrow> test) \<Rightarrow> test" where
  "post_notify_with_auth h token n authorization k =
     oneshot h (internal_router token) (request POST [''notify''] (to_header authorization) Missing) (NotifyPayload n) 0
       (\<lambda>r _. k (hs_status r))"

definition post_notify :: "harness \<Rightarrow> notification \<Rightarrow> (nat \<Rightarrow> test) \<Rightarrow> test" where
  "post_notify h n = post_notify_with_auth h None n None"

definition has_status :: "proposal_id \<Rightarrow> proposal_status \<Rightarrow> test \<Rightarrow> test" where
  "has_status pid status k = fetched pid (\<lambda>p. assert (p_status p = status) k)"

definition notify_sits_behind_the_bearer_guard :: "harness \<Rightarrow> test" where
  "notify_sits_behind_the_bearer_guard h =
     bid_proposal h repeat_byte_1 Active (\<lambda>pid.
     post_notify_with_auth h (Some ''driver-secret'') (notification_of ''settlementStarted'' None) None (\<lambda>status.
     assert (status = 401) (
     has_status pid Active (
     post_notify_with_auth h (Some ''driver-secret'') (notification_of ''settlementStarted'' None) (Some ''Bearer driver-secret'') (\<lambda>status.
     assert (status = 200) (
     has_status pid Executing passed))))))"

definition success_after_settlement_started_settles_with_the_tx_hash_on_owner_get :: "harness \<Rightarrow> signer \<Rightarrow> test" where
  "success_after_settlement_started_settles_with_the_tx_hash_on_owner_get h owner =
     (let tx = 0x1111111111111111111111111111111111111111111111111111111111111111 in
     bid_proposal h (sg_address owner) Active (\<lambda>pid.
     post_notify h (notification_of ''settlementStarted'' None) (\<lambda>status.
     assert (status = 200) (
     post_notify h (notification_of ''success'' (Some tx)) (\<lambda>status.
     assert (status = 200) (
     signing (read_auth_header h owner) (\<lambda>header.
     get_uri h [''proposal'', u64_text (pid_raw pid)] (Some header) (\<lambda>status b.
     assert (status = 200) (
     json_proposal b (\<lambda>body.
     assert (gr_status body = WSettled \<and> gr_settlement_tx_hash body = Some (b256_text std_codec tx)) passed))))))))))"

definition revert_marks_the_proposal_settle_failed_with_the_tx_hash :: "harness \<Rightarrow> test" where
  "revert_marks_the_proposal_settle_failed_with_the_tx_hash h =
     bid_proposal h repeat_byte_1 Executing (\<lambda>pid.
     post_notify h (notification_of ''revert'' (Some SETTLEMENT_TX)) (\<lambda>status.
     assert (status = 200) (
     fetched pid (\<lambda>proposal.
     assert (p_status proposal = SettleFailed \<and> p_settlement_tx_hash proposal = Some SETTLEMENT_TX) passed))))"

text \<open>The tests over the three kinds of an abandonment, each on a fresh store.\<close>

definition abandonments :: "string list" where
  "abandonments = [''cancelled'', ''expired'', ''fail'']"

definition abandoned_submission_returns_the_proposal_to_active :: "harness \<Rightarrow> test" where
  "abandoned_submission_returns_the_proposal_to_active h f \<longleftrightarrow> list_all (\<lambda>kind.
     bid_proposal h repeat_byte_1 Executing (\<lambda>pid.
     post_notify h (notification_of kind None) (\<lambda>status.
     assert (status = 200) (
     has_status pid Active passed))) f) abandonments"

definition abandoned_submission_queues_a_non_settlement_penalty :: "harness \<Rightarrow> test" where
  "abandoned_submission_queues_a_non_settlement_penalty h f \<longleftrightarrow> list_all (\<lambda>kind.
     bid_proposal h repeat_byte_1 Executing (\<lambda>pid.
     post_notify h (notification_of kind None) (\<lambda>status.
     assert (status = 200) (
     expect (pending_penalties std_codec) (\<lambda>pending.
     assert (map (\<lambda>pp. (pp_proposal_id pp, pp_sub_solver pp)) pending = [(pid, repeat_byte_1)]) passed)))) f) abandonments"

definition duplicate_abandonment_does_not_queue_a_second_penalty :: "harness \<Rightarrow> test" where
  "duplicate_abandonment_does_not_queue_a_second_penalty h =
     bid_proposal h repeat_byte_1 Executing (\<lambda>_.
     post_notify h (notification_of ''fail'' None) (\<lambda>status.
     assert (status = 200) (
     post_notify h (notification_of ''fail'' None) (\<lambda>status.
     assert (status = 200) (
     expect (pending_penalties std_codec) (\<lambda>pending. assert (length pending = 1) passed))))))"

definition unattributable_notifications_are_acknowledged :: "harness \<Rightarrow> test" where
  "unattributable_notifications_are_acknowledged h f \<longleftrightarrow> list_all (\<lambda>body.
     post_notify h body (\<lambda>status. assert (status = 200) passed) f)
     [\<lparr>nt_auction_id = Some ''999'', nt_solution_id = Some (Single 5), nt_kind = ''success'', nt_transaction = Some 0xabababababababababababababababababababababababababababababababab\<rparr>,
      \<lparr>nt_auction_id = None, nt_solution_id = None, nt_kind = ''timeout'', nt_transaction = None\<rparr>,
      \<lparr>nt_auction_id = Some ''999'', nt_solution_id = Some (Single 5), nt_kind = ''someFutureKind'', nt_transaction = None\<rparr>]"

definition attributable_non_outcome_kind_changes_nothing :: "harness \<Rightarrow> test" where
  "attributable_non_outcome_kind_changes_nothing h =
     bid_proposal h repeat_byte_1 Active (\<lambda>pid.
     post_notify h (notification_of ''emptySolution'' None) (\<lambda>status.
     assert (status = 200) (
     has_status pid Active passed)))"

definition settlement_started_moves_the_won_proposal_to_executing :: "harness \<Rightarrow> test" where
  "settlement_started_moves_the_won_proposal_to_executing h =
     bid_proposal h repeat_byte_1 Active (\<lambda>pid.
     post_notify h (notification_of ''settlementStarted'' None) (\<lambda>status.
     assert (status = 200) (
     has_status pid Executing passed)))"

subsection \<open>They pass\<close>

lemma auction_ids [api_run]: "parse_i64 ''77'' = Some 77" "parse_i64 ''999'' = Some 999"
  by (simp_all add: parse_i64_def dec_val_def)

lemmas [api_run] = AUCTION_ID_def bid_proposal_def notification_of_def post_notify_with_auth_def post_notify_def has_status_def
  notify_def attributed_proposals_def outcome_of_def ids_of_def solution_proposals_def solution_rows_def repeat_byte_1_def
  SETTLEMENT_TX_def PENALTY_TX_def abandonments_def List.map_filter_simps

lemma notify_sits_behind_the_bearer_guard_passes: "notify_sits_behind_the_bearer_guard h test_store"
  by (simp add: notify_sits_behind_the_bearer_guard_def test_run api_run)

lemma revert_marks_the_proposal_settle_failed_with_the_tx_hash_passes:
  "revert_marks_the_proposal_settle_failed_with_the_tx_hash h test_store"
  by (simp add: revert_marks_the_proposal_settle_failed_with_the_tx_hash_def test_run api_run)

lemma abandoned_submission_returns_the_proposal_to_active_passes:
  "abandoned_submission_returns_the_proposal_to_active h test_store"
  by (simp add: abandoned_submission_returns_the_proposal_to_active_def test_run api_run)

lemma abandoned_submission_queues_a_non_settlement_penalty_passes:
  "abandoned_submission_queues_a_non_settlement_penalty h test_store"
  by (simp add: abandoned_submission_queues_a_non_settlement_penalty_def test_run api_run)

lemma duplicate_abandonment_does_not_queue_a_second_penalty_passes:
  "duplicate_abandonment_does_not_queue_a_second_penalty h test_store"
  by (simp add: duplicate_abandonment_does_not_queue_a_second_penalty_def test_run api_run)

lemma notify_tests:
  "unattributable_notifications_are_acknowledged h test_store"
  "attributable_non_outcome_kind_changes_nothing h test_store"
  by (simp_all add: unattributable_notifications_are_acknowledged_def attributable_non_outcome_kind_changes_nothing_def
      test_run api_run)

lemma settlement_started_moves_the_won_proposal_to_executing_passes:
  "settlement_started_moves_the_won_proposal_to_executing h test_store"
  by (simp add: settlement_started_moves_the_won_proposal_to_executing_def test_run api_run)

lemma success_after_settlement_started_settles_with_the_tx_hash_on_owner_get_passes:
  assumes "signs_for h s"
  shows "success_after_settlement_started_settles_with_the_tx_hash_on_owner_get h s test_store"
proof -
  obtain r where r: "read_auth_header h s = Some r"
    "authenticate_reader std_codec (th_crypto h) (th_domain h) (HeaderText r) = Inr (sg_address s)"
    using read_header [OF assms] .
  show ?thesis
    by (simp add: success_after_settlement_started_settles_with_the_tx_hash_on_owner_get_def r test_run api_run)
qed

end
