(* ===== verification/Solve_Tests.thy ===== *)
theory Solve_Tests
  imports Router_Tests Domain_Tests Settlement_Tests
begin

text \<open>
  The tests of \<open>/solve\<close>, of the bearer layer and of the split between the listeners in
  \<open>infra/api/mod.rs\<close>. An auction is the values its JSON carries.
\<close>

definition SELL_TOKEN :: address where "SELL_TOKEN = 0x1111111111111111111111111111111111111111"
definition BUY_TOKEN :: address where "BUY_TOKEN = 0x2222222222222222222222222222222222222222"
definition TRAMPOLINE :: address where "TRAMPOLINE = 0x5555555555555555555555555555555555555555"
definition ORDER_UID :: order_uid where "ORDER_UID = uid_of 0xaa"
definition SECOND_ORDER_UID :: order_uid where "SECOND_ORDER_UID = uid_of 0xbb"
definition CUT_AT_PARITY :: u256 where "CUT_AT_PARITY = 230000"

definition auction_json :: "order_kind \<Rightarrow> u256 \<Rightarrow> u256 \<Rightarrow> u256 \<Rightarrow> auction" where
  "auction_json kind sell_amount buy_amount gas_price =
     \<lparr>au_id = None,
      au_reference_price = ((\<lambda>_. None)(SELL_TOKEN \<mapsto> 1000000000000000000))(BUY_TOKEN \<mapsto> 1000000000000000000),
      au_effective_gas_price = gas_price,
      au_orders = [\<lparr>ao_uid = ORDER_UID, ao_sell_token = SELL_TOKEN, ao_buy_token = BUY_TOKEN, ao_sell_amount = sell_amount,
        ao_buy_amount = buy_amount, ao_kind = kind, ao_partially_fillable = False\<rparr>]\<rparr>"

definition active_proposal :: "harness \<Rightarrow> order_uid \<Rightarrow> u256 \<Rightarrow> u256 \<Rightarrow> u64 option \<Rightarrow> address option \<Rightarrow> proposal" where
  "active_proposal h uid sell_amount buy_amount gas_used trampoline =
     (test_proposal (keccak256 (th_crypto h)) uid 0 Active)
       \<lparr>p_sell_amount := sell_amount, p_buy_amount := buy_amount, p_gas_used := gas_used, p_trampoline := trampoline\<rparr>"

definition insert_active_proposal_with_gas :: "harness \<Rightarrow> u256 \<Rightarrow> u256 \<Rightarrow> u64 \<Rightarrow> test \<Rightarrow> test" where
  "insert_active_proposal_with_gas h sell_amount buy_amount gas_used k =
     inserted test_clock (active_proposal h ORDER_UID sell_amount buy_amount (Some gas_used) (Some 0)) (\<lambda>_. k)"

definition insert_active_proposal :: "harness \<Rightarrow> u256 \<Rightarrow> u256 \<Rightarrow> test \<Rightarrow> test" where
  "insert_active_proposal h sell_amount buy_amount = insert_active_proposal_with_gas h sell_amount buy_amount 200000"

definition routed_proposal :: "harness \<Rightarrow> interaction list \<Rightarrow> proposal" where
  "routed_proposal h route =
     (active_proposal h ORDER_UID 1000 950 (Some 200000) (Some TRAMPOLINE))
       \<lparr>p_interactions := route, p_interactions_hash := compute_interactions_hash (th_crypto h) route,
        p_signature := replicate 65 0x11\<rparr>"

definition raw_post_solve :: "harness \<Rightarrow> route list \<Rightarrow> string option \<Rightarrow> auction \<Rightarrow> (http_response \<Rightarrow> test) \<Rightarrow> test" where
  "raw_post_solve h app authorization a k =
     oneshot h app (request POST [''solve''] (to_header authorization) Missing) (AuctionPayload a) 0 (\<lambda>r _. k r)"

definition solutions_of :: "http_response \<Rightarrow> (solution list \<Rightarrow> test) \<Rightarrow> test" where
  "solutions_of r k = (case hs_body r of SolutionsBody sols \<Rightarrow> k sols | _ \<Rightarrow> (\<lambda>_. False))"

definition post_solve :: "harness \<Rightarrow> auction \<Rightarrow> (solution list \<Rightarrow> test) \<Rightarrow> test" where
  "post_solve h a k = raw_post_solve h (internal_router None) None a (\<lambda>r. assert (hs_status r = 200) (solutions_of r k))"

text \<open>The gas price cell across two auctions.\<close>

definition post_solve_with_gas_price :: "harness \<Rightarrow> auction \<Rightarrow> u64 \<Rightarrow> (u64 \<Rightarrow> test) \<Rightarrow> test" where
  "post_solve_with_gas_price h a gas_price k =
     oneshot h (internal_router None) (request POST [''solve''] Missing Missing) (AuctionPayload a) gas_price (\<lambda>_ gp. k gp)"

definition one_solution :: "solution list \<Rightarrow> (solution \<Rightarrow> test) \<Rightarrow> test" where
  "one_solution sols k = (case sols of [sol] \<Rightarrow> k sol | _ \<Rightarrow> (\<lambda>_. False))"

subsection \<open>The listeners and the bearer layer\<close>

definition solve_is_not_reachable_on_the_public_router :: "harness \<Rightarrow> test" where
  "solve_is_not_reachable_on_the_public_router h =
     insert_active_proposal h 1000 950 (
     raw_post_solve h public_router None (auction_json Sell 1000 900 0) (\<lambda>r. assert (hs_status r = 404) passed))"

definition proposal_endpoints_are_not_reachable_on_the_internal_router :: "harness \<Rightarrow> signer \<Rightarrow> test" where
  "proposal_endpoints_are_not_reachable_on_the_internal_router h s =
     signing (signed_proposal_body_for h s []) (\<lambda>body.
     post_proposal h (internal_router None) body (\<lambda>status _.
     assert (status = 404) (
     oneshot h (internal_router None) (request GET [''proposals'', ''by-sub-solver''] Missing Missing) NoPayload 0 (\<lambda>r _.
     assert (hs_status r = 404) passed))))"

definition solve_without_bearer_token_is_rejected_when_one_is_configured :: "harness \<Rightarrow> test" where
  "solve_without_bearer_token_is_rejected_when_one_is_configured h =
     insert_active_proposal h 1000 950 (
     raw_post_solve h (internal_router (Some ''driver-secret'')) None (auction_json Sell 1000 900 0) (\<lambda>r.
     assert (hs_status r = 401 \<and> hs_challenge r = Some ''Bearer'') passed))"

definition solve_with_the_configured_bearer_token_succeeds :: "harness \<Rightarrow> test" where
  "solve_with_the_configured_bearer_token_succeeds h =
     insert_active_proposal h 1000 950 (
     raw_post_solve h (internal_router (Some ''driver-secret'')) (Some ''Bearer driver-secret'') (auction_json Sell 1000 900 0) (\<lambda>r.
     assert (hs_status r = 200) (
     solutions_of r (\<lambda>sols. assert (length sols = 1) passed))))"

definition solve_bearer_scheme_is_case_insensitive :: "harness \<Rightarrow> test" where
  "solve_bearer_scheme_is_case_insensitive h =
     insert_active_proposal h 1000 950 (
     raw_post_solve h (internal_router (Some ''driver-secret'')) (Some ''bearer driver-secret'') (auction_json Sell 1000 900 0) (\<lambda>r.
     assert (hs_status r = 200) passed))"

definition solve_with_a_wrong_bearer_token_is_rejected :: "harness \<Rightarrow> test" where
  "solve_with_a_wrong_bearer_token_is_rejected h =
     insert_active_proposal h 1000 950 (
     raw_post_solve h (internal_router (Some ''driver-secret'')) (Some ''Bearer not-the-secret'') (auction_json Sell 1000 900 0) (\<lambda>r.
     assert (hs_status r = 401 \<and> hs_challenge r = Some ''Bearer'') passed))"

definition solve_with_a_case_changed_token_is_rejected :: "harness \<Rightarrow> test" where
  "solve_with_a_case_changed_token_is_rejected h =
     insert_active_proposal h 1000 950 (
     raw_post_solve h (internal_router (Some ''driver-secret'')) (Some ''Bearer DRIVER-SECRET'') (auction_json Sell 1000 900 0) (\<lambda>r.
     assert (hs_status r = 401) passed))"

definition healthz_stays_open_when_a_bearer_token_is_configured :: "harness \<Rightarrow> test" where
  "healthz_stays_open_when_a_bearer_token_is_configured h =
     oneshot h (internal_router (Some ''driver-secret'')) (request GET [''healthz''] Missing Missing) NoPayload 0 (\<lambda>r _.
     assert (hs_status r = 200) passed)"

definition healthz_responds_on_both_routers :: "harness \<Rightarrow> test" where
  "healthz_responds_on_both_routers h f \<longleftrightarrow> list_all (\<lambda>app.
     oneshot h app (request GET [''healthz''] Missing Missing) NoPayload 0 (\<lambda>r _. assert (hs_status r = 200) passed) f)
     [public_router, internal_router None]"

subsection \<open>What is bid\<close>

definition solve_sell_order_prices_are_cross_multiplied :: "harness \<Rightarrow> test" where
  "solve_sell_order_prices_are_cross_multiplied h =
     insert_active_proposal h 1000 950 (
     post_solve h (auction_json Sell 1000 900 0) (\<lambda>sols. one_solution sols (\<lambda>sol.
     assert (sol_prices sol SELL_TOKEN = Some 950 \<and> sol_prices sol BUY_TOKEN = Some 1000) passed)))"

definition solve_sell_order_executed_amount_is_sell :: "harness \<Rightarrow> test" where
  "solve_sell_order_executed_amount_is_sell h =
     insert_active_proposal h 1000 950 (
     post_solve h (auction_json Sell 1000 900 0) (\<lambda>sols. one_solution sols (\<lambda>sol.
     assert (sol_executed_amount sol = 1000) passed)))"

definition solve_buy_order_executed_amount_is_buy :: "harness \<Rightarrow> test" where
  "solve_buy_order_executed_amount_is_buy h =
     insert_active_proposal h 950 900 (
     post_solve h (auction_json Buy 1000 900 0) (\<lambda>sols. one_solution sols (\<lambda>sol.
     assert (sol_executed_amount sol = 900) passed)))"

definition solve_declares_the_gas_cut_on_a_sell_order :: "harness \<Rightarrow> test" where
  "solve_declares_the_gas_cut_on_a_sell_order h =
     insert_active_proposal h 1000000000 1000000000 (
     post_solve h (auction_json Sell 1000000000 900000000 1) (\<lambda>sols. one_solution sols (\<lambda>sol.
     assert (sol_fee sol = CUT_AT_PARITY) (
     assert (sol_executed_amount sol = 1000000000 - CUT_AT_PARITY) (
     assert (sol_executed_amount sol + sol_fee sol = 1000000000) passed)))))"

definition solve_declares_the_gas_cut_on_a_buy_order :: "harness \<Rightarrow> test" where
  "solve_declares_the_gas_cut_on_a_buy_order h =
     insert_active_proposal h 950000000 900000000 (
     post_solve h (auction_json Buy 1000000000 900000000 1) (\<lambda>sols. one_solution sols (\<lambda>sol.
     assert (sol_executed_amount sol = 900000000 \<and> sol_fee sol = CUT_AT_PARITY) passed)))"

definition solve_clearing_prices_are_unchanged_by_the_cut :: "harness \<Rightarrow> test" where
  "solve_clearing_prices_are_unchanged_by_the_cut h =
     insert_active_proposal h 1000000000 1000000000 (
     post_solve h (auction_json Sell 1000000000 900000000 1) (\<lambda>sols. one_solution sols (\<lambda>sol.
     assert (sol_prices sol SELL_TOKEN = Some 1000000000 \<and> sol_prices sol BUY_TOKEN = Some 1000000000) passed)))"

definition solve_skips_a_proposal_whose_cut_breaches_the_signed_limit :: "harness \<Rightarrow> test" where
  "solve_skips_a_proposal_whose_cut_breaches_the_signed_limit h =
     insert_active_proposal h 1000000000 2000000000 (
     post_solve h (auction_json Sell 1000000000 1999700000 1) (\<lambda>thin.
     assert (thin = []) (
     post_solve h (auction_json Sell 1000000000 1990000000 1) (\<lambda>fat.
     assert (length fat = 1) passed))))"

definition solve_falls_back_to_the_runner_up_when_the_best_cut_breaches :: "harness \<Rightarrow> test" where
  "solve_falls_back_to_the_runner_up_when_the_best_cut_breaches h =
     insert_active_proposal_with_gas h 1000000000 2000000000 500000 (
     insert_active_proposal_with_gas h 1000000000 1999400000 100000 (
     post_solve h (auction_json Sell 1000000000 1999000000 1) (\<lambda>tight. one_solution tight (\<lambda>sol.
     assert (sol_fee sol = 130000 \<and> sol_executed_amount sol = 999870000) (
     post_solve h (auction_json Sell 1000000000 1990000000 1) (\<lambda>loose. one_solution loose (\<lambda>sol.
     assert (sol_fee sol = 530000) passed)))))))"

definition solve_reports_the_effective_gas_on_the_solution :: "harness \<Rightarrow> test" where
  "solve_reports_the_effective_gas_on_the_solution h =
     insert_active_proposal h 1000000000 1000000000 (
     post_solve h (auction_json Sell 1000000000 900000000 1) (\<lambda>sols. one_solution sols (\<lambda>sol.
     assert (u256_of (sol_gas sol) = CUT_AT_PARITY) passed)))"

definition solve_skips_a_proposal_that_has_not_been_simulated :: "harness \<Rightarrow> test" where
  "solve_skips_a_proposal_that_has_not_been_simulated h =
     inserted test_clock (active_proposal h ORDER_UID 1000000000 1000000000 None (Some 0)) (\<lambda>_.
     post_solve h (auction_json Sell 1000000000 900000000 1) (\<lambda>sols. assert (sols = []) passed))"

definition unpriced :: "address \<Rightarrow> auction \<Rightarrow> auction" where
  "unpriced token a = a\<lparr>au_reference_price := (au_reference_price a)(token := None)\<rparr>"

definition solve_does_not_bid_when_the_surplus_token_is_unpriced :: "harness \<Rightarrow> test" where
  "solve_does_not_bid_when_the_surplus_token_is_unpriced h =
     insert_active_proposal h 1000000000 1000000000 (
     post_solve h (unpriced BUY_TOKEN (auction_json Sell 1000000000 900000000 1)) (\<lambda>sols. assert (sols = []) passed))"

definition solve_does_not_bid_when_the_sell_token_is_unpriced :: "harness \<Rightarrow> test" where
  "solve_does_not_bid_when_the_sell_token_is_unpriced h =
     insert_active_proposal h 1000000000 1000000000 (
     post_solve h (unpriced SELL_TOKEN (auction_json Sell 1000000000 900000000 1)) (\<lambda>sols. assert (sols = []) passed))"

definition solve_does_not_bid_when_gas_exactly_equals_the_surplus :: "harness \<Rightarrow> test" where
  "solve_does_not_bid_when_gas_exactly_equals_the_surplus h =
     insert_active_proposal h 1000000000 900230000 (
     post_solve h (auction_json Sell 1000000000 900000000 1) (\<lambda>sols. assert (sols = []) passed))"

definition solve_selects_best_of_n_proposals :: "harness \<Rightarrow> test" where
  "solve_selects_best_of_n_proposals h =
     insert_active_proposal h 1000 920 (
     insert_active_proposal h 1000 950 (
     post_solve h (auction_json Sell 1000 900 0) (\<lambda>sols. one_solution sols (\<lambda>sol.
     assert (sol_prices sol SELL_TOKEN = Some 950) passed))))"

definition solve_records_the_winning_solution_for_notify_attribution :: "harness \<Rightarrow> test" where
  "solve_records_the_winning_solution_for_notify_attribution h =
     insert_active_proposal h 1000 950 (
     post_solve h ((auction_json Sell 1000 900 0)\<lparr>au_id := Some 77\<rparr>) (\<lambda>sols.
     assert (length sols = 1) (
     expect (solution_proposals std_codec 77 [1]) (\<lambda>attributed.
     assert (map p_order_uid attributed = [ORDER_UID]) passed))))"

definition solve_never_offers_an_executing_proposal :: "harness \<Rightarrow> test" where
  "solve_never_offers_an_executing_proposal h =
     inserted test_clock ((test_proposal (keccak256 (th_crypto h)) ORDER_UID 0 Executing)
       \<lparr>p_gas_used := Some 200000, p_trampoline := Some 0\<rparr>) (\<lambda>_.
     post_solve h (auction_json Sell 1000 900 0) (\<lambda>sols. assert (sols = []) passed))"

definition solve_no_proposals_returns_empty :: "harness \<Rightarrow> test" where
  "solve_no_proposals_returns_empty h =
     post_solve h (auction_json Sell 1000 900 0) (\<lambda>sols. assert (sols = []) passed)"

text \<open>The route of a solution, whose flag \<open>internalize\<close> is not in the model; a decoder of \<open>transfer()\<close> is a parameter like the one of \<open>execute()\<close>.\<close>

definition a_solution_wraps_the_route_in_the_two_trampoline_interactions ::
  "harness \<Rightarrow> (bytes \<Rightarrow> (address \<times> u256) option) \<Rightarrow> execute_decoder \<Rightarrow> test" where
  "a_solution_wraps_the_route_in_the_two_trampoline_interactions h dt de =
     inserted test_clock (routed_proposal h sample_route) (\<lambda>_.
     post_solve h (auction_json Sell 1000 900 0) (\<lambda>sols. one_solution sols (\<lambda>sol.
     (case sol_interactions sol of
        [i0, i1] \<Rightarrow>
          assert (i_target i0 = SELL_TOKEN) (
          assert (dt (i_callData i0) = Some (TRAMPOLINE, p_sell_amount (routed_proposal h sample_route))) (
          assert (i_target i1 = TRAMPOLINE) (
          assert (passes (de (i_callData i1)) (\<lambda>execute.
            ec_sellToken execute = SELL_TOKEN \<and> ec_buyToken execute = BUY_TOKEN \<and> ec_interactions execute = sample_route \<and>
            ec_signature execute = p_signature (routed_proposal h sample_route)))
          passed)))
      | _ \<Rightarrow> (\<lambda>_. False)))))"

definition a_proposal_without_a_resolved_trampoline_is_not_offered :: "harness \<Rightarrow> test" where
  "a_proposal_without_a_resolved_trampoline_is_not_offered h =
     inserted test_clock (active_proposal h ORDER_UID 1000 950 (Some 200000) None) (\<lambda>_.
     post_solve h (auction_json Sell 1000 900 0) (\<lambda>sols. assert (sols = []) passed))"

definition two_order_auction_json :: auction where
  "two_order_auction_json = (let a = auction_json Sell 1000 900 0 in
     a\<lparr>au_orders := au_orders a @ map (\<lambda>ord. ord\<lparr>ao_uid := SECOND_ORDER_UID, ao_sell_amount := 2000, ao_buy_amount := 1800\<rparr>) (au_orders a)\<rparr>)"

definition each_order_in_an_auction_gets_its_own_numbered_solution :: "harness \<Rightarrow> test" where
  "each_order_in_an_auction_gets_its_own_numbered_solution h =
     insert_active_proposal h 1000 950 (
     inserted test_clock (active_proposal h SECOND_ORDER_UID 2000 1900 (Some 200000) (Some TRAMPOLINE)) (\<lambda>_.
     post_solve h two_order_auction_json (\<lambda>sols.
     assert (map sol_id sols = [1, 2]) (
     assert (map sol_executed_amount sols = [1000, 2000]) passed))))"

definition solve_publishes_the_auction_gas_price_for_the_escrow_validator :: "harness \<Rightarrow> test" where
  "solve_publishes_the_auction_gas_price_for_the_escrow_validator h =
     post_solve_with_gas_price h (auction_json Sell 1000 900 7000000000) 0 (\<lambda>gas_price.
     assert (gas_price = 7000000000) passed)"

definition a_gas_price_that_does_not_fit_u64_leaves_the_previous_one_in_place :: "harness \<Rightarrow> test" where
  "a_gas_price_that_does_not_fit_u64_leaves_the_previous_one_in_place h =
     post_solve_with_gas_price h (auction_json Sell 1000 900 7000000000) 0 (\<lambda>gas_price.
     post_solve_with_gas_price h (auction_json Sell 1000 900 18446744073709551616) gas_price (\<lambda>gas_price.
     assert (gas_price = 7000000000) passed))"

subsection \<open>They pass\<close>

named_theorems solve_run \<open>how an auction is solved\<close>

lemmas [solve_run] = ORDER_UID_def SECOND_ORDER_UID_def auction_json_def active_proposal_def insert_active_proposal_def
  insert_active_proposal_with_gas_def raw_post_solve_def solutions_of_def post_solve_def post_solve_with_gas_price_def
  one_solution_def CUT_AT_PARITY_def SELL_TOKEN_def BUY_TOKEN_def TRAMPOLINE_def unpriced_def
  solve_def best_for_def ranked_def exceeds_remaining_def auction_candidate_def price_of_def surplus_token_def saturating_mul_def
  build_solution_def List.map_filter_simps u64_of_u256_def solution_proposals_def solution_rows_def
  two_order_auction_json_def routed_proposal_def encode_trampoline_interactions_def passes_def abi_reads_def

lemma solve_tests_1:
  "solve_is_not_reachable_on_the_public_router h test_store"
  "solve_without_bearer_token_is_rejected_when_one_is_configured h test_store"
  "solve_with_the_configured_bearer_token_succeeds h test_store"
  "solve_bearer_scheme_is_case_insensitive h test_store"
  "solve_with_a_wrong_bearer_token_is_rejected h test_store"
  "solve_with_a_case_changed_token_is_rejected h test_store"
  "healthz_stays_open_when_a_bearer_token_is_configured h test_store"
  "healthz_responds_on_both_routers h test_store"
  "solve_sell_order_prices_are_cross_multiplied h test_store"
  "solve_sell_order_executed_amount_is_sell h test_store"
  "solve_buy_order_executed_amount_is_buy h test_store"
  "solve_declares_the_gas_cut_on_a_sell_order h test_store"
  "solve_declares_the_gas_cut_on_a_buy_order h test_store"
  "solve_clearing_prices_are_unchanged_by_the_cut h test_store"
  "solve_skips_a_proposal_whose_cut_breaches_the_signed_limit h test_store"
  "solve_falls_back_to_the_runner_up_when_the_best_cut_breaches h test_store"
  by (simp_all add: solve_is_not_reachable_on_the_public_router_def
      solve_without_bearer_token_is_rejected_when_one_is_configured_def solve_with_the_configured_bearer_token_succeeds_def
      solve_bearer_scheme_is_case_insensitive_def solve_with_a_wrong_bearer_token_is_rejected_def
      solve_with_a_case_changed_token_is_rejected_def healthz_stays_open_when_a_bearer_token_is_configured_def
      healthz_responds_on_both_routers_def solve_sell_order_prices_are_cross_multiplied_def
      solve_sell_order_executed_amount_is_sell_def solve_buy_order_executed_amount_is_buy_def
      solve_declares_the_gas_cut_on_a_sell_order_def solve_declares_the_gas_cut_on_a_buy_order_def
      solve_clearing_prices_are_unchanged_by_the_cut_def solve_skips_a_proposal_whose_cut_breaches_the_signed_limit_def
      solve_falls_back_to_the_runner_up_when_the_best_cut_breaches_def test_run api_run domain_run solve_run)

lemma solve_tests_2:
  "solve_reports_the_effective_gas_on_the_solution h test_store"
  "solve_skips_a_proposal_that_has_not_been_simulated h test_store"
  "solve_does_not_bid_when_the_surplus_token_is_unpriced h test_store"
  "solve_does_not_bid_when_the_sell_token_is_unpriced h test_store"
  "solve_does_not_bid_when_gas_exactly_equals_the_surplus h test_store"
  "solve_selects_best_of_n_proposals h test_store"
  "solve_records_the_winning_solution_for_notify_attribution h test_store"
  "solve_never_offers_an_executing_proposal h test_store"
  "solve_no_proposals_returns_empty h test_store"
  "a_proposal_without_a_resolved_trampoline_is_not_offered h test_store"
  "each_order_in_an_auction_gets_its_own_numbered_solution h test_store"
  "solve_publishes_the_auction_gas_price_for_the_escrow_validator h test_store"
  "a_gas_price_that_does_not_fit_u64_leaves_the_previous_one_in_place h test_store"
  by (simp_all add: solve_reports_the_effective_gas_on_the_solution_def
      solve_skips_a_proposal_that_has_not_been_simulated_def solve_does_not_bid_when_the_surplus_token_is_unpriced_def
      solve_does_not_bid_when_the_sell_token_is_unpriced_def solve_does_not_bid_when_gas_exactly_equals_the_surplus_def
      solve_selects_best_of_n_proposals_def solve_records_the_winning_solution_for_notify_attribution_def
      solve_never_offers_an_executing_proposal_def solve_no_proposals_returns_empty_def
      a_proposal_without_a_resolved_trampoline_is_not_offered_def each_order_in_an_auction_gets_its_own_numbered_solution_def
      solve_publishes_the_auction_gas_price_for_the_escrow_validator_def
      a_gas_price_that_does_not_fit_u64_leaves_the_previous_one_in_place_def test_run api_run domain_run solve_run)

lemma proposal_endpoints_are_not_reachable_on_the_internal_router_passes:
  assumes "signs_for h s"
  shows "proposal_endpoints_are_not_reachable_on_the_internal_router h s test_store"
proof -
  obtain sig where "signed_body h s (wire_fixture (1700000000 + 240) []) =
      Some (body_with_signature (wire_fixture (1700000000 + 240) []) (signature_hex h sig))"
    using body_signed [OF assms, of "wire_fixture (1700000000 + 240) []"] by (auto simp: wire_fixture_def)
  from this [unfolded wire_fixture_def, simplified] show ?thesis
    by (simp add: proposal_endpoints_are_not_reachable_on_the_internal_router_def test_run api_run)
qed

lemma a_solution_wraps_the_route_in_the_two_trampoline_interactions_passes:
  assumes "\<And>to amount. dt (abi_transfer (th_abi h) to amount) = Some (to, amount)" and "abi_reads (th_abi h) ds de"
  shows "a_solution_wraps_the_route_in_the_two_trampoline_interactions h dt de test_store"
  using assms by (simp add: a_solution_wraps_the_route_in_the_two_trampoline_interactions_def test_run api_run domain_run solve_run)

end
