(* ===== verification/Chain_Tests.thy ===== *)
theory Chain_Tests
  imports Loop_Tests Domain_Tests Validator_Properties
begin

text \<open>
  The unit tests of the clients of the outside world, under their names: \<open>infra/orderbook.rs\<close>, and
  \<open>escrow.rs\<close>, \<open>operator.rs\<close> and \<open>validator.rs\<close> of \<open>infra/blockchain\<close>. The mock servers are the answers they
  give; what the transport and the JSON layer do is outside the model, and so are the tests of the base
  URL's path and of the pinned storage slot. \<open>None\<close> of a mock's expectation is a failed request.
\<close>

named_theorems chain_run \<open>how these tests run\<close>

subsection \<open>The orderbook client\<close>

definition real_order_json :: order_dto where
  "real_order_json =
     \<lparr>od_receiver = Some 0xd2e80d60aff5377587e49ff32c9bad639d6f68bc,
      od_sell_token = 0xb1f1ee126e9c96231cc3d3fad7c08b4cf873b1f1, od_buy_token = 0xa0b86991c6218b36c1d19d4a2e9eb0ce3606eb48,
      od_sell_amount = 20000002675677095795, od_buy_amount = 773213156, od_fee_amount = 0, od_valid_to = 1785170912,
      od_app_data = 0x06ebf0fd49ea441fbd174e445f37f792eb8ee8848c66c470f59d06a1c3e318a4, od_kind = Sell,
      od_partially_fillable = False, od_sell_token_balance = ''erc20'', od_buy_token_balance = ''erc20'',
      od_signing_scheme = Eip712,
      od_signature = be_bytes 65 (0x45bcd35b2abeeafca8cd2ea00bd662ab327e0ffd7cd38319eeff8432fd49409f6e56384a88dcdc050d92b389285c3cfd78c903f3a20f64641b9f907dbf9de8b71c :: 520 word),
      od_pre = [], od_post = []\<rparr>"

definition fixture_uid :: order_uid where
  "fixture_uid = OrderUid (be_bytes 56 (0xb9403b4c8342c3567e5b1928398030f010730c0b1d83657248e4e4e47984d90bd2e80d60aff5377587e49ff32c9bad639d6f68bc6a678be0 :: 448 word))"

definition fetched_from :: "order_dto \<Rightarrow> (order_record \<Rightarrow> bool) \<Rightarrow> bool" where
  "fetched_from body P \<longleftrightarrow>
     (case fst (fetch_order CACHE_CAPACITY (\<lambda>uid. if uid = fixture_uid then Reply 200 (Some body) else Reply 404 None) fixture_uid []) of
        Inr record \<Rightarrow> P record | Inl _ \<Rightarrow> False)"

definition fetches_and_parses_a_real_order :: bool where
  "fetches_and_parses_a_real_order \<longleftrightarrow> fetched_from real_order_json (\<lambda>r.
     co_sell_token (or_order r) = 0xb1f1ee126e9c96231cc3d3fad7c08b4cf873b1f1 \<and>
     co_buy_token (or_order r) = 0xa0b86991c6218b36c1d19d4a2e9eb0ce3606eb48 \<and>
     co_receiver (or_order r) = 0xd2e80d60aff5377587e49ff32c9bad639d6f68bc \<and>
     co_sell_amount (or_order r) = 20000002675677095795 \<and> co_buy_amount (or_order r) = 773213156 \<and>
     co_valid_to (or_order r) = 1785170912 \<and>
     co_app_data (or_order r) = 0x06ebf0fd49ea441fbd174e445f37f792eb8ee8848c66c470f59d06a1c3e318a4 \<and>
     co_kind (or_order r) = Sell \<and> \<not> co_partially_fillable (or_order r) \<and> co_signing_scheme (or_order r) = Eip712 \<and>
     length (co_signature (or_order r)) = 65 \<and> or_pre_interactions r = [] \<and> or_post_interactions r = [] \<and>
     or_erc20_balances r)"

definition null_receiver_stays_zero :: bool where
  "null_receiver_stays_zero \<longleftrightarrow> fetched_from (real_order_json\<lparr>od_receiver := None\<rparr>) (\<lambda>r. co_receiver (or_order r) = 0)"

definition cache_clears_instead_of_growing_past_its_ceiling :: bool where
  "cache_clears_instead_of_growing_past_its_ceiling \<longleftrightarrow>
     (let uid = (\<lambda>n. OrderUid (n # replicate 55 0));
          order = (\<lambda>n cache. snd (fetch_order 2 (\<lambda>_. Reply 200 (Some real_order_json)) (uid n) cache));
          two = order 2 (order 1 []);
          cached = order 1 two;
          cleared = order 3 cached
      in length two = 2 \<and> length cached = 2 \<and> length cleared = 1 \<and> map_of cleared (uid 3) \<noteq> None)"

text \<open>The second fetch finds a server that answers no more.\<close>

definition caches_orders_to_avoid_a_second_fetch :: bool where
  "caches_orders_to_avoid_a_second_fetch \<longleftrightarrow>
     (case fetch_order CACHE_CAPACITY (\<lambda>_. Reply 200 (Some real_order_json)) fixture_uid [] of
        (Inl _, _) \<Rightarrow> False
      | (Inr _, cache) \<Rightarrow>
          (case fst (fetch_order CACHE_CAPACITY (\<lambda>_. NoReply) fixture_uid cache) of
             Inl _ \<Rightarrow> False | Inr cached \<Rightarrow> co_sell_amount (or_order cached) = 20000002675677095795))"

text \<open>\<open>0.5\<close> and its product with \<open>1e18\<close>.\<close>

definition native_price_converts_to_reference_semantics :: bool where
  "native_price_converts_to_reference_semantics \<longleftrightarrow>
     (let token = 0xa0b86991c6218b36c1d19d4a2e9eb0ce3606eb48; half = 0x3FE0000000000000 in
      native_price (\<lambda>price. if price = half then 500000000000000000 else 0)
        (\<lambda>t. if t = token then Reply 200 (Some half) else Reply 404 None) token = Inr 500000000000000000)"

definition unknown_token_price_is_not_found :: bool where
  "unknown_token_price_is_not_found \<longleftrightarrow> native_price (\<lambda>_. 0) (\<lambda>_. Reply 404 None) 0 = Inl OrderUnknown"

definition unknown_order_is_not_found :: bool where
  "unknown_order_is_not_found \<longleftrightarrow> fst (fetch_order CACHE_CAPACITY (\<lambda>_. Reply 404 None) fixture_uid []) = Inl OrderUnknown"

definition unreachable_orderbook_is_transient :: bool where
  "unreachable_orderbook_is_transient \<longleftrightarrow> fst (fetch_order CACHE_CAPACITY (\<lambda>_. NoReply) fixture_uid []) = Inl OrderbookTransient"

definition order_interactions_are_deserialized_from_the_api :: bool where
  "order_interactions_are_deserialized_from_the_api \<longleftrightarrow>
     fetched_from (real_order_json\<lparr>od_pre := [\<lparr>wg_target = 0x5678, wg_value = 0, wg_call_data = [0xab, 0xcd]\<rparr>]\<rparr>) (\<lambda>r.
       map i_target (or_pre_interactions r) = [0x5678] \<and> map i_callData (or_pre_interactions r) = [[0xab, 0xcd]] \<and>
       or_post_interactions r = [])"

lemmas orderbook_run = fetched_from_def fetch_order_def read_reply_def ok_or_def real_order_json_def into_record_def into_gpv2_def
  remember_def CACHE_CAPACITY_def native_price_def

lemma price_guards [chain_run]:
  "f64_is_finite 0x3FE0000000000000" "\<not> f64_negative 0x3FE0000000000000"
  "f64_is_finite 0x3FF0000000000000" "\<not> f64_negative 0x3FF0000000000000"
  by code_simp+

lemma orderbook_tests:
  "fetches_and_parses_a_real_order" "null_receiver_stays_zero" "cache_clears_instead_of_growing_past_its_ceiling"
  "caches_orders_to_avoid_a_second_fetch" "native_price_converts_to_reference_semantics" "unknown_token_price_is_not_found"
  "unknown_order_is_not_found" "unreachable_orderbook_is_transient" "order_interactions_are_deserialized_from_the_api"
  by (simp_all add: fetches_and_parses_a_real_order_def null_receiver_stays_zero_def
      cache_clears_instead_of_growing_past_its_ceiling_def caches_orders_to_avoid_a_second_fetch_def
      native_price_converts_to_reference_semantics_def unknown_token_price_is_not_found_def unknown_order_is_not_found_def
      unreachable_orderbook_is_transient_def order_interactions_are_deserialized_from_the_api_def orderbook_run
      chain_run u256_of_def be_bytes_def Let_def)

subsection \<open>The escrow check\<close>

definition stub_escrow :: validator_config where
  "stub_escrow = \<lparr>vc_settlement = 0, vc_escrow = 0, vc_min_collateral = 10000000000000000, vc_min_score = 0, vc_cache_capacity = 10000,
     vc_abi = \<lparr>abi_transfer = (\<lambda>_ _. []), abi_execute = (\<lambda>_. []), abi_settle = (\<lambda>_. [])\<rparr>, vc_keccak = (\<lambda>_. 0)\<rparr>"

text \<open>A world that does not answer.\<close>

definition offline :: world where
  "offline = \<lparr>w_effective_balance = (\<lambda>_. Inl (TransportError OtherRpcError)), w_address_of = (\<lambda>_. Inl (TransportError OtherRpcError)),
     w_authenticator = Inl (TransportError OtherRpcError), w_estimate_gas = (\<lambda>_. Inl OtherRpcError),
     w_order = (\<lambda>_. NoReply), w_price = (\<lambda>_. NoReply), w_times_1e18 = (\<lambda>_. 0)\<rparr>"

definition threshold_uses_gas_estimate_times_price_plus_collateral :: bool where
  "threshold_uses_gas_estimate_times_price_plus_collateral \<longleftrightarrow>
     threshold stub_escrow 20000000000 = 200000 * 20000000000 + 10000000000000000"

definition threshold_with_zero_gas_price_equals_min_collateral :: bool where
  "threshold_with_zero_gas_price_equals_min_collateral \<longleftrightarrow> threshold stub_escrow 0 = vc_min_collateral stub_escrow"

definition clear_cache_empties_populated_cache :: bool where
  "clear_cache_empties_populated_cache \<longleftrightarrow>
     ca_balances (clear_cache (no_caches\<lparr>ca_balances := [repeat_byte_1 \<mapsto> 1000, 0x0202020202020202020202020202020202020202 \<mapsto> 2000]\<rparr>)) = (\<lambda>_. None)"

definition clear_cache_on_empty_cache_is_noop :: bool where
  "clear_cache_on_empty_cache_is_noop \<longleftrightarrow> ca_balances (clear_cache no_caches) = (\<lambda>_. None)"

definition validate_returns_none_on_transport_error :: "(bytes \<Rightarrow> b256) \<Rightarrow> bool" where
  "validate_returns_none_on_transport_error keccak \<longleftrightarrow>
     fst (validate_escrow (stub_escrow\<lparr>vc_min_collateral := 1\<rparr>) 1 offline (submitted_proposal keccak) no_caches) = None"

lemma escrow_tests:
  "threshold_uses_gas_estimate_times_price_plus_collateral" "threshold_with_zero_gas_price_equals_min_collateral"
  "clear_cache_empties_populated_cache" "clear_cache_on_empty_cache_is_noop" "validate_returns_none_on_transport_error keccak"
  by (simp_all add: threshold_uses_gas_estimate_times_price_plus_collateral_def threshold_with_zero_gas_price_equals_min_collateral_def
      clear_cache_empties_populated_cache_def clear_cache_on_empty_cache_is_noop_def validate_returns_none_on_transport_error_def
      validate_escrow_def get_balance_def threshold_def clear_cache_def stub_escrow_def no_caches_def offline_def
      ESCROW_GAS_ESTIMATION_def u256_of_def saturating_add_def saturating_mul_def)

subsection \<open>The operator\<close>

definition OPERATOR_SUB_SOLVER :: address where "OPERATOR_SUB_SOLVER = 1"
definition DEBIT_TX :: b256 where "DEBIT_TX = 0x7777777777777777777777777777777777777777777777777777777777777777"

text \<open>The fake node: the settlement's receipt, and the one debit it expects.\<close>

definition rpc_node :: "bool \<Rightarrow> node" where
  "rpc_node debit_succeeds =
     \<lparr>n_receipt = (\<lambda>tx. if tx = SETTLEMENT_TX
        then Inr (Some \<lparr>rc_gas_used = 200000, rc_effective_gas_price = 30000000000, rc_status = True, rc_transaction_hash = SETTLEMENT_TX\<rparr>)
        else Inr None),
      n_send_debit = (\<lambda>sub_solver amount reason.
        if sub_solver = OPERATOR_SUB_SOLVER \<and> amount = 16000000000000000 \<and> reason = SETTLEMENT_TX
        then Inr (\<lambda>_. Inr \<lparr>rc_gas_used = 50000, rc_effective_gas_price = 1000000000, rc_status = debit_succeeds, rc_transaction_hash = DEBIT_TX\<rparr>)
        else Inl ''unexpected debit'')\<rparr>"

definition settlement_cost_is_gas_used_times_effective_gas_price :: bool where
  "settlement_cost_is_gas_used_times_effective_gas_price \<longleftrightarrow>
     settlement_cost std_codec (rpc_node True) SETTLEMENT_TX = Inr 6000000000000000"

definition a_reverted_debit_is_a_failure_not_a_landed_charge :: bool where
  "a_reverted_debit_is_a_failure_not_a_landed_charge \<longleftrightarrow>
     (case operator_debit std_codec (rpc_node False) OPERATOR_SUB_SOLVER 16000000000000000 SETTLEMENT_TX of
        Inl _ \<Rightarrow> True | Inr _ \<Rightarrow> False)"

definition debit_submits_the_signed_escrow_call_and_returns_the_landed_tx :: bool where
  "debit_submits_the_signed_escrow_call_and_returns_the_landed_tx \<longleftrightarrow>
     operator_debit std_codec (rpc_node True) OPERATOR_SUB_SOLVER 16000000000000000 SETTLEMENT_TX = Inr DEBIT_TX"

definition missing_receipt_defers_the_debit :: bool where
  "missing_receipt_defers_the_debit \<longleftrightarrow>
     (case settlement_cost std_codec ((rpc_node True)\<lparr>n_receipt := (\<lambda>_. Inr None)\<rparr>) SETTLEMENT_TX of
        Inl (Transient _) \<Rightarrow> True | Inr _ \<Rightarrow> False)"

lemma operator_tests:
  "settlement_cost_is_gas_used_times_effective_gas_price" "a_reverted_debit_is_a_failure_not_a_landed_charge"
  "debit_submits_the_signed_escrow_call_and_returns_the_landed_tx" "missing_receipt_defers_the_debit"
  by (simp_all add: settlement_cost_is_gas_used_times_effective_gas_price_def a_reverted_debit_is_a_failure_not_a_landed_charge_def
      debit_submits_the_signed_escrow_call_and_returns_the_landed_tx_def missing_receipt_defers_the_debit_def
      settlement_cost_def operator_debit_def rpc_node_def u256_of_def saturating_mul_def)

subsection \<open>The simulation\<close>

datatype stub_orders =
    StubFound order_record | StubNotFound | StubTransient | PriceOutage order_record | PricedOnly order_record address

text \<open>The reply the client turns into a record.\<close>

definition dto_of :: "order_record \<Rightarrow> order_dto" where
  "dto_of r = (let ord = or_order r; gpv2 = map (\<lambda>i. \<lparr>wg_target = i_target i, wg_value = i_value i, wg_call_data = i_callData i\<rparr>);
       balance = (if or_erc20_balances r then ''erc20'' else ''internal'') in
     \<lparr>od_receiver = Some (co_receiver ord), od_sell_token = co_sell_token ord, od_buy_token = co_buy_token ord,
      od_sell_amount = co_sell_amount ord, od_buy_amount = co_buy_amount ord, od_fee_amount = co_fee_amount ord,
      od_valid_to = co_valid_to ord, od_app_data = co_app_data ord, od_kind = co_kind ord,
      od_partially_fillable = co_partially_fillable ord, od_sell_token_balance = balance, od_buy_token_balance = balance,
      od_signing_scheme = co_signing_scheme ord, od_signature = co_signature ord,
      od_pre = gpv2 (or_pre_interactions r), od_post = gpv2 (or_post_interactions r)\<rparr>)"

lemma into_record_dto_of [chain_run]: "into_record (dto_of r) = r"
proof -
  have "into_gpv2 \<circ> (\<lambda>i. \<lparr>wg_target = i_target i, wg_value = i_value i, wg_call_data = i_callData i\<rparr>) = id"
    by (auto simp: into_gpv2_def)
  then show ?thesis by (simp add: into_record_def dto_of_def Let_def)
qed

definition stub_order :: "stub_orders \<Rightarrow> order_dto http_reply" where
  "stub_order stub = (case stub of
       StubFound r \<Rightarrow> Reply 200 (Some (dto_of r)) | PriceOutage r \<Rightarrow> Reply 200 (Some (dto_of r))
     | PricedOnly r _ \<Rightarrow> Reply 200 (Some (dto_of r)) | StubNotFound \<Rightarrow> Reply 404 None | StubTransient \<Rightarrow> NoReply)"

text \<open>Parity: a price of \<open>1.0\<close>.\<close>

definition stub_price :: "stub_orders \<Rightarrow> address \<Rightarrow> u64 http_reply" where
  "stub_price stub token = (case stub of
       PriceOutage _ \<Rightarrow> NoReply
     | PricedOnly _ priced \<Rightarrow> if priced \<noteq> token then Reply 404 None else Reply 200 (Some 0x3FF0000000000000)
     | _ \<Rightarrow> Reply 200 (Some 0x3FF0000000000000))"

definition SETTLEMENT :: address where "SETTLEMENT = 0x9008D19f58AAbD9eD0D60971565AA8510560ab41"
definition ESCROW :: address where "ESCROW = 0xEE"
definition RPC_TRAMPOLINE :: address where "RPC_TRAMPOLINE = 0x99"
definition AUTHENTICATOR :: address where "AUTHENTICATOR = 0x77"

definition rpc_server :: "stub_orders \<Rightarrow> (simulation \<Rightarrow> rpc_error + u64) \<Rightarrow> world" where
  "rpc_server stub estimate =
     \<lparr>w_effective_balance = (\<lambda>_. Inr 0), w_address_of = (\<lambda>_. Inr RPC_TRAMPOLINE), w_authenticator = Inr AUTHENTICATOR,
      w_estimate_gas = estimate, w_order = (\<lambda>_. stub_order stub), w_price = stub_price stub,
      w_times_1e18 = (\<lambda>_. 1000000000000000000)\<rparr>"

definition simulation_config :: "abi \<Rightarrow> (bytes \<Rightarrow> b256) \<Rightarrow> validator_config" where
  "simulation_config e keccak =
     \<lparr>vc_settlement = SETTLEMENT, vc_escrow = ESCROW, vc_min_collateral = 0, vc_min_score = 0, vc_cache_capacity = 10000,
      vc_abi = e, vc_keccak = keccak\<rparr>"

definition validated_with_gas_price :: "abi \<Rightarrow> (bytes \<Rightarrow> b256) \<Rightarrow> stub_orders \<Rightarrow> u64 \<Rightarrow> proposal \<Rightarrow> verdict option" where
  "validated_with_gas_price e keccak stub gas_price p =
     fst (validate_simulation (simulation_config e keccak) gas_price (rpc_server stub (\<lambda>_. Inr 200000)) p no_caches)"

definition validation_proposal :: "(bytes \<Rightarrow> b256) \<Rightarrow> proposal" where
  "validation_proposal keccak = test_proposal keccak (uid_of 0xaa) 1 Submitted"

text \<open>The node answers the request the test looks for on the wire, and no other.\<close>

definition expected_request :: "abi \<Rightarrow> (bytes \<Rightarrow> b256) \<Rightarrow> simulation" where
  "expected_request e keccak = (let p = validation_proposal keccak in
     \<lparr>sim_from = DUMMY_SUBMITTER, sim_to = SETTLEMENT,
      sim_input = encode_settle e (or_order test_order_record)
        \<lparr>oc_orderUidHash = p_order_uid_hash p, oc_sellAmount = p_sell_amount p, oc_buyAmount = p_buy_amount p,
         oc_validUntil = p_valid_until p, oc_nonce = p_nonce p\<rparr> RPC_TRAMPOLINE (p_interactions p) (p_signature p) [] [],
      sim_authenticator_override = (AUTHENTICATOR, \<lparr>ao_code = Some ANYONE_AUTHENTICATOR_CODE, ao_state_diff = None\<rparr>),
      sim_escrow_override = (ESCROW, \<lparr>ao_code = None, ao_state_diff = Some [(submitter_role_slot keccak DUMMY_SUBMITTER, 1)]\<rparr>)\<rparr>)"

definition simulation_dispatches_full_settle_with_overrides :: "abi \<Rightarrow> (bytes \<Rightarrow> b256) \<Rightarrow> bool" where
  "simulation_dispatches_full_settle_with_overrides e keccak \<longleftrightarrow>
     fst (validate_simulation (simulation_config e keccak) 0
       (rpc_server (StubFound test_order_record) (\<lambda>sim. if sim = expected_request e keccak then Inr 200000 else Inl OtherRpcError))
       (validation_proposal keccak) no_caches) =
     Some (Accept (Some \<lparr>so_gas_used = 200000, so_trampoline = RPC_TRAMPOLINE, so_sell_token = co_sell_token (or_order test_order_record),
       so_buy_token = co_buy_token (or_order test_order_record)\<rparr>))"

definition unprofitable_first_simulation_rejects_proposal :: "abi \<Rightarrow> (bytes \<Rightarrow> b256) \<Rightarrow> bool" where
  "unprofitable_first_simulation_rejects_proposal e keccak \<longleftrightarrow>
     (let r = with_order (\<lambda>ord. ord\<lparr>co_buy_amount := p_buy_amount (validation_proposal keccak)\<rparr>) test_order_record in
      validated_with_gas_price e keccak (StubFound r) 0 (validation_proposal keccak) = Some (Reject Unprofitable))"

definition accepted_with_outcome :: "verdict option \<Rightarrow> bool" where
  "accepted_with_outcome v \<longleftrightarrow> (case v of Some (Accept (Some _)) \<Rightarrow> True | _ \<Rightarrow> False)"

definition buy_order_gate_prices_the_sell_token :: "abi \<Rightarrow> (bytes \<Rightarrow> b256) \<Rightarrow> bool" where
  "buy_order_gate_prices_the_sell_token e keccak \<longleftrightarrow>
     (let r = with_order (\<lambda>ord. ord\<lparr>co_kind := Buy, co_buy_amount := p_buy_amount (validation_proposal keccak),
            co_sell_amount := 1100000\<rparr>) test_order_record in
      accepted_with_outcome (validated_with_gas_price e keccak (PricedOnly r (co_sell_token (or_order r))) 0 (validation_proposal keccak)))"

definition revalidation_of_active_proposal_skips_the_profitability_gate :: "abi \<Rightarrow> (bytes \<Rightarrow> b256) \<Rightarrow> bool" where
  "revalidation_of_active_proposal_skips_the_profitability_gate e keccak \<longleftrightarrow>
     validated_with_gas_price e keccak (StubFound test_order_record) 1000000000 (validation_proposal keccak) = Some (Reject Unprofitable) \<and>
     accepted_with_outcome (validated_with_gas_price e keccak (StubFound test_order_record) 1000000000
       ((validation_proposal keccak)\<lparr>p_status := Active\<rparr>))"

definition native_price_outage_defers_first_verdict :: "abi \<Rightarrow> (bytes \<Rightarrow> b256) \<Rightarrow> bool" where
  "native_price_outage_defers_first_verdict e keccak \<longleftrightarrow>
     validated_with_gas_price e keccak (PriceOutage test_order_record) 0 (validation_proposal keccak) = None"

definition unknown_order_rejects_proposal :: "abi \<Rightarrow> (bytes \<Rightarrow> b256) \<Rightarrow> bool" where
  "unknown_order_rejects_proposal e keccak \<longleftrightarrow>
     validated_with_gas_price e keccak StubNotFound 0 (validation_proposal keccak) = Some (Reject OrderNotFound)"

definition orderbook_outage_defers_judgment :: "abi \<Rightarrow> (bytes \<Rightarrow> b256) \<Rightarrow> bool" where
  "orderbook_outage_defers_judgment e keccak \<longleftrightarrow>
     validated_with_gas_price e keccak StubTransient 0 (validation_proposal keccak) = None"

definition out_of_envelope_order_rejects_proposal :: "abi \<Rightarrow> (bytes \<Rightarrow> b256) \<Rightarrow> bool" where
  "out_of_envelope_order_rejects_proposal e keccak \<longleftrightarrow>
     validated_with_gas_price e keccak (StubFound (test_order_record\<lparr>or_erc20_balances := False\<rparr>)) 0 (validation_proposal keccak) =
       Some (Reject UnsupportedOrder)"

definition simulation_returns_none_on_transport_error :: "abi \<Rightarrow> (bytes \<Rightarrow> b256) \<Rightarrow> bool" where
  "simulation_returns_none_on_transport_error e keccak \<longleftrightarrow>
     fst (validate_simulation (simulation_config e keccak) 0
       (offline\<lparr>w_order := \<lambda>_. stub_order (StubFound test_order_record)\<rparr>) (validation_proposal keccak) no_caches) = None"

definition trampoline_cache_returns_stored_address :: bool where
  "trampoline_cache_returns_stored_address \<longleftrightarrow>
     fst (resolve_trampoline offline 1 (no_caches\<lparr>ca_trampolines := [1 \<mapsto> 0x99]\<rparr>)) = Inr 0x99"

definition is_revert_classifies_null_resp_as_revert :: bool where
  "is_revert_classifies_null_resp_as_revert \<longleftrightarrow> is_revert NullResp"

definition is_revert_classifies_code_3_as_revert :: bool where
  "is_revert_classifies_code_3_as_revert \<longleftrightarrow> is_revert (ErrorResp 3)"

definition is_revert_defers_rate_limit_error :: bool where
  "is_revert_defers_rate_limit_error \<longleftrightarrow> \<not> is_revert (ErrorResp 429)"

definition is_revert_classifies_transport_error_as_not_revert :: bool where
  "is_revert_classifies_transport_error_as_not_revert \<longleftrightarrow> \<not> is_revert OtherRpcError"

definition trampoline_null_resp_is_revert :: bool where
  "trampoline_null_resp_is_revert \<longleftrightarrow> is_trampoline_revert (TransportError NullResp)"

definition trampoline_transport_error_is_not_revert :: bool where
  "trampoline_transport_error_is_not_revert \<longleftrightarrow> \<not> is_trampoline_revert (TransportError OtherRpcError)"

lemmas [chain_run] = validated_with_gas_price_def validation_proposal_def rpc_server_def simulation_config_def stub_order_def stub_price_def
  no_caches_def offline_def accepted_with_outcome_def validate_simulation_def fetch_order_def read_reply_def ok_or_def trampoline_for_def
  resolve_trampoline_def resolve_authenticator_def judge_estimate_def profitability_def order_score_def candidate_of_def
  native_price_def surplus_token_def is_revert_def is_trampoline_revert_def i64_of_u64_def test_proposal_def test_order_record_def
  with_order_def saturating_mul_def

lemma simulation_tests:
  "simulation_dispatches_full_settle_with_overrides e keccak"
  "unprofitable_first_simulation_rejects_proposal e keccak"
  "buy_order_gate_prices_the_sell_token e keccak"
  "revalidation_of_active_proposal_skips_the_profitability_gate e keccak"
  "native_price_outage_defers_first_verdict e keccak"
  "unknown_order_rejects_proposal e keccak" "orderbook_outage_defers_judgment e keccak"
  "out_of_envelope_order_rejects_proposal e keccak" "simulation_returns_none_on_transport_error e keccak"
  "trampoline_cache_returns_stored_address"
  by (simp_all add: simulation_dispatches_full_settle_with_overrides_def expected_request_def simulation_of_def build_simulation_def
      unprofitable_first_simulation_rejects_proposal_def buy_order_gate_prices_the_sell_token_def
      revalidation_of_active_proposal_skips_the_profitability_gate_def native_price_outage_defers_first_verdict_def
      unknown_order_rejects_proposal_def orderbook_outage_defers_judgment_def out_of_envelope_order_rejects_proposal_def
      simulation_returns_none_on_transport_error_def trampoline_cache_returns_stored_address_def domain_run chain_run)

lemma classification_tests:
  "is_revert_classifies_null_resp_as_revert" "is_revert_classifies_code_3_as_revert" "is_revert_defers_rate_limit_error"
  "is_revert_classifies_transport_error_as_not_revert" "trampoline_null_resp_is_revert" "trampoline_transport_error_is_not_revert"
  by (simp_all add: is_revert_classifies_null_resp_as_revert_def is_revert_classifies_code_3_as_revert_def
      is_revert_defers_rate_limit_error_def is_revert_classifies_transport_error_as_not_revert_def
      trampoline_null_resp_is_revert_def trampoline_transport_error_is_not_revert_def is_revert_def is_trampoline_revert_def)

end
