(* ===== verification/Subsolver_Tests.thy ===== *)
theory Subsolver_Tests
  imports Test_Support Domain_Tests Subsolver
begin

text \<open>
  The unit tests of the sub-solver, under their names: \<open>domain/proposal.rs\<close>, \<open>infra/byos.rs\<close>,
  \<open>infra/blockchain.rs\<close>, \<open>infra/orderbook.rs\<close> and \<open>run.rs\<close>. A mock server is the function of its answers; a
  decoded call is compared by its encoding, \<open>e\<close>. \<open>signs_with\<close> is what the tests rely on of their signer. Left out
  are the tests of the TOML file, of the command line and of the factory's call.
\<close>

named_theorems sub_run \<open>how these tests run\<close>

definition signs_with :: "crypto \<Rightarrow> client_abi \<Rightarrow> signer \<Rightarrow> (b256 \<Rightarrow> signature) \<Rightarrow> bool" where
  "signs_with k e s sign \<longleftrightarrow> (\<forall>h. sg_sign_hash s h = Some (sign h) \<and> recover_from_prehash k (sign h) h = Some (sg_address s) \<and>
     signature_of_bytes k (ca_signature_bytes e (sign h)) = Some (sign h))"

subsection \<open>\<open>domain/proposal.rs\<close>\<close>

definition ROUTER :: address where "ROUTER = 0x7a250d5630B4cF539739dF2C5dAcb4c659F2488D"
definition SUB_TRAMPOLINE :: address where "SUB_TRAMPOLINE = 0xf00dbabe"
definition WETH :: address where "WETH = 0xC02aaA39b223FE8D0A0e5C4F27eAD9083C756Cc2"
definition USDC :: address where "USDC = 0xA0b86991c6218b36c1d19D4a2e9Eb0cE3606eB48"

definition test_order :: "order_kind \<Rightarrow> client_order" where
  "test_order kind = \<lparr>od_uid = replicate 56 0x11, od_sell = WETH, od_buy = USDC, od_sell_amount = 1000, od_buy_amount = 900, od_kind = kind\<rparr>"

definition test_params :: "interaction list \<Rightarrow> route_params" where
  "test_params extra_interactions =
     \<lparr>rt_router = ROUTER, rt_trampoline = SUB_TRAMPOLINE, rt_reserve_sell = 10000, rt_reserve_buy = 10000,
      rt_valid_until = 1750000000, rt_nonce = 7, rt_extra_interactions = extra_interactions\<rparr>"

definition sub_domain :: eip712_domain where
  "sub_domain = byos_domain 31337 0"

definition recovered_signer :: "crypto \<Rightarrow> signed_proposal \<Rightarrow> eip712_domain \<Rightarrow> address option" where
  "recovered_signer k p domain =
     Option.bind (signature_of_bytes k (sd_signature p)) (\<lambda>signature.
       recover_proposer k signature domain (onchain k p) (compute_interactions_hash k (sd_interactions p)))"

definition built :: "crypto \<Rightarrow> client_abi \<Rightarrow> signer \<Rightarrow> client_order \<Rightarrow> interaction list \<Rightarrow> (signed_proposal \<Rightarrow> bool) \<Rightarrow> bool" where
  "built k e s ord extra P \<longleftrightarrow> (case build_proposal k e ord (test_params extra) sub_domain s of Some (Some p) \<Rightarrow> P p | _ \<Rightarrow> False)"

definition sell_order_swaps_exact_sell_amount_and_proposes_the_amm_output :: "crypto \<Rightarrow> client_abi \<Rightarrow> signer \<Rightarrow> bool" where
  "sell_order_swaps_exact_sell_amount_and_proposes_the_amm_output k e s \<longleftrightarrow> built k e s (test_order Sell) [] (\<lambda>p.
     sd_sell_amount p = 1000 \<and> sd_buy_amount p = 906 \<and> sd_valid_until p = 1750000000 \<and> sd_nonce p = 7 \<and>
     sd_order_uid p = replicate 56 0x11 \<and>
     map i_target (sd_interactions p) = [WETH, ROUTER] \<and>
     map i_callData (sd_interactions p) = [ca_approve e ROUTER 1000, ca_swap_exact_tokens e 1000 906 [WETH, USDC] SUB_TRAMPOLINE 1750000000] \<and>
     recovered_signer k p sub_domain = Some (sg_address s))"

definition buy_order_swaps_for_exact_buy_amount :: "crypto \<Rightarrow> client_abi \<Rightarrow> signer \<Rightarrow> bool" where
  "buy_order_swaps_for_exact_buy_amount k e s \<longleftrightarrow> built k e s ((test_order Buy)\<lparr>od_buy_amount := 906\<rparr>) [] (\<lambda>p.
     sd_sell_amount p = 1000 \<and> sd_buy_amount p = 906 \<and>
     i_callData (sd_interactions p ! 1) = ca_swap_for_exact_tokens e 906 1000 [WETH, USDC] SUB_TRAMPOLINE 1750000000)"

definition orders_the_pool_cannot_beat_the_limit_price_of_are_skipped :: "crypto \<Rightarrow> client_abi \<Rightarrow> signer \<Rightarrow> bool" where
  "orders_the_pool_cannot_beat_the_limit_price_of_are_skipped k e s \<longleftrightarrow>
     build_proposal k e ((test_order Sell)\<lparr>od_buy_amount := 907\<rparr>) (test_params []) sub_domain s = Some None"

definition extra_interactions_are_appended_to_the_route_and_signed :: "crypto \<Rightarrow> client_abi \<Rightarrow> signer \<Rightarrow> bool" where
  "extra_interactions_are_appended_to_the_route_and_signed k e s \<longleftrightarrow>
     (let extra = \<lparr>i_target = 0xdeadbeef, i_value = 0, i_callData = [0xde, 0xad]\<rparr> in
      built k e s (test_order Sell) [extra] (\<lambda>p.
        length (sd_interactions p) = 3 \<and> sd_interactions p ! 2 = extra \<and>
        recovered_signer k p sub_domain = Some (sg_address s)))"

lemmas [sub_run] = ROUTER_def SUB_TRAMPOLINE_def WETH_def USDC_def test_order_def test_params_def recovered_signer_def built_def
  build_proposal_def routed_amounts_def route_def onchain_def sign_proposal_def recover_proposer_def amount_out_def amount_in_def
  FEE_NUMERATOR_def FEE_DENOMINATOR_def

lemma proposal_tests:
  assumes "signs_with k e s sign"
  shows "sell_order_swaps_exact_sell_amount_and_proposes_the_amm_output k e s"
    and "buy_order_swaps_for_exact_buy_amount k e s"
    and "orders_the_pool_cannot_beat_the_limit_price_of_are_skipped k e s"
    and "extra_interactions_are_appended_to_the_route_and_signed k e s"
  using assms
  by (simp_all add: sell_order_swaps_exact_sell_amount_and_proposes_the_amm_output_def buy_order_swaps_for_exact_buy_amount_def
      orders_the_pool_cannot_beat_the_limit_price_of_are_skipped_def extra_interactions_are_appended_to_the_route_and_signed_def
      signs_with_def sub_run domain_run)

subsection \<open>\<open>infra/byos.rs\<close>\<close>

definition client_proposal :: signed_proposal where
  "client_proposal =
     \<lparr>sd_order_uid = replicate 56 0x11, sd_sell_amount = 1000, sd_buy_amount = 906,
      sd_interactions = [\<lparr>i_target = 0xabababababababababababababababababababab, i_value = 0, i_callData = [0xde, 0xad]\<rparr>],
      sd_valid_until = 1750000000, sd_nonce = 7, sd_signature = replicate 65 0x22\<rparr>"

definition wire_proposal :: create_request where
  "wire_proposal =
     \<lparr>cr_order_uid = ''0x'' @ concat (replicate 56 ''11''), cr_sell_amount = ''1000'', cr_buy_amount = ''906'',
      cr_interactions = [\<lparr>wi_target = 0xabababababababababababababababababababab, wi_value = ''0'', wi_call_data = ''0xdead''\<rparr>],
      cr_valid_until = ''1750000000'', cr_nonce = ''7'', cr_signature = ''0x'' @ concat (replicate 65 ''22'')\<rparr>"

definition submit_posts_the_wire_shape_and_returns_the_assigned_id :: bool where
  "submit_posts_the_wire_shape_and_returns_the_assigned_id \<longleftrightarrow>
     submit std_codec (\<lambda>req. if req = wire_proposal then Answer 202 (Some 42) None else NoAnswer) client_proposal = Inr 42"

definition submit_surfaces_typed_rejections :: bool where
  "submit_surfaces_typed_rejections \<longleftrightarrow>
     (case submit std_codec (\<lambda>_. Answer 400 None (Some (error_new InvalidSignature ''Invalid EIP-712 signature''))) client_proposal of
        Inl (ClientRejected rejection) \<Rightarrow> err_kind rejection = InvalidSignature | _ \<Rightarrow> False)"

text \<open>A kind the client does not know reads as \<open>Unknown\<close>.\<close>

definition unknown_rejection_kinds_do_not_break_the_client :: bool where
  "unknown_rejection_kinds_do_not_break_the_client \<longleftrightarrow>
     (case submit std_codec (\<lambda>_. Answer 403 None (Some (error_new Unknown ''?''))) client_proposal of
        Inl (ClientRejected rejection) \<Rightarrow> err_kind rejection = Unknown | _ \<Rightarrow> False)"

definition signature_in :: "crypto \<Rightarrow> header \<Rightarrow> signature option" where
  "signature_in k h = (case h of HeaderText t \<Rightarrow> Option.bind (parse_hex std_codec t) (signature_of_bytes k) | _ \<Rightarrow> None)"

text \<open>The server answers a request whose header recovers to the sub-solver.\<close>

definition proposal_polls_the_verdict_with_read_auth :: "crypto \<Rightarrow> client_abi \<Rightarrow> signer \<Rightarrow> bool" where
  "proposal_polls_the_verdict_with_read_auth k e s \<longleftrightarrow>
     (let view = \<lparr>gr_id = 42, gr_sub_solver = sg_address s, gr_order_uid = hex_prefixed std_codec (replicate 56 0x11),
            gr_sell_amount = ''1000'', gr_buy_amount = ''906'', gr_valid_until = ''1750000000'', gr_status = WRejected,
            gr_rejection_reason = Some WInsufficientEscrow, gr_settlement_tx_hash = None, gr_penalty_tx_hash = None\<rparr>;
          server = (\<lambda>i h. if i = 42 \<and> Option.bind (signature_in k h) (\<lambda>sig. recover_reader k sig sub_domain) = Some (sg_address s)
            then Answer 200 (Some view) None else Answer 404 None None) in
      case client_get std_codec k e s sub_domain server 42 of
        Some (Inr view) \<Rightarrow> gr_status view = WRejected \<and> is_terminal (gr_status view) \<and> gr_rejection_reason view = Some WInsufficientEscrow
      | _ \<Rightarrow> False)"

definition proposals_fetches_metadata_by_order_uid :: "crypto \<Rightarrow> client_abi \<Rightarrow> signer \<Rightarrow> bool" where
  "proposals_fetches_metadata_by_order_uid k e s \<longleftrightarrow>
     (let order_uid = replicate 56 0x11;
          server = (\<lambda>uid h. if uid = hex_prefixed std_codec order_uid
            then Answer 200 (Some [\<lparr>md_id = 42, md_sub_solver = 0, md_valid_until = ''1750000000'', md_status = WActive\<rparr>]) None
            else Answer 404 None None) in
      case client_list std_codec k e s sub_domain server order_uid of
        Some (Inr (m # _)) \<Rightarrow> md_id m = 42 \<and> md_status m = WActive | _ \<Rightarrow> False)"

definition cancel_sends_a_signature_recovering_to_the_sub_solver :: "crypto \<Rightarrow> client_abi \<Rightarrow> signer \<Rightarrow> bool" where
  "cancel_sends_a_signature_recovering_to_the_sub_solver k e s \<longleftrightarrow>
     (let server = (\<lambda>i h. if i = 42 \<and> Option.bind (signature_in k h) (\<lambda>sig. recover_canceller k sig sub_domain 42) = Some (sg_address s)
            then Answer 204 None None else Answer 404 None None) in
      client_cancel std_codec k e s sub_domain server 42 = Some (Inr ()))"

lemmas [sub_run] = client_proposal_def submit_def parse_answer_def is_success_def client_failure_def ok_or_def error_new_def
  signature_in_def client_get_def client_list_def client_cancel_def read_auth_def cancel_auth_def sign_read_auth_def
  sign_cancellation_def recover_reader_def recover_canceller_def parse_hex_def is_terminal_def

lemma submitted_shape: "request_of std_codec client_proposal = wire_proposal"
  by (simp add: request_of_def client_proposal_def wire_proposal_def std_codec_def std_hex_prefixed_def std_hex_byte_def show_nat.simps digits)

lemma byos_client_tests:
  "submit_posts_the_wire_shape_and_returns_the_assigned_id" "submit_surfaces_typed_rejections"
  "unknown_rejection_kinds_do_not_break_the_client"
  by (simp_all add: submit_posts_the_wire_shape_and_returns_the_assigned_id_def submit_surfaces_typed_rejections_def
      unknown_rejection_kinds_do_not_break_the_client_def submit_def submitted_shape parse_answer_def is_success_def
      client_failure_def ok_or_def error_new_def)

lemma byos_auth_tests:
  assumes "signs_with k e s sign"
  shows "proposal_polls_the_verdict_with_read_auth k e s" and "proposals_fetches_metadata_by_order_uid k e s"
    and "cancel_sends_a_signature_recovering_to_the_sub_solver k e s"
  using assms
  by (simp_all add: proposal_polls_the_verdict_with_read_auth_def proposals_fetches_metadata_by_order_uid_def
      cancel_sends_a_signature_recovering_to_the_sub_solver_def signs_with_def sub_run domain_run)

subsection \<open>\<open>infra/blockchain.rs\<close> and \<open>infra/orderbook.rs\<close>\<close>

text \<open>The reserves a batch of queries gets when the multicall answers \<open>results\<close>, at the second component
  \<open>None\<close> for a failed call and for one without code.\<close>

definition reserves_for :: "reserves_query list \<Rightarrow> (u256 \<times> u256) option list option \<Rightarrow> (u256 \<times> u256) option list option" where
  "reserves_for queries results = fst (chain_reserves
     \<lparr>nw_auction = (\<lambda>w. (None, w)), nw_get = (\<lambda>_ _ w. (NoAnswer, w)), nw_reserves = (\<lambda>_ w. (results, w)), nw_post = (\<lambda>_ w. (NoAnswer, w))\<rparr>
     queries ())"

definition query_of :: "address \<Rightarrow> address \<Rightarrow> address \<Rightarrow> reserves_query" where
  "query_of pair sell_token buy_token = \<lparr>rq_pair = pair, rq_sell_token = sell_token, rq_buy_token = buy_token\<rparr>"

definition reserves_are_oriented_by_the_order_tokens_not_pool_sort_order :: bool where
  "reserves_are_oriented_by_the_order_tokens_not_pool_sort_order \<longleftrightarrow>
     reserves_for [query_of 0 WETH USDC, query_of 0 USDC WETH] (Some [Some (5000000, 2000), Some (5000000, 2000)]) =
       Some [Some (2000, 5000000), Some (5000000, 2000)]"

definition a_failed_pair_yields_none_without_poisoning_the_batch :: bool where
  "a_failed_pair_yields_none_without_poisoning_the_batch \<longleftrightarrow>
     reserves_for [query_of 0 USDC WETH, query_of 0x0101010101010101010101010101010101010101 USDC WETH,
       query_of 0x0202020202020202020202020202020202020202 USDC WETH] (Some [None, None, Some (5000000, 2000)]) =
       Some [None, None, Some (5000000, 2000)]"

definition no_queries_means_no_rpc_call :: bool where
  "no_queries_means_no_rpc_call \<longleftrightarrow> reserves_for [] None = Some []"

lemma chain_client_tests:
  "reserves_are_oriented_by_the_order_tokens_not_pool_sort_order" "a_failed_pair_yields_none_without_poisoning_the_batch"
  "no_queries_means_no_rpc_call"
  by (simp_all add: reserves_are_oriented_by_the_order_tokens_not_pool_sort_order_def
      a_failed_pair_yields_none_without_poisoning_the_batch_def no_queries_means_no_rpc_call_def reserves_for_def
      query_of_def chain_reserves_def oriented_def WETH_def USDC_def)

text \<open>An auction order, with the fields the client reads.\<close>

definition fetched_auction_order :: "byte \<Rightarrow> discovered_order" where
  "fetched_auction_order uid_byte =
     \<lparr>do_uid = replicate 56 uid_byte, do_sell_token = WETH, do_buy_token = USDC, do_sell_amount = 1000, do_buy_amount = 900,
      do_kind = Sell, do_sell_token_balance = Some ''erc20'', do_buy_token_balance = Some ''erc20''\<rparr>"

definition solvable_orders_keeps_in_envelope_orders :: bool where
  "solvable_orders_keeps_in_envelope_orders \<longleftrightarrow>
     (let orders = solvable_orders [fetched_auction_order 0x11, (fetched_auction_order 0x22)\<lparr>do_kind := Buy\<rparr>, fetched_auction_order 0x66, fetched_auction_order 0x33,
            fetched_auction_order 0x44, (fetched_auction_order 0x55)\<lparr>do_sell_token_balance := Some ''external''\<rparr>] in
      map od_uid orders = map (replicate 56) [0x11, 0x22, 0x66, 0x33, 0x44] \<and>
      map od_kind (take 2 orders) = [Sell, Buy] \<and> od_sell_amount (hd orders) = 1000 \<and> od_buy_amount (hd orders) = 900)"

definition an_order_missing_the_envelope_fields_is_still_solvable :: bool where
  "an_order_missing_the_envelope_fields_is_still_solvable \<longleftrightarrow>
     length (solvable_orders [(fetched_auction_order 0x11)\<lparr>do_sell_token_balance := None, do_buy_token_balance := None\<rparr>]) = 1"

lemma discovery_tests:
  "solvable_orders_keeps_in_envelope_orders" "an_order_missing_the_envelope_fields_is_still_solvable"
  by (simp_all add: solvable_orders_keeps_in_envelope_orders_def an_order_missing_the_envelope_fields_is_still_solvable_def
      solvable_orders_def fetched_auction_order_def balance_or_default_def)

subsection \<open>\<open>run.rs\<close>\<close>

definition SUB_FACTORY :: address where "SUB_FACTORY = 0xfac70"

definition run_config ::
  "crypto \<Rightarrow> client_abi \<Rightarrow> signer \<Rightarrow> (address \<Rightarrow> b256 \<Rightarrow> b256 \<Rightarrow> address) \<Rightarrow> (address \<Rightarrow> bytes) \<Rightarrow> subsolver_config" where
  "run_config k e s create2 as_slice =
     \<lparr>sc_codec = std_codec, sc_crypto = k, sc_abi = e, sc_signer = s, sc_domain = byos_domain 31337 SUB_FACTORY,
      sc_trampoline = SUB_TRAMPOLINE, sc_uniswap_router = ROUTER, sc_create2 = create2, sc_address_bytes = as_slice,
      sc_uniswap_factory = 0x5C69bEe701ef814a2B6a3EDD4B1652CB9cc5aA6f,
      sc_pair_init_code_hash = 0x96e8ac4277198ff8b6f785478aa9a39f403cb768dd02cbee326c3e7da348845f,
      sc_proposal_ttl = 60, sc_extra_interactions = []\<rparr>"

definition verdict_view :: "u64 \<Rightarrow> wire_status \<Rightarrow> get_response" where
  "verdict_view i status =
     \<lparr>gr_id = i, gr_sub_solver = 0, gr_order_uid = hex_prefixed std_codec (replicate 56 0x11), gr_sell_amount = ''1000'',
      gr_buy_amount = ''906'', gr_valid_until = ''1750000000'', gr_status = status,
      gr_rejection_reason = (if status = WRejected then Some WInsufficientEscrow else None),
      gr_settlement_tx_hash = None, gr_penalty_tx_hash = None\<rparr>"

definition mock_servers :: "(u64 \<Rightarrow> header \<Rightarrow> get_response answer) \<Rightarrow> u64 answer \<Rightarrow> replies" where
  "mock_servers verdict reply =
     \<lparr>re_auction = (\<lambda>_. Some [(fetched_auction_order 0x11)\<lparr>do_sell_token_balance := None, do_buy_token_balance := None\<rparr>]),
      re_get = (\<lambda>_. verdict), re_reserves = (\<lambda>_ _. Some [Some (5000000, 10000)]), re_post = (\<lambda>_ _. reply)\<rparr>"

text \<open>A verdict is served to requests with a header.\<close>

definition mock_verdict :: "u64 \<Rightarrow> wire_status \<Rightarrow> u64 \<Rightarrow> header \<Rightarrow> get_response answer" where
  "mock_verdict i status j h = (if j = i \<and> h \<noteq> Missing then Answer 200 (Some (verdict_view i status)) None else Answer 404 None None)"

text \<open>\<open>poll_once\<close> at each of the times, which must succeed.\<close>

fun polled :: "subsolver_config \<Rightarrow> replies \<Rightarrow> u64 list \<Rightarrow> subsolver \<times> trace \<Rightarrow> (create_request list \<Rightarrow> bool) \<Rightarrow> bool" where
  "polled cfg re [] sw P \<longleftrightarrow> P (tr_posted (snd sw))"
| "polled cfg re (t # ts) sw P \<longleftrightarrow>
     (case poll_once cfg (logged re) t sw of Some (True, sw') \<Rightarrow> polled cfg re ts sw' P | _ \<Rightarrow> False)"

definition polls :: "subsolver_config \<Rightarrow> replies \<Rightarrow> u64 list \<Rightarrow> (create_request list \<Rightarrow> bool) \<Rightarrow> bool" where
  "polls cfg re ts P \<longleftrightarrow>
     (case new_subsolver 1750000000000000 of None \<Rightarrow> False
      | Some s \<Rightarrow> polled cfg re ts (s, \<lparr>tr_posted = [], tr_step = 0\<rparr>) P)"

definition nonce_of :: "create_request \<Rightarrow> u256 option" where
  "nonce_of req = parse_u256 std_codec (cr_nonce req)"

definition submitted_by :: "crypto \<Rightarrow> create_request \<Rightarrow> address option" where
  "submitted_by k req =
     Option.bind (nonce_of req) (\<lambda>nonce.
     Option.bind (parse_hex std_codec (cr_order_uid req)) (\<lambda>order_uid.
     Option.bind (Option.bind (parse_hex std_codec (cr_signature req)) (signature_of_bytes k)) (\<lambda>signature.
     case collect (map (dto_interaction std_codec) (cr_interactions req)) of
       Inl _ \<Rightarrow> None
     | Inr interactions \<Rightarrow> recover_proposer k signature (byos_domain 31337 SUB_FACTORY)
         \<lparr>oc_orderUidHash = keccak256 k order_uid, oc_sellAmount = 1000, oc_buyAmount = 453305,
          oc_validUntil = 1750000000 + 60, oc_nonce = nonce\<rparr> (compute_interactions_hash k interactions))))"

definition submits_once_per_proposal_lifetime_and_resubmits_on_expiry :: "crypto \<Rightarrow> subsolver_config \<Rightarrow> bool" where
  "submits_once_per_proposal_lifetime_and_resubmits_on_expiry k cfg \<longleftrightarrow>
     polls cfg (mock_servers (mock_verdict 1 WActive) (Answer 202 (Some 1) None))
       [1750000000, 1750000000 + 1, 1750000000 + 61] (\<lambda>submissions. case submissions of
         [first, second] \<Rightarrow>
           parse_hex std_codec (cr_order_uid first) = Some (replicate 56 0x11) \<and>
           cr_sell_amount first = ''1000'' \<and> cr_buy_amount first = ''453305'' \<and> cr_valid_until first = ''1750000060'' \<and>
           submitted_by k first = Some (sg_address (sc_signer cfg)) \<and>
           (case nonce_of first of None \<Rightarrow> False | Some n \<Rightarrow> 1750000000000 \<le> n) \<and>
           cr_valid_until second = ''1750000121'' \<and> cr_nonce second \<noteq> cr_nonce first
       | _ \<Rightarrow> False)"

definition typed_rejections_do_not_kill_the_loop :: "subsolver_config \<Rightarrow> bool" where
  "typed_rejections_do_not_kill_the_loop cfg \<longleftrightarrow>
     polls cfg (mock_servers (\<lambda>_ _. Answer 404 None None)
         (Answer 400 None (Some (error_new InvalidSignature ''Invalid EIP-712 signature''))))
       [1750000000, 1750000001] (\<lambda>submissions. length submissions = 2)"

definition a_terminal_verdict_frees_the_order_for_resubmission :: "subsolver_config \<Rightarrow> bool" where
  "a_terminal_verdict_frees_the_order_for_resubmission cfg \<longleftrightarrow>
     polls cfg (mock_servers (mock_verdict 7 WRejected) (Answer 202 (Some 7) None))
       [1750000000, 1750000000 + 1] (\<lambda>submissions. case submissions of
         [first, second] \<Rightarrow> cr_nonce second \<noteq> cr_nonce first | _ \<Rightarrow> False)"

lemmas [sub_run] = run_config_def verdict_view_def mock_servers_def mock_verdict_def polls_def nonce_of_def submitted_by_def
  fetched_auction_order_def new_subsolver_def poll_once_def logged_def solvable_orders_def balance_or_default_def holds_live_proposal_def
  chain_reserves_def oriented_def propose_def unexpired_def request_of_def dto_interaction_def

lemma u256_text_eq [simp]: "u256_text std_codec u = u256_text std_codec v \<longleftrightarrow> u = v"
  by (rule codec_eq_iff [OF codec_ok_std])

lemma run_tests:
  assumes "signs_with k e s sign"
  shows "typed_rejections_do_not_kill_the_loop (run_config k e s create2 as_slice)"
    and "a_terminal_verdict_frees_the_order_for_resubmission (run_config k e s create2 as_slice)"
    and "submits_once_per_proposal_lifetime_and_resubmits_on_expiry k (run_config k e s create2 as_slice)"
  using assms
  by (simp_all add: typed_rejections_do_not_kill_the_loop_def a_terminal_verdict_frees_the_order_for_resubmission_def
      submits_once_per_proposal_lifetime_and_resubmits_on_expiry_def signs_with_def sub_run domain_run test_run)

end
