(* ===== verification/Api_Tests.thy ===== *)
theory Api_Tests
  imports Router_Tests
begin

text \<open>The tests of the public listener in \<open>infra/api/mod.rs\<close>, and those of \<open>infra/api/dto.rs\<close>.\<close>

definition rejected_proposal_body :: "harness \<Rightarrow> signer \<Rightarrow> rejection_reason \<Rightarrow> (get_response \<Rightarrow> test) \<Rightarrow> test" where
  "rejected_proposal_body h s reason k =
     signing (signed_proposal_body_for h s []) (\<lambda>body.
     post_proposal h public_router body (\<lambda>_ b. json_id b (\<lambda>i.
     ran (run_tick (reject_all reason) (\<lambda>s. s) (\<lambda>ps. ps) std_codec test_clock 0 (from_secs 3600) ()) (\<lambda>_.
     signing (read_auth_header h s) (\<lambda>header.
     get_uri h [''proposal'', u64_text i] (Some header) (\<lambda>status b.
     assert (status = 200) (json_proposal b k)))))))"

definition rejected_proposal_exposes_reason_on_the_wire :: "harness \<Rightarrow> signer \<Rightarrow> test" where
  "rejected_proposal_exposes_reason_on_the_wire h s =
     rejected_proposal_body h s InsufficientEscrow (\<lambda>body.
     assert (gr_status body = WRejected \<and> gr_rejection_reason body = Some WInsufficientEscrow) passed)"

definition unprofitable_rejection_exposes_reason_on_the_wire :: "harness \<Rightarrow> signer \<Rightarrow> test" where
  "unprofitable_rejection_exposes_reason_on_the_wire h s =
     rejected_proposal_body h s Unprofitable (\<lambda>body.
     assert (gr_status body = WRejected \<and> gr_rejection_reason body = Some WUnprofitable) passed)"

definition double_cancel_returns_conflict :: "harness \<Rightarrow> signer \<Rightarrow> test" where
  "double_cancel_returns_conflict h s =
     signing (signed_proposal_body_for h s []) (\<lambda>body.
     post_proposal h public_router body (\<lambda>_ b. json_id b (\<lambda>i.
     signing (cancel_header h s (ProposalId i)) (\<lambda>sig_hex.
     delete_proposal h (ProposalId i) sig_hex (\<lambda>status _.
     assert (status = 204) (
     delete_proposal h (ProposalId i) sig_hex (\<lambda>status _.
     assert (status = 409) passed)))))))"

definition cancel_of_an_executing_proposal_returns_conflict :: "harness \<Rightarrow> signer \<Rightarrow> test" where
  "cancel_of_an_executing_proposal_returns_conflict h owner =
     inserted test_clock (proposal_in h (sg_address owner) Executing) (\<lambda>pid.
     signing (cancel_header h owner pid) (\<lambda>sig_hex.
     delete_proposal h pid sig_hex (\<lambda>status _.
     assert (status = 409) (
     fetched pid (\<lambda>p. assert (p_status p = Executing) passed)))))"

definition cancel_by_non_owner_is_masked_as_not_found :: "harness \<Rightarrow> signer \<Rightarrow> test" where
  "cancel_by_non_owner_is_masked_as_not_found h intruder =
     insert_proposal_for h 1 (\<lambda>pid.
     signing (cancel_header h intruder pid) (\<lambda>sig_hex.
     delete_proposal h pid sig_hex (\<lambda>status b.
     assert (status = 404) (
     json_failure b (\<lambda>e. assert (err_kind e = ProposalNotFound) (
     fetched pid (\<lambda>proposal. assert (p_status proposal = Active) passed)))))))"

text \<open>The request has no token fields to remove.\<close>

definition post_without_token_fields_is_accepted :: "harness \<Rightarrow> signer \<Rightarrow> test" where
  "post_without_token_fields_is_accepted h s =
     signing (signed_proposal_body_for h s []) (\<lambda>body.
     post_proposal h public_router body (\<lambda>status _. assert (status = 202) passed))"

definition post_returns_202_and_proposal_is_submitted :: "harness \<Rightarrow> signer \<Rightarrow> test" where
  "post_returns_202_and_proposal_is_submitted h s =
     signing (signed_proposal_body_for h s []) (\<lambda>body.
     post_proposal h public_router body (\<lambda>status b.
     assert (status = 202) (
     json_id b (\<lambda>i.
     signing (read_auth_header h s) (\<lambda>header.
     get_uri h [''proposal'', u64_text i] (Some header) (\<lambda>status b.
     assert (status = 200) (
     json_proposal b (\<lambda>json. assert (gr_status json = WSubmitted) passed))))))))"

definition get_proposal_owner_reads_own :: "harness \<Rightarrow> signer \<Rightarrow> test" where
  "get_proposal_owner_reads_own h owner =
     insert_proposal_for h (sg_address owner) (\<lambda>pid.
     signing (read_auth_header h owner) (\<lambda>header.
     get_uri h [''proposal'', u64_text (pid_raw pid)] (Some header) (\<lambda>status b.
     assert (status = 200) (
     json_proposal b (\<lambda>json.
     assert (gr_id json = pid_raw pid \<and> gr_sell_amount json = ''1000000'' \<and> gr_buy_amount json = ''990000'') passed)))))"

definition penalized_proposal_exposes_the_penalty_tx_on_owner_get :: "harness \<Rightarrow> signer \<Rightarrow> test" where
  "penalized_proposal_exposes_the_penalty_tx_on_owner_get h owner =
     inserted test_clock ((proposal_in h (sg_address owner) SettleFailed)\<lparr>p_settlement_tx_hash := Some SETTLEMENT_TX\<rparr>) (\<lambda>pid.
     fetched pid (\<lambda>stored.
     expect (record_penalty std_codec test_clock stored 16000000000000000 PENALTY_TX) (\<lambda>_.
     signing (read_auth_header h owner) (\<lambda>header.
     get_uri h [''proposal'', u64_text (pid_raw pid)] (Some header) (\<lambda>status b.
     assert (status = 200) (
     json_proposal b (\<lambda>json.
     assert (gr_status json = WPenalized \<and> gr_penalty_tx_hash json = Some (b256_text std_codec PENALTY_TX) \<and>
       gr_settlement_tx_hash json = Some (b256_text std_codec SETTLEMENT_TX)) passed)))))))"

definition get_proposal_non_owner_gets_404 :: "harness \<Rightarrow> signer \<Rightarrow> test" where
  "get_proposal_non_owner_gets_404 h other =
     insert_proposal_for h 1 (\<lambda>pid.
     signing (read_auth_header h other) (\<lambda>header.
     get_uri h [''proposal'', u64_text (pid_raw pid)] (Some header) (\<lambda>status _. assert (status = 404) passed)))"

definition list_by_order_uid_scoped_to_caller :: "harness \<Rightarrow> signer \<Rightarrow> test" where
  "list_by_order_uid_scoped_to_caller h caller =
     insert_proposal_for h (sg_address caller) (\<lambda>_.
     insert_proposal_for h 2 (\<lambda>_.
     signing (read_auth_header h caller) (\<lambda>header.
     get_uri h [''proposals'', uid_text std_codec (uid_of 0xaa)] (Some header) (\<lambda>status b.
     assert (status = 200) (
     json_list b (\<lambda>proposals. assert (map md_sub_solver proposals = [sg_address caller]) passed))))))"

definition list_by_sub_solver_uses_signer_identity :: "harness \<Rightarrow> signer \<Rightarrow> test" where
  "list_by_sub_solver_uses_signer_identity h caller =
     insert_proposal_for h (sg_address caller) (\<lambda>_.
     insert_proposal_for h 2 (\<lambda>_.
     signing (read_auth_header h caller) (\<lambda>header.
     get_uri h [''proposals'', ''by-sub-solver''] (Some header) (\<lambda>status b.
     assert (status = 200) (
     json_list b (\<lambda>proposals. assert (map md_sub_solver proposals = [sg_address caller]) passed))))))"

definition get_proposal_without_signature_is_rejected :: "harness \<Rightarrow> test" where
  "get_proposal_without_signature_is_rejected h =
     insert_proposal_for h 1 (\<lambda>pid.
     get_uri h [''proposal'', u64_text (pid_raw pid)] None (\<lambda>status _. assert (status = 400) passed))"

subsection \<open>Proposals carrying a route, and expired ones\<close>

definition a_proposal_carrying_a_route_is_accepted_and_stored_intact :: "harness \<Rightarrow> signer \<Rightarrow> test" where
  "a_proposal_carrying_a_route_is_accepted_and_stored_intact h s =
     signing (signed_proposal_body_for h s sample_route) (\<lambda>body.
     post_proposal h public_router body (\<lambda>status b.
     assert (status = 202) (
     json_id b (\<lambda>i.
     fetched (ProposalId i) (\<lambda>stored.
     assert (p_sub_solver stored = sg_address s) (
     assert (p_interactions stored = sample_route \<and>
       p_interactions_hash stored = compute_interactions_hash (th_crypto h) sample_route) passed))))))"

definition a_route_with_a_non_decimal_value_is_rejected :: "harness \<Rightarrow> signer \<Rightarrow> test" where
  "a_route_with_a_non_decimal_value_is_rejected h s =
     signing (signed_proposal_body_for h s sample_route) (\<lambda>body.
     post_proposal h public_router (body\<lparr>cr_interactions := (cr_interactions body)[0 := (cr_interactions body ! 0)\<lparr>wi_value := ''0x10''\<rparr>]\<rparr>) (\<lambda>status b.
     assert (status = 400) (
     json_failure b (\<lambda>e. assert (err_kind e = BadRequest \<and> err_description e = ''invalid interaction value'') passed))))"

definition a_route_with_malformed_call_data_is_rejected :: "harness \<Rightarrow> signer \<Rightarrow> test" where
  "a_route_with_malformed_call_data_is_rejected h s =
     signing (signed_proposal_body_for h s sample_route) (\<lambda>body.
     post_proposal h public_router (body\<lparr>cr_interactions := (cr_interactions body)[1 := (cr_interactions body ! 1)\<lparr>wi_call_data := ''0xabc''\<rparr>]\<rparr>) (\<lambda>status b.
     assert (status = 400) (
     json_failure b (\<lambda>e. assert (err_kind e = BadRequest \<and> err_description e = ''invalid interaction callData'') passed))))"

definition post_rejects_already_expired_proposal :: "harness \<Rightarrow> signer \<Rightarrow> test" where
  "post_rejects_already_expired_proposal h s =
     signing (signed_body h s (wire_fixture 1 [])) (\<lambda>body.
     post_proposal h public_router body (\<lambda>status b.
     assert (status = 400) (
     json_failure b (\<lambda>e. assert (err_kind e = ProposalExpired) passed))))"

subsection \<open>The conversions\<close>

definition parse_hex_accepts_a_bare_prefix_as_empty :: bool where
  "parse_hex_accepts_a_bare_prefix_as_empty \<longleftrightarrow>
     parse_hex std_codec ''0x'' = Some [] \<and> parse_hex std_codec [] = Some []"

definition parse_hex_rejects_an_odd_digit_count :: bool where
  "parse_hex_rejects_an_odd_digit_count \<longleftrightarrow>
     parse_hex std_codec ''0xabc'' = None \<and> parse_hex std_codec ''abc'' = None"

definition parse_hex_rejects_non_hex_digits :: bool where
  "parse_hex_rejects_non_hex_digits \<longleftrightarrow>
     parse_hex std_codec ''0xzz'' = None \<and> parse_hex std_codec ''0x 1'' = None"

definition parse_u256_keeps_leading_zeros_and_rejects_other_shapes :: bool where
  "parse_u256_keeps_leading_zeros_and_rejects_other_shapes \<longleftrightarrow>
     parse_u256 std_codec ''000123'' = Some 123 \<and> parse_u256 std_codec ''0x10'' = None \<and> parse_u256 std_codec ''-1'' = None \<and>
     parse_u256 std_codec ''1.5'' = None \<and> parse_u256 std_codec '' 1'' = None"

definition parse_u256_reads_an_empty_string_as_zero :: bool where
  "parse_u256_reads_an_empty_string_as_zero \<longleftrightarrow> parse_u256 std_codec [] = Some 0"

definition parse_u256_rejects_a_value_past_the_maximum :: bool where
  "parse_u256_rejects_a_value_past_the_maximum \<longleftrightarrow>
     parse_u256 std_codec (u256_text std_codec (- 1)) = Some (- 1) \<and>
     parse_u256 std_codec ''115792089237316195423570985008687907853269984665640564039457584007913129639936'' = None"

lemmas std_parses = std_codec_def parse_hex_def std_parse_dec_def hex_val_def dec_val_def

lemma dto_tests:
  "parse_hex_accepts_a_bare_prefix_as_empty" "parse_hex_rejects_an_odd_digit_count" "parse_hex_rejects_non_hex_digits"
  "parse_u256_keeps_leading_zeros_and_rejects_other_shapes" "parse_u256_reads_an_empty_string_as_zero"
  by (simp_all add: parse_hex_accepts_a_bare_prefix_as_empty_def parse_hex_rejects_an_odd_digit_count_def
      parse_hex_rejects_non_hex_digits_def parse_u256_keeps_leading_zeros_and_rejects_other_shapes_def
      parse_u256_reads_an_empty_string_as_zero_def std_parses)

lemma parse_u256_rejects_a_value_past_the_maximum_passes: "parse_u256_rejects_a_value_past_the_maximum"
proof -
  have "parse_u256 std_codec ''115792089237316195423570985008687907853269984665640564039457584007913129639936'' = None"
    by (simp add: std_parses)
  then show ?thesis by (simp add: parse_u256_rejects_a_value_past_the_maximum_def)
qed

subsection \<open>They pass\<close>

lemma without_signers:
  "get_proposal_without_signature_is_rejected h test_store"
  by (simp add: get_proposal_without_signature_is_rejected_def test_run api_run authenticate_reader_def signature_from_header_def)

lemma get_tests:
  assumes "signs_for h s"
  shows "get_proposal_owner_reads_own h s test_store"
    and "penalized_proposal_exposes_the_penalty_tx_on_owner_get h s test_store"
    and "sg_address s \<noteq> 1 \<Longrightarrow> get_proposal_non_owner_gets_404 h s test_store"
    and "sg_address s \<noteq> 2 \<Longrightarrow> list_by_order_uid_scoped_to_caller h s test_store"
    and "sg_address s \<noteq> 2 \<Longrightarrow> list_by_sub_solver_uses_signer_identity h s test_store"
proof -
  obtain t where t: "read_auth_header h s = Some t"
    "authenticate_reader std_codec (th_crypto h) (th_domain h) (HeaderText t) = Inr (sg_address s)"
    using read_header [OF assms] .
  show "get_proposal_owner_reads_own h s test_store"
    by (simp add: get_proposal_owner_reads_own_def t test_run api_run)
  show "penalized_proposal_exposes_the_penalty_tx_on_owner_get h s test_store"
    by (simp add: penalized_proposal_exposes_the_penalty_tx_on_owner_get_def t test_run api_run)
  show "sg_address s \<noteq> 1 \<Longrightarrow> get_proposal_non_owner_gets_404 h s test_store"
    by (simp add: get_proposal_non_owner_gets_404_def t test_run api_run)
  show "sg_address s \<noteq> 2 \<Longrightarrow> list_by_order_uid_scoped_to_caller h s test_store"
    by (simp add: list_by_order_uid_scoped_to_caller_def t test_run api_run)
  show "sg_address s \<noteq> 2 \<Longrightarrow> list_by_sub_solver_uses_signer_identity h s test_store"
    by (simp add: list_by_sub_solver_uses_signer_identity_def t test_run api_run)
qed

lemma cancel_tests:
  assumes "signs_for h s"
  shows "cancel_of_an_executing_proposal_returns_conflict h s test_store"
    and "sg_address s \<noteq> 1 \<Longrightarrow> cancel_by_non_owner_is_masked_as_not_found h s test_store"
proof -
  obtain t where t: "cancel_header h s (ProposalId 1) = Some t"
    "authenticate_canceller std_codec (th_crypto h) (th_domain h) (ProposalId 1) (HeaderText t) = Inr (sg_address s)"
    using cancel_signed [OF assms] .
  show "cancel_of_an_executing_proposal_returns_conflict h s test_store"
    by (simp add: cancel_of_an_executing_proposal_returns_conflict_def t test_run api_run)
  show "sg_address s \<noteq> 1 \<Longrightarrow> cancel_by_non_owner_is_masked_as_not_found h s test_store"
    by (simp add: cancel_by_non_owner_is_masked_as_not_found_def t test_run api_run)
qed

lemma post_tests:
  assumes "signs_for h s"
  shows "double_cancel_returns_conflict h s test_store"
    and "post_without_token_fields_is_accepted h s test_store"
    and "post_returns_202_and_proposal_is_submitted h s test_store"
    and "rejected_proposal_exposes_reason_on_the_wire h s test_store"
    and "unprofitable_rejection_exposes_reason_on_the_wire h s test_store"
proof -
  obtain sig where "signed_body h s (wire_fixture (1700000000 + 240) []) =
      Some (body_with_signature (wire_fixture (1700000000 + 240) []) (signature_hex h sig))"
    "submitted std_codec (th_crypto h) (th_domain h) (body_with_signature (wire_fixture (1700000000 + 240) []) (signature_hex h sig)) =
      Inr (read_proposal h s (wire_fixture (1700000000 + 240) []) sig)"
    using body_signed [OF assms, of "wire_fixture (1700000000 + 240) []"] by (auto simp: wire_fixture_def)
  note b = this [unfolded wire_fixture_def, simplified]
  obtain r where r: "read_auth_header h s = Some r"
    "authenticate_reader std_codec (th_crypto h) (th_domain h) (HeaderText r) = Inr (sg_address s)"
    using read_header [OF assms] .
  obtain t where t: "cancel_header h s (ProposalId 1) = Some t"
    "authenticate_canceller std_codec (th_crypto h) (th_domain h) (ProposalId 1) (HeaderText t) = Inr (sg_address s)"
    using cancel_signed [OF assms] .
  show "double_cancel_returns_conflict h s test_store"
    by (simp add: double_cancel_returns_conflict_def b t test_run api_run)
  show "post_without_token_fields_is_accepted h s test_store"
    by (simp add: post_without_token_fields_is_accepted_def b test_run api_run)
  show "post_returns_202_and_proposal_is_submitted h s test_store"
    by (simp add: post_returns_202_and_proposal_is_submitted_def b r test_run api_run)
  show "rejected_proposal_exposes_reason_on_the_wire h s test_store"
    by (simp add: rejected_proposal_exposes_reason_on_the_wire_def rejected_proposal_body_def b r test_run loop_run api_run)
  show "unprofitable_rejection_exposes_reason_on_the_wire h s test_store"
    by (simp add: unprofitable_rejection_exposes_reason_on_the_wire_def rejected_proposal_body_def b r test_run loop_run api_run)
qed

lemma malformed_interactions:
  "dto_interaction std_codec (wire_json i\<lparr>wi_value := ''0x10''\<rparr>) = Inl (error_new BadRequest ''invalid interaction value'')"
  "dto_interaction std_codec (wire_json i\<lparr>wi_call_data := ''0xabc''\<rparr>) = Inl (error_new BadRequest ''invalid interaction callData'')"
  "dto_interaction std_codec (wire_json i) = Inr i"
  using interactions_parse [of "[i]"]
  by (auto simp: dto_interaction_def wire_json_def ok_or_def parse_hex_def) (simp_all add: std_parses)

lemma route_tests:
  assumes "signs_for h s"
  shows "a_proposal_carrying_a_route_is_accepted_and_stored_intact h s test_store"
    and "a_route_with_a_non_decimal_value_is_rejected h s test_store"
    and "a_route_with_malformed_call_data_is_rejected h s test_store"
    and "post_rejects_already_expired_proposal h s test_store"
proof -
  obtain r0 r1 where r: "sample_route = [r0, r1]" unfolding sample_route_def by blast
  obtain sig where "signed_body h s (wire_fixture (1700000000 + 240) sample_route) =
      Some (body_with_signature (wire_fixture (1700000000 + 240) sample_route) (signature_hex h sig))"
    "submitted std_codec (th_crypto h) (th_domain h) (body_with_signature (wire_fixture (1700000000 + 240) sample_route) (signature_hex h sig)) =
      Inr (read_proposal h s (wire_fixture (1700000000 + 240) sample_route) sig)"
    and sig: "signature_of_bytes (th_crypto h) (th_as_bytes h sig) = Some sig"
    using body_signed [OF assms, of "wire_fixture (1700000000 + 240) sample_route"] by (auto simp: wire_fixture_def)
  note b = this(1,2) [unfolded wire_fixture_def, simplified]
  show "a_proposal_carrying_a_route_is_accepted_and_stored_intact h s test_store"
    by (simp add: a_proposal_carrying_a_route_is_accepted_and_stored_intact_def b test_run api_run)
  note parts = b [unfolded r] body_with_signature_def submitted_def signature_parses sig r malformed_interactions
  show "a_route_with_a_non_decimal_value_is_rejected h s test_store"
    by (simp add: a_route_with_a_non_decimal_value_is_rejected_def parts test_run api_run)
  show "a_route_with_malformed_call_data_is_rejected h s test_store"
    by (simp add: a_route_with_malformed_call_data_is_rejected_def parts test_run api_run)
  obtain sig' where "signed_body h s (wire_fixture 1 []) = Some (body_with_signature (wire_fixture 1 []) (signature_hex h sig'))"
    "submitted std_codec (th_crypto h) (th_domain h) (body_with_signature (wire_fixture 1 []) (signature_hex h sig')) =
      Inr (read_proposal h s (wire_fixture 1 []) sig')"
    using body_signed [OF assms, of "wire_fixture 1 []"] by (auto simp: wire_fixture_def)
  note e = this [unfolded wire_fixture_def, simplified]
  show "post_rejects_already_expired_proposal h s test_store"
    by (simp add: post_rejects_already_expired_proposal_def e test_run api_run)
qed

end
