(* ===== verification/Service_Tests.thy ===== *)
theory Service_Tests
  imports Api_Tests Audit_Writer Process
begin

text \<open>
  The service tests (\<open>byos/src/tests/cases\<close>) under their names: what a client sees of the running service
  over the wire, and what the audit table then holds. A service is the harness of the router tests, whose
  loops make their passes where a test waits for them: \<open>validation_pass\<close> is a tick of the validation loop,
  \<open>swept\<close> one of the retention loop, \<open>audit_rows\<close> what the writer has written once it has caught up, and
  \<open>restarted\<close> a stop and a start over the same database.
\<close>

subsection \<open>The harness\<close>

definition default_fixture :: proposal_fixture where
  "default_fixture =
     \<lparr>pf_order_uid = uid_of 0xab, pf_sell_amount = 1000000, pf_buy_amount = 990000, pf_valid_until = 1700000000 + 240,
      pf_nonce = 1, pf_interactions = [\<lparr>i_target = 0xdd, i_value = 0, i_callData = [0xde, 0xad]\<rparr>]\<rparr>"

definition signed_proposal_body :: "harness \<Rightarrow> signer \<Rightarrow> order_uid \<Rightarrow> create_request option" where
  "signed_proposal_body h s order_uid = signed_body h s (default_fixture\<lparr>pf_order_uid := order_uid\<rparr>)"

definition get_json :: "harness \<Rightarrow> u64 \<Rightarrow> string option \<Rightarrow> (nat \<Rightarrow> body \<Rightarrow> test) \<Rightarrow> test" where
  "get_json h i = get_uri h [''proposal'', u64_text i]"

definition delete_path :: "harness \<Rightarrow> u64 \<Rightarrow> string option \<Rightarrow> (nat \<Rightarrow> body \<Rightarrow> test) \<Rightarrow> test" where
  "delete_path h i signature k =
     oneshot h public_router (request DELETE [''proposal'', u64_text i] Missing (to_header signature)) NoPayload 0
       (\<lambda>r _. k (hs_status r) (hs_body r))"

text \<open>A post that must answer 202 with an identifier.\<close>

definition created :: "harness \<Rightarrow> create_request option \<Rightarrow> (u64 \<Rightarrow> test) \<Rightarrow> test" where
  "created h req k = signing req (\<lambda>body.
     post_proposal h public_router body (\<lambda>status b. assert (status = 202) (json_id b k)))"

definition refused :: "nat \<Rightarrow> kind \<Rightarrow> nat \<Rightarrow> body \<Rightarrow> test" where
  "refused code kind status b = assert (status = code) (json_failure b (\<lambda>e. assert (err_kind e = kind) passed))"

definition validation_pass :: "test \<Rightarrow> test" where
  "validation_pass = validated_by_tick accept_all test_clock 1700000000 (from_secs 3600)"

definition wait_for_status :: "harness \<Rightarrow> u64 \<Rightarrow> string \<Rightarrow> wire_status \<Rightarrow> test \<Rightarrow> test" where
  "wait_for_status h i read_auth want k = get_json h i (Some read_auth) (\<lambda>status got.
     assert (status = 200) (json_proposal got (\<lambda>g. assert (gr_status g = want) k)))"

definition audit_rows :: "fates \<Rightarrow> (audit_row list \<Rightarrow> test) \<Rightarrow> test" where
  "audit_rows fates k f = (case drain std_codec fates (st_audit (fx_store f)) idle_writer of
     Some (Inr w) \<Rightarrow> k (wr_rows w) f | _ \<Rightarrow> False)"

definition restarted :: "test \<Rightarrow> test" where
  "restarted k f = k (f\<lparr>fx_store := (fx_store f)\<lparr>st_audit := []\<rparr>, fx_received := 0\<rparr>)"

subsection \<open>Creating a proposal\<close>

definition accepts_valid_until_at_the_lifetime_cap_boundary :: "harness \<Rightarrow> signer \<Rightarrow> test" where
  "accepts_valid_until_at_the_lifetime_cap_boundary h s =
     created h (signed_body h s (default_fixture\<lparr>pf_valid_until := 1700000000 + 300\<rparr>)) (\<lambda>_. passed)"

definition rejects_valid_until_beyond_the_lifetime_cap :: "harness \<Rightarrow> signer \<Rightarrow> test" where
  "rejects_valid_until_beyond_the_lifetime_cap h s =
     signing (signed_body h s (default_fixture\<lparr>pf_valid_until := 1700000000 + 3600\<rparr>)) (\<lambda>body.
     post_proposal h public_router body (refused 400 ProposalLifetimeExceeded))"

definition create_and_get_round_trip :: "harness \<Rightarrow> signer \<Rightarrow> test" where
  "create_and_get_round_trip h s =
     signing (signed_body h s default_fixture) (\<lambda>body.
     created h (Some body) (\<lambda>i.
     signing (read_auth_header h s) (\<lambda>auth.
     get_json h i (Some auth) (\<lambda>status got.
     assert (status = 200) (json_proposal got (\<lambda>g.
     assert (gr_id g = i \<and> gr_sub_solver g = sg_address s \<and> gr_order_uid g = cr_order_uid body \<and>
       gr_sell_amount g = ''1000000'' \<and> gr_buy_amount g = ''990000'' \<and>
       gr_valid_until g = u256_text std_codec (pf_valid_until default_fixture) \<and> gr_status g = WSubmitted) passed))))))"

definition get_without_read_auth_is_rejected :: "harness \<Rightarrow> signer \<Rightarrow> test" where
  "get_without_read_auth_is_rejected h s =
     created h (signed_body h s default_fixture) (\<lambda>i. get_json h i None (refused 400 InvalidSignature))"

definition non_owner_get_is_not_found :: "harness \<Rightarrow> signer \<Rightarrow> signer \<Rightarrow> test" where
  "non_owner_get_is_not_found h owner intruder =
     created h (signed_body h owner default_fixture) (\<lambda>i.
     signing (read_auth_header h intruder) (\<lambda>auth.
     get_json h i (Some auth) (refused 404 ProposalNotFound)))"

definition a_proposal_id_above_i64_max_is_a_miss_not_a_crash :: "harness \<Rightarrow> signer \<Rightarrow> signer \<Rightarrow> test" where
  "a_proposal_id_above_i64_max_is_a_miss_not_a_crash h reader owner =
     signing (read_auth_header h reader) (\<lambda>auth.
     get_json h (- 1) (Some auth) (\<lambda>status err.
     assert (status = 404) (json_failure err (\<lambda>e. assert (err_kind e = ProposalNotFound) (
     created h (signed_body h owner default_fixture) (\<lambda>i.
     signing (read_auth_header h owner) (\<lambda>owner_auth.
     get_json h i (Some owner_auth) (\<lambda>status _. assert (status = 200) passed))))))))"

definition rejects_malformed_order_uid_hex :: "harness \<Rightarrow> signer \<Rightarrow> test" where
  "rejects_malformed_order_uid_hex h s =
     signing (signed_body h s default_fixture) (\<lambda>body.
     post_proposal h public_router (body\<lparr>cr_order_uid := ''0xnothex''\<rparr>) (refused 400 BadRequest))"

definition rejects_wrong_length_order_uid :: "harness \<Rightarrow> signer \<Rightarrow> test" where
  "rejects_wrong_length_order_uid h s =
     signing (signed_body h s default_fixture) (\<lambda>body.
     post_proposal h public_router (body\<lparr>cr_order_uid := ''0x'' @ concat (replicate 55 ''ab'')\<rparr>) (refused 400 BadRequest))"

definition rejects_non_decimal_sell_amount :: "harness \<Rightarrow> signer \<Rightarrow> test" where
  "rejects_non_decimal_sell_amount h s =
     signing (signed_body h s default_fixture) (\<lambda>body.
     post_proposal h public_router (body\<lparr>cr_sell_amount := ''0x1000''\<rparr>) (refused 400 BadRequest))"

definition rejects_malformed_signature_bytes :: "harness \<Rightarrow> test" where
  "rejects_malformed_signature_bytes h =
     post_proposal h public_router (body_with_signature default_fixture ''0x1234'') (refused 400 InvalidSignature)"

definition tampered_body_is_accepted_under_a_different_sub_solver :: "harness \<Rightarrow> signer \<Rightarrow> test" where
  "tampered_body_is_accepted_under_a_different_sub_solver h s =
     signing (signed_body h s default_fixture) (\<lambda>body.
     created h (Some (body\<lparr>cr_sell_amount := ''2000000''\<rparr>)) (\<lambda>i.
     signing (read_auth_header h s) (\<lambda>auth.
     get_json h i (Some auth) (refused 404 ProposalNotFound))))"

subsection \<open>Cancelling one\<close>

definition owner_cancel_round_trip :: "harness \<Rightarrow> signer \<Rightarrow> test" where
  "owner_cancel_round_trip h s =
     signing (signed_body h s default_fixture) (\<lambda>body.
     created h (Some body) (\<lambda>i.
     signing (read_auth_header h s) (\<lambda>auth.
     validation_pass (wait_for_status h i auth WActive (
     signing (cancel_header h s (ProposalId i)) (\<lambda>sig.
     delete_path h i (Some sig) (\<lambda>status _.
     assert (status = 204) (
     wait_for_status h i auth WCancelled (
     get_uri h [''proposals'', cr_order_uid body] (Some auth) (\<lambda>status b.
     assert (status = 200) (json_list b (\<lambda>listed. assert (listed = []) passed))))))))))))"

definition cancelling_an_id_above_i64_max_is_a_miss_not_a_crash :: "harness \<Rightarrow> signer \<Rightarrow> test" where
  "cancelling_an_id_above_i64_max_is_a_miss_not_a_crash h s =
     signing (cancel_header h s (ProposalId (- 1))) (\<lambda>sig. delete_path h (- 1) (Some sig) (refused 404 ProposalNotFound))"

definition non_owner_cancel_is_masked_as_not_found :: "harness \<Rightarrow> signer \<Rightarrow> signer \<Rightarrow> test" where
  "non_owner_cancel_is_masked_as_not_found h owner intruder =
     created h (signed_body h owner default_fixture) (\<lambda>i.
     signing (cancel_header h intruder (ProposalId i)) (\<lambda>sig.
     delete_path h i (Some sig) (\<lambda>status err.
     assert (status = 404) (json_failure err (\<lambda>e. assert (err_kind e = ProposalNotFound) (
     signing (read_auth_header h owner) (\<lambda>auth. wait_for_status h i auth WSubmitted passed)))))))"

definition double_cancel_is_a_conflict :: "harness \<Rightarrow> signer \<Rightarrow> test" where
  "double_cancel_is_a_conflict h s =
     created h (signed_body h s default_fixture) (\<lambda>i.
     signing (cancel_header h s (ProposalId i)) (\<lambda>sig.
     delete_path h i (Some sig) (\<lambda>status _.
     assert (status = 204) (delete_path h i (Some sig) (refused 409 ProposalNotCancellable)))))"

definition cancel_unknown_id_is_not_found :: "harness \<Rightarrow> signer \<Rightarrow> test" where
  "cancel_unknown_id_is_not_found h s =
     signing (cancel_header h s (ProposalId 999)) (\<lambda>sig. delete_path h 999 (Some sig) (refused 404 ProposalNotFound))"

definition missing_signature_header_is_rejected :: "harness \<Rightarrow> signer \<Rightarrow> test" where
  "missing_signature_header_is_rejected h s =
     created h (signed_body h s default_fixture) (\<lambda>i. delete_path h i None (refused 400 InvalidSignature))"

subsection \<open>Listing them\<close>

text \<open>That a listing has the metadata fields only is the type of its entries.\<close>

definition order_listing_is_owner_scoped_and_metadata_only :: "harness \<Rightarrow> signer \<Rightarrow> signer \<Rightarrow> test" where
  "order_listing_is_owner_scoped_and_metadata_only h a b =
     signing (signed_body h a default_fixture) (\<lambda>body_a.
     created h (Some body_a) (\<lambda>id_a.
     created h (signed_body h b (default_fixture\<lparr>pf_nonce := 2\<rparr>)) (\<lambda>id_b.
     signing (read_auth_header h a) (\<lambda>auth_a.
     signing (read_auth_header h b) (\<lambda>auth_b.
     validation_pass (wait_for_status h id_a auth_a WActive (wait_for_status h id_b auth_b WActive (
     get_uri h [''proposals'', cr_order_uid body_a] (Some auth_a) (\<lambda>status b.
     assert (status = 200) (json_list b (\<lambda>proposals. assert (map md_id proposals = [id_a]) passed)))))))))))"

definition by_sub_solver_listing_uses_the_signature_identity :: "harness \<Rightarrow> signer \<Rightarrow> signer \<Rightarrow> test" where
  "by_sub_solver_listing_uses_the_signature_identity h a b =
     created h (signed_body h a default_fixture) (\<lambda>_.
     created h (signed_body h a (default_fixture\<lparr>pf_order_uid := uid_of 0xcd\<rparr>)) (\<lambda>_.
     created h (signed_body h b default_fixture) (\<lambda>_.
     signing (read_auth_header h a) (\<lambda>auth_a.
     get_uri h [''proposals'', ''by-sub-solver''] (Some auth_a) (\<lambda>status b.
     assert (status = 200) (json_list b (\<lambda>proposals.
     assert (map md_sub_solver proposals = [sg_address a, sg_address a]) passed)))))))"

definition unknown_order_uid_returns_empty_list :: "harness \<Rightarrow> signer \<Rightarrow> test" where
  "unknown_order_uid_returns_empty_list h s =
     signing (read_auth_header h s) (\<lambda>auth.
     get_uri h [''proposals'', uid_text std_codec (uid_of 0xef)] (Some auth) (\<lambda>status b.
     assert (status = 200) (json_list b (\<lambda>proposals. assert (proposals = []) passed))))"

definition listing_without_read_auth_is_rejected :: "harness \<Rightarrow> test" where
  "listing_without_read_auth_is_rejected h =
     get_uri h [''proposals'', uid_text std_codec (uid_of 0xef)] None (refused 400 InvalidSignature)"

subsection \<open>The internal listener\<close>

definition empty_auction :: auction where
  "empty_auction = \<lparr>au_id = None, au_reference_price = (\<lambda>_. None), au_effective_gas_price = 0, au_orders = []\<rparr>"

definition post_auction :: "harness \<Rightarrow> route list \<Rightarrow> string option \<Rightarrow> (nat \<Rightarrow> test) \<Rightarrow> test" where
  "post_auction h app authorization k =
     oneshot h app (request POST [''solve''] (to_header authorization) Missing) (AuctionPayload empty_auction) 0 (\<lambda>r _. k (hs_status r))"

definition solve_is_only_reachable_on_the_internal_listener :: "harness \<Rightarrow> test" where
  "solve_is_only_reachable_on_the_internal_listener h =
     post_auction h public_router None (\<lambda>status.
     assert (status = 404) (
     post_auction h (internal_router None) None (\<lambda>status. assert (status = 200) passed)))"

definition solve_bearer_token_is_enforced_end_to_end :: "harness \<Rightarrow> test" where
  "solve_bearer_token_is_enforced_end_to_end h =
     post_auction h (internal_router (Some ''driver-secret'')) None (\<lambda>status.
     assert (status = 401) (
     post_auction h (internal_router (Some ''driver-secret'')) (Some ''Bearer driver-secret'') (\<lambda>status.
     assert (status = 200) passed)))"

definition proposal_ingestion_is_not_reachable_on_the_internal_listener :: "harness \<Rightarrow> test" where
  "proposal_ingestion_is_not_reachable_on_the_internal_listener h =
     oneshot h (internal_router None) (request POST [''proposals''] Missing Missing) NoPayload 0 (\<lambda>r _.
     assert (hs_status r = 404) passed)"

subsection \<open>Restarts, retention and the audit table\<close>

definition live_proposal_survives_restart_and_is_validated :: "harness \<Rightarrow> signer \<Rightarrow> test" where
  "live_proposal_survives_restart_and_is_validated h s =
     created h (signed_proposal_body h s (uid_of 0xab)) (\<lambda>i.
     signing (read_auth_header h s) (\<lambda>read_auth.
     wait_for_status h i read_auth WSubmitted (
     restarted (
     validation_pass (wait_for_status h i read_auth WActive passed)))))"

text \<open>The sweep runs when the database's clock has moved on.\<close>

definition dropped_proposal_is_swept_but_its_audit_trail_remains :: "harness \<Rightarrow> signer \<Rightarrow> test" where
  "dropped_proposal_is_swept_but_its_audit_trail_remains h s =
     created h (signed_proposal_body h s (uid_of 0xab)) (\<lambda>i.
     signing (cancel_header h s (ProposalId i)) (\<lambda>sig.
     delete_path h i (Some sig) (\<lambda>status _.
     assert (status = 204) (
     expect (sweep_dropped (later test_clock) 0) (\<lambda>_.
     signing (read_auth_header h s) (\<lambda>read_auth.
     get_json h i (Some read_auth) (\<lambda>status _.
     assert (status = 404) (
     audit_rows (\<lambda>_. None) (\<lambda>rows. assert (map au_event_type rows = [''received'', ''cancelled'']) passed)))))))))"

definition audit_db_write_behind_round_trip :: "harness \<Rightarrow> signer \<Rightarrow> test" where
  "audit_db_write_behind_round_trip h s =
     created h (signed_proposal_body h s (uid_of 0xab)) (\<lambda>i.
     signing (cancel_header h s (ProposalId i)) (\<lambda>sig.
     delete_path h i (Some sig) (\<lambda>status _.
     assert (status = 204) (
     audit_rows (\<lambda>_. None) (\<lambda>rows. case rows of
       [r, c] \<Rightarrow>
         assert (au_event_type r = ''received'' \<and> Some (au_proposal_id r) = i64_of_u64 i \<and>
           au_sub_solver r = addr_text std_codec (sg_address s) \<and> au_order_uid r = uid_text std_codec (uid_of 0xab) \<and>
           au_settlement_tx_hash r = None) (
         assert (json_get (au_payload r) ''sellAmount'' = Some (JStr ''1000000'') \<and>
           json_get (au_payload r) ''orderUid'' = Some (JStr (uid_text std_codec (uid_of 0xab)))) (
         assert (case Option.bind (json_get (au_payload r) ''signature'') json_str of
           Some t \<Rightarrow> length t = 2 + 65 * 2 | None \<Rightarrow> False) (
         assert (au_event_type c = ''cancelled'' \<and> au_proposal_id c = au_proposal_id r \<and>
           au_sub_solver c = addr_text std_codec (sg_address s) \<and> au_payload c = JObj []) passed)))
     | _ \<Rightarrow> (\<lambda>_. False))))))"

definition audit_db_validator_verdict_leaves_evidence :: "harness \<Rightarrow> signer \<Rightarrow> test" where
  "audit_db_validator_verdict_leaves_evidence h s =
     created h (signed_proposal_body h s (uid_of 0xcd)) (\<lambda>_.
     validation_pass (
     audit_rows (\<lambda>_. None) (\<lambda>rows. case rows of
       [r, v] \<Rightarrow>
         assert (au_event_type r = ''received'' \<and> au_event_type v = ''validated'' \<and>
           au_proposal_id v = au_proposal_id r) (
         assert (json_get (au_payload v) ''from'' = Some (JStr ''submitted'') \<and>
           json_get (au_payload v) ''to'' = Some (JStr ''active'')) passed)
     | _ \<Rightarrow> (\<lambda>_. False))))"

definition audit_db_ids_continue_across_restart :: "harness \<Rightarrow> signer \<Rightarrow> test" where
  "audit_db_ids_continue_across_restart h s =
     created h (signed_proposal_body h s (uid_of 1)) (\<lambda>first.
     restarted (
     created h (signed_proposal_body h s (uid_of 2)) (\<lambda>second.
     restarted (
     assert (second > first) passed))))"

text \<open>\<open>BURST\<close> submissions and a stop, which waits for the writer.\<close>

definition audit_db_shutdown_drains_queued_events :: "harness \<Rightarrow> signer \<Rightarrow> test" where
  "audit_db_shutdown_drains_queued_events h s =
     for_each (\<lambda>i k. created h (signed_proposal_body h s (OrderUid (i # replicate 55 0))) (\<lambda>_. k ())) (map of_nat [0..<25]) (\<lambda>_.
     audit_rows (\<lambda>_. None) (\<lambda>rows. assert (length rows = 25) passed))"

text \<open>While the table is renamed away the first \<open>n\<close> inserts fail and leave no row; then it is back.\<close>

definition outage :: "nat \<Rightarrow> fates" where
  "outage n i = (if i < n then Some (Failed Connection) else None)"

definition audit_db_writer_retries_until_database_recovers :: "harness \<Rightarrow> signer \<Rightarrow> nat \<Rightarrow> test" where
  "audit_db_writer_retries_until_database_recovers h s n =
     created h (signed_proposal_body h s (uid_of 0xab)) (\<lambda>_.
     oneshot h public_router (request GET [''healthz''] Missing Missing) NoPayload 0 (\<lambda>r _.
     assert (hs_status r = 200) (
     audit_rows (outage n) (\<lambda>rows.
     assert (list_all (\<lambda>i. list_all (\<lambda>row.
       wr_rows (snd (insert_audit_row (outage n) row (idle_writer\<lparr>wr_statements := i\<rparr>))) = []) rows) [0..<n]) (
     assert (map au_event_type rows = [''received'']) passed)))))"

text \<open>A port that is taken.\<close>

definition boot_arguments :: arguments where
  "boot_arguments = (default_arguments 1 1 ''url'')\<lparr>ar_validation_interval_secs := 3600\<rparr>"

definition a_bind_failure_leaves_no_background_tasks_running :: bool where
  "a_bind_failure_leaves_no_background_tasks_running \<longleftrightarrow>
     (case run_with boot_arguments (quiet_environment\<lparr>en_sockets := (en_sockets quiet_environment)\<lparr>so_public := False\<rparr>\<rparr>) of
        (Ends (Inl e), _, left) \<Rightarrow> pr_tasks left = [] | _ \<Rightarrow> False)"

subsection \<open>They pass\<close>

named_theorems service_run \<open>how a service test runs\<close>

lemma fixture_fields [service_run]:
  "pf_order_uid default_fixture = uid_of 0xab" "pf_sell_amount default_fixture = 1000000" "pf_buy_amount default_fixture = 990000"
  "pf_valid_until default_fixture = 1700000240" "pf_nonce default_fixture = 1"
  "cr_order_uid (body_with_signature fx t) = uid_text std_codec (pf_order_uid fx)"
  by (simp_all add: default_fixture_def body_with_signature_def)

lemmas [service_run] = get_json_def delete_path_def created_def refused_def validation_pass_def wait_for_status_def
  restarted_def signed_proposal_body_def post_auction_def empty_auction_def

lemma service_without_signers:
  "listing_without_read_auth_is_rejected h test_store" "solve_is_only_reachable_on_the_internal_listener h test_store"
  "solve_bearer_token_is_enforced_end_to_end h test_store"
  "proposal_ingestion_is_not_reachable_on_the_internal_listener h test_store"
  by (simp_all add: listing_without_read_auth_is_rejected_def solve_is_only_reachable_on_the_internal_listener_def
      solve_bearer_token_is_enforced_end_to_end_def proposal_ingestion_is_not_reachable_on_the_internal_listener_def
      authenticate_reader_def signature_from_header_def solve_def u64_of_u256_def test_run api_run service_run)

lemma a_bind_failure_leaves_no_background_tasks_running_passes: "a_bind_failure_leaves_no_background_tasks_running"
  by (simp add: a_bind_failure_leaves_no_background_tasks_running_def run_with_def start_loops_def boot_arguments_def
      default_arguments_def quiet_environment_def serve_def Let_def teardown_def await_writer_def)

text \<open>A signer's body for a fixture, and what the service reads from it.\<close>

definition signed_as :: "harness \<Rightarrow> signer \<Rightarrow> proposal_fixture \<Rightarrow> signature \<Rightarrow> bool" where
  "signed_as h s fx sig \<longleftrightarrow> signed_body h s fx = Some (body_with_signature fx (signature_hex h sig)) \<and>
     submitted std_codec (th_crypto h) (th_domain h) (body_with_signature fx (signature_hex h sig)) = Inr (read_proposal h s fx sig) \<and>
     signature_of_bytes (th_crypto h) (th_as_bytes h sig) = Some sig"

definition signs_bodies :: "harness \<Rightarrow> signer \<Rightarrow> (proposal_fixture \<Rightarrow> signature) \<Rightarrow> bool" where
  "signs_bodies h s sig \<longleftrightarrow> (\<forall>fx. uid_ok (pf_order_uid fx) \<longrightarrow> signed_as h s fx (sig fx))"

lemma bodies_signed:
  assumes "signs_for h s"
  obtains sig where "signs_bodies h s sig"
proof -
  have "\<exists>sig. uid_ok (pf_order_uid fx) \<longrightarrow> signed_as h s fx sig" for fx
    unfolding signed_as_def using body_signed [OF assms, of fx] by metis
  then show thesis using that unfolding signs_bodies_def by metis
qed

lemma signed_body_of:
  assumes "signs_bodies h s sig" and "uid_ok (pf_order_uid fx)"
  shows "signed_body h s fx = Some (body_with_signature fx (signature_hex h (sig fx)))"
    and "submitted std_codec (th_crypto h) (th_domain h) (body_with_signature fx (signature_hex h (sig fx))) =
      Inr (read_proposal h s fx (sig fx))"
    and "signature_of_bytes (th_crypto h) (th_as_bytes h (sig fx)) = Some (sig fx)"
  using assms by (auto simp: signs_bodies_def signed_as_def)

lemma create_tests:
  assumes "signs_for h s"
  shows "accepts_valid_until_at_the_lifetime_cap_boundary h s test_store"
    and "rejects_valid_until_beyond_the_lifetime_cap h s test_store"
    and "create_and_get_round_trip h s test_store"
    and "get_without_read_auth_is_rejected h s test_store"
    and "missing_signature_header_is_rejected h s test_store"
    and "unknown_order_uid_returns_empty_list h s test_store"
proof -
  obtain r where r: "read_auth_header h s = Some r"
    "authenticate_reader std_codec (th_crypto h) (th_domain h) (HeaderText r) = Inr (sg_address s)"
    using read_header [OF assms] .
  obtain sig where "signs_bodies h s sig" using bodies_signed [OF assms] .
  note b = signed_body_of [OF this]
  show "create_and_get_round_trip h s test_store"
    by (simp add: create_and_get_round_trip_def b r test_run api_run service_run)
  show "get_without_read_auth_is_rejected h s test_store"
    by (simp add: get_without_read_auth_is_rejected_def b authenticate_reader_def signature_from_header_def test_run api_run service_run)
  show "missing_signature_header_is_rejected h s test_store"
    by (simp add: missing_signature_header_is_rejected_def b authenticate_canceller_def signature_from_header_def test_run api_run service_run)
  show "unknown_order_uid_returns_empty_list h s test_store"
    by (simp add: unknown_order_uid_returns_empty_list_def r test_run api_run service_run)
  show "accepts_valid_until_at_the_lifetime_cap_boundary h s test_store"
    by (simp add: accepts_valid_until_at_the_lifetime_cap_boundary_def b test_run api_run service_run)
  show "rejects_valid_until_beyond_the_lifetime_cap h s test_store"
    by (simp add: rejects_valid_until_beyond_the_lifetime_cap_def b test_run api_run service_run)
qed

text \<open>A signature recovers to another address for a body it was not made for.\<close>

definition recovers_elsewhere :: "harness \<Rightarrow> signer \<Rightarrow> proposal_fixture \<Rightarrow> proposal_fixture \<Rightarrow> bool" where
  "recovers_elsewhere h s fx fx' \<longleftrightarrow> (\<forall>sig. signed_as h s fx sig \<longrightarrow> (\<exists>a. a \<noteq> sg_address s \<and>
     recover_proposer (th_crypto h) sig (th_domain h) (as_proposal h fx')
       (compute_interactions_hash (th_crypto h) (pf_interactions fx')) = Some a))"

lemma pairs_decode: "std_hex_decode (concat (replicate n ''ab'')) = Some (replicate n 0xab)"
  using std_hex_round [of "replicate n 0xab"] by (simp add: std_hex_byte_def digits)

lemma malformed_fields [service_run]:
  "parse_order_uid std_codec (CHR ''0'' # CHR ''x'' # concat (replicate 55 ''ab'')) =
     Inl (error_new BadRequest (''invalid orderUid: '' @ uid_error_text (UidLength 55)))"
  "parse_order_uid std_codec ''0xnothex'' = Inl (error_new BadRequest (''invalid orderUid: '' @ uid_error_text UidHex))"
  "parse_u256 std_codec ''0x1000'' = None" "parse_u256 std_codec ''2000000'' = Some 2000000"
  "parse_hex std_codec ''0x1234'' = Some [0x12, 0x34]"
  by (simp_all add: parse_order_uid_def from_hex_def std_parses pairs_decode)

lemma malformed_tests:
  assumes "signs_for h s"
  shows "rejects_malformed_order_uid_hex h s test_store"
    and "rejects_wrong_length_order_uid h s test_store"
    and "rejects_non_decimal_sell_amount h s test_store"
    and "signature_of_bytes (th_crypto h) [0x12, 0x34] = None \<Longrightarrow> rejects_malformed_signature_bytes h test_store"
    and "recovers_elsewhere h s default_fixture (default_fixture\<lparr>pf_sell_amount := 2000000\<rparr>) \<Longrightarrow>
      tampered_body_is_accepted_under_a_different_sub_solver h s test_store"
proof -
  obtain sig where sig: "signs_bodies h s sig" using bodies_signed [OF assms] .
  note b = signed_body_of [OF sig]
  note parts = submitted_def body_with_signature_def signature_parses order_uid_parses interactions_parse
    [unfolded list.map_comp]
  show "rejects_malformed_order_uid_hex h s test_store"
    by (simp add: rejects_malformed_order_uid_hex_def b submitted_def test_run api_run service_run)
  show "rejects_wrong_length_order_uid h s test_store"
    by (simp add: rejects_wrong_length_order_uid_def b submitted_def test_run api_run service_run)
  show "rejects_non_decimal_sell_amount h s test_store"
    by (simp add: rejects_non_decimal_sell_amount_def b parts test_run api_run service_run)
  show "rejects_malformed_signature_bytes h test_store" if "signature_of_bytes (th_crypto h) [0x12, 0x34] = None"
    by (simp add: rejects_malformed_signature_bytes_def that parts test_run api_run service_run)
  show "tampered_body_is_accepted_under_a_different_sub_solver h s test_store"
    if elsewhere: "recovers_elsewhere h s default_fixture (default_fixture\<lparr>pf_sell_amount := 2000000\<rparr>)"
  proof -
    obtain r where r: "read_auth_header h s = Some r"
      "authenticate_reader std_codec (th_crypto h) (th_domain h) (HeaderText r) = Inr (sg_address s)"
      using read_header [OF assms] .
    have "signed_as h s default_fixture (sig default_fixture)" using sig by (simp add: signs_bodies_def service_run)
    with elsewhere obtain a where a: "a \<noteq> sg_address s" "recover_proposer (th_crypto h) (sig default_fixture) (th_domain h)
        (as_proposal h (default_fixture\<lparr>pf_sell_amount := 2000000\<rparr>))
        (compute_interactions_hash (th_crypto h) (pf_interactions default_fixture)) = Some a"
      by (auto simp: recovers_elsewhere_def)
    note a' = a(2) [unfolded as_proposal_def, simplified, unfolded fixture_fields]
    show ?thesis
      by (simp add: tampered_body_is_accepted_under_a_different_sub_solver_def b a(1) a' r parts test_run api_run service_run)
  qed
qed

text \<open>What the writer has written when it has caught up.\<close>

lemma healthy_writer:
  "insert_with_retry c (\<lambda>_. None) e w =
     (case audit_row_of c e of None \<Rightarrow> Some (Inl ())
      | Some row \<Rightarrow> Some (Inr (w\<lparr>wr_rows := wr_rows w @ [row], wr_statements := wr_statements w + 1\<rparr>)))"
  by (auto simp: insert_with_retry_def insert_audit_row_def keep_inserting.simps Let_def split: option.splits)

lemma healthy_drain:
  "\<forall>e\<in>set es. audit_row_of c e \<noteq> None \<Longrightarrow>
     \<exists>w'. drain c (\<lambda>_. None) es w = Some (Inr w') \<and> wr_rows w' = wr_rows w @ map (the \<circ> audit_row_of c) es"
  by (induction es arbitrary: w) (force simp: healthy_writer)+

lemma rows_written [service_run]:
  "\<forall>e\<in>set (st_audit (fx_store f)). audit_row_of std_codec e \<noteq> None \<Longrightarrow>
     audit_rows (\<lambda>_. None) k f = k (map (the \<circ> audit_row_of std_codec) (st_audit (fx_store f))) f"
  using healthy_drain [of "st_audit (fx_store f)" std_codec idle_writer] by (auto simp: audit_rows_def idle_writer_def)

lemma rows_written_after_outage [service_run]:
  assumes "st_audit (fx_store f) = [e]" and "audit_row_of std_codec e = Some row"
  shows "audit_rows (outage n) k f = k [row] f"
proof -
  have "lost_between (outage n) a b = 0" for a b by (simp add: lost_between_def outage_def lost_def)
  moreover have "outage n n = None" "i < n \<Longrightarrow> outage n i \<noteq> None" for i by (simp_all add: outage_def)
  ultimately obtain w where "keep_inserting (outage n) row INITIAL_BACKOFF idle_writer = Some w" "wr_rows w = [row]"
    using keep_inserting_lands [of "outage n" idle_writer n INITIAL_BACKOFF row]
    by (auto simp: idle_writer_def INITIAL_BACKOFF_def MAX_BACKOFF_def)
  with assms show ?thesis by (simp add: audit_rows_def insert_with_retry_def)
qed

lemma hex_length [service_run]: "length (hex_prefixed std_codec bs) = 2 + length bs * 2"
  by (induction bs) (simp_all add: std_codec_def std_hex_prefixed_def std_hex_byte_def)

lemmas [service_run] = audit_row_of_def received_payload_def

lemma audit_tests:
  assumes "signs_for h s"
  shows "(\<And>sig. length (th_as_bytes h sig) = 65) \<Longrightarrow> audit_db_write_behind_round_trip h s test_store"
    and "audit_db_validator_verdict_leaves_evidence h s test_store"
    and "audit_db_ids_continue_across_restart h s test_store"
    and "audit_db_writer_retries_until_database_recovers h s n test_store"
proof -
  obtain t where t: "cancel_header h s (ProposalId 1) = Some t"
    "authenticate_canceller std_codec (th_crypto h) (th_domain h) (ProposalId 1) (HeaderText t) = Inr (sg_address s)"
    using cancel_signed [OF assms] .
  obtain sig where "signs_bodies h s sig" using bodies_signed [OF assms] .
  note b = signed_body_of [OF this]
  show "audit_db_write_behind_round_trip h s test_store" if "\<And>sig. length (th_as_bytes h sig) = 65"
    by (simp add: audit_db_write_behind_round_trip_def b t that test_run api_run service_run)
  show "audit_db_validator_verdict_leaves_evidence h s test_store"
    by (simp add: audit_db_validator_verdict_leaves_evidence_def b test_run loop_run api_run service_run)
      (simp add: status_text.simps)
  show "audit_db_ids_continue_across_restart h s test_store"
    by (simp add: audit_db_ids_continue_across_restart_def b test_run api_run service_run)
  show "audit_db_writer_retries_until_database_recovers h s n test_store"
    by (simp add: audit_db_writer_retries_until_database_recovers_def b list_all_iff insert_audit_row_def outage_def idle_writer_def
        test_run api_run service_run)
qed

lemma owner_tests:
  assumes "signs_for h s"
  shows "owner_cancel_round_trip h s test_store"
    and "double_cancel_is_a_conflict h s test_store"
    and "cancelling_an_id_above_i64_max_is_a_miss_not_a_crash h s test_store"
    and "cancel_unknown_id_is_not_found h s test_store"
    and "live_proposal_survives_restart_and_is_validated h s test_store"
    and "dropped_proposal_is_swept_but_its_audit_trail_remains h s test_store"
proof -
  obtain r where r: "read_auth_header h s = Some r"
    "authenticate_reader std_codec (th_crypto h) (th_domain h) (HeaderText r) = Inr (sg_address s)"
    using read_header [OF assms] .
  obtain t where t: "cancel_header h s (ProposalId 1) = Some t"
    "authenticate_canceller std_codec (th_crypto h) (th_domain h) (ProposalId 1) (HeaderText t) = Inr (sg_address s)"
    using cancel_signed [OF assms] .
  obtain u where u: "cancel_header h s (ProposalId (- 1)) = Some u"
    "authenticate_canceller std_codec (th_crypto h) (th_domain h) (ProposalId (- 1)) (HeaderText u) = Inr (sg_address s)"
    using cancel_signed [OF assms] .
  obtain v where v: "cancel_header h s (ProposalId 999) = Some v"
    "authenticate_canceller std_codec (th_crypto h) (th_domain h) (ProposalId 999) (HeaderText v) = Inr (sg_address s)"
    using cancel_signed [OF assms] .
  obtain sig where "signs_bodies h s sig" using bodies_signed [OF assms] .
  note b = signed_body_of [OF this]
  show "owner_cancel_round_trip h s test_store"
    by (simp add: owner_cancel_round_trip_def b r t test_run loop_run api_run service_run)
  show "double_cancel_is_a_conflict h s test_store"
    by (simp add: double_cancel_is_a_conflict_def b t test_run api_run service_run)
  show "cancelling_an_id_above_i64_max_is_a_miss_not_a_crash h s test_store"
    by (simp add: cancelling_an_id_above_i64_max_is_a_miss_not_a_crash_def u test_run api_run service_run)
  show "cancel_unknown_id_is_not_found h s test_store"
    by (simp add: cancel_unknown_id_is_not_found_def v test_run api_run service_run)
  show "live_proposal_survives_restart_and_is_validated h s test_store"
    by (simp add: live_proposal_survives_restart_and_is_validated_def b r test_run loop_run api_run service_run)
  show "dropped_proposal_is_swept_but_its_audit_trail_remains h s test_store"
    by (simp add: dropped_proposal_is_swept_but_its_audit_trail_remains_def b r t test_run loop_run api_run service_run)
qed

lemma audit_db_shutdown_drains_queued_events_passes:
  assumes "signs_for h s"
  shows "audit_db_shutdown_drains_queued_events h s test_store"
proof -
  obtain sig where "signs_bodies h s sig" using bodies_signed [OF assms] .
  note b = signed_body_of [OF this]
  have uid: "uid_ok (OrderUid (i # replicate 55 0))" for i by (simp add: uid_ok_def)
  show ?thesis
    by (simp add: audit_db_shutdown_drains_queued_events_def b uid upt_conv_Cons test_run api_run service_run del: replicate.simps upt_Suc)
qed

lemma two_client_tests:
  assumes "signs_for h a" and "signs_for h b" and other: "sg_address a \<noteq> sg_address b"
  shows "non_owner_get_is_not_found h a b test_store"
    and "a_proposal_id_above_i64_max_is_a_miss_not_a_crash h b a test_store"
    and "non_owner_cancel_is_masked_as_not_found h a b test_store"
    and "order_listing_is_owner_scoped_and_metadata_only h a b test_store"
    and "by_sub_solver_listing_uses_the_signature_identity h a b test_store"
proof -
  obtain ra where ra: "read_auth_header h a = Some ra"
    "authenticate_reader std_codec (th_crypto h) (th_domain h) (HeaderText ra) = Inr (sg_address a)"
    using read_header [OF assms(1)] .
  obtain rb where rb: "read_auth_header h b = Some rb"
    "authenticate_reader std_codec (th_crypto h) (th_domain h) (HeaderText rb) = Inr (sg_address b)"
    using read_header [OF assms(2)] .
  obtain t where t: "cancel_header h b (ProposalId 1) = Some t"
    "authenticate_canceller std_codec (th_crypto h) (th_domain h) (ProposalId 1) (HeaderText t) = Inr (sg_address b)"
    using cancel_signed [OF assms(2)] .
  obtain sa sb where "signs_bodies h a sa" "signs_bodies h b sb"
    using bodies_signed [OF assms(1)] bodies_signed [OF assms(2)] by metis
  note own = signed_body_of [OF this(1)] signed_body_of [OF this(2)]
  note parties = ra rb t other other [symmetric]
  show "non_owner_get_is_not_found h a b test_store"
    by (simp add: non_owner_get_is_not_found_def own parties test_run api_run service_run)
  show "a_proposal_id_above_i64_max_is_a_miss_not_a_crash h b a test_store"
    by (simp add: a_proposal_id_above_i64_max_is_a_miss_not_a_crash_def own parties test_run api_run service_run)
  show "non_owner_cancel_is_masked_as_not_found h a b test_store"
    by (simp add: non_owner_cancel_is_masked_as_not_found_def own parties test_run api_run service_run)
  show "order_listing_is_owner_scoped_and_metadata_only h a b test_store"
    by (simp add: order_listing_is_owner_scoped_and_metadata_only_def own parties test_run loop_run api_run service_run)
  show "by_sub_solver_listing_uses_the_signature_identity h a b test_store"
    by (simp add: by_sub_solver_listing_uses_the_signature_identity_def own parties test_run api_run service_run)
qed

end
