(* ===== verification/Spec2Isabelle.thy ===== *)
theory Spec2Isabelle
  imports Envelope Scoring Gas_Cut Well_Formed End_To_End Deployed Startup_Log
  Store_Tests Domain_Tests Settlement_Tests Notify_Tests Solve_Tests Chain_Tests Subsolver_Tests Service_Tests
begin

text \<open>
  A verification development of the BYOS service ("bring your own solver"): sub-solvers sign proposals
  for orders of a batch auction, the service validates them against the chain, bids the best ones
  through \<open>/solve\<close>, follows their settlement through \<open>/notify\<close> and debits the escrow of a sub-solver
  whose settlement failed. Paths are relative to \<open>src/crates/\<close>; \<open>byos\<close> is the service.

  \<^bold>\<open>The parts and how they meet.\<close> All state that matters is in one place, the proposal store
  (\<open>byos/src/infra/storage.rs\<close>) over a database, and everything else is a client of it: the public API
  inserts, reads and cancels; the validation loop expires, judges and releases; \<open>/solve\<close> reads the live
  proposals and records its bids; \<open>/notify\<close> applies outcomes to the proposals those bids attribute; the
  penalty loop turns failed settlements and abandonments into debits; the retention loop deletes what
  was dropped. Every mutation also sends an event to the audit writer, which persists it. The
  sub-solver crate is the reference client. So the development is built around the store: its
  operations are proved against a map from identifiers to proposals, that map against an abstract
  lifecycle, and each client against the store's contract.

  \<^bold>\<open>Theories and sources.\<close>
  \<^item> \<open>Prelude\<close>: machine integers (\<open>u64\<close>, \<open>u256\<close> are words of their width), the checked, saturating and
    rounding operations, results as sums; \<open>arith_facts\<close> reads them over the natural numbers.
  \<^item> \<open>Codec\<close>: the texts of columns and wire fields; \<open>text_codec\<close> is the interface of a printer and its
    parser, \<open>codec\<close> the third-party ones with the contract \<open>codec_ok\<close>, \<open>std_codec\<close> a concrete instance.
  \<^item> \<open>Types\<close> (\<open>byos/src/domain/proposal.rs\<close>, \<open>domain/validator.rs\<close>, the bindings' structs), \<open>Envelope\<close>
    (\<open>domain/order.rs\<close>), \<open>Scoring\<close> (\<open>domain/scoring.rs\<close>), \<open>Gas_Cut\<close> (\<open>domain/gas_cut.rs\<close>),
    \<open>Penalty_Policy\<close> (\<open>domain/penalty.rs\<close>), \<open>Audit_Events\<close> (\<open>domain/audit.rs\<close>): the domain, with reference
    definitions over unbounded numbers that the checked arithmetic is proved equal to.
  \<^item> \<open>Db\<close> (tables and row codec), \<open>Storage\<close> (every operation of \<open>storage.rs\<close>), \<open>Store_Logic\<close> (a small logic
    of weakest preconditions), \<open>Row_Updates\<close> (the locale \<open>row_update\<close>: a change of columns implements a
    change of a proposal), \<open>Store_Facts\<close>, \<open>Store_Ops\<close>, \<open>Store_Tables\<close>, \<open>Store_Reads\<close>, \<open>Store_Healthy\<close> (one
    specification per operation, on every branch), \<open>Store_Properties\<close>.
  \<^item> \<open>Lifecycle\<close> (the abstract machine and its invariant, locale \<open>invariant_system\<close>; the changes a verdict may
    make are a parameter of the machine), \<open>Service\<close> (the service as a transition system, the verdicts it may
    give a parameter, and its refinement of the machine), \<open>Lifecycle_Properties\<close> and
    \<open>Well_Formed\<close> (what holds in all runs), \<open>Lost_Replies\<close> (runs whose statements take effect without
    saying so, or whose audit writer is gone).
  \<^item> \<open>Signing\<close> (\<open>byos-common/src/eip712.rs\<close>), \<open>Settlement\<close> (\<open>byos-common/src/trampoline.rs\<close>,
    \<open>hooks.rs\<close>, \<open>settlement.rs\<close>, \<open>byos/src/infra/blockchain/simulation.rs\<close>).
  \<^item> \<open>Api\<close>, \<open>Api_Properties\<close> (\<open>byos/src/infra/api/routes.rs\<close>, \<open>error.rs\<close>, \<open>dto.rs\<close>, the gate of \<open>mod.rs\<close>,
    \<open>proposal-dto\<close>), \<open>Notify\<close> (\<open>api/notify.rs\<close>), \<open>Solve\<close>, \<open>Solve_Properties\<close> (\<open>api/solve.rs\<close>).
  \<^item> \<open>Orderbook\<close> (\<open>byos/src/infra/orderbook.rs\<close>), \<open>Validator\<close>, \<open>Validator_Properties\<close>
    (\<open>infra/blockchain/escrow.rs\<close>, \<open>validator.rs\<close>), \<open>Validation\<close> (\<open>infra/validation.rs\<close>; the locale
    \<open>tick_validator\<close> is the validator trait, interpreted on the production validator, on \<open>AcceptAll\<close> and
    on any validator at all).
  \<^item> \<open>Operator\<close> (\<open>infra/blockchain/operator.rs\<close>, the provider of the locale \<open>debit_edge\<close>),
    \<open>Penalty_Loop\<close> (\<open>infra/penalty.rs\<close>).
  \<^item> \<open>Audit_Writer\<close> (\<open>infra/audit.rs\<close>), \<open>Process\<close> (\<open>byos/src/run.rs\<close>, \<open>infra/retention.rs\<close>, \<open>serve\<close> of
    \<open>api/mod.rs\<close>; an abort only requests the cancellation, which the runtime carries out in steps),
    \<open>Startup_Log\<close> (the \<open>Debug\<close> text of the arguments of both programs, \<open>run.rs\<close> and
    \<open>subsolver/src/infra/cli.rs\<close>).
  \<^item> \<open>Listeners\<close> (the two routers of \<open>api/mod.rs\<close>, the bearer layer, a request from its route to its
    response), \<open>Program\<close> (the requests of both listeners and the passes of all loops over the one store,
    each a run of \<open>Service\<close>).
  \<^item> \<open>Collection\<close> (a report is carried out, what is due is debited), \<open>Bid_Simulation\<close> (what \<open>/solve\<close> bids is
    what the validator simulated), \<open>Progress\<close> (what is acceptable is accepted and bid), \<open>Deployed\<close> (the
    listeners and loops that \<open>run_with\<close> starts from the arguments, as one program): the components together.
  \<^item> \<open>Routing\<close>, \<open>Client\<close>, \<open>Subsolver\<close> (\<open>subsolver/src/domain/routing.rs\<close>, \<open>domain/proposal.rs\<close>,
    \<open>infra/byos.rs\<close>, \<open>infra/orderbook.rs\<close>, \<open>infra/blockchain.rs\<close>, \<open>infra/config.rs\<close>, \<open>run.rs\<close>).
  \<^item> \<open>End_To_End\<close>: the sub-solver's polls against the service's own handlers (locale \<open>proposal_service\<close>),
    interleaved with every other step of the service.
  \<^item> \<open>Test_Support\<close>, \<open>Store_Tests\<close> (\<open>storage.rs\<close>), \<open>Domain_Tests\<close> (\<open>byos/src/domain\<close>, \<open>domain/routing.rs\<close> of
    the sub-solver), \<open>Settlement_Tests\<close> (\<open>byos-common\<close>), \<open>Loop_Tests\<close> (\<open>validation.rs\<close>, \<open>penalty.rs\<close>),
    \<open>Router_Tests\<close>, \<open>Api_Tests\<close>, \<open>Notify_Tests\<close>, \<open>Solve_Tests\<close> (\<open>infra/api\<close>), \<open>Chain_Tests\<close> (\<open>orderbook.rs\<close>,
    \<open>infra/blockchain\<close>), \<open>Subsolver_Tests\<close>, \<open>Service_Tests\<close> (\<open>byos/src/tests\<close>): the repository's own tests as
    definitions over the model, each under its name in the code.

  \<^bold>\<open>How state and operations correspond.\<close> A struct is a record, an enum a datatype with the same
  constructors, \<open>Result<A, E>\<close> the sum \<open>e + a\<close>, \<open>Option\<close> is \<open>option\<close>. A store operation is a function
  from a \<open>store\<close> (tables, events sent, what the connection will do) to its result and the store it
  leaves; a handler adds the parts of the request it reads. A loop is a recursion over the readings of
  its clock. A panic is \<open>None\<close>. The validator's caches, the sub-solver's live set and nonce and the
  penalty loop's attempt counts are threaded through explicitly.

  \<^bold>\<open>Failures.\<close> Every SQL statement consults an entry of \<open>st_faults\<close>: none, \<open>Failed\<close> (an error without
  effect) or \<open>Unacknowledged\<close> (it took effect and its acknowledgement was lost). The specifications of the
  single operations and the invariants over runs are for connections whose statements fail at will but
  truthfully (\<open>reliable\<close>). Without that hypothesis \<open>Lost_Replies\<close> gives every run a truthful run beside it
  over the same tables, whose evidence contains the one emitted, so the whole program still refines the
  lifecycle but for the events it loses; that it does lose them is a theorem of its own. For the audit
  writer lost acknowledgements are part of the model. Between the sub-solver and the service requests and
  answers may get lost. What the node, the orderbook and the network answer is arbitrary; theorems
  about verdicts and debits say what those answers justified.

  \<^bold>\<open>Abstractions.\<close>
  \<^item> Transactions lock the row they read, so an operation of the store is atomic; operations of
    different callers interleave as steps, and a caller may act on a snapshot however stale.
  \<^item> In \<open>Program\<close> a request and a pass of a loop are one step each; what interleaves inside a handler or a
    tick is covered at the level of \<open>Service\<close>, where the single operations are the steps.
  \<^item> A handler, and a tick, reads each clock once. A validation reads the gas price once.
  \<^item> Validations of a tick run concurrently; their verdicts are written in any order (\<open>schedule\<close>, a
    permutation), each validation itself being atomic.
  \<^item> Texts of errors taken from third-party parsers are left out of the error values.
  \<^item> Durations and times are in microseconds, the resolution of the database, unless a theory says so.
  \<^item> Integer arithmetic without checks wraps, as in a release build (the sub-solver's deadline and nonce).

  \<^bold>\<open>Third-party code is a parameter\<close>, with what the code relies on as a named hypothesis that a
  concrete instance satisfies: \<open>codec\<close> with \<open>codec_ok\<close> and \<open>reads_u64\<close> (decimal and hexadecimal texts
  read back), \<open>crypto\<close> and \<open>signer\<close> with \<open>signs_as\<close> (recovery gives the signer), \<open>abi\<close> and \<open>client_abi\<close>
  (encoders, no law assumed except that signatures read back), \<open>world\<close>, \<open>node\<close>, \<open>network\<close> (replies), the
  choice of a matching route with \<open>dispatch_ok\<close> (static segments before captures, 404 and 405 otherwise;
  \<open>std_dispatch\<close> is an instance) and \<open>extractors\<close> (bodies and path parameters, or the status of the refusal).

  \<^bold>\<open>What the lemmas show.\<close> The domain: the arithmetic is exact or refuses, never wraps. The store: every
  operation on every branch as a change of the map and of the evidence. The lifecycle: statuses move
  along edges only, money states are final and cite their transactions, the evidence replays to the
  table. The clients: what is stored is what was signed, what is bid is backed and within the order,
  verdicts and debits are justified, nothing is debited twice, overdue proposals are expired. The
  listeners: the public one shows a caller its own proposals only and never the book, and changes one at
  most; the internal one lets nobody without the token near the driver's endpoints, whatever the method. The program: all of it together implements the lifecycle; nothing is
  bid that was not simulated as bid; an acceptable proposal is bid or beaten by a better one; a report of
  the driver is carried out, a reverted settlement is charged. The
  process: evidence is persisted in order through any finite outage, and the process ends without
  tasks or handles left, however the runtime schedules the cancellations. The sub-solver: its quotes are exact, its proposals are accepted as signed, its
  nonces are never reused, and run against the service it has one open proposal per order, besides those
  whose submission was accepted and whose answer was lost.

  \<^bold>\<open>What the tests show.\<close> A test is a program over the model's state that returns whether its assertions
  hold, and the test theories prove that all 258 of them (of the 278 in the code) pass: for any cryptography and ABI encoders
  that read back, any keys, and any clock where the code's test reads one. So the model behaves as the
  authors expect of the code at each of their examples, and the theorems speak of that behaviour.

  \<^bold>\<open>Restarts.\<close> A step of \<open>Program\<close> may end the process and boot it again over the same database: the caches,
  attempt counts and published gas price start afresh (\<open>bg_boots\<close>), the tables stay. What holds in every
  run therefore holds across restarts. The answers the validators of such a run ever meet are a set \<open>W\<close>;
  what was simulated was simulated with an answer in it.

  \<^bold>\<open>Termination and bounds.\<close> All functions are total except \<open>keep_inserting\<close>, the writer's retry, which
  ends only if the database answers; that it does is proved from \<open>recovers\<close>. The penalty loop gives a
  debit up after \<open>MAX_DEBIT_ATTEMPTS\<close>, which is proved to end its attempts.

  \<^bold>\<open>Not modelled.\<close> SQL text, connection pooling, migrations, serde and the inside of the HTTP framework
  (a panicking handler is an unanswered request); timers, sockets and signals; log lines other than the
  arguments; the argument and TOML parsers beyond defaults and the requirements between flags; the
  contract bindings, which are generated. Of the tests, those that watch a spawned task through real
  time, a transport or a third-party parser, those that pin a hash or an encoding (the encoders and
  \<open>keccak256\<close> are parameters), and the creation and sweep of test databases. The end-to-end harness and
  the examples, which drive a local chain and are not part of the program.
\<close>

end
